(* ===== verification/Sdk.thy ===== *)
theory Sdk
  imports Prelude
begin

text \<open>
  The Solana SDK as the engine sees it. None of this code is in the repository, so it is a
  parameter: the record \<open>sdk\<close> carries the functions the engine calls, and every
  definition that calls one takes the record as its first argument. The plain data that
  crosses the boundary (keys, accounts, instructions) are records with the fields the engine
  reads or writes.
\<close>

datatype pubkey = Pubkey (key_bytes: bytes)

definition default_pubkey :: pubkey where
  "default_pubkey = Pubkey (replicate 32 0)"

record account =
  acc_lamports :: u64
  acc_data :: bytes
  acc_owner :: pubkey

record account_meta =
  meta_key :: pubkey
  meta_signer :: bool
  meta_writable :: bool

definition meta_new :: "pubkey \<Rightarrow> bool \<Rightarrow> account_meta" where
  "meta_new key signer = \<lparr>meta_key = key, meta_signer = signer, meta_writable = True\<rparr>"

definition meta_readonly :: "pubkey \<Rightarrow> bool \<Rightarrow> account_meta" where
  "meta_readonly key signer = \<lparr>meta_key = key, meta_signer = signer, meta_writable = False\<rparr>"

record instruction =
  ix_program :: pubkey
  ix_accounts :: "account_meta list"
  ix_data :: bytes

record raw_transfer_fee =
  raw_basis_points :: u16
  raw_maximum_fee :: u64

text \<open>
  \<open>from_str\<close> is \<^verbatim>\<open>Pubkey::from_str(..).expect(..)\<close>, applied only to the program's own
  constants. \<open>transfer_fee_config\<close> unpacks a mint's data and returns the older and the newer
  entry of its transfer-fee extension, \<open>None\<close> when either step fails. \<open>transfer_hook\<close> says whether
  the data unpacks to a mint that carries the transfer-hook extension. The instruction
  constructors of the token program return a rendered error on the left.
\<close>

record sdk =
  from_str :: "string \<Rightarrow> pubkey"
  show_pubkey :: "pubkey \<Rightarrow> string"
  find_program_address :: "bytes list \<Rightarrow> pubkey \<Rightarrow> pubkey"
  associated_token_address :: "pubkey \<Rightarrow> pubkey \<Rightarrow> pubkey \<Rightarrow> pubkey"
  create_ata_idempotent :: "pubkey \<Rightarrow> pubkey \<Rightarrow> pubkey \<Rightarrow> pubkey \<Rightarrow> instruction"
  system_transfer :: "pubkey \<Rightarrow> pubkey \<Rightarrow> u64 \<Rightarrow> instruction"
  sync_native :: "pubkey \<Rightarrow> pubkey \<Rightarrow> string + instruction"
  transfer_checked ::
    "pubkey \<Rightarrow> pubkey \<Rightarrow> pubkey \<Rightarrow> pubkey \<Rightarrow> pubkey \<Rightarrow> pubkey list \<Rightarrow> u64 \<Rightarrow> u8 \<Rightarrow> string + instruction"
  close_account :: "pubkey \<Rightarrow> pubkey \<Rightarrow> pubkey \<Rightarrow> pubkey \<Rightarrow> pubkey list \<Rightarrow> string + instruction"
  set_compute_unit_limit :: "u32 \<Rightarrow> instruction"
  set_compute_unit_price :: "u64 \<Rightarrow> instruction"
  spl_token_id :: pubkey
  spl_token_2022_id :: pubkey
  transfer_fee_config :: "bytes \<Rightarrow> (raw_transfer_fee \<times> raw_transfer_fee) option"
  transfer_hook :: "bytes \<Rightarrow> bool"

section \<open>Constants of the repository\<close>

definition SOL_MINT :: string where
  "SOL_MINT = ''So11111111111111111111111111111111111111112''"

definition USDC_MINT :: string where
  "USDC_MINT = ''EPjFWdd5AufqSSqeM2qN1xzybapC8G4wEGGkZwyTDt1v''"

definition SYSTEM_PROGRAM_ID :: string where
  "SYSTEM_PROGRAM_ID = ''11111111111111111111111111111111''"

definition SPL_TOKEN_PROGRAM_ID :: string where
  "SPL_TOKEN_PROGRAM_ID = ''TokenkegQfeZyiNwAJbNbGKPFXCWuBvf9Ss623VQ5DA''"

definition TOKEN_2022_PROGRAM_ID :: string where
  "TOKEN_2022_PROGRAM_ID = ''TokenzQdBNbLqP5VEhdkAS6EPFLC1PHnBqCXEpPxuEb''"

definition ASSOCIATED_TOKEN_PROGRAM_ID :: string where
  "ASSOCIATED_TOKEN_PROGRAM_ID = ''ATokenGPvbdGVxr1b2hvZbsiqW5xWH25efTNsLJA8knL''"

definition MEMO_PROGRAM_ID :: string where
  "MEMO_PROGRAM_ID = ''MemoSq4gqABAXKb96qnH8TysNcWxMyWCqXgDLGmfcHr''"

definition RAYDIUM_LEGACY_AMM_PROGRAM_ID :: string where
  "RAYDIUM_LEGACY_AMM_PROGRAM_ID = ''675kPX9MHTjS2zt1qfr1NYHuzeLXfQM9H24wFSUt1Mp8''"

definition RAYDIUM_CPMM_PROGRAM_ID :: string where
  "RAYDIUM_CPMM_PROGRAM_ID = ''CPMMoo8L3F4NbTegBCKVNunggL7H1ZpdTHKxQB5qKP1C''"

definition RAYDIUM_CLMM_PROGRAM_ID :: string where
  "RAYDIUM_CLMM_PROGRAM_ID = ''CAMMCzo5YL8w4VFF8KVHrK22GGUsp5VTaW7grrKgrWqK''"

definition ORCA_WHIRLPOOL_PROGRAM_ID :: string where
  "ORCA_WHIRLPOOL_PROGRAM_ID = ''whirLbMiicVdio4qvUfM5KAg6Ct8VwpYzGff3uctyCc''"

definition METEORA_DAMM_PROGRAM_ID :: string where
  "METEORA_DAMM_PROGRAM_ID = ''cpamdpZCGKUy5JxQXB4dcpGPiikHawvSWAd6mEn1sGG''"

definition METEORA_DLMM_PROGRAM_ID :: string where
  "METEORA_DLMM_PROGRAM_ID = ''LBUZKhRxPF3XUpBCjp4YzTKgLccjZhTSDM9YuVaPwxo''"

definition METEORA_DBC_PROGRAM_ID :: string where
  "METEORA_DBC_PROGRAM_ID = ''dbcij3LWUppWqq96dh6gJWwBifmcGfLSB5D4DuSMaqN''"

definition PUMP_FUN_AMM_PROGRAM_ID :: string where
  "PUMP_FUN_AMM_PROGRAM_ID = ''pAMMBay6oceH9fJKBRHGP5D4bD4sWpmSwMn52FMfXEA''"

definition PUMP_FUN_LEGACY_PROGRAM_ID :: string where
  "PUMP_FUN_LEGACY_PROGRAM_ID = ''6EF8rrecthR5Dkzon8Nwu78hRvfCKubJ14M5uBEwF6P''"

definition MOONIT_AMM_PROGRAM_ID :: string where
  "MOONIT_AMM_PROGRAM_ID = ''MoonCVVNZFSYkqNXP6bxHLPL6QQJiMagDL3qcqUQTrG''"

definition FLUXBEAM_AMM_PROGRAM_ID :: string where
  "FLUXBEAM_AMM_PROGRAM_ID = ''FLUXubRmkEi2q6K3Y9kBPg9248ggaZVsoSFhtJHSrm1X''"

definition is_native_asset :: "string \<Rightarrow> bool" where
  "is_native_asset address \<longleftrightarrow> address = SOL_MINT \<or> address = SYSTEM_PROGRAM_ID"

definition wsol_mint :: "sdk \<Rightarrow> pubkey" where
  "wsol_mint sdk = from_str sdk SOL_MINT"

definition usdc_mint :: "sdk \<Rightarrow> pubkey" where
  "usdc_mint sdk = from_str sdk USDC_MINT"

definition is_wsol :: "sdk \<Rightarrow> pubkey \<Rightarrow> bool" where
  "is_wsol sdk mint \<longleftrightarrow> mint = wsol_mint sdk"

end
