(* ===== verification/Swap_Error.thy ===== *)
theory Swap_Error
  imports Sdk
begin

text \<open>
  \<^verbatim>\<open>src/chains/solana/swaps/direct/error.rs\<close>: the typed failures of the engine and the
  classifications every caller decides from, never from the message: whether anything
  reached the chain, whether the token is at fault, which signature must be reconciled,
  and whether another route may be tried.
\<close>

datatype direct_swap_error =
    UnsupportedVenue pubkey
  | PoolUndecodable pubkey string
  | PairNotInPool pubkey pubkey pubkey
  | PoolNotTradable pubkey string
  | InsufficientLiquidity pubkey u64 string
  | InvalidRequest string
  | AccountUnavailable pubkey string
  | NodeUnavailable string string
  | QuoteMath string
  | Build string
  | SimulationRejected string "string list"
  | SimulationUnavailable string
  | SubmitFailed string
  | BlockhashExpired string u64 u64
  | ConfirmationTimeout string u64
  | TransactionFailed string string
  | OutputNotReceived string u64 u64
  | InsufficientBalance pubkey u64 u64
  | MarketMoved pubkey u64 u64

type_synonym 'a direct_result = "direct_swap_error + 'a"

fun submitted :: "direct_swap_error \<Rightarrow> bool" where
  "submitted (ConfirmationTimeout _ _) = True"
| "submitted (TransactionFailed _ _) = True"
| "submitted (OutputNotReceived _ _ _) = True"
| "submitted _ = False"

fun is_token_fault :: "direct_swap_error \<Rightarrow> bool" where
  "is_token_fault (PairNotInPool _ _ _) = True"
| "is_token_fault (PoolNotTradable _ _) = True"
| "is_token_fault (InsufficientLiquidity _ _ _) = True"
| "is_token_fault _ = False"

fun settled_signature :: "direct_swap_error \<Rightarrow> string option" where
  "settled_signature (ConfirmationTimeout sig _) = Some sig"
| "settled_signature (OutputNotReceived sig _ _) = Some sig"
| "settled_signature _ = None"

fun error_signature :: "direct_swap_error \<Rightarrow> string option" where
  "error_signature (BlockhashExpired sig _ _) = Some sig"
| "error_signature (ConfirmationTimeout sig _) = Some sig"
| "error_signature (TransactionFailed sig _) = Some sig"
| "error_signature (OutputNotReceived sig _ _) = Some sig"
| "error_signature _ = None"

fun safe_to_fallback :: "direct_swap_error \<Rightarrow> bool" where
  "safe_to_fallback (MarketMoved _ _ _) = True"
| "safe_to_fallback (Build _) = True"
| "safe_to_fallback (SimulationRejected _ _) = True"
| "safe_to_fallback (SimulationUnavailable _) = True"
| "safe_to_fallback (SubmitFailed _) = True"
| "safe_to_fallback (BlockhashExpired _ _ _) = True"
| "safe_to_fallback (TransactionFailed _ _) = True"
| "safe_to_fallback _ = False"

text \<open>The message of each variant (\<^verbatim>\<open>impl Display\<close>).\<close>

fun show_error :: "sdk \<Rightarrow> direct_swap_error \<Rightarrow> string" where
  "show_error sdk (UnsupportedVenue program) =
     ''no direct-swap venue for program '' @ show_pubkey sdk program"
| "show_error sdk (PoolUndecodable pool detail) =
     ''pool '' @ show_pubkey sdk pool @ '' could not be decoded: '' @ detail"
| "show_error sdk (PairNotInPool pool input_mint output_mint) =
     ''pool '' @ show_pubkey sdk pool @ '' does not trade '' @ show_pubkey sdk input_mint
       @ '' -> '' @ show_pubkey sdk output_mint"
| "show_error sdk (PoolNotTradable pool detail) =
     ''pool '' @ show_pubkey sdk pool @ '' is not tradable: '' @ detail"
| "show_error sdk (InsufficientLiquidity pool amount_in detail) =
     ''pool '' @ show_pubkey sdk pool @ '' cannot fill '' @ show_word amount_in
       @ '' raw units: '' @ detail"
| "show_error sdk (InvalidRequest detail) = ''invalid swap request: '' @ detail"
| "show_error sdk (AccountUnavailable address detail) =
     ''account '' @ show_pubkey sdk address @ '' unavailable: '' @ detail"
| "show_error sdk (NodeUnavailable operation detail) =
     ''RPC call '' @ operation @ '' could not be completed: '' @ detail"
| "show_error sdk (QuoteMath detail) = ''quote math failed: '' @ detail"
| "show_error sdk (Build detail) = ''transaction build failed: '' @ detail"
| "show_error sdk (SimulationRejected detail logs) = ''simulation rejected the swap: '' @ detail"
| "show_error sdk (SimulationUnavailable detail) = ''simulation could not be run: '' @ detail"
| "show_error sdk (SubmitFailed detail) = ''swap submission failed: '' @ detail"
| "show_error sdk (BlockhashExpired sig last_valid_block_height current_block_height) =
     ''transaction '' @ sig @ '' was never seen and its blockhash expired (valid through block ''
       @ show_word last_valid_block_height @ '', current block '' @ show_word current_block_height
       @ ''); it can never land now, safe to retry''"
| "show_error sdk (ConfirmationTimeout sig waited_ms) =
     ''swap was submitted but transaction '' @ sig @ '' was not confirmed within ''
       @ show_word waited_ms @ ''ms; do not retry''"
| "show_error sdk (TransactionFailed sig detail) = ''swap '' @ sig @ '' failed on chain: '' @ detail"
| "show_error sdk (OutputNotReceived sig expected_minimum received) =
     ''swap '' @ sig @ '' confirmed but delivered '' @ show_word received @ '' raw units, below the ''
       @ show_word expected_minimum @ '' minimum''"
| "show_error sdk (InsufficientBalance mint required available) =
     ''wallet holds '' @ show_word available @ '' of '' @ show_pubkey sdk mint @ '', needs ''
       @ show_word required"
| "show_error sdk (MarketMoved pool accepted_min_net_out fresh_expected_net_out) =
     ''pool '' @ show_pubkey sdk pool @ '' moved: the trade accepted at a guaranteed ''
       @ show_word accepted_min_net_out @ '' raw units now only offers ''
       @ show_word fresh_expected_net_out"

text \<open>The verdicts of the routing layer the engine can produce (\<^verbatim>\<open>swaps/error.rs\<close>).\<close>

datatype quote_error =
    NoRoute string string
  | RouterRejected string string
  | Unavailable string string

definition into_quote_error :: "sdk \<Rightarrow> string \<Rightarrow> direct_swap_error \<Rightarrow> quote_error" where
  "into_quote_error sdk router e = (let detail = show_error sdk e in case e of
       PoolNotTradable _ _ \<Rightarrow> NoRoute router detail
     | PairNotInPool _ _ _ \<Rightarrow> NoRoute router detail
     | InsufficientLiquidity _ _ _ \<Rightarrow> NoRoute router detail
     | InvalidRequest _ \<Rightarrow> RouterRejected router detail
     | _ \<Rightarrow> Unavailable router detail)"

section \<open>The classifications agree\<close>

lemma settled_signature_submitted:
  "settled_signature e = Some sig \<Longrightarrow> submitted e \<and> error_signature e = Some sig"
  by (cases e) auto

lemma settled_not_safe: "settled_signature e = Some sig \<Longrightarrow> \<not> safe_to_fallback e"
  by (cases e) auto

lemma token_fault_not_submitted: "is_token_fault e \<Longrightarrow> \<not> submitted e"
  by (cases e) auto

lemma submitted_and_safe_iff:
  "submitted e \<and> safe_to_fallback e \<longleftrightarrow> (\<exists>sig detail. e = TransactionFailed sig detail)"
  by (cases e) auto

lemma submitted_cases:
  "submitted e \<longleftrightarrow> settled_signature e \<noteq> None \<or> (\<exists>sig detail. e = TransactionFailed sig detail)"
  by (cases e) auto

lemma no_route_iff_token_fault:
  "(\<exists>detail. into_quote_error sdk router e = NoRoute router detail) \<longleftrightarrow> is_token_fault e"
  by (cases e) (auto simp: into_quote_error_def Let_def)

section \<open>Consistency of the classifications\<close>

text \<open>The classifications of an error are consistent. An outcome that must be reconciled is
  never offered to another route; a token is only blamed for a swap that never reached the chain;
  the one outcome that both reached the chain and may be retried is a definite failure on chain;
  and the routing layer is told there is no route exactly when the token is at fault.\<close>

lemma error_classification:
  "\<not> (settled_signature e \<noteq> None \<and> safe_to_fallback e)
   \<and> \<not> (settled_signature e \<noteq> None \<and> \<not> submitted e)
   \<and> \<not> (is_token_fault e \<and> (submitted e \<or> safe_to_fallback e))
   \<and> ((submitted e \<and> safe_to_fallback e) = (\<exists>sig detail. e = TransactionFailed sig detail))
   \<and> ((\<exists>detail. into_quote_error sdk router e = NoRoute router detail) = is_token_fault e)"
  using no_route_iff_token_fault [of sdk router e] submitted_and_safe_iff [of e]
  by (cases e) simp_all

end
