(* ===== verification/F64.thy ===== *)
theory F64
  imports Complex_Main Prelude "HOL-Library.Log_Nat"
begin

text \<open>
  IEEE-754 binary64, as far as the engine uses it: a finite value is the rational it
  denotes, an operation computes exactly and rounds once, to nearest with ties to even,
  with gradual underflow and overflow to an infinity. The sign of a zero is not tracked;
  nothing in the modelled code can observe it (a division is always guarded against a
  zero divisor, which is read as \<open>+0\<close> here).
\<close>

datatype f64 = Finite rat | PosInf | NegInf | NaN

definition pow2 :: "int \<Rightarrow> rat" where
  "pow2 e = (if 0 \<le> e then 2 ^ nat e else 1 / 2 ^ nat (- e))"

text \<open>The exponent \<open>e\<close> with \<open>pow2 e \<le> x < pow2 (e + 1)\<close>, for a positive \<open>x\<close>.\<close>

definition exponent2 :: "rat \<Rightarrow> int" where
  "exponent2 x = (case quotient_of x of (p, q) \<Rightarrow>
     let e = bitlen p - bitlen q in if pow2 e \<le> x then e else e - 1)"

definition round_even :: "rat \<Rightarrow> int" where
  "round_even x = (let f = \<lfloor>x\<rfloor>; d = x - of_int f
     in if d < 1 / 2 then f else if 1 / 2 < d then f + 1 else if even f then f else f + 1)"

definition ulp :: "rat \<Rightarrow> rat" where
  "ulp x = pow2 (max (exponent2 \<bar>x\<bar>) (- 1022) - 52)"

definition round64 :: "rat \<Rightarrow> rat" where
  "round64 x = (if x = 0 then 0 else of_int (round_even (x / ulp x)) * ulp x)"

definition f64_of_rat :: "rat \<Rightarrow> f64" where
  "f64_of_rat x = (let r = round64 x
     in if 2 ^ 1024 \<le> r then PosInf else if r \<le> - (2 ^ 1024) then NegInf else Finite r)"

definition f64_of_u64 :: "u64 \<Rightarrow> f64" where
  "f64_of_u64 w = f64_of_rat (of_nat (unat w))"

fun f64_neg :: "f64 \<Rightarrow> f64" where
  "f64_neg (Finite a) = Finite (- a)"
| "f64_neg PosInf = NegInf"
| "f64_neg NegInf = PosInf"
| "f64_neg NaN = NaN"

fun f64_add :: "f64 \<Rightarrow> f64 \<Rightarrow> f64" where
  "f64_add NaN b = NaN"
| "f64_add a NaN = NaN"
| "f64_add (Finite a) (Finite b) = f64_of_rat (a + b)"
| "f64_add (Finite a) b = b"
| "f64_add a (Finite b) = a"
| "f64_add PosInf PosInf = PosInf"
| "f64_add NegInf NegInf = NegInf"
| "f64_add PosInf NegInf = NaN"
| "f64_add NegInf PosInf = NaN"

definition f64_sub :: "f64 \<Rightarrow> f64 \<Rightarrow> f64" where
  "f64_sub a b = f64_add a (f64_neg b)"

definition f64_sgn :: "f64 \<Rightarrow> int" where
  "f64_sgn a = (case a of Finite x \<Rightarrow> (if x < 0 then - 1 else if x = 0 then 0 else 1)
     | PosInf \<Rightarrow> 1 | NegInf \<Rightarrow> - 1 | NaN \<Rightarrow> 0)"

definition signed_inf :: "int \<Rightarrow> f64" where
  "signed_inf s = (if s = 0 then NaN else if 0 < s then PosInf else NegInf)"

fun f64_mul :: "f64 \<Rightarrow> f64 \<Rightarrow> f64" where
  "f64_mul NaN b = NaN"
| "f64_mul a NaN = NaN"
| "f64_mul (Finite a) (Finite b) = f64_of_rat (a * b)"
| "f64_mul a b = signed_inf (f64_sgn a * f64_sgn b)"

fun f64_div :: "f64 \<Rightarrow> f64 \<Rightarrow> f64" where
  "f64_div NaN b = NaN"
| "f64_div a NaN = NaN"
| "f64_div (Finite a) (Finite b) =
     (if b = 0 then signed_inf (f64_sgn (Finite a)) else f64_of_rat (a / b))"
| "f64_div (Finite a) b = Finite 0"
| "f64_div a (Finite b) = (if b < 0 then f64_neg a else a)"
| "f64_div a b = NaN"

text \<open>Comparisons are false on a \<^verbatim>\<open>NaN\<close>.\<close>

fun f64_less :: "f64 \<Rightarrow> f64 \<Rightarrow> bool" where
  "f64_less NaN b = False"
| "f64_less a NaN = False"
| "f64_less (Finite a) (Finite b) = (a < b)"
| "f64_less (Finite a) PosInf = True"
| "f64_less (Finite a) NegInf = False"
| "f64_less PosInf b = False"
| "f64_less NegInf NegInf = False"
| "f64_less NegInf b = True"

fun f64_le :: "f64 \<Rightarrow> f64 \<Rightarrow> bool" where
  "f64_le NaN b = False"
| "f64_le a NaN = False"
| "f64_le a b = (\<not> f64_less b a)"

text \<open>\<^verbatim>\<open>f64::clamp\<close>: a \<^verbatim>\<open>NaN\<close> passes through.\<close>

definition f64_clamp :: "f64 \<Rightarrow> f64 \<Rightarrow> f64 \<Rightarrow> f64" where
  "f64_clamp x lo hi = (if f64_less x lo then lo else if f64_less hi x then hi else x)"

definition f64_of_u128 :: "u128 \<Rightarrow> f64" where
  "f64_of_u128 w = f64_of_rat (of_nat (unat w))"

fun f64_abs :: "f64 \<Rightarrow> f64" where
  "f64_abs (Finite a) = Finite \<bar>a\<bar>"
| "f64_abs NegInf = PosInf"
| "f64_abs a = a"

text \<open>\<^verbatim>\<open>f64::round\<close> rounds half away from zero; a cast to \<^verbatim>\<open>u64\<close> truncates and saturates.\<close>

fun f64_round :: "f64 \<Rightarrow> f64" where
  "f64_round (Finite a) =
     Finite (of_int (if a < 0 then - \<lfloor>- a + 1 / 2\<rfloor> else \<lfloor>a + 1 / 2\<rfloor>))"
| "f64_round a = a"

fun f64_to_u64 :: "f64 \<Rightarrow> u64" where
  "f64_to_u64 (Finite a) =
     (if a \<le> 0 then 0 else if 2 ^ 64 \<le> a then - 1 else of_nat (nat \<lfloor>a\<rfloor>))"
| "f64_to_u64 PosInf = - 1"
| "f64_to_u64 NegInf = 0"
| "f64_to_u64 NaN = 0"

section \<open>Rounding\<close>

lemma pow2_pos [simp]: "0 < pow2 e"
  by (simp add: pow2_def)

lemma pow2_nonneg [simp]: "0 \<le> pow2 e"
  by (rule less_imp_le) simp

lemma pow2_add_one: "pow2 (e + 1) = 2 * pow2 e"
proof (cases "0 \<le> e")
  case True
  then show ?thesis by (simp add: pow2_def nat_add_distrib)
next
  case False
  then have "nat (- e) = Suc (nat (- (e + 1)))" by simp
  with False show ?thesis by (auto simp: pow2_def)
qed

lemma pow2_add_nat: "pow2 (e + int n) = 2 ^ n * pow2 e"
proof (induction n)
  case (Suc n)
  have "pow2 (e + int (Suc n)) = pow2 (e + int n + 1)" by (simp add: algebra_simps)
  then show ?case by (simp add: Suc pow2_add_one)
qed simp

lemma pow2_mono: "e \<le> e' \<Longrightarrow> pow2 e \<le> pow2 e'"
proof -
  assume "e \<le> e'"
  then obtain n where e': "e' = e + int n" by (metis zle_iff_zadd)
  have "1 * pow2 e \<le> 2 ^ n * pow2 e" by (intro mult_right_mono) simp_all
  then show ?thesis by (simp add: e' pow2_add_nat)
qed

lemma round_even_near: "\<bar>of_int (round_even x) - x\<bar> \<le> 1 / 2"
proof -
  have "of_int \<lfloor>x\<rfloor> \<le> x" and "x < of_int \<lfloor>x\<rfloor> + 1" by linarith+
  then show ?thesis by (auto simp: round_even_def Let_def)
qed

lemma ulp_pos [simp]: "0 < ulp x"
  by (simp add: ulp_def)

lemma round64_near:
  assumes "x \<noteq> 0"
  shows "\<bar>round64 x - x\<bar> \<le> ulp x / 2"
proof -
  let ?n = "of_int (round_even (x / ulp x)) :: rat"
  have "round64 x - x = (?n - x / ulp x) * ulp x"
    using assms by (simp add: round64_def left_diff_distrib less_imp_neq [OF ulp_pos, symmetric])
  then have "\<bar>round64 x - x\<bar> = \<bar>?n - x / ulp x\<bar> * ulp x" by (simp add: abs_mult abs_of_pos)
  also have "\<dots> \<le> 1 / 2 * ulp x" by (intro mult_right_mono round_even_near less_imp_le ulp_pos)
  finally show ?thesis by simp
qed

text \<open>The exponent is right: the leading bit of \<open>x\<close> has weight \<open>pow2 (exponent2 x)\<close>.\<close>

lemma bitlen_quotient:
  assumes "0 < p" and "0 < q"
  shows "pow2 (bitlen p - bitlen q - 1) \<le> of_int p / of_int q"
proof -
  define m n where "m = nat (bitlen p - 1)" and "n = nat (bitlen q)"
  have bp: "bitlen p = int m + 1" and bq: "bitlen q = int n"
    using assms bitlen_eq_zero_iff [of p] bitlen_nonneg [of p] bitlen_nonneg [of q]
    by (simp_all add: m_def n_def)
  have "2 ^ m \<le> p" using bitlen_bounds [of p] assms by (simp add: m_def)
  then have P: "(2 :: rat) ^ m \<le> of_int p" by (metis of_int_le_iff of_int_numeral of_int_power)
  have "q < 2 ^ n" using bitlen_bounds [of q] assms by (simp add: n_def)
  then have Q: "of_int q < (2 :: rat) ^ n" by (metis of_int_less_iff of_int_numeral of_int_power)
  have "pow2 (int m - int n) * 2 ^ n = 2 ^ m"
  proof -
    have "2 ^ n * pow2 (int m - int n) = pow2 (int m - int n + int n)" by (simp only: pow2_add_nat)
    moreover have "pow2 (int m - int n + int n) = 2 ^ m" by (simp add: pow2_def)
    ultimately show ?thesis by (simp only: mult.commute)
  qed
  then have "pow2 (int m - int n) = 2 ^ m / 2 ^ n" by (simp add: field_simps)
  also have "\<dots> \<le> of_int p / of_int q"
    using P Q assms by (intro frac_le) simp_all
  finally show ?thesis by (simp add: bp bq)
qed

lemma pow2_exponent2_le: "0 < x \<Longrightarrow> pow2 (exponent2 x) \<le> x"
proof -
  assume x: "0 < x"
  obtain p q where pq: "quotient_of x = (p, q)" by force
  then have xq: "x = of_int p / of_int q" and q: "0 < q"
    by (simp_all add: quotient_of_div quotient_of_denom_pos)
  then have p: "0 < p" using x by (simp add: zero_less_divide_iff)
  show ?thesis
    using bitlen_quotient [OF p q] unfolding exponent2_def pq by (simp add: Let_def flip: xq)
qed

lemma half_ulp_le: "x \<noteq> 0 \<Longrightarrow> ulp x / 2 \<le> \<bar>x\<bar> + 1"
proof (cases "exponent2 \<bar>x\<bar> \<le> - 1022")
  case True
  then have "ulp x = pow2 (- 1074)" by (simp add: ulp_def max_def)
  also have "\<dots> \<le> pow2 0" by (rule pow2_mono) simp
  also have "pow2 0 = 1" by (simp add: pow2_def)
  finally show ?thesis using abs_ge_zero [of x] by linarith
next
  case False
  assume "x \<noteq> 0"
  from False have "ulp x = pow2 (exponent2 \<bar>x\<bar> - 52)" by (simp add: ulp_def max_def)
  also have "\<dots> \<le> pow2 (exponent2 \<bar>x\<bar>)" by (rule pow2_mono) simp
  also have "\<dots> \<le> \<bar>x\<bar>" using \<open>x \<noteq> 0\<close> by (intro pow2_exponent2_le) simp
  finally show ?thesis by simp
qed

lemma round64_bound: "\<bar>round64 x\<bar> \<le> 2 * \<bar>x\<bar> + 1"
proof (cases "x = 0")
  case False
  then show ?thesis using round64_near [of x] half_ulp_le [of x] by linarith
qed (simp add: round64_def)

definition f64_within :: "rat \<Rightarrow> f64 \<Rightarrow> bool" where
  "f64_within b a \<longleftrightarrow> (\<exists>x. a = Finite x \<and> \<bar>x\<bar> \<le> b)"

lemma f64_of_rat_within:
  assumes "\<bar>x\<bar> \<le> b" and "2 * b + 1 < 2 ^ 1024"
  shows "f64_within (2 * b + 1) (f64_of_rat x)"
proof -
  have "\<bar>round64 x\<bar> \<le> 2 * b + 1" using round64_bound [of x] assms(1) by linarith
  moreover from this assms(2) have "\<not> 2 ^ 1024 \<le> round64 x" "\<not> round64 x \<le> - (2 ^ 1024)"
    by linarith+
  ultimately show ?thesis by (simp add: f64_of_rat_def f64_within_def Let_def)
qed

lemma round64_ge_half:
  assumes "1 \<le> x"
  shows "x / 2 \<le> round64 x"
proof -
  have "ulp x / 2 \<le> x / 2"
  proof (cases "exponent2 \<bar>x\<bar> \<le> - 1022")
    case True
    then have "ulp x = pow2 (- 1074)" by (simp add: ulp_def max_def)
    also have "\<dots> \<le> pow2 0" by (rule pow2_mono) simp
    also have "pow2 0 = 1" by (simp add: pow2_def)
    finally show ?thesis using assms by linarith
  next
    case False
    then have "ulp x = pow2 (exponent2 \<bar>x\<bar> - 52)" by (simp add: ulp_def max_def)
    also have "\<dots> \<le> pow2 (exponent2 \<bar>x\<bar>)" by (rule pow2_mono) simp
    also have "\<dots> \<le> \<bar>x\<bar>" using assms by (intro pow2_exponent2_le) simp
    finally show ?thesis using assms by simp
  qed
  moreover have "x - round64 x \<le> ulp x / 2"
    using round64_near [of x] assms by linarith
  ultimately show ?thesis by linarith
qed

lemma f64_of_rat_not_NaN [simp]: "f64_of_rat x \<noteq> NaN"
  by (simp add: f64_of_rat_def Let_def)

lemma f64_mul_100_not_NaN [simp]: "a \<noteq> NaN \<Longrightarrow> f64_mul a (Finite 100) \<noteq> NaN"
  by (cases a) (simp_all add: signed_inf_def f64_sgn_def)

lemma f64_div_pos_not_NaN: "a \<noteq> NaN \<Longrightarrow> 0 < x \<Longrightarrow> f64_div a (Finite x) \<noteq> NaN"
  by (cases a) simp_all

lemma f64_clamp_range:
  "a \<noteq> NaN \<Longrightarrow> lo \<le> hi \<Longrightarrow>
     \<exists>x. f64_clamp a (Finite lo) (Finite hi) = Finite x \<and> lo \<le> x \<and> x \<le> hi"
  by (cases a) (auto simp: f64_clamp_def)

lemma f64_of_u64_finite:
  "\<exists>x. f64_of_u64 w = Finite x \<and> 0 \<le> x \<and> x \<le> 2 ^ 66 \<and> (w \<noteq> 0 \<longrightarrow> 1 / 2 \<le> x)"
proof (cases "w = 0")
  case True
  then show ?thesis by (simp add: f64_of_u64_def f64_of_rat_def round64_def Let_def)
next
  case False
  define n :: rat where "n = of_nat (unat w)"
  have "1 \<le> unat w" using False by (simp add: Suc_le_eq unat_gt_0)
  then have "1 \<le> n" unfolding n_def by (metis of_nat_1 of_nat_le_iff)
  moreover have "unat w \<le> 2 ^ 64" using unat_u64_lt [of w] by simp
  then have "n \<le> 2 ^ 64" unfolding n_def by (metis of_nat_le_iff of_nat_numeral of_nat_power)
  ultimately have "n / 2 \<le> round64 n" "\<bar>round64 n\<bar> \<le> 2 * 2 ^ 64 + 1"
    using round64_ge_half [of n] round64_bound [of n] by auto
  moreover have "f64_of_u64 w = f64_of_rat n" unfolding f64_of_u64_def n_def ..
  ultimately show ?thesis using \<open>1 \<le> n\<close> by (auto simp: f64_of_rat_def Let_def)
qed

end
