(* ===== verification/Curve_Math.thy ===== *)
theory Curve_Math
  imports Prelude F64
begin

text \<open>
  \<^verbatim>\<open>src/chains/solana/swaps/direct/venues/math.rs\<close>: the arithmetic every venue shares.
  The constant-product routines work in \<^verbatim>\<open>u128\<close>; the concentrated-liquidity ones need a
  256-bit intermediate, kept as two \<^verbatim>\<open>u128\<close> limbs and divided one bit at a time. Each
  routine gets one lemma that says what it computes on natural numbers; the venues
  never look inside again.
\<close>

section \<open>Constant-product arithmetic\<close>

definition ceil_div :: "u128 \<Rightarrow> u128 \<Rightarrow> u128" where
  "ceil_div numerator denominator =
     (if denominator = 0 then 0 else div_ceil numerator denominator)"

definition fee_amount :: "u64 \<Rightarrow> u64 \<Rightarrow> u64 \<Rightarrow> u64" where
  "fee_amount amount rate denominator =
     (if rate = 0 \<or> denominator = 0 then 0
      else ucast (min (ceil_div (ucast amount * ucast rate) (ucast denominator))
                      (ucast amount :: u128)))"

definition constant_product_out :: "u64 \<Rightarrow> u64 \<Rightarrow> u64 \<Rightarrow> u64" where
  "constant_product_out reserve_in reserve_out amount_in =
     (if reserve_in = 0 \<or> reserve_out = 0 \<or> amount_in = 0 then 0
      else let numerator = (ucast reserve_out :: u128) * ucast amount_in;
               denominator = (ucast reserve_in :: u128) + ucast amount_in;
               out = numerator div denominator
           in ucast (min out (saturating_sub (ucast reserve_out) 1)))"

text \<open>The price impact is a display figure in binary64; no decision of the engine reads it.\<close>

definition price_impact_pct :: "u64 \<Rightarrow> u64 \<Rightarrow> u64 \<Rightarrow> u64 \<Rightarrow> f64" where
  "price_impact_pct reserve_in reserve_out amount_in amount_out =
     (if reserve_in = 0 \<or> reserve_out = 0 \<or> amount_in = 0 \<or> amount_out = 0 then Finite 0
      else let spot = f64_div (f64_of_u64 reserve_out) (f64_of_u64 reserve_in);
               realised = f64_div (f64_of_u64 amount_out) (f64_of_u64 amount_in)
           in if f64_le spot (Finite 0) then Finite 0
              else f64_clamp (f64_mul (f64_div (f64_sub spot realised) spot) (Finite 100))
                     (Finite 0) (Finite 100))"

section \<open>256-bit intermediates\<close>

definition LOW_64 :: u128 where
  "LOW_64 = 0xFFFFFFFFFFFFFFFF"

definition mul_full :: "u128 \<Rightarrow> u128 \<Rightarrow> u128 \<times> u128" where
  "mul_full a b =
     (let a_hi = drop_bit 64 a; a_lo = a AND LOW_64;
          b_hi = drop_bit 64 b; b_lo = b AND LOW_64;
          low_low = a_lo * b_lo;
          low_high = a_lo * b_hi;
          high_low = a_hi * b_lo;
          high_high = a_hi * b_hi;
          middle = drop_bit 64 low_low + (low_high AND LOW_64) + (high_low AND LOW_64);
          low = (low_low AND LOW_64) OR push_bit 64 middle;
          high = high_high + drop_bit 64 low_high + drop_bit 64 high_low + drop_bit 64 middle
      in (high, low))"

text \<open>One round of the long division: shift the next bit of \<open>low\<close> in, subtract when the
  divisor fits or when the top bit fell out of the shifted remainder.\<close>

definition div_round :: "u128 \<Rightarrow> u128 \<Rightarrow> nat \<Rightarrow> u128 \<times> u128 \<Rightarrow> u128 \<times> u128" where
  "div_round low divisor i = (\<lambda>(remainder, quotient).
     let carry = drop_bit 127 remainder;
         remainder = push_bit 1 remainder OR (drop_bit i low AND 1)
     in if carry = 1 \<or> divisor \<le> remainder
        then (remainder - divisor, quotient OR push_bit i 1)
        else (remainder, quotient))"

definition div_full :: "u128 \<Rightarrow> u128 \<Rightarrow> u128 \<Rightarrow> u128 option" where
  "div_full high low divisor =
     (if divisor = 0 \<or> divisor \<le> high then None
      else Some (snd (fold (div_round low divisor) (rev [0..<128]) (high, 0))))"

definition mul_div_floor :: "u128 \<Rightarrow> u128 \<Rightarrow> u128 \<Rightarrow> u128 option" where
  "mul_div_floor a b denominator =
     (let (high, low) = mul_full a b in div_full high low denominator)"

definition mul_div_ceil :: "u128 \<Rightarrow> u128 \<Rightarrow> u128 \<Rightarrow> u128 option" where
  "mul_div_ceil a b denominator = do {
     floor \<leftarrow> mul_div_floor a b denominator;
     if mul_full floor denominator = mul_full a b then Some floor
     else checked_add floor 1
   }"

definition mul_shr128_floor :: "u128 \<Rightarrow> u128 \<Rightarrow> u128" where
  "mul_shr128_floor a b = fst (mul_full a b)"

definition mul_shr128_ceil :: "u128 \<Rightarrow> u128 \<Rightarrow> u128" where
  "mul_shr128_ceil a b =
     (let (high, low) = mul_full a b
      in if low = 0 then high else saturating_add high 1)"

definition shl128_div_floor :: "u128 \<Rightarrow> u128 \<Rightarrow> u128 option" where
  "shl128_div_floor numerator denominator = div_full numerator 0 denominator"

section \<open>What the constant-product routines compute\<close>

lemma unat_mul_u64 [simp, unat_simps]:
  "unat ((ucast (a :: u64) :: u128) * ucast (b :: u64)) = unat a * unat b"
proof -
  have "unat a * unat b < 2 ^ 64 * 2 ^ 64"
    using unat_u64_lt [of a] unat_u64_lt [of b] by (intro mult_strict_mono') simp_all
  then show ?thesis by (subst unat_mul_exact) simp_all
qed

lemma unat_add_u64 [simp, unat_simps]:
  "unat ((ucast (a :: u64) :: u128) + ucast (b :: u64)) = unat a + unat b"
  using unat_u64_lt [of a] unat_u64_lt [of b] by (subst unat_add_exact) simp_all

lemma cdiv_mult_ge: "0 < b \<Longrightarrow> a \<le> cdiv a b * b"
proof -
  assume "0 < b"
  have a: "a = a div b * b + a mod b" by simp
  have m: "a mod b < b" using \<open>0 < b\<close> by simp
  show ?thesis
  proof (cases "a mod b = 0")
    case True
    with a show ?thesis by (simp add: cdiv_def)
  next
    case False
    have "a \<le> a div b * b + b" using a m by linarith
    with False show ?thesis by (simp add: cdiv_def)
  qed
qed

lemma cdiv_le_iff: "0 < b \<Longrightarrow> cdiv a b \<le> c \<longleftrightarrow> a \<le> c * b"
proof
  assume b: "0 < b" and "cdiv a b \<le> c"
  then have "cdiv a b * b \<le> c * b" by simp
  with cdiv_mult_ge [OF b, of a] show "a \<le> c * b" by linarith
next
  assume b: "0 < b" and le: "a \<le> c * b"
  show "cdiv a b \<le> c"
  proof (cases "a mod b = 0")
    case True
    then show ?thesis using le b by (simp add: cdiv_def) (metis div_le_mono nonzero_mult_div_cancel_right not_less0 b)
  next
    case False
    then have "a \<noteq> c * b" by auto
    with le have "a < c * b" by simp
    then have "a div b < c" using b by (simp add: div_less_iff_less_mult)
    then show ?thesis using False by (simp add: cdiv_def)
  qed
qed

lemma div_le_cdiv: "a div b \<le> cdiv a b"
  by (simp add: cdiv_def)

lemma cdiv_mono: "a \<le> a' \<Longrightarrow> cdiv a b \<le> cdiv a' b"
proof (cases "b = 0")
  case True
  assume "a \<le> a'"
  with True show ?thesis by (auto simp: cdiv_def)
next
  case False
  assume "a \<le> a'"
  have "a' \<le> cdiv a' b * b" using False by (intro cdiv_mult_ge) simp
  with \<open>a \<le> a'\<close> have "a \<le> cdiv a' b * b" by simp
  then show ?thesis using False by (simp add: cdiv_le_iff)
qed

lemma unat_div_ceil_aux:
  assumes "unat b \<noteq> 1 \<or> unat a + 1 < 2 ^ LENGTH('a)" and "b \<noteq> 0"
  shows "unat (div_ceil a b :: 'a::len word) = cdiv (unat a) (unat b)"
proof (cases "a mod b = 0")
  case True
  then have "unat a mod unat b = 0" by (simp flip: unat_mod)
  with True show ?thesis by (simp add: div_ceil_def cdiv_def unat_div)
next
  case False
  then have m: "unat a mod unat b \<noteq> 0" by (metis unat_mod unat_eq_0)
  then have "unat b \<noteq> 1" by auto
  moreover have "unat b \<noteq> 0" using assms(2) by (simp add: unat_eq_0)
  ultimately have "unat b \<ge> 2" by simp
  then have "unat a div unat b \<le> unat a div 2" by (intro div_le_mono2) simp_all
  moreover have "unat a \<noteq> 0" using m by (intro notI) simp
  ultimately have "unat a div unat b + 1 \<le> unat a" by linarith
  then have "unat a div unat b + 1 < 2 ^ LENGTH('a)"
    using unat_lt [of a] by (rule le_less_trans)
  then have "unat (a div b + 1) = unat a div unat b + 1"
    by (subst unat_add_exact) (simp_all add: unat_div)
  moreover have "div_ceil a b = a div b + 1"
    using False by (metis div_ceil_def word_gt_0)
  ultimately show ?thesis using m by (simp add: cdiv_def)
qed

lemma unat_div_ceil [unat_simps]:
  assumes "b \<noteq> 0"
  shows "unat (div_ceil a b :: 'a::len word) = cdiv (unat a) (unat b)"
proof (cases "unat b = 1")
  case True
  then have "b = 1" by (metis unat_1 unsigned_word_eqI)
  then show ?thesis by (simp add: div_ceil_def cdiv_def)
next
  case False
  then show ?thesis using assms by (intro unat_div_ceil_aux) simp_all
qed

lemma unat_ceil_div [unat_simps]:
  "unat (ceil_div a b) = (if unat b = 0 then 0 else cdiv (unat a) (unat b))"
  by (simp add: ceil_div_def unat_div_ceil unat_eq_0)

lemma unat_fee_amount [unat_simps]:
  "unat (fee_amount a r d) =
     (if unat d = 0 then 0 else min (cdiv (unat a * unat r) (unat d)) (unat a))"
proof (cases "r = 0 \<or> d = 0")
  case True
  then show ?thesis by (auto simp: fee_amount_def cdiv_def)
next
  case False
  then have d: "unat d \<noteq> 0" by (simp add: unat_eq_0)
  have "unat (fee_amount a r d) = min (cdiv (unat a * unat r) (unat d)) (unat a) mod 2 ^ 64"
    using False d by (simp add: fee_amount_def unat_narrow unat_ceil_div)
  moreover have "min (cdiv (unat a * unat r) (unat d)) (unat a) < 2 ^ 64"
    using unat_u64_lt [of a] by simp
  ultimately show ?thesis using d by simp
qed

lemma fee_amount_le: "fee_amount a r d \<le> a"
  by (simp add: word_le_nat_alt unat_fee_amount)

text \<open>The pool keeps at least one unit: the clamp of the code never fires.\<close>

lemma cp_div_lt:
  assumes "0 < x"
  shows "y * a div (x + a) < (y :: nat) \<or> y = 0"
proof (cases "y = 0")
  case False
  then have "y * a < y * (x + a)" using assms by simp
  then have "y * a div (x + a) < y" using assms by (simp add: div_less_iff_less_mult)
  then show ?thesis ..
qed simp

lemma unat_constant_product_out [unat_simps]:
  "unat (constant_product_out ri ro a) =
     (if unat ri = 0 then 0 else unat ro * unat a div (unat ri + unat a))"
proof (cases "ri = 0 \<or> ro = 0 \<or> a = 0")
  case True
  then show ?thesis by (auto simp: constant_product_out_def)
next
  case False
  then have ri: "0 < unat ri" and ro: "0 < unat ro" by (simp_all add: unat_gt_0)
  let ?q = "unat ro * unat a div (unat ri + unat a)"
  from cp_div_lt [OF ri, of "unat ro" "unat a"] ro have q: "?q < unat ro" by auto
  have "unat (constant_product_out ri ro a) = min ?q (unat ro - 1) mod 2 ^ 64"
    using False by (simp add: constant_product_out_def unat_narrow unat_div)
  also have "min ?q (unat ro - 1) = ?q" using q by simp
  also have "?q mod 2 ^ 64 = ?q" using q unat_u64_lt [of ro] by simp
  finally show ?thesis using ri by simp
qed

lemma f64_ratio_finite:
  assumes "b \<noteq> 0"
  shows "\<exists>x. f64_div (f64_of_u64 a) (f64_of_u64 b) = Finite x"
proof -
  obtain x where x: "f64_of_u64 a = Finite x" "0 \<le> x" "x \<le> 2 ^ 66"
    using f64_of_u64_finite [of a] by blast
  obtain y where y: "f64_of_u64 b = Finite y" "1 / 2 \<le> y"
    using f64_of_u64_finite [of b] assms by blast
  have "x / y \<le> 2 ^ 66 / (1 / 2)" using x y by (intro frac_le) simp_all
  moreover have "0 \<le> x / y" using x y by simp
  ultimately have "\<bar>x / y\<bar> \<le> 2 ^ 66 / (1 / 2)" by linarith
  then have "f64_within (2 * (2 ^ 66 / (1 / 2)) + 1) (f64_of_rat (x / y))"
    by (rule f64_of_rat_within) simp
  then show ?thesis using x y by (auto simp: f64_within_def)
qed

lemma price_impact_range: "\<exists>x. price_impact_pct ri ro a out = Finite x \<and> 0 \<le> x \<and> x \<le> 100"
proof (cases "ri = 0 \<or> ro = 0 \<or> a = 0 \<or> out = 0")
  case False
  then obtain s r where s: "f64_div (f64_of_u64 ro) (f64_of_u64 ri) = Finite s"
    and r: "f64_div (f64_of_u64 out) (f64_of_u64 a) = Finite r"
    using f64_ratio_finite [of ri ro] f64_ratio_finite [of a out] by blast
  show ?thesis
  proof (cases "0 < s")
    case True
    have "f64_sub (Finite s) (Finite r) \<noteq> NaN" by (simp add: f64_sub_def)
    then have "f64_mul (f64_div (f64_sub (Finite s) (Finite r)) (Finite s)) (Finite 100) \<noteq> NaN"
      using True by (intro f64_mul_100_not_NaN f64_div_pos_not_NaN)
    from f64_clamp_range [OF this, of 0 100] show ?thesis
      using False True by (simp add: price_impact_pct_def s r Let_def)
  qed (use False in \<open>simp add: price_impact_pct_def s r\<close>)
qed (auto simp: price_impact_pct_def)

section \<open>What the 256-bit routines compute\<close>

lemma unat_drop_bit [unat_simps]: "unat (drop_bit n x) = unat x div 2 ^ n"
  using unat_drop_bit_eq [of n x] by (simp only: drop_bit_eq_div [where 'a = nat])

lemma unat_and_low64 [unat_simps]: "unat (x AND LOW_64) = unat x mod 2 ^ 64"
proof -
  have low: "LOW_64 = mask 64" by (simp add: LOW_64_def mask_eq_exp_minus_1)
  have "unat (x AND LOW_64) = unat (take_bit 64 x)"
    by (simp only: low take_bit_eq_mask)
  also have "\<dots> = take_bit 64 (unat x)" by (rule unsigned_take_bit_eq)
  finally show ?thesis by (simp only: take_bit_eq_mod)
qed

lemma unat_or_disjoint:
  assumes "unat x < 2 ^ n"
  shows "unat (x OR push_bit n y) = unat x + unat (push_bit n y :: 'a::len word)"
proof -
  have nb: "\<not> bit x k" if "n \<le> k" for k
  proof -
    have "unat x < 2 ^ k" using assms that by (rule less_le_trans [OF _ power_increasing]) simp
    then have "\<not> bit (unat x) k" by (simp add: bit_iff_odd)
    then show ?thesis by (simp add: bit_unsigned_iff)
  qed
  have "unat x AND unat (push_bit n y) = 0"
    by (rule bit_eqI) (use nb in \<open>auto simp: bit_and_iff bit_unsigned_iff bit_push_bit_iff\<close>)
  then show ?thesis by (simp only: unsigned_or_eq disjunctive_add_eq_or)
qed

lemma unat_push_bit [unat_simps]: "unat (push_bit n x :: 'a::len word) = unat x * 2 ^ n mod 2 ^ LENGTH('a)"
proof -
  have "unat (push_bit n x) = take_bit LENGTH('a) (push_bit n (unat x))"
    by (rule unsigned_push_bit_eq)
  then show ?thesis by (simp only: push_bit_eq_mult [where 'a = nat] take_bit_eq_mod)
qed

text \<open>Two limbs read as one 256-bit number.\<close>

abbreviation limbs :: "u128 \<times> u128 \<Rightarrow> nat" where
  "limbs p \<equiv> unat (fst p) * 2 ^ 128 + unat (snd p)"

lemma limb_product:
  fixes K A B :: nat
  defines "ah \<equiv> A div K" and "al \<equiv> A mod K" and "bh \<equiv> B div K" and "bl \<equiv> B mod K"
  defines "M \<equiv> al * bl div K + al * bh mod K + ah * bl mod K"
  shows "(ah * bh + al * bh div K + ah * bl div K + M div K) * (K * K)
           + (al * bl mod K + M mod K * K) = A * B"
proof -
  define p q r s t u where "p = al * bh div K" and "q = al * bh mod K" and "r = ah * bl div K"
    and "s = ah * bl mod K" and "t = al * bl div K" and "u = al * bl mod K"
  note pieces = p_def q_def r_def s_def t_def u_def
  have eqs: "al * bh = p * K + q" "ah * bl = r * K + s" "al * bl = t * K + u"
    by (simp_all add: pieces)
  have M: "M = t + q + s" by (simp add: M_def pieces)
  define m n where "m = M div K" and "n = M mod K"
  have Mmn: "M = m * K + n" by (simp add: m_def n_def)
  have "A * B = (ah * K + al) * (bh * K + bl)"
    by (simp add: ah_def al_def bh_def bl_def)
  also have "\<dots> = ah * bh * (K * K) + (al * bh + ah * bl) * K + al * bl"
    by (simp add: algebra_simps)
  also have "\<dots> = (ah * bh + p + r) * (K * K) + M * K + u"
    unfolding eqs M by (simp add: algebra_simps)
  also have "\<dots> = (ah * bh + p + r + m) * (K * K) + (u + n * K)"
    unfolding Mmn by (simp add: algebra_simps)
  finally show ?thesis by (simp add: pieces m_def n_def)
qed

lemma limbs_mul_full: "limbs (mul_full a b) = unat a * unat b"
proof -
  define K :: nat where "K = 2 ^ 64"
  have KK: "K * K = 2 ^ 128" by (simp add: K_def)
  have K0: "0 < K" by (simp add: K_def)
  define ah al bh bl where "ah = unat a div K" and "al = unat a mod K"
    and "bh = unat b div K" and "bl = unat b mod K"
  note parts = ah_def al_def bh_def bl_def
  have lt: "ah < K" "al < K" "bh < K" "bl < K"
    using unat_lt [of a] unat_lt [of b] K0 by (simp_all add: parts div_less_iff_less_mult KK)
  have prod: "x * y < 2 ^ 128" if "x < K" "y < K" for x y
    using that unfolding KK [symmetric] by (intro mult_strict_mono') simp_all
  let ?al = "a AND LOW_64" and ?ah = "drop_bit 64 a" and ?bl = "b AND LOW_64" and ?bh = "drop_bit 64 b"
  have u: "unat ?al = al" "unat ?ah = ah" "unat ?bl = bl" "unat ?bh = bh"
    by (simp_all only: unat_and_low64 unat_drop_bit parts K_def)
  have up: "unat (?al * ?bl) = al * bl" "unat (?al * ?bh) = al * bh"
      "unat (?ah * ?bl) = ah * bl" "unat (?ah * ?bh) = ah * bh"
    using prod lt by (simp_all add: unat_mul_exact u)
  define M where "M = al * bl div K + al * bh mod K + ah * bl mod K"
  let ?M = "drop_bit 64 (?al * ?bl) + (?al * ?bh AND LOW_64) + (?ah * ?bl AND LOW_64)"
  have "al * bl div K < K" using prod [of al bl] lt K0 by (simp add: div_less_iff_less_mult KK)
  moreover have "al * bh mod K < K" "ah * bl mod K < K" using K0 by simp_all
  ultimately have Mb: "M < 3 * K" unfolding M_def by linarith
  have uM: "unat ?M = M"
    using Mb unfolding M_def K_def
    by (simp add: unat_add_exact unat_drop_bit unat_and_low64 up)
  have "unat ((?al * ?bl AND LOW_64) OR push_bit 64 ?M)
      = unat (?al * ?bl AND LOW_64) + unat (push_bit 64 ?M)"
    by (rule unat_or_disjoint) (simp add: unat_and_low64)
  also have "\<dots> = al * bl mod K + M * K mod (K * K)"
    by (simp only: unat_and_low64 up unat_push_bit uM KK len_of_numeral_defs) (simp add: K_def)
  also have "M * K mod (K * K) = M mod K * K" by (simp add: mult_mod_left)
  finally have low: "unat ((?al * ?bl AND LOW_64) OR push_bit 64 ?M) = al * bl mod K + M mod K * K" .
  define H where "H = ah * bh + al * bh div K + ah * bl div K + M div K"
  have eq: "H * (K * K) + (al * bl mod K + M mod K * K) = unat a * unat b"
    unfolding H_def M_def parts by (rule limb_product)
  have "unat a * unat b < (K * K) * (K * K)"
    using unat_lt [of a] unat_lt [of b] unfolding KK by (intro mult_strict_mono') simp_all
  with eq have "H * (K * K) < (K * K) * (K * K)" by linarith
  then have Hb: "H < 2 ^ 128" unfolding KK by simp
  have high: "unat (?ah * ?bh + drop_bit 64 (?al * ?bh) + drop_bit 64 (?ah * ?bl) + drop_bit 64 ?M) = H"
    using Hb unfolding H_def
    by (simp add: unat_add_exact unat_drop_bit up uM K_def)
  show ?thesis
    using eq unfolding KK by (simp only: mul_full_def Let_def low high fst_conv snd_conv)
qed

lemma mul_full_inj: "mul_full a b = mul_full c d \<longleftrightarrow> unat a * unat b = unat c * unat d"
proof
  assume "unat a * unat b = unat c * unat d"
  then have eq: "limbs (mul_full a b) = limbs (mul_full c d)"
    by (simp only: limbs_mul_full)
  then have "limbs (mul_full a b) div 2 ^ 128 = limbs (mul_full c d) div 2 ^ 128"
    and "limbs (mul_full a b) mod 2 ^ 128 = limbs (mul_full c d) mod 2 ^ 128" by simp_all
  then show "mul_full a b = mul_full c d"
    using unat_u128_lt [of "snd (mul_full a b)"] unat_u128_lt [of "snd (mul_full c d)"]
    by (simp add: prod_eq_iff word_unat_eq_iff)
qed (metis limbs_mul_full)

text \<open>
  The loop invariant of the long division, after the bits \<open>127 \<dots> n\<close>: the quotient holds
  only bits at or above \<open>n\<close>, the remainder is below the divisor, and together they
  account for exactly the bits of the dividend consumed so far.
\<close>

definition div_inv :: "u128 \<Rightarrow> u128 \<Rightarrow> u128 \<Rightarrow> nat \<Rightarrow> u128 \<times> u128 \<Rightarrow> bool" where
  "div_inv high low d n = (\<lambda>(r, q). unat r < unat d \<and>
     (\<exists>Q. unat q = Q * 2 ^ n \<and>
       (unat high * 2 ^ 128 + unat low) div 2 ^ n = Q * unat d + unat r))"

lemma unat_drop_and_one: "unat (drop_bit n x AND 1) = unat x div 2 ^ n mod 2"
proof -
  have "drop_bit n x AND 1 = take_bit 1 (drop_bit n x)" by (simp add: take_bit_eq_mask)
  then have "unat (drop_bit n x AND 1) = take_bit 1 (unat (drop_bit n x))"
    by (simp only: unsigned_take_bit_eq)
  then show ?thesis by (simp only: take_bit_eq_mod unat_drop_bit power_one_right)
qed

lemma unat_shift_in:
  "unat (push_bit 1 (r :: u128) OR (drop_bit n low AND 1))
     = (2 * unat r + unat low div 2 ^ n mod 2) mod 2 ^ 128"
proof -
  let ?b = "drop_bit n low AND 1 :: u128"
  have "push_bit 1 r OR ?b = ?b OR push_bit 1 r" by (rule or.commute)
  then have "unat (push_bit 1 r OR ?b) = unat ?b + unat (push_bit 1 r)"
    by (simp only:) (rule unat_or_disjoint, simp add: unat_drop_and_one)
  also have "\<dots> = unat low div 2 ^ n mod 2 + (2 * unat r mod 2 ^ 128)"
    by (simp only: unat_drop_and_one unat_push_bit) (simp add: mult.commute)
  also have "2 * unat r mod 2 ^ 128 = 2 * unat r mod (2 * 2 ^ 127)" by simp
  also have "\<dots> = 2 * (unat r mod 2 ^ 127)" by (rule mult_mod_right [symmetric])
  also have "unat low div 2 ^ n mod 2 + 2 * (unat r mod 2 ^ 127)
      = (2 * unat r + unat low div 2 ^ n mod 2) mod (2 * 2 ^ 127)"
    by (simp only: mod_mult2_eq [of _ 2 "2 ^ 127"]) simp
  finally show ?thesis by simp
qed

lemma half_step: "(N :: nat) div 2 ^ n = 2 * (N div 2 ^ Suc n) + N div 2 ^ n mod 2"
  by (simp add: div_mult2_eq power_Suc2 del: power_Suc)

lemma bit_of_low: "n < 128 \<Longrightarrow> (h * 2 ^ 128 + l) div 2 ^ n mod 2 = (l :: nat) div 2 ^ n mod 2"
proof -
  assume "n < 128"
  then obtain k where k: "(128 :: nat) = n + Suc k" by (metis less_imp_Suc_add add_Suc_right)
  have "h * 2 ^ 128 + l = l + 2 * (h * 2 ^ k) * 2 ^ n"
    unfolding k by (simp add: power_add algebra_simps)
  then have "(h * 2 ^ 128 + l) div 2 ^ n = (l + 2 * (h * 2 ^ k) * 2 ^ n) div 2 ^ n"
    by (rule arg_cong)
  also have "\<dots> = l div 2 ^ n + 2 * (h * 2 ^ k)" by simp
  finally show ?thesis by simp
qed

lemma unat_or_multiple:
  assumes "unat x < 2 ^ n" and "2 ^ n dvd unat y"
  shows "unat (x OR y :: 'a::len word) = unat x + unat y"
proof -
  have "unat (push_bit n (drop_bit n y)) = unat y"
    using assms(2) unat_lt [of y] by (simp only: unat_push_bit unat_drop_bit dvd_div_mult_self) simp
  then have "push_bit n (drop_bit n y) = y" by (rule unsigned_word_eqI)
  with unat_or_disjoint [OF assms(1), of "drop_bit n y"] show ?thesis by simp
qed

lemma carry_iff: "drop_bit 127 (r :: u128) = 1 \<longleftrightarrow> 2 ^ 128 \<le> 2 * unat r + b" if "b < 2"
proof -
  have "drop_bit 127 r = 1 \<longleftrightarrow> unat r div 2 ^ 127 = 1"
    by (simp add: word_unat_eq_iff unat_drop_bit)
  also have "\<dots> \<longleftrightarrow> 2 ^ 127 \<le> unat r"
  proof -
    have "unat r div 2 ^ 127 < 2" using unat_u128_lt [of r] by (simp add: div_less_iff_less_mult)
    moreover have "1 \<le> unat r div 2 ^ 127 \<longleftrightarrow> 2 ^ 127 \<le> unat r"
      by (subst less_eq_div_iff_mult_less_eq) simp_all
    ultimately show ?thesis by linarith
  qed
  finally have "drop_bit 127 r = 1 \<longleftrightarrow> 2 ^ 127 \<le> unat r" .
  moreover have "2 ^ 127 \<le> unat r \<longleftrightarrow> 2 ^ 128 \<le> 2 * unat r + b" using that by auto
  ultimately show ?thesis by simp
qed

lemma div_round_inv:
  assumes inv: "div_inv high low d (Suc n) s" and n: "n < 128"
  shows "div_inv high low d n (div_round low d n s)"
proof -
  obtain r q where s: "s = (r, q)" by force
  from inv obtain Q where rd: "unat r < unat d" and Q: "unat q = Q * 2 ^ Suc n"
    and N: "(unat high * 2 ^ 128 + unat low) div 2 ^ Suc n = Q * unat d + unat r"
    by (auto simp: div_inv_def s)
  define b where "b = unat low div 2 ^ n mod 2"
  define R where "R = 2 * unat r + b"
  have b: "b < 2" by (simp add: b_def)
  define r' where "r' = push_bit 1 r OR (drop_bit n low AND 1)"
  have ur: "unat r' = R mod 2 ^ 128" by (simp only: r'_def unat_shift_in R_def b_def)
  have Nn: "(unat high * 2 ^ 128 + unat low) div 2 ^ n = 2 * Q * unat d + R"
    by (subst half_step) (simp only: N bit_of_low [OF n] R_def b_def, simp)
  have R2: "R < 2 * unat d" using rd b by (simp add: R_def)
  have carry: "drop_bit 127 r = 1 \<longleftrightarrow> 2 ^ 128 \<le> R" unfolding R_def using b by (rule carry_iff)
  have sub: "drop_bit 127 r = 1 \<or> d \<le> r' \<longleftrightarrow> unat d \<le> R"
    using carry ur unat_u128_lt [of d] by (auto simp: word_le_nat_alt)
  show ?thesis
  proof (cases "unat d \<le> R")
    case True
    have "unat (r' - d) = R - unat d"
    proof (cases "2 ^ 128 \<le> R")
      case big: True
      have "R mod 2 ^ 128 = R - 2 ^ 128" using big R2 unat_u128_lt [of d] by (simp add: mod_if)
      then show ?thesis
        using big R2 unat_u128_lt [of d] by (simp add: unat_sub_if_size ur word_size)
    next
      case False
      then show ?thesis using True by (simp add: unat_sub_exact word_le_nat_alt ur)
    qed
    moreover have "unat (q OR push_bit n 1) = (2 * Q + 1) * 2 ^ n"
    proof -
      have "(2 :: nat) ^ n < 2 ^ 128" using n by (rule power_strict_increasing) simp
      then have one: "unat (push_bit n (1 :: u128)) = 2 ^ n" by (simp only: unat_push_bit) simp
      have "unat (push_bit n 1 OR q) = unat (push_bit n (1 :: u128)) + unat q"
      proof (rule unat_or_multiple)
        show "unat (push_bit n (1 :: u128)) < 2 ^ Suc n" by (simp only: one) simp
        show "2 ^ Suc n dvd unat q" by (simp only: Q dvd_triv_right)
      qed
      moreover have "push_bit n 1 OR q = q OR push_bit n 1" by (rule or.commute)
      ultimately show ?thesis by (simp only: one Q) simp
    qed
    ultimately show ?thesis
      using True sub R2 Nn
      by (auto simp: div_inv_def s div_round_def Let_def r'_def intro!: exI [of _ "2 * Q + 1"])
  next
    case False
    have "unat r' = R" using ur False unat_u128_lt [of d] by simp
    then show ?thesis
      using False sub Nn Q
      by (auto simp: div_inv_def s div_round_def Let_def r'_def intro!: exI [of _ "2 * Q"])
  qed
qed

lemma div_rounds_inv:
  assumes "high < d" and "n \<le> 128"
  shows "div_inv high low d n (fold (div_round low d) (rev [n..<128]) (high, 0))"
  using assms(2)
proof (induction n rule: inc_induct)
  case base
  have "(unat high * 2 ^ 128 + unat low) div 2 ^ 128 = unat high"
    using unat_u128_lt [of low] by simp
  then show ?case using assms(1) by (simp add: div_inv_def word_less_nat_alt)
next
  case (step n)
  then have "rev [n..<128] = rev [Suc n..<128] @ [n]" by (simp add: upt_conv_Cons)
  with step show ?case by (simp add: div_round_inv)
qed

theorem div_full_Some:
  "high < d \<Longrightarrow> \<exists>q. div_full high low d = Some q \<and>
     unat q = (unat high * 2 ^ 128 + unat low) div unat d"
proof -
  assume lt: "high < d"
  obtain r q where rq: "fold (div_round low d) (rev [0..<128]) (high, 0) = (r, q)" by force
  from div_rounds_inv [OF lt, of 0 low]
  have "unat r < unat d" and eq: "unat high * 2 ^ 128 + unat low = unat q * unat d + unat r"
    unfolding rq by (auto simp: div_inv_def)
  then have "(unat high * 2 ^ 128 + unat low) div unat d = unat q" by (simp only: eq) simp
  moreover have "div_full high low d = Some q"
    using lt rq by (auto simp: div_full_def)
  ultimately show ?thesis by simp
qed

lemma div_full_None: "div_full high low d = None \<longleftrightarrow> d = 0 \<or> d \<le> high"
  by (simp add: div_full_def)

lemma div_full_eq_Some:
  "div_full high low d = Some q \<longleftrightarrow>
     high < d \<and> unat q = (unat high * 2 ^ 128 + unat low) div unat d"
proof
  assume Some: "div_full high low d = Some q"
  then have "high < d" using div_full_None [of high low d] by (cases "high < d") auto
  with div_full_Some [OF this, of low] Some
  show "high < d \<and> unat q = (unat high * 2 ^ 128 + unat low) div unat d" by auto
next
  assume "high < d \<and> unat q = (unat high * 2 ^ 128 + unat low) div unat d"
  with div_full_Some [of high d low] show "div_full high low d = Some q"
    by (metis unsigned_word_eqI)
qed

text \<open>The quotient fits exactly when the high limb is below the divisor.\<close>

lemma high_lt_iff: "(h :: nat) < d \<longleftrightarrow> 0 < d \<and> (h * 2 ^ 128 + l) div d < 2 ^ 128" if "l < 2 ^ 128"
proof (cases "d = 0")
  case False
  then have "(h * 2 ^ 128 + l) div d < 2 ^ 128 \<longleftrightarrow> h * 2 ^ 128 + l < d * 2 ^ 128"
    by (simp add: div_less_iff_less_mult mult.commute)
  also have "\<dots> \<longleftrightarrow> h < d"
  proof
    assume "h * 2 ^ 128 + l < d * 2 ^ 128"
    then have "h * 2 ^ 128 < d * 2 ^ 128" by linarith
    then show "h < d" by simp
  next
    assume "h < d"
    then have "Suc h * 2 ^ 128 \<le> d * 2 ^ 128" by (intro mult_le_mono1) simp
    with that show "h * 2 ^ 128 + l < d * 2 ^ 128" by simp
  qed
  finally show ?thesis using False by simp
qed simp

lemma mul_div_floor_Some:
  "mul_div_floor a b d = Some q \<longleftrightarrow> d \<noteq> 0 \<and> unat q = unat a * unat b div unat d"
proof -
  obtain h l where hl: "mul_full a b = (h, l)" by force
  then have eq: "unat h * 2 ^ 128 + unat l = unat a * unat b" using limbs_mul_full [of a b] by simp
  have "h < d \<longleftrightarrow> 0 < unat d \<and> unat a * unat b div unat d < 2 ^ 128"
    using high_lt_iff [of "unat l" "unat h" "unat d"] unat_u128_lt [of l]
    by (simp add: word_less_nat_alt flip: eq)
  moreover have "mul_div_floor a b d = Some q \<longleftrightarrow> h < d \<and> unat q = unat a * unat b div unat d"
    by (simp only: mul_div_floor_def hl Let_def prod.case div_full_eq_Some eq)
  ultimately show ?thesis
    using unat_u128_lt [of q] by (auto simp: unat_gt_0)
qed

lemma mul_div_floor_None:
  "mul_div_floor a b d = None \<longleftrightarrow> d = 0 \<or> 2 ^ 128 \<le> unat a * unat b div unat d"
proof (cases "mul_div_floor a b d")
  case None
  have "d = 0 \<or> 2 ^ 128 \<le> unat a * unat b div unat d"
  proof (rule ccontr)
    assume "\<not> ?thesis"
    then have "d \<noteq> 0" and lt: "unat a * unat b div unat d < 2 ^ 128" by simp_all
    have "unat (of_nat (unat a * unat b div unat d) :: u128) = unat a * unat b div unat d"
      using lt by (simp only: unat_of_nat) simp
    with \<open>d \<noteq> 0\<close> have "mul_div_floor a b d = Some (of_nat (unat a * unat b div unat d))"
      by (simp only: mul_div_floor_Some simp_thms)
    with None show False by simp
  qed
  with None show ?thesis by simp
next
  case (Some q)
  then have "unat a * unat b div unat d < 2 ^ 128" and "d \<noteq> 0"
    using unat_u128_lt [of q] by (simp_all add: mul_div_floor_Some)
  with Some show ?thesis by simp
qed

lemma div_mult_eq_iff: "x div d * d = x \<longleftrightarrow> (x :: nat) mod d = 0"
  using div_mult_mod_eq [of x d] by arith

lemma mul_div_ceil_Some:
  "mul_div_ceil a b d = Some q \<longleftrightarrow> d \<noteq> 0 \<and> unat q = cdiv (unat a * unat b) (unat d)"
proof (cases "mul_div_floor a b d")
  case None
  have "cdiv (unat a * unat b) (unat d) \<noteq> unat q" if "d \<noteq> 0"
    using None that unat_lt [of q] div_le_cdiv [of "unat a * unat b" "unat d"]
    by (auto simp: mul_div_floor_None)
  with None show ?thesis by (auto simp: mul_div_ceil_def)
next
  case (Some f)
  then have d: "d \<noteq> 0" and f: "unat f = unat a * unat b div unat d"
    by (simp_all add: mul_div_floor_Some)
  have exact: "mul_full f d = mul_full a b \<longleftrightarrow> unat a * unat b mod unat d = 0"
    by (simp only: mul_full_inj f div_mult_eq_iff)
  have ceil: "mul_div_ceil a b d = (if unat a * unat b mod unat d = 0 then Some f else checked_add f 1)"
    by (simp add: mul_div_ceil_def Some exact)
  show ?thesis
  proof (cases "unat a * unat b mod unat d = 0")
    case True
    then show ?thesis using d f by (auto simp: ceil cdiv_def word_unat_eq_iff)
  next
    case False
    have "checked_add f 1 = Some q \<longleftrightarrow> unat q = Suc (unat f)"
      using unat_lt [of q] by (auto simp: checked_add_Some word_unat_eq_iff unat_add_exact)
    then show ?thesis using d False by (simp add: ceil cdiv_def f)
  qed
qed

lemma unat_mul_shr128_floor: "unat (mul_shr128_floor a b) = unat a * unat b div 2 ^ 128"
proof -
  have "unat a * unat b div 2 ^ 128 = limbs (mul_full a b) div 2 ^ 128"
    by (simp only: limbs_mul_full)
  also have "\<dots> = unat (fst (mul_full a b))" using unat_u128_lt [of "snd (mul_full a b)"] by simp
  finally show ?thesis by (simp add: mul_shr128_floor_def)
qed

lemma unat_mul_shr128_ceil: "unat (mul_shr128_ceil a b) = cdiv (unat a * unat b) (2 ^ 128)"
proof -
  obtain h l where hl: "mul_full a b = (h, l)" by force
  then have eq: "unat a * unat b = unat h * 2 ^ 128 + unat l" using limbs_mul_full [of a b] by simp
  have l: "unat l < 2 ^ 128" by (simp add: unat_u128_lt)
  have "unat a * unat b \<le> (2 ^ 128 - 1) * (2 ^ 128 - 1)"
    using unat_u128_lt [of a] unat_u128_lt [of b] by (intro mult_le_mono) simp_all
  then have "unat h < 2 ^ 128 - 1" unfolding eq by simp
  then have "unat (saturating_add h 1) = Suc (unat h)"
    by (simp add: unat_saturating_add)
  then show ?thesis
    using l by (simp add: mul_shr128_ceil_def hl cdiv_def eq unat_eq_0)
qed

lemma shl128_div_floor_Some:
  "shl128_div_floor n d = Some q \<longleftrightarrow> n < d \<and> unat q = unat n * 2 ^ 128 div unat d"
  by (simp add: shl128_div_floor_def div_full_eq_Some)

section \<open>Properties\<close>

text \<open>C33: the 256-bit multiply-and-divide is exact. Rounding down, the result is the quotient of
  the true product whenever that fits 128 bits, and the routine fails exactly when the divisor is
  zero or the quotient does not fit; rounding up, the same for the ceiling.\<close>

theorem mul_div_exact:
  "mul_div_floor a b d = (let q = unat a * unat b div unat d
      in if d = 0 \<or> 2 ^ 128 \<le> q then None else Some (of_nat q))
   \<and> mul_div_ceil a b d = (let q = cdiv (unat a * unat b) (unat d)
      in if d = 0 \<or> 2 ^ 128 \<le> q then None else Some (of_nat q))"
proof -
  have iff: "m = (if d = 0 \<or> 2 ^ 128 \<le> q then None else Some (of_nat q))"
    if "\<And>w. m = Some w \<longleftrightarrow> d \<noteq> 0 \<and> unat (w :: u128) = q" for m q
  proof (cases m)
    case None
    have "d = 0 \<or> 2 ^ 128 \<le> q"
    proof (rule ccontr)
      assume "\<not> ?thesis"
      then have "d \<noteq> 0" and "unat (of_nat q :: u128) = q" by (simp_all add: unat_of_nat)
      then show False using that [of "of_nat q"] None by simp
    qed
    with None show ?thesis by simp
  next
    case (Some w)
    then have "d \<noteq> 0" and "unat w = q" using that [of w] by simp_all
    then show ?thesis using Some unat_u128_lt [of w] by auto
  qed
  show ?thesis
    unfolding Let_def by (intro conjI iff mul_div_floor_Some mul_div_ceil_Some)
qed

text \<open>The constant-product output is the best the curve allows. A payout keeps the product of
  the reserves from falling exactly when it is at most the computed output, and the pool is never
  emptied.\<close>

theorem constant_product_out_best:
  assumes "0 < reserve_in" and "0 < reserve_out" and "payout \<le> unat reserve_out"
  shows "(unat reserve_in * unat reserve_out
       \<le> (unat reserve_in + unat amount) * (unat reserve_out - payout)
     \<longleftrightarrow> payout \<le> unat (constant_product_out reserve_in reserve_out amount))
     \<and> constant_product_out reserve_in reserve_out amount < reserve_out"
proof -
  let ?x = "unat reserve_in" and ?y = "unat reserve_out" and ?a = "unat amount"
  have x: "0 < ?x" and y: "0 < ?y" using assms(1,2) by (simp_all add: word_less_nat_alt)
  have out: "unat (constant_product_out reserve_in reserve_out amount) = ?y * ?a div (?x + ?a)"
    using x by (simp add: unat_constant_product_out)
  have "?x * ?y \<le> (?x + ?a) * (?y - payout) \<longleftrightarrow> payout * (?x + ?a) \<le> ?y * ?a"
  proof -
    have "(?x + ?a) * (?y - payout) + payout * (?x + ?a) = (?x + ?a) * ?y"
      using assms(3) by (metis add_mult_distrib2 le_add_diff_inverse2 mult.commute)
    also have "\<dots> = ?x * ?y + ?y * ?a" by (simp add: algebra_simps)
    finally show ?thesis by linarith
  qed
  also have "\<dots> \<longleftrightarrow> payout \<le> ?y * ?a div (?x + ?a)"
    using x by (simp add: less_eq_div_iff_mult_less_eq)
  finally have "?x * ?y \<le> (?x + ?a) * (?y - payout)
     \<longleftrightarrow> payout \<le> unat (constant_product_out reserve_in reserve_out amount)" by (simp only: out)
  moreover have "constant_product_out reserve_in reserve_out amount < reserve_out"
    using cp_div_lt [OF x, of ?y ?a] y by (simp add: word_less_nat_alt out)
  ultimately show ?thesis ..
qed

theorem constant_product_out_best_witness:
  "(unat (1000 :: u64) * unat (500 :: u64) \<le> (1000 + unat (250 :: u64)) * (500 - 100)
      \<longleftrightarrow> 100 \<le> unat (constant_product_out 1000 500 250))
   \<and> constant_product_out 1000 500 250 = 100"
  using constant_product_out_best [of 1000 500 100 250]
  by (simp add: constant_product_out_def saturating_sub_def Let_def)

text \<open>A fee is rounded against the trader. For a rate that does not exceed its denominator the
  fee is the least amount that covers the rate, and never more than the amount it is taken from.\<close>

theorem fee_amount_least:
  assumes "0 < denominator" and "rate \<le> denominator"
  shows "unat amount * unat rate \<le> fee * unat denominator
      \<longleftrightarrow> unat (fee_amount amount rate denominator) \<le> fee"
proof -
  have d: "0 < unat denominator" and "unat rate \<le> unat denominator"
    using assms by (simp_all add: word_less_nat_alt word_le_nat_alt)
  then have "cdiv (unat amount * unat rate) (unat denominator) \<le> unat amount"
    by (simp add: cdiv_le_iff)
  with d show ?thesis by (simp add: unat_fee_amount cdiv_le_iff)
qed

theorem fee_amount_least_witness:
  "(unat (1001 :: u64) * unat (25 :: u64) \<le> 3 * unat (10000 :: u64) \<longleftrightarrow> unat (fee_amount 1001 25 10000) \<le> 3)
   \<and> fee_amount 1001 25 10000 = 3"
  using fee_amount_least [of 10000 25 1001 3]
  by (simp add: fee_amount_def ceil_div_def div_ceil_def)

end
