(* ===== verification/Pool_Market.thy ===== *)
theory Pool_Market
  imports Swap_Error Curve_Math
begin

text \<open>
  \<^verbatim>\<open>intent.rs\<close> and \<^verbatim>\<open>venue.rs\<close>: what the caller asks for, and the contract between the
  engine and a venue. A decoded pool is a trait object in the code; here it is the record of
  its methods. The laws every venue must obey are the locale \<open>market_laws\<close>; each venue theory
  interprets it on its own market, and the engine's lemmas are proved once from it.
\<close>

section \<open>The request\<close>

definition MAX_SLIPPAGE_BPS :: u16 where
  "MAX_SLIPPAGE_BPS = 5000"

record direct_swap_intent =
  intent_pool :: pubkey
  intent_owner :: pubkey
  intent_input_mint :: pubkey
  intent_output_mint :: pubkey
  intent_amount_in :: u64
  intent_slippage_bps :: u16

definition validate :: "sdk \<Rightarrow> direct_swap_intent \<Rightarrow> unit direct_result" where
  "validate sdk intent =
     (if intent_amount_in intent = 0 then Inl (InvalidRequest ''amount_in is zero'')
      else if intent_input_mint intent = intent_output_mint intent then
        Inl (InvalidRequest (''input and output mint are both ''
               @ show_pubkey sdk (intent_input_mint intent)))
      else if MAX_SLIPPAGE_BPS < intent_slippage_bps intent then
        Inl (InvalidRequest (''slippage '' @ show_word (intent_slippage_bps intent)
               @ '' bps exceeds the '' @ show_word MAX_SLIPPAGE_BPS @ '' bps ceiling''))
      else Inr ())"

definition wraps_native :: "sdk \<Rightarrow> direct_swap_intent \<Rightarrow> bool" where
  "wraps_native sdk intent \<longleftrightarrow> is_wsol sdk (intent_input_mint intent)"

definition unwraps_native :: "sdk \<Rightarrow> direct_swap_intent \<Rightarrow> bool" where
  "unwraps_native sdk intent \<longleftrightarrow> is_wsol sdk (intent_output_mint intent)"

definition touches_wsol :: "sdk \<Rightarrow> direct_swap_intent \<Rightarrow> bool" where
  "touches_wsol sdk intent \<longleftrightarrow> wraps_native sdk intent \<or> unwraps_native sdk intent"

lemma validate_ok [res_simps]:
  "validate sdk intent = Inr u \<longleftrightarrow> intent_amount_in intent \<noteq> 0
     \<and> intent_input_mint intent \<noteq> intent_output_mint intent
     \<and> intent_slippage_bps intent \<le> MAX_SLIPPAGE_BPS"
  by (auto simp: validate_def not_less)

section \<open>The venue contract\<close>

datatype program_kind =
    RaydiumCpmm | RaydiumLegacyAmm | RaydiumClmm | OrcaWhirlpool | MeteoraDamm | MeteoraDlmm
  | MeteoraDbc | PumpFunAmm | PumpFunLegacy | Moonit | FluxbeamAmm | UnknownProgram

fun program_id_str :: "program_kind \<Rightarrow> string" where
  "program_id_str RaydiumCpmm = RAYDIUM_CPMM_PROGRAM_ID"
| "program_id_str RaydiumLegacyAmm = RAYDIUM_LEGACY_AMM_PROGRAM_ID"
| "program_id_str RaydiumClmm = RAYDIUM_CLMM_PROGRAM_ID"
| "program_id_str OrcaWhirlpool = ORCA_WHIRLPOOL_PROGRAM_ID"
| "program_id_str MeteoraDamm = METEORA_DAMM_PROGRAM_ID"
| "program_id_str MeteoraDlmm = METEORA_DLMM_PROGRAM_ID"
| "program_id_str MeteoraDbc = METEORA_DBC_PROGRAM_ID"
| "program_id_str PumpFunAmm = PUMP_FUN_AMM_PROGRAM_ID"
| "program_id_str PumpFunLegacy = PUMP_FUN_LEGACY_PROGRAM_ID"
| "program_id_str Moonit = MOONIT_AMM_PROGRAM_ID"
| "program_id_str FluxbeamAmm = FLUXBEAM_AMM_PROGRAM_ID"
| "program_id_str UnknownProgram = ''''"

record venue_quote =
  vq_amount_in :: u64
  vq_expected_out :: u64
  vq_lp_fee :: u64
  vq_price_impact_pct :: f64

record swap_accounts =
  sa_owner :: pubkey
  sa_input_mint :: pubkey
  sa_output_mint :: pubkey
  sa_input_token_account :: pubkey
  sa_output_token_account :: pubkey

record pool_market =
  pm_program :: program_kind
  pm_pool :: pubkey
  pm_mints :: "pubkey \<times> pubkey"
  pm_token_program :: "pubkey \<Rightarrow> pubkey option"
  pm_decimals :: "pubkey \<Rightarrow> u8 option"
  pm_quote :: "pubkey \<Rightarrow> u64 \<Rightarrow> venue_quote direct_result"
  pm_swap_instruction :: "swap_accounts \<Rightarrow> u64 \<Rightarrow> u64 \<Rightarrow> instruction direct_result"
  pm_compute_units :: u32
  pm_settles_native_sol :: bool

definition trades :: "pool_market \<Rightarrow> pubkey \<Rightarrow> pubkey \<Rightarrow> bool" where
  "trades market input_mint output_mint \<longleftrightarrow> (let (a, b) = pm_mints market in
     (input_mint = a \<and> output_mint = b) \<or> (input_mint = b \<and> output_mint = a))"

lemma trades_sym: "trades m a b = trades m b a"
  by (auto simp: trades_def split: prod.splits)

text \<open>The whole contract as one predicate, for statements about a market whose venue is not known.\<close>

definition lawful_market :: "pool_market \<Rightarrow> pubkey \<Rightarrow> bool" where
  "lawful_market market program \<longleftrightarrow>
     (\<forall>mint amount. case pm_quote market mint amount of
        Inr q \<Rightarrow> vq_amount_in q = amount \<and> (mint = fst (pm_mints market) \<or> mint = snd (pm_mints market))
      | Inl e \<Rightarrow> \<not> submitted e)
     \<and> (\<forall>acc amount min_out. case pm_swap_instruction market acc amount min_out of
        Inr ix \<Rightarrow> trades market (sa_input_mint acc) (sa_output_mint acc) \<and> ix_program ix = program
          \<and> (\<forall>m \<in> set (ix_accounts ix). meta_signer m \<longrightarrow> meta_key m = sa_owner acc)
      | Inl e \<Rightarrow> \<not> submitted e)
     \<and> (\<forall>mint. pm_token_program market mint \<noteq> None \<longleftrightarrow>
        mint = fst (pm_mints market) \<or> mint = snd (pm_mints market))"

text \<open>
  What a venue promises. A quote answers the size it was asked for, only for a mint of the
  pool; the pool's own fee never exceeds the input; a swap instruction is only built for a
  pair the pool trades, is addressed to the venue's own program, and is signed by the wallet
  and nobody else. The token program of a mint is known exactly for the two mints of the pool.
\<close>

locale market_laws =
  fixes market :: "'s \<Rightarrow> pool_market"
    and program_key :: "'s \<Rightarrow> pubkey"
    and wf :: "'s \<Rightarrow> bool"
  assumes quote_amount: "wf s \<Longrightarrow> pm_quote (market s) mint amount = Inr q \<Longrightarrow> vq_amount_in q = amount"
    and quote_mint: "wf s \<Longrightarrow> pm_quote (market s) mint amount = Inr q \<Longrightarrow>
       mint = fst (pm_mints (market s)) \<or> mint = snd (pm_mints (market s))"
    and quote_not_submitted: "wf s \<Longrightarrow> pm_quote (market s) mint amount = Inl e \<Longrightarrow> \<not> submitted e"
    and ix_pair: "wf s \<Longrightarrow> pm_swap_instruction (market s) acc amount min_out = Inr ix \<Longrightarrow>
       trades (market s) (sa_input_mint acc) (sa_output_mint acc)"
    and ix_program_key: "wf s \<Longrightarrow> pm_swap_instruction (market s) acc amount min_out = Inr ix \<Longrightarrow>
       ix_program ix = program_key s"
    and ix_signer: "wf s \<Longrightarrow> pm_swap_instruction (market s) acc amount min_out = Inr ix \<Longrightarrow>
       m \<in> set (ix_accounts ix) \<Longrightarrow> meta_signer m \<Longrightarrow> meta_key m = sa_owner acc"
    and ix_not_submitted: "wf s \<Longrightarrow> pm_swap_instruction (market s) acc amount min_out = Inl e \<Longrightarrow>
       \<not> submitted e"
    and token_program_iff: "wf s \<Longrightarrow> pm_token_program (market s) mint \<noteq> None \<longleftrightarrow>
       mint = fst (pm_mints (market s)) \<or> mint = snd (pm_mints (market s))"
begin

lemma lawful: "wf s \<Longrightarrow> lawful_market (market s) (program_key s)"
  unfolding lawful_market_def
proof (intro conjI allI)
  fix mint assume "wf s"
  then show "pm_token_program (market s) mint \<noteq> None \<longleftrightarrow>
     mint = fst (pm_mints (market s)) \<or> mint = snd (pm_mints (market s))" by (rule token_program_iff)
qed (auto dest: quote_amount quote_mint quote_not_submitted ix_pair ix_program_key ix_signer ix_not_submitted
    split: sum.split)

lemma trades_token_programs:
  assumes "wf s" and "trades (market s) a b"
  shows "pm_token_program (market s) a \<noteq> None" and "pm_token_program (market s) b \<noteq> None"
proof -
  have "a = fst (pm_mints (market s)) \<or> a = snd (pm_mints (market s))"
    and "b = fst (pm_mints (market s)) \<or> b = snd (pm_mints (market s))"
    using assms(2) by (auto simp: trades_def split: prod.splits)
  then show "pm_token_program (market s) a \<noteq> None" and "pm_token_program (market s) b \<noteq> None"
    by (simp_all only: token_program_iff [OF assms(1)])
qed

lemma trades_program_cases:
  assumes "wf s" and "trades (market s) a b"
  obtains p q where "pm_token_program (market s) a = Some p" "pm_token_program (market s) b = Some q"
  using trades_token_programs [OF assms] by auto

end

text \<open>Most venues also keep the pool's own fee, converted to input units, within the input.\<close>

locale fee_bounded_market = market_laws +
  assumes quote_fee_le: "wf s \<Longrightarrow> pm_quote (market s) mint amount = Inr q \<Longrightarrow> vq_lp_fee q \<le> amount"

end
