(* ===== verification/Platform_Fee.thy ===== *)
theory Platform_Fee
  imports Pool_Market
begin

text \<open>
  \<^verbatim>\<open>revenue.rs\<close>, \<^verbatim>\<open>direct/fee.rs\<close> and \<^verbatim>\<open>direct/quote.rs\<close>: the mandatory half-percent fee, the
  leg it is taken from, and the quote the engine hands back. The side is decided from the
  two mints alone; an input-side fee is taken before the pool sees the amount, an
  output-side fee is sized off the guaranteed minimum.
\<close>

section \<open>Rates and destinations\<close>

definition PLATFORM_FEE_BPS :: u16 where
  "PLATFORM_FEE_BPS = 50"

definition BPS_DENOMINATOR :: u64 where
  "BPS_DENOMINATOR = 10000"

definition FEE_TOKEN_ACCOUNT_WSOL :: string where
  "FEE_TOKEN_ACCOUNT_WSOL = ''9yiZThTzanryu3mg1VVu6Qy4HiqKhydCAUqcasLHPxWB''"

definition FEE_TOKEN_ACCOUNT_USDC :: string where
  "FEE_TOKEN_ACCOUNT_USDC = ''3kmcF3DFGFRKXeC5v5AMzwpsdj2Uc3Z7a5KrojtWv2GW''"

record fee_reference =
  ref_mint :: string
  ref_account :: string

definition WSOL_REFERENCE :: fee_reference where
  "WSOL_REFERENCE = \<lparr>ref_mint = SOL_MINT, ref_account = FEE_TOKEN_ACCOUNT_WSOL\<rparr>"

definition USDC_REFERENCE :: fee_reference where
  "USDC_REFERENCE = \<lparr>ref_mint = USDC_MINT, ref_account = FEE_TOKEN_ACCOUNT_USDC\<rparr>"

definition fee_reference_for_mint :: "string \<Rightarrow> fee_reference option" where
  "fee_reference_for_mint mint =
     (if mint = SOL_MINT then Some WSOL_REFERENCE
      else if mint = USDC_MINT then Some USDC_REFERENCE
      else None)"

definition fee_reference_for_pair :: "string \<Rightarrow> string \<Rightarrow> fee_reference option" where
  "fee_reference_for_pair input_mint output_mint =
     (case fee_reference_for_mint output_mint of
        Some r \<Rightarrow> Some r
      | None \<Rightarrow> fee_reference_for_mint input_mint)"

definition platform_fee_amount :: "u64 \<Rightarrow> u64" where
  "platform_fee_amount amount =
     ucast ((ucast amount :: u128) * ucast PLATFORM_FEE_BPS div ucast BPS_DENOMINATOR)"

section \<open>The fee of one swap\<close>

datatype fee_side = InputSide | OutputSide | NoSide

definition is_reference_mint :: "sdk \<Rightarrow> pubkey \<Rightarrow> bool" where
  "is_reference_mint sdk mint \<longleftrightarrow> mint = wsol_mint sdk \<or> mint = usdc_mint sdk"

definition for_pair :: "sdk \<Rightarrow> pubkey \<Rightarrow> pubkey \<Rightarrow> fee_side" where
  "for_pair sdk input_mint output_mint =
     (if is_reference_mint sdk output_mint then OutputSide
      else if is_reference_mint sdk input_mint then InputSide
      else NoSide)"

record platform_fee =
  fee_leg :: fee_side
  fee_units :: u64
  fee_mint :: "pubkey option"
  fee_destination :: "pubkey option"
  fee_decimals :: u8

definition no_fee :: platform_fee where
  "no_fee = \<lparr>fee_leg = NoSide, fee_units = 0, fee_mint = None, fee_destination = None,
             fee_decimals = 0\<rparr>"

definition resolve :: "sdk \<Rightarrow> fee_side \<Rightarrow> pubkey \<Rightarrow> pubkey \<Rightarrow> u64 \<Rightarrow> platform_fee direct_result" where
  "resolve sdk side input_mint output_mint base =
     (if side = NoSide then Inr no_fee
      else let reference_mint = (case side of InputSide \<Rightarrow> input_mint | _ \<Rightarrow> output_mint) in
        rbind
          (if reference_mint = wsol_mint sdk then
             Inr (wsol_mint sdk, from_str sdk FEE_TOKEN_ACCOUNT_WSOL, 9)
           else if reference_mint = usdc_mint sdk then
             Inr (usdc_mint sdk, from_str sdk FEE_TOKEN_ACCOUNT_USDC, 6)
           else Inl (InvalidRequest ''fee side resolved without a reference mint on either leg''))
          (\<lambda>(mint, destination, decimals).
             Inr \<lparr>fee_leg = side, fee_units = platform_fee_amount base, fee_mint = Some mint,
                  fee_destination = Some destination, fee_decimals = decimals\<rparr>))"

definition is_collectible :: "platform_fee \<Rightarrow> bool" where
  "is_collectible fee \<longleftrightarrow> 0 < fee_units fee \<and> fee_mint fee \<noteq> None \<and> fee_destination fee \<noteq> None"

definition transfer_instruction ::
  "sdk \<Rightarrow> platform_fee \<Rightarrow> pubkey \<Rightarrow> pubkey \<Rightarrow> instruction option direct_result" where
  "transfer_instruction sdk fee source authority =
     (if \<not> is_collectible fee then Inr None
      else case (fee_mint fee, fee_destination fee) of
        (Some mint, Some destination) \<Rightarrow>
          rbind (map_err (\<lambda>e. Build (''platform fee transfer could not be built: '' @ e))
                   (transfer_checked sdk (spl_token_id sdk) source mint destination authority []
                      (fee_units fee) (fee_decimals fee)))
                (\<lambda>ix. Inr (Some ix))
      | _ \<Rightarrow> Inr None)"

section \<open>The quote\<close>

definition min_out_after_slippage :: "u64 \<Rightarrow> u16 \<Rightarrow> u64" where
  "min_out_after_slippage expected_out slippage_bps =
     (let bps = min (ucast slippage_bps :: u128) (ucast BPS_DENOMINATOR)
      in ucast ((ucast expected_out :: u128) * (ucast BPS_DENOMINATOR - bps)
                  div ucast BPS_DENOMINATOR))"

record direct_quote =
  dq_pool :: pubkey
  dq_program :: program_kind
  dq_input_mint :: pubkey
  dq_output_mint :: pubkey
  dq_amount_in :: u64
  dq_swap_amount_in :: u64
  dq_expected_out :: u64
  dq_min_out :: u64
  dq_expected_net_out :: u64
  dq_min_net_out :: u64
  dq_fee :: platform_fee
  dq_lp_fee :: u64
  dq_price_impact_pct :: f64
  dq_slippage_bps :: u16

definition assemble ::
  "sdk \<Rightarrow> direct_swap_intent \<Rightarrow> program_kind \<Rightarrow> u64 \<Rightarrow> venue_quote \<Rightarrow> platform_fee
     \<Rightarrow> direct_quote direct_result" where
  "assemble sdk intent program swap_amount_in vq input_fee =
     (if vq_expected_out vq = 0 then
        Inl (InsufficientLiquidity (intent_pool intent) (intent_amount_in intent)
               ''the pool returns nothing for this size'')
      else let min_out = min_out_after_slippage (vq_expected_out vq) (intent_slippage_bps intent) in
      if min_out = 0 then
        Inl (InsufficientLiquidity (intent_pool intent) (intent_amount_in intent)
               ''slippage tolerance reduces the guaranteed output to zero'')
      else rbind
        (case fee_leg input_fee of
           OutputSide \<Rightarrow> resolve sdk OutputSide (intent_input_mint intent)
                           (intent_output_mint intent) min_out
         | _ \<Rightarrow> Inr input_fee)
        (\<lambda>fee. let (expected_net_out, min_net_out) =
             (case fee_leg fee of
                OutputSide \<Rightarrow> (saturating_sub (vq_expected_out vq) (fee_units fee),
                               saturating_sub min_out (fee_units fee))
              | _ \<Rightarrow> (vq_expected_out vq, min_out)) in
           if min_net_out = 0 then
             Inl (InsufficientLiquidity (intent_pool intent) (intent_amount_in intent)
                    ''the platform fee consumes the entire guaranteed output'')
           else Inr \<lparr>dq_pool = intent_pool intent, dq_program = program,
                  dq_input_mint = intent_input_mint intent,
                  dq_output_mint = intent_output_mint intent,
                  dq_amount_in = intent_amount_in intent, dq_swap_amount_in = swap_amount_in,
                  dq_expected_out = vq_expected_out vq, dq_min_out = min_out,
                  dq_expected_net_out = expected_net_out, dq_min_net_out = min_net_out,
                  dq_fee = fee, dq_lp_fee = vq_lp_fee vq,
                  dq_price_impact_pct = vq_price_impact_pct vq,
                  dq_slippage_bps = intent_slippage_bps intent\<rparr>))"

definition quote_with_market ::
  "sdk \<Rightarrow> direct_swap_intent \<Rightarrow> pool_market \<Rightarrow> direct_quote direct_result" where
  "quote_with_market sdk intent market =
     rbind (validate sdk intent) (\<lambda>_.
       if \<not> trades market (intent_input_mint intent) (intent_output_mint intent) then
         Inl (PairNotInPool (pm_pool market) (intent_input_mint intent) (intent_output_mint intent))
       else
         let side = for_pair sdk (intent_input_mint intent) (intent_output_mint intent);
             base = (if side = InputSide then intent_amount_in intent else 0)
         in rbind (resolve sdk side (intent_input_mint intent) (intent_output_mint intent) base)
           (\<lambda>input_fee.
              let swap_amount_in = (if side = InputSide
                    then saturating_sub (intent_amount_in intent) (fee_units input_fee)
                    else intent_amount_in intent)
              in if swap_amount_in = 0 then
                   Inl (InvalidRequest ''the platform fee consumes the entire input at this size'')
                 else rbind (pm_quote market (intent_input_mint intent) swap_amount_in)
                   (\<lambda>vq. assemble sdk intent (pm_program market) swap_amount_in vq input_fee)))"

section \<open>Amounts\<close>

lemma unat_platform_fee_amount [unat_simps]: "unat (platform_fee_amount a) = unat a div 200"
proof -
  have "unat ((ucast a :: u128) * 50) = unat a * 50"
    using unat_u64_lt [of a] by (subst unat_mul_exact) simp_all
  then have "unat (platform_fee_amount a) = unat a * 50 div 10000 mod 2 ^ 64"
    by (simp add: platform_fee_amount_def PLATFORM_FEE_BPS_def BPS_DENOMINATOR_def unat_narrow unat_div)
  also have "\<dots> = unat a div 200" using unat_u64_lt [of a] by (simp add: div_mult2_eq [of _ 50 200, simplified])
  finally show ?thesis .
qed

lemma platform_fee_amount_lt: "a \<noteq> 0 \<Longrightarrow> platform_fee_amount a < a"
proof -
  assume "a \<noteq> 0"
  then have "0 < unat a" by (simp add: unat_gt_0)
  then have "unat a div 200 < unat a" by (simp add: div_less_dividend)
  then show ?thesis by (simp add: word_less_nat_alt unat_platform_fee_amount)
qed

lemma unat_min_out_after_slippage [unat_simps]:
  "unat (min_out_after_slippage out bps) = unat out * (10000 - unat bps) div 10000"
proof -
  let ?k = "10000 - min (ucast bps) 10000 :: u128"
  have k: "unat ?k = 10000 - unat bps"
    by (subst unat_sub_exact) (simp_all add: min_def word_le_nat_alt)
  have "unat out * unat ?k \<le> 2 ^ 64 * 10000"
    using unat_u64_lt [of out] unfolding k by (intro mult_le_mono) simp_all
  then have "unat out * unat ?k < 2 ^ 128" by (rule le_less_trans) simp
  then have "unat ((ucast out :: u128) * ?k) = unat out * (10000 - unat bps)"
    by (subst unat_mul_exact) (simp_all add: k)
  then have "unat (min_out_after_slippage out bps) = unat out * (10000 - unat bps) div 10000 mod 2 ^ 64"
    by (simp add: min_out_after_slippage_def BPS_DENOMINATOR_def unat_narrow unat_div)
  moreover have "unat out * (10000 - unat bps) div 10000 \<le> unat out"
  proof -
    have "unat out * (10000 - unat bps) \<le> unat out * 10000" by (intro mult_le_mono2) simp
    then have "unat out * (10000 - unat bps) div 10000 \<le> unat out * 10000 div 10000" by (rule div_le_mono)
    then show ?thesis by simp
  qed
  ultimately show ?thesis using unat_u64_lt [of out] by simp
qed

lemma min_out_le: "min_out_after_slippage out bps \<le> out"
proof -
  have "unat out * (10000 - unat bps) \<le> unat out * 10000" by (intro mult_le_mono2) simp
  then have "unat out * (10000 - unat bps) div 10000 \<le> unat out * 10000 div 10000" by (rule div_le_mono)
  then show ?thesis by (simp add: word_le_nat_alt unat_min_out_after_slippage)
qed

section \<open>The side and the size of the fee\<close>

lemma resolve_for_pair:
  "resolve sdk (for_pair sdk a b) a b base = Inr fee \<Longrightarrow>
     fee_leg fee = for_pair sdk a b
     \<and> fee_units fee = (if for_pair sdk a b = NoSide then 0 else platform_fee_amount base)"
  by (auto simp: resolve_def no_fee_def Let_def res_simps split: if_splits)

lemma resolve_for_pair_ok: "\<exists>fee. resolve sdk (for_pair sdk a b) a b base = Inr fee"
  by (simp add: resolve_def for_pair_def is_reference_mint_def Let_def)

lemma resolve_mint:
  assumes "resolve sdk (for_pair sdk a b) a b base = Inr fee" and "for_pair sdk a b \<noteq> NoSide"
  shows "fee_mint fee = Some (case for_pair sdk a b of InputSide \<Rightarrow> a | _ \<Rightarrow> b)
     \<and> fee_destination fee \<noteq> None"
  using assms by (auto simp: resolve_def Let_def res_simps split: if_splits fee_side.splits)

lemma transfer_instruction_None_iff:
  "transfer_instruction sdk fee source authority = Inr None \<longleftrightarrow> \<not> is_collectible fee"
  by (auto simp: transfer_instruction_def is_collectible_def res_simps split: option.splits)

section \<open>Assembling the quote\<close>

lemma assemble_Inr:
  assumes "assemble sdk intent program swap_in vq input_fee = Inr q"
    and "resolve sdk (for_pair sdk (intent_input_mint intent) (intent_output_mint intent))
           (intent_input_mint intent) (intent_output_mint intent) base = Inr input_fee"
  defines "mo \<equiv> min_out_after_slippage (vq_expected_out vq) (intent_slippage_bps intent)"
  shows "dq_min_out q = mo" and "mo \<noteq> 0" and "dq_expected_out q = vq_expected_out vq"
    and "dq_amount_in q = intent_amount_in intent" and "dq_swap_amount_in q = swap_in"
    and "dq_min_net_out q \<noteq> 0"
    and "fee_leg (dq_fee q) = for_pair sdk (intent_input_mint intent) (intent_output_mint intent)"
    and "fee_units (dq_fee q) =
      (if fee_leg (dq_fee q) = OutputSide then platform_fee_amount mo else fee_units input_fee)"
    and "dq_min_net_out q = (if fee_leg (dq_fee q) = OutputSide
           then saturating_sub mo (fee_units (dq_fee q)) else mo)"
    and "dq_expected_net_out q = (if fee_leg (dq_fee q) = OutputSide
           then saturating_sub (vq_expected_out vq) (fee_units (dq_fee q)) else vq_expected_out vq)"
    and "dq_pool q = intent_pool intent" and "dq_input_mint q = intent_input_mint intent"
    and "dq_output_mint q = intent_output_mint intent" and "dq_program q = program"
    and "fee_leg (dq_fee q) \<noteq> OutputSide \<Longrightarrow> dq_fee q = input_fee"
  using assms(1) resolve_for_pair [OF assms(2)]
  by (auto simp: assemble_def res_simps Let_def mo_def resolve_def split: if_splits fee_side.splits)

section \<open>Quoting against a market\<close>

text \<open>The size that reaches the pool: everything but an input-side fee.\<close>

definition pool_amount :: "sdk \<Rightarrow> direct_swap_intent \<Rightarrow> u64" where
  "pool_amount sdk intent =
     (if for_pair sdk (intent_input_mint intent) (intent_output_mint intent) = InputSide
      then intent_amount_in intent - platform_fee_amount (intent_amount_in intent)
      else intent_amount_in intent)"

lemma pool_amount_nz: "intent_amount_in intent \<noteq> 0 \<Longrightarrow> pool_amount sdk intent \<noteq> 0"
  using platform_fee_amount_lt [of "intent_amount_in intent"] by (auto simp: pool_amount_def)

lemma pool_amount_le: "pool_amount sdk intent \<le> intent_amount_in intent"
proof (cases "intent_amount_in intent = 0")
  case False
  then have "platform_fee_amount (intent_amount_in intent) < intent_amount_in intent"
    by (rule platform_fee_amount_lt)
  then show ?thesis by (simp add: pool_amount_def word_le_nat_alt unat_sub_exact word_less_nat_alt)
qed (simp add: pool_amount_def platform_fee_amount_def)

text \<open>The engine's own steps never fail: after validation only the venue can refuse, or the
  guaranteed output can be zero.\<close>

lemma assemble_ok_iff:
  assumes "resolve sdk (for_pair sdk (intent_input_mint intent) (intent_output_mint intent))
           (intent_input_mint intent) (intent_output_mint intent) base = Inr input_fee"
  shows "is_ok (assemble sdk intent program swap_in vq input_fee) \<longleftrightarrow>
     min_out_after_slippage (vq_expected_out vq) (intent_slippage_bps intent) \<noteq> 0"
proof -
  let ?mo = "min_out_after_slippage (vq_expected_out vq) (intent_slippage_bps intent)"
  have zero: "vq_expected_out vq = 0 \<Longrightarrow> ?mo = 0" using min_out_le [of 0] by simp
  have net: "?mo \<noteq> 0 \<Longrightarrow> saturating_sub ?mo (platform_fee_amount ?mo) \<noteq> 0"
    using platform_fee_amount_lt [of ?mo]
    by (auto simp: saturating_sub_def)
  have leg: "fee_leg input_fee = for_pair sdk (intent_input_mint intent) (intent_output_mint intent)"
    using resolve_for_pair [OF assms] by simp
  show ?thesis
  proof (cases "fee_leg input_fee = OutputSide")
    case True
    obtain fee where fee: "resolve sdk OutputSide (intent_input_mint intent)
        (intent_output_mint intent) ?mo = Inr fee"
      and "fee_leg fee = OutputSide" "fee_units fee = platform_fee_amount ?mo"
      using resolve_for_pair_ok [of sdk "intent_input_mint intent" "intent_output_mint intent" ?mo]
        resolve_for_pair [of sdk "intent_input_mint intent" "intent_output_mint intent" ?mo] True leg
      by auto
    with True zero net show ?thesis by (auto simp: assemble_def Let_def is_ok_iff)
  next
    case False
    with zero show ?thesis
      by (cases "fee_leg input_fee") (auto simp: assemble_def Let_def is_ok_iff)
  qed
qed

lemma quote_with_market_eq:
  assumes "validate sdk intent = Inr ()"
    and "trades market (intent_input_mint intent) (intent_output_mint intent)"
  obtains input_fee base where
    "resolve sdk (for_pair sdk (intent_input_mint intent) (intent_output_mint intent))
       (intent_input_mint intent) (intent_output_mint intent) base = Inr input_fee"
    "quote_with_market sdk intent market =
       rbind (pm_quote market (intent_input_mint intent) (pool_amount sdk intent))
         (\<lambda>vq. assemble sdk intent (pm_program market) (pool_amount sdk intent) vq input_fee)"
    "for_pair sdk (intent_input_mint intent) (intent_output_mint intent) = InputSide \<Longrightarrow>
       fee_units input_fee = platform_fee_amount (intent_amount_in intent)"
proof -
  let ?a = "intent_input_mint intent" and ?b = "intent_output_mint intent"
  let ?base = "if for_pair sdk ?a ?b = InputSide then intent_amount_in intent else 0"
  obtain fee where fee: "resolve sdk (for_pair sdk ?a ?b) ?a ?b ?base = Inr fee"
    using resolve_for_pair_ok by blast
  have nz: "intent_amount_in intent \<noteq> 0" using assms(1) by (simp add: res_simps)
  have units: "for_pair sdk ?a ?b = InputSide \<Longrightarrow>
      fee_units fee = platform_fee_amount (intent_amount_in intent)"
    using resolve_for_pair [OF fee] by simp
  have amount: "(if for_pair sdk ?a ?b = InputSide
      then saturating_sub (intent_amount_in intent) (fee_units fee) else intent_amount_in intent)
      = pool_amount sdk intent"
    using units platform_fee_amount_lt [OF nz]
    by (auto simp: pool_amount_def saturating_sub_def not_le)
  have "quote_with_market sdk intent market =
       rbind (pm_quote market ?a (pool_amount sdk intent))
         (\<lambda>vq. assemble sdk intent (pm_program market) (pool_amount sdk intent) vq fee)"
    using assms(2) pool_amount_nz [OF nz]
    by (simp only: quote_with_market_def assms(1) rbind.simps Let_def fee amount) simp
  from that [OF fee this units] show thesis .
qed

text \<open>The three facts about an accepted quote the plan relies on.\<close>

lemma quote_with_market_Inr:
  assumes "quote_with_market sdk intent market = Inr q"
  shows "validate sdk intent = Inr ()"
    and "trades market (intent_input_mint intent) (intent_output_mint intent)"
    and "\<exists>vq. pm_quote market (intent_input_mint intent) (pool_amount sdk intent) = Inr vq
           \<and> dq_expected_out q = vq_expected_out vq
           \<and> dq_min_out q = min_out_after_slippage (vq_expected_out vq) (intent_slippage_bps intent)"
    and "dq_swap_amount_in q = pool_amount sdk intent"
    and "fee_leg (dq_fee q) = for_pair sdk (intent_input_mint intent) (intent_output_mint intent)"
    and "fee_units (dq_fee q) = (case fee_leg (dq_fee q) of
           InputSide \<Rightarrow> platform_fee_amount (intent_amount_in intent)
         | OutputSide \<Rightarrow> platform_fee_amount (dq_min_out q)
         | NoSide \<Rightarrow> 0)"
    and "unat (dq_min_net_out q) = unat (dq_min_out q)
           - (if fee_leg (dq_fee q) = OutputSide then unat (fee_units (dq_fee q)) else 0)"
    and "dq_min_net_out q \<noteq> 0"
    and "dq_amount_in q = intent_amount_in intent"
    and "dq_input_mint q = intent_input_mint intent" and "dq_output_mint q = intent_output_mint intent"
proof -
  show v: "validate sdk intent = Inr ()"
    and t: "trades market (intent_input_mint intent) (intent_output_mint intent)"
    using assms by (auto simp: quote_with_market_def rbind_Inr_iff split: if_splits)
  obtain fee base where
    fee: "resolve sdk (for_pair sdk (intent_input_mint intent) (intent_output_mint intent))
       (intent_input_mint intent) (intent_output_mint intent) base = Inr fee"
    and eq: "quote_with_market sdk intent market =
       rbind (pm_quote market (intent_input_mint intent) (pool_amount sdk intent))
         (\<lambda>vq. assemble sdk intent (pm_program market) (pool_amount sdk intent) vq fee)"
    and units: "for_pair sdk (intent_input_mint intent) (intent_output_mint intent) = InputSide \<Longrightarrow>
       fee_units fee = platform_fee_amount (intent_amount_in intent)"
    using quote_with_market_eq [OF v t] by metis
  from assms obtain vq where vq: "pm_quote market (intent_input_mint intent) (pool_amount sdk intent) = Inr vq"
    and as: "assemble sdk intent (pm_program market) (pool_amount sdk intent) vq fee = Inr q"
    by (auto simp: eq rbind_Inr_iff)
  note facts = assemble_Inr [OF as fee]
  show "\<exists>vq. pm_quote market (intent_input_mint intent) (pool_amount sdk intent) = Inr vq
           \<and> dq_expected_out q = vq_expected_out vq
           \<and> dq_min_out q = min_out_after_slippage (vq_expected_out vq) (intent_slippage_bps intent)"
    using vq facts by auto
  show "dq_swap_amount_in q = pool_amount sdk intent"
    "fee_leg (dq_fee q) = for_pair sdk (intent_input_mint intent) (intent_output_mint intent)"
    "dq_min_net_out q \<noteq> 0" "dq_amount_in q = intent_amount_in intent"
    "dq_input_mint q = intent_input_mint intent" "dq_output_mint q = intent_output_mint intent"
    using facts by simp_all
  show "fee_units (dq_fee q) = (case fee_leg (dq_fee q) of
           InputSide \<Rightarrow> platform_fee_amount (intent_amount_in intent)
         | OutputSide \<Rightarrow> platform_fee_amount (dq_min_out q)
         | NoSide \<Rightarrow> 0)"
    using facts units resolve_for_pair [OF fee] by (cases "fee_leg (dq_fee q)") simp_all
  show "unat (dq_min_net_out q) = unat (dq_min_out q)
           - (if fee_leg (dq_fee q) = OutputSide then unat (fee_units (dq_fee q)) else 0)"
    using facts by simp
qed

text \<open>A fee that is due can be collected: the mint and the destination were resolved with it.\<close>

lemma assemble_fee_resolved:
  assumes "assemble sdk intent program swap_in vq input_fee = Inr q"
    and "resolve sdk (for_pair sdk (intent_input_mint intent) (intent_output_mint intent))
           (intent_input_mint intent) (intent_output_mint intent) base = Inr input_fee"
  shows "\<exists>base. resolve sdk (for_pair sdk (intent_input_mint intent) (intent_output_mint intent))
           (intent_input_mint intent) (intent_output_mint intent) base = Inr (dq_fee q)"
proof (cases "fee_leg input_fee = OutputSide")
  case True
  then have "for_pair sdk (intent_input_mint intent) (intent_output_mint intent) = OutputSide"
    using resolve_for_pair [OF assms(2)] by simp
  with True assms(1) show ?thesis
    by (auto simp: assemble_def res_simps Let_def split: if_splits fee_side.splits)
      (meson fee_side.exhaust)
next
  case False
  then have "dq_fee q = input_fee"
    using assms(1) by (cases "fee_leg input_fee") (auto simp: assemble_def res_simps Let_def split: if_splits)
  with assms(2) show ?thesis by blast
qed

lemma quote_fee_collectible:
  assumes "quote_with_market sdk intent market = Inr q"
  shows "is_collectible (dq_fee q) \<longleftrightarrow> 0 < fee_units (dq_fee q)"
proof -
  let ?side = "for_pair sdk (intent_input_mint intent) (intent_output_mint intent)"
  obtain fee base where
    fee: "resolve sdk ?side (intent_input_mint intent) (intent_output_mint intent) base = Inr fee"
    and eq: "quote_with_market sdk intent market =
       rbind (pm_quote market (intent_input_mint intent) (pool_amount sdk intent))
         (\<lambda>vq. assemble sdk intent (pm_program market) (pool_amount sdk intent) vq fee)"
    by (rule quote_with_market_eq [OF quote_with_market_Inr(1,2) [OF assms]])
  from assms obtain vq where
    as: "assemble sdk intent (pm_program market) (pool_amount sdk intent) vq fee = Inr q"
    by (auto simp: eq rbind_Inr_iff)
  obtain base' where res: "resolve sdk ?side (intent_input_mint intent) (intent_output_mint intent) base'
      = Inr (dq_fee q)"
    using assemble_fee_resolved [OF as fee] by blast
  show ?thesis
  proof (cases "?side = NoSide")
    case True
    then show ?thesis using resolve_for_pair [OF res] by (simp add: is_collectible_def)
  next
    case False
    then show ?thesis using resolve_mint [OF res] by (simp add: is_collectible_def)
  qed
qed

text \<open>When a quote is accepted, in terms of the request and the venue alone.\<close>

lemma quote_ok_iff:
  "is_ok (quote_with_market sdk intent market) \<longleftrightarrow>
     validate sdk intent = Inr () \<and> trades market (intent_input_mint intent) (intent_output_mint intent)
     \<and> (\<exists>vq. pm_quote market (intent_input_mint intent) (pool_amount sdk intent) = Inr vq
          \<and> min_out_after_slippage (vq_expected_out vq) (intent_slippage_bps intent) \<noteq> 0)"
proof (cases "validate sdk intent = Inr () \<and> trades market (intent_input_mint intent) (intent_output_mint intent)")
  case True
  then obtain fee base where
    fee: "resolve sdk (for_pair sdk (intent_input_mint intent) (intent_output_mint intent))
       (intent_input_mint intent) (intent_output_mint intent) base = Inr fee"
    and eq: "quote_with_market sdk intent market =
       rbind (pm_quote market (intent_input_mint intent) (pool_amount sdk intent))
         (\<lambda>vq. assemble sdk intent (pm_program market) (pool_amount sdk intent) vq fee)"
    by (blast elim: quote_with_market_eq)
  show ?thesis
    using True assemble_ok_iff [OF fee]
    by (cases "pm_quote market (intent_input_mint intent) (pool_amount sdk intent)") (auto simp: eq)
next
  case False
  then show ?thesis by (auto simp: is_ok_iff dest: quote_with_market_Inr(1,2))
qed

lemma assemble_error:
  assumes "assemble sdk intent program swap_in vq input_fee = Inl e"
    and "resolve sdk (for_pair sdk (intent_input_mint intent) (intent_output_mint intent))
           (intent_input_mint intent) (intent_output_mint intent) base = Inr input_fee"
  shows "min_out_after_slippage (vq_expected_out vq) (intent_slippage_bps intent) = 0
     \<and> e = InsufficientLiquidity (intent_pool intent) (intent_amount_in intent)
         (if vq_expected_out vq = 0 then ''the pool returns nothing for this size''
          else ''slippage tolerance reduces the guaranteed output to zero'')"
proof -
  have "\<not> is_ok (assemble sdk intent program swap_in vq input_fee)" using assms(1) by simp
  then have zero: "min_out_after_slippage (vq_expected_out vq) (intent_slippage_bps intent) = 0"
    using assemble_ok_iff [OF assms(2)] by blast
  with assms(1) show ?thesis by (auto simp: assemble_def split: if_splits)
qed

section \<open>Properties\<close>

text \<open>C32: the accounting of an accepted quote. The pool is asked for the requested amount less an
  input-side fee, the guaranteed output is the venue's estimate less the slippage tolerance
  rounded down, the fee is half a percent of the leg it rides, and what the wallet is guaranteed
  is that minimum less an output-side fee, never zero.\<close>

theorem quote_accounting:
  assumes "quote_with_market sdk intent market = Inr q"
  shows "unat (dq_min_out q) = unat (dq_expected_out q) * (10000 - unat (intent_slippage_bps intent)) div 10000
     \<and> fee_leg (dq_fee q) = for_pair sdk (intent_input_mint intent) (intent_output_mint intent)
     \<and> (case fee_leg (dq_fee q) of
          InputSide \<Rightarrow> unat (fee_units (dq_fee q)) = unat (intent_amount_in intent) div 200
            \<and> unat (dq_swap_amount_in q) + unat (fee_units (dq_fee q)) = unat (intent_amount_in intent)
            \<and> dq_min_net_out q = dq_min_out q
        | OutputSide \<Rightarrow> unat (fee_units (dq_fee q)) = unat (dq_min_out q) div 200
            \<and> dq_swap_amount_in q = intent_amount_in intent
            \<and> unat (dq_min_net_out q) + unat (fee_units (dq_fee q)) = unat (dq_min_out q)
        | NoSide \<Rightarrow> fee_units (dq_fee q) = 0 \<and> dq_swap_amount_in q = intent_amount_in intent
            \<and> dq_min_net_out q = dq_min_out q)
     \<and> 0 < dq_min_net_out q \<and> dq_min_net_out q \<le> dq_expected_out q"
proof -
  note facts = quote_with_market_Inr [OF assms]
  have nz: "intent_amount_in intent \<noteq> 0" using facts(1) by (simp add: res_simps)
  have sub: "unat (intent_amount_in intent - platform_fee_amount (intent_amount_in intent))
      + unat (intent_amount_in intent) div 200 = unat (intent_amount_in intent)"
    using platform_fee_amount_lt [OF nz]
    by (simp add: unat_sub_exact unat_platform_fee_amount)
  obtain vq :: venue_quote where vq: "dq_expected_out q = vq_expected_out vq"
    "dq_min_out q = min_out_after_slippage (vq_expected_out vq) (intent_slippage_bps intent)"
    using facts(3) by blast
  have "dq_min_net_out q \<le> dq_min_out q" using facts(7) by (simp add: word_le_nat_alt)
  also have "dq_min_out q \<le> dq_expected_out q" using vq min_out_le by simp
  finally have le: "dq_min_net_out q \<le> dq_expected_out q" .
  have pos: "0 < dq_min_net_out q" using facts(8) by (simp add: word_gt_0)
  have min: "unat (dq_min_out q) = unat (dq_expected_out q) * (10000 - unat (intent_slippage_bps intent)) div 10000"
    using vq by (simp add: unat_min_out_after_slippage)
  have out_fee: "unat (dq_min_out q) - unat (dq_min_out q) div 200 + unat (dq_min_out q) div 200
      = unat (dq_min_out q)" by simp
  show ?thesis
    using facts(4-7) le pos min sub out_fee
    by (cases "fee_leg (dq_fee q)")
      (simp_all add: pool_amount_def unat_platform_fee_amount word_unat_eq_iff)
qed

text \<open>What refuses a quote. Apart from a bad request and a pair the pool does not hold, only the
  venue's own refusal or an output that the slippage tolerance rounds to nothing stops a quote: the
  two refusals worded about the platform fee consuming the trade can never be reached.\<close>

theorem quote_refusals:
  assumes "quote_with_market sdk intent market = Inl e"
  shows "validate sdk intent = Inl e
     \<or> e = PairNotInPool (pm_pool market) (intent_input_mint intent) (intent_output_mint intent)
         \<and> \<not> trades market (intent_input_mint intent) (intent_output_mint intent)
     \<or> pm_quote market (intent_input_mint intent) (pool_amount sdk intent) = Inl e
     \<or> (\<exists>vq. pm_quote market (intent_input_mint intent) (pool_amount sdk intent) = Inr vq
         \<and> min_out_after_slippage (vq_expected_out vq) (intent_slippage_bps intent) = 0
         \<and> e = InsufficientLiquidity (intent_pool intent) (intent_amount_in intent)
             (if vq_expected_out vq = 0 then ''the pool returns nothing for this size''
              else ''slippage tolerance reduces the guaranteed output to zero''))"
proof (cases "validate sdk intent = Inr () \<and> trades market (intent_input_mint intent) (intent_output_mint intent)")
  case True
  then obtain fee base where
    fee: "resolve sdk (for_pair sdk (intent_input_mint intent) (intent_output_mint intent))
       (intent_input_mint intent) (intent_output_mint intent) base = Inr fee"
    and eq: "quote_with_market sdk intent market =
       rbind (pm_quote market (intent_input_mint intent) (pool_amount sdk intent))
         (\<lambda>vq. assemble sdk intent (pm_program market) (pool_amount sdk intent) vq fee)"
    by (blast elim: quote_with_market_eq)
  show ?thesis
    using assms assemble_error [OF _ fee]
    by (cases "pm_quote market (intent_input_mint intent) (pool_amount sdk intent)") (auto simp: eq)
next
  case False
  with assms show ?thesis
    by (cases "validate sdk intent") (auto simp: quote_with_market_def split: if_splits)
qed

end
