(* ===== verification/Layout.thy ===== *)
theory Layout
  imports Sdk
begin

text \<open>
  \<^verbatim>\<open>src/chains/solana/swaps/direct/venues/layout.rs\<close>: bounds-checked little-endian reads
  over raw account data. A read past the end is \<open>None\<close>, never a panic; a read inside the
  data returns exactly the value whose encoding is stored at the offset.
\<close>

section \<open>Reads\<close>

definition slice :: "bytes \<Rightarrow> nat \<Rightarrow> nat \<Rightarrow> bytes option" where
  "slice data offset n =
     (if offset + n \<le> length data then Some (take n (drop offset data)) else None)"

fun le_nat :: "bytes \<Rightarrow> nat" where
  "le_nat [] = 0"
| "le_nat (b # bs) = unat b + 256 * le_nat bs"

definition from_le_bytes :: "bytes \<Rightarrow> 'a::len word" where
  "from_le_bytes bs = of_nat (le_nat bs)"

fun le_bytes :: "nat \<Rightarrow> nat \<Rightarrow> bytes" where
  "le_bytes 0 n = []"
| "le_bytes (Suc k) n = of_nat n # le_bytes k (n div 256)"

definition to_le_bytes_u64 :: "u64 \<Rightarrow> bytes" where
  "to_le_bytes_u64 w = le_bytes 8 (unat w)"

definition to_le_bytes_u128 :: "u128 \<Rightarrow> bytes" where
  "to_le_bytes_u128 w = le_bytes 16 (unat w)"

definition pubkey_at :: "bytes \<Rightarrow> nat \<Rightarrow> pubkey option" where
  "pubkey_at data offset = map_option Pubkey (slice data offset 32)"

definition u64_at :: "bytes \<Rightarrow> nat \<Rightarrow> u64 option" where
  "u64_at data offset = map_option from_le_bytes (slice data offset 8)"

definition u128_at :: "bytes \<Rightarrow> nat \<Rightarrow> u128 option" where
  "u128_at data offset = map_option from_le_bytes (slice data offset 16)"

definition i128_at :: "bytes \<Rightarrow> nat \<Rightarrow> i128 option" where
  "i128_at data offset = map_option (\<lambda>bs. sint (from_le_bytes bs :: u128)) (slice data offset 16)"

definition u16_at :: "bytes \<Rightarrow> nat \<Rightarrow> u16 option" where
  "u16_at data offset = map_option from_le_bytes (slice data offset 2)"

definition u32_at :: "bytes \<Rightarrow> nat \<Rightarrow> u32 option" where
  "u32_at data offset = map_option from_le_bytes (slice data offset 4)"

definition i32_at :: "bytes \<Rightarrow> nat \<Rightarrow> i32 option" where
  "i32_at data offset = map_option (\<lambda>bs. sint (from_le_bytes bs :: u32)) (slice data offset 4)"

definition u8_at :: "bytes \<Rightarrow> nat \<Rightarrow> u8 option" where
  "u8_at data offset = (if offset < length data then Some (data ! offset) else None)"

definition mint_decimals :: "bytes \<Rightarrow> u8 option" where
  "mint_decimals data = u8_at data 44"

definition token_account_amount :: "bytes \<Rightarrow> u64 option" where
  "token_account_amount data = u64_at data 64"

section \<open>Encoding and decoding\<close>

lemma length_le_bytes [simp]: "length (le_bytes k n) = k"
  by (induction k arbitrary: n) auto

lemma le_nat_le_bytes: "le_nat (le_bytes k n) = n mod 256 ^ k"
proof (induction k arbitrary: n)
  case (Suc k)
  have "n mod (256 * 256 ^ k) = 256 * (n div 256 mod 256 ^ k) + n mod 256"
    by (rule mod_mult2_eq)
  then show ?case by (simp add: Suc unat_of_nat)
qed simp

lemma le_nat_lt: "le_nat bs < 256 ^ length bs"
proof (induction bs)
  case (Cons b bs)
  have "unat b + 256 * le_nat bs < 256 + 256 * le_nat bs" using unat_u8_lt [of b] by simp
  also have "\<dots> = 256 * Suc (le_nat bs)" by simp
  also have "\<dots> \<le> 256 * 256 ^ length bs" using Cons by (intro mult_le_mono2) simp
  finally show ?case by simp
qed simp

lemma from_le_bytes_u64 [simp]: "from_le_bytes (to_le_bytes_u64 w) = w"
proof -
  have "unat w mod 256 ^ 8 = unat w" using unat_u64_lt [of w] by simp
  then show ?thesis by (simp only: from_le_bytes_def to_le_bytes_u64_def le_nat_le_bytes) simp
qed

lemma from_le_bytes_u128 [simp]: "from_le_bytes (to_le_bytes_u128 w) = w"
proof -
  have "unat w mod 256 ^ 16 = unat w" using unat_u128_lt [of w] by simp
  then show ?thesis by (simp only: from_le_bytes_def to_le_bytes_u128_def le_nat_le_bytes) simp
qed

lemma slice_append [simp]:
  "length pre = offset \<Longrightarrow> length mid = n \<Longrightarrow> slice (pre @ mid @ post) offset n = Some mid"
  by (simp add: slice_def)

lemma slice_eq_Some: "slice data offset n = Some bs \<longleftrightarrow>
    (\<exists>pre post. data = pre @ bs @ post \<and> length pre = offset \<and> length bs = n)"
proof
  assume "slice data offset n = Some bs"
  then have len: "offset + n \<le> length data" and bs: "bs = take n (drop offset data)"
    by (auto simp: slice_def split: if_splits)
  have "data = take offset data @ bs @ drop n (drop offset data)"
    unfolding bs by (simp only: append_take_drop_id)
  with len bs show "\<exists>pre post. data = pre @ bs @ post \<and> length pre = offset \<and> length bs = n"
    by (intro exI [of _ "take offset data"] exI [of _ "drop n (drop offset data)"]) simp
qed auto

lemma slice_None_iff: "slice data offset n = None \<longleftrightarrow> length data < offset + n"
  by (auto simp: slice_def)

lemma u64_at_None_iff: "u64_at data offset = None \<longleftrightarrow> length data < offset + 8"
  by (simp add: u64_at_def slice_None_iff)

lemma u64_at_read_back:
  "length pre = offset \<Longrightarrow> u64_at (pre @ to_le_bytes_u64 w @ post) offset = Some w"
  by (simp add: u64_at_def to_le_bytes_u64_def [THEN arg_cong [of _ _ length]])

lemma pubkey_at_read_back:
  "length pre = offset \<Longrightarrow> length k = 32 \<Longrightarrow> pubkey_at (pre @ k @ post) offset = Some (Pubkey k)"
  by (simp add: pubkey_at_def)

section \<open>Properties\<close>

text \<open>The bounds-checked readers agree with the encoding. Every field written in little-endian
  form at an offset is read back exactly, whatever surrounds it, and a read is refused exactly
  when it would leave the data.\<close>

theorem readers_invert_encoding:
  assumes "length pre = offset" and "length key = 32"
  shows "u64_at (pre @ to_le_bytes_u64 w @ post) offset = Some w
     \<and> u128_at (pre @ to_le_bytes_u128 v @ post) offset = Some v
     \<and> pubkey_at (pre @ key @ post) offset = Some (Pubkey key)
     \<and> (u64_at data n = None \<longleftrightarrow> length data < n + 8)
     \<and> (pubkey_at data n = None \<longleftrightarrow> length data < n + 32)"
proof -
  have "u128_at (pre @ to_le_bytes_u128 v @ post) offset = Some v"
    using assms(1) by (simp add: u128_at_def to_le_bytes_u128_def [THEN arg_cong [of _ _ length]])
  moreover have "pubkey_at data n = None \<longleftrightarrow> length data < n + 32"
    by (simp add: pubkey_at_def slice_None_iff)
  ultimately show ?thesis
    using assms u64_at_read_back u64_at_None_iff pubkey_at_read_back by simp
qed

theorem readers_invert_encoding_witness:
  "u64_at ([1, 2, 3] @ to_le_bytes_u64 258 @ [7]) 3 = Some 258 \<and> u64_at [1, 2, 3] 0 = None"
  using readers_invert_encoding [of "[1, 2, 3]" 3 "replicate 32 0" 258 "[7]" 0 "[1, 2, 3]" 0] by simp

end
