(* ===== verification/Swap_Plan.thy ===== *)
theory Swap_Plan
  imports Platform_Fee Layout
begin

text \<open>
  \<^verbatim>\<open>compute.rs\<close>, \<^verbatim>\<open>accounts.rs\<close> and \<^verbatim>\<open>plan.rs\<close>: the compute budget, the wallet's two token
  accounts and the instruction list of a direct swap, in the order that keeps it safe. The
  configured priority-fee price is an argument.
\<close>

section \<open>Compute budget\<close>

definition COMPUTE_UNIT_HEADROOM_PCT :: u32 where "COMPUTE_UNIT_HEADROOM_PCT = 30"
definition MIN_COMPUTE_UNITS :: u32 where "MIN_COMPUTE_UNITS = 60000"
definition MAX_COMPUTE_UNITS :: u32 where "MAX_COMPUTE_UNITS = 1400000"
definition MEASURED_SAFETY_MARGIN_PCT :: u32 where "MEASURED_SAFETY_MARGIN_PCT = 15"
definition MEASURED_SAFETY_FLAT_UNITS :: u32 where "MEASURED_SAFETY_FLAT_UNITS = 2000"
definition BASE_SIGNATURE_FEE_LAMPORTS :: u64 where "BASE_SIGNATURE_FEE_LAMPORTS = 5000"

definition compute_unit_limit :: "u32 \<Rightarrow> u32" where
  "compute_unit_limit venue_units =
     (let with_headroom = saturating_mul venue_units (100 + COMPUTE_UNIT_HEADROOM_PCT) div 100
      in clamp with_headroom MIN_COMPUTE_UNITS MAX_COMPUTE_UNITS)"

definition compute_budget_instructions :: "sdk \<Rightarrow> u64 \<Rightarrow> u32 \<Rightarrow> instruction list" where
  "compute_budget_instructions sdk price venue_units =
     [set_compute_unit_limit sdk (compute_unit_limit venue_units),
      set_compute_unit_price sdk price]"

definition compute_unit_limit_from_measured :: "u64 \<Rightarrow> u32" where
  "compute_unit_limit_from_measured units_consumed =
     (let with_margin = saturating_add
            (saturating_mul units_consumed (100 + ucast MEASURED_SAFETY_MARGIN_PCT) div 100)
            (ucast MEASURED_SAFETY_FLAT_UNITS)
      in clamp (ucast (min with_margin 0xFFFFFFFF)) MIN_COMPUTE_UNITS MAX_COMPUTE_UNITS)"

definition requested_compute_unit_limit :: "instruction list \<Rightarrow> u32 option" where
  "requested_compute_unit_limit instructions = (case instructions of
       [] \<Rightarrow> None
     | ix # _ \<Rightarrow> let data = ix_data ix in
         if data = [] \<or> hd data \<noteq> 2 then None
         else map_option from_le_bytes (slice data 1 4))"

definition requested_compute_unit_price :: "instruction list \<Rightarrow> u64 option" where
  "requested_compute_unit_price instructions = (case instructions of
       _ # ix # _ \<Rightarrow> let data = ix_data ix in
         if data = [] \<or> hd data \<noteq> 3 then None
         else map_option from_le_bytes (slice data 1 8)
     | _ \<Rightarrow> None)"

definition network_fee_lamports :: "u64 \<Rightarrow> instruction list \<Rightarrow> u64" where
  "network_fee_lamports config_price instructions =
     (let limit = ucast (case requested_compute_unit_limit instructions of
              None \<Rightarrow> MAX_COMPUTE_UNITS | Some l \<Rightarrow> l) :: u64;
          price = (case requested_compute_unit_price instructions of
              None \<Rightarrow> config_price | Some p \<Rightarrow> p)
      in saturating_add (div_ceil (saturating_mul limit price) 1000000) BASE_SIGNATURE_FEE_LAMPORTS)"

section \<open>The wallet's token accounts\<close>

record wallet_legs =
  legs_input_account :: pubkey
  legs_input_program :: pubkey
  legs_output_account :: pubkey
  legs_output_program :: pubkey

definition resolve_legs ::
  "sdk \<Rightarrow> pubkey \<Rightarrow> pool_market \<Rightarrow> pubkey \<Rightarrow> pubkey \<Rightarrow> wallet_legs direct_result" where
  "resolve_legs sdk owner market input_mint output_mint =
     rbind (ok_or (pm_token_program market input_mint)
              (PairNotInPool (pm_pool market) input_mint output_mint)) (\<lambda>input_program.
     rbind (ok_or (pm_token_program market output_mint)
              (PairNotInPool (pm_pool market) input_mint output_mint)) (\<lambda>output_program.
     Inr \<lparr>legs_input_account = associated_token_address sdk owner input_mint input_program,
          legs_input_program = input_program,
          legs_output_account = associated_token_address sdk owner output_mint output_program,
          legs_output_program = output_program\<rparr>))"

definition ensure_instructions ::
  "sdk \<Rightarrow> wallet_legs \<Rightarrow> pubkey \<Rightarrow> pubkey \<Rightarrow> pubkey \<Rightarrow> pubkey \<Rightarrow> instruction list" where
  "ensure_instructions sdk legs payer owner input_mint output_mint =
     [create_ata_idempotent sdk payer owner input_mint (legs_input_program legs),
      create_ata_idempotent sdk payer owner output_mint (legs_output_program legs)]"

section \<open>The plan\<close>

record swap_plan =
  plan_instructions :: "instruction list"
  plan_venue_compute_units :: u32
  plan_input_account :: pubkey
  plan_output_account :: pubkey
  plan_output_is_native :: bool
  plan_quote :: direct_quote

definition wsol_account :: "sdk \<Rightarrow> direct_swap_intent \<Rightarrow> wallet_legs \<Rightarrow> pubkey option" where
  "wsol_account sdk intent legs =
     (if is_wsol sdk (intent_input_mint intent) then Some (legs_input_account legs)
      else if is_wsol sdk (intent_output_mint intent) then Some (legs_output_account legs)
      else None)"

text \<open>Native SOL into a WSOL account: a lamport transfer, then \<^verbatim>\<open>sync_native\<close>.\<close>

definition wrap_lamports :: "sdk \<Rightarrow> pubkey \<Rightarrow> pubkey \<Rightarrow> u64 \<Rightarrow> instruction list direct_result" where
  "wrap_lamports sdk owner wsol amount =
     rbind (map_err (\<lambda>e. Build (''sync_native could not be built: '' @ e))
              (sync_native sdk (spl_token_id sdk) wsol))
       (\<lambda>sync. Inr [system_transfer sdk owner wsol amount, sync])"

definition wrap_input ::
  "sdk \<Rightarrow> direct_swap_intent \<Rightarrow> wallet_legs \<Rightarrow> bool \<Rightarrow> direct_quote \<Rightarrow> instruction list direct_result" where
  "wrap_input sdk intent legs native_settle quote =
     (if wraps_native sdk intent then
        let wrap_amount = (if native_settle then fee_units (dq_fee quote) else intent_amount_in intent)
        in if 0 < wrap_amount
           then wrap_lamports sdk (intent_owner intent) (legs_input_account legs) wrap_amount
           else Inr []
      else Inr [])"

definition fee_transfer :: "sdk \<Rightarrow> platform_fee \<Rightarrow> pubkey \<Rightarrow> pubkey \<Rightarrow> instruction list direct_result" where
  "fee_transfer sdk fee source owner =
     rbind (transfer_instruction sdk fee source owner)
       (\<lambda>ix. Inr (case ix of None \<Rightarrow> [] | Some i \<Rightarrow> [i]))"

definition output_fee ::
  "sdk \<Rightarrow> direct_swap_intent \<Rightarrow> wallet_legs \<Rightarrow> bool \<Rightarrow> direct_quote \<Rightarrow> instruction list direct_result" where
  "output_fee sdk intent legs native_settle quote =
     (if fee_leg (dq_fee quote) = OutputSide then
        rbind (if native_settle \<and> 0 < fee_units (dq_fee quote)
               then wrap_lamports sdk (intent_owner intent) (legs_output_account legs)
                      (fee_units (dq_fee quote))
               else Inr []) (\<lambda>wrap.
        rbind (fee_transfer sdk (dq_fee quote) (legs_output_account legs) (intent_owner intent)) (\<lambda>fee.
        Inr (wrap @ fee)))
      else Inr [])"

definition close_wsol :: "sdk \<Rightarrow> direct_swap_intent \<Rightarrow> wallet_legs \<Rightarrow> instruction list direct_result" where
  "close_wsol sdk intent legs = (case wsol_account sdk intent legs of
       None \<Rightarrow> Inr []
     | Some wsol \<Rightarrow>
         rbind (map_err (\<lambda>e. Build (''WSOL close could not be built: '' @ e))
                  (close_account sdk (spl_token_id sdk) wsol (intent_owner intent)
                     (intent_owner intent) []))
           (\<lambda>ix. Inr [ix]))"

definition build_plan ::
  "sdk \<Rightarrow> u64 \<Rightarrow> direct_swap_intent \<Rightarrow> pool_market \<Rightarrow> direct_quote \<Rightarrow> swap_plan direct_result" where
  "build_plan sdk price intent market quote =
     rbind (resolve_legs sdk (intent_owner intent) market (intent_input_mint intent)
              (intent_output_mint intent)) (\<lambda>legs.
     let venue_units = pm_compute_units market;
         native_settle = pm_settles_native_sol market in
     rbind (wrap_input sdk intent legs native_settle quote) (\<lambda>wrap.
     rbind (if fee_leg (dq_fee quote) = InputSide
            then fee_transfer sdk (dq_fee quote) (legs_input_account legs) (intent_owner intent)
            else Inr []) (\<lambda>input_fee.
     rbind (pm_swap_instruction market
              \<lparr>sa_owner = intent_owner intent, sa_input_mint = intent_input_mint intent,
               sa_output_mint = intent_output_mint intent,
               sa_input_token_account = legs_input_account legs,
               sa_output_token_account = legs_output_account legs\<rparr>
              (dq_swap_amount_in quote) (dq_min_out quote)) (\<lambda>swap.
     rbind (output_fee sdk intent legs native_settle quote) (\<lambda>out_fee.
     rbind (close_wsol sdk intent legs) (\<lambda>close.
     Inr \<lparr>plan_instructions =
            compute_budget_instructions sdk price venue_units
            @ ensure_instructions sdk legs (intent_owner intent) (intent_owner intent)
                (intent_input_mint intent) (intent_output_mint intent)
            @ wrap @ input_fee @ [swap] @ out_fee @ close,
          plan_venue_compute_units = venue_units,
          plan_input_account = legs_input_account legs,
          plan_output_account = legs_output_account legs,
          plan_output_is_native = unwraps_native sdk intent,
          plan_quote = quote\<rparr>))))))"

section \<open>The compute budget\<close>

lemma compute_unit_limit_bounds:
  "MIN_COMPUTE_UNITS \<le> compute_unit_limit n \<and> compute_unit_limit n \<le> MAX_COMPUTE_UNITS"
  unfolding compute_unit_limit_def Let_def
  by (rule clamp_bounds) (simp add: MIN_COMPUTE_UNITS_def MAX_COMPUTE_UNITS_def)

lemma measured_limit_bounds:
  "MIN_COMPUTE_UNITS \<le> compute_unit_limit_from_measured n
     \<and> compute_unit_limit_from_measured n \<le> MAX_COMPUTE_UNITS"
  unfolding compute_unit_limit_from_measured_def Let_def
  by (rule clamp_bounds) (simp add: MIN_COMPUTE_UNITS_def MAX_COMPUTE_UNITS_def)

lemma unat_ucast_u64_u32: "unat (ucast (min x 0xFFFFFFFF :: u64) :: u32) = min (unat x) 0xFFFFFFFF"
proof -
  have "unat (min x 0xFFFFFFFF) = min (unat x) 0xFFFFFFFF" by (simp only: unat_min) simp
  moreover have "min (unat x) 0xFFFFFFFF < 2 ^ 32" by simp
  ultimately show ?thesis by (simp only: unsigned_ucast_eq) (simp add: take_bit_nat_eq_self)
qed

text \<open>A measured limit leaves fifteen percent and two thousand units of room, inside the bounds.\<close>

lemma unat_measured_limit:
  "unat (compute_unit_limit_from_measured n)
     = max 60000 (min (min (min (unat n * 115) (2 ^ 64 - 1) div 100 + 2000) (2 ^ 64 - 1)) 1400000)"
proof -
  have ord: "MIN_COMPUTE_UNITS \<le> MAX_COMPUTE_UNITS"
    by (simp add: MIN_COMPUTE_UNITS_def MAX_COMPUTE_UNITS_def)
  define x :: u64 where "x = saturating_add (saturating_mul n 115 div 100) 2000"
  have x: "unat x = min (min (unat n * 115) (2 ^ 64 - 1) div 100 + 2000) (2 ^ 64 - 1)"
    by (simp add: x_def unat_saturating_add unat_saturating_mul unat_div)
  have "compute_unit_limit_from_measured n
      = clamp (ucast (min x 0xFFFFFFFF)) MIN_COMPUTE_UNITS MAX_COMPUTE_UNITS"
    by (simp add: compute_unit_limit_from_measured_def x_def MEASURED_SAFETY_MARGIN_PCT_def
        MEASURED_SAFETY_FLAT_UNITS_def Let_def)
  also have "unat \<dots> = max (unat MIN_COMPUTE_UNITS)
      (min (unat (ucast (min x 0xFFFFFFFF) :: u32)) (unat MAX_COMPUTE_UNITS))"
    by (rule unat_clamp [OF ord])
  also have "\<dots> = max 60000 (min (min (unat x) 0xFFFFFFFF) 1400000)"
    unfolding unat_ucast_u64_u32 by (simp add: MIN_COMPUTE_UNITS_def MAX_COMPUTE_UNITS_def)
  also have "min (min (unat x) 0xFFFFFFFF) 1400000 = min (unat x) 1400000" by simp
  finally show ?thesis by (simp only: x)
qed

text \<open>The encoding of the two budget instructions, a documented fact of the SDK.\<close>

definition budget_encoding :: "sdk \<Rightarrow> bool" where
  "budget_encoding sdk \<longleftrightarrow>
     (\<forall>n. ix_data (set_compute_unit_limit sdk n) = 2 # le_bytes 4 (unat n))
     \<and> (\<forall>n. ix_data (set_compute_unit_price sdk n) = 3 # le_bytes 8 (unat n))"

lemma from_le_bytes_u32: "from_le_bytes (le_bytes 4 (unat (w :: u32))) = w"
proof -
  have "unat w mod 256 ^ 4 = unat w" using unat_u32_lt [of w] by simp
  then show ?thesis by (simp only: from_le_bytes_def le_nat_le_bytes) simp
qed

lemma requested_limit_set:
  "budget_encoding sdk \<Longrightarrow> requested_compute_unit_limit (set_compute_unit_limit sdk n # ixs) = Some n"
  by (simp add: budget_encoding_def requested_compute_unit_limit_def slice_def from_le_bytes_u32)

lemma requested_price_set:
  "budget_encoding sdk \<Longrightarrow> requested_compute_unit_price (ix # set_compute_unit_price sdk n # ixs) = Some n"
  using from_le_bytes_u64 [of n]
  by (simp add: budget_encoding_def requested_compute_unit_price_def slice_def to_le_bytes_u64_def)

lemma build_plan_head:
  assumes "build_plan sdk price intent market q = Inr p"
  shows "\<exists>rest. plan_instructions p =
     set_compute_unit_limit sdk (compute_unit_limit (pm_compute_units market))
       # set_compute_unit_price sdk price # rest"
  using assms
  by (auto simp: build_plan_def rbind_Inr_iff Let_def compute_budget_instructions_def)

text \<open>What the plan will pay the network, and that a lower limit never costs more.\<close>

definition network_fee :: "u32 \<Rightarrow> u64 \<Rightarrow> nat" where
  "network_fee limit price =
     min (cdiv (min (unat limit * unat price) (2 ^ 64 - 1)) 1000000 + 5000) (2 ^ 64 - 1)"

lemma network_fee_lamports_head:
  assumes "budget_encoding sdk"
  shows "unat (network_fee_lamports cp (set_compute_unit_limit sdk n # set_compute_unit_price sdk pr # ixs))
     = network_fee n pr"
  using assms
  by (simp add: network_fee_lamports_def requested_limit_set requested_price_set network_fee_def
      unat_saturating_add unat_saturating_mul unat_div_ceil BASE_SIGNATURE_FEE_LAMPORTS_def)

lemma network_fee_mono: "m \<le> n \<Longrightarrow> network_fee m price \<le> network_fee n price"
proof -
  assume "m \<le> n"
  then have "unat m * unat price \<le> unat n * unat price"
    by (intro mult_le_mono1) (simp add: word_le_nat_alt)
  then have "cdiv (min (unat m * unat price) (2 ^ 64 - 1)) 1000000
      \<le> cdiv (min (unat n * unat price) (2 ^ 64 - 1)) 1000000"
    by (intro cdiv_mono min.mono) auto
  then show ?thesis by (simp add: network_fee_def min_le_iff_disj)
qed

end
