(* ===== verification/Swap_Ledger.thy ===== *)
theory Swap_Ledger
  imports Swap_Plan
begin

text \<open>
  What a plan promises, stated without instructions. A plan is abstracted to its steps on the
  wallet's two legs, the steps run on an abstract ledger of the wallet, and two facts connect
  them: \<open>build_plan\<close> emits exactly the instructions of the abstract steps, in order, and the
  steps never overdraw an account, whatever the venue delivers above the guaranteed minimum.
\<close>

section \<open>Steps\<close>

datatype leg = InputLeg | OutputLeg

datatype plan_step =
    LimitUnits u32
  | PriceUnits u64
  | EnsureAccount leg
  | WrapLamports leg u64
  | SyncNative leg
  | CollectFee leg u64
  | Trade u64 u64
  | CloseAccount leg

definition leg_mint :: "direct_swap_intent \<Rightarrow> leg \<Rightarrow> pubkey" where
  "leg_mint intent l = (case l of InputLeg \<Rightarrow> intent_input_mint intent
     | OutputLeg \<Rightarrow> intent_output_mint intent)"

definition leg_account :: "wallet_legs \<Rightarrow> leg \<Rightarrow> pubkey" where
  "leg_account legs l = (case l of InputLeg \<Rightarrow> legs_input_account legs
     | OutputLeg \<Rightarrow> legs_output_account legs)"

definition leg_program :: "wallet_legs \<Rightarrow> leg \<Rightarrow> pubkey" where
  "leg_program legs l = (case l of InputLeg \<Rightarrow> legs_input_program legs
     | OutputLeg \<Rightarrow> legs_output_program legs)"

definition wrap_steps :: "leg \<Rightarrow> u64 \<Rightarrow> plan_step list" where
  "wrap_steps l amount = (if 0 < amount then [WrapLamports l amount, SyncNative l] else [])"

definition fee_steps :: "leg \<Rightarrow> platform_fee \<Rightarrow> plan_step list" where
  "fee_steps l fee = (if is_collectible fee then [CollectFee l (fee_units fee)] else [])"

definition plan_steps ::
  "sdk \<Rightarrow> u64 \<Rightarrow> u32 \<Rightarrow> bool \<Rightarrow> direct_swap_intent \<Rightarrow> direct_quote \<Rightarrow> plan_step list" where
  "plan_steps sdk price units native_settle intent q =
     [LimitUnits (compute_unit_limit units), PriceUnits price,
      EnsureAccount InputLeg, EnsureAccount OutputLeg]
     @ (if wraps_native sdk intent
        then wrap_steps InputLeg (if native_settle then fee_units (dq_fee q) else intent_amount_in intent)
        else [])
     @ (if fee_leg (dq_fee q) = InputSide then fee_steps InputLeg (dq_fee q) else [])
     @ [Trade (dq_swap_amount_in q) (dq_min_out q)]
     @ (if fee_leg (dq_fee q) = OutputSide
        then (if native_settle then wrap_steps OutputLeg (fee_units (dq_fee q)) else [])
             @ fee_steps OutputLeg (dq_fee q)
        else [])
     @ (if wraps_native sdk intent then [CloseAccount InputLeg]
        else if unwraps_native sdk intent then [CloseAccount OutputLeg] else [])"

text \<open>The instruction a step stands for.\<close>

fun realises ::
  "sdk \<Rightarrow> direct_swap_intent \<Rightarrow> pool_market \<Rightarrow> wallet_legs \<Rightarrow> platform_fee \<Rightarrow> instruction \<Rightarrow> plan_step \<Rightarrow> bool"
where
  "realises sdk intent market legs fee ix (LimitUnits n) \<longleftrightarrow> ix = set_compute_unit_limit sdk n"
| "realises sdk intent market legs fee ix (PriceUnits n) \<longleftrightarrow> ix = set_compute_unit_price sdk n"
| "realises sdk intent market legs fee ix (EnsureAccount l) \<longleftrightarrow>
     ix = create_ata_idempotent sdk (intent_owner intent) (intent_owner intent) (leg_mint intent l)
            (leg_program legs l)"
| "realises sdk intent market legs fee ix (WrapLamports l n) \<longleftrightarrow>
     ix = system_transfer sdk (intent_owner intent) (leg_account legs l) n"
| "realises sdk intent market legs fee ix (SyncNative l) \<longleftrightarrow>
     sync_native sdk (spl_token_id sdk) (leg_account legs l) = Inr ix"
| "realises sdk intent market legs fee ix (CollectFee l n) \<longleftrightarrow>
     (\<exists>mint dest. fee_mint fee = Some mint \<and> fee_destination fee = Some dest \<and>
        transfer_checked sdk (spl_token_id sdk) (leg_account legs l) mint dest (intent_owner intent) []
          n (fee_decimals fee) = Inr ix)"
| "realises sdk intent market legs fee ix (Trade n m) \<longleftrightarrow>
     pm_swap_instruction market
       \<lparr>sa_owner = intent_owner intent, sa_input_mint = intent_input_mint intent,
        sa_output_mint = intent_output_mint intent,
        sa_input_token_account = legs_input_account legs,
        sa_output_token_account = legs_output_account legs\<rparr> n m = Inr ix"
| "realises sdk intent market legs fee ix (CloseAccount l) \<longleftrightarrow>
     close_account sdk (spl_token_id sdk) (leg_account legs l) (intent_owner intent)
       (intent_owner intent) [] = Inr ix"

section \<open>The ledger\<close>

text \<open>
  Lamports the wallet holds, and for each leg whether the wallet has its token account, the token balance and
  the lamports not yet counted as tokens; and the compute budget the transaction has asked for. Account rent
  and the network fee are outside the ledger.
\<close>

record ledger =
  led_native :: nat
  led_open :: "leg \<Rightarrow> bool"
  led_tokens :: "leg \<Rightarrow> nat"
  led_unsynced :: "leg \<Rightarrow> nat"
  led_limit :: "u32 option"
  led_price :: "u64 option"

definition pay :: "nat \<Rightarrow> nat \<Rightarrow> nat option" where
  "pay balance amount = (if amount \<le> balance then Some (balance - amount) else None)"

definition when_open :: "leg \<Rightarrow> ledger \<Rightarrow> ledger option \<Rightarrow> ledger option" where
  "when_open l s r = (if led_open s l then r else None)"

text \<open>
  \<open>native_in\<close> and \<open>native_out\<close> say that the venue itself takes or pays lamports for that
  side; \<open>delivered\<close> is what the venue pays out, and it reverts below the minimum. A step on a
  token account the wallet does not have fails, and so does a trade without a compute budget.
\<close>

fun run_step :: "bool \<Rightarrow> bool \<Rightarrow> nat \<Rightarrow> plan_step \<Rightarrow> ledger \<Rightarrow> ledger option" where
  "run_step native_in native_out delivered (WrapLamports l n) s =
     when_open l s (map_option (\<lambda>b. s\<lparr>led_native := b,
         led_unsynced := (led_unsynced s)(l := led_unsynced s l + unat n)\<rparr>)
       (pay (led_native s) (unat n)))"
| "run_step native_in native_out delivered (SyncNative l) s =
     when_open l s (Some (s\<lparr>led_tokens := (led_tokens s)(l := led_tokens s l + led_unsynced s l),
             led_unsynced := (led_unsynced s)(l := 0)\<rparr>))"
| "run_step native_in native_out delivered (CollectFee l n) s =
     when_open l s (map_option (\<lambda>b. s\<lparr>led_tokens := (led_tokens s)(l := b)\<rparr>) (pay (led_tokens s l) (unat n)))"
| "run_step native_in native_out delivered (Trade n m) s =
     (if delivered < unat m \<or> led_limit s = None \<or> led_price s = None
         \<or> \<not> (native_in \<or> led_open s InputLeg) \<or> \<not> (native_out \<or> led_open s OutputLeg) then None
      else map_option (\<lambda>s. if native_out then s\<lparr>led_native := led_native s + delivered\<rparr>
               else s\<lparr>led_tokens := (led_tokens s)(OutputLeg := led_tokens s OutputLeg + delivered)\<rparr>)
             (if native_in then map_option (\<lambda>b. s\<lparr>led_native := b\<rparr>) (pay (led_native s) (unat n))
              else map_option (\<lambda>b. s\<lparr>led_tokens := (led_tokens s)(InputLeg := b)\<rparr>)
                     (pay (led_tokens s InputLeg) (unat n))))"
| "run_step native_in native_out delivered (CloseAccount l) s =
     when_open l s (Some (s\<lparr>led_native := led_native s + led_tokens s l + led_unsynced s l,
             led_tokens := (led_tokens s)(l := 0), led_unsynced := (led_unsynced s)(l := 0),
             led_open := (led_open s)(l := False)\<rparr>))"
| "run_step native_in native_out delivered (LimitUnits n) s = Some (s\<lparr>led_limit := Some n\<rparr>)"
| "run_step native_in native_out delivered (PriceUnits n) s = Some (s\<lparr>led_price := Some n\<rparr>)"
| "run_step native_in native_out delivered (EnsureAccount l) s = Some (s\<lparr>led_open := (led_open s)(l := True)\<rparr>)"

fun run_steps :: "bool \<Rightarrow> bool \<Rightarrow> nat \<Rightarrow> plan_step list \<Rightarrow> ledger \<Rightarrow> ledger option" where
  "run_steps native_in native_out delivered [] s = Some s"
| "run_steps native_in native_out delivered (st # sts) s =
     Option.bind (run_step native_in native_out delivered st s)
       (run_steps native_in native_out delivered sts)"

text \<open>What the wallet holds of a leg's asset: its tokens, and its lamports when the asset is SOL.\<close>

definition holding :: "bool \<Rightarrow> leg \<Rightarrow> ledger \<Rightarrow> nat" where
  "holding native l s = led_tokens s l + (if native then led_native s + led_unsynced s l else 0)"

lemma run_steps_append: "run_steps ni no d (xs @ ys) s =
    Option.bind (run_steps ni no d xs s) (run_steps ni no d ys)"
  by (induction xs arbitrary: s) (auto split: Option.bind_split)

lemma run_steps_Nil [simp]: "run_steps ni no d [] = Some"
  by (rule ext) simp

lemma when_open_ok [simp]: "led_open s l \<Longrightarrow> when_open l s r = r"
  by (simp add: when_open_def)

lemma pay_ok: "a \<le> b \<Longrightarrow> pay b a = Some (b - a)"
  by (simp add: pay_def)

section \<open>The plan is its steps\<close>

lemma wrap_lamports_realises:
  "wrap_lamports sdk (intent_owner intent) (leg_account legs l) n = Inr ixs \<Longrightarrow>
     list_all2 (realises sdk intent market legs fee) ixs [WrapLamports l n, SyncNative l]"
  by (auto simp: wrap_lamports_def res_simps)

lemma fee_transfer_realises:
  "fee_transfer sdk fee (leg_account legs l) (intent_owner intent) = Inr ixs \<Longrightarrow>
     list_all2 (realises sdk intent market legs fee) ixs (fee_steps l fee)"
  by (auto simp: fee_transfer_def fee_steps_def transfer_instruction_def is_collectible_def res_simps)

lemma leg_account_simps [simp]:
  "leg_account legs InputLeg = legs_input_account legs"
  "leg_account legs OutputLeg = legs_output_account legs"
  "leg_mint intent InputLeg = intent_input_mint intent"
  "leg_mint intent OutputLeg = intent_output_mint intent"
  "leg_program legs InputLeg = legs_input_program legs"
  "leg_program legs OutputLeg = legs_output_program legs"
  by (simp_all add: leg_account_def leg_mint_def leg_program_def)

lemma wrap_input_realises:
  assumes "wrap_input sdk intent legs ns q = Inr ixs"
  shows "list_all2 (realises sdk intent market legs (dq_fee q)) ixs
     (if wraps_native sdk intent
      then wrap_steps InputLeg (if ns then fee_units (dq_fee q) else intent_amount_in intent) else [])"
  using assms wrap_lamports_realises [of sdk intent legs InputLeg]
  by (auto simp: wrap_input_def wrap_steps_def Let_def split: if_splits)

lemma output_fee_realises:
  assumes "output_fee sdk intent legs ns q = Inr ixs"
  shows "list_all2 (realises sdk intent market legs (dq_fee q)) ixs
     (if fee_leg (dq_fee q) = OutputSide
      then (if ns then wrap_steps OutputLeg (fee_units (dq_fee q)) else []) @ fee_steps OutputLeg (dq_fee q)
      else [])"
proof (cases "fee_leg (dq_fee q) = OutputSide")
  case True
  with assms obtain w f where ixs: "ixs = w @ f"
    and w: "(if ns \<and> 0 < fee_units (dq_fee q)
      then wrap_lamports sdk (intent_owner intent) (legs_output_account legs) (fee_units (dq_fee q))
      else Inr []) = Inr w"
    and f: "fee_transfer sdk (dq_fee q) (legs_output_account legs) (intent_owner intent) = Inr f"
    by (auto simp: output_fee_def rbind_Inr_iff)
  have "list_all2 (realises sdk intent market legs (dq_fee q)) w
      (if ns then wrap_steps OutputLeg (fee_units (dq_fee q)) else [])"
    using w wrap_lamports_realises [of sdk intent legs OutputLeg "fee_units (dq_fee q)" w]
    by (auto simp: wrap_steps_def split: if_splits)
  with f show ?thesis
    using True fee_transfer_realises [of sdk "dq_fee q" legs OutputLeg intent f]
    by (simp add: ixs list_all2_appendI)
qed (use assms in \<open>simp add: output_fee_def\<close>)

lemma close_wsol_realises:
  assumes "close_wsol sdk intent legs = Inr ixs"
  shows "list_all2 (realises sdk intent market legs fee) ixs
     (if wraps_native sdk intent then [CloseAccount InputLeg]
      else if unwraps_native sdk intent then [CloseAccount OutputLeg] else [])"
  using assms
  by (auto simp: close_wsol_def wsol_account_def wraps_native_def unwraps_native_def res_simps
      split: if_splits)

lemma build_plan_realises:
  assumes "build_plan sdk price intent market q = Inr p"
    and "resolve_legs sdk (intent_owner intent) market (intent_input_mint intent)
           (intent_output_mint intent) = Inr legs"
  shows "list_all2 (realises sdk intent market legs (dq_fee q)) (plan_instructions p)
     (plan_steps sdk price (pm_compute_units market) (pm_settles_native_sol market) intent q)"
proof -
  let ?R = "realises sdk intent market legs (dq_fee q)"
  from assms obtain w f sw out cl where
    w: "wrap_input sdk intent legs (pm_settles_native_sol market) q = Inr w"
    and f: "(if fee_leg (dq_fee q) = InputSide
       then fee_transfer sdk (dq_fee q) (legs_input_account legs) (intent_owner intent)
       else Inr []) = Inr f"
    and sw: "?R sw (Trade (dq_swap_amount_in q) (dq_min_out q))"
    and out: "output_fee sdk intent legs (pm_settles_native_sol market) q = Inr out"
    and cl: "close_wsol sdk intent legs = Inr cl"
    and ixs: "plan_instructions p =
        compute_budget_instructions sdk price (pm_compute_units market)
        @ ensure_instructions sdk legs (intent_owner intent) (intent_owner intent)
            (intent_input_mint intent) (intent_output_mint intent)
        @ w @ f @ [sw] @ out @ cl"
    by (auto simp: build_plan_def rbind_Inr_iff Let_def)
  have F: "list_all2 ?R f (if fee_leg (dq_fee q) = InputSide then fee_steps InputLeg (dq_fee q) else [])"
    using f fee_transfer_realises [of sdk "dq_fee q" legs InputLeg intent f]
    by (auto split: if_splits)
  have head: "list_all2 ?R
      (compute_budget_instructions sdk price (pm_compute_units market)
        @ ensure_instructions sdk legs (intent_owner intent) (intent_owner intent)
            (intent_input_mint intent) (intent_output_mint intent))
      [LimitUnits (compute_unit_limit (pm_compute_units market)), PriceUnits price,
       EnsureAccount InputLeg, EnsureAccount OutputLeg]"
    by (simp add: compute_budget_instructions_def ensure_instructions_def)
  have one: "list_all2 ?R [sw] [Trade (dq_swap_amount_in q) (dq_min_out q)]" using sw by simp
  show ?thesis
    unfolding ixs plan_steps_def append_assoc [symmetric]
    by (intro list_all2_appendI head one F wrap_input_realises [OF w] output_fee_realises [OF out]
        close_wsol_realises [OF cl])
qed

section \<open>The steps are solvent\<close>

text \<open>
  The amounts of a quote the engine accepts: an input-side fee and the pool's share add up to
  the requested amount, an output-side fee comes out of the guaranteed minimum.
\<close>

definition fee_balanced :: "direct_quote \<Rightarrow> bool" where
  "fee_balanced q \<longleftrightarrow>
     (case fee_leg (dq_fee q) of
        InputSide \<Rightarrow> unat (dq_swap_amount_in q) + unat (fee_units (dq_fee q)) = unat (dq_amount_in q)
          \<and> dq_min_net_out q = dq_min_out q
      | OutputSide \<Rightarrow> dq_swap_amount_in q = dq_amount_in q
          \<and> unat (dq_min_net_out q) + unat (fee_units (dq_fee q)) = unat (dq_min_out q)
      | NoSide \<Rightarrow> dq_swap_amount_in q = dq_amount_in q \<and> dq_min_net_out q = dq_min_out q
          \<and> fee_units (dq_fee q) = 0)
     \<and> (0 < fee_units (dq_fee q) \<longrightarrow> is_collectible (dq_fee q))"

lemma fee_steps_run:
  assumes "0 < fee_units fee \<longrightarrow> is_collectible fee" and "led_open s l"
  shows "run_steps ni no d (fee_steps l fee) s =
     map_option (\<lambda>b. s\<lparr>led_tokens := (led_tokens s)(l := b)\<rparr>)
       (pay (led_tokens s l) (unat (fee_units fee)))"
proof (cases "is_collectible fee")
  case False
  with assms(1) have "fee_units fee = 0" by (simp add: word_gt_0)
  with False show ?thesis by (simp add: fee_steps_def pay_def)
qed (simp add: fee_steps_def assms(2))

lemma wrap_steps_run:
  assumes "led_unsynced s l = 0" and "led_open s l"
  shows "run_steps ni no d (wrap_steps l n) s =
     map_option (\<lambda>b. s\<lparr>led_native := b, led_tokens := (led_tokens s)(l := led_tokens s l + unat n)\<rparr>)
       (pay (led_native s) (unat n))"
proof (cases "0 < n")
  case True
  have "(led_unsynced s)(l := 0) = led_unsynced s" using assms by (simp add: fun_upd_idem)
  with True assms show ?thesis by (simp add: wrap_steps_def pay_def)
next
  case False
  then have "n = 0" by (simp add: word_gt_0)
  then show ?thesis by (simp add: wrap_steps_def pay_def)
qed

text \<open>
  The venue settles a side in lamports only when it settles natively and the side is WSOL.
\<close>

abbreviation run_plan ::
  "sdk \<Rightarrow> bool \<Rightarrow> direct_swap_intent \<Rightarrow> nat \<Rightarrow> plan_step list \<Rightarrow> ledger \<Rightarrow> ledger option" where
  "run_plan sdk ns intent d \<equiv>
     run_steps (ns \<and> wraps_native sdk intent) (ns \<and> unwraps_native sdk intent) d"

lemma run_plan_steps:
  assumes bal: "fee_balanced q" and amount: "dq_amount_in q = intent_amount_in intent"
    and mints: "\<not> (wraps_native sdk intent \<and> unwraps_native sdk intent)"
    and native: "ns \<and> fee_leg (dq_fee q) = OutputSide \<longrightarrow> unwraps_native sdk intent"
    and native_in: "ns \<and> fee_leg (dq_fee q) = InputSide \<longrightarrow> wraps_native sdk intent"
    and funds: "unat (intent_amount_in intent) \<le>
        (if wraps_native sdk intent then led_native s else led_tokens s InputLeg)"
    and unsynced: "led_unsynced s InputLeg = 0" "led_unsynced s OutputLeg = 0"
    and delivered: "unat (dq_min_out q) \<le> d"
  shows "\<exists>s'. run_plan sdk ns intent d (plan_steps sdk price units ns intent q) s = Some s'
     \<and> holding (wraps_native sdk intent) InputLeg s'
         + unat (intent_amount_in intent) = holding (wraps_native sdk intent) InputLeg s
     \<and> holding (unwraps_native sdk intent) OutputLeg s'
         = holding (unwraps_native sdk intent) OutputLeg s + d
           - (if fee_leg (dq_fee q) = OutputSide then unat (fee_units (dq_fee q)) else 0)
     \<and> led_open s' = (\<lambda>l. \<not> (case l of InputLeg \<Rightarrow> wraps_native sdk intent | OutputLeg \<Rightarrow> unwraps_native sdk intent))
     \<and> (\<forall>l. \<not> led_open s' l \<longrightarrow> led_tokens s' l = 0 \<and> led_unsynced s' l = 0)
     \<and> led_limit s' = Some (compute_unit_limit units) \<and> led_price s' = Some price"
proof -
  have coll: "0 < fee_units (dq_fee q) \<longrightarrow> is_collectible (dq_fee q)"
    using bal by (simp add: fee_balanced_def)
  note run = run_steps_append fee_steps_run [OF coll] wrap_steps_run
  define a w f m where n: "a = unat (intent_amount_in intent)" "w = unat (dq_swap_amount_in q)"
    "f = unat (fee_units (dq_fee q))" "m = unat (dq_min_out q)"
  have all_legs: "(\<forall>l. P l) \<longleftrightarrow> P InputLeg \<and> P OutputLeg" for P :: "leg \<Rightarrow> bool" by (metis leg.exhaust)
  note plan = plan_steps_def run n [symmetric] fun_eq_iff all_legs
  have m: "m \<le> d" using delivered by (simp add: n)
  have funds': "a \<le> (if wraps_native sdk intent then led_native s else led_tokens s InputLeg)"
    using funds by (simp add: n)
  show ?thesis
  proof (cases "fee_leg (dq_fee q)")
    case InputSide
    then have "a = w + f" using bal amount by (simp add: fee_balanced_def n)
    with InputSide mints native_in funds' unsynced m show ?thesis
      by (cases "wraps_native sdk intent"; cases "unwraps_native sdk intent"; cases ns)
        (simp_all add: plan pay_ok holding_def not_less)
  next
    case OutputSide
    then have "a = w" and "f \<le> m" using bal amount by (auto simp: fee_balanced_def n)
    with OutputSide mints native funds' unsynced m show ?thesis
      by (cases "wraps_native sdk intent"; cases "unwraps_native sdk intent"; cases ns)
        (simp_all add: plan pay_ok holding_def not_less)
  next
    case NoSide
    then have "a = w" and "f = 0" using bal amount by (auto simp: fee_balanced_def n)
    with NoSide mints funds' unsynced m show ?thesis
      by (cases "wraps_native sdk intent"; cases "unwraps_native sdk intent"; cases ns)
        (simp_all add: plan pay_ok holding_def not_less)
  qed
qed

text \<open>Every quote the engine accepts is balanced.\<close>

lemma quote_with_market_balanced:
  assumes "quote_with_market sdk intent market = Inr q"
  shows "fee_balanced q"
proof -
  note facts = quote_with_market_Inr [OF assms]
  have nz: "intent_amount_in intent \<noteq> 0" using facts(1) by (simp add: res_simps)
  have "unat (platform_fee_amount (intent_amount_in intent)) \<le> unat (intent_amount_in intent)"
    using platform_fee_amount_lt [OF nz] by (simp add: word_less_nat_alt)
  moreover have "unat (platform_fee_amount (dq_min_out q)) \<le> unat (dq_min_out q)"
    by (simp add: unat_platform_fee_amount)
  ultimately show ?thesis
    using facts quote_fee_collectible [OF assms]
    by (cases "fee_leg (dq_fee q)")
      (simp_all add: fee_balanced_def pool_amount_def unat_sub_exact word_le_nat_alt word_unat_eq_iff)
qed

end
