(* ===== verification/Json.thy ===== *)
theory Json
  imports Sdk "HOL-Library.Char_ord"
begin

text \<open>
  The node's replies as the engine reads them: \<^verbatim>\<open>serde_json::Value\<close> with the accessors the
  code uses, the parsing of decimal amounts, and the transaction records of
  \<^verbatim>\<open>src/chains/solana/rpc/types.rs\<close>. An accessor applied to the wrong shape is \<open>None\<close>.
\<close>

datatype json = JNull | JBool bool | JNumber string | JString string | JArray "json list"
  | JObject "(string \<times> json) list"

fun json_get :: "json \<Rightarrow> string \<Rightarrow> json option" where
  "json_get (JObject kvs) k = map_of kvs k"
| "json_get _ k = None"

fun as_array :: "json \<Rightarrow> json list option" where
  "as_array (JArray xs) = Some xs"
| "as_array _ = None"

fun as_str :: "json \<Rightarrow> string option" where
  "as_str (JString s) = Some s"
| "as_str _ = None"

definition json_get_str :: "json \<Rightarrow> string \<Rightarrow> string option" where
  "json_get_str v k = Option.bind (json_get v k) as_str"

definition json_get_array :: "json \<Rightarrow> string \<Rightarrow> json list option" where
  "json_get_array v k = Option.bind (json_get v k) as_array"

text \<open>\<^verbatim>\<open>str::parse\<close> for an unsigned integer: an optional plus sign, then digits, in range.\<close>

definition digit_value :: "char \<Rightarrow> nat option" where
  "digit_value c = (let n = of_char c in if 48 \<le> n \<and> n \<le> 57 then Some (n - 48) else None)"

fun parse_digits :: "nat \<Rightarrow> string \<Rightarrow> nat option" where
  "parse_digits acc [] = Some acc"
| "parse_digits acc (c # cs) =
     (case digit_value c of None \<Rightarrow> None | Some d \<Rightarrow> parse_digits (10 * acc + d) cs)"

definition parse_nat :: "string \<Rightarrow> nat option" where
  "parse_nat s = (let body = (if s \<noteq> [] \<and> hd s = CHR ''+'' then tl s else s)
     in if body = [] then None else parse_digits 0 body)"

definition parse_word :: "string \<Rightarrow> 'a::len word option" where
  "parse_word s = (case parse_nat s of
       Some n \<Rightarrow> if n < 2 ^ LENGTH('a) then Some (of_nat n) else None
     | None \<Rightarrow> None)"

section \<open>Transaction records\<close>

record token_balance =
  tb_account_index :: u32
  tb_mint :: string
  tb_owner :: "string option"
  tb_program_id :: "string option"
  tb_amount :: string

record transaction_meta =
  tm_err :: "json option"
  tm_pre_balances :: "u64 list"
  tm_post_balances :: "u64 list"
  tm_pre_token_balances :: "token_balance list option"
  tm_post_token_balances :: "token_balance list option"
  tm_fee :: u64
  tm_inner_instructions :: "json list option"

record transaction_details =
  td_slot :: u64
  td_message :: json
  td_meta :: "transaction_meta option"

record simulation_outcome =
  sim_err :: "json option"
  sim_logs :: "string list"
  sim_units_consumed :: "u64 option"
  sim_inner_instructions :: "json list"

definition succeeded :: "simulation_outcome \<Rightarrow> bool" where
  "succeeded outcome \<longleftrightarrow> sim_err outcome = None"

section \<open>Printing and parsing agree\<close>

lemma parse_digits_append:
  "parse_digits acc (xs @ ys) = Option.bind (parse_digits acc xs) (\<lambda>a. parse_digits a ys)"
  by (induction xs arbitrary: acc) (auto split: option.splits)

lemma digit_value_char: "d < 10 \<Longrightarrow> digit_value (char_of (48 + d)) = Some d"
  by (simp add: digit_value_def Let_def)

lemma show_nat_nonempty [simp]: "show_nat n \<noteq> []"
  by (subst show_nat.simps) simp

lemma parse_digits_show: "parse_digits 0 (show_nat n) = Some n"
proof (induction n rule: show_nat.induct)
  case (1 n)
  show ?case
  proof (cases "n < 10")
    case True
    then show ?thesis by (subst show_nat.simps) (simp add: digit_value_char)
  next
    case False
    then show ?thesis
      using 1 by (subst show_nat.simps) (simp add: parse_digits_append digit_value_char)
  qed
qed

lemma show_nat_head: "hd (show_nat n) \<noteq> CHR ''+''"
proof (induction n rule: show_nat.induct)
  case (1 n)
  have digit: "char_of (48 + d) \<noteq> CHR ''+''" if "d < 10" for d :: nat
  proof
    assume "char_of (48 + d) = CHR ''+''"
    then have "of_char (char_of (48 + d) :: char) = (43 :: nat)" by simp
    with that show False by simp
  qed
  show ?case
    by (subst show_nat.simps) (use 1 digit in \<open>auto simp: hd_append\<close>)
qed

lemma parse_word_show: "parse_word (show_word w) = Some w"
  using unat_lt [of w] by (simp add: parse_word_def parse_nat_def parse_digits_show show_nat_head)

end
