(* ===== verification/Sample_Sdk.thy ===== *)
theory Sample_Sdk
  imports Layout
begin

text \<open>
  One concrete SDK, on which the witnesses of the development are evaluated: keys are the
  bytes of their text, derived addresses concatenate what they are derived from, and the
  compute-budget instructions carry the documented encoding. Nothing is proved from it.
\<close>

definition text_key :: "string \<Rightarrow> pubkey" where
  "text_key s = Pubkey (map (\<lambda>c. of_nat (of_char c)) s)"

definition plain_ix :: "nat \<Rightarrow> pubkey list \<Rightarrow> bytes \<Rightarrow> instruction" where
  "plain_ix tag keys data = \<lparr>ix_program = Pubkey [of_nat tag],
     ix_accounts = map (\<lambda>k. meta_new k False) keys, ix_data = data\<rparr>"

definition sample_sdk :: sdk where
  "sample_sdk = \<lparr>
     from_str = text_key,
     show_pubkey = (\<lambda>k. map (\<lambda>b. char_of (unat b)) (key_bytes k)),
     find_program_address = (\<lambda>seeds p. Pubkey (concat seeds @ key_bytes p)),
     associated_token_address = (\<lambda>owner mint p. Pubkey (key_bytes owner @ 0 # key_bytes mint)),
     create_ata_idempotent = (\<lambda>payer owner mint p. plain_ix 1 [payer, owner, mint, p] []),
     system_transfer = (\<lambda>a b n. plain_ix 2 [a, b] (to_le_bytes_u64 n)),
     sync_native = (\<lambda>p a. Inr (plain_ix 3 [a] [17])),
     transfer_checked = (\<lambda>p s m d a signers n dec. Inr (plain_ix 4 [s, m, d, a] (12 # to_le_bytes_u64 n @ [dec]))),
     close_account = (\<lambda>p a d o' signers. Inr (plain_ix 5 [a, d, o'] [9])),
     set_compute_unit_limit = (\<lambda>n. plain_ix 6 [] (2 # le_bytes 4 (unat n))),
     set_compute_unit_price = (\<lambda>n. plain_ix 7 [] (3 # le_bytes 8 (unat n))),
     spl_token_id = Pubkey [6],
     spl_token_2022_id = Pubkey [22],
     transfer_fee_config = (\<lambda>_. None),
     transfer_hook = (\<lambda>_. False)\<rparr>"

lemma show_text_key [simp]: "show_pubkey sample_sdk (text_key s) = s"
proof -
  have "char_of (unat (of_nat (of_char c) :: u8)) = c" for c :: char
    by (simp add: unat_of_nat)
  then show ?thesis by (simp add: sample_sdk_def text_key_def comp_def)
qed

lemma text_key_inject [simp]: "text_key s = text_key t \<longleftrightarrow> s = t"
  by (metis show_text_key)

end
