(* ===== verification/Swap_Verify.thy ===== *)
theory Swap_Verify
  imports Swap_Plan Json Sample_Sdk
begin

text \<open>
  \<^verbatim>\<open>src/chains/solana/swaps/direct/verify.rs\<close>: what a confirmed swap delivered, read out of
  the node's reply. \<open>show_json\<close> is the rendering of a JSON value, used in messages only.
\<close>

record receipt =
  rc_received :: u64
  rc_exact :: bool
  rc_network_fee_lamports :: u64
  rc_slot :: u64

section \<open>Locating accounts\<close>

fun account_key_of_entry :: "json \<Rightarrow> string option" where
  "account_key_of_entry entry = (case as_str entry of
       Some s \<Rightarrow> Some s
     | None \<Rightarrow> json_get_str entry ''pubkey'')"

definition account_keys_from_message :: "json \<Rightarrow> string list" where
  "account_keys_from_message message = (case json_get_array message ''accountKeys'' of
       None \<Rightarrow> []
     | Some entries \<Rightarrow> List.map_filter account_key_of_entry entries)"

fun position_where :: "('a \<Rightarrow> bool) \<Rightarrow> 'a list \<Rightarrow> nat option" where
  "position_where p [] = None"
| "position_where p (x # xs) = (if p x then Some 0 else map_option Suc (position_where p xs))"

definition account_index_of :: "sdk \<Rightarrow> transaction_details \<Rightarrow> pubkey \<Rightarrow> nat option" where
  "account_index_of sdk details account =
     position_where (\<lambda>key. key = show_pubkey sdk account) (account_keys_from_message (td_message details))"

section \<open>A token output\<close>

text \<open>\<open>None\<close> when nothing matched or an amount could not be parsed; sums saturate.\<close>

fun sum_amounts :: "token_balance list \<Rightarrow> u128 \<Rightarrow> u128 option" where
  "sum_amounts [] tally = Some tally"
| "sum_amounts (b # bs) tally = (case parse_word (tb_amount b) of
       None \<Rightarrow> None
     | Some a \<Rightarrow> sum_amounts bs (saturating_add tally a))"

definition sum_balances ::
  "token_balance list option \<Rightarrow> (token_balance \<Rightarrow> bool) \<Rightarrow> u128 option" where
  "sum_balances balances keep = (case balances of
       None \<Rightarrow> None
     | Some bs \<Rightarrow> Option.bind (sum_amounts (filter keep bs) 0)
         (\<lambda>tally. if filter keep bs = [] then None else Some tally))"

definition unwrap_or :: "'a option \<Rightarrow> 'a \<Rightarrow> 'a" where
  "unwrap_or m d = (case m of None \<Rightarrow> d | Some x \<Rightarrow> x)"

definition token_delta ::
  "sdk \<Rightarrow> transaction_meta \<Rightarrow> transaction_details \<Rightarrow> pubkey \<Rightarrow> swap_plan \<Rightarrow> u64 option" where
  "token_delta sdk meta details owner plan =
     (let delta = (\<lambda>keep. Option.bind (sum_balances (tm_post_token_balances meta) keep) (\<lambda>post.
            let pre = unwrap_or (sum_balances (tm_pre_token_balances meta) keep) 0
            in Some (ucast (saturating_sub post pre) :: u64)));
          by_owner = (\<lambda>b. tb_mint b = show_pubkey sdk (dq_output_mint (plan_quote plan))
            \<and> tb_owner b = Some (show_pubkey sdk owner))
      in case Option.bind (account_index_of sdk details (plan_output_account plan))
                (\<lambda>index. delta (\<lambda>b. unat (tb_account_index b) = index)) of
           Some d \<Rightarrow> Some d
         | None \<Rightarrow> delta by_owner)"

section \<open>A native output\<close>

text \<open>The raw amount of the transfer into the output account, skipping what does not parse.\<close>

definition transfer_amount :: "string \<Rightarrow> json \<Rightarrow> u64 option" where
  "transfer_amount output_str ix =
     Option.bind (json_get ix ''parsed'') (\<lambda>parsed.
     let kind = unwrap_or (json_get_str parsed ''type'') [] in
     if kind \<noteq> ''transfer'' \<and> kind \<noteq> ''transferChecked'' then None
     else Option.bind (json_get parsed ''info'') (\<lambda>info.
       if json_get_str info ''destination'' \<noteq> Some output_str then None
       else Option.bind
         (if kind = ''transferChecked''
          then Option.bind (json_get info ''tokenAmount'') (\<lambda>v. json_get_str v ''amount'')
          else json_get_str info ''amount'')
         parse_word))"

fun find_map :: "('a \<Rightarrow> 'b option) \<Rightarrow> 'a list \<Rightarrow> 'b option" where
  "find_map f [] = None"
| "find_map f (x # xs) = (case f x of Some y \<Rightarrow> Some y | None \<Rightarrow> find_map f xs)"

definition swap_output_transfer_amount :: "sdk \<Rightarrow> transaction_meta \<Rightarrow> pubkey \<Rightarrow> u64 option" where
  "swap_output_transfer_amount sdk meta output_account =
     Option.bind (tm_inner_instructions meta) (\<lambda>groups.
       find_map (\<lambda>group. Option.bind (json_get_array group ''instructions'')
                   (find_map (transfer_amount (show_pubkey sdk output_account)))) groups)"

definition balance_at :: "u64 list \<Rightarrow> nat \<Rightarrow> u64" where
  "balance_at balances i = (if i < length balances then balances ! i else 0)"

definition native_receipt ::
  "sdk \<Rightarrow> string \<Rightarrow> pubkey \<Rightarrow> swap_plan \<Rightarrow> transaction_details \<Rightarrow> transaction_meta \<Rightarrow> receipt direct_result"
where
  "native_receipt sdk signature owner plan details meta =
     (let received = map_option (\<lambda>gross. saturating_sub gross (fee_units (dq_fee (plan_quote plan))))
            (swap_output_transfer_amount sdk meta (plan_output_account plan));
          fallback = rbind (ok_or (account_index_of sdk details owner)
              (TransactionFailed signature
                 ''the owner account could not be located in the transaction's own account keys, so the native-SOL lamport delta cannot be attributed''))
            (\<lambda>owner_index.
               let pre = balance_at (tm_pre_balances meta) owner_index;
                   post = balance_at (tm_post_balances meta) owner_index
               in Inr \<lparr>rc_received = saturating_add (saturating_sub post pre) (tm_fee meta),
                       rc_exact = False, rc_network_fee_lamports = tm_fee meta,
                       rc_slot = td_slot details\<rparr>)
      in case received of
           Some r \<Rightarrow> if dq_min_net_out (plan_quote plan) \<le> r
             then Inr \<lparr>rc_received = r, rc_exact = True, rc_network_fee_lamports = tm_fee meta,
                       rc_slot = td_slot details\<rparr>
             else fallback
         | None \<Rightarrow> fallback)"

section \<open>The receipt\<close>

definition receipt_from_transaction ::
  "sdk \<Rightarrow> (json \<Rightarrow> string) \<Rightarrow> string \<Rightarrow> pubkey \<Rightarrow> swap_plan \<Rightarrow> transaction_details
     \<Rightarrow> receipt direct_result" where
  "receipt_from_transaction sdk show_json signature owner plan details =
     (let floor = dq_min_net_out (plan_quote plan) in
      case td_meta details of
        None \<Rightarrow> Inr \<lparr>rc_received = floor, rc_exact = False, rc_network_fee_lamports = 0,
                     rc_slot = td_slot details\<rparr>
      | Some meta \<Rightarrow> (case tm_err meta of
          Some err \<Rightarrow> Inl (TransactionFailed signature (show_json err))
        | None \<Rightarrow>
            if plan_output_is_native plan then native_receipt sdk signature owner plan details meta
            else (case token_delta sdk meta details owner plan of
                None \<Rightarrow> Inr \<lparr>rc_received = floor, rc_exact = False,
                             rc_network_fee_lamports = tm_fee meta, rc_slot = td_slot details\<rparr>
              | Some received \<Rightarrow>
                  if received < floor then Inl (OutputNotReceived signature floor received)
                  else Inr \<lparr>rc_received = received, rc_exact = True,
                            rc_network_fee_lamports = tm_fee meta, rc_slot = td_slot details\<rparr>)))"

section \<open>Lemmas\<close>

lemma position_where_Some: "position_where p xs = Some i \<Longrightarrow> i < length xs \<and> p (xs ! i) \<and> (\<forall>j<i. \<not> p (xs ! j))"
proof (induction xs arbitrary: i)
  case (Cons x xs)
  show ?case
  proof (cases "p x")
    case True
    with Cons.prems show ?thesis by simp
  next
    case False
    then obtain k where k: "position_where p xs = Some k" "i = Suc k" using Cons.prems by auto
    have "\<not> p ((x # xs) ! j)" if "j < i" for j
      using that Cons.IH [OF k(1)] k(2) False by (cases j) auto
    then show ?thesis using Cons.IH [OF k(1)] k(2) by simp
  qed
qed simp

lemma position_where_None: "position_where p xs = None \<longleftrightarrow> (\<forall>x\<in>set xs. \<not> p x)"
  by (induction xs) auto

lemma find_map_Some: "find_map f xs = Some y \<Longrightarrow> \<exists>x\<in>set xs. f x = Some y"
  by (induction xs) (auto split: option.splits)

text \<open>The error verdicts of a receipt, and what an exact reading guarantees.\<close>

lemma receipt_error_cases:
  assumes "receipt_from_transaction sdk sj signature owner plan details = Inl e"
  shows "error_signature e = Some signature \<and> submitted e
     \<and> ((\<exists>meta err. td_meta details = Some meta \<and> tm_err meta = Some err)
        \<or> (plan_output_is_native plan \<and> account_index_of sdk details owner = None)
        \<or> (\<exists>received. e = OutputNotReceived signature (dq_min_net_out (plan_quote plan)) received
              \<and> received < dq_min_net_out (plan_quote plan)))"
  using assms
  by (auto simp: receipt_from_transaction_def native_receipt_def Let_def res_simps
      split: option.splits if_splits)

lemma receipt_exact_floor:
  assumes "receipt_from_transaction sdk sj signature owner plan details = Inr r" and "rc_exact r"
  shows "dq_min_net_out (plan_quote plan) \<le> rc_received r"
  using assms
  by (auto simp: receipt_from_transaction_def native_receipt_def Let_def res_simps
      split: option.splits if_splits)

text \<open>A balance list with one entry for an account reads that entry's amount.\<close>

lemma sum_balances_one:
  assumes "filter keep bs = [b]" and "tb_amount b = show_word (w :: u128)"
  shows "sum_balances (Some bs) keep = Some w"
  using assms unat_lt [of w]
  by (simp add: sum_balances_def parse_word_show saturating_add_def)

lemma unat_ucast_u64_back: "unat (w :: u128) < 2 ^ 64 \<Longrightarrow> unat (ucast w :: u64) = unat w"
  by (simp add: unat_narrow)

section \<open>A concrete reply\<close>

definition sample_receipt_plan :: "bool \<Rightarrow> u64 \<Rightarrow> swap_plan" where
  "sample_receipt_plan native least = \<lparr>plan_instructions = [], plan_venue_compute_units = 0,
     plan_input_account = text_key ''in'', plan_output_account = text_key ''out'',
     plan_output_is_native = native,
     plan_quote = \<lparr>dq_pool = Pubkey [3], dq_program = RaydiumCpmm, dq_input_mint = Pubkey [1],
       dq_output_mint = Pubkey [2], dq_amount_in = 1000, dq_swap_amount_in = 1000, dq_expected_out = 500,
       dq_min_out = least, dq_expected_net_out = 500, dq_min_net_out = least, dq_fee = no_fee,
       dq_lp_fee = 0, dq_price_impact_pct = Finite 0, dq_slippage_bps = 0\<rparr>\<rparr>"

definition sample_balance :: "u32 \<Rightarrow> string \<Rightarrow> token_balance" where
  "sample_balance i amount = \<lparr>tb_account_index = i, tb_mint = ''mint'', tb_owner = None,
     tb_program_id = None, tb_amount = amount\<rparr>"

definition sample_meta :: transaction_meta where
  "sample_meta = \<lparr>tm_err = None, tm_pre_balances = [], tm_post_balances = [],
     tm_pre_token_balances = Some [sample_balance 0 (show_nat 7), sample_balance 1 (show_nat 100)],
     tm_post_token_balances = Some [sample_balance 1 (show_nat 650), sample_balance 2 (show_nat 9)],
     tm_fee = 5000, tm_inner_instructions = None\<rparr>"

definition sample_details :: transaction_details where
  "sample_details = \<lparr>td_slot = 12, td_message = JObject [(''accountKeys'',
       JArray [JString ''owner'', JObject [(''pubkey'', JString ''out'')]])],
     td_meta = Some sample_meta\<rparr>"

lemma sample_index: "account_index_of sample_sdk sample_details (text_key ''out'') = Some 1"
  by (simp add: account_index_of_def sample_details_def account_keys_from_message_def
      json_get_array_def json_get_str_def List.map_filter_def)

section \<open>Properties\<close>

text \<open>C35: what a receipt may claim. A receipt marked exact never reports less than the guaranteed
  minimum; when the output is a token and no measurement could be grounded, the receipt is the
  guaranteed minimum itself and marked inexact; and a refusal names the confirmed signature.\<close>

theorem receipt_claims:
  assumes "receipt_from_transaction sdk show_json signature owner plan details = r"
  shows "case r of
      Inr rc \<Rightarrow> (rc_exact rc \<longrightarrow> dq_min_net_out (plan_quote plan) \<le> rc_received rc)
        \<and> (\<not> rc_exact rc \<and> \<not> plan_output_is_native plan
             \<longrightarrow> rc_received rc = dq_min_net_out (plan_quote plan))
    | Inl e \<Rightarrow> error_signature e = Some signature \<and> submitted e"
proof (cases r)
  case (Inl e)
  with assms receipt_error_cases show ?thesis by fastforce
next
  case (Inr rc)
  have "rc_received rc = dq_min_net_out (plan_quote plan)"
    if "\<not> rc_exact rc" "\<not> plan_output_is_native plan"
    using assms Inr that
    by (auto simp: receipt_from_transaction_def Let_def split: option.splits if_splits)
  with Inr assms receipt_exact_floor show ?thesis by auto
qed

theorem receipt_claims_witness:
  "receipt_from_transaction sample_sdk (\<lambda>_. []) ''sig'' (text_key ''owner'')
       (sample_receipt_plan False 490) (sample_details\<lparr>td_meta := None\<rparr>)
     = Inr \<lparr>rc_received = 490, rc_exact = False, rc_network_fee_lamports = 0, rc_slot = 12\<rparr>"
  using receipt_claims [of sample_sdk "\<lambda>_. []" "''sig''" "text_key ''owner''"
      "sample_receipt_plan False 490" "sample_details\<lparr>td_meta := None\<rparr>", OF refl]
  by (simp add: receipt_from_transaction_def sample_details_def sample_receipt_plan_def)

text \<open>A token output is measured to the raw unit. When the output account stands in the
  transaction's account list and the node lists one balance for it before and one after, whatever
  other balances it lists, the receipt is exact and equals the difference.\<close>

theorem token_receipt_exact:
  assumes "td_meta details = Some meta" and "tm_err meta = None" and "\<not> plan_output_is_native plan"
    and "account_index_of sdk details (plan_output_account plan) = Some i"
    and "tm_pre_token_balances meta = Some pre_list" and "tm_post_token_balances meta = Some post_list"
    and "filter (\<lambda>b. unat (tb_account_index b) = i) pre_list = [b]" and "tb_amount b = show_nat pre"
    and "filter (\<lambda>b. unat (tb_account_index b) = i) post_list = [c]" and "tb_amount c = show_nat post"
    and "pre \<le> post" and "post < 2 ^ 64" and "unat (dq_min_net_out (plan_quote plan)) \<le> post - pre"
  shows "receipt_from_transaction sdk show_json signature owner plan details
     = Inr \<lparr>rc_received = of_nat (post - pre), rc_exact = True,
            rc_network_fee_lamports = tm_fee meta, rc_slot = td_slot details\<rparr>"
proof -
  have w: "show_word (of_nat n :: u128) = show_nat n" if "n \<le> post" for n
    using that assms(12) by (simp add: unat_of_nat)
  have sums: "sum_balances (tm_pre_token_balances meta) (\<lambda>b. unat (tb_account_index b) = i) = Some (of_nat pre)"
    "sum_balances (tm_post_token_balances meta) (\<lambda>b. unat (tb_account_index b) = i) = Some (of_nat post)"
    unfolding assms(5,6) using assms(7-11) w by (auto intro!: sum_balances_one)
  have "unat (saturating_sub (of_nat post :: u128) (of_nat pre)) = post - pre"
    using assms(11,12) by (simp add: unat_of_nat)
  then have "ucast (saturating_sub (of_nat post :: u128) (of_nat pre)) = (of_nat (post - pre) :: u64)"
    using assms(12) by (simp add: word_unat_eq_iff unat_narrow unat_of_nat)
  then have delta: "token_delta sdk meta details owner plan = Some (of_nat (post - pre))"
    using sums by (simp add: token_delta_def assms(4) unwrap_or_def)
  have "\<not> (of_nat (post - pre) :: u64) < dq_min_net_out (plan_quote plan)"
    using assms(12,13) by (simp add: word_less_nat_alt unat_of_nat)
  then show ?thesis using assms(1-3) delta by (simp add: receipt_from_transaction_def)
qed

theorem token_receipt_exact_witness:
  "receipt_from_transaction sample_sdk (\<lambda>_. []) ''sig'' (text_key ''owner'')
       (sample_receipt_plan False 490) sample_details
     = Inr \<lparr>rc_received = 550, rc_exact = True, rc_network_fee_lamports = 5000, rc_slot = 12\<rparr>"
  using token_receipt_exact [of sample_details sample_meta "sample_receipt_plan False 490" sample_sdk 1
      "[sample_balance 0 (show_nat 7), sample_balance 1 (show_nat 100)]"
      "[sample_balance 1 (show_nat 650), sample_balance 2 (show_nat 9)]"
      "sample_balance 1 (show_nat 100)" 100 "sample_balance 1 (show_nat 650)" 650
      "\<lambda>_. []" "''sig''" "text_key ''owner''"]
    sample_index
  by (simp add: sample_details_def sample_meta_def sample_receipt_plan_def sample_balance_def)

text \<open>A confirmed sale can be reported as failed on chain. When the reply carries no error but the
  owner cannot be located in its account list and no inner transfer is recognised, the receipt is the
  error of a transaction that failed, which carries no signature to reconcile and offers a retry.\<close>

theorem confirmed_sale_reported_failed:
  "\<exists>e. receipt_from_transaction sample_sdk (\<lambda>_. []) ''sig'' (text_key ''stranger'')
       (sample_receipt_plan True 490) sample_details = Inl e
     \<and> tm_err sample_meta = None \<and> safe_to_fallback e \<and> settled_signature e = None"
  by (simp add: receipt_from_transaction_def native_receipt_def sample_details_def sample_meta_def
      sample_receipt_plan_def swap_output_transfer_amount_def account_index_of_def
      account_keys_from_message_def json_get_array_def json_get_str_def List.map_filter_def Let_def)

end
