(* ===== verification/Swap_Execute.thy ===== *)
theory Swap_Execute
  imports Swap_Verify Sample_Sdk
begin

text \<open>
  \<^verbatim>\<open>src/chains/solana/swaps/direct/execute.rs\<close>: the balance preflight, the settle loop and
  the pipeline from plan to receipt. The node and the clock are inputs: every call of the code
  reads its reply from an observation, so a run is a function of the observations, and the
  loop is recursion over them. Times are milliseconds.
\<close>

section \<open>Balance preflight\<close>

definition NETWORK_FEE_HEADROOM_PCT :: u64 where "NETWORK_FEE_HEADROOM_PCT = 20"

definition network_fee_cushion_lamports :: "u64 \<Rightarrow> swap_plan \<Rightarrow> u64" where
  "network_fee_cushion_lamports config_price plan =
     saturating_mul (network_fee_lamports config_price (plan_instructions plan))
       (100 + NETWORK_FEE_HEADROOM_PCT) div 100"

definition entry :: "'a list \<Rightarrow> nat \<Rightarrow> 'a option" where
  "entry xs i = (if i < length xs then Some (xs ! i) else None)"

definition preflight_balance ::
  "sdk \<Rightarrow> u64 \<Rightarrow> string + account option list \<Rightarrow> string + u64 \<Rightarrow> swap_plan \<Rightarrow> pubkey
     \<Rightarrow> unit direct_result" where
  "preflight_balance sdk config_price reply rent plan owner =
     rbind (map_err (\<lambda>e. AccountUnavailable owner
              (''could not read wallet balances for preflight: '' @ e)) reply) (\<lambda>accounts.
     rbind (ok_or (entry accounts 0) (AccountUnavailable owner
              ''getMultipleAccounts returned no entry for the preflight balance batch'')) (\<lambda>own.
     let owner_lamports = (case own of None \<Rightarrow> 0 | Some a \<Rightarrow> acc_lamports a) in
     rbind (ok_or (entry accounts 1) (AccountUnavailable (plan_input_account plan)
              ''getMultipleAccounts returned no input token-account entry'')) (\<lambda>input_account.
     rbind (ok_or (entry accounts 2) (AccountUnavailable (plan_output_account plan)
              ''getMultipleAccounts returned no output token-account entry'')) (\<lambda>output.
     let missing_accounts = (if input_account = None then 1 else 0) + (if output = None then 1 else 0) in
     rbind (if missing_accounts = 0 then Inr 0
            else rbind (map_err (\<lambda>e. NodeUnavailable ''getMinimumBalanceForRentExemption''
                    (''could not read the ATA rent-exempt minimum: '' @ e)) rent)
                  (\<lambda>r. Inr (saturating_mul r missing_accounts))) (\<lambda>rent_cushion.
     let network_cushion = network_fee_cushion_lamports config_price plan in
     if is_wsol sdk (dq_input_mint (plan_quote plan)) then
       let required = saturating_add (saturating_add (dq_amount_in (plan_quote plan)) rent_cushion)
                        network_cushion
       in if owner_lamports < required
          then Inl (InsufficientBalance (dq_input_mint (plan_quote plan)) required owner_lamports)
          else Inr ()
     else
       rbind (case input_account of None \<Rightarrow> Inr 0
              | Some acc \<Rightarrow> ok_or (token_account_amount (acc_data acc))
                  (AccountUnavailable (plan_input_account plan) ''source token-account data is malformed''))
         (\<lambda>token_balance.
       if token_balance < dq_amount_in (plan_quote plan)
       then Inl (InsufficientBalance (dq_input_mint (plan_quote plan))
                   (dq_amount_in (plan_quote plan)) token_balance)
       else let required_lamports = saturating_add rent_cushion network_cushion
            in if owner_lamports < required_lamports
               then Inl (InsufficientBalance (wsol_mint sdk) required_lamports owner_lamports)
               else Inr ()))))))"

section \<open>Reading a signature's status\<close>

datatype confirmation_level = Processed | Confirmed | Finalized

text \<open>\<open>st_level\<close> is what the SDK's \<^verbatim>\<open>confirmation_status()\<close> returns.\<close>

record tx_status =
  st_err :: "string option"
  st_level :: confirmation_level

definition status_outcome :: "tx_status \<Rightarrow> string \<Rightarrow> unit direct_result option" where
  "status_outcome status sig = (case st_err status of
       Some err \<Rightarrow> Some (Inl (TransactionFailed sig err))
     | None \<Rightarrow> (case st_level status of
           Confirmed \<Rightarrow> Some (Inr ())
         | Finalized \<Rightarrow> Some (Inr ())
         | Processed \<Rightarrow> None))"

definition blockhash_has_expired :: "u64 \<Rightarrow> u64 \<Rightarrow> bool" where
  "blockhash_has_expired current_block_height last_valid_block_height \<longleftrightarrow>
     last_valid_block_height < current_block_height"

datatype poll = Settled "unit direct_result" | Pending | Unreadable

type_synonym status_reply = "string + tx_status option list"

definition poll_status_once :: "status_reply \<Rightarrow> string \<Rightarrow> poll" where
  "poll_status_once reply sig = (case reply of
       Inl e \<Rightarrow> Unreadable
     | Inr statuses \<Rightarrow>
         (case Option.bind (Option.bind (entry statuses 0) id) (\<lambda>s. status_outcome s sig) of
            Some outcome \<Rightarrow> Settled outcome
          | None \<Rightarrow> Pending))"

section \<open>The settle loop\<close>

definition REBROADCAST_INTERVAL :: nat where "REBROADCAST_INTERVAL = 2000"
definition BLOCK_HEIGHT_CHECK_INTERVAL :: nat where "BLOCK_HEIGHT_CHECK_INTERVAL = 4000"
definition POST_EXPIRY_STATUS_ATTEMPTS :: nat where "POST_EXPIRY_STATUS_ATTEMPTS = 2"

text \<open>
  One pass of the loop sees the reply to its status read, the clock at each of the places that
  read it, the block height when it asks, and the replies after an expiry.
\<close>

record observation =
  ob_status :: status_reply
  ob_deadline_clock :: nat
  ob_rebroadcast_clock :: nat
  ob_rebroadcast_reset :: nat
  ob_height_clock :: nat
  ob_height_reset :: nat
  ob_height :: "string + u64"
  ob_post_expiry :: "nat \<Rightarrow> status_reply"

record settle_state =
  last_rebroadcast :: nat
  last_height_check :: nat
  rebroadcasts :: nat

datatype settle_control = Return "unit direct_result" | Again

text \<open>The reads after an expiry: the first terminal one decides, else whether any was answered.\<close>

fun post_expiry :: "(nat \<Rightarrow> status_reply) \<Rightarrow> string \<Rightarrow> nat list \<Rightarrow> bool \<Rightarrow> unit direct_result + bool" where
  "post_expiry replies sig [] confirmed_absent = Inr confirmed_absent"
| "post_expiry replies sig (k # ks) confirmed_absent =
     (case poll_status_once (replies k) sig of
        Settled outcome \<Rightarrow> Inl outcome
      | Pending \<Rightarrow> post_expiry replies sig ks True
      | Unreadable \<Rightarrow> post_expiry replies sig ks confirmed_absent)"

definition settle_pass ::
  "string \<Rightarrow> u64 \<Rightarrow> nat \<Rightarrow> nat \<Rightarrow> observation \<Rightarrow> settle_state \<Rightarrow> settle_control \<times> settle_state" where
  "settle_pass sig last_valid timeout deadline ob s =
     (case poll_status_once (ob_status ob) sig of
        Settled outcome \<Rightarrow> (Return outcome, s)
      | _ \<Rightarrow>
        if deadline \<le> ob_deadline_clock ob
        then (Return (Inl (ConfirmationTimeout sig (of_nat timeout))), s)
        else
          let s = (if REBROADCAST_INTERVAL \<le> ob_rebroadcast_clock ob - last_rebroadcast s
                   then s\<lparr>last_rebroadcast := ob_rebroadcast_reset ob,
                          rebroadcasts := Suc (rebroadcasts s)\<rparr>
                   else s)
          in if BLOCK_HEIGHT_CHECK_INTERVAL \<le> ob_height_clock ob - last_height_check s
          then
            let s = s\<lparr>last_height_check := ob_height_reset ob\<rparr> in
            (case ob_height ob of
               Inl e \<Rightarrow> (Again, s)
             | Inr height \<Rightarrow>
                 if blockhash_has_expired height last_valid
                 then (case post_expiry (ob_post_expiry ob) sig [0..<POST_EXPIRY_STATUS_ATTEMPTS] False of
                     Inl outcome \<Rightarrow> (Return outcome, s)
                   | Inr confirmed_absent \<Rightarrow>
                       if \<not> confirmed_absent then (Again, s)
                       else (Return (Inl (BlockhashExpired sig last_valid height)), s))
                 else (Again, s))
          else (Again, s))"

text \<open>\<open>None\<close>: the observations ended while the loop was still polling.\<close>

fun settle_loop ::
  "string \<Rightarrow> u64 \<Rightarrow> nat \<Rightarrow> nat \<Rightarrow> observation list \<Rightarrow> settle_state
     \<Rightarrow> unit direct_result option \<times> settle_state" where
  "settle_loop sig last_valid timeout deadline [] s = (None, s)"
| "settle_loop sig last_valid timeout deadline (ob # obs) s =
     (case settle_pass sig last_valid timeout deadline ob s of
        (Return outcome, s') \<Rightarrow> (Some outcome, s')
      | (Again, s') \<Rightarrow> settle_loop sig last_valid timeout deadline obs s')"

definition settle ::
  "string \<Rightarrow> u64 \<Rightarrow> nat \<Rightarrow> nat \<Rightarrow> nat \<Rightarrow> nat \<Rightarrow> observation list
     \<Rightarrow> unit direct_result option \<times> settle_state" where
  "settle sig last_valid timeout start start_rebroadcast start_height obs =
     settle_loop sig last_valid timeout (start + timeout) obs
       \<lparr>last_rebroadcast = start_rebroadcast, last_height_check = start_height, rebroadcasts = 0\<rparr>"

section \<open>Reading the receipt back\<close>

definition RECEIPT_READ_ATTEMPTS :: nat where "RECEIPT_READ_ATTEMPTS = 6"

fun read_receipt_from ::
  "sdk \<Rightarrow> (json \<Rightarrow> string) \<Rightarrow> string \<Rightarrow> pubkey \<Rightarrow> swap_plan \<Rightarrow> (string + transaction_details) list
     \<Rightarrow> receipt direct_result" where
  "read_receipt_from sdk sj sig owner plan [] =
     Inr \<lparr>rc_received = dq_min_net_out (plan_quote plan), rc_exact = False,
          rc_network_fee_lamports = 0, rc_slot = 0\<rparr>"
| "read_receipt_from sdk sj sig owner plan (reply # replies) = (case reply of
       Inr details \<Rightarrow> receipt_from_transaction sdk sj sig owner plan details
     | Inl e \<Rightarrow> read_receipt_from sdk sj sig owner plan replies)"

definition read_receipt ::
  "sdk \<Rightarrow> (json \<Rightarrow> string) \<Rightarrow> (nat \<Rightarrow> string + transaction_details) \<Rightarrow> string \<Rightarrow> pubkey
     \<Rightarrow> swap_plan \<Rightarrow> receipt direct_result" where
  "read_receipt sdk sj replies sig owner plan =
     read_receipt_from sdk sj sig owner plan (map replies [0..<RECEIPT_READ_ATTEMPTS])"

section \<open>Executing a plan\<close>

record swap_outcome =
  so_signature :: string
  so_amount_in :: u64
  so_receipt :: receipt
  so_platform_fee :: u64
  so_platform_fee_mint :: "pubkey option"

definition platform_fee_lamports :: "sdk \<Rightarrow> swap_outcome \<Rightarrow> u64" where
  "platform_fee_lamports sdk outcome = (case so_platform_fee_mint outcome of
       Some mint \<Rightarrow> if is_wsol sdk mint then so_platform_fee outcome else 0
     | None \<Rightarrow> 0)"

text \<open>A signed transaction is the instructions it carries and the blockhash it was signed for.\<close>

record node =
  nd_accounts :: "string + account option list"
  nd_rent :: "string + u64"
  nd_blockhash :: "string + (pubkey \<times> u64)"
  nd_simulate :: "instruction list \<times> pubkey \<Rightarrow> string + simulation_outcome"
  nd_send :: "instruction list \<times> pubkey \<Rightarrow> string + string"
  nd_timeout :: nat
  nd_start :: nat
  nd_start_rebroadcast :: nat
  nd_start_height :: nat
  nd_observations :: "observation list"
  nd_details :: "nat \<Rightarrow> string + transaction_details"

definition failure_detail :: "(json \<Rightarrow> string) \<Rightarrow> simulation_outcome \<Rightarrow> string" where
  "failure_detail sj outcome = (case sim_err outcome of Some err \<Rightarrow> sj err | None \<Rightarrow> [])"

text \<open>The limit only ever tightens to what simulation measured.\<close>

definition tighten_limit :: "sdk \<Rightarrow> u64 option \<Rightarrow> instruction list \<Rightarrow> instruction list" where
  "tighten_limit sdk units_consumed instructions = (case units_consumed of
       None \<Rightarrow> instructions
     | Some units \<Rightarrow>
         let measured_limit = compute_unit_limit_from_measured units
         in (case requested_compute_unit_limit instructions of
               None \<Rightarrow> instructions
             | Some requested_limit \<Rightarrow>
                 if measured_limit < requested_limit
                 then instructions[0 := set_compute_unit_limit sdk measured_limit]
                 else instructions))"

text \<open>
  The result is what the caller sees, \<open>None\<close> while the settle loop has not ended, and every
  transaction handed to a node, in order; a rebroadcast hands over the same one again.
\<close>

type_synonym 'a run = "'a direct_result option \<times> (instruction list \<times> pubkey) list"

definition execute_plan ::
  "sdk \<Rightarrow> (json \<Rightarrow> string) \<Rightarrow> u64 \<Rightarrow> node \<Rightarrow> swap_plan \<Rightarrow> pubkey \<Rightarrow> swap_outcome run" where
  "execute_plan sdk sj config_price nd plan owner =
     (case preflight_balance sdk config_price (nd_accounts nd) (nd_rent nd) plan owner of
        Inl e \<Rightarrow> (Some (Inl e), [])
      | Inr _ \<Rightarrow>
     (case nd_blockhash nd of
        Inl e \<Rightarrow> (Some (Inl (NodeUnavailable ''getLatestBlockhash'' (''no recent blockhash: '' @ e))), [])
      | Inr (blockhash, last_valid) \<Rightarrow>
     (case nd_simulate nd (plan_instructions plan, blockhash) of
        Inl e \<Rightarrow> (Some (Inl (SimulationUnavailable (''simulation could not be run: '' @ e))), [])
      | Inr outcome \<Rightarrow>
     if \<not> succeeded outcome
     then (Some (Inl (SimulationRejected (failure_detail sj outcome) (sim_logs outcome))), [])
     else let tx = (tighten_limit sdk (sim_units_consumed outcome) (plan_instructions plan), blockhash) in
     (case nd_send nd tx of
        Inl e \<Rightarrow> (Some (Inl (SubmitFailed e)), [tx])
      | Inr sig \<Rightarrow>
     (case settle sig last_valid (nd_timeout nd) (nd_start nd) (nd_start_rebroadcast nd)
             (nd_start_height nd) (nd_observations nd) of
        (None, s) \<Rightarrow> (None, tx # replicate (rebroadcasts s) tx)
      | (Some (Inl e), s) \<Rightarrow> (Some (Inl e), tx # replicate (rebroadcasts s) tx)
      | (Some (Inr _), s) \<Rightarrow>
          (Some (rbind (read_receipt sdk sj (nd_details nd) sig owner plan) (\<lambda>receipt.
             Inr \<lparr>so_signature = sig, so_amount_in = dq_amount_in (plan_quote plan),
                  so_receipt = receipt, so_platform_fee = fee_units (dq_fee (plan_quote plan)),
                  so_platform_fee_mint = fee_mint (dq_fee (plan_quote plan))\<rparr>)),
           tx # replicate (rebroadcasts s) tx))))))"

section \<open>What the settle loop concludes\<close>

text \<open>The status a reply carries, and the replies one pass can look at.\<close>

definition seen_status :: "status_reply \<Rightarrow> tx_status option" where
  "seen_status reply = (case reply of Inl _ \<Rightarrow> None | Inr ss \<Rightarrow> Option.bind (entry ss 0) id)"

definition pass_replies :: "observation \<Rightarrow> status_reply list" where
  "pass_replies ob = [ob_status ob, ob_post_expiry ob 0, ob_post_expiry ob 1]"

definition landed :: "tx_status \<Rightarrow> bool" where
  "landed st \<longleftrightarrow> st_err st = None \<and> st_level st \<noteq> Processed"

definition terminal :: "tx_status \<Rightarrow> bool" where
  "terminal st \<longleftrightarrow> st_err st \<noteq> None \<or> st_level st \<noteq> Processed"

lemma status_outcome_None: "status_outcome st sig = None \<longleftrightarrow> \<not> terminal st"
  by (auto simp: status_outcome_def terminal_def split: option.splits confirmation_level.splits)

lemma status_outcome_Some: "status_outcome st sig = Some r \<Longrightarrow> terminal st"
  using status_outcome_None [of st sig] by auto

lemma status_outcome_Ok: "status_outcome st sig = Some (Inr u) \<longleftrightarrow> landed st"
  by (auto simp: status_outcome_def landed_def split: option.splits confirmation_level.splits)

lemma status_outcome_Err:
  "status_outcome st sig = Some (Inl e) \<longleftrightarrow> (\<exists>err. st_err st = Some err \<and> e = TransactionFailed sig err)"
  by (auto simp: status_outcome_def split: option.splits confirmation_level.splits)

lemma poll_Settled:
  "poll_status_once reply sig = Settled r \<longleftrightarrow>
     (\<exists>st. seen_status reply = Some st \<and> status_outcome st sig = Some r)"
  by (cases reply)
    (auto simp: poll_status_once_def seen_status_def split: option.splits Option.bind_splits)

lemma poll_Pending:
  "poll_status_once reply sig = Pending \<longleftrightarrow>
     is_ok reply \<and> (\<forall>st. seen_status reply = Some st \<longrightarrow> \<not> terminal st)"
  by (cases reply)
    (auto simp: poll_status_once_def seen_status_def status_outcome_None
      dest: status_outcome_Some split: option.splits Option.bind_splits)

lemma poll_Unreadable: "poll_status_once reply sig = Unreadable \<longleftrightarrow> \<not> is_ok reply"
  by (cases reply) (auto simp: poll_status_once_def split: option.splits)

lemma attempts: "[0..<POST_EXPIRY_STATUS_ATTEMPTS] = [0, 1]"
  by (simp add: POST_EXPIRY_STATUS_ATTEMPTS_def upt_rec)

lemma post_expiry_Inl:
  "post_expiry replies sig ks b = Inl r \<Longrightarrow> \<exists>k\<in>set ks. poll_status_once (replies k) sig = Settled r"
  by (induction ks arbitrary: b) (auto split: poll.splits)

lemma post_expiry_Inr:
  "post_expiry replies sig ks b = Inr c \<Longrightarrow>
     (\<forall>k\<in>set ks. \<forall>st. seen_status (replies k) = Some st \<longrightarrow> \<not> terminal st)
     \<and> c = (b \<or> (\<exists>k\<in>set ks. is_ok (replies k)))"
proof (induction ks arbitrary: b)
  case (Cons k ks)
  show ?case
  proof (cases "poll_status_once (replies k) sig")
    case Pending
    then show ?thesis using Cons by (auto simp flip: poll_Pending simp: Pending [unfolded poll_Pending])
  next
    case Unreadable
    then have "\<not> is_ok (replies k)" by (simp only: poll_Unreadable not_False_eq_True)
    moreover from this have "seen_status (replies k) = None"
      by (cases "replies k") (simp_all add: seen_status_def)
    ultimately show ?thesis using Cons Unreadable by auto
  qed (use Cons.prems in simp)
qed simp

text \<open>Why the loop may stop with an outcome, in terms of what one pass observed.\<close>

definition justified :: "string \<Rightarrow> u64 \<Rightarrow> nat \<Rightarrow> nat \<Rightarrow> observation \<Rightarrow> unit direct_result \<Rightarrow> bool" where
  "justified sig last_valid timeout deadline ob r \<longleftrightarrow> (case r of
       Inr _ \<Rightarrow> (\<exists>reply\<in>set (pass_replies ob). \<exists>st. seen_status reply = Some st \<and> landed st)
     | Inl e \<Rightarrow>
         (\<exists>reply\<in>set (pass_replies ob). \<exists>st err. seen_status reply = Some st \<and> st_err st = Some err
            \<and> e = TransactionFailed sig err)
         \<or> (e = ConfirmationTimeout sig (of_nat timeout) \<and> deadline \<le> ob_deadline_clock ob)
         \<or> (\<exists>height. ob_height ob = Inr height \<and> last_valid < height
            \<and> e = BlockhashExpired sig last_valid height
            \<and> (\<forall>reply\<in>set (pass_replies ob). \<forall>st. seen_status reply = Some st \<longrightarrow> \<not> terminal st)
            \<and> (is_ok (ob_post_expiry ob 0) \<or> is_ok (ob_post_expiry ob 1))))"

lemma justified_Settled:
  assumes "poll_status_once reply sig = Settled r" and "reply \<in> set (pass_replies ob)"
  shows "justified sig last_valid timeout deadline ob r"
proof (cases r)
  case (Inl e)
  with assms show ?thesis by (fastforce simp: justified_def poll_Settled status_outcome_Err)
next
  case (Inr u)
  with assms show ?thesis by (auto simp: justified_def poll_Settled status_outcome_Ok)
qed

lemma settle_pass_Return:
  assumes "settle_pass sig last_valid timeout deadline ob s = (Return r, s')"
  shows "justified sig last_valid timeout deadline ob r"
proof (cases "\<exists>o'. poll_status_once (ob_status ob) sig = Settled o'")
  case True
  then have "poll_status_once (ob_status ob) sig = Settled r"
    using assms by (auto simp: settle_pass_def)
  then show ?thesis by (rule justified_Settled) (simp add: pass_replies_def)
next
  case False
  then have nt: "\<forall>st. seen_status (ob_status ob) = Some st \<longrightarrow> \<not> terminal st"
    unfolding poll_Settled by (metis not_None_eq status_outcome_None)
  show ?thesis
  proof (cases "deadline \<le> ob_deadline_clock ob")
    case True
    with assms False have "r = Inl (ConfirmationTimeout sig (of_nat timeout))"
      by (auto simp: settle_pass_def split: poll.splits)
    with True show ?thesis by (simp add: justified_def)
  next
    case not_late: False
    with assms False obtain height where
      h: "ob_height ob = Inr height" "last_valid < height"
      and r: "post_expiry (ob_post_expiry ob) sig [0, 1] False = Inl r
        \<or> (post_expiry (ob_post_expiry ob) sig [0, 1] False = Inr True
           \<and> r = Inl (BlockhashExpired sig last_valid height))"
      by (auto simp: settle_pass_def Let_def blockhash_has_expired_def attempts
          split: poll.splits if_splits sum.splits)
    from r show ?thesis
    proof
      assume "post_expiry (ob_post_expiry ob) sig [0, 1] False = Inl r"
      from post_expiry_Inl [OF this] obtain k where "k \<in> {0, 1}"
        and "poll_status_once (ob_post_expiry ob k) sig = Settled r" by auto
      then show ?thesis by (intro justified_Settled) (auto simp: pass_replies_def)
    next
      assume "post_expiry (ob_post_expiry ob) sig [0, 1] False = Inr True
           \<and> r = Inl (BlockhashExpired sig last_valid height)"
      with post_expiry_Inr [of "ob_post_expiry ob" sig "[0, 1]" False True] h nt show ?thesis
        by (auto simp: justified_def pass_replies_def)
    qed
  qed
qed

lemma settle_loop_justified:
  "settle_loop sig last_valid timeout deadline obs s = (Some r, s') \<Longrightarrow>
     \<exists>ob\<in>set obs. justified sig last_valid timeout deadline ob r"
proof (induction obs arbitrary: s)
  case (Cons ob obs)
  show ?case
  proof (cases "settle_pass sig last_valid timeout deadline ob s")
    case (Pair c s1)
    then show ?thesis
      using Cons settle_pass_Return [of sig last_valid timeout deadline ob s]
      by (cases c) auto
  qed
qed simp

lemma justified_error:
  "justified sig last_valid timeout deadline ob (Inl e) \<Longrightarrow>
     error_signature e = Some sig \<and> (submitted e \<or> (\<exists>h. e = BlockhashExpired sig last_valid h))"
  by (auto simp: justified_def)

text \<open>The loop ends at the first pass that reads a clock past the deadline, at the latest.\<close>

lemma settle_pass_late:
  "deadline \<le> ob_deadline_clock ob \<Longrightarrow>
     \<exists>r. settle_pass sig last_valid timeout deadline ob s = (Return r, s)"
  by (auto simp: settle_pass_def split: poll.splits)

lemma settle_loop_returns:
  "\<exists>ob\<in>set obs. deadline \<le> ob_deadline_clock ob \<Longrightarrow>
     \<exists>r s'. settle_loop sig last_valid timeout deadline obs s = (Some r, s')"
proof (induction obs arbitrary: s)
  case (Cons ob obs)
  show ?case
  proof (cases "deadline \<le> ob_deadline_clock ob")
    case True
    then show ?thesis using settle_pass_late [of deadline ob sig last_valid timeout s] by auto
  next
    case False
    then have "\<exists>ob\<in>set obs. deadline \<le> ob_deadline_clock ob" using Cons.prems by simp
    then show ?thesis
      using Cons.IH by (auto split: prod.splits settle_control.splits)
  qed
qed simp

text \<open>Rebroadcasts are at least two seconds apart.\<close>

text \<open>The clocks at which the passes of a loop rebroadcast.\<close>

fun rebroadcast_clocks ::
  "string \<Rightarrow> u64 \<Rightarrow> nat \<Rightarrow> nat \<Rightarrow> observation list \<Rightarrow> settle_state \<Rightarrow> nat list" where
  "rebroadcast_clocks sig last_valid timeout deadline [] s = []"
| "rebroadcast_clocks sig last_valid timeout deadline (ob # obs) s =
     (case settle_pass sig last_valid timeout deadline ob s of
        (c, s') \<Rightarrow> (if rebroadcasts s < rebroadcasts s' then [ob_rebroadcast_clock ob] else [])
          @ (case c of Return _ \<Rightarrow> [] | Again \<Rightarrow> rebroadcast_clocks sig last_valid timeout deadline obs s'))"

lemma settle_pass_rebroadcasts:
  assumes "settle_pass sig last_valid timeout deadline ob s = (c, s')"
  shows "rebroadcasts s' = rebroadcasts s \<and> last_rebroadcast s' = last_rebroadcast s
    \<or> rebroadcasts s' = Suc (rebroadcasts s) \<and> last_rebroadcast s + 2000 \<le> ob_rebroadcast_clock ob
      \<and> last_rebroadcast s' = ob_rebroadcast_reset ob"
  using assms
  by (auto simp: settle_pass_def Let_def REBROADCAST_INTERVAL_def
      split: poll.splits if_splits sum.splits)

abbreviation apart :: "nat list \<Rightarrow> bool" where "apart \<equiv> sorted_wrt (\<lambda>a b. a + 2000 \<le> b)"

lemma apart_later: "apart (y # zs) \<Longrightarrow> x \<le> y \<Longrightarrow> apart (x # zs)"
  by (auto intro: order_trans [OF add_right_mono])

lemma settle_loop_rebroadcasts:
  assumes "settle_loop sig last_valid timeout deadline obs s = (r, s')"
    and "\<forall>ob\<in>set obs. ob_rebroadcast_clock ob \<le> ob_rebroadcast_reset ob"
  shows "rebroadcasts s' = rebroadcasts s + length (rebroadcast_clocks sig last_valid timeout deadline obs s)
    \<and> apart (last_rebroadcast s # rebroadcast_clocks sig last_valid timeout deadline obs s)"
  using assms
proof (induction obs arbitrary: s)
  case (Cons ob obs)
  obtain c s1 where pass: "settle_pass sig last_valid timeout deadline ob s = (c, s1)" by force
  let ?ts = "case c of Return _ \<Rightarrow> [] | Again \<Rightarrow> rebroadcast_clocks sig last_valid timeout deadline obs s1"
  have rest: "rebroadcasts s' = rebroadcasts s1 + length ?ts" "apart (last_rebroadcast s1 # ?ts)"
    using Cons pass by (cases c; auto)+
  from settle_pass_rebroadcasts [OF pass] show ?case
  proof
    assume "rebroadcasts s1 = rebroadcasts s \<and> last_rebroadcast s1 = last_rebroadcast s"
    with rest pass show ?thesis by simp
  next
    assume sent: "rebroadcasts s1 = Suc (rebroadcasts s) \<and> last_rebroadcast s + 2000 \<le> ob_rebroadcast_clock ob
      \<and> last_rebroadcast s1 = ob_rebroadcast_reset ob"
    moreover have "ob_rebroadcast_clock ob \<le> ob_rebroadcast_reset ob" using Cons.prems(2) by simp
    ultimately have later: "apart (ob_rebroadcast_clock ob # ?ts)" using rest(2) by (metis apart_later)
    moreover have "last_rebroadcast s + 2000 \<le> x" if "x \<in> set ?ts" for x
      using that later sent by force
    ultimately have "apart (last_rebroadcast s # ob_rebroadcast_clock ob # ?ts)" using sent by simp
    then show ?thesis using rest(1) pass sent by simp
  qed
qed simp

section \<open>What a run concludes\<close>

lemma preflight_not_submitted:
  "errs (\<lambda>e. \<not> submitted e) (preflight_balance sdk cp reply rent plan owner)"
  unfolding preflight_balance_def Let_def
  by (intro errs_intros) (auto intro!: errs_intros split: option.split)

lemma read_receipt_from_error:
  "read_receipt_from sdk sj sig owner plan replies = Inl e \<Longrightarrow>
     submitted e \<and> error_signature e = Some sig"
proof (induction replies)
  case (Cons reply replies)
  then show ?case
    using receipt_error_cases [of sdk sj sig owner plan _ e] by (cases reply) auto
qed simp

lemma execute_before_send:
  assumes "execute_plan sdk sj cp nd plan owner = (Some (Inl e), [])"
  shows "\<not> submitted e"
  using assms errsD [OF preflight_not_submitted]
  by (auto simp: execute_plan_def Let_def
      split: sum.splits prod.splits if_splits option.splits)

lemma execute_after_send:
  assumes "execute_plan sdk sj cp nd plan owner = (Some (Inl e), sent)" and "sent \<noteq> []"
  shows "submitted e \<or> (\<exists>d. e = SubmitFailed d) \<or> (\<exists>sig lv h. e = BlockhashExpired sig lv h)"
proof (rule ccontr)
  assume neg: "\<not> ?thesis"
  have "(\<exists>sig lv timeout deadline obs s0 s1. settle_loop sig lv timeout deadline obs s0 = (Some (Inl e), s1))
      \<or> (\<exists>sig. read_receipt sdk sj (nd_details nd) sig owner plan = Inl e)"
    using assms neg
    by (auto simp: execute_plan_def Let_def settle_def res_simps
        split: sum.splits prod.splits if_splits option.splits)
  then show False
    using settle_loop_justified justified_error read_receipt_from_error neg
    unfolding read_receipt_def by metis
qed

text \<open>Every transaction handed to a node in a run is the same one.\<close>

lemma execute_sent_same:
  assumes "execute_plan sdk sj cp nd plan owner = (r, sent)"
  shows "\<exists>tx n. sent = replicate n tx \<and> (0 < n \<longrightarrow>
     (\<exists>blockhash lv outcome. nd_blockhash nd = Inr (blockhash, lv)
        \<and> nd_simulate nd (plan_instructions plan, blockhash) = Inr outcome \<and> succeeded outcome
        \<and> preflight_balance sdk cp (nd_accounts nd) (nd_rent nd) plan owner = Inr ()
        \<and> tx = (tighten_limit sdk (sim_units_consumed outcome) (plan_instructions plan), blockhash)))"
proof (cases "sent = []")
  case False
  from assms False obtain blockhash lv outcome where
    pre: "nd_blockhash nd = Inr (blockhash, lv)"
      "nd_simulate nd (plan_instructions plan, blockhash) = Inr outcome" "succeeded outcome"
      "preflight_balance sdk cp (nd_accounts nd) (nd_rent nd) plan owner = Inr ()"
    and sent: "\<exists>k. sent = (tighten_limit sdk (sim_units_consumed outcome) (plan_instructions plan), blockhash)
        # replicate k (tighten_limit sdk (sim_units_consumed outcome) (plan_instructions plan), blockhash)"
    by (auto simp: execute_plan_def Let_def split: sum.splits prod.splits if_splits option.splits)
  from sent obtain k where
    "sent = replicate (Suc k) (tighten_limit sdk (sim_units_consumed outcome) (plan_instructions plan), blockhash)"
    by auto
  with pre show ?thesis by blast
qed auto

section \<open>What the preflight covers\<close>

lemma preflight_wsol:
  assumes "preflight_balance sdk cp reply rent plan owner = Inr u"
    and "is_wsol sdk (dq_input_mint (plan_quote plan))"
  shows "\<exists>accs own rc. reply = Inr accs \<and> entry accs 0 = Some own
     \<and> saturating_add (saturating_add (dq_amount_in (plan_quote plan)) rc)
         (network_fee_cushion_lamports cp plan)
       \<le> (case own of None \<Rightarrow> 0 | Some a \<Rightarrow> acc_lamports a)"
  using assms
  by (auto simp: preflight_balance_def Let_def rbind_Inr_iff ok_or_Inr_iff map_err_Inr_iff not_less
      split: if_splits)

text \<open>The network fee of what is sent never exceeds that of the plan.\<close>

lemma tighten_limit_fee:
  assumes "budget_encoding sdk"
    and "ixs = set_compute_unit_limit sdk n # set_compute_unit_price sdk price # rest"
  shows "network_fee_lamports cp (tighten_limit sdk units ixs) \<le> network_fee_lamports cp ixs"
proof -
  have "\<exists>m. tighten_limit sdk units ixs = set_compute_unit_limit sdk m # set_compute_unit_price sdk price # rest
      \<and> m \<le> n"
    using assms(1)
    by (auto simp: assms(2) tighten_limit_def requested_limit_set Let_def split: option.splits)
  then show ?thesis
    using network_fee_lamports_head [OF assms(1)] network_fee_mono
    by (auto simp: assms(2) word_le_nat_alt)
qed

text \<open>The cushion is exact: the fee is far below the range in which it could saturate.\<close>

lemma fee_le_cushion: "network_fee_lamports cp ixs \<le> saturating_mul (network_fee_lamports cp ixs) 120 div 100"
proof -
  define f where "f = unat (network_fee_lamports cp ixs)"
  have div: "unat (div_ceil (x :: u64) 1000000) \<le> cdiv (2 ^ 64 - 1) 1000000" for x
    using unat_u64_lt [of x] by (subst unat_div_ceil) (auto intro!: cdiv_mono)
  have "f \<le> cdiv (2 ^ 64 - 1) 1000000 + 5000"
    unfolding f_def network_fee_lamports_def Let_def BASE_SIGNATURE_FEE_LAMPORTS_def unat_saturating_add
    using div by (intro min.coboundedI1 add_mono) simp_all
  then have "f \<le> 100000000000000" by (simp add: cdiv_def)
  then have "f \<le> min (f * 120) (2 ^ 64 - 1) div 100" by simp
  moreover have "unat (saturating_mul (network_fee_lamports cp ixs) 120 div 100)
      = min (f * 120) (2 ^ 64 - 1) div 100"
    by (simp add: unat_div unat_saturating_mul f_def)
  ultimately show ?thesis by (simp only: word_le_nat_alt f_def)
qed

lemma fee_le_network_cushion:
  "network_fee_lamports cp (plan_instructions plan) \<le> network_fee_cushion_lamports cp plan"
  using fee_le_cushion by (simp add: network_fee_cushion_lamports_def NETWORK_FEE_HEADROOM_PCT_def)

section \<open>A concrete run\<close>

definition sample_quote :: direct_quote where
  "sample_quote = \<lparr>dq_pool = Pubkey [3], dq_program = RaydiumCpmm, dq_input_mint = wsol_mint sample_sdk,
     dq_output_mint = Pubkey [2], dq_amount_in = 1000, dq_swap_amount_in = 995, dq_expected_out = 500,
     dq_min_out = 490, dq_expected_net_out = 500, dq_min_net_out = 490,
     dq_fee = \<lparr>fee_leg = InputSide, fee_units = 5, fee_mint = Some (wsol_mint sample_sdk),
       fee_destination = Some (Pubkey [8]), fee_decimals = 9\<rparr>,
     dq_lp_fee = 1, dq_price_impact_pct = Finite 0, dq_slippage_bps = 200\<rparr>"

definition sample_plan :: swap_plan where
  "sample_plan = \<lparr>plan_instructions = [set_compute_unit_limit sample_sdk 156000,
       set_compute_unit_price sample_sdk 50000],
     plan_venue_compute_units = 120000, plan_input_account = Pubkey [1], plan_output_account = Pubkey [2],
     plan_output_is_native = False, plan_quote = sample_quote\<rparr>"

definition sample_status :: "tx_status \<Rightarrow> status_reply" where
  "sample_status st = Inr [Some st]"

text \<open>One pass at one instant, every read of which sees the given status.\<close>

definition sample_pass :: "nat \<Rightarrow> status_reply \<Rightarrow> u64 \<Rightarrow> observation" where
  "sample_pass t reply height = \<lparr>ob_status = reply, ob_deadline_clock = t, ob_rebroadcast_clock = t,
     ob_rebroadcast_reset = t, ob_height_clock = t, ob_height_reset = t, ob_height = Inr height,
     ob_post_expiry = (\<lambda>_. reply)\<rparr>"

definition sample_node :: "observation list \<Rightarrow> node" where
  "sample_node obs = \<lparr>
     nd_accounts = Inr [Some \<lparr>acc_lamports = 100000, acc_data = [], acc_owner = Pubkey []\<rparr>,
       Some \<lparr>acc_lamports = 0, acc_data = [], acc_owner = Pubkey []\<rparr>,
       Some \<lparr>acc_lamports = 0, acc_data = [], acc_owner = Pubkey []\<rparr>],
     nd_rent = Inr 2039280, nd_blockhash = Inr (Pubkey [77], 100),
     nd_simulate = (\<lambda>_. Inr \<lparr>sim_err = None, sim_logs = [], sim_units_consumed = Some 80000,
       sim_inner_instructions = []\<rparr>),
     nd_send = (\<lambda>_. Inr ''sig''), nd_timeout = 30000, nd_start = 0, nd_start_rebroadcast = 0,
     nd_start_height = 0, nd_observations = obs, nd_details = (\<lambda>_. Inl ''not indexed'')\<rparr>"

lemma sample_preflight:
  "preflight_balance sample_sdk cp (nd_accounts (sample_node obs)) (nd_rent (sample_node obs))
     sample_plan owner = Inr ()"
proof -
  have enc: "budget_encoding sample_sdk"
    by (simp add: budget_encoding_def sample_sdk_def plain_ix_def)
  have head: "plan_instructions sample_plan = set_compute_unit_limit sample_sdk 156000
      # set_compute_unit_price sample_sdk 50000 # []" by (simp add: sample_plan_def)
  have "unat (network_fee_lamports cp (plan_instructions sample_plan)) = 12800"
    unfolding head network_fee_lamports_head [OF enc] by (simp add: network_fee_def cdiv_def)
  then have "network_fee_lamports cp (plan_instructions sample_plan) = 12800"
    by (simp add: word_unat_eq_iff)
  then have "network_fee_cushion_lamports cp sample_plan = 15360"
    by (simp add: network_fee_cushion_lamports_def NETWORK_FEE_HEADROOM_PCT_def saturating_mul_def)
  then show ?thesis
    by (simp add: preflight_balance_def sample_node_def entry_def Let_def sample_plan_def
        sample_quote_def is_wsol_def saturating_add_def)
qed

lemma sample_execute:
  assumes "settle ''sig'' 100 30000 0 0 0 obs = (Some (Inl e), s)"
  shows "\<exists>tx. execute_plan sample_sdk sj cp (sample_node obs) sample_plan owner
     = (Some (Inl e), tx # replicate (rebroadcasts s) tx)"
  using assms sample_preflight [of cp obs owner]
  by (simp add: execute_plan_def sample_node_def succeeded_def Let_def)

section \<open>Properties\<close>

text \<open>C4: money safety of a run. When a swap ends with an error that says nothing reached the chain,
  then either no transaction was handed to a node at all, or the single submission was refused, or
  the blockhash expired: the height passed the last valid block in a pass in which no read saw the
  signature in a terminal state and a node answered after the expiry.\<close>

theorem unsubmitted_errors:
  assumes "execute_plan sdk sj config_price nd plan owner = (Some (Inl e), sent)"
    and "\<not> submitted e"
  shows "sent = [] \<or> (\<exists>detail tx. e = SubmitFailed detail \<and> sent = [tx])
     \<or> (\<exists>sig last_valid height. e = BlockhashExpired sig last_valid height \<and> last_valid < height
          \<and> (\<exists>ob\<in>set (nd_observations nd). ob_height ob = Inr height
              \<and> (\<forall>reply\<in>set (pass_replies ob). \<forall>st. seen_status reply = Some st \<longrightarrow> \<not> terminal st)
              \<and> (is_ok (ob_post_expiry ob 0) \<or> is_ok (ob_post_expiry ob 1))))"
proof (cases "sent = [] \<or> (\<exists>detail tx. e = SubmitFailed detail \<and> sent = [tx])")
  case False
  have no_receipt: "read_receipt sdk sj (nd_details nd) sig owner plan \<noteq> Inl e" for sig
    using read_receipt_from_error assms(2) unfolding read_receipt_def by metis
  from assms(1) False no_receipt obtain sig lv timeout deadline s0 s1 where
    "settle_loop sig lv timeout deadline (nd_observations nd) s0 = (Some (Inl e), s1)"
    by (auto simp: execute_plan_def Let_def settle_def res_simps
        split: sum.splits prod.splits if_splits option.splits)
  then obtain ob where "ob \<in> set (nd_observations nd)"
    and "justified sig lv timeout deadline ob (Inl e)"
    using settle_loop_justified by metis
  with assms(2) have "\<exists>height. e = BlockhashExpired sig lv height \<and> lv < height \<and> ob_height ob = Inr height
      \<and> (\<forall>reply\<in>set (pass_replies ob). \<forall>st. seen_status reply = Some st \<longrightarrow> \<not> terminal st)
      \<and> (is_ok (ob_post_expiry ob 0) \<or> is_ok (ob_post_expiry ob 1))"
    by (auto simp: justified_def)
  with \<open>ob \<in> set (nd_observations nd)\<close> show ?thesis by blast
qed blast

theorem unsubmitted_errors_witness:
  "\<exists>sent. execute_plan sample_sdk (\<lambda>_. []) 50000 (sample_node [sample_pass 5000 (Inr [None]) 101])
       sample_plan (Pubkey [9]) = (Some (Inl (BlockhashExpired ''sig'' 100 101)), sent)
     \<and> sent \<noteq> [] \<and> (100 :: u64) < 101"
proof -
  let ?obs = "[sample_pass 5000 (Inr [None]) 101]"
  have "\<exists>s. settle ''sig'' 100 30000 0 0 0 ?obs = (Some (Inl (BlockhashExpired ''sig'' 100 101)), s)"
    by (simp add: settle_def settle_pass_def sample_pass_def poll_status_once_def entry_def
        REBROADCAST_INTERVAL_def BLOCK_HEIGHT_CHECK_INTERVAL_def blockhash_has_expired_def attempts Let_def)
  then obtain s where "settle ''sig'' 100 30000 0 0 0 ?obs = (Some (Inl (BlockhashExpired ''sig'' 100 101)), s)"
    by blast
  from sample_execute [OF this, of "\<lambda>_. []" 50000 "Pubkey [9]"] obtain tx where
    run: "execute_plan sample_sdk (\<lambda>_. []) 50000 (sample_node ?obs) sample_plan (Pubkey [9])
       = (Some (Inl (BlockhashExpired ''sig'' 100 101)), tx # replicate (rebroadcasts s) tx)" by blast
  from unsubmitted_errors [OF run] run show ?thesis by auto
qed

text \<open>C5: every verdict of the settle loop rests on something a pass observed: success on a status
  without an error that is confirmed or finalized, a failure on a status with that error, a timeout
  on a clock past the deadline, an expiry on a height past the last valid block with nothing
  terminal seen and a node that answered.\<close>

theorem settle_verdicts:
  assumes "settle sig last_valid timeout start r0 h0 obs = (Some verdict, s)"
  shows "\<exists>ob\<in>set obs. justified sig last_valid timeout (start + timeout) ob verdict"
  using assms settle_loop_justified unfolding settle_def by metis

theorem settle_verdicts_witness:
  "settle ''sig'' 100 30000 0 0 0 [sample_pass 500 (sample_status \<lparr>st_err = None, st_level = Confirmed\<rparr>) 90]
     = (Some (Inr ()), \<lparr>last_rebroadcast = 0, last_height_check = 0, rebroadcasts = 0\<rparr>)
   \<and> (\<exists>ob\<in>set [sample_pass 500 (sample_status \<lparr>st_err = None, st_level = Confirmed\<rparr>) 90].
        justified ''sig'' 100 30000 (0 + 30000) ob (Inr ()))"
proof -
  have run: "settle ''sig'' 100 30000 0 0 0 [sample_pass 500 (sample_status \<lparr>st_err = None, st_level = Confirmed\<rparr>) 90]
     = (Some (Inr ()), \<lparr>last_rebroadcast = 0, last_height_check = 0, rebroadcasts = 0\<rparr>)"
    by (simp add: settle_def settle_pass_def sample_pass_def sample_status_def poll_status_once_def
        entry_def status_outcome_def)
  from settle_verdicts [OF run] run show ?thesis by blast
qed

text \<open>C6: the settle loop ends. As soon as one pass reads a clock at or past the deadline, the loop
  has returned, whatever the node answered; and its rebroadcasts are at least two seconds apart, the
  first as long after the submission, as long as no clock runs backwards within a pass.\<close>

theorem settle_terminates:
  assumes "\<exists>ob\<in>set obs. start + timeout \<le> ob_deadline_clock ob"
    and "\<forall>ob\<in>set obs. ob_rebroadcast_clock ob \<le> ob_rebroadcast_reset ob"
  shows "\<exists>verdict s clocks. settle sig last_valid timeout start r0 h0 obs = (Some verdict, s)
     \<and> clocks = rebroadcast_clocks sig last_valid timeout (start + timeout) obs
         \<lparr>last_rebroadcast = r0, last_height_check = h0, rebroadcasts = 0\<rparr>
     \<and> rebroadcasts s = length clocks \<and> sorted_wrt (\<lambda>a b. a + 2000 \<le> b) (r0 # clocks)"
proof -
  obtain verdict s where run: "settle sig last_valid timeout start r0 h0 obs = (Some verdict, s)"
    using settle_loop_returns [OF assms(1)] unfolding settle_def by blast
  with settle_loop_rebroadcasts [OF run [unfolded settle_def] assms(2)] show ?thesis by simp
qed

theorem settle_terminates_witness:
  "\<exists>verdict s (clocks :: nat list). settle ''sig'' 100 30000 0 0 0
       [sample_pass 2500 (Inl ''down'') 90, sample_pass 30000 (Inl ''down'') 90] = (Some verdict, s)
     \<and> rebroadcasts s = length clocks \<and> clocks = [2500] \<and> sorted_wrt (\<lambda>a b. a + 2000 \<le> b) (0 # clocks)"
proof -
  let ?obs = "[sample_pass 2500 (Inl ''down'') 90, sample_pass 30000 (Inl ''down'') 90]"
  have "rebroadcast_clocks ''sig'' 100 30000 (0 + 30000) ?obs \<lparr>last_rebroadcast = 0, last_height_check = 0, rebroadcasts = 0\<rparr> = [2500]"
    by (simp add: settle_pass_def sample_pass_def poll_status_once_def REBROADCAST_INTERVAL_def
        BLOCK_HEIGHT_CHECK_INTERVAL_def blockhash_has_expired_def Let_def)
  moreover have "\<exists>ob\<in>set ?obs. 0 + 30000 \<le> ob_deadline_clock ob"
    "\<forall>ob\<in>set ?obs. ob_rebroadcast_clock ob \<le> ob_rebroadcast_reset ob" by (simp_all add: sample_pass_def)
  ultimately show ?thesis using settle_terminates [of ?obs 0 30000 "''sig''" 100 0 0] by metis
qed

text \<open>C7: a run only ever hands one transaction to the network. Every submission and rebroadcast is the
  same signed transaction, handed over only after the preflight passed and the simulation of the
  plan succeeded, and it differs from the plan at most in a tighter compute-unit limit.\<close>

theorem one_transaction:
  assumes "execute_plan sdk sj config_price nd plan owner = (r, sent)" and "sent \<noteq> []"
  shows "\<exists>tx blockhash last_valid outcome. sent = replicate (length sent) tx
     \<and> preflight_balance sdk config_price (nd_accounts nd) (nd_rent nd) plan owner = Inr ()
     \<and> nd_blockhash nd = Inr (blockhash, last_valid)
     \<and> nd_simulate nd (plan_instructions plan, blockhash) = Inr outcome \<and> sim_err outcome = None
     \<and> snd tx = blockhash \<and> tl (fst tx) = tl (plan_instructions plan)
     \<and> length (fst tx) = length (plan_instructions plan)"
proof -
  have tl: "tl (tighten_limit sdk u ixs) = tl ixs \<and> length (tighten_limit sdk u ixs) = length ixs" for u ixs
    by (cases ixs) (auto simp: tighten_limit_def Let_def split: option.splits)
  from execute_sent_same [OF assms(1)] obtain tx n where
    n: "sent = replicate n tx" "0 < n \<longrightarrow> (\<exists>blockhash lv outcome. nd_blockhash nd = Inr (blockhash, lv)
        \<and> nd_simulate nd (plan_instructions plan, blockhash) = Inr outcome \<and> succeeded outcome
        \<and> preflight_balance sdk config_price (nd_accounts nd) (nd_rent nd) plan owner = Inr ()
        \<and> tx = (tighten_limit sdk (sim_units_consumed outcome) (plan_instructions plan), blockhash))"
    by blast
  with assms(2) have "0 < n" by (cases n) simp_all
  with n tl show ?thesis by (auto simp: succeeded_def)
qed

theorem one_transaction_witness:
  "\<exists>sent tx. execute_plan sample_sdk (\<lambda>_. []) 50000
       (sample_node [sample_pass 5000 (Inl ''down'') 90, sample_pass 40000 (Inl ''down'') 90])
       sample_plan (Pubkey [9]) = (Some (Inl (ConfirmationTimeout ''sig'' 30000)), sent)
     \<and> length sent = 2 \<and> sent = replicate 2 tx"
proof -
  let ?obs = "[sample_pass 5000 (Inl ''down'') 90, sample_pass 40000 (Inl ''down'') 90]"
  have "\<exists>s. settle ''sig'' 100 30000 0 0 0 ?obs = (Some (Inl (ConfirmationTimeout ''sig'' 30000)), s)
      \<and> rebroadcasts s = 1"
    by (simp add: settle_def settle_pass_def sample_pass_def poll_status_once_def entry_def
        REBROADCAST_INTERVAL_def BLOCK_HEIGHT_CHECK_INTERVAL_def blockhash_has_expired_def attempts Let_def)
  then obtain s where s: "settle ''sig'' 100 30000 0 0 0 ?obs = (Some (Inl (ConfirmationTimeout ''sig'' 30000)), s)"
    and one: "rebroadcasts s = 1" by blast
  from sample_execute [OF s, of "\<lambda>_. []" 50000 "Pubkey [9]"] obtain tx where
    run: "execute_plan sample_sdk (\<lambda>_. []) 50000 (sample_node ?obs) sample_plan (Pubkey [9])
       = (Some (Inl (ConfirmationTimeout ''sig'' 30000)), [tx, tx])" by (auto simp: one)
  from one_transaction [OF run] run show ?thesis by (auto simp: numeral_2_eq_2)
qed

text \<open>An expiry can be declared although the node reports the signature. A status that is only
  processed counts as the signature being absent, so a run whose every read, after the expiry too,
  shows the transaction in a processed block still ends in the verdict that offers a retry.\<close>

theorem expired_although_seen:
  "\<exists>s. settle ''sig'' 100 30000 0 0 0
       [sample_pass 5000 (sample_status \<lparr>st_err = None, st_level = Processed\<rparr>) 101]
       = (Some (Inl (BlockhashExpired ''sig'' 100 101)), s)
     \<and> seen_status (sample_status \<lparr>st_err = None, st_level = Processed\<rparr>) \<noteq> None
     \<and> safe_to_fallback (BlockhashExpired ''sig'' 100 101)"
  by (simp add: settle_def settle_pass_def sample_pass_def sample_status_def poll_status_once_def
      entry_def status_outcome_def seen_status_def REBROADCAST_INTERVAL_def
      BLOCK_HEIGHT_CHECK_INTERVAL_def blockhash_has_expired_def attempts Let_def)

text \<open>C31: the preflight covers what the run spends. For a swap paid in SOL, whenever a transaction is
  handed to the network the wallet held at least the input amount plus the network fee that very
  transaction requests (up to the largest representable balance).\<close>

theorem preflight_covers_fee:
  assumes "budget_encoding sdk"
    and "plan_instructions plan = set_compute_unit_limit sdk limit # set_compute_unit_price sdk price # rest"
    and "is_wsol sdk (dq_input_mint (plan_quote plan))"
    and "execute_plan sdk sj config_price nd plan owner = (r, sent)" and "tx \<in> set sent"
  shows "\<exists>accounts wallet. nd_accounts nd = Inr accounts \<and> entry accounts 0 = Some wallet
     \<and> min (unat (dq_amount_in (plan_quote plan)) + unat (network_fee_lamports config_price (fst tx))) (2 ^ 64 - 1)
         \<le> unat (case wallet of None \<Rightarrow> 0 | Some a \<Rightarrow> acc_lamports a)"
proof -
  from execute_sent_same [OF assms(4)] assms(5)
  obtain outcome :: simulation_outcome and blockhash where
    pre: "preflight_balance sdk config_price (nd_accounts nd) (nd_rent nd) plan owner = Inr ()"
    and tx: "tx = (tighten_limit sdk (sim_units_consumed outcome) (plan_instructions plan), blockhash)"
    by (auto split: if_splits)
  from preflight_wsol [OF pre assms(3)] obtain accs own rc where
    accs: "nd_accounts nd = Inr accs" "entry accs 0 = Some own"
    and le: "saturating_add (saturating_add (dq_amount_in (plan_quote plan)) rc)
         (network_fee_cushion_lamports config_price plan)
       \<le> (case own of None \<Rightarrow> 0 | Some a \<Rightarrow> acc_lamports a)" by blast
  have "network_fee_lamports config_price (fst tx) \<le> network_fee_lamports config_price (plan_instructions plan)"
    using tighten_limit_fee [OF assms(1,2)] by (simp add: tx)
  also note fee_le_network_cushion
  finally have "unat (network_fee_lamports config_price (fst tx)) \<le> unat (network_fee_cushion_lamports config_price plan)"
    by (simp add: word_le_nat_alt)
  then have "min (unat (dq_amount_in (plan_quote plan)) + unat (network_fee_lamports config_price (fst tx))) (2 ^ 64 - 1)
      \<le> unat (saturating_add (saturating_add (dq_amount_in (plan_quote plan)) rc)
          (network_fee_cushion_lamports config_price plan))"
    by (simp add: unat_saturating_add)
  also have "\<dots> \<le> unat (case own of None \<Rightarrow> 0 | Some a \<Rightarrow> acc_lamports a)"
    using le by (simp only: word_le_nat_alt)
  finally show ?thesis using accs by blast
qed

theorem preflight_covers_fee_witness:
  "\<exists>tx sent accounts wallet. execute_plan sample_sdk (\<lambda>_. []) 50000 (sample_node [sample_pass 5000 (Inr [None]) 101])
       sample_plan (Pubkey [9]) = (Some (Inl (BlockhashExpired ''sig'' 100 101)), sent) \<and> tx \<in> set sent
     \<and> nd_accounts (sample_node [sample_pass 5000 (Inr [None]) 101]) = Inr accounts \<and> entry accounts 0 = Some (Some wallet)
     \<and> unat (dq_amount_in (plan_quote sample_plan)) + unat (network_fee_lamports 50000 (fst tx)) \<le> unat (acc_lamports wallet)"
proof -
  let ?obs = "[sample_pass 5000 (Inr [None]) 101]"
  have "\<exists>s. settle ''sig'' 100 30000 0 0 0 ?obs = (Some (Inl (BlockhashExpired ''sig'' 100 101)), s)"
    by (simp add: settle_def settle_pass_def sample_pass_def poll_status_once_def entry_def
        REBROADCAST_INTERVAL_def BLOCK_HEIGHT_CHECK_INTERVAL_def blockhash_has_expired_def attempts Let_def)
  then obtain s where "settle ''sig'' 100 30000 0 0 0 ?obs = (Some (Inl (BlockhashExpired ''sig'' 100 101)), s)"
    by blast
  from sample_execute [OF this, of "\<lambda>_. []" 50000 "Pubkey [9]"] obtain tx where
    run: "execute_plan sample_sdk (\<lambda>_. []) 50000 (sample_node ?obs) sample_plan (Pubkey [9])
       = (Some (Inl (BlockhashExpired ''sig'' 100 101)), tx # replicate (rebroadcasts s) tx)" by blast
  have enc: "budget_encoding sample_sdk"
    by (simp add: budget_encoding_def sample_sdk_def plain_ix_def)
  have head: "plan_instructions sample_plan = set_compute_unit_limit sample_sdk 156000
      # set_compute_unit_price sample_sdk 50000 # []" by (simp add: sample_plan_def)
  have wsol: "is_wsol sample_sdk (dq_input_mint (plan_quote sample_plan))"
    by (simp add: sample_plan_def sample_quote_def is_wsol_def)
  from preflight_covers_fee [OF enc head wsol run, of tx]
  have "unat (dq_amount_in (plan_quote sample_plan)) + unat (network_fee_lamports 50000 (fst tx)) \<le> 100000"
    by (auto simp: sample_node_def entry_def min_def split: if_splits)
  with run show ?thesis by (intro exI [of _ tx]) (auto simp: sample_node_def entry_def)
qed

end
