(* ===== verification/Token2022.thy ===== *)
theory Token2022
  imports Curve_Math Sdk
begin

text \<open>
  \<^verbatim>\<open>src/chains/solana/swaps/direct/venues/token2022.rs\<close>: the transfer fee of a Token-2022
  mint. Decoding the extension is the SDK's; choosing the schedule and charging it is the
  engine's.
\<close>

record transfer_fee_schedule =
  basis_points :: u16
  maximum_fee :: u64

definition schedule_fee_on :: "transfer_fee_schedule \<Rightarrow> u64 \<Rightarrow> u64" where
  "schedule_fee_on s amount =
     (if basis_points s = 0 then 0
      else let raw = div_ceil ((ucast amount :: u128) * ucast (basis_points s)) 10000
           in ucast (min (min raw (ucast (maximum_fee s))) (ucast amount)))"

definition schedule_net_of_fee :: "transfer_fee_schedule \<Rightarrow> u64 \<Rightarrow> u64" where
  "schedule_net_of_fee s amount = saturating_sub amount (schedule_fee_on s amount)"

definition schedule_from :: "raw_transfer_fee \<Rightarrow> transfer_fee_schedule" where
  "schedule_from fee = \<lparr>basis_points = raw_basis_points fee, maximum_fee = raw_maximum_fee fee\<rparr>"

definition read_transfer_fee_schedule :: "sdk \<Rightarrow> account \<Rightarrow> transfer_fee_schedule option" where
  "read_transfer_fee_schedule sdk mint_account =
     (if acc_owner mint_account \<noteq> spl_token_2022_id sdk then None
      else do {
        (older_raw, newer_raw) \<leftarrow> transfer_fee_config sdk (acc_data mint_account);
        let older = schedule_from older_raw;
        let newer = schedule_from newer_raw;
        Some (if basis_points newer \<ge> basis_points older then newer else older)
      })"

definition fee_on :: "transfer_fee_schedule option \<Rightarrow> u64 \<Rightarrow> u64" where
  "fee_on schedule amount = (case schedule of None \<Rightarrow> 0 | Some s \<Rightarrow> schedule_fee_on s amount)"

definition net_of_fee :: "transfer_fee_schedule option \<Rightarrow> u64 \<Rightarrow> u64" where
  "net_of_fee schedule amount =
     (case schedule of None \<Rightarrow> amount | Some s \<Rightarrow> schedule_net_of_fee s amount)"

section \<open>Charging the fee\<close>

lemma unat_mul_u64_u16:
  "unat ((ucast (a :: u64) :: u128) * ucast (b :: u16)) = unat a * unat b"
proof -
  have "unat a * unat b < 2 ^ 64 * 2 ^ 16"
    using unat_u64_lt [of a] unat_u16_lt [of b] by (intro mult_strict_mono') simp_all
  then show ?thesis by (subst unat_mul_exact) simp_all
qed

lemma unat_schedule_fee_on [unat_simps]:
  "unat (schedule_fee_on s a) =
     min (min (cdiv (unat a * unat (basis_points s)) 10000) (unat (maximum_fee s))) (unat a)"
proof (cases "basis_points s = 0")
  case True
  then show ?thesis by (simp add: schedule_fee_on_def cdiv_def)
next
  case False
  let ?c = "cdiv (unat a * unat (basis_points s)) 10000"
  have "unat (schedule_fee_on s a) = min (min ?c (unat (maximum_fee s))) (unat a) mod 2 ^ 64"
    using False
    by (simp add: schedule_fee_on_def unat_narrow unat_div_ceil unat_mul_u64_u16)
  then show ?thesis using unat_u64_lt [of a] by simp
qed

lemma unat_schedule_net_of_fee [unat_simps]:
  "unat (schedule_net_of_fee s a) = unat a - unat (schedule_fee_on s a)"
  by (simp add: schedule_net_of_fee_def)

lemma schedule_fee_on_le: "schedule_fee_on s a \<le> a"
  by (simp add: word_le_nat_alt unat_schedule_fee_on)

lemma fee_on_le: "fee_on s a \<le> a"
  by (simp add: fee_on_def schedule_fee_on_le split: option.split)

lemma net_of_fee_le: "net_of_fee s a \<le> a"
  by (simp add: net_of_fee_def word_le_nat_alt unat_schedule_net_of_fee split: option.split)

text \<open>Nothing is lost: what arrives and what is charged add up to what was sent.\<close>

lemma net_plus_fee: "unat (net_of_fee s a) + unat (fee_on s a) = unat a"
  using schedule_fee_on_le [of "the s" a]
  by (auto simp: net_of_fee_def fee_on_def unat_schedule_net_of_fee word_le_nat_alt split: option.split)

text \<open>What arrives grows with what is sent, for every schedule the token program accepts.\<close>

lemma cdiv_step:
  assumes "r \<le> d" and "0 < d"
  shows "cdiv (Suc a * r) d \<le> Suc (cdiv (a * r) d)"
proof -
  have "a * r \<le> cdiv (a * r) d * d" using assms(2) by (rule cdiv_mult_ge)
  then have "Suc a * r \<le> Suc (cdiv (a * r) d) * d" using assms(1) by simp
  then show ?thesis using assms(2) by (simp only: cdiv_le_iff)
qed

lemma cdiv_gap:
  assumes "r \<le> d" and "0 < d" and "a \<le> b"
  shows "cdiv (b * r) d \<le> cdiv (a * r) d + (b - a)"
  using assms(3)
proof (induction b rule: dec_induct)
  case (step b)
  then show ?case using cdiv_step [OF assms(1,2), of b] by linarith
qed simp

lemma net_of_fee_mono:
  assumes "a \<le> b" and "\<And>s. schedule = Some s \<Longrightarrow> basis_points s \<le> 10000"
  shows "net_of_fee schedule a \<le> net_of_fee schedule b"
proof (cases schedule)
  case None
  then show ?thesis using assms(1) by (simp add: net_of_fee_def)
next
  case (Some s)
  let ?r = "unat (basis_points s)"
  have "?r \<le> 10000" using assms(2) [OF Some] by (simp add: word_le_nat_alt)
  moreover have ab: "unat a \<le> unat b" using assms(1) by (simp add: word_le_nat_alt)
  ultimately have "cdiv (unat b * ?r) 10000 \<le> cdiv (unat a * ?r) 10000 + (unat b - unat a)"
    by (intro cdiv_gap) simp_all
  with ab show ?thesis
    by (simp add: Some net_of_fee_def word_le_nat_alt unat_schedule_net_of_fee unat_schedule_fee_on)
qed

text \<open>The schedule read from a mint charges at least the rate in force, older or newer.\<close>

lemma read_transfer_fee_schedule_max:
  assumes "read_transfer_fee_schedule sdk acc = Some s"
    and "transfer_fee_config sdk (acc_data acc) = Some (older, newer)"
  shows "basis_points s = max (raw_basis_points older) (raw_basis_points newer)"
  using assms
  by (auto simp: read_transfer_fee_schedule_def schedule_from_def Let_def max_def not_le split: if_splits)

section \<open>Properties\<close>

text \<open>The transfer fee of a Token-2022 mint conserves the amount, and what arrives never
  shrinks when more is sent, for every schedule the token program accepts (at most 10000 basis
  points). A quote net of the fee is therefore monotone in the quote before it.\<close>

theorem net_of_fee_conserves_and_grows:
  assumes "a \<le> b" and "\<And>s. schedule = Some s \<Longrightarrow> basis_points s \<le> 10000"
  shows "unat (net_of_fee schedule a) + unat (fee_on schedule a) = unat a
     \<and> net_of_fee schedule a \<le> net_of_fee schedule b"
  using net_of_fee_mono [OF assms] net_plus_fee [of schedule a] by simp

theorem net_of_fee_conserves_and_grows_witness:
  "unat (net_of_fee (Some \<lparr>basis_points = 100, maximum_fee = 5000\<rparr>) 1000)
       + unat (fee_on (Some \<lparr>basis_points = 100, maximum_fee = 5000\<rparr>) 1000) = 1000
   \<and> net_of_fee (Some \<lparr>basis_points = 100, maximum_fee = 5000\<rparr>) 1000
       \<le> net_of_fee (Some \<lparr>basis_points = 100, maximum_fee = 5000\<rparr>) 2000"
  using net_of_fee_conserves_and_grows [of 1000 2000 "Some \<lparr>basis_points = 100, maximum_fee = 5000\<rparr>"]
  by simp

definition capped_mint_sdk :: "sdk \<Rightarrow> sdk" where
  "capped_mint_sdk sdk = sdk\<lparr>spl_token_2022_id := Pubkey [22],
     transfer_fee_config := \<lambda>_. Some (\<lparr>raw_basis_points = 100, raw_maximum_fee = 1000000\<rparr>,
                                      \<lparr>raw_basis_points = 200, raw_maximum_fee = 10\<rparr>)\<rparr>"

text \<open>Choosing the schedule by its rate alone can under-state the fee. A mint whose newer
  entry has the higher rate but a lower cap is read as that entry, although the older one, still
  in force, charges more on a large amount.\<close>

theorem transfer_fee_can_be_understated:
  "fee_on (read_transfer_fee_schedule (capped_mint_sdk sdk)
            \<lparr>acc_lamports = 0, acc_data = [], acc_owner = Pubkey [22]\<rparr>) 1000000 = 10
   \<and> schedule_fee_on (schedule_from \<lparr>raw_basis_points = 100, raw_maximum_fee = 1000000\<rparr>) 1000000 = 10000"
  by (simp add: read_transfer_fee_schedule_def capped_mint_sdk_def schedule_from_def fee_on_def
      schedule_fee_on_def div_ceil_def Let_def)

end
