(* ===== verification/Venue_Common.thy ===== *)
theory Venue_Common
  imports Pool_Market Token2022 Layout Sample_Sdk
begin

text \<open>
  What the venue adapters share: the batched account read of a loader, the refusals every
  venue words the same way, and the lemmas with which a venue discharges the laws of
  \<open>market_laws\<close> for its own market.
\<close>

section \<open>Loading\<close>

type_synonym account_reader = "pubkey list \<Rightarrow> string + account option list"

definition account_entry :: "account option list \<Rightarrow> nat \<Rightarrow> account option" where
  "account_entry accounts i = (if i < length accounts then accounts ! i else None)"

text \<open>The closure \<^verbatim>\<open>fetched\<close> of a loader: the batch's entry, or the address that is missing.\<close>

definition fetched ::
  "string \<Rightarrow> pubkey list \<Rightarrow> account option list \<Rightarrow> nat \<Rightarrow> account direct_result" where
  "fetched detail addresses accounts i =
     ok_or (account_entry accounts i) (AccountUnavailable (addresses ! i) detail)"

section \<open>Sides\<close>

text \<open>Which side of a pool a mint is: \<open>Some True\<close> for the first, \<open>Some False\<close> for the second.\<close>

definition side_of :: "pubkey \<Rightarrow> pubkey \<Rightarrow> pubkey \<Rightarrow> bool option" where
  "side_of first second mint =
     (if mint = first then Some True else if mint = second then Some False else None)"

lemma side_of_None: "side_of a b m = None \<longleftrightarrow> m \<noteq> a \<and> m \<noteq> b"
  by (simp add: side_of_def)

lemma side_of_Some: "side_of a b m = Some s \<longleftrightarrow> (if m = a then s else m = b \<and> \<not> s)"
  by (auto simp: side_of_def)

lemma side_of_is_Some [simp]: "(\<exists>s. side_of a b m = Some s) \<longleftrightarrow> m = a \<or> m = b"
  by (auto simp: side_of_def)

text \<open>A pair in the order of a swap: input first.\<close>

definition oriented :: "bool \<Rightarrow> 'a \<times> 'a \<Rightarrow> 'a \<times> 'a" where
  "oriented input_is_first p = (if input_is_first then p else prod.swap p)"

lemma oriented_simps [simp]:
  "oriented s (a, b) = (if s then (a, b) else (b, a))"
  "fst (oriented s p) = (if s then fst p else snd p)"
  "snd (oriented s p) = (if s then snd p else fst p)"
  by (simp_all add: oriented_def)

lemma side_of_pair:
  "side_of a b m = Some s \<Longrightarrow> side_of a b n = Some t \<Longrightarrow> s \<noteq> t \<Longrightarrow>
     (m = a \<and> n = b) \<or> (m = b \<and> n = a)"
  by (auto simp: side_of_def split: if_splits)

definition ok_side ::
  "pubkey \<Rightarrow> pubkey \<Rightarrow> pubkey \<Rightarrow> pubkey \<Rightarrow> pubkey \<Rightarrow> pubkey \<Rightarrow> bool direct_result" where
  "ok_side pool first second mint input_mint output_mint =
     ok_or (side_of first second mint) (PairNotInPool pool input_mint output_mint)"

lemma ok_side_Inr [res_simps]:
  "ok_side pool a b m i out = Inr s \<longleftrightarrow> side_of a b m = Some s"
  by (simp add: ok_side_def ok_or_Inr_iff)

lemma errs_ok_side [errs_intros]:
  "\<not> submitted (PairNotInPool pool i out) \<Longrightarrow> errs (\<lambda>e. \<not> submitted e) (ok_side pool a b m i out)"
  unfolding ok_side_def by (rule errs_ok_or)

text \<open>The direction of a swap: both mints are sides of the pool, and different ones.\<close>

definition swap_direction :: "pubkey \<Rightarrow> pubkey \<Rightarrow> pubkey \<Rightarrow> swap_accounts \<Rightarrow> bool direct_result" where
  "swap_direction pool first second acc =
     rbind (ok_side pool first second (sa_input_mint acc) (sa_input_mint acc) (sa_output_mint acc))
       (\<lambda>input_is_first.
     rbind (ok_side pool first second (sa_output_mint acc) (sa_input_mint acc) (sa_output_mint acc))
       (\<lambda>output_is_first.
     if input_is_first = output_is_first
     then Inl (PairNotInPool pool (sa_input_mint acc) (sa_output_mint acc))
     else Inr input_is_first))"

lemma swap_direction_Inr:
  "swap_direction pool a b acc = Inr s \<Longrightarrow>
     (sa_input_mint acc = a \<and> sa_output_mint acc = b) \<or> (sa_input_mint acc = b \<and> sa_output_mint acc = a)"
  by (auto simp: swap_direction_def res_simps dest: side_of_pair split: if_splits)

lemma swap_direction_iff:
  "a \<noteq> b \<Longrightarrow> swap_direction pool a b acc = Inr s \<longleftrightarrow>
     (if s then sa_input_mint acc = a \<and> sa_output_mint acc = b
      else sa_input_mint acc = b \<and> sa_output_mint acc = a)"
  by (auto simp: swap_direction_def res_simps side_of_def split: if_splits)

lemma errs_swap_direction [errs_intros]: "errs (\<lambda>e. \<not> submitted e) (swap_direction pool a b acc)"
  unfolding swap_direction_def by (intro errs_intros) simp_all

section \<open>A fee taken from the output, in input units\<close>

text \<open>The contract reports the pool's fee in input units; a venue that charges it on the output
  converts it at the realised rate of the same fill.\<close>

definition fee_in_input_units :: "u64 \<Rightarrow> u64 \<Rightarrow> u64 \<Rightarrow> u64" where
  "fee_in_input_units fee amount gross =
     (if gross = 0 then 0 else ucast ((ucast fee :: u128) * ucast amount div ucast gross))"

lemma fee_in_input_units_le:
  assumes "fee \<le> gross"
  shows "fee_in_input_units fee amount gross \<le> amount"
proof (cases "gross = 0")
  case False
  then have g: "0 < unat gross" by (simp add: unat_gt_0)
  have "unat fee * unat amount \<le> unat gross * unat amount"
    using assms by (simp add: word_le_nat_alt)
  then have "unat fee * unat amount div unat gross \<le> unat amount"
    using g by (metis div_le_mono nonzero_mult_div_cancel_left not_less_zero)
  moreover have "unat (fee_in_input_units fee amount gross) = unat fee * unat amount div unat gross mod 2 ^ 64"
    using False by (simp add: fee_in_input_units_def unat_narrow unat_div)
  ultimately show ?thesis using unat_u64_lt [of amount] by (simp add: word_le_nat_alt)
qed (simp add: fee_in_input_units_def)

section \<open>The move of a square-root price\<close>

text \<open>The move of the squared price, in percent; a display figure.\<close>

definition sqrt_price_impact_pct :: "u128 \<Rightarrow> u128 \<Rightarrow> f64" where
  "sqrt_price_impact_pct sqrt_before sqrt_after =
     (let before = f64_div (f64_of_u128 sqrt_before) (Finite (2 ^ 64));
          after = f64_div (f64_of_u128 sqrt_after) (Finite (2 ^ 64))
      in if f64_less (Finite 0) before then
           f64_clamp (f64_mul (f64_div (f64_abs (f64_sub (f64_mul before before) (f64_mul after after)))
                                 (f64_mul before before)) (Finite 100)) (Finite 0) (Finite 100)
         else Finite 0)"

section \<open>Monotone pieces of a quote\<close>

text \<open>What is left after a fee grows with the amount, whatever the rate.\<close>

lemma less_fee_mono:
  assumes "a \<le> b"
  shows "saturating_sub a (fee_amount a r d) \<le> saturating_sub b (fee_amount b r d)"
proof -
  have ab: "unat a \<le> unat b" using assms by (simp add: word_le_nat_alt)
  show ?thesis
  proof (cases "0 < unat d \<and> unat r \<le> unat d")
    case True
    then have "cdiv (unat b * unat r) (unat d) \<le> cdiv (unat a * unat r) (unat d) + (unat b - unat a)"
      using ab by (intro cdiv_gap) simp_all
    with ab have "unat a - min (cdiv (unat a * unat r) (unat d)) (unat a)
        \<le> unat b - min (cdiv (unat b * unat r) (unat d)) (unat b)" by linarith
    then show ?thesis using ab by (simp add: word_le_nat_alt unat_fee_amount)
  next
    case False
    have "unat a - min (cdiv (unat a * unat r) (unat d)) (unat a) = 0" if "0 < unat d"
    proof -
      have "unat a * unat d \<le> unat a * unat r" using False that by (intro mult_le_mono2) simp
      then have "unat a * unat d \<le> cdiv (unat a * unat r) (unat d) * unat d"
        using cdiv_mult_ge [OF that, of "unat a * unat r"] by linarith
      then have "unat a \<le> cdiv (unat a * unat r) (unat d)" using that by simp
      then show ?thesis by simp
    qed
    then show ?thesis using ab by (auto simp: word_le_nat_alt unat_fee_amount)
  qed
qed

lemma constant_product_out_mono:
  assumes "a \<le> b"
  shows "constant_product_out ri ro a \<le> constant_product_out ri ro b"
proof (cases "ri = 0 \<or> ro = 0")
  case False
  then have pos: "0 < unat ri" "0 < ro" "0 < ri" by (simp_all add: unat_gt_0 word_gt_0)
  let ?out = "constant_product_out ri ro"
  have le: "unat (?out a) \<le> unat ro"
    using pos cp_div_lt [of "unat ri" "unat ro" "unat a"] by (auto simp: unat_constant_product_out)
  have ab: "unat a \<le> unat b" using assms by (simp add: word_le_nat_alt)
  have "unat ro * unat a div (unat ri + unat a) \<le> unat ro * unat b div (unat ri + unat b)"
  proof -
    define w where "w = unat ro * unat a div (unat ri + unat a)"
    have o1: "w * (unat ri + unat a) \<le> unat ro * unat a"
      unfolding w_def by (rule div_times_less_eq_dividend)
    have o2: "w \<le> unat ro"
      using pos cp_div_lt [of "unat ri" "unat ro" "unat a"] by (auto simp: w_def)
    have "w * (unat ri + unat b) = w * (unat ri + unat a) + w * (unat b - unat a)"
      using ab by (metis add.assoc distrib_left le_add_diff_inverse)
    also have "\<dots> \<le> unat ro * unat a + unat ro * (unat b - unat a)"
      using o1 o2 by (intro add_mono mult_le_mono1)
    also have "\<dots> = unat ro * unat b" using ab by (metis distrib_left le_add_diff_inverse)
    finally show ?thesis
      using pos by (simp add: less_eq_div_iff_mult_less_eq flip: w_def)
  qed
  then show ?thesis using pos by (simp add: word_le_nat_alt unat_constant_product_out)
qed (auto simp: constant_product_out_def)

text \<open>The reserves' product does not fall when the curve pays out at most its own output.\<close>

lemma constant_product_k:
  assumes "a \<le> b"
  shows "unat ri * unat ro
    \<le> (unat ri + unat b) * (unat ro - unat (constant_product_out ri ro a))"
proof (cases "unat ri = 0")
  case False
  define w where "w = unat ro * unat a div (unat ri + unat a)"
  have ab: "unat a \<le> unat b" using assms by (simp add: word_le_nat_alt)
  have o2: "w \<le> unat ro"
    using False cp_div_lt [of "unat ri" "unat ro" "unat a"] by (auto simp: w_def)
  have "w * (unat ri + unat a) \<le> unat ro * unat a"
    unfolding w_def by (rule div_times_less_eq_dividend)
  moreover have "(unat ri + unat a) * (unat ro - w) + w * (unat ri + unat a) = unat ri * unat ro + unat ro * unat a"
  proof -
    obtain z where "unat ro = w + z" using o2 le_Suc_ex by blast
    then show ?thesis by (simp add: algebra_simps)
  qed
  ultimately have "unat ri * unat ro \<le> (unat ri + unat a) * (unat ro - w)" by linarith
  also have "\<dots> \<le> (unat ri + unat b) * (unat ro - w)" using ab by (intro mult_le_mono1) simp
  finally show ?thesis using False by (simp add: unat_constant_product_out flip: w_def)
qed simp

lemma constant_product_lt: "ri \<noteq> 0 \<Longrightarrow> ro \<noteq> 0 \<Longrightarrow> constant_product_out ri ro a < ro"
  using cp_div_lt [of "unat ri" "unat ro" "unat a"]
  by (auto simp: word_less_nat_alt unat_constant_product_out unat_gt_0 unat_eq_0)

text \<open>Encoding the two amounts of a swap instruction after a discriminator.\<close>

lemma instruction_amounts:
  "length tag = n \<Longrightarrow> u64_at (tag @ to_le_bytes_u64 a @ to_le_bytes_u64 b @ rest) n = Some a"
  "length tag = n \<Longrightarrow> u64_at (tag @ to_le_bytes_u64 a @ to_le_bytes_u64 b @ rest) (n + 8) = Some b"
proof -
  assume n: "length tag = n"
  show "u64_at (tag @ to_le_bytes_u64 a @ to_le_bytes_u64 b @ rest) n = Some a"
    by (rule u64_at_read_back [OF n])
  have len: "length (tag @ to_le_bytes_u64 a) = n + 8" using n by (simp add: to_le_bytes_u64_def)
  from u64_at_read_back [OF len, of b rest]
  show "u64_at (tag @ to_le_bytes_u64 a @ to_le_bytes_u64 b @ rest) (n + 8) = Some b" by simp
qed

section \<open>A concrete account\<close>

definition sample_token_account :: account where
  "sample_token_account = \<lparr>acc_lamports = 0,
     acc_data = replicate 64 0 @ to_le_bytes_u64 5000 @ replicate 93 0, acc_owner = Pubkey [6]\<rparr>"

lemma sample_token_account_reads:
  "token_account_amount (acc_data sample_token_account) = Some 5000"
  "mint_decimals (acc_data sample_token_account) = Some 0"
  by (simp_all add: sample_token_account_def token_account_amount_def u64_at_read_back mint_decimals_def
      u8_at_def nth_append)

end
