(* ===== verification/Raydium_Cpmm.thy ===== *)
theory Raydium_Cpmm
  imports Venue_Common
begin

text \<open>
  \<^verbatim>\<open>venues/raydium_cpmm.rs\<close>: the CP-Swap pools of Raydium. The loader's batched read and the
  clock are arguments; the market is pure.
\<close>

definition SWAP_BASE_INPUT :: bytes where
  "SWAP_BASE_INPUT = [0x8f, 0xbe, 0x5a, 0xda, 0xc4, 0x1e, 0x33, 0xde]"

definition CPMM_AUTHORITY_SEED :: bytes where
  "CPMM_AUTHORITY_SEED = map (of_nat \<circ> of_char) ''vault_and_lp_mint_auth_seed''"

definition FEE_RATE_DENOMINATOR :: u64 where "FEE_RATE_DENOMINATOR = 1000000"
definition STATUS_BIT_SWAP_DISABLED :: nat where "STATUS_BIT_SWAP_DISABLED = 2"
definition CPMM_COMPUTE_UNITS :: u32 where "CPMM_COMPUTE_UNITS = 120000"

definition cpmm_program_id :: "sdk \<Rightarrow> pubkey" where
  "cpmm_program_id sdk = from_str sdk RAYDIUM_CPMM_PROGRAM_ID"

section \<open>Pool state\<close>

record cpmm_pool_state =
  cp_pool :: pubkey
  cp_amm_config :: pubkey
  cp_vault_0 :: pubkey
  cp_vault_1 :: pubkey
  cp_mint_0 :: pubkey
  cp_mint_1 :: pubkey
  cp_program_0 :: pubkey
  cp_program_1 :: pubkey
  cp_observation :: pubkey
  cp_decimals_0 :: u8
  cp_decimals_1 :: u8
  cp_status :: u8
  cp_open_time :: u64
  cp_protocol_fees_0 :: u64
  cp_protocol_fees_1 :: u64
  cp_fund_fees_0 :: u64
  cp_fund_fees_1 :: u64
  cp_creator_fees_0 :: u64
  cp_creator_fees_1 :: u64
  cp_creator_fee_enabled :: bool

definition cpmm_decode :: "pubkey \<Rightarrow> bytes \<Rightarrow> cpmm_pool_state option" where
  "cpmm_decode pool data = do {
     amm_config \<leftarrow> pubkey_at data 8;
     vault_0 \<leftarrow> pubkey_at data 72;
     vault_1 \<leftarrow> pubkey_at data 104;
     mint_0 \<leftarrow> pubkey_at data 168;
     mint_1 \<leftarrow> pubkey_at data 200;
     program_0 \<leftarrow> pubkey_at data 232;
     program_1 \<leftarrow> pubkey_at data 264;
     observation \<leftarrow> pubkey_at data 296;
     status \<leftarrow> u8_at data 329;
     decimals_0 \<leftarrow> u8_at data 331;
     decimals_1 \<leftarrow> u8_at data 332;
     protocol_fees_0 \<leftarrow> u64_at data 341;
     protocol_fees_1 \<leftarrow> u64_at data 349;
     fund_fees_0 \<leftarrow> u64_at data 357;
     fund_fees_1 \<leftarrow> u64_at data 365;
     open_time \<leftarrow> u64_at data 373;
     creator_fee_enabled \<leftarrow> u8_at data 390;
     creator_fees_0 \<leftarrow> u64_at data 397;
     creator_fees_1 \<leftarrow> u64_at data 405;
     Some \<lparr>cp_pool = pool, cp_amm_config = amm_config, cp_vault_0 = vault_0, cp_vault_1 = vault_1,
       cp_mint_0 = mint_0, cp_mint_1 = mint_1, cp_program_0 = program_0, cp_program_1 = program_1,
       cp_observation = observation, cp_decimals_0 = decimals_0, cp_decimals_1 = decimals_1,
       cp_status = status, cp_open_time = open_time,
       cp_protocol_fees_0 = protocol_fees_0, cp_protocol_fees_1 = protocol_fees_1,
       cp_fund_fees_0 = fund_fees_0, cp_fund_fees_1 = fund_fees_1,
       cp_creator_fees_0 = creator_fees_0, cp_creator_fees_1 = creator_fees_1,
       cp_creator_fee_enabled = (creator_fee_enabled \<noteq> 0)\<rparr>
   }"

definition cpmm_swap_enabled :: "cpmm_pool_state \<Rightarrow> bool" where
  "cpmm_swap_enabled state \<longleftrightarrow> cp_status state AND push_bit STATUS_BIT_SWAP_DISABLED 1 = 0"

definition cpmm_is_open :: "cpmm_pool_state \<Rightarrow> u64 \<Rightarrow> bool" where
  "cpmm_is_open state now_unix \<longleftrightarrow> cp_open_time state \<le> now_unix"

record cpmm_fee_config =
  cf_trade_fee_rate :: u64
  cf_protocol_fee_rate :: u64
  cf_fund_fee_rate :: u64
  cf_creator_fee_rate :: u64

definition cpmm_config_decode :: "bytes \<Rightarrow> cpmm_fee_config option" where
  "cpmm_config_decode data = do {
     trade_fee_rate \<leftarrow> u64_at data 12;
     protocol_fee_rate \<leftarrow> u64_at data 20;
     fund_fee_rate \<leftarrow> u64_at data 28;
     creator_fee_rate \<leftarrow> u64_at data 108;
     Some \<lparr>cf_trade_fee_rate = trade_fee_rate, cf_protocol_fee_rate = protocol_fee_rate,
       cf_fund_fee_rate = fund_fee_rate, cf_creator_fee_rate = creator_fee_rate\<rparr>
   }"

record cpmm_market =
  cm_state :: cpmm_pool_state
  cm_config :: cpmm_fee_config
  cm_vault_0_balance :: u64
  cm_vault_1_balance :: u64
  cm_transfer_fee_0 :: "transfer_fee_schedule option"
  cm_transfer_fee_1 :: "transfer_fee_schedule option"

section \<open>Loading\<close>

definition cpmm_load ::
  "sdk \<Rightarrow> u64 \<Rightarrow> account_reader \<Rightarrow> pubkey \<Rightarrow> account \<Rightarrow> cpmm_market direct_result" where
  "cpmm_load sdk now_unix read pool pool_account =
     rbind (ok_or (cpmm_decode pool (acc_data pool_account))
              (PoolUndecodable pool (''CP-Swap pool state did not match the expected layout (''
                 @ show_nat (length (acc_data pool_account)) @ '' bytes)''))) (\<lambda>state.
     if \<not> cpmm_swap_enabled state then
       Inl (PoolNotTradable pool (''status byte '' @ show_word (cp_status state)
              @ '' has swapping disabled''))
     else if \<not> cpmm_is_open state now_unix then
       Inl (PoolNotTradable pool (''pool opens at unix '' @ show_word (cp_open_time state)))
     else
       let addresses = [cp_amm_config state, cp_vault_0 state, cp_vault_1 state,
                        cp_mint_0 state, cp_mint_1 state];
           get = fetched ''account does not exist'' addresses
       in rbind (map_err (\<lambda>e. AccountUnavailable pool
                   (''CP-Swap pool accounts could not be read: '' @ e)) (read addresses)) (\<lambda>accounts.
       rbind (get accounts 0) (\<lambda>config_account.
       rbind (ok_or (cpmm_config_decode (acc_data config_account))
                (PoolUndecodable pool ''CP-Swap AmmConfig did not match the expected layout'')) (\<lambda>config.
       rbind (get accounts 1) (\<lambda>vault_0.
       rbind (ok_or (token_account_amount (acc_data vault_0))
                (PoolUndecodable pool ''token_0 vault is not a token account'')) (\<lambda>vault_0_balance.
       rbind (get accounts 2) (\<lambda>vault_1.
       rbind (ok_or (token_account_amount (acc_data vault_1))
                (PoolUndecodable pool ''token_1 vault is not a token account'')) (\<lambda>vault_1_balance.
       rbind (get accounts 3) (\<lambda>mint_0.
       rbind (get accounts 4) (\<lambda>mint_1.
       Inr \<lparr>cm_state = state, cm_config = config, cm_vault_0_balance = vault_0_balance,
            cm_vault_1_balance = vault_1_balance,
            cm_transfer_fee_0 = read_transfer_fee_schedule sdk mint_0,
            cm_transfer_fee_1 = read_transfer_fee_schedule sdk mint_1\<rparr>))))))))))"

section \<open>The market\<close>

definition cpmm_reserves :: "cpmm_market \<Rightarrow> u64 \<times> u64" where
  "cpmm_reserves m = (let s = cm_state m in
     (saturating_sub (saturating_sub (saturating_sub (cm_vault_0_balance m) (cp_protocol_fees_0 s))
        (cp_fund_fees_0 s)) (cp_creator_fees_0 s),
      saturating_sub (saturating_sub (saturating_sub (cm_vault_1_balance m) (cp_protocol_fees_1 s))
        (cp_fund_fees_1 s)) (cp_creator_fees_1 s)))"

definition cpmm_is_side_0 :: "cpmm_market \<Rightarrow> pubkey \<Rightarrow> bool option" where
  "cpmm_is_side_0 m mint = side_of (cp_mint_0 (cm_state m)) (cp_mint_1 (cm_state m)) mint"

definition cpmm_input_fee_rate :: "cpmm_market \<Rightarrow> u64" where
  "cpmm_input_fee_rate m =
     (if cp_creator_fee_enabled (cm_state m)
      then saturating_add (cf_trade_fee_rate (cm_config m)) (cf_creator_fee_rate (cm_config m))
      else cf_trade_fee_rate (cm_config m))"

definition cpmm_transfer_fee :: "cpmm_market \<Rightarrow> bool \<Rightarrow> transfer_fee_schedule option" where
  "cpmm_transfer_fee m side_0 = (if side_0 then cm_transfer_fee_0 m else cm_transfer_fee_1 m)"

definition cpmm_quote :: "cpmm_market \<Rightarrow> pubkey \<Rightarrow> u64 \<Rightarrow> venue_quote direct_result" where
  "cpmm_quote m input_mint amount_in =
     (let pool = cp_pool (cm_state m) in
      rbind (ok_or (cpmm_is_side_0 m input_mint) (PairNotInPool pool input_mint default_pubkey))
        (\<lambda>input_is_0.
      let (reserve_0, reserve_1) = cpmm_reserves m;
          (reserve_in, reserve_out) =
            (if input_is_0 then (reserve_0, reserve_1) else (reserve_1, reserve_0))
      in if reserve_in = 0 \<or> reserve_out = 0 then
           Inl (InsufficientLiquidity pool amount_in
                  ''a vault side is empty once collectable fees are excluded'')
         else let received_by_pool = net_of_fee (cpmm_transfer_fee m input_is_0) amount_in in
         if received_by_pool = 0 then
           Inl (InsufficientLiquidity pool amount_in
                  ''the input mint's transfer fee consumes the whole amount'')
         else let lp_fee = fee_amount received_by_pool (cpmm_input_fee_rate m) FEE_RATE_DENOMINATOR;
                  swappable = saturating_sub received_by_pool lp_fee;
                  gross_out = constant_product_out reserve_in reserve_out swappable;
                  expected_out = net_of_fee (cpmm_transfer_fee m (\<not> input_is_0)) gross_out
              in Inr \<lparr>vq_amount_in = amount_in, vq_expected_out = expected_out, vq_lp_fee = lp_fee,
                      vq_price_impact_pct = price_impact_pct reserve_in reserve_out amount_in expected_out\<rparr>))"

definition cpmm_swap_instruction ::
  "sdk \<Rightarrow> cpmm_market \<Rightarrow> swap_accounts \<Rightarrow> u64 \<Rightarrow> u64 \<Rightarrow> instruction direct_result" where
  "cpmm_swap_instruction sdk m acc amount_in min_out =
     (let s = cm_state m in
      rbind (swap_direction (cp_pool s) (cp_mint_0 s) (cp_mint_1 s) acc) (\<lambda>input_is_0.
      let (input_vault, output_vault, input_program, output_program) =
            (if input_is_0 then (cp_vault_0 s, cp_vault_1 s, cp_program_0 s, cp_program_1 s)
             else (cp_vault_1 s, cp_vault_0 s, cp_program_1 s, cp_program_0 s));
          authority = find_program_address sdk [CPMM_AUTHORITY_SEED] (cpmm_program_id sdk)
      in Inr \<lparr>ix_program = cpmm_program_id sdk,
              ix_accounts =
                [meta_readonly (sa_owner acc) True,
                 meta_readonly authority False,
                 meta_readonly (cp_amm_config s) False,
                 meta_new (cp_pool s) False,
                 meta_new (sa_input_token_account acc) False,
                 meta_new (sa_output_token_account acc) False,
                 meta_new input_vault False,
                 meta_new output_vault False,
                 meta_readonly input_program False,
                 meta_readonly output_program False,
                 meta_readonly (sa_input_mint acc) False,
                 meta_readonly (sa_output_mint acc) False,
                 meta_new (cp_observation s) False],
              ix_data = SWAP_BASE_INPUT @ to_le_bytes_u64 amount_in @ to_le_bytes_u64 min_out\<rparr>))"

definition cpmm_pool_market :: "sdk \<Rightarrow> cpmm_market \<Rightarrow> pool_market" where
  "cpmm_pool_market sdk m = (let s = cm_state m in
     \<lparr>pm_program = RaydiumCpmm, pm_pool = cp_pool s, pm_mints = (cp_mint_0 s, cp_mint_1 s),
      pm_token_program = (\<lambda>mint. map_option (\<lambda>side_0. if side_0 then cp_program_0 s else cp_program_1 s)
                            (cpmm_is_side_0 m mint)),
      pm_decimals = (\<lambda>mint. map_option (\<lambda>side_0. if side_0 then cp_decimals_0 s else cp_decimals_1 s)
                            (cpmm_is_side_0 m mint)),
      pm_quote = cpmm_quote m, pm_swap_instruction = cpmm_swap_instruction sdk m,
      pm_compute_units = CPMM_COMPUTE_UNITS, pm_settles_native_sol = False\<rparr>)"

section \<open>The venue keeps its contract\<close>

definition cpmm_swappable :: "cpmm_market \<Rightarrow> bool \<Rightarrow> u64 \<Rightarrow> u64" where
  "cpmm_swappable m side amount =
     (let r = net_of_fee (cpmm_transfer_fee m side) amount
      in saturating_sub r (fee_amount r (cpmm_input_fee_rate m) FEE_RATE_DENOMINATOR))"

definition cpmm_gross :: "cpmm_market \<Rightarrow> bool \<Rightarrow> u64 \<Rightarrow> u64" where
  "cpmm_gross m side amount = constant_product_out (fst (oriented side (cpmm_reserves m)))
     (snd (oriented side (cpmm_reserves m))) (cpmm_swappable m side amount)"

lemma cpmm_quote_Inr:
  assumes "cpmm_quote m mint amount = Inr q"
  obtains side where "cpmm_is_side_0 m mint = Some side"
    and "fst (oriented side (cpmm_reserves m)) \<noteq> 0" and "snd (oriented side (cpmm_reserves m)) \<noteq> 0"
    and "vq_amount_in q = amount"
    and "vq_expected_out q = net_of_fee (cpmm_transfer_fee m (\<not> side)) (cpmm_gross m side amount)"
    and "vq_lp_fee q = fee_amount (net_of_fee (cpmm_transfer_fee m side) amount)
           (cpmm_input_fee_rate m) FEE_RATE_DENOMINATOR"
proof -
  from assms obtain side where side: "cpmm_is_side_0 m mint = Some side"
    by (auto simp: cpmm_quote_def Let_def rbind_Inr_iff ok_or_Inr_iff)
  obtain r0 r1 where r: "cpmm_reserves m = (r0, r1)" by force
  show thesis
    by (rule that [OF side])
      (use assms side r in \<open>cases side; auto simp: cpmm_quote_def Let_def cpmm_gross_def cpmm_swappable_def
        split: if_splits\<close>)+
qed

lemma cpmm_quote_errs: "errs (\<lambda>e. \<not> submitted e) (cpmm_quote m mint amount)"
  unfolding cpmm_quote_def Let_def
  by (intro errs_intros) (auto split: prod.split)

text \<open>A built instruction: addressed to the venue, signed by the wallet alone, with the input
  side's vault, token program and mint in the input slots.\<close>

lemma cpmm_ix:
  assumes "cpmm_swap_instruction sdk m acc amount min_out = Inr ix"
  obtains side where "swap_direction (cp_pool (cm_state m)) (cp_mint_0 (cm_state m)) (cp_mint_1 (cm_state m)) acc
       = Inr side"
    and "ix_program ix = cpmm_program_id sdk"
    and "\<And>me. me \<in> set (ix_accounts ix) \<Longrightarrow> meta_signer me \<Longrightarrow> meta_key me = sa_owner acc"
    and "map meta_key (take 6 (drop 4 (ix_accounts ix))) =
       [sa_input_token_account acc, sa_output_token_account acc,
        if side then cp_vault_0 (cm_state m) else cp_vault_1 (cm_state m),
        if side then cp_vault_1 (cm_state m) else cp_vault_0 (cm_state m),
        if side then cp_program_0 (cm_state m) else cp_program_1 (cm_state m),
        if side then cp_program_1 (cm_state m) else cp_program_0 (cm_state m)]"
    and "ix_data ix = SWAP_BASE_INPUT @ to_le_bytes_u64 amount @ to_le_bytes_u64 min_out"
proof -
  from assms obtain side where
    side: "swap_direction (cp_pool (cm_state m)) (cp_mint_0 (cm_state m)) (cp_mint_1 (cm_state m)) acc = Inr side"
    by (auto simp: cpmm_swap_instruction_def Let_def rbind_Inr_iff)
  show thesis
    by (rule that [OF side])
      (use assms side in \<open>auto simp: cpmm_swap_instruction_def Let_def meta_new_def meta_readonly_def
        split: if_splits\<close>)
qed

lemma cpmm_ix_errs: "errs (\<lambda>e. \<not> submitted e) (cpmm_swap_instruction sdk m acc amount min_out)"
  unfolding cpmm_swap_instruction_def Let_def
  by (intro errs_intros) (simp split: prod.split)

lemma cpmm_market_simps [simp]:
  "pm_mints (cpmm_pool_market sdk m) = (cp_mint_0 (cm_state m), cp_mint_1 (cm_state m))"
  "pm_quote (cpmm_pool_market sdk m) = cpmm_quote m"
  "pm_swap_instruction (cpmm_pool_market sdk m) = cpmm_swap_instruction sdk m"
  "pm_token_program (cpmm_pool_market sdk m) mint = map_option (\<lambda>side_0. if side_0
     then cp_program_0 (cm_state m) else cp_program_1 (cm_state m)) (cpmm_is_side_0 m mint)"
  "pm_settles_native_sol (cpmm_pool_market sdk m) \<longleftrightarrow> False"
  by (simp_all add: cpmm_pool_market_def Let_def)

interpretation cpmm: fee_bounded_market "cpmm_pool_market sdk" "\<lambda>_. cpmm_program_id sdk" "\<lambda>_. True" for sdk
proof (unfold_locales, goal_cases)
  case (1 s mint amount q)
  then show ?case by (auto elim: cpmm_quote_Inr)
next
  case (2 s mint amount q)
  then show ?case
    by (auto simp: cpmm_is_side_0_def side_of_Some elim!: cpmm_quote_Inr split: if_splits)
next
  case (9 s mint amount q)
  have "fee_amount r a b \<le> x" if "r \<le> x" for r a b x :: u64
    using that fee_amount_le order_trans by blast
  with 9 show ?case by (auto simp: net_of_fee_le elim!: cpmm_quote_Inr)
next
  case (3 s mint amount e)
  then show ?case using errsD [OF cpmm_quote_errs] by simp
next
  case (4 s acc amount min_out ix)
  then show ?case by (auto simp: trades_def elim!: cpmm_ix dest!: swap_direction_Inr)
next
  case (5 s acc amount min_out ix)
  then show ?case by (auto elim: cpmm_ix)
next
  case (6 s acc amount min_out ix m)
  then show ?case by (auto elim: cpmm_ix)
next
  case (7 s acc amount min_out e)
  then show ?case using errsD [OF cpmm_ix_errs] by simp
next
  case (8 s mint)
  then show ?case by (simp add: cpmm_is_side_0_def)
qed

section \<open>Decoding\<close>

lemma cpmm_decode_total: "cpmm_decode pool data \<noteq> None \<longleftrightarrow> 413 \<le> length data"
proof
  assume "413 \<le> length data"
  then show "cpmm_decode pool data \<noteq> None"
    by (simp add: cpmm_decode_def pubkey_at_def u64_at_def u8_at_def slice_def)
next
  assume "cpmm_decode pool data \<noteq> None"
  then have "u64_at data 405 \<noteq> None" by (auto simp: cpmm_decode_def bind_eq_None_conv)
  then show "413 \<le> length data" by (auto simp: u64_at_None_iff)
qed

section \<open>A concrete pool\<close>

definition sample_cpmm :: cpmm_market where
  "sample_cpmm = \<lparr>
     cm_state = \<lparr>cp_pool = Pubkey [3], cp_amm_config = Pubkey [4], cp_vault_0 = Pubkey [11],
       cp_vault_1 = Pubkey [12], cp_mint_0 = Pubkey [1], cp_mint_1 = Pubkey [2],
       cp_program_0 = Pubkey [6], cp_program_1 = Pubkey [22], cp_observation = Pubkey [5],
       cp_decimals_0 = 9, cp_decimals_1 = 6, cp_status = 0, cp_open_time = 0,
       cp_protocol_fees_0 = 0, cp_protocol_fees_1 = 0, cp_fund_fees_0 = 0, cp_fund_fees_1 = 0,
       cp_creator_fees_0 = 0, cp_creator_fees_1 = 0, cp_creator_fee_enabled = False\<rparr>,
     cm_config = \<lparr>cf_trade_fee_rate = 2500, cf_protocol_fee_rate = 0, cf_fund_fee_rate = 0,
       cf_creator_fee_rate = 10000\<rparr>,
     cm_vault_0_balance = 1000000000, cm_vault_1_balance = 5000000000,
     cm_transfer_fee_0 = None, cm_transfer_fee_1 = Some \<lparr>basis_points = 100, maximum_fee = 5000\<rparr>\<rparr>"

definition creator_cpmm :: cpmm_market where
  "creator_cpmm = sample_cpmm\<lparr>cm_state := (cm_state sample_cpmm)\<lparr>cp_creator_fee_enabled := True\<rparr>,
     cm_vault_1_balance := 1000000000, cm_transfer_fee_1 := None\<rparr>"

lemma sample_cpmm_facts:
  "cpmm_is_side_0 sample_cpmm (Pubkey [1]) = Some True"
  "cpmm_reserves sample_cpmm = (1000000000, 5000000000)"
  "oriented True (cpmm_reserves sample_cpmm) = (1000000000, 5000000000)"
  "cpmm_transfer_fee sample_cpmm True = None"
  "net_of_fee None n = n"
  "cpmm_transfer_fee sample_cpmm side = Some s \<Longrightarrow> basis_points s \<le> 10000"
  by (auto simp: sample_cpmm_def cpmm_is_side_0_def side_of_def cpmm_reserves_def oriented_def
      cpmm_transfer_fee_def net_of_fee_def saturating_sub_def Let_def split: if_splits)

lemma sample_cpmm_quote: "n \<noteq> 0 \<Longrightarrow> is_ok (cpmm_quote sample_cpmm (Pubkey [1]) n)"
  by (simp add: cpmm_quote_def sample_cpmm_facts Let_def)

section \<open>Properties\<close>

text \<open>A CP-Swap quote follows the pool's curve. The product of the swappable reserves never
  falls when the pool receives what survives the input mint's transfer fee and pays the quoted
  output before the output mint's, and the pool's fee and the output never exceed what there is.\<close>

theorem cpmm_quote_keeps_product:
  assumes "cpmm_quote m mint amount = Inr q" and "cpmm_is_side_0 m mint = Some side"
    and "(reserve_in, reserve_out) = oriented side (cpmm_reserves m)"
  shows "\<exists>gross. vq_expected_out q = net_of_fee (cpmm_transfer_fee m (\<not> side)) gross
     \<and> gross < reserve_out \<and> vq_lp_fee q \<le> amount
     \<and> unat reserve_in * unat reserve_out
         \<le> (unat reserve_in + unat (net_of_fee (cpmm_transfer_fee m side) amount))
           * (unat reserve_out - unat gross)"
proof -
  have res: "reserve_in = fst (oriented side (cpmm_reserves m))"
    "reserve_out = snd (oriented side (cpmm_reserves m))"
    using assms(3) by (metis fst_conv snd_conv)+
  have nz: "reserve_in \<noteq> 0" "reserve_out \<noteq> 0"
    and out: "vq_expected_out q = net_of_fee (cpmm_transfer_fee m (\<not> side)) (cpmm_gross m side amount)"
    using assms(1,2) unfolding res by (auto elim!: cpmm_quote_Inr)
  have gross: "cpmm_gross m side amount
      = constant_product_out reserve_in reserve_out (cpmm_swappable m side amount)"
    by (simp only: cpmm_gross_def res)
  have "cpmm_gross m side amount < reserve_out"
    unfolding gross by (rule constant_product_lt [OF nz])
  moreover have "cpmm_swappable m side amount \<le> net_of_fee (cpmm_transfer_fee m side) amount"
    by (simp add: cpmm_swappable_def Let_def saturating_sub_le)
  moreover have "vq_lp_fee q \<le> amount"
    using cpmm.quote_fee_le [OF TrueI, of sdk m mint amount q] assms(1) by simp
  ultimately show ?thesis using out constant_product_k gross by metis
qed

theorem cpmm_quote_keeps_product_witness:
  "\<exists>q gross. cpmm_quote sample_cpmm (Pubkey [1]) 1000000 = Inr q
     \<and> vq_expected_out q = net_of_fee (cpmm_transfer_fee sample_cpmm False) gross
     \<and> unat (1000000000 :: u64) * unat (5000000000 :: u64)
         \<le> (1000000000 + 1000000) * (5000000000 - unat gross)"
proof -
  obtain q where q: "cpmm_quote sample_cpmm (Pubkey [1]) 1000000 = Inr q"
    using sample_cpmm_quote [of 1000000] by (auto simp: is_ok_iff)
  from cpmm_quote_keeps_product [OF q, of True 1000000000 5000000000] show ?thesis
    using q by (auto simp: sample_cpmm_facts)
qed

text \<open>A larger CP-Swap order never quotes a smaller output, in either direction, through both
  transfer fees, for every schedule the token program accepts.\<close>

theorem cpmm_quote_monotone:
  assumes "cpmm_quote m mint a = Inr q" and "cpmm_quote m mint b = Inr q'" and "a \<le> b"
    and "\<And>side s. cpmm_transfer_fee m side = Some s \<Longrightarrow> basis_points s \<le> 10000"
  shows "vq_expected_out q \<le> vq_expected_out q'"
proof -
  obtain side where side: "cpmm_is_side_0 m mint = Some side"
    and q: "vq_expected_out q = net_of_fee (cpmm_transfer_fee m (\<not> side)) (cpmm_gross m side a)"
    using assms(1) by (rule cpmm_quote_Inr)
  have q': "vq_expected_out q' = net_of_fee (cpmm_transfer_fee m (\<not> side)) (cpmm_gross m side b)"
    using assms(2) side by (auto elim!: cpmm_quote_Inr)
  have mono: "net_of_fee (cpmm_transfer_fee m s) x \<le> net_of_fee (cpmm_transfer_fee m s) y"
    if "x \<le> y" for s x y
    using that assms(4) by (rule net_of_fee_mono)
  have "cpmm_swappable m side a \<le> cpmm_swappable m side b"
    unfolding cpmm_swappable_def Let_def by (intro less_fee_mono mono assms(3))
  then show ?thesis
    unfolding q q' cpmm_gross_def by (intro mono constant_product_out_mono)
qed

theorem cpmm_quote_monotone_witness:
  "\<exists>q q'. cpmm_quote sample_cpmm (Pubkey [1]) 1000000 = Inr q
     \<and> cpmm_quote sample_cpmm (Pubkey [1]) 3000000 = Inr q'
     \<and> vq_expected_out q \<le> vq_expected_out q'"
proof -
  obtain q q' where q: "cpmm_quote sample_cpmm (Pubkey [1]) 1000000 = Inr q"
    and q': "cpmm_quote sample_cpmm (Pubkey [1]) 3000000 = Inr q'"
    using sample_cpmm_quote [of 1000000] sample_cpmm_quote [of 3000000] by (auto simp: is_ok_iff)
  from cpmm_quote_monotone [OF q q'] q q' show ?thesis by (simp add: sample_cpmm_facts)
qed

text \<open>The CP-Swap instruction is oriented by the input mint. Whichever side of the pool the
  input mint is, the input slots carry that side's vault and token program and the output slots
  the other side's, and the wire data carries the two amounts it was built with.\<close>

theorem cpmm_instruction_oriented:
  assumes "cpmm_swap_instruction sdk m acc amount min_out = Inr ix"
    and "cp_mint_0 (cm_state m) \<noteq> cp_mint_1 (cm_state m)"
  shows "map meta_key (take 6 (drop 4 (ix_accounts ix))) =
      (if sa_input_mint acc = cp_mint_0 (cm_state m)
       then [sa_input_token_account acc, sa_output_token_account acc,
             cp_vault_0 (cm_state m), cp_vault_1 (cm_state m),
             cp_program_0 (cm_state m), cp_program_1 (cm_state m)]
       else [sa_input_token_account acc, sa_output_token_account acc,
             cp_vault_1 (cm_state m), cp_vault_0 (cm_state m),
             cp_program_1 (cm_state m), cp_program_0 (cm_state m)])
     \<and> u64_at (ix_data ix) 8 = Some amount \<and> u64_at (ix_data ix) 16 = Some min_out
     \<and> trades (cpmm_pool_market sdk m) (sa_input_mint acc) (sa_output_mint acc)"
proof -
  from assms(1) obtain side where
    side: "swap_direction (cp_pool (cm_state m)) (cp_mint_0 (cm_state m)) (cp_mint_1 (cm_state m)) acc = Inr side"
    and accs: "map meta_key (take 6 (drop 4 (ix_accounts ix))) =
       [sa_input_token_account acc, sa_output_token_account acc,
        if side then cp_vault_0 (cm_state m) else cp_vault_1 (cm_state m),
        if side then cp_vault_1 (cm_state m) else cp_vault_0 (cm_state m),
        if side then cp_program_0 (cm_state m) else cp_program_1 (cm_state m),
        if side then cp_program_1 (cm_state m) else cp_program_0 (cm_state m)]"
    and data: "ix_data ix = SWAP_BASE_INPUT @ to_le_bytes_u64 amount @ to_le_bytes_u64 min_out"
    by (rule cpmm_ix)
  have "side \<longleftrightarrow> sa_input_mint acc = cp_mint_0 (cm_state m)"
    using side assms(2) by (auto simp: swap_direction_iff split: if_splits)
  moreover have "u64_at (ix_data ix) 8 = Some amount" "u64_at (ix_data ix) 16 = Some min_out"
    using instruction_amounts [of SWAP_BASE_INPUT 8 amount min_out "[]"]
    by (simp_all add: data SWAP_BASE_INPUT_def)
  moreover have "trades (cpmm_pool_market sdk m) (sa_input_mint acc) (sa_output_mint acc)"
    using cpmm.ix_pair [OF TrueI, of sdk m acc amount min_out ix] assms(1) by simp
  ultimately show ?thesis using accs by auto
qed

theorem cpmm_instruction_oriented_witness:
  "\<exists>ix. cpmm_swap_instruction sample_sdk sample_cpmm
      \<lparr>sa_owner = Pubkey [9], sa_input_mint = Pubkey [2], sa_output_mint = Pubkey [1],
       sa_input_token_account = Pubkey [7], sa_output_token_account = Pubkey [8]\<rparr> 500 400 = Inr ix
     \<and> map meta_key (take 6 (drop 4 (ix_accounts ix))) =
        [Pubkey [7], Pubkey [8], Pubkey [12], Pubkey [11], Pubkey [22], Pubkey [6]]
     \<and> u64_at (ix_data ix) 8 = Some 500"
proof -
  let ?acc = "\<lparr>sa_owner = Pubkey [9], sa_input_mint = Pubkey [2], sa_output_mint = Pubkey [1],
       sa_input_token_account = Pubkey [7], sa_output_token_account = Pubkey [8]\<rparr>"
  have "is_ok (cpmm_swap_instruction sample_sdk sample_cpmm ?acc 500 400)"
    by (simp add: cpmm_swap_instruction_def swap_direction_def ok_side_def side_of_def
        sample_cpmm_def Let_def)
  then obtain ix where ix: "cpmm_swap_instruction sample_sdk sample_cpmm ?acc 500 400 = Inr ix"
    by (auto simp: is_ok_iff)
  from cpmm_instruction_oriented [OF ix] ix show ?thesis by (simp add: sample_cpmm_def)
qed

text \<open>Counting the creator fee on the input can over-state the output. On a pool whose creator
  fee is taken from the output instead, the quote of this order is above what taking the trade fee
  from the input and the creator fee from the output leaves.\<close>

theorem cpmm_creator_fee_overstates:
  "(case cpmm_quote creator_cpmm (Pubkey [1]) 1000000000 of Inr q \<Rightarrow> unat (vq_expected_out q) | Inl e \<Rightarrow> 0)
     = 496855345
   \<and> (let out = constant_product_out 1000000000 1000000000 (1000000000 - fee_amount 1000000000 2500 1000000)
      in unat (out - fee_amount out 10000 1000000)) = 494380474"
proof -
  have "cpmm_quote creator_cpmm (Pubkey [1]) 1000000000 = Inr \<lparr>vq_amount_in = 1000000000,
      vq_expected_out = 496855345, vq_lp_fee = 12500000,
      vq_price_impact_pct = price_impact_pct 1000000000 1000000000 1000000000 496855345\<rparr>"
    by (simp add: cpmm_quote_def creator_cpmm_def sample_cpmm_def cpmm_is_side_0_def side_of_def
        cpmm_reserves_def cpmm_transfer_fee_def net_of_fee_def cpmm_input_fee_rate_def
        saturating_sub_def saturating_add_def fee_amount_def ceil_div_def div_ceil_def
        constant_product_out_def FEE_RATE_DENOMINATOR_def Let_def)
  moreover have "constant_product_out 1000000000 1000000000 (1000000000 - fee_amount 1000000000 2500 1000000)
      = 499374217"
    by (simp add: fee_amount_def ceil_div_def div_ceil_def constant_product_out_def saturating_sub_def Let_def)
  ultimately show ?thesis
    by (simp add: fee_amount_def ceil_div_def div_ceil_def Let_def)
qed

end
