(* ===== verification/Raydium_Amm_V4.thy ===== *)
theory Raydium_Amm_V4
  imports Venue_Common
begin

text \<open>
  \<^verbatim>\<open>venues/raydium_amm_v4.rs\<close>: the original constant-product pools of Raydium, with their
  one-byte instruction tag and their vaults passed in the pool's own order.
\<close>

definition SWAP_BASE_IN_TAG :: u8 where "SWAP_BASE_IN_TAG = 9"

definition AMM_AUTHORITY_SEED :: bytes where
  "AMM_AUTHORITY_SEED = [97, 109, 109, 32, 97, 117, 116, 104, 111, 114, 105, 116, 121]"

definition SWAPPABLE_STATUSES :: "u64 list" where "SWAPPABLE_STATUSES = [1, 6, 7]"

definition AMM_V4_COMPUTE_UNITS :: u32 where "AMM_V4_COMPUTE_UNITS = 100000"

definition amm_v4_program_id :: "sdk \<Rightarrow> pubkey" where
  "amm_v4_program_id sdk = from_str sdk RAYDIUM_LEGACY_AMM_PROGRAM_ID"

section \<open>Pool state\<close>

record amm_v4_pool_state =
  av_pool :: pubkey
  av_status :: u64
  av_coin_decimals :: u8
  av_pc_decimals :: u8
  av_swap_fee_numerator :: u64
  av_swap_fee_denominator :: u64
  av_need_take_pnl_coin :: u64
  av_need_take_pnl_pc :: u64
  av_coin_vault :: pubkey
  av_pc_vault :: pubkey
  av_coin_mint :: pubkey
  av_pc_mint :: pubkey
  av_open_orders :: pubkey
  av_market :: pubkey
  av_market_program :: pubkey
  av_target_orders :: pubkey

definition amm_v4_decode :: "pubkey \<Rightarrow> bytes \<Rightarrow> amm_v4_pool_state option" where
  "amm_v4_decode pool data = do {
     status \<leftarrow> u64_at data 0;
     coin_decimals \<leftarrow> u64_at data 32;
     pc_decimals \<leftarrow> u64_at data 40;
     swap_fee_numerator \<leftarrow> u64_at data 176;
     swap_fee_denominator \<leftarrow> u64_at data 184;
     need_take_pnl_coin \<leftarrow> u64_at data 192;
     need_take_pnl_pc \<leftarrow> u64_at data 200;
     coin_vault \<leftarrow> pubkey_at data 336;
     pc_vault \<leftarrow> pubkey_at data 368;
     coin_mint \<leftarrow> pubkey_at data 400;
     pc_mint \<leftarrow> pubkey_at data 432;
     open_orders \<leftarrow> pubkey_at data 496;
     market \<leftarrow> pubkey_at data 528;
     market_program \<leftarrow> pubkey_at data 560;
     target_orders \<leftarrow> pubkey_at data 592;
     Some \<lparr>av_pool = pool, av_status = status,
       av_coin_decimals = ucast (min coin_decimals 255), av_pc_decimals = ucast (min pc_decimals 255),
       av_swap_fee_numerator = swap_fee_numerator, av_swap_fee_denominator = swap_fee_denominator,
       av_need_take_pnl_coin = need_take_pnl_coin, av_need_take_pnl_pc = need_take_pnl_pc,
       av_coin_vault = coin_vault, av_pc_vault = pc_vault, av_coin_mint = coin_mint, av_pc_mint = pc_mint,
       av_open_orders = open_orders, av_market = market, av_market_program = market_program,
       av_target_orders = target_orders\<rparr>
   }"

definition amm_v4_swap_enabled :: "amm_v4_pool_state \<Rightarrow> bool" where
  "amm_v4_swap_enabled state \<longleftrightarrow> av_status state \<in> set SWAPPABLE_STATUSES"

record amm_v4_market =
  am_state :: amm_v4_pool_state
  am_coin_balance :: u64
  am_pc_balance :: u64

section \<open>Loading\<close>

definition amm_v4_balance ::
  "pubkey \<Rightarrow> pubkey list \<Rightarrow> account option list \<Rightarrow> nat \<Rightarrow> u64 direct_result" where
  "amm_v4_balance pool addresses accounts i =
     rbind (fetched ''vault does not exist'' addresses accounts i) (\<lambda>acc.
       ok_or (token_account_amount (acc_data acc)) (PoolUndecodable pool ''vault is not a token account''))"

definition amm_v4_load :: "account_reader \<Rightarrow> pubkey \<Rightarrow> account \<Rightarrow> amm_v4_market direct_result" where
  "amm_v4_load read pool pool_account =
     rbind (ok_or (amm_v4_decode pool (acc_data pool_account))
              (PoolUndecodable pool (''AMM v4 pool state did not match the expected layout (''
                 @ show_nat (length (acc_data pool_account)) @ '' bytes)''))) (\<lambda>state.
     if \<not> amm_v4_swap_enabled state then
       Inl (PoolNotTradable pool (''status '' @ show_word (av_status state) @ '' does not permit swapping''))
     else
       let addresses = [av_coin_vault state, av_pc_vault state]
       in rbind (map_err (\<lambda>e. AccountUnavailable pool (''AMM v4 vaults could not be read: '' @ e))
                   (read addresses)) (\<lambda>accounts.
       rbind (amm_v4_balance pool addresses accounts 0) (\<lambda>coin_balance.
       rbind (amm_v4_balance pool addresses accounts 1) (\<lambda>pc_balance.
       Inr \<lparr>am_state = state, am_coin_balance = coin_balance, am_pc_balance = pc_balance\<rparr>))))"

section \<open>The market\<close>

definition amm_v4_reserves :: "amm_v4_market \<Rightarrow> u64 \<times> u64" where
  "amm_v4_reserves m =
     (saturating_sub (am_coin_balance m) (av_need_take_pnl_coin (am_state m)),
      saturating_sub (am_pc_balance m) (av_need_take_pnl_pc (am_state m)))"

definition amm_v4_is_coin :: "amm_v4_market \<Rightarrow> pubkey \<Rightarrow> bool option" where
  "amm_v4_is_coin m mint = side_of (av_coin_mint (am_state m)) (av_pc_mint (am_state m)) mint"

definition amm_v4_quote :: "amm_v4_market \<Rightarrow> pubkey \<Rightarrow> u64 \<Rightarrow> venue_quote direct_result" where
  "amm_v4_quote m input_mint amount_in =
     (let pool = av_pool (am_state m) in
      rbind (ok_or (amm_v4_is_coin m input_mint) (PairNotInPool pool input_mint default_pubkey))
        (\<lambda>input_is_coin.
      let (coin_reserve, pc_reserve) = amm_v4_reserves m;
          (reserve_in, reserve_out) =
            (if input_is_coin then (coin_reserve, pc_reserve) else (pc_reserve, coin_reserve))
      in if reserve_in = 0 \<or> reserve_out = 0 then
           Inl (InsufficientLiquidity pool amount_in
                  ''a vault side is empty once earmarked profit is excluded'')
         else let lp_fee = fee_amount amount_in (av_swap_fee_numerator (am_state m))
                             (av_swap_fee_denominator (am_state m));
                  swappable = saturating_sub amount_in lp_fee;
                  expected_out = constant_product_out reserve_in reserve_out swappable
              in Inr \<lparr>vq_amount_in = amount_in, vq_expected_out = expected_out, vq_lp_fee = lp_fee,
                      vq_price_impact_pct = price_impact_pct reserve_in reserve_out amount_in expected_out\<rparr>))"

definition amm_v4_swap_instruction ::
  "sdk \<Rightarrow> amm_v4_market \<Rightarrow> swap_accounts \<Rightarrow> u64 \<Rightarrow> u64 \<Rightarrow> instruction direct_result" where
  "amm_v4_swap_instruction sdk m acc amount_in min_out =
     (let s = am_state m in
      rbind (swap_direction (av_pool s) (av_coin_mint s) (av_pc_mint s) acc) (\<lambda>input_is_coin.
      let authority = find_program_address sdk [AMM_AUTHORITY_SEED] (amm_v4_program_id sdk)
      in Inr \<lparr>ix_program = amm_v4_program_id sdk,
              ix_accounts =
                [meta_readonly (spl_token_id sdk) False,
                 meta_new (av_pool s) False,
                 meta_readonly authority False,
                 meta_new (av_pool s) False,
                 meta_new (av_coin_vault s) False,
                 meta_new (av_pc_vault s) False]
                @ replicate 8 (meta_new (av_pool s) False)
                @ [meta_new (sa_input_token_account acc) False,
                   meta_new (sa_output_token_account acc) False,
                   meta_readonly (sa_owner acc) True],
              ix_data = SWAP_BASE_IN_TAG # to_le_bytes_u64 amount_in @ to_le_bytes_u64 min_out\<rparr>))"

definition amm_v4_pool_market :: "sdk \<Rightarrow> amm_v4_market \<Rightarrow> pool_market" where
  "amm_v4_pool_market sdk m = (let s = am_state m in
     \<lparr>pm_program = RaydiumLegacyAmm, pm_pool = av_pool s, pm_mints = (av_coin_mint s, av_pc_mint s),
      pm_token_program = (\<lambda>mint. map_option (\<lambda>_. spl_token_id sdk) (amm_v4_is_coin m mint)),
      pm_decimals = (\<lambda>mint. map_option (\<lambda>coin. if coin then av_coin_decimals s else av_pc_decimals s)
                            (amm_v4_is_coin m mint)),
      pm_quote = amm_v4_quote m, pm_swap_instruction = amm_v4_swap_instruction sdk m,
      pm_compute_units = AMM_V4_COMPUTE_UNITS, pm_settles_native_sol = False\<rparr>)"

section \<open>The venue keeps its contract\<close>

definition amm_v4_swappable :: "amm_v4_market \<Rightarrow> u64 \<Rightarrow> u64" where
  "amm_v4_swappable m amount = saturating_sub amount (fee_amount amount
     (av_swap_fee_numerator (am_state m)) (av_swap_fee_denominator (am_state m)))"

lemma amm_v4_quote_Inr:
  assumes "amm_v4_quote m mint amount = Inr q"
  obtains side where "amm_v4_is_coin m mint = Some side"
    and "fst (oriented side (amm_v4_reserves m)) \<noteq> 0" and "snd (oriented side (amm_v4_reserves m)) \<noteq> 0"
    and "vq_amount_in q = amount"
    and "vq_expected_out q = constant_product_out (fst (oriented side (amm_v4_reserves m)))
           (snd (oriented side (amm_v4_reserves m))) (amm_v4_swappable m amount)"
    and "vq_lp_fee q = fee_amount amount (av_swap_fee_numerator (am_state m))
           (av_swap_fee_denominator (am_state m))"
proof -
  from assms obtain side where side: "amm_v4_is_coin m mint = Some side"
    by (auto simp: amm_v4_quote_def Let_def rbind_Inr_iff ok_or_Inr_iff)
  obtain r0 r1 where r: "amm_v4_reserves m = (r0, r1)" by force
  show thesis
    by (rule that [OF side])
      (use assms side r in \<open>cases side; auto simp: amm_v4_quote_def amm_v4_swappable_def Let_def
        split: if_splits\<close>)+
qed

lemma amm_v4_quote_errs: "errs (\<lambda>e. \<not> submitted e) (amm_v4_quote m mint amount)"
  unfolding amm_v4_quote_def Let_def
  by (intro errs_intros) (auto split: prod.split)

lemma amm_v4_ix:
  assumes "amm_v4_swap_instruction sdk m acc amount min_out = Inr ix"
  obtains side where "swap_direction (av_pool (am_state m)) (av_coin_mint (am_state m))
         (av_pc_mint (am_state m)) acc = Inr side"
    and "ix_program ix = amm_v4_program_id sdk"
    and "\<And>me. me \<in> set (ix_accounts ix) \<Longrightarrow> meta_signer me \<Longrightarrow> meta_key me = sa_owner acc"
    and "length (ix_accounts ix) = 17"
    and "map meta_key (take 2 (drop 4 (ix_accounts ix))) = [av_coin_vault (am_state m), av_pc_vault (am_state m)]"
    and "map meta_key (drop 14 (ix_accounts ix))
       = [sa_input_token_account acc, sa_output_token_account acc, sa_owner acc]"
    and "ix_data ix = [SWAP_BASE_IN_TAG] @ to_le_bytes_u64 amount @ to_le_bytes_u64 min_out"
proof -
  from assms obtain side where
    side: "swap_direction (av_pool (am_state m)) (av_coin_mint (am_state m)) (av_pc_mint (am_state m)) acc = Inr side"
    by (auto simp: amm_v4_swap_instruction_def Let_def rbind_Inr_iff)
  show thesis
    by (rule that [OF side])
      (use assms side in \<open>auto simp: amm_v4_swap_instruction_def Let_def meta_new_def meta_readonly_def
        numeral_eq_Suc split: if_splits\<close>)
qed

lemma amm_v4_ix_errs: "errs (\<lambda>e. \<not> submitted e) (amm_v4_swap_instruction sdk m acc amount min_out)"
  unfolding amm_v4_swap_instruction_def Let_def
  by (intro errs_intros) simp

lemma amm_v4_market_simps [simp]:
  "pm_mints (amm_v4_pool_market sdk m) = (av_coin_mint (am_state m), av_pc_mint (am_state m))"
  "pm_quote (amm_v4_pool_market sdk m) = amm_v4_quote m"
  "pm_swap_instruction (amm_v4_pool_market sdk m) = amm_v4_swap_instruction sdk m"
  "pm_token_program (amm_v4_pool_market sdk m) mint
     = map_option (\<lambda>_. spl_token_id sdk) (amm_v4_is_coin m mint)"
  by (simp_all add: amm_v4_pool_market_def Let_def)

interpretation amm_v4: fee_bounded_market "amm_v4_pool_market sdk" "\<lambda>_. amm_v4_program_id sdk" "\<lambda>_. True" for sdk
proof (unfold_locales, goal_cases)
  case (1 s mint amount q)
  then show ?case by (auto elim: amm_v4_quote_Inr)
next
  case (2 s mint amount q)
  then show ?case
    by (auto simp: amm_v4_is_coin_def side_of_Some elim!: amm_v4_quote_Inr split: if_splits)
next
  case (9 s mint amount q)
  then show ?case by (auto simp: fee_amount_le elim!: amm_v4_quote_Inr)
next
  case (3 s mint amount e)
  then show ?case using errsD [OF amm_v4_quote_errs] by simp
next
  case (4 s acc amount min_out ix)
  then show ?case by (auto simp: trades_def elim!: amm_v4_ix dest!: swap_direction_Inr)
next
  case (5 s acc amount min_out ix)
  then show ?case by (auto elim: amm_v4_ix)
next
  case (6 s acc amount min_out ix m)
  then show ?case by (auto elim: amm_v4_ix)
next
  case (7 s acc amount min_out e)
  then show ?case using errsD [OF amm_v4_ix_errs] by simp
next
  case (8 s mint)
  then show ?case by (simp add: amm_v4_is_coin_def)
qed

section \<open>A concrete pool\<close>

definition sample_amm_v4 :: amm_v4_market where
  "sample_amm_v4 = \<lparr>
     am_state = \<lparr>av_pool = Pubkey [3], av_status = 6, av_coin_decimals = 9, av_pc_decimals = 6,
       av_swap_fee_numerator = 25, av_swap_fee_denominator = 10000, av_need_take_pnl_coin = 0,
       av_need_take_pnl_pc = 0, av_coin_vault = Pubkey [11], av_pc_vault = Pubkey [12],
       av_coin_mint = Pubkey [1], av_pc_mint = Pubkey [2], av_open_orders = Pubkey [13],
       av_market = Pubkey [14], av_market_program = Pubkey [15], av_target_orders = Pubkey [16]\<rparr>,
     am_coin_balance = 1000000000, am_pc_balance = 5000000000\<rparr>"

lemma sample_amm_v4_quote: "is_ok (amm_v4_quote sample_amm_v4 (Pubkey [1]) n)"
  by (simp add: amm_v4_quote_def sample_amm_v4_def amm_v4_is_coin_def side_of_def amm_v4_reserves_def
      saturating_sub_def Let_def)

section \<open>Properties\<close>

text \<open>An AMM v4 quote is monotone in the order size, never lowers the product of the swappable
  reserves and stays below the reserve it is paid from.\<close>

theorem amm_v4_quote_sound:
  assumes "amm_v4_quote m mint a = Inr q" and "amm_v4_quote m mint b = Inr q'" and "a \<le> b"
    and "amm_v4_is_coin m mint = Some side" and "(reserve_in, reserve_out) = oriented side (amm_v4_reserves m)"
  shows "vq_expected_out q \<le> vq_expected_out q' \<and> vq_expected_out q' < reserve_out
     \<and> unat reserve_in * unat reserve_out
         \<le> (unat reserve_in + unat b) * (unat reserve_out - unat (vq_expected_out q'))"
proof -
  have res: "reserve_in = fst (oriented side (amm_v4_reserves m))"
    "reserve_out = snd (oriented side (amm_v4_reserves m))"
    using assms(5) by (metis fst_conv snd_conv)+
  have q: "vq_expected_out q = constant_product_out reserve_in reserve_out (amm_v4_swappable m a)"
    unfolding res using assms(1,4) by (auto elim!: amm_v4_quote_Inr)
  have q': "vq_expected_out q' = constant_product_out reserve_in reserve_out (amm_v4_swappable m b)"
    and nz: "reserve_in \<noteq> 0" "reserve_out \<noteq> 0"
    unfolding res using assms(2,4) by (auto elim!: amm_v4_quote_Inr)
  have "amm_v4_swappable m a \<le> amm_v4_swappable m b"
    unfolding amm_v4_swappable_def by (rule less_fee_mono [OF assms(3)])
  moreover have "amm_v4_swappable m b \<le> b" by (simp add: amm_v4_swappable_def saturating_sub_le)
  ultimately show ?thesis
    unfolding q q'
    by (intro conjI constant_product_out_mono constant_product_lt constant_product_k nz)
qed

theorem amm_v4_quote_sound_witness:
  "\<exists>q q'. amm_v4_quote sample_amm_v4 (Pubkey [1]) 1000 = Inr q
     \<and> amm_v4_quote sample_amm_v4 (Pubkey [1]) 2000 = Inr q'
     \<and> vq_expected_out q \<le> vq_expected_out q' \<and> vq_expected_out q' < 5000000000"
proof -
  obtain q q' where q: "amm_v4_quote sample_amm_v4 (Pubkey [1]) 1000 = Inr q"
    and q': "amm_v4_quote sample_amm_v4 (Pubkey [1]) 2000 = Inr q'"
    using sample_amm_v4_quote [of 1000] sample_amm_v4_quote [of 2000] by (auto simp: is_ok_iff)
  from amm_v4_quote_sound [OF q q', of True 1000000000 5000000000] q q' show ?thesis
    by (simp add: sample_amm_v4_def amm_v4_is_coin_def side_of_def amm_v4_reserves_def saturating_sub_def)
qed

end
