(* ===== verification/Fluxbeam.thy ===== *)
theory Fluxbeam
  imports Venue_Common
begin

text \<open>
  \<^verbatim>\<open>venues/fluxbeam.rs\<close>: the FluxBeam fork of the reference token-swap programme. Its curve
  computes what the pool must keep, rounded up; the equivalence lemma shows that this is the
  constant-product output of the other venues.
\<close>

definition SWAP_TAG :: u8 where "SWAP_TAG = 1"
definition CURVE_TYPE_CONSTANT_PRODUCT :: u8 where "CURVE_TYPE_CONSTANT_PRODUCT = 0"
definition FLUXBEAM_COMPUTE_UNITS :: u32 where "FLUXBEAM_COMPUTE_UNITS = 160000"

definition fluxbeam_program_id :: "sdk \<Rightarrow> pubkey" where
  "fluxbeam_program_id sdk = from_str sdk FLUXBEAM_AMM_PROGRAM_ID"

section \<open>Pool state\<close>

record fluxbeam_pool_state =
  fb_pool :: pubkey
  fb_is_initialized :: bool
  fb_vault_a :: pubkey
  fb_vault_b :: pubkey
  fb_pool_mint :: pubkey
  fb_mint_a :: pubkey
  fb_mint_b :: pubkey
  fb_fee_account :: pubkey
  fb_trade_fee_numerator :: u64
  fb_trade_fee_denominator :: u64
  fb_owner_trade_fee_numerator :: u64
  fb_owner_trade_fee_denominator :: u64
  fb_curve_type :: u8

definition fluxbeam_decode :: "pubkey \<Rightarrow> bytes \<Rightarrow> fluxbeam_pool_state option" where
  "fluxbeam_decode pool data =
     (if length data \<noteq> 324 then None
      else do {
        is_initialized \<leftarrow> u8_at data 1;
        vault_a \<leftarrow> pubkey_at data 35;
        vault_b \<leftarrow> pubkey_at data 67;
        pool_mint \<leftarrow> pubkey_at data 99;
        mint_a \<leftarrow> pubkey_at data 131;
        mint_b \<leftarrow> pubkey_at data 163;
        fee_account \<leftarrow> pubkey_at data 195;
        trade_fee_numerator \<leftarrow> u64_at data 227;
        trade_fee_denominator \<leftarrow> u64_at data 235;
        owner_trade_fee_numerator \<leftarrow> u64_at data 243;
        owner_trade_fee_denominator \<leftarrow> u64_at data 251;
        curve_type \<leftarrow> u8_at data 291;
        Some \<lparr>fb_pool = pool, fb_is_initialized = (is_initialized \<noteq> 0), fb_vault_a = vault_a,
          fb_vault_b = vault_b, fb_pool_mint = pool_mint, fb_mint_a = mint_a, fb_mint_b = mint_b,
          fb_fee_account = fee_account, fb_trade_fee_numerator = trade_fee_numerator,
          fb_trade_fee_denominator = trade_fee_denominator,
          fb_owner_trade_fee_numerator = owner_trade_fee_numerator,
          fb_owner_trade_fee_denominator = owner_trade_fee_denominator, fb_curve_type = curve_type\<rparr>
      })"

record fluxbeam_market =
  fm_state :: fluxbeam_pool_state
  fm_vault_a_balance :: u64
  fm_vault_b_balance :: u64
  fm_decimals_a :: u8
  fm_decimals_b :: u8
  fm_program_a :: pubkey
  fm_program_b :: pubkey
  fm_program_pool :: pubkey

section \<open>Loading\<close>

definition carries_transfer_fee :: "sdk \<Rightarrow> account \<Rightarrow> bool" where
  "carries_transfer_fee sdk mint_account \<longleftrightarrow> (case read_transfer_fee_schedule sdk mint_account of
       None \<Rightarrow> False | Some schedule \<Rightarrow> 0 < basis_points schedule)"

definition fluxbeam_load ::
  "sdk \<Rightarrow> account_reader \<Rightarrow> pubkey \<Rightarrow> account \<Rightarrow> fluxbeam_market direct_result" where
  "fluxbeam_load sdk read pool pool_account =
     rbind (ok_or (fluxbeam_decode pool (acc_data pool_account))
              (PoolUndecodable pool (''FluxBeam SwapV1 state did not match the expected layout (''
                 @ show_nat (length (acc_data pool_account)) @ '' bytes)''))) (\<lambda>state.
     if \<not> fb_is_initialized state then
       Inl (PoolNotTradable pool ''pool is not initialized'')
     else if fb_curve_type state \<noteq> CURVE_TYPE_CONSTANT_PRODUCT then
       Inl (PoolNotTradable pool (''curve_type '' @ show_word (fb_curve_type state)
              @ '' is not ConstantProduct (0); this venue's formula was verified only for that curve''))
     else
       let addresses = [fb_vault_a state, fb_vault_b state, fb_mint_a state, fb_mint_b state,
                        fb_pool_mint state];
           get = fetched ''account does not exist'' addresses
       in rbind (map_err (\<lambda>e. AccountUnavailable pool
                   (''FluxBeam pool accounts could not be read: '' @ e)) (read addresses)) (\<lambda>accounts.
       rbind (get accounts 0) (\<lambda>vault_a.
       rbind (get accounts 1) (\<lambda>vault_b.
       rbind (ok_or (token_account_amount (acc_data vault_a))
                (PoolUndecodable pool ''token_a vault is not a token account'')) (\<lambda>vault_a_balance.
       rbind (ok_or (token_account_amount (acc_data vault_b))
                (PoolUndecodable pool ''token_b vault is not a token account'')) (\<lambda>vault_b_balance.
       rbind (get accounts 2) (\<lambda>mint_a_account.
       rbind (get accounts 3) (\<lambda>mint_b_account.
       rbind (get accounts 4) (\<lambda>pool_mint_account.
       rbind (ok_or (mint_decimals (acc_data mint_a_account))
                (PoolUndecodable pool ''token_a_mint is not a mint account'')) (\<lambda>decimals_a.
       rbind (ok_or (mint_decimals (acc_data mint_b_account))
                (PoolUndecodable pool ''token_b_mint is not a mint account'')) (\<lambda>decimals_b.
       if carries_transfer_fee sdk mint_a_account then
         Inl (PoolNotTradable pool
           ''token_a carries a Token-2022 transfer fee, unverified against this venue's fee math'')
       else if carries_transfer_fee sdk mint_b_account then
         Inl (PoolNotTradable pool
           ''token_b carries a Token-2022 transfer fee, unverified against this venue's fee math'')
       else Inr \<lparr>fm_state = state, fm_vault_a_balance = vault_a_balance,
              fm_vault_b_balance = vault_b_balance, fm_decimals_a = decimals_a,
              fm_decimals_b = decimals_b, fm_program_a = acc_owner mint_a_account,
              fm_program_b = acc_owner mint_b_account,
              fm_program_pool = acc_owner pool_mint_account\<rparr>)))))))))))"

section \<open>The market\<close>

definition fluxbeam_is_side_a :: "fluxbeam_market \<Rightarrow> pubkey \<Rightarrow> bool option" where
  "fluxbeam_is_side_a m mint = side_of (fb_mint_a (fm_state m)) (fb_mint_b (fm_state m)) mint"

definition fluxbeam_quote :: "fluxbeam_market \<Rightarrow> pubkey \<Rightarrow> u64 \<Rightarrow> venue_quote direct_result" where
  "fluxbeam_quote m input_mint amount_in =
     (let s = fm_state m; pool = fb_pool s in
      rbind (ok_or (fluxbeam_is_side_a m input_mint) (PairNotInPool pool input_mint default_pubkey))
        (\<lambda>input_is_a.
      let (reserve_in, reserve_out) =
            (if input_is_a then (fm_vault_a_balance m, fm_vault_b_balance m)
             else (fm_vault_b_balance m, fm_vault_a_balance m))
      in if reserve_in = 0 \<or> reserve_out = 0 then
           Inl (InsufficientLiquidity pool amount_in ''a vault side is empty'')
         else
           let trade_fee = fee_amount amount_in (fb_trade_fee_numerator s) (fb_trade_fee_denominator s);
               owner_fee = fee_amount amount_in (fb_owner_trade_fee_numerator s)
                             (fb_owner_trade_fee_denominator s);
               lp_fee = min (saturating_add trade_fee owner_fee) amount_in;
               source_less_fees = saturating_sub amount_in lp_fee
           in if source_less_fees = 0 then
                Inr \<lparr>vq_amount_in = amount_in, vq_expected_out = 0, vq_lp_fee = lp_fee,
                     vq_price_impact_pct = Finite 0\<rparr>
              else
                let new_source = saturating_add (ucast reserve_in :: u128) (ucast source_less_fees)
                in rbind (ok_or (mul_div_ceil (ucast reserve_out) (ucast reserve_in) new_source)
                           (QuoteMath ''FluxBeam curve division overflowed'')) (\<lambda>new_dest.
                if ucast reserve_out < new_dest then
                  Inl (QuoteMath ''FluxBeam curve produced an output above the pool's own reserve'')
                else
                  let expected_out = reserve_out - ucast new_dest
                  in Inr \<lparr>vq_amount_in = amount_in, vq_expected_out = expected_out, vq_lp_fee = lp_fee,
                       vq_price_impact_pct =
                         price_impact_pct reserve_in reserve_out amount_in expected_out\<rparr>)))"

definition fluxbeam_swap_instruction ::
  "sdk \<Rightarrow> fluxbeam_market \<Rightarrow> swap_accounts \<Rightarrow> u64 \<Rightarrow> u64 \<Rightarrow> instruction direct_result" where
  "fluxbeam_swap_instruction sdk m acc amount_in min_out =
     (let s = fm_state m in
      rbind (swap_direction (fb_pool s) (fb_mint_a s) (fb_mint_b s) acc) (\<lambda>input_is_a.
      let (swap_source_vault, swap_destination_vault) =
            (if input_is_a then (fb_vault_a s, fb_vault_b s) else (fb_vault_b s, fb_vault_a s));
          (source_mint, destination_mint) =
            (if input_is_a then (fb_mint_a s, fb_mint_b s) else (fb_mint_b s, fb_mint_a s));
          (source_program, destination_program) =
            (if input_is_a then (fm_program_a m, fm_program_b m) else (fm_program_b m, fm_program_a m));
          authority = find_program_address sdk [key_bytes (fb_pool s)] (fluxbeam_program_id sdk)
      in Inr \<lparr>ix_program = fluxbeam_program_id sdk,
              ix_accounts =
                [meta_new (fb_pool s) False,
                 meta_readonly authority False,
                 meta_new (sa_owner acc) True,
                 meta_new (sa_input_token_account acc) False,
                 meta_new swap_source_vault False,
                 meta_new swap_destination_vault False,
                 meta_new (sa_output_token_account acc) False,
                 meta_new (fb_pool_mint s) False,
                 meta_new (fb_fee_account s) False,
                 meta_readonly source_mint False,
                 meta_readonly destination_mint False,
                 meta_readonly source_program False,
                 meta_readonly destination_program False,
                 meta_readonly (fm_program_pool m) False],
              ix_data = SWAP_TAG # to_le_bytes_u64 amount_in @ to_le_bytes_u64 min_out\<rparr>))"

definition fluxbeam_pool_market :: "sdk \<Rightarrow> fluxbeam_market \<Rightarrow> pool_market" where
  "fluxbeam_pool_market sdk m = (let s = fm_state m in
     \<lparr>pm_program = FluxbeamAmm, pm_pool = fb_pool s, pm_mints = (fb_mint_a s, fb_mint_b s),
      pm_token_program = (\<lambda>mint. map_option (\<lambda>side_a. if side_a then fm_program_a m else fm_program_b m)
                            (fluxbeam_is_side_a m mint)),
      pm_decimals = (\<lambda>mint. map_option (\<lambda>side_a. if side_a then fm_decimals_a m else fm_decimals_b m)
                            (fluxbeam_is_side_a m mint)),
      pm_quote = fluxbeam_quote m, pm_swap_instruction = fluxbeam_swap_instruction sdk m,
      pm_compute_units = FLUXBEAM_COMPUTE_UNITS, pm_settles_native_sol = False\<rparr>)"

section \<open>The curve is the constant product\<close>

lemma sub_cdiv:
  assumes "0 < (d :: nat)" and "b \<le> d"
  shows "a - cdiv (a * b) d = a * (d - b) div d"
proof -
  have le: "cdiv (a * b) d \<le> a" using assms by (simp add: cdiv_le_iff)
  have iff: "x \<le> a - cdiv (a * b) d \<longleftrightarrow> x \<le> a * (d - b) div d" for x
  proof (cases "x \<le> a")
    case True
    then obtain z where z: "a = x + z" using le_Suc_ex by blast
    have "x \<le> a - cdiv (a * b) d \<longleftrightarrow> cdiv (a * b) d \<le> z" using le z by linarith
    also have "\<dots> \<longleftrightarrow> a * b \<le> z * d" using assms(1) by (rule cdiv_le_iff)
    also have "\<dots> \<longleftrightarrow> x * d \<le> a * (d - b)"
    proof -
      have "a * (d - b) + a * b = a * d" using assms(2) by (metis add_mult_distrib2 le_add_diff_inverse2)
      also have "\<dots> = x * d + z * d" by (simp add: z add_mult_distrib)
      finally have "a * (d - b) + a * b = x * d + z * d" .
      then show ?thesis by linarith
    qed
    also have "\<dots> \<longleftrightarrow> x \<le> a * (d - b) div d" using assms(1) by (simp add: less_eq_div_iff_mult_less_eq)
    finally show ?thesis .
  next
    case False
    have "a * (d - b) div d \<le> a * d div d" by (intro div_le_mono mult_le_mono2) simp
    then have "a * (d - b) div d \<le> a" using assms(1) by simp
    with False show ?thesis by linarith
  qed
  from iff [of "a - cdiv (a * b) d"] iff [of "a * (d - b) div d"] show ?thesis by (intro antisym) simp_all
qed

lemma fluxbeam_curve:
  assumes "ri \<noteq> 0"
  shows "\<exists>new_dest. mul_div_ceil (ucast ro) (ucast ri) (saturating_add (ucast ri :: u128) (ucast x)) = Some new_dest
     \<and> \<not> ucast ro < new_dest \<and> ro - ucast new_dest = constant_product_out ri ro (x :: u64)"
proof -
  let ?d = "saturating_add (ucast ri :: u128) (ucast x)"
  have d: "unat ?d = unat ri + unat x"
    using unat_u64_lt [of ri] unat_u64_lt [of x] by (simp add: unat_saturating_add)
  have ri: "0 < unat ri" using assms by (simp add: unat_gt_0)
  define c where "c = cdiv (unat ro * unat ri) (unat ri + unat x)"
  have c: "c \<le> unat ro" using ri by (simp add: c_def cdiv_le_iff)
  have nat: "unat (of_nat c :: u128) = c"
    using c unat_u64_lt [of ro] by (simp add: unat_of_nat)
  have d0: "?d \<noteq> 0" using d ri by (metis add_is_0 less_numeral_extra(3) unat_0)
  have some: "mul_div_ceil (ucast ro) (ucast ri) ?d = Some (of_nat c)"
    unfolding mul_div_ceil_Some nat using d0 by (simp add: d c_def)
  have nl: "\<not> (ucast ro :: u128) < of_nat c" using c by (simp add: word_less_nat_alt nat)
  have cast: "unat (ucast (of_nat c :: u128) :: u64) = c"
    using c unat_u64_lt [of ro] by (simp add: unat_narrow nat)
  have "unat (ro - ucast (of_nat c :: u128)) = unat ro - c"
    using c by (subst unat_sub_exact) (simp_all add: word_le_nat_alt cast)
  also have "\<dots> = unat ro * unat x div (unat ri + unat x)"
    using sub_cdiv [of "unat ri + unat x" "unat ri" "unat ro"] ri by (simp add: c_def)
  finally have "unat (ro - ucast (of_nat c :: u128)) = unat (constant_product_out ri ro x)"
    using ri by (simp add: unat_constant_product_out)
  then show ?thesis using some nl by (auto simp: word_unat_eq_iff)
qed

section \<open>The venue keeps its contract\<close>

definition fluxbeam_reserves :: "fluxbeam_market \<Rightarrow> u64 \<times> u64" where
  "fluxbeam_reserves m = (fm_vault_a_balance m, fm_vault_b_balance m)"

definition fluxbeam_fee :: "fluxbeam_market \<Rightarrow> u64 \<Rightarrow> u64" where
  "fluxbeam_fee m a = min (saturating_add
       (fee_amount a (fb_trade_fee_numerator (fm_state m)) (fb_trade_fee_denominator (fm_state m)))
       (fee_amount a (fb_owner_trade_fee_numerator (fm_state m)) (fb_owner_trade_fee_denominator (fm_state m)))) a"

lemma fluxbeam_quote_eq:
  "fluxbeam_quote m mint amount =
     (case fluxbeam_is_side_a m mint of
        None \<Rightarrow> Inl (PairNotInPool (fb_pool (fm_state m)) mint default_pubkey)
      | Some side \<Rightarrow>
          let ri = fst (oriented side (fluxbeam_reserves m)); ro = snd (oriented side (fluxbeam_reserves m));
              out = constant_product_out ri ro (saturating_sub amount (fluxbeam_fee m amount))
          in if ri = 0 \<or> ro = 0 then
               Inl (InsufficientLiquidity (fb_pool (fm_state m)) amount ''a vault side is empty'')
             else Inr \<lparr>vq_amount_in = amount, vq_expected_out = out, vq_lp_fee = fluxbeam_fee m amount,
                    vq_price_impact_pct = price_impact_pct ri ro amount out\<rparr>)"
proof (cases "fluxbeam_is_side_a m mint")
  case None
  then show ?thesis by (simp add: fluxbeam_quote_def Let_def)
next
  case (Some side)
  let ?x = "saturating_sub amount (fluxbeam_fee m amount)"
  let ?ri = "fst (oriented side (fluxbeam_reserves m))" and ?ro = "snd (oriented side (fluxbeam_reserves m))"
  have fee: "min (saturating_add
       (fee_amount amount (fb_trade_fee_numerator (fm_state m)) (fb_trade_fee_denominator (fm_state m)))
       (fee_amount amount (fb_owner_trade_fee_numerator (fm_state m)) (fb_owner_trade_fee_denominator (fm_state m))))
       amount = fluxbeam_fee m amount"
    by (simp add: fluxbeam_fee_def)
  have ori: "(if side then (fm_vault_a_balance m, fm_vault_b_balance m)
             else (fm_vault_b_balance m, fm_vault_a_balance m)) = (?ri, ?ro)"
    by (simp add: fluxbeam_reserves_def)
  consider (empty) "?ri = 0 \<or> ?ro = 0" | (dust) "?ri \<noteq> 0" "?ro \<noteq> 0" "?x = 0"
    | (live) "?ri \<noteq> 0" "?ro \<noteq> 0" "?x \<noteq> 0" by blast
  then show ?thesis
  proof cases
    case empty
    then show ?thesis
      using Some by (simp only: fluxbeam_quote_def Let_def Some ok_or.simps rbind.simps ori prod.case
          option.case if_True)
  next
    case dust
    then have "constant_product_out ?ri ?ro ?x = 0" by (simp add: constant_product_out_def)
    with dust show ?thesis
      by (simp only: fluxbeam_quote_def Let_def Some ok_or.simps rbind.simps ori prod.case
          option.case fee simp_thms if_True if_False) (simp add: price_impact_pct_def)
  next
    case live
    obtain nd where nd: "mul_div_ceil (ucast ?ro) (ucast ?ri) (saturating_add (ucast ?ri :: u128) (ucast ?x)) = Some nd"
      "\<not> ucast ?ro < nd" "?ro - ucast nd = constant_product_out ?ri ?ro ?x"
      using fluxbeam_curve [OF live(1)] by blast
    with live show ?thesis
      by (simp only: fluxbeam_quote_def Let_def Some ok_or.simps rbind.simps ori prod.case
          option.case fee simp_thms if_True if_False nd)
  qed
qed

lemma fluxbeam_quote_Inr:
  assumes "fluxbeam_quote m mint amount = Inr q"
  obtains side where "fluxbeam_is_side_a m mint = Some side"
    and "fst (oriented side (fluxbeam_reserves m)) \<noteq> 0" and "snd (oriented side (fluxbeam_reserves m)) \<noteq> 0"
    and "vq_amount_in q = amount" and "vq_lp_fee q = fluxbeam_fee m amount"
    and "vq_expected_out q = constant_product_out (fst (oriented side (fluxbeam_reserves m)))
           (snd (oriented side (fluxbeam_reserves m))) (saturating_sub amount (fluxbeam_fee m amount))"
  using assms unfolding fluxbeam_quote_eq Let_def
  by (auto split: option.splits if_splits simp del: oriented_simps)

lemma fluxbeam_quote_errs: "errs (\<lambda>e. \<not> submitted e) (fluxbeam_quote m mint amount)"
  by (simp add: fluxbeam_quote_eq Let_def split: option.split)

lemma fluxbeam_ix:
  assumes "fluxbeam_swap_instruction sdk m acc amount min_out = Inr ix"
  obtains side where "swap_direction (fb_pool (fm_state m)) (fb_mint_a (fm_state m)) (fb_mint_b (fm_state m)) acc
       = Inr side"
    and "ix_program ix = fluxbeam_program_id sdk"
    and "\<And>me. me \<in> set (ix_accounts ix) \<Longrightarrow> meta_signer me \<Longrightarrow> meta_key me = sa_owner acc"
    and "map meta_key (take 4 (drop 3 (ix_accounts ix))) =
       [sa_input_token_account acc,
        if side then fb_vault_a (fm_state m) else fb_vault_b (fm_state m),
        if side then fb_vault_b (fm_state m) else fb_vault_a (fm_state m),
        sa_output_token_account acc]"
    and "map meta_key (take 4 (drop 9 (ix_accounts ix))) =
       [if side then fb_mint_a (fm_state m) else fb_mint_b (fm_state m),
        if side then fb_mint_b (fm_state m) else fb_mint_a (fm_state m),
        if side then fm_program_a m else fm_program_b m,
        if side then fm_program_b m else fm_program_a m]"
    and "ix_data ix = [SWAP_TAG] @ to_le_bytes_u64 amount @ to_le_bytes_u64 min_out"
proof -
  from assms obtain side where
    side: "swap_direction (fb_pool (fm_state m)) (fb_mint_a (fm_state m)) (fb_mint_b (fm_state m)) acc = Inr side"
    by (auto simp: fluxbeam_swap_instruction_def Let_def rbind_Inr_iff)
  show thesis
    by (rule that [OF side])
      (use assms side in \<open>auto simp: fluxbeam_swap_instruction_def Let_def meta_new_def meta_readonly_def
        split: if_splits\<close>)
qed

lemma fluxbeam_ix_errs: "errs (\<lambda>e. \<not> submitted e) (fluxbeam_swap_instruction sdk m acc amount min_out)"
  unfolding fluxbeam_swap_instruction_def Let_def
  by (intro errs_intros) (simp split: prod.split)

lemma fluxbeam_market_simps [simp]:
  "pm_mints (fluxbeam_pool_market sdk m) = (fb_mint_a (fm_state m), fb_mint_b (fm_state m))"
  "pm_quote (fluxbeam_pool_market sdk m) = fluxbeam_quote m"
  "pm_swap_instruction (fluxbeam_pool_market sdk m) = fluxbeam_swap_instruction sdk m"
  "pm_token_program (fluxbeam_pool_market sdk m) mint = map_option (\<lambda>side_a. if side_a
     then fm_program_a m else fm_program_b m) (fluxbeam_is_side_a m mint)"
  by (simp_all add: fluxbeam_pool_market_def Let_def)

interpretation fluxbeam: fee_bounded_market "fluxbeam_pool_market sdk" "\<lambda>_. fluxbeam_program_id sdk" "\<lambda>_. True" for sdk
proof (unfold_locales, goal_cases)
  case (1 s mint amount q)
  then show ?case by (auto elim: fluxbeam_quote_Inr)
next
  case (2 s mint amount q)
  then show ?case
    by (auto simp: fluxbeam_is_side_a_def side_of_Some elim!: fluxbeam_quote_Inr split: if_splits)
next
  case (9 s mint amount q)
  then show ?case by (auto simp: fluxbeam_fee_def elim!: fluxbeam_quote_Inr)
next
  case (3 s mint amount e)
  then show ?case using errsD [OF fluxbeam_quote_errs] by simp
next
  case (4 s acc amount min_out ix)
  then show ?case by (auto simp: trades_def elim!: fluxbeam_ix dest!: swap_direction_Inr)
next
  case (5 s acc amount min_out ix)
  then show ?case by (auto elim: fluxbeam_ix)
next
  case (6 s acc amount min_out ix m)
  then show ?case by (auto elim: fluxbeam_ix)
next
  case (7 s acc amount min_out e)
  then show ?case using errsD [OF fluxbeam_ix_errs] by simp
next
  case (8 s mint)
  then show ?case by (simp add: fluxbeam_is_side_a_def)
qed

section \<open>A concrete pool\<close>

definition sample_fluxbeam :: fluxbeam_market where
  "sample_fluxbeam = \<lparr>
     fm_state = \<lparr>fb_pool = Pubkey [3], fb_is_initialized = True, fb_vault_a = Pubkey [11],
       fb_vault_b = Pubkey [12], fb_pool_mint = Pubkey [13], fb_mint_a = Pubkey [1], fb_mint_b = Pubkey [2],
       fb_fee_account = Pubkey [14], fb_trade_fee_numerator = 20, fb_trade_fee_denominator = 10000,
       fb_owner_trade_fee_numerator = 1, fb_owner_trade_fee_denominator = 100, fb_curve_type = 0\<rparr>,
     fm_vault_a_balance = 1000000000, fm_vault_b_balance = 5000000000, fm_decimals_a = 9,
     fm_decimals_b = 6, fm_program_a = Pubkey [6], fm_program_b = Pubkey [22], fm_program_pool = Pubkey [22]\<rparr>"

section \<open>Properties\<close>

text \<open>FluxBeam's curve, which rounds up what the pool must keep, is the constant-product output of
  the other venues on the input less both fees. A mint of the pool against non-empty reserves always
  quotes: neither arithmetic refusal of the venue can be reached.\<close>

theorem fluxbeam_is_constant_product:
  assumes "fluxbeam_is_side_a m mint = Some side"
    and "(reserve_in, reserve_out) = oriented side (fm_vault_a_balance m, fm_vault_b_balance m)"
    and "reserve_in \<noteq> 0" and "reserve_out \<noteq> 0"
  shows "\<exists>q. fluxbeam_quote m mint amount = Inr q \<and> vq_lp_fee q \<le> amount
     \<and> vq_expected_out q = constant_product_out reserve_in reserve_out (saturating_sub amount (vq_lp_fee q))
     \<and> unat reserve_in * unat reserve_out
         \<le> (unat reserve_in + unat amount) * (unat reserve_out - unat (vq_expected_out q))"
proof -
  have res: "fst (oriented side (fluxbeam_reserves m)) = reserve_in"
    "snd (oriented side (fluxbeam_reserves m)) = reserve_out"
    unfolding fluxbeam_reserves_def using assms(2) by (metis fst_conv snd_conv)+
  have "fluxbeam_fee m amount \<le> amount" by (simp add: fluxbeam_fee_def)
  moreover have "\<exists>q. fluxbeam_quote m mint amount = Inr q \<and> vq_lp_fee q = fluxbeam_fee m amount
     \<and> vq_expected_out q = constant_product_out reserve_in reserve_out (saturating_sub amount (fluxbeam_fee m amount))"
    unfolding fluxbeam_quote_eq assms(1) Let_def res option.case using assms(3,4) by simp
  ultimately show ?thesis using constant_product_k [OF saturating_sub_le] by auto
qed

theorem fluxbeam_is_constant_product_witness:
  "\<exists>q. fluxbeam_quote sample_fluxbeam (Pubkey [2]) 1000000 = Inr q
     \<and> vq_expected_out q = constant_product_out 5000000000 1000000000 (saturating_sub 1000000 (vq_lp_fee q))"
proof -
  have side: "fluxbeam_is_side_a sample_fluxbeam (Pubkey [2]) = Some False"
    by (simp add: fluxbeam_is_side_a_def sample_fluxbeam_def side_of_def)
  have "(5000000000, 1000000000)
      = oriented False (fm_vault_a_balance sample_fluxbeam, fm_vault_b_balance sample_fluxbeam)"
    by (simp add: sample_fluxbeam_def)
  from fluxbeam_is_constant_product [OF side this, of 1000000] show ?thesis by auto
qed

text \<open>Every slot of the FluxBeam instruction that names a side is in swap order, whichever side of
  the pool the input mint is, so mints and token programs always match their vaults; and the wire
  data carries the two amounts after the one-byte tag.\<close>

theorem fluxbeam_instruction_oriented:
  assumes "fluxbeam_swap_instruction sdk m acc amount min_out = Inr ix"
    and "fb_mint_a (fm_state m) \<noteq> fb_mint_b (fm_state m)"
  shows "map meta_key (take 4 (drop 3 (ix_accounts ix))) =
       (if sa_input_mint acc = fb_mint_a (fm_state m)
        then [sa_input_token_account acc, fb_vault_a (fm_state m), fb_vault_b (fm_state m),
              sa_output_token_account acc]
        else [sa_input_token_account acc, fb_vault_b (fm_state m), fb_vault_a (fm_state m),
              sa_output_token_account acc])
     \<and> map meta_key (take 4 (drop 9 (ix_accounts ix))) =
       [sa_input_mint acc, sa_output_mint acc,
        the (pm_token_program (fluxbeam_pool_market sdk m) (sa_input_mint acc)),
        the (pm_token_program (fluxbeam_pool_market sdk m) (sa_output_mint acc))]
     \<and> u64_at (ix_data ix) 1 = Some amount \<and> u64_at (ix_data ix) 9 = Some min_out"
proof -
  from assms(1) obtain side where
    side: "swap_direction (fb_pool (fm_state m)) (fb_mint_a (fm_state m)) (fb_mint_b (fm_state m)) acc = Inr side"
    and vaults: "map meta_key (take 4 (drop 3 (ix_accounts ix))) =
       [sa_input_token_account acc,
        if side then fb_vault_a (fm_state m) else fb_vault_b (fm_state m),
        if side then fb_vault_b (fm_state m) else fb_vault_a (fm_state m),
        sa_output_token_account acc]"
    and mints: "map meta_key (take 4 (drop 9 (ix_accounts ix))) =
       [if side then fb_mint_a (fm_state m) else fb_mint_b (fm_state m),
        if side then fb_mint_b (fm_state m) else fb_mint_a (fm_state m),
        if side then fm_program_a m else fm_program_b m,
        if side then fm_program_b m else fm_program_a m]"
    and data: "ix_data ix = [SWAP_TAG] @ to_le_bytes_u64 amount @ to_le_bytes_u64 min_out"
    by (rule fluxbeam_ix)
  have amounts: "u64_at (ix_data ix) 1 = Some amount" "u64_at (ix_data ix) 9 = Some min_out"
    using instruction_amounts [of "[SWAP_TAG]" 1 amount min_out "[]"] by (simp_all add: data)
  have dir: "if side then sa_input_mint acc = fb_mint_a (fm_state m) \<and> sa_output_mint acc = fb_mint_b (fm_state m)
      else sa_input_mint acc = fb_mint_b (fm_state m) \<and> sa_output_mint acc = fb_mint_a (fm_state m)"
    using side assms(2) by (simp add: swap_direction_iff)
  show ?thesis
    using vaults mints amounts dir assms(2)
    by (cases side) (simp_all add: fluxbeam_is_side_a_def side_of_def)
qed

theorem fluxbeam_instruction_oriented_witness:
  "\<exists>ix. fluxbeam_swap_instruction sample_sdk sample_fluxbeam
      \<lparr>sa_owner = Pubkey [9], sa_input_mint = Pubkey [2], sa_output_mint = Pubkey [1],
       sa_input_token_account = Pubkey [7], sa_output_token_account = Pubkey [8]\<rparr> 500 400 = Inr ix
     \<and> map meta_key (take 4 (drop 9 (ix_accounts ix))) = [Pubkey [2], Pubkey [1], Pubkey [22], Pubkey [6]]
     \<and> u64_at (ix_data ix) 9 = Some 400"
proof -
  let ?acc = "\<lparr>sa_owner = Pubkey [9], sa_input_mint = Pubkey [2], sa_output_mint = Pubkey [1],
       sa_input_token_account = Pubkey [7], sa_output_token_account = Pubkey [8]\<rparr>"
  have "is_ok (fluxbeam_swap_instruction sample_sdk sample_fluxbeam ?acc 500 400)"
    by (simp add: fluxbeam_swap_instruction_def swap_direction_def ok_side_def side_of_def
        sample_fluxbeam_def Let_def)
  then obtain ix where ix: "fluxbeam_swap_instruction sample_sdk sample_fluxbeam ?acc 500 400 = Inr ix"
    by (auto simp: is_ok_iff)
  from fluxbeam_instruction_oriented [OF ix] ix show ?thesis
    by (simp add: sample_fluxbeam_def fluxbeam_is_side_a_def side_of_def)
qed

text \<open>A FluxBeam pool is only loaded when it can be priced exactly: initialized, on the
  constant-product curve, with both vault balances read from the accounts the pool names and no
  transfer fee on either mint.\<close>

theorem fluxbeam_load_checks:
  assumes "fluxbeam_load sdk read pool acc = Inr m"
  shows "fluxbeam_decode pool (acc_data acc) = Some (fm_state m)
     \<and> length (acc_data acc) = 324 \<and> fb_is_initialized (fm_state m) \<and> fb_curve_type (fm_state m) = 0
     \<and> (\<exists>accounts va vb ma mb.
          read [fb_vault_a (fm_state m), fb_vault_b (fm_state m), fb_mint_a (fm_state m),
                fb_mint_b (fm_state m), fb_pool_mint (fm_state m)] = Inr accounts
          \<and> account_entry accounts 0 = Some va \<and> token_account_amount (acc_data va) = Some (fm_vault_a_balance m)
          \<and> account_entry accounts 1 = Some vb \<and> token_account_amount (acc_data vb) = Some (fm_vault_b_balance m)
          \<and> account_entry accounts 2 = Some ma \<and> acc_owner ma = fm_program_a m
          \<and> account_entry accounts 3 = Some mb \<and> acc_owner mb = fm_program_b m
          \<and> \<not> carries_transfer_fee sdk ma \<and> \<not> carries_transfer_fee sdk mb)"
  using assms
  by (auto simp: fluxbeam_load_def fluxbeam_decode_def fetched_def CURVE_TYPE_CONSTANT_PRODUCT_def Let_def
      rbind_Inr_iff ok_or_Inr_iff map_err_Inr_iff split: if_splits)

theorem fluxbeam_load_checks_witness:
  "\<exists>m. fluxbeam_load sample_sdk (\<lambda>_. Inr (replicate 5 (Some sample_token_account))) (Pubkey [3])
        \<lparr>acc_lamports = 0, acc_data = [0, 1] @ replicate 322 0, acc_owner = Pubkey []\<rparr> = Inr m
     \<and> fb_is_initialized (fm_state m) \<and> fb_curve_type (fm_state m) = 0"
proof -
  let ?acc = "\<lparr>acc_lamports = 0, acc_data = [0, 1] @ replicate 322 0, acc_owner = Pubkey []\<rparr> :: account"
  have reads: "pubkey_at (acc_data ?acc) n \<noteq> None" if "n < 292" for n
    using that by (simp add: pubkey_at_def slice_def)
  have words: "u64_at (acc_data ?acc) n \<noteq> None" if "n < 316" for n
    using that by (simp add: u64_at_None_iff)
  have "\<exists>s. fluxbeam_decode (Pubkey [3]) (acc_data ?acc) = Some s \<and> fb_is_initialized s \<and> fb_curve_type s = 0"
    using reads [of 35] reads [of 67] reads [of 99] reads [of 131] reads [of 163] reads [of 195]
      words [of 227] words [of 235] words [of 243] words [of 251]
    by (auto simp: fluxbeam_decode_def u8_at_def nth_append simp del: append_Cons)
  then have "is_ok (fluxbeam_load sample_sdk (\<lambda>_. Inr (replicate 5 (Some sample_token_account))) (Pubkey [3]) ?acc)"
    by (auto simp: fluxbeam_load_def fetched_def account_entry_def sample_token_account_reads
        CURVE_TYPE_CONSTANT_PRODUCT_def carries_transfer_fee_def read_transfer_fee_schedule_def
        sample_sdk_def Let_def split: option.splits)
  then obtain m where m: "fluxbeam_load sample_sdk (\<lambda>_. Inr (replicate 5 (Some sample_token_account)))
      (Pubkey [3]) ?acc = Inr m" by (auto simp: is_ok_iff)
  from fluxbeam_load_checks [OF m] m show ?thesis by blast
qed

end
