(* ===== verification/Clmm_Ticks.thy ===== *)
theory Clmm_Ticks
  imports Venue_Common "HOL-Library.Signed_Division"
begin

text \<open>
  \<^verbatim>\<open>venues/clmm_ticks.rs\<close>: the tick arrays of a concentrated-liquidity pool and the walk of a
  swap through its ticks. Ticks are \<^verbatim>\<open>i32\<close>, written as integers with the wrap-around of a plain
  operation explicit; a division by zero, which panics, is \<open>None\<close>.
\<close>

definition wrap_i32 :: "int \<Rightarrow> i32" where
  "wrap_i32 x = (x + 2 ^ 31) mod 2 ^ 32 - 2 ^ 31"

definition wrap_i128 :: "int \<Rightarrow> i128" where
  "wrap_i128 x = (x + 2 ^ 127) mod 2 ^ 128 - 2 ^ 127"

definition TICK_ARRAY_SIZE :: i32 where "TICK_ARRAY_SIZE = 60"
definition POOL_BITMAP_BITS :: i32 where "POOL_BITMAP_BITS = 1024"
definition EXTENSION_BLOCKS :: nat where "EXTENSION_BLOCKS = 14"
definition EXTENSION_BLOCK_BITS :: i32 where "EXTENSION_BLOCK_BITS = 512"
definition TICK_ARRAYS_PER_SWAP :: nat where "TICK_ARRAYS_PER_SWAP = 3"
definition MIN_TICK :: i32 where "MIN_TICK = - 443636"
definition MAX_TICK :: i32 where "MAX_TICK = 443636"
definition TICKS_OFFSET :: nat where "TICKS_OFFSET = 44"
definition TICK_STATE_SIZE :: nat where "TICK_STATE_SIZE = 168"

definition TICK_ARRAY_SEED :: bytes where
  "TICK_ARRAY_SEED = map (of_nat \<circ> of_char) ''tick_array''"

definition BITMAP_EXTENSION_SEED :: bytes where
  "BITMAP_EXTENSION_SEED = map (of_nat \<circ> of_char) ''pool_tick_array_bitmap_extension''"

section \<open>Tick arrays\<close>

definition ticks_per_array :: "u16 \<Rightarrow> i32" where
  "ticks_per_array tick_spacing = wrap_i32 (TICK_ARRAY_SIZE * int (unat tick_spacing))"

definition pool_bitmap_reach :: "u16 \<Rightarrow> i32" where
  "pool_bitmap_reach tick_spacing = wrap_i32 (ticks_per_array tick_spacing * (POOL_BITMAP_BITS div 2))"

definition tick_array_start_index :: "i32 \<Rightarrow> u16 \<Rightarrow> i32 option" where
  "tick_array_start_index tick tick_spacing =
     (let span = ticks_per_array tick_spacing in
      if span = 0 then None
      else let index = tick sdiv span;
               index = (if tick < 0 \<and> tick smod span \<noteq> 0 then index - 1 else index)
           in Some (wrap_i32 (index * span)))"

text \<open>\<^verbatim>\<open>i32::to_be_bytes\<close>.\<close>

definition to_be_bytes_i32 :: "i32 \<Rightarrow> bytes" where
  "to_be_bytes_i32 x = rev (le_bytes 4 (nat (x mod 2 ^ 32)))"

definition tick_array_address :: "sdk \<Rightarrow> pubkey \<Rightarrow> pubkey \<Rightarrow> i32 \<Rightarrow> pubkey" where
  "tick_array_address sdk program pool start_index =
     find_program_address sdk [TICK_ARRAY_SEED, key_bytes pool, to_be_bytes_i32 start_index] program"

definition bitmap_extension_address :: "sdk \<Rightarrow> pubkey \<Rightarrow> pubkey \<Rightarrow> pubkey" where
  "bitmap_extension_address sdk program pool =
     find_program_address sdk [BITMAP_EXTENSION_SEED, key_bytes pool] program"

section \<open>The price of a tick\<close>

definition MAGIC :: "(nat \<times> u128) list" where
  "MAGIC = [
     (0, 0xfffcb933bd6fb800), (1, 0xfff97272373d4000), (2, 0xfff2e50f5f657000),
     (3, 0xffe5caca7e10f000), (4, 0xffcb9843d60f7000), (5, 0xff973b41fa98e800),
     (6, 0xff2ea16466c9b000), (7, 0xfe5dee046a9a3800), (8, 0xfcbe86c7900bb000),
     (9, 0xf987a7253ac65800), (10, 0xf3392b0822bb6000), (11, 0xe7159475a2caf000),
     (12, 0xd097f3bdfd2f2000), (13, 0xa9f746462d9f8000), (14, 0x70d869a156f31c00),
     (15, 0x31be135f97ed3200), (16, 0x9aa508b5b85a500), (17, 0x5d6af8dedc582c),
     (18, 0x2216e584f5fa)]"

text \<open>The bit of the tick that a mask of the table tests.\<close>

definition bit_set :: "nat \<Rightarrow> nat \<Rightarrow> bool" where
  "bit_set n k \<longleftrightarrow> n div 2 ^ k mod 2 = 1"

definition apply_magic :: "nat \<Rightarrow> nat \<times> u128 \<Rightarrow> u128 option \<Rightarrow> u128 option" where
  "apply_magic abs_tick = (\<lambda>(k, magic) ratio. do {
     r \<leftarrow> ratio;
     if bit_set abs_tick k then do { p \<leftarrow> checked_mul r magic; checked_shr p 64 } else Some r })"

definition get_sqrt_price_at_tick :: "i32 \<Rightarrow> u128 option" where
  "get_sqrt_price_at_tick tick =
     (if tick < MIN_TICK \<or> MAX_TICK < tick then None
      else let abs_tick = nat \<bar>tick\<bar>;
               start = (if bit_set abs_tick 0 then 0xfffcb933bd6fb800 else push_bit 64 1)
           in do {
             ratio \<leftarrow> fold (apply_magic abs_tick) (tl MAGIC) (Some start);
             if 0 < tick then checked_div (- 1) ratio else Some ratio })"

section \<open>Decoding a tick array\<close>

record initialized_tick =
  it_tick :: i32
  it_liquidity_net :: i128

definition decode_tick :: "bytes \<Rightarrow> nat \<Rightarrow> initialized_tick list option" where
  "decode_tick data i = (let offset = TICKS_OFFSET + i * TICK_STATE_SIZE in do {
     tick \<leftarrow> i32_at data offset;
     liquidity_net \<leftarrow> i128_at data (offset + 4);
     liquidity_gross \<leftarrow> u128_at data (offset + 20);
     Some (if liquidity_gross \<noteq> 0 then [\<lparr>it_tick = tick, it_liquidity_net = liquidity_net\<rparr>] else []) })"

fun decode_ticks :: "bytes \<Rightarrow> nat list \<Rightarrow> initialized_tick list option" where
  "decode_ticks data [] = Some []"
| "decode_ticks data (i # is) = do {
     t \<leftarrow> decode_tick data i; ts \<leftarrow> decode_ticks data is; Some (t @ ts) }"

definition decode_tick_array :: "pubkey \<Rightarrow> bytes \<Rightarrow> initialized_tick list option" where
  "decode_tick_array pool data = do {
     owner \<leftarrow> pubkey_at data 8;
     if owner \<noteq> pool then None else decode_ticks data [0..<nat TICK_ARRAY_SIZE] }"

section \<open>The bitmap of initialised arrays\<close>

record tick_array_bitmap =
  tb_pool :: "u64 list"
  tb_positive :: "u64 list list"
  tb_negative :: "u64 list list"

fun read_words :: "bytes \<Rightarrow> nat \<Rightarrow> nat \<Rightarrow> u64 list option" where
  "read_words data offset 0 = Some []"
| "read_words data offset (Suc n) = do {
     w \<leftarrow> u64_at data offset; ws \<leftarrow> read_words data (offset + 8) n; Some (w # ws) }"

definition from_pool_state :: "bytes \<Rightarrow> tick_array_bitmap option" where
  "from_pool_state data = do {
     pool \<leftarrow> read_words data 904 16;
     Some \<lparr>tb_pool = pool, tb_positive = [], tb_negative = []\<rparr> }"

text \<open>Blocks are read one after another; the first unreadable one ends the reading, and what was
  read before it is kept.\<close>

fun read_blocks :: "bytes \<Rightarrow> nat \<Rightarrow> nat list \<Rightarrow> u64 list list \<times> bool" where
  "read_blocks data base [] = ([], True)"
| "read_blocks data base (i # is) = (case read_words data (base + i * 64) 8 of
       None \<Rightarrow> ([], False)
     | Some ws \<Rightarrow> (let (rest, complete) = read_blocks data base is in (ws # rest, complete)))"

definition with_extension :: "tick_array_bitmap \<Rightarrow> pubkey \<Rightarrow> bytes \<Rightarrow> tick_array_bitmap" where
  "with_extension bm pool_id data =
     (if pubkey_at data 8 \<noteq> Some pool_id then bm
      else let base = 40;
               (pos, complete) = read_blocks data base [0..<EXTENSION_BLOCKS];
               bm = bm\<lparr>tb_positive := tb_positive bm @ pos\<rparr>
           in if \<not> complete then bm
              else bm\<lparr>tb_negative := tb_negative bm
                  @ fst (read_blocks data (base + EXTENSION_BLOCKS * 64) [0..<EXTENSION_BLOCKS])\<rparr>)"

definition bitmap_bit :: "u64 list \<Rightarrow> nat \<Rightarrow> bool" where
  "bitmap_bit ws bit_index \<longleftrightarrow> ws ! (bit_index div 64) AND push_bit (bit_index mod 64) 1 \<noteq> 0"

definition is_initialised :: "tick_array_bitmap \<Rightarrow> i32 \<Rightarrow> u16 \<Rightarrow> bool" where
  "is_initialised bm start_index tick_spacing =
     (let span = ticks_per_array tick_spacing in
      if span = 0 then False
      else let array_index = start_index sdiv span in
        if - (POOL_BITMAP_BITS div 2) \<le> array_index \<and> array_index < POOL_BITMAP_BITS div 2
        then bitmap_bit (tb_pool bm) (nat (array_index + POOL_BITMAP_BITS div 2))
        else let (blocks, distance) =
               (if 0 \<le> array_index then (tb_positive bm, array_index - POOL_BITMAP_BITS div 2)
                else (tb_negative bm, - array_index - POOL_BITMAP_BITS div 2 - 1));
               block_index = nat (distance div EXTENSION_BLOCK_BITS)
             in if block_index < length blocks
                then bitmap_bit (blocks ! block_index) (nat (distance mod EXTENSION_BLOCK_BITS))
                else False)"

text \<open>
  The scan for initialised arrays. The early return of the code keeps \<open>span\<close> positive here; it
  stands in the loop's condition so that the recursion is total.
\<close>

definition swap_step :: "u16 \<Rightarrow> bool \<Rightarrow> i32" where
  "swap_step tick_spacing zero_for_one =
     (let span = ticks_per_array tick_spacing in if zero_for_one then - span else span)"

function scan_arrays :: "tick_array_bitmap \<Rightarrow> u16 \<Rightarrow> bool \<Rightarrow> i32 \<Rightarrow> i32 list \<Rightarrow> i32 \<Rightarrow> i32 list" where
  "scan_arrays bm tick_spacing zero_for_one reach found start =
     (if 0 < ticks_per_array tick_spacing \<and> length found < TICK_ARRAYS_PER_SWAP \<and> \<bar>start\<bar> \<le> reach
      then let found' = (if is_initialised bm start tick_spacing then found @ [start] else found);
               next_start = start + swap_step tick_spacing zero_for_one
           in if next_start < - (2 ^ 31) \<or> 2 ^ 31 \<le> next_start then found'
              else scan_arrays bm tick_spacing zero_for_one reach found' next_start
      else found)"
  by auto

termination
  by (relation "measure (\<lambda>(bm, sp, z, reach, found, start). nat (reach + 1 + (if z then start else - start)))")
    (auto simp: swap_step_def Let_def)

declare scan_arrays.simps [simp del]

definition arrays_for_swap :: "tick_array_bitmap \<Rightarrow> i32 \<Rightarrow> u16 \<Rightarrow> bool \<Rightarrow> i32 list" where
  "arrays_for_swap bm tick_current tick_spacing zero_for_one =
     (let span = ticks_per_array tick_spacing;
          reach = wrap_i32 (pool_bitmap_reach tick_spacing
                    + wrap_i32 (wrap_i32 (span * EXTENSION_BLOCK_BITS) * int EXTENSION_BLOCKS))
      in case tick_array_start_index tick_current tick_spacing of
           None \<Rightarrow> []
         | Some start \<Rightarrow> scan_arrays bm tick_spacing zero_for_one reach [] start)"

section \<open>Steps of the walk\<close>

definition ticks_ahead :: "initialized_tick list \<Rightarrow> i32 \<Rightarrow> bool \<Rightarrow> initialized_tick list" where
  "ticks_ahead ticks tick_current zero_for_one =
     (if zero_for_one then filter (\<lambda>t. it_tick t \<le> tick_current) (rev ticks)
      else filter (\<lambda>t. tick_current < it_tick t) ticks)"

definition Q64 :: u128 where "Q64 = push_bit 64 1"

definition output_for_move :: "bool \<Rightarrow> u128 \<Rightarrow> u128 \<Rightarrow> u128 \<Rightarrow> u64 direct_result" where
  "output_for_move zero_for_one liquidity sqrt_from sqrt_to =
     (let overflow = QuoteMath ''the concentrated-liquidity output overflowed 256 bits'' in
      rbind
        (if zero_for_one then
           ok_or (mul_div_floor liquidity (saturating_sub sqrt_from sqrt_to) Q64) overflow
         else
           rbind (ok_or (checked_shl liquidity 64)
                    (QuoteMath ''liquidity is too large to scale to Q64.64'')) (\<lambda>numerator.
           let spread = saturating_sub sqrt_to sqrt_from in
           rbind (ok_or (mul_div_floor numerator spread sqrt_to) overflow) (\<lambda>intermediate.
           Inr (intermediate div max sqrt_from 1))))
        (\<lambda>out. Inr (ucast (min out 0xFFFFFFFFFFFFFFFF))))"

definition next_sqrt_price_from_input :: "bool \<Rightarrow> u128 \<Rightarrow> u128 \<Rightarrow> u128 \<Rightarrow> u128 direct_result" where
  "next_sqrt_price_from_input zero_for_one liquidity sqrt_price amount_in =
     (let overflow = QuoteMath ''the concentrated-liquidity step overflowed 256 bits'' in
      if zero_for_one then
        rbind (ok_or (checked_shl liquidity 64)
                 (QuoteMath ''liquidity is too large to scale to Q64.64'')) (\<lambda>numerator.
        rbind (ok_or (checked_mul amount_in sqrt_price) overflow) (\<lambda>product.
        rbind (ok_or (checked_add numerator product) overflow) (\<lambda>denominator.
        ok_or (mul_div_ceil numerator sqrt_price denominator) overflow)))
      else
        rbind (ok_or (mul_div_floor amount_in Q64 liquidity) overflow) (\<lambda>delta.
        ok_or (checked_add sqrt_price delta) overflow))"

definition input_for_move :: "bool \<Rightarrow> u128 \<Rightarrow> u128 \<Rightarrow> u128 \<Rightarrow> u128 direct_result" where
  "input_for_move zero_for_one liquidity sqrt_from sqrt_to =
     (let overflow = QuoteMath ''the concentrated-liquidity input overflowed 256 bits'' in
      if zero_for_one then
        if sqrt_from \<le> sqrt_to then Inr 0
        else
          rbind (ok_or (checked_shl liquidity 64)
                   (QuoteMath ''liquidity is too large to scale to Q64.64'')) (\<lambda>numerator.
          let spread = sqrt_from - sqrt_to in
          rbind (ok_or (mul_div_ceil numerator spread sqrt_from) overflow) (\<lambda>step1.
          Inr (ceil_div step1 (max sqrt_to 1))))
      else
        if sqrt_to \<le> sqrt_from then Inr 0
        else ok_or (mul_div_ceil liquidity (sqrt_to - sqrt_from) Q64) overflow)"

definition show_int :: "int \<Rightarrow> string" where
  "show_int i = (if i < 0 then ''-'' @ show_nat (nat (- i)) else show_nat (nat i))"

text \<open>\<^verbatim>\<open>u128::checked_add_signed\<close>.\<close>

definition checked_add_signed :: "u128 \<Rightarrow> i128 \<Rightarrow> u128 option" where
  "checked_add_signed a d = (let s = int (unat a) + d in
     if 0 \<le> s \<and> s < 2 ^ 128 then Some (of_int s) else None)"

definition cross_tick :: "pubkey \<Rightarrow> u128 \<Rightarrow> initialized_tick \<Rightarrow> bool \<Rightarrow> u128 direct_result" where
  "cross_tick pool liquidity tick zero_for_one =
     (let delta = (if zero_for_one then wrap_i128 (- it_liquidity_net tick) else it_liquidity_net tick)
      in ok_or (checked_add_signed liquidity delta)
           (InsufficientLiquidity pool 0 (''crossing tick '' @ show_int (it_tick tick)
              @ '' would take pool liquidity negative -- the loaded tick data is inconsistent with the pool's own reported liquidity'')))"

section \<open>The walk\<close>

record walk_state =
  ws_liquidity :: u128
  ws_sqrt_price :: u128
  ws_remaining :: u128
  ws_out :: u128
  ws_fee :: u128

datatype walk_control = Crossed walk_state | Finished walk_state

text \<open>One pass of the loop, for the next candidate tick.\<close>

definition walk_pass ::
  "pubkey \<Rightarrow> u128 \<Rightarrow> u128 \<Rightarrow> bool \<Rightarrow> initialized_tick \<Rightarrow> walk_state \<Rightarrow> walk_control direct_result" where
  "walk_pass pool rate denom zero_for_one next_tick s =
     rbind (ok_or (get_sqrt_price_at_tick (it_tick next_tick))
              (QuoteMath (''tick '' @ show_int (it_tick next_tick)
                 @ '' lies outside the programme's own range''))) (\<lambda>target_sqrt.
     rbind (input_for_move zero_for_one (ws_liquidity s) (ws_sqrt_price s) target_sqrt)
       (\<lambda>amount_to_target.
     rbind (if amount_to_target = 0 then Inr 0
            else ok_or (mul_div_ceil amount_to_target denom (denom - rate))
                   (QuoteMath ''the per-step fee grossing-up overflowed 256 bits'')) (\<lambda>gross_needed.
     if gross_needed \<le> ws_remaining s then
       let fee = min (gross_needed - amount_to_target) 0xFFFFFFFFFFFFFFFF in
       rbind (output_for_move zero_for_one (ws_liquidity s) (ws_sqrt_price s) target_sqrt) (\<lambda>out.
       rbind (cross_tick pool (ws_liquidity s) next_tick zero_for_one) (\<lambda>liquidity.
       Inr (Crossed \<lparr>ws_liquidity = liquidity, ws_sqrt_price = target_sqrt,
              ws_remaining = ws_remaining s - gross_needed, ws_out = ws_out s + ucast out,
              ws_fee = ws_fee s + fee\<rparr>)))
     else
       rbind (ok_or (mul_div_floor (ws_remaining s) (denom - rate) denom)
                (QuoteMath ''the per-step net-of-fee amount overflowed 256 bits'')) (\<lambda>swappable.
       let fee = ws_remaining s - swappable in
       if swappable = 0 then Inr (Finished (s\<lparr>ws_fee := ws_fee s + fee\<rparr>))
       else
         rbind (next_sqrt_price_from_input zero_for_one (ws_liquidity s) (ws_sqrt_price s) swappable)
           (\<lambda>sqrt_next.
         rbind (output_for_move zero_for_one (ws_liquidity s) (ws_sqrt_price s) sqrt_next) (\<lambda>out.
         Inr (Finished (s\<lparr>ws_sqrt_price := sqrt_next, ws_remaining := 0,
                ws_out := ws_out s + ucast out, ws_fee := ws_fee s + fee\<rparr>))))))))"

fun walk_loop ::
  "pubkey \<Rightarrow> u128 \<Rightarrow> u128 \<Rightarrow> bool \<Rightarrow> u64 \<Rightarrow> initialized_tick list \<Rightarrow> walk_state \<Rightarrow> walk_state direct_result"
where
  "walk_loop pool rate denom zero_for_one amount_in candidates s =
     (if ws_remaining s = 0 then Inr s
      else if ws_liquidity s = 0 \<or> ws_sqrt_price s = 0 then
        Inl (InsufficientLiquidity pool amount_in ''liquidity was exhausted mid-walk'')
      else case candidates of
        [] \<Rightarrow> Inl (InsufficientLiquidity pool amount_in
               ''the size travels further than the loaded tick arrays cover'')
      | next_tick # rest \<Rightarrow>
          rbind (walk_pass pool rate denom zero_for_one next_tick s) (\<lambda>c. case c of
            Crossed s' \<Rightarrow> walk_loop pool rate denom zero_for_one amount_in rest s'
          | Finished s' \<Rightarrow> Inr s'))"

declare walk_loop.simps [simp del]

definition walk_ticks ::
  "pubkey \<Rightarrow> initialized_tick list \<Rightarrow> u128 \<Rightarrow> u128 \<Rightarrow> u64 \<Rightarrow> u64 \<Rightarrow> bool \<Rightarrow> u64
     \<Rightarrow> (u64 \<times> u64 \<times> u128) direct_result" where
  "walk_ticks pool candidates liquidity sqrt_price fee_rate fee_rate_denominator zero_for_one amount_in =
     (let rate = ucast fee_rate; denom = ucast fee_rate_denominator in
      if denom \<le> rate then Inl (QuoteMath ''the trade fee rate is not below its own denominator'')
      else rbind (walk_loop pool rate denom zero_for_one amount_in candidates
                    \<lparr>ws_liquidity = liquidity, ws_sqrt_price = sqrt_price, ws_remaining = ucast amount_in,
                     ws_out = 0, ws_fee = 0\<rparr>) (\<lambda>s.
             Inr (ucast (min (ws_out s) 0xFFFFFFFFFFFFFFFF), ucast (min (ws_fee s) 0xFFFFFFFFFFFFFFFF),
                  ws_sqrt_price s)))"

end
