(* ===== verification/Clmm_Arrays.thy ===== *)
theory Clmm_Arrays
  imports Clmm_Ticks
begin

text \<open>
  What the tick arithmetic of \<^theory_text>\<open>Clmm_Ticks\<close> computes: the start index is a floor, the price of a
  tick exists exactly on the programme's range, and the arrays of a swap are the first initialised ones
  in the direction the price moves.
\<close>

section \<open>Spans and start indices\<close>

lemma wrap_i32_id: "- 2147483648 \<le> x \<Longrightarrow> x < 2147483648 \<Longrightarrow> wrap_i32 x = x"
  by (simp add: wrap_i32_def)

lemma wrap_i32_range: "- (2 ^ 31) \<le> wrap_i32 x \<and> wrap_i32 x < 2 ^ 31"
  by (simp add: wrap_i32_def)

lemma uint_u16: "0 \<le> uint (x :: u16)" "uint (x :: u16) < 65536"
  using unsigned_less [of x, where 'a = int] by simp_all

lemma ticks_per_array_eq: "ticks_per_array sp = 60 * int (unat sp)"
proof -
  have "wrap_i32 (60 * uint sp) = 60 * uint sp"
    using uint_u16 [of sp] by (intro wrap_i32_id) linarith+
  then show ?thesis by (simp add: ticks_per_array_def TICK_ARRAY_SIZE_def)
qed

lemma ticks_per_array_bounds: "0 \<le> ticks_per_array sp" "ticks_per_array sp < 4194304"
  using uint_u16 [of sp] by (simp_all add: ticks_per_array_eq)

lemma ticks_per_array_pos: "0 < ticks_per_array sp \<longleftrightarrow> sp \<noteq> 0"
proof -
  have "0 < uint sp \<longleftrightarrow> sp \<noteq> 0"
    using uint_u16(1) [of sp] by (metis order_le_less unsigned_0 unsigned_eq_0_iff order_less_irrefl)
  then show ?thesis by (simp add: ticks_per_array_eq)
qed

lemma floor_index:
  fixes t s :: int
  assumes "0 < s"
  shows "(if t < 0 \<and> t smod s \<noteq> 0 then t sdiv s - 1 else t sdiv s) = t div s"
proof (cases "0 \<le> t")
  case True
  then show ?thesis using assms by (auto simp: signed_divide_int_def sgn_if)
next
  case False
  define n where "n = - t"
  have n: "t = - n" "0 < n" using False by (auto simp: n_def)
  have "t sdiv s = - (n div s)"
    using n assms by (simp add: signed_divide_int_def sgn_if)
  moreover have "t smod s = - (n mod s)"
    using n assms calculation by (simp add: signed_modulo_int_def minus_div_mult_eq_mod [symmetric])
  moreover have "t div s = (if n mod s = 0 then - (n div s) else - (n div s) - 1)"
    using n assms by (simp add: zdiv_zminus1_eq_if)
  ultimately show ?thesis using n by auto
qed

lemma tick_array_start_index_eq:
  "tick_array_start_index t sp =
     (if sp = 0 then None else Some (wrap_i32 (t div ticks_per_array sp * ticks_per_array sp)))"
  using floor_index [of "ticks_per_array sp" t] ticks_per_array_pos [of sp] ticks_per_array_bounds(1) [of sp]
  by (auto simp: tick_array_start_index_def Let_def)

text \<open>Within the programme's tick range the start index is the floor of the tick on the grid of array
  starts, negative ticks included: the array that starts there holds the tick.\<close>

theorem start_index_is_floor:
  assumes "tick_spacing \<noteq> 0" and "MIN_TICK \<le> tick" and "tick \<le> MAX_TICK"
  shows "\<exists>start. tick_array_start_index tick tick_spacing = Some start
     \<and> ticks_per_array tick_spacing dvd start
     \<and> start \<le> tick \<and> tick < start + ticks_per_array tick_spacing"
proof -
  let ?s = "ticks_per_array tick_spacing"
  have s: "0 < ?s" "?s < 4194304"
    using assms(1) ticks_per_array_bounds by (simp_all add: ticks_per_array_pos)
  have eq: "tick div ?s * ?s = tick - tick mod ?s" by (simp add: minus_mod_eq_div_mult)
  have m: "0 \<le> tick mod ?s" "tick mod ?s < ?s" using s by simp_all
  have "wrap_i32 (tick div ?s * ?s) = tick div ?s * ?s"
    using assms(2,3) m s unfolding eq MIN_TICK_def MAX_TICK_def by (intro wrap_i32_id) linarith+
  with assms(1) m show ?thesis
    by (auto simp: tick_array_start_index_eq eq intro!: dvd_minus_mod)
qed

theorem start_index_is_floor_witness:
  "\<exists>start. tick_array_start_index (- 22882) 1 = Some start \<and> ticks_per_array 1 dvd start
     \<and> start \<le> - 22882 \<and> - 22882 < start + ticks_per_array 1"
  by (rule start_index_is_floor) (simp_all add: MIN_TICK_def MAX_TICK_def)

section \<open>The price of a tick\<close>

lemma apply_magic_total:
  assumes "unat r \<le> 2 ^ 64" and "unat m < 2 ^ 64"
  shows "\<exists>r'. apply_magic a (k, m) (Some r) = Some r' \<and> unat r * unat m div 2 ^ 64 \<le> unat r' \<and> unat r' \<le> unat r"
proof (cases "bit_set a k")
  case True
  have "unat r * unat m \<le> 2 ^ 64 * unat m" using assms(1) by (rule mult_le_mono1)
  also have "\<dots> < 2 ^ 64 * 2 ^ 64" using assms(2) by simp
  finally have p: "unat r * unat m < 2 ^ 128" by simp
  then have up: "unat (r * m) = unat r * unat m" by (intro unat_mul_exact) simp
  have d: "unat (drop_bit 64 (r * m)) = unat r * unat m div 2 ^ 64"
    by (simp add: unat_drop_bit_eq drop_bit_eq_div unat_div up)
  have "unat r * unat m div 2 ^ 64 \<le> unat r * 2 ^ 64 div 2 ^ 64"
    using assms(2) by (intro div_le_mono mult_le_mono2) simp
  with True p d show ?thesis
    by (auto simp: apply_magic_def checked_mul_def checked_shr_def)
next
  case False
  have "unat r * unat m div 2 ^ 64 \<le> unat r * 2 ^ 64 div 2 ^ 64"
    using assms(2) by (intro div_le_mono mult_le_mono2) simp
  with False show ?thesis by (simp add: apply_magic_def)
qed

text \<open>Applying every factor bounds applying some of them from below.\<close>

fun floor_chain :: "(nat \<times> u128) list \<Rightarrow> nat \<Rightarrow> nat" where
  "floor_chain [] n = n"
| "floor_chain ((k, m) # ms) n = floor_chain ms (n * unat m div 2 ^ 64)"

lemma floor_chain_mono: "a \<le> b \<Longrightarrow> floor_chain ms a \<le> floor_chain ms b"
  by (induction ms a arbitrary: b rule: floor_chain.induct)
    (simp_all add: div_le_mono)

lemma fold_magic_total:
  assumes "unat r \<le> 2 ^ 64" and "\<forall>(k, m) \<in> set ms. unat m < 2 ^ 64"
  shows "\<exists>r'. fold (apply_magic a) ms (Some r) = Some r' \<and> floor_chain ms (unat r) \<le> unat r' \<and> unat r' \<le> unat r"
  using assms
proof (induction ms arbitrary: r)
  case Nil
  then show ?case by simp
next
  case (Cons p ms)
  obtain k m where p: "p = (k, m)" by force
  obtain r1 where r1: "apply_magic a (k, m) (Some r) = Some r1"
      "unat r * unat m div 2 ^ 64 \<le> unat r1" "unat r1 \<le> unat r"
    using apply_magic_total [of r m a k] Cons.prems p by auto
  obtain r2 where r2: "fold (apply_magic a) ms (Some r1) = Some r2"
      "floor_chain ms (unat r1) \<le> unat r2" "unat r2 \<le> unat r1"
    using Cons.IH [of r1] Cons.prems r1(3) by auto
  have "floor_chain (p # ms) (unat r) \<le> floor_chain ms (unat r1)"
    using r1(2) by (simp add: p floor_chain_mono)
  with r1 r2 show ?case by (auto simp: p)
qed

lemma magic_small: "\<forall>(k, m) \<in> set (tl MAGIC). unat m < 2 ^ 64"
  by (simp add: MAGIC_def)

lemma magic_floor: "1000000 \<le> floor_chain (tl MAGIC) 0xfffcb933bd6fb800"
  by (simp add: MAGIC_def)

lemma price_below_one:
  "\<exists>r. fold (apply_magic a) (tl MAGIC) (Some (if bit_set a 0 then 0xfffcb933bd6fb800 else push_bit 64 1)) = Some r
     \<and> 1000000 \<le> unat r \<and> unat r \<le> 2 ^ 64"
proof -
  define start :: u128 where "start = (if bit_set a 0 then 0xfffcb933bd6fb800 else push_bit 64 1)"
  have one: "unat (push_bit 64 1 :: u128) = 2 ^ 64" by (simp add: push_bit_eq_mult)
  have le: "unat start \<le> 2 ^ 64" by (simp add: start_def one)
  have ge: "0xfffcb933bd6fb800 \<le> unat start" by (simp add: start_def one)
  obtain r where r: "fold (apply_magic a) (tl MAGIC) (Some start) = Some r"
      "floor_chain (tl MAGIC) (unat start) \<le> unat r" "unat r \<le> unat start"
    using fold_magic_total [OF le magic_small] by blast
  have "1000000 \<le> floor_chain (tl MAGIC) (unat start)"
    using magic_floor floor_chain_mono [OF ge] by (rule le_trans)
  with r le show ?thesis by (fold start_def) (auto intro: le_trans)
qed

lemma sqrt_price_Some:
  assumes "get_sqrt_price_at_tick tick = Some p"
  shows "0 < p" "if tick \<le> 0 then unat p \<le> 2 ^ 64 else 2 ^ 64 - 1 \<le> unat p"
proof -
  obtain r where r: "fold (apply_magic (nat \<bar>tick\<bar>)) (tl MAGIC)
        (Some (if bit_set (nat \<bar>tick\<bar>) 0 then 0xfffcb933bd6fb800 else push_bit 64 1)) = Some r"
      "1000000 \<le> unat r" "unat r \<le> 2 ^ 64"
    using price_below_one by blast
  have r0: "0 < r" using r(2) by (auto simp: word_less_nat_alt)
  have p: "p = (if 0 < tick then - 1 div r else r)"
    using assms r(1) r0
    by (auto simp: get_sqrt_price_at_tick_def Let_def checked_div_def split: if_splits)
  have "(2 ^ 128 - 1) div 2 ^ 64 \<le> (2 ^ 128 - 1) div unat r"
    using r by (intro div_le_mono2) auto
  then have big: "2 ^ 64 - 1 \<le> unat (- 1 div r)"
    by (simp add: unat_div unat_all_ones)
  then have "0 < - 1 div r" by (simp add: word_less_nat_alt)
  with r r0 p big show "0 < p" "if tick \<le> 0 then unat p \<le> 2 ^ 64 else 2 ^ 64 - 1 \<le> unat p"
    by auto
qed

lemma sqrt_price_None: "get_sqrt_price_at_tick tick = None \<longleftrightarrow> tick < MIN_TICK \<or> MAX_TICK < tick"
proof -
  obtain r where r: "fold (apply_magic (nat \<bar>tick\<bar>)) (tl MAGIC)
        (Some (if bit_set (nat \<bar>tick\<bar>) 0 then 0xfffcb933bd6fb800 else push_bit 64 1)) = Some r"
      "1000000 \<le> unat r"
    using price_below_one by blast
  then have "r \<noteq> 0" by auto
  with r(1) show ?thesis by (simp add: get_sqrt_price_at_tick_def Let_def checked_div_def)
qed

text \<open>C36: the price of a tick exists exactly on the programme's range (no intermediate product
  overflows), is never zero, and lies on the right side of one.\<close>

theorem sqrt_price_exists_on_range:
  "(get_sqrt_price_at_tick tick = None \<longleftrightarrow> tick < MIN_TICK \<or> MAX_TICK < tick)
   \<and> (\<forall>p. get_sqrt_price_at_tick tick = Some p \<longrightarrow>
        0 < p \<and> (if tick \<le> 0 then unat p \<le> 2 ^ 64 else 2 ^ 64 - 1 \<le> unat p))"
  using sqrt_price_None sqrt_price_Some by blast

theorem sqrt_price_exists_on_range_witness:
  "\<exists>p. get_sqrt_price_at_tick (- 22882) = Some p \<and> 0 < p \<and> unat p \<le> 2 ^ 64"
proof -
  obtain p where "get_sqrt_price_at_tick (- 22882) = Some p"
    using sqrt_price_exists_on_range [of "- 22882"] by (auto simp: MIN_TICK_def MAX_TICK_def)
  then show ?thesis using sqrt_price_exists_on_range [of "- 22882"] by auto
qed

section \<open>The arrays of a swap\<close>

text \<open>
  The reference: the starts at one span's distance from each other, from the array of the current tick on
  and as long as they are within the bitmap's reach; of these, the first three initialised ones.
\<close>

definition starts_in_reach :: "i32 \<Rightarrow> i32 \<Rightarrow> i32 \<Rightarrow> nat \<Rightarrow> i32 list" where
  "starts_in_reach reach step start n =
     takeWhile (\<lambda>x. \<bar>x\<bar> \<le> reach) (map (\<lambda>k. start + int k * step) [0..<n])"

lemma starts_in_reach_0 [simp]: "starts_in_reach reach step start 0 = []"
  by (simp add: starts_in_reach_def)

lemma starts_in_reach_Suc:
  "starts_in_reach reach step start (Suc n) =
     (if \<bar>start\<bar> \<le> reach then start # starts_in_reach reach step (start + step) n else [])"
proof -
  have "map (\<lambda>k. start + int k * step) [0..<Suc n]
      = start # map (\<lambda>k. (start + step) + int k * step) [0..<n]"
    by (simp add: upt_conv_Cons map_Suc_upt [symmetric] del: upt_Suc) (simp add: algebra_simps)
  then show ?thesis by (simp add: starts_in_reach_def)
qed

lemma scan_arrays_eq:
  assumes "0 < ticks_per_array sp" and "reach < 2 ^ 31"
    and "nat (reach + 1 + (if z then start else - start)) \<le> n" and "length found \<le> TICK_ARRAYS_PER_SWAP"
  shows "scan_arrays bm sp z reach found start = found @
     take (TICK_ARRAYS_PER_SWAP - length found)
       (filter (\<lambda>x. is_initialised bm x sp) (starts_in_reach reach (swap_step sp z) start n))"
  using assms(3,4)
proof (induction n arbitrary: found start)
  case 0
  then have "reach < \<bar>start\<bar>" by (auto split: if_splits)
  then show ?case by (subst scan_arrays.simps) simp
next
  case (Suc n)
  let ?next = "start + swap_step sp z"
  let ?found = "if is_initialised bm start sp then found @ [start] else found"
  consider "reach < \<bar>start\<bar>" | "length found = TICK_ARRAYS_PER_SWAP"
    | "\<bar>start\<bar> \<le> reach" "length found < TICK_ARRAYS_PER_SWAP" using Suc.prems by linarith
  then show ?case
  proof cases
    case 3
    have len: "length ?found \<le> TICK_ARRAYS_PER_SWAP" using 3 by simp
    have m: "nat (reach + 1 + (if z then ?next else - ?next)) \<le> n"
      using Suc.prems(1) assms(1) by (auto simp: swap_step_def Let_def)
    have out: "starts_in_reach reach (swap_step sp z) ?next n = []"
      if "?next < - (2 ^ 31) \<or> 2 ^ 31 \<le> ?next"
      using that assms(2) by (cases n) (auto simp: starts_in_reach_Suc)
    show ?thesis
    proof (cases "?next < - (2 ^ 31) \<or> 2 ^ 31 \<le> ?next")
      case True
      then show ?thesis
        using 3 assms(1) out by (subst scan_arrays.simps) (simp add: Let_def starts_in_reach_Suc)
    next
      case False
      then have "scan_arrays bm sp z reach found start = scan_arrays bm sp z reach ?found ?next"
        using 3 assms(1) by (subst scan_arrays.simps) (simp add: Let_def)
      also have "\<dots> = ?found @ take (TICK_ARRAYS_PER_SWAP - length ?found)
         (filter (\<lambda>x. is_initialised bm x sp) (starts_in_reach reach (swap_step sp z) ?next n))"
        by (rule Suc.IH [OF m len])
      finally show ?thesis
        using 3 by (simp add: starts_in_reach_Suc take_Cons' Suc_diff_Suc)
    qed
  qed (subst scan_arrays.simps; simp add: starts_in_reach_Suc)+
qed

definition bitmap_reach :: "u16 \<Rightarrow> i32" where
  "bitmap_reach sp = wrap_i32 (pool_bitmap_reach sp
     + wrap_i32 (wrap_i32 (ticks_per_array sp * EXTENSION_BLOCK_BITS) * int EXTENSION_BLOCKS))"

lemma arrays_for_swap_take:
  assumes "tick_array_start_index tick_current tick_spacing = Some start"
    and "nat (bitmap_reach tick_spacing + 1 + \<bar>start\<bar>) \<le> n"
  shows "arrays_for_swap bm tick_current tick_spacing zero_for_one =
     take 3 (filter (\<lambda>x. is_initialised bm x tick_spacing)
       (starts_in_reach (bitmap_reach tick_spacing) (swap_step tick_spacing zero_for_one) start n))"
proof -
  have pos: "0 < ticks_per_array tick_spacing"
    using assms(1) by (simp add: tick_array_start_index_eq ticks_per_array_pos split: if_splits)
  have "arrays_for_swap bm tick_current tick_spacing zero_for_one
      = scan_arrays bm tick_spacing zero_for_one (bitmap_reach tick_spacing) [] start"
    using assms(1) by (simp add: arrays_for_swap_def Let_def bitmap_reach_def)
  also have "\<dots> = [] @ take (TICK_ARRAYS_PER_SWAP - length ([] :: i32 list))
       (filter (\<lambda>x. is_initialised bm x tick_spacing)
         (starts_in_reach (bitmap_reach tick_spacing) (swap_step tick_spacing zero_for_one) start n))"
    using pos assms(2) wrap_i32_range
    by (intro scan_arrays_eq) (auto simp: bitmap_reach_def TICK_ARRAYS_PER_SWAP_def)
  finally show ?thesis by (simp add: TICK_ARRAYS_PER_SWAP_def)
qed

lemma arrays_for_swap_initialised:
  "length (arrays_for_swap bm tick sp z) \<le> 3"
  "x \<in> set (arrays_for_swap bm tick sp z) \<Longrightarrow> is_initialised bm x sp"
proof -
  let ?as = "arrays_for_swap bm tick sp z"
  have "length ?as \<le> 3 \<and> (\<forall>x \<in> set ?as. is_initialised bm x sp)"
  proof (cases "tick_array_start_index tick sp")
    case None
    then show ?thesis by (simp add: arrays_for_swap_def Let_def)
  next
    case (Some start)
    from arrays_for_swap_take [OF Some order_refl, of bm z] show ?thesis
      by (auto dest: in_set_takeD)
  qed
  then show "length ?as \<le> 3" "x \<in> set ?as \<Longrightarrow> is_initialised bm x sp" by auto
qed

text \<open>The tick arrays passed to a swap are exactly the first three initialised ones met from the array
  of the current tick in the direction the price moves: none that exists is skipped and none that does not
  exist is passed.\<close>

theorem arrays_for_swap_first_initialised:
  assumes "tick_array_start_index tick_current tick_spacing = Some start"
    and "nat (bitmap_reach tick_spacing + 1 + \<bar>start\<bar>) \<le> n"
  shows "arrays_for_swap bm tick_current tick_spacing zero_for_one =
     take 3 (filter (\<lambda>x. is_initialised bm x tick_spacing)
       (starts_in_reach (bitmap_reach tick_spacing) (swap_step tick_spacing zero_for_one) start n))"
  using assms by (rule arrays_for_swap_take)

definition sample_bitmap :: tick_array_bitmap where
  "sample_bitmap = \<lparr>tb_pool = replicate 7 0 @ [0xE000000000000000] @ replicate 8 0,
     tb_positive = [], tb_negative = []\<rparr>"

lemma sample_bitmap_bits [simp]:
  "is_initialised sample_bitmap (- 60) 1" "is_initialised sample_bitmap (- 120) 1"
  "is_initialised sample_bitmap (- 180) 1"
  by (simp_all add: is_initialised_def bitmap_bit_def sample_bitmap_def ticks_per_array_eq Let_def
      POOL_BITMAP_BITS_def signed_divide_int_def push_bit_eq_mult nth_append)

lemma sample_arrays: "arrays_for_swap sample_bitmap (- 1) 1 True = [- 60, - 120, - 180]"
  by (simp add: arrays_for_swap_def tick_array_start_index_eq ticks_per_array_eq scan_arrays.simps Let_def
      wrap_i32_id swap_step_def TICK_ARRAYS_PER_SWAP_def pool_bitmap_reach_def POOL_BITMAP_BITS_def
      EXTENSION_BLOCK_BITS_def EXTENSION_BLOCKS_def)

theorem arrays_for_swap_first_initialised_witness:
  "[- 60, - 120, - 180] = take 3 (filter (\<lambda>x. is_initialised sample_bitmap x 1)
       (starts_in_reach (bitmap_reach 1) (swap_step 1 True) (- 60) (nat (bitmap_reach 1 + 61))))"
  using arrays_for_swap_first_initialised [of "- 1" 1 "- 60" "nat (bitmap_reach 1 + 61)" sample_bitmap True]
  by (simp add: sample_arrays tick_array_start_index_eq ticks_per_array_eq wrap_i32_id)

end
