(* ===== verification/Clmm_Walk.thy ===== *)
theory Clmm_Walk
  imports Clmm_Arrays
begin

text \<open>
  The walk of a swap through its ticks, refined to a sequence of legs. At constant liquidity \<open>L\<close> and
  square-root price \<open>p\<close> (Q64.64) a pool behaves like a constant-product pool whose virtual reserves are
  \<open>L * 2^64 / p\<close> of token 0 and \<open>L * p / 2^64\<close> of token 1. A leg is fair when it pays at most what such a
  pool would.
\<close>

section \<open>Curve algebra\<close>

lemma zero_in_pays_at_most:
  fixes L N p q x y :: nat
  assumes "y * 2 ^ 64 \<le> L * (p - q)" and "N * p \<le> q * (N + x * p)"
  shows "y * 2 ^ 64 * (N + x * p) \<le> L * p * (x * p)"
proof -
  have "(p - q) * (N + x * p) \<le> x * p * p"
  proof (cases "p \<le> q")
    case False
    then obtain d where "p = q + d" using less_imp_add_positive [of q p] by auto
    with assms(2) show ?thesis by (simp add: algebra_simps)
  qed simp
  then have "L * (p - q) * (N + x * p) \<le> L * (x * p * p)"
    unfolding mult.assoc [of L] by (rule mult_le_mono2)
  also have "\<dots> = L * p * (x * p)" by (simp add: mult_ac)
  finally show ?thesis using mult_le_mono1 [OF assms(1), of "N + x * p"] by (rule le_trans [rotated])
qed

lemma one_in_pays_at_most:
  fixes L N p q x y :: nat
  assumes "y * p * q \<le> N * (q - p)" and "q * L \<le> L * p + x" and "0 < q"
  shows "y * p * (L * p + x) \<le> N * x"
proof -
  define M where "M = L * p + x"
  have "y * p * q * M \<le> N * (q - p) * M" using assms(1) by (rule mult_le_mono1)
  also have "\<dots> = N * (q * M - p * M)" by (simp add: diff_mult_distrib mult.assoc)
  also have "\<dots> \<le> N * (q * M - p * (q * L))"
    using assms(2) by (intro mult_le_mono2 diff_le_mono2) (simp add: M_def)
  also have "\<dots> = N * x * q"
    by (simp add: M_def algebra_simps)
  finally have "(y * p * M) * q \<le> (N * x) * q" by (simp add: mult.assoc mult.left_commute mult.commute)
  with assms(3) show ?thesis by (simp add: M_def)
qed

lemma cdiv_less: "0 < b \<Longrightarrow> c < cdiv a b \<Longrightarrow> c * b < a"
  using cdiv_le_iff [of b a c] by linarith

section \<open>The step functions as natural numbers\<close>

text \<open>The liquidity scaled to Q64.64, with the bits the shift loses.\<close>

abbreviation scaled :: "u128 \<Rightarrow> nat" where
  "scaled L \<equiv> unat (push_bit 64 L)"

lemma scaled_exact: "unat L < 2 ^ 64 \<Longrightarrow> scaled L = unat L * 2 ^ 64"
  by (simp add: push_bit_eq_mult unat_mul_exact)

lemma scaled_le: "scaled L \<le> unat L * 2 ^ 64"
  by (simp add: push_bit_eq_mult unat_word_ariths)

lemma unat_Q64 [simp]: "unat Q64 = 2 ^ 64"
  by (simp add: Q64_def push_bit_eq_mult)

lemma output_zero_in:
  assumes "output_for_move True L p q = Inr y"
  shows "unat y * 2 ^ 64 \<le> unat L * (unat p - unat q)"
proof -
  obtain o1 :: u128 where o1: "unat o1 = unat L * (unat p - unat q) div 2 ^ 64"
      and y: "y = ucast (min o1 0xFFFFFFFFFFFFFFFF)"
    using assms by (auto simp: output_for_move_def Let_def res_simps mul_div_floor_Some)
  have "unat y \<le> unat o1" by (simp add: y unat_narrow)
  then have "unat y * 2 ^ 64 \<le> unat L * (unat p - unat q) div 2 ^ 64 * 2 ^ 64" using o1 by simp
  also have "\<dots> \<le> unat L * (unat p - unat q)" by (rule div_times_less_eq_dividend)
  finally show ?thesis .
qed

lemma output_one_in:
  assumes "output_for_move False L p q = Inr y" and "0 < p"
  shows "unat y * unat p * unat q \<le> scaled L * (unat q - unat p)"
proof -
  obtain i where i: "unat i = scaled L * (unat q - unat p) div unat q"
      and y: "y = ucast (min (i div max p 1) 0xFFFFFFFFFFFFFFFF)"
    using assms(1) by (auto simp: output_for_move_def Let_def res_simps mul_div_floor_Some checked_shl_def)
  have p: "max (unat p) (Suc 0) = unat p" using assms(2) by (simp add: word_less_nat_alt)
  have "unat y \<le> unat (i div max p 1)" by (simp add: y unat_narrow)
  also have "\<dots> = unat i div unat p" by (simp add: unat_div p)
  finally have "unat y * unat p \<le> unat i"
    by (metis div_times_less_eq_dividend le_trans mult_le_mono1)
  then have "unat y * unat p * unat q \<le> scaled L * (unat q - unat p) div unat q * unat q"
    using i by (metis mult_le_mono1)
  also have "\<dots> \<le> scaled L * (unat q - unat p)" by (rule div_times_less_eq_dividend)
  finally show ?thesis .
qed

lemma input_zero_in:
  assumes "input_for_move True L p q = Inr t" and "q < p" and "0 < q"
  shows "unat t = cdiv (cdiv (scaled L * (unat p - unat q)) (unat p)) (unat q)"
proof -
  have "max (unat q) (Suc 0) = unat q" using assms(3) by (simp add: word_less_nat_alt)
  moreover have "\<not> p \<le> q" using assms(2) by simp
  ultimately show ?thesis
    using assms
    by (auto simp: input_for_move_def Let_def res_simps mul_div_ceil_Some checked_shl_def unat_ceil_div
        unat_sub_exact unat_eq_0)
qed

lemma input_one_in:
  assumes "input_for_move False L p q = Inr t" and "p < q"
  shows "unat t = cdiv (unat L * (unat q - unat p)) (2 ^ 64)"
proof -
  have "\<not> q \<le> p" using assms(2) by simp
  with assms show ?thesis
    by (auto simp: input_for_move_def Let_def res_simps mul_div_ceil_Some unat_sub_exact)
qed

lemma input_for_move_behind:
  "input_for_move z L p q = Inr t \<Longrightarrow> (if z then p \<le> q else q \<le> p) \<Longrightarrow> t = 0"
  by (auto simp: input_for_move_def Let_def split: if_splits)

lemma next_zero_in:
  assumes "next_sqrt_price_from_input True L p x = Inr q"
  shows "0 < scaled L + unat x * unat p"
    and "unat q = cdiv (scaled L * unat p) (scaled L + unat x * unat p)"
proof -
  have *: "unat (x * p) = unat x * unat p" if "unat x * unat p < 2 ^ 128"
    using that by (intro unat_mul_exact) simp
  have **: "unat (push_bit 64 L + x * p) = scaled L + unat x * unat p"
    if "unat x * unat p < 2 ^ 128" "scaled L + unat (x * p) < 2 ^ 128"
    using that by (simp add: unat_add_exact *)
  show "unat q = cdiv (scaled L * unat p) (scaled L + unat x * unat p)"
    using assms **
    by (auto simp: next_sqrt_price_from_input_def Let_def res_simps mul_div_ceil_Some checked_shl_def)
  show "0 < scaled L + unat x * unat p"
    using assms **
    by (auto simp: next_sqrt_price_from_input_def Let_def res_simps mul_div_ceil_Some checked_shl_def
        simp flip: unat_eq_0)
qed

lemma next_one_in:
  assumes "next_sqrt_price_from_input False L p x = Inr q"
  shows "0 < unat L" and "unat q = unat p + unat x * 2 ^ 64 div unat L"
  using assms
  by (auto simp: next_sqrt_price_from_input_def Let_def res_simps mul_div_floor_Some unat_add_exact
      word_neq_0_conv word_less_nat_alt)

section \<open>Partial steps\<close>

text \<open>When the input runs out before the next tick, the new price lies strictly on the near side of
  that tick and never on the wrong side of the old price.\<close>

theorem partial_step_stops_short:
  assumes "input_for_move zero_for_one L p target = Inr needed"
    and "next_sqrt_price_from_input zero_for_one L p x = Inr q"
    and "x < needed" and "0 < target"
  shows "if zero_for_one then target < q \<and> q \<le> p else p \<le> q \<and> q < target"
proof (cases zero_for_one)
  case True
  have side: "target < p"
    using assms(1,3) True input_for_move_behind [of zero_for_one L p target needed] by (auto simp flip: not_le)
  define N where "N = scaled L"
  have t: "unat needed = cdiv (cdiv (N * (unat p - unat target)) (unat p)) (unat target)"
    using input_zero_in [of L p target needed] assms(1,4) True side by (simp add: N_def)
  have q: "unat q = cdiv (N * unat p) (N + unat x * unat p)" "0 < N + unat x * unat p"
    using next_zero_in [of L p x q] assms(2) True by (simp_all add: N_def)
  have pos: "0 < unat target" "0 < unat p" "unat target < unat p"
    using assms(4) side by (simp_all add: word_less_nat_alt)
  have "unat x * unat target < cdiv (N * (unat p - unat target)) (unat p)"
    using assms(3) t pos by (intro cdiv_less) (simp_all add: word_less_nat_alt)
  then have lt: "unat x * unat target * unat p < N * (unat p - unat target)"
    by (rule cdiv_less [OF pos(2)])
  obtain d where d: "unat p = unat target + d" using le_Suc_ex [OF less_imp_le [OF pos(3)]] by blast
  have "unat target * (N + unat x * unat p) < N * unat p"
    using lt by (simp add: d algebra_simps)
  also have "\<dots> \<le> unat q * (N + unat x * unat p)"
    using cdiv_mult_ge [OF q(2)] by (simp add: q(1))
  finally have "unat target < unat q" by (metis mult_less_cancel2)
  moreover have "unat q \<le> unat p"
    unfolding q(1) by (subst cdiv_le_iff [OF q(2)]) (simp add: algebra_simps)
  ultimately show ?thesis using True by (simp add: word_less_nat_alt word_le_nat_alt)
next
  case False
  have side: "p < target"
    using assms(1,3) False input_for_move_behind [of zero_for_one L p target needed] by (auto simp flip: not_le)
  have t: "unat needed = cdiv (unat L * (unat target - unat p)) (2 ^ 64)"
    using input_one_in [of L p target needed] assms(1) False side by simp
  have q: "0 < unat L" "unat q = unat p + unat x * 2 ^ 64 div unat L"
    using next_one_in [of L p x q] assms(2) False by simp_all
  have "unat x * 2 ^ 64 < unat L * (unat target - unat p)"
    using assms(3) t by (intro cdiv_less) (simp_all add: word_less_nat_alt)
  then have "unat x * 2 ^ 64 div unat L < unat target - unat p"
    using q(1) by (simp add: less_mult_imp_div_less mult.commute)
  then have "unat q < unat target" using q(2) by linarith
  then show ?thesis using False q(2) by (simp add: word_less_nat_alt word_le_nat_alt)
qed

lemma sample_step:
  "input_for_move True 1000000 0x10000000000000000 0x8000000000000000 = Inr 1000000"
  "next_sqrt_price_from_input True 1000000 0x10000000000000000 1000 = Inr 18428315757951600016"
proof -
  have "mul_div_ceil 18446744073709551616000000 0x8000000000000000 0x10000000000000000
      = Some (9223372036854775808000000 :: u128)"
    by (simp add: mul_div_ceil_Some cdiv_def)
  then show "input_for_move True 1000000 0x10000000000000000 0x8000000000000000 = Inr 1000000"
    by (simp add: input_for_move_def Let_def checked_shl_def push_bit_eq_mult word_unat_eq_iff unat_ceil_div
        cdiv_def)
  have "mul_div_ceil 18446744073709551616000000 0x10000000000000000 18465190817783261167616000
      = Some (18428315757951600016 :: u128)"
    by (simp add: mul_div_ceil_Some cdiv_def)
  then show "next_sqrt_price_from_input True 1000000 0x10000000000000000 1000 = Inr 18428315757951600016"
    by (simp add: next_sqrt_price_from_input_def Let_def checked_shl_def checked_mul_def checked_add_def
        push_bit_eq_mult)
qed

theorem partial_step_stops_short_witness:
  "(0x8000000000000000 :: u128) < 18428315757951600016 \<and> (18428315757951600016 :: u128) \<le> 0x10000000000000000"
  using partial_step_stops_short [OF sample_step] by simp

section \<open>Legs\<close>

record leg =
  lg_liquidity :: u128
  lg_price :: u128
  lg_paid :: nat
  lg_received :: nat

definition fair_leg :: "bool \<Rightarrow> leg \<Rightarrow> bool" where
  "fair_leg zero_for_one g =
     (let L = unat (lg_liquidity g); p = unat (lg_price g); x = lg_paid g; y = lg_received g in
      if zero_for_one then y * 2 ^ 64 * (L * 2 ^ 64 + x * p) \<le> L * p * (x * p)
      else y * p * (L * p + x * 2 ^ 64) \<le> L * 2 ^ 64 * (x * 2 ^ 64))"

text \<open>Lowering the price through liquidity of \<open>2^64\<close> or more is the one leg of which nothing is claimed: scaling
  the liquidity loses its high bits.\<close>

definition oversized :: "bool \<Rightarrow> leg \<Rightarrow> bool" where
  "oversized zero_for_one g \<longleftrightarrow> zero_for_one \<and> 2 ^ 64 \<le> unat (lg_liquidity g)"

lemma fair_partial:
  assumes "next_sqrt_price_from_input z L p x = Inr q" and "output_for_move z L p q = Inr y"
    and "0 < p"
  shows "oversized z \<lparr>lg_liquidity = L, lg_price = p, lg_paid = unat x, lg_received = unat y\<rparr>
    \<or> fair_leg z \<lparr>lg_liquidity = L, lg_price = p, lg_paid = unat x, lg_received = unat y\<rparr>"
proof (cases z)
  case True
  have n: "next_sqrt_price_from_input True L p x = Inr q" and o1: "output_for_move True L p q = Inr y"
    using assms(1,2) True by simp_all
  note q = next_zero_in [OF n]
  have "scaled L * unat p \<le> unat q * (scaled L + unat x * unat p)"
    using cdiv_mult_ge [OF q(1)] by (simp add: q(2))
  with output_zero_in [OF o1]
  have "unat y * 2 ^ 64 * (scaled L + unat x * unat p) \<le> unat L * unat p * (unat x * unat p)"
    by (rule zero_in_pays_at_most)
  then show ?thesis by (cases "unat L < 2 ^ 64") (simp_all only: scaled_exact, simp_all add: fair_leg_def oversized_def Let_def True)
next
  case False
  have n: "next_sqrt_price_from_input False L p x = Inr q" and o1: "output_for_move False L p q = Inr y"
    using assms(1,2) False by simp_all
  note q = next_one_in [OF n]
  have "unat q * unat L \<le> unat L * unat p + unat x * 2 ^ 64"
    using div_times_less_eq_dividend [of "unat x * 2 ^ 64" "unat L"] by (simp add: q(2) algebra_simps)
  moreover have "0 < unat q" using assms(3) by (simp add: q(2) word_less_nat_alt)
  ultimately have "unat y * unat p * (unat L * unat p + unat x * 2 ^ 64) \<le> scaled L * (unat x * 2 ^ 64)"
    using output_one_in [OF o1 assms(3)]
    by (intro one_in_pays_at_most)
  also have "\<dots> \<le> unat L * 2 ^ 64 * (unat x * 2 ^ 64)" by (intro mult_le_mono1 scaled_le)
  finally show ?thesis using False by (simp add: fair_leg_def Let_def)
qed

lemma fair_crossing:
  assumes "input_for_move z L p q = Inr t" and "output_for_move z L p q = Inr y" and "0 < p" and "0 < q"
  shows "oversized z \<lparr>lg_liquidity = L, lg_price = p, lg_paid = unat t, lg_received = unat y\<rparr>
    \<or> fair_leg z \<lparr>lg_liquidity = L, lg_price = p, lg_paid = unat t, lg_received = unat y\<rparr>"
proof (cases z)
  case True
  have "scaled L * unat p \<le> unat q * (scaled L + unat t * unat p)"
  proof (cases "p \<le> q")
    case True
    then have "scaled L * unat p \<le> scaled L * unat q" by (intro mult_le_mono2) (simp add: word_le_nat_alt)
    then show ?thesis by (simp only: distrib_left mult.commute [of "unat q"])
  next
    case False
    then have lt: "unat q < unat p" by (simp add: word_le_nat_alt)
    have t: "unat t = cdiv (cdiv (scaled L * (unat p - unat q)) (unat p)) (unat q)"
      using input_zero_in [of L p q t] assms(1,4) False \<open>z\<close> by (simp add: not_le)
    have pos: "0 < unat q" "0 < unat p" using assms(3,4) by (simp_all add: word_less_nat_alt)
    obtain d where d: "unat p = unat q + d" using le_Suc_ex [OF less_imp_le [OF lt]] by blast
    have "scaled L * (unat p - unat q) \<le> cdiv (scaled L * (unat p - unat q)) (unat p) * unat p"
      by (rule cdiv_mult_ge [OF pos(2)])
    also have "\<dots> \<le> unat t * unat q * unat p"
      unfolding t by (intro mult_le_mono1 cdiv_mult_ge [OF pos(1)])
    finally show ?thesis by (simp add: d algebra_simps)
  qed
  moreover have "unat y * 2 ^ 64 \<le> unat L * (unat p - unat q)"
    using output_zero_in [of L p q y] assms(2) True by simp
  ultimately have "unat y * 2 ^ 64 * (scaled L + unat t * unat p) \<le> unat L * unat p * (unat t * unat p)"
    by (intro zero_in_pays_at_most)
  then show ?thesis by (cases "unat L < 2 ^ 64") (simp_all only: scaled_exact, simp_all add: fair_leg_def oversized_def Let_def True)
next
  case False
  have "unat q * unat L \<le> unat L * unat p + unat t * 2 ^ 64"
  proof (cases "q \<le> p")
    case True
    then have "unat q * unat L \<le> unat L * unat p" by (simp add: word_le_nat_alt)
    then show ?thesis by linarith
  next
    case 2: False
    then have lt: "unat p < unat q" by (simp add: word_le_nat_alt)
    have t: "unat t = cdiv (unat L * (unat q - unat p)) (2 ^ 64)"
      using input_one_in [of L p q t] assms(1) 2 False by (simp add: not_le)
    obtain d where d: "unat q = unat p + d" using le_Suc_ex [OF less_imp_le [OF lt]] by blast
    have "unat L * (unat q - unat p) \<le> unat t * 2 ^ 64"
      unfolding t by (rule cdiv_mult_ge) simp
    then show ?thesis by (simp add: d algebra_simps)
  qed
  moreover have "0 < unat q" using assms(4) by (simp add: word_less_nat_alt)
  ultimately have "unat y * unat p * (unat L * unat p + unat t * 2 ^ 64) \<le> scaled L * (unat t * 2 ^ 64)"
    using output_one_in [of L p q y] assms(2,3) False by (intro one_in_pays_at_most) auto
  also have "\<dots> \<le> unat L * 2 ^ 64 * (unat t * 2 ^ 64)" by (intro mult_le_mono1 scaled_le)
  finally show ?thesis using False by (simp add: fair_leg_def Let_def)
qed

section \<open>One pass is one fair leg\<close>

text \<open>The fee a leg is charged covers the rate on everything it takes.\<close>

definition fee_covers :: "nat \<Rightarrow> nat \<Rightarrow> nat \<Rightarrow> nat \<Rightarrow> bool" where
  "fee_covers rate denom x f \<longleftrightarrow> x * denom \<le> (x + f) * (denom - rate)"

definition pass_leg ::
  "pubkey \<Rightarrow> nat \<Rightarrow> nat \<Rightarrow> bool \<Rightarrow> initialized_tick \<Rightarrow> walk_state \<Rightarrow> walk_control \<Rightarrow> leg \<Rightarrow> nat \<Rightarrow> bool" where
  "pass_leg pool rate denom z c s ctl g f \<longleftrightarrow>
     lg_liquidity g = ws_liquidity s \<and> lg_price g = ws_sqrt_price s \<and> (oversized z g \<or> fair_leg z g)
     \<and> lg_received g < 2 ^ 64 \<and> fee_covers rate denom (lg_paid g) f
     \<and> (case ctl of
          Crossed s' \<Rightarrow> unat (ws_remaining s) = lg_paid g + f + unat (ws_remaining s')
            \<and> ws_out s' = ws_out s + of_nat (lg_received g) \<and> ws_fee s' = ws_fee s + of_nat f
            \<and> get_sqrt_price_at_tick (it_tick c) = Some (ws_sqrt_price s')
            \<and> cross_tick pool (ws_liquidity s) c z = Inr (ws_liquidity s')
        | Finished s' \<Rightarrow> unat (ws_remaining s) = lg_paid g + f
            \<and> ws_out s' = ws_out s + of_nat (lg_received g) \<and> ws_fee s' = ws_fee s + of_nat f)"

text \<open>Inversion of one pass: the tick is crossed, or the input ends before it, perhaps on a fee alone.\<close>

lemma walk_pass_Inr:
  assumes "walk_pass pool rate denom z c s = Inr ctl" and "rate < denom"
  obtains
    (cross) target t gross out liquidity where
      "get_sqrt_price_at_tick (it_tick c) = Some target"
      "input_for_move z (ws_liquidity s) (ws_sqrt_price s) target = Inr t"
      "unat gross = cdiv (unat t * unat denom) (unat denom - unat rate)" "gross \<le> ws_remaining s"
      "output_for_move z (ws_liquidity s) (ws_sqrt_price s) target = Inr out"
      "cross_tick pool (ws_liquidity s) c z = Inr liquidity"
      "ctl = Crossed \<lparr>ws_liquidity = liquidity, ws_sqrt_price = target,
         ws_remaining = ws_remaining s - gross, ws_out = ws_out s + ucast out,
         ws_fee = ws_fee s + min (gross - t) 0xFFFFFFFFFFFFFFFF\<rparr>"
  | (dust) "unat (ws_remaining s) * (unat denom - unat rate) div unat denom = 0"
      "ctl = Finished (s\<lparr>ws_fee := ws_fee s + ws_remaining s\<rparr>)"
  | (partial) x q out where
      "unat x = unat (ws_remaining s) * (unat denom - unat rate) div unat denom"
      "next_sqrt_price_from_input z (ws_liquidity s) (ws_sqrt_price s) x = Inr q"
      "output_for_move z (ws_liquidity s) (ws_sqrt_price s) q = Inr out"
      "ctl = Finished (s\<lparr>ws_sqrt_price := q, ws_remaining := 0, ws_out := ws_out s + ucast out,
         ws_fee := ws_fee s + (ws_remaining s - x)\<rparr>)"
proof -
  have dr: "unat (denom - rate) = unat denom - unat rate" using assms(2) by (simp add: unat_sub_exact)
  from assms(1) obtain target t gross where 1: "get_sqrt_price_at_tick (it_tick c) = Some target"
    "input_for_move z (ws_liquidity s) (ws_sqrt_price s) target = Inr t"
    "(if t = 0 then Inr 0 else ok_or (mul_div_ceil t denom (denom - rate))
         (QuoteMath ''the per-step fee grossing-up overflowed 256 bits'')) = Inr gross"
    unfolding walk_pass_def Let_def by (auto simp: res_simps)
  have gross: "unat gross = cdiv (unat t * unat denom) (unat denom - unat rate)"
    using 1(3) by (auto simp: mul_div_ceil_Some dr cdiv_def res_simps split: if_splits)
  note step = assms(1) [unfolded walk_pass_def Let_def 1 ok_or.simps rbind.simps]
  show thesis
  proof (cases "gross \<le> ws_remaining s")
    case True
    with step show thesis
      by (auto simp: res_simps intro: cross [OF 1(1,2) gross True])
  next
    case False
    with step obtain x where
      x: "unat x = unat (ws_remaining s) * (unat denom - unat rate) div unat denom"
      and rest: "(if x = 0 then Inr (Finished (s\<lparr>ws_fee := ws_fee s + (ws_remaining s - x)\<rparr>))
       else
         rbind (next_sqrt_price_from_input z (ws_liquidity s) (ws_sqrt_price s) x)
           (\<lambda>sqrt_next.
         rbind (output_for_move z (ws_liquidity s) (ws_sqrt_price s) sqrt_next) (\<lambda>out.
         Inr (Finished (s\<lparr>ws_sqrt_price := sqrt_next, ws_remaining := 0,
                ws_out := ws_out s + ucast out, ws_fee := ws_fee s + (ws_remaining s - x)\<rparr>))))) = Inr ctl"
      by (auto simp: res_simps mul_div_floor_Some dr)
    show thesis
    proof (cases "x = 0")
      case True
      with rest x show thesis by (intro dust) auto
    next
      case False
      with rest show thesis by (auto simp: res_simps intro: partial [OF x])
    qed
  qed
qed

lemma crossed_pass_leg:
  assumes t: "input_for_move z (ws_liquidity s) (ws_sqrt_price s) target = Inr t"
    and target: "get_sqrt_price_at_tick (it_tick c) = Some target"
    and gross: "unat gross = cdiv (unat t * unat denom) (unat denom - unat rate)" "gross \<le> ws_remaining s"
    and out: "output_for_move z (ws_liquidity s) (ws_sqrt_price s) target = Inr out"
    and liq: "cross_tick pool (ws_liquidity s) c z = Inr liquidity"
    and rate: "unat rate < unat denom" and rem: "unat (ws_remaining s) < 2 ^ 64"
    and price: "0 < ws_sqrt_price s"
  shows "pass_leg pool (unat rate) (unat denom) z c s
     (Crossed \<lparr>ws_liquidity = liquidity, ws_sqrt_price = target,
        ws_remaining = ws_remaining s - gross, ws_out = ws_out s + ucast out,
        ws_fee = ws_fee s + min (gross - t) 0xFFFFFFFFFFFFFFFF\<rparr>)
     \<lparr>lg_liquidity = ws_liquidity s, lg_price = ws_sqrt_price s, lg_paid = unat t, lg_received = unat out\<rparr>
     (unat gross - unat t)"
proof -
  have g: "unat t * unat denom \<le> unat gross * (unat denom - unat rate)"
    unfolding gross(1) using rate by (intro cdiv_mult_ge) simp
  moreover have "unat t * (unat denom - unat rate) \<le> unat t * unat denom" by simp
  ultimately have "unat t * (unat denom - unat rate) \<le> unat gross * (unat denom - unat rate)"
    by (rule le_trans [rotated])
  then have tg: "unat t \<le> unat gross" using rate by simp
  have small: "unat gross < 2 ^ 64" and le: "unat gross \<le> unat (ws_remaining s)"
    using gross(2) rem by (simp_all add: word_le_nat_alt)
  have min: "min (gross - t) 0xFFFFFFFFFFFFFFFF = gross - t"
  proof (rule min_absorb1)
    have "unat (gross - t) \<le> unat gross" using tg by (simp add: unat_sub_exact word_le_nat_alt)
    with small show "gross - t \<le> 0xFFFFFFFFFFFFFFFF" by (simp add: word_le_nat_alt)
  qed
  have fee: "of_nat (unat gross - unat t) = gross - t"
    using tg by (simp add: of_nat_diff)
  have "0 < target" by (rule sqrt_price_Some(1) [OF target])
  note fair = fair_crossing [OF t out price this]
  show ?thesis
    using fair g tg le target liq unat_u64_lt [of out] gross(2)
    by (simp add: pass_leg_def fee_covers_def unat_sub_exact min fee)
qed

lemma walk_pass_leg:
  assumes pass: "walk_pass pool rate denom z c s = Inr ctl" and rate: "rate < denom"
    and rem: "unat (ws_remaining s) < 2 ^ 64" and price: "ws_sqrt_price s \<noteq> 0"
  obtains g f where "pass_leg pool (unat rate) (unat denom) z c s ctl g f"
proof -
  have p: "0 < ws_sqrt_price s" using price by (simp add: word_neq_0_conv)
  have r: "unat rate < unat denom" using rate by (simp add: word_less_nat_alt)
  from pass rate show thesis
  proof (cases rule: walk_pass_Inr)
    case cross
    then show thesis using crossed_pass_leg r rem p that by blast
  next
    case dust
    have "pass_leg pool (unat rate) (unat denom) z c s ctl
        \<lparr>lg_liquidity = ws_liquidity s, lg_price = ws_sqrt_price s, lg_paid = 0, lg_received = 0\<rparr>
        (unat (ws_remaining s))"
      by (simp add: dust(2) pass_leg_def fair_leg_def fee_covers_def Let_def)
    then show thesis by (rule that)
  next
    case (partial x q out)
    have xd: "unat x * unat denom \<le> unat (ws_remaining s) * (unat denom - unat rate)"
      unfolding partial(1) by (rule div_times_less_eq_dividend)
    moreover have "unat (ws_remaining s) * (unat denom - unat rate) \<le> unat (ws_remaining s) * unat denom"
      by simp
    ultimately have "unat x * unat denom \<le> unat (ws_remaining s) * unat denom" by (rule le_trans)
    then have xr: "unat x \<le> unat (ws_remaining s)" using r by simp
    then have fee: "of_nat (unat (ws_remaining s) - unat x) = ws_remaining s - x"
      by (simp add: of_nat_diff)
    have "pass_leg pool (unat rate) (unat denom) z c s ctl
        \<lparr>lg_liquidity = ws_liquidity s, lg_price = ws_sqrt_price s, lg_paid = unat x, lg_received = unat out\<rparr>
        (unat (ws_remaining s) - unat x)"
      using fair_partial [OF partial(2,3) p] xd xr unat_u64_lt [of out]
      by (simp add: pass_leg_def partial(4) fee_covers_def fee)
    then show thesis by (rule that)
  qed
qed

section \<open>The walk is a sequence of fair legs\<close>

text \<open>
  The abstract walk: the legs start at the pool's own liquidity and price, each is fair there, and each one
  after the first starts at the price of the tick crossed, with the liquidity that crossing leaves.
\<close>

fun walk_legs ::
  "pubkey \<Rightarrow> bool \<Rightarrow> initialized_tick list \<Rightarrow> u128 \<Rightarrow> u128 \<Rightarrow> leg list \<Rightarrow> bool" where
  "walk_legs pool z cs L p [] \<longleftrightarrow> True"
| "walk_legs pool z [] L p (g # gs) \<longleftrightarrow> False"
| "walk_legs pool z (c # cs) L p (g # gs) \<longleftrightarrow>
     lg_liquidity g = L \<and> lg_price g = p \<and> (oversized z g \<or> fair_leg z g)
     \<and> (gs = [] \<or> (case (get_sqrt_price_at_tick (it_tick c), cross_tick pool L c z) of
            (Some q, Inr L') \<Rightarrow> walk_legs pool z cs L' q gs
          | _ \<Rightarrow> False))"

abbreviation paid :: "leg list \<Rightarrow> nat" where "paid gs \<equiv> sum_list (map lg_paid gs)"
abbreviation received :: "leg list \<Rightarrow> nat" where "received gs \<equiv> sum_list (map lg_received gs)"

definition loop_legs ::
  "pubkey \<Rightarrow> nat \<Rightarrow> nat \<Rightarrow> bool \<Rightarrow> initialized_tick list \<Rightarrow> walk_state \<Rightarrow> walk_state \<Rightarrow> leg list \<Rightarrow> nat \<Rightarrow> bool"
where
  "loop_legs pool rate denom z cs s s' gs f \<longleftrightarrow>
     walk_legs pool z cs (ws_liquidity s) (ws_sqrt_price s) gs \<and> length gs \<le> length cs
     \<and> received gs \<le> length gs * 2 ^ 64 \<and> fee_covers rate denom (paid gs) f
     \<and> unat (ws_remaining s) = paid gs + f
     \<and> ws_out s' = ws_out s + of_nat (received gs) \<and> ws_fee s' = ws_fee s + of_nat f"

lemma fee_covers_add: "fee_covers r d x f \<Longrightarrow> fee_covers r d y h \<Longrightarrow> fee_covers r d (x + y) (f + h)"
  unfolding fee_covers_def
  by (drule (1) add_mono) (simp add: algebra_simps)

lemma loop_legs_finish:
  assumes "pass_leg pool rate denom z c s (Finished s') g f"
  shows "loop_legs pool rate denom z (c # cs) s s' [g] f"
  using assms by (simp add: pass_leg_def loop_legs_def)

lemma loop_legs_cross:
  assumes "pass_leg pool rate denom z c s (Crossed s1) g f" and "loop_legs pool rate denom z cs s1 s' gs h"
  shows "loop_legs pool rate denom z (c # cs) s s' (g # gs) (f + h)"
  using assms by (auto simp: pass_leg_def loop_legs_def add.assoc intro: fee_covers_add)

lemma walk_loop_legs:
  assumes "walk_loop pool rate denom z amount cs s = Inr s'" and "rate < denom"
    and "unat (ws_remaining s) < 2 ^ 64"
  shows "\<exists>gs f. loop_legs pool (unat rate) (unat denom) z cs s s' gs f"
  using assms
proof (induction cs arbitrary: s)
  case Nil
  then show ?case
    by (subst (asm) walk_loop.simps)
      (auto simp: loop_legs_def fee_covers_def split: if_splits intro!: exI [of _ "[]"])
next
  case (Cons c cs)
  show ?case
  proof (cases "ws_remaining s = 0")
    case True
    with Cons.prems(1) show ?thesis
      by (subst (asm) walk_loop.simps)
        (auto simp: loop_legs_def fee_covers_def intro!: exI [of _ "[]"])
  next
    case False
    with Cons.prems(1) obtain ctl where price: "ws_sqrt_price s \<noteq> 0"
      and pass: "walk_pass pool rate denom z c s = Inr ctl"
      and rest: "(case ctl of Crossed s1 \<Rightarrow> walk_loop pool rate denom z amount cs s1 | Finished s1 \<Rightarrow> Inr s1)
        = Inr s'"
      by (subst (asm) walk_loop.simps) (auto simp: res_simps split: if_splits)
    obtain g f where leg: "pass_leg pool (unat rate) (unat denom) z c s ctl g f"
      by (rule walk_pass_leg [OF pass Cons.prems(2,3) price])
    show ?thesis
    proof (cases ctl)
      case (Crossed s1)
      then have "unat (ws_remaining s1) < 2 ^ 64" using leg Cons.prems(3) by (simp add: pass_leg_def)
      then obtain gs h where "loop_legs pool (unat rate) (unat denom) z cs s1 s' gs h"
        using Cons.IH [of s1] rest Crossed Cons.prems(2) by auto
      then show ?thesis using leg Crossed loop_legs_cross by blast
    next
      case (Finished s1)
      with rest have "s1 = s'" by simp
      with leg Finished show ?thesis using loop_legs_finish by blast
    qed
  qed
qed

lemma walk_ticks_legs:
  assumes "walk_ticks pool cs liquidity price rate denom zero_for_one amount = Inr (out, fee, price')"
    and "length cs < 2 ^ 60"
  shows "\<exists>gs. walk_legs pool zero_for_one cs liquidity price gs
     \<and> paid gs + unat fee = unat amount
     \<and> paid gs * unat denom \<le> unat amount * (unat denom - unat rate)
     \<and> unat out = min (received gs) (2 ^ 64 - 1)"
proof -
  define s where "s = \<lparr>ws_liquidity = liquidity, ws_sqrt_price = price, ws_remaining = ucast amount,
      ws_out = (0 :: u128), ws_fee = (0 :: u128)\<rparr>"
  obtain s' where lt: "(ucast rate :: u128) < ucast denom"
    and loop: "walk_loop pool (ucast rate) (ucast denom) zero_for_one amount cs s = Inr s'"
    and out: "out = ucast (min (ws_out s') 0xFFFFFFFFFFFFFFFF)"
    and fee: "fee = ucast (min (ws_fee s') 0xFFFFFFFFFFFFFFFF)"
    using assms(1) by (auto simp: walk_ticks_def Let_def res_simps s_def)
  have "unat (ws_remaining s) < 2 ^ 64" using unat_u64_lt [of amount] by (simp add: s_def)
  then obtain gs f where l: "loop_legs pool (unat rate) (unat denom) zero_for_one cs s s' gs f"
    using walk_loop_legs [OF loop lt] by auto
  have amt: "unat amount = paid gs + f" using l by (simp add: loop_legs_def s_def)
  have f: "f < 2 ^ 64" using amt unat_u64_lt [of amount] by simp
  have "received gs \<le> length gs * 2 ^ 64" "length gs \<le> length cs" using l by (simp_all add: loop_legs_def)
  then have r: "received gs < 2 ^ 128" using assms(2) by simp
  have "unat (ws_out s') = received gs" and "unat (ws_fee s') = f"
    using l f r by (simp_all add: loop_legs_def s_def unat_of_nat)
  then have "unat out = min (received gs) (2 ^ 64 - 1)" and "unat fee = f"
    using f by (simp_all add: out fee unat_narrow)
  with l amt show ?thesis
    by (intro exI [of _ gs]) (auto simp: loop_legs_def fee_covers_def s_def)
qed

lemma walk_legs_fair: "walk_legs pool z cs L p gs \<Longrightarrow> g \<in> set gs \<Longrightarrow> oversized z g \<or> fair_leg z g"
  by (induction pool z cs L p gs rule: walk_legs.induct) (auto split: option.splits sum.splits)

text \<open>C8: a walk that returns is a sequence of legs: they start at the pool's price and liquidity and
  move from tick to tick, what they take and the fee make up exactly the amount offered, the fee covers the
  rate on it, and the output is what they pay. Each leg that raises the price, and each that lowers it
  through liquidity below \<open>2^64\<close>, is fair: it never pays more than the constant-product curve through the
  virtual reserves. Lowering the price through more liquidity than that is not (the section after this one).\<close>

theorem walk_refines_legs:
  assumes "walk_ticks pool cs liquidity price rate denom zero_for_one amount = Inr (out, fee, price')"
    and "length cs < 2 ^ 60"
  shows "\<exists>gs. walk_legs pool zero_for_one cs liquidity price gs
     \<and> (\<forall>g \<in> set gs. \<not> (zero_for_one \<and> 2 ^ 64 \<le> unat (lg_liquidity g)) \<longrightarrow> fair_leg zero_for_one g)
     \<and> paid gs + unat fee = unat amount
     \<and> paid gs * unat denom \<le> unat amount * (unat denom - unat rate)
     \<and> unat out = min (received gs) (2 ^ 64 - 1)"
proof -
  obtain gs where gs: "walk_legs pool zero_for_one cs liquidity price gs" "paid gs + unat fee = unat amount"
    "paid gs * unat denom \<le> unat amount * (unat denom - unat rate)" "unat out = min (received gs) (2 ^ 64 - 1)"
    using walk_ticks_legs [OF assms] by blast
  moreover have "\<forall>g \<in> set gs. \<not> (zero_for_one \<and> 2 ^ 64 \<le> unat (lg_liquidity g)) \<longrightarrow> fair_leg zero_for_one g"
    using walk_legs_fair [OF gs(1)] unfolding oversized_def by blast
  ultimately show ?thesis by blast
qed

definition sample_tick :: initialized_tick where
  "sample_tick = \<lparr>it_tick = 0, it_liquidity_net = 0\<rparr>"

lemma sample_price: "get_sqrt_price_at_tick 0 = Some 0x10000000000000000"
  by (simp add: get_sqrt_price_at_tick_def MIN_TICK_def MAX_TICK_def MAGIC_def apply_magic_def bit_set_def
      push_bit_eq_mult)

lemma sample_walk:
  "walk_ticks (Pubkey [9]) [sample_tick] 1000000 0x20000000000000000 2500 1000000 True 501254
     = Inr (1000000, 1254, 0x10000000000000000)"
proof -
  have 1: "mul_div_ceil 18446744073709551616000000 0x10000000000000000 0x20000000000000000
      = Some (9223372036854775808000000 :: u128)"
    by (simp add: mul_div_ceil_Some cdiv_def)
  have 2: "mul_div_ceil 500000 1000000 997500 = Some (501254 :: u128)"
    by (simp add: mul_div_ceil_Some cdiv_def)
  have 3: "mul_div_floor 1000000 0x10000000000000000 Q64 = Some (1000000 :: u128)"
    by (simp add: mul_div_floor_Some Q64_def push_bit_eq_mult)
  have 4: "ceil_div 9223372036854775808000000 0x10000000000000000 = (500000 :: u128)"
    by (simp add: word_unat_eq_iff unat_ceil_div cdiv_def)
  have i: "input_for_move True 1000000 0x20000000000000000 0x10000000000000000 = Inr 500000"
    using 1 4 by (simp add: input_for_move_def Let_def checked_shl_def push_bit_eq_mult)
  have o1: "output_for_move True 1000000 0x20000000000000000 0x10000000000000000 = Inr 1000000"
    using 3 by (simp add: output_for_move_def Let_def saturating_sub_def)
  show ?thesis
    using i o1 2
    by (simp add: walk_ticks_def walk_loop.simps walk_pass_def sample_tick_def sample_price Let_def
        cross_tick_def wrap_i128_def checked_add_signed_def)
qed

theorem walk_refines_legs_witness:
  "\<exists>gs. walk_legs (Pubkey [9]) True [sample_tick] 1000000 0x20000000000000000 gs
     \<and> (\<forall>g \<in> set gs. \<not> (True \<and> 2 ^ 64 \<le> unat (lg_liquidity g)) \<longrightarrow> fair_leg True g)
     \<and> paid gs + unat (1254 :: u64) = unat (501254 :: u64)
     \<and> paid gs * unat (1000000 :: u64) \<le> unat (501254 :: u64) * (unat (1000000 :: u64) - unat (2500 :: u64))
     \<and> unat (1000000 :: u64) = min (received gs) (2 ^ 64 - 1)"
  by (rule walk_refines_legs [OF sample_walk]) simp

section \<open>Bits lost by the scaling\<close>

text \<open>Scaling the liquidity to Q64.64 checks the shift distance, not the value, so the refusal
  "liquidity is too large to scale" never happens: from \<open>2^64\<close> on the high bits are lost, and crossing a
  whole price range costs nothing while it still pays its full output.\<close>

theorem oversized_liquidity_crosses_for_free:
  "checked_shl (L :: u128) 64 \<noteq> None
   \<and> input_for_move True 0x10000000000000000 0x20000000000000000 0x10000000000000000 = Inr 0
   \<and> output_for_move True 0x10000000000000000 0x20000000000000000 0x10000000000000000
       = Inr 0xFFFFFFFFFFFFFFFF"
proof -
  have 1: "mul_div_ceil 0x100000000000000000000000000000000 0x10000000000000000 0x20000000000000000 = Some (0 :: u128)"
    by (simp add: mul_div_ceil_Some cdiv_def)
  have 2: "ceil_div 0 0x10000000000000000 = (0 :: u128)"
    by (simp add: word_unat_eq_iff unat_ceil_div cdiv_def)
  have 3: "mul_div_floor 0x10000000000000000 0x10000000000000000 Q64 = Some (0x10000000000000000 :: u128)"
    by (simp add: mul_div_floor_Some Q64_def push_bit_eq_mult)
  show ?thesis
    using 1 2 3
    by (simp add: checked_shl_def input_for_move_def output_for_move_def Let_def push_bit_eq_mult
        saturating_sub_def)
qed

end
