(* ===== verification/Clmm_Venue.thy ===== *)
theory Clmm_Venue
  imports Clmm_Walk
begin

text \<open>
  What the two concentrated-liquidity venues share beside the walk: the ordering of the loaded ticks, the
  display figure of a quote, the kind of error a walk ends with, and the order in which a walk meets the
  ticks.
\<close>

section \<open>Loaded ticks\<close>

text \<open>\<^verbatim>\<open>Vec::dedup_by_key\<close>: of neighbours with the same key only the first stays.\<close>

fun dedup_by_key :: "('a \<Rightarrow> 'k) \<Rightarrow> 'a list \<Rightarrow> 'a list" where
  "dedup_by_key f (x # y # ys) =
     (if f x = f y then dedup_by_key f (x # ys) else x # dedup_by_key f (y # ys))"
| "dedup_by_key f xs = xs"

definition ordered_ticks :: "initialized_tick list \<Rightarrow> initialized_tick list" where
  "ordered_ticks ticks = dedup_by_key it_tick (sort_key it_tick ticks)"

section \<open>Errors of a walk\<close>

text \<open>The errors of the walk are quoting errors: nothing was submitted.\<close>

lemma errs_input_for_move [errs_intros]: "errs (\<lambda>e. \<not> submitted e) (input_for_move z L p q)"
  unfolding input_for_move_def Let_def by (intro errs_intros) simp_all

lemma errs_output_for_move [errs_intros]: "errs (\<lambda>e. \<not> submitted e) (output_for_move z L p q)"
  unfolding output_for_move_def Let_def by (intro errs_intros) simp_all

lemma errs_next_sqrt [errs_intros]: "errs (\<lambda>e. \<not> submitted e) (next_sqrt_price_from_input z L p x)"
  unfolding next_sqrt_price_from_input_def Let_def by (intro errs_intros) simp_all

lemma errs_cross_tick [errs_intros]: "errs (\<lambda>e. \<not> submitted e) (cross_tick pool L t z)"
  unfolding cross_tick_def Let_def by (intro errs_intros) simp_all

lemma errs_walk_pass [errs_intros]: "errs (\<lambda>e. \<not> submitted e) (walk_pass pool rate denom z c s)"
  unfolding walk_pass_def Let_def by (intro errs_intros) simp_all

lemma errs_walk_loop: "errs (\<lambda>e. \<not> submitted e) (walk_loop pool rate denom z amount cs s)"
proof (induction cs arbitrary: s)
  case Nil
  show ?case by (subst walk_loop.simps) (simp add: errs_def)
next
  case (Cons c cs)
  have rest: "errs (\<lambda>e. \<not> submitted e) (rbind (walk_pass pool rate denom z c s) (\<lambda>ctl. case ctl of
      Crossed s' \<Rightarrow> walk_loop pool rate denom z amount cs s' | Finished s' \<Rightarrow> Inr s'))"
    by (intro errs_intros) (auto simp: Cons.IH split: walk_control.split)
  show ?case by (subst walk_loop.simps) (simp add: rest)
qed

lemma errs_walk_ticks [errs_intros]:
  "errs (\<lambda>e. \<not> submitted e) (walk_ticks pool cs L p rate denom z amount)"
  unfolding walk_ticks_def Let_def by (intro errs_intros errs_walk_loop) simp_all

section \<open>Order of the ticks\<close>

lemma length_ticks_ahead: "length (ticks_ahead ts c z) \<le> length ts"
  by (simp add: ticks_ahead_def le_trans [OF length_filter_le])

lemma dedup_set: "set (map f (dedup_by_key f xs)) = set (map f xs)"
  by (induction f xs rule: dedup_by_key.induct) auto

lemma dedup_subset: "set (dedup_by_key f xs) \<subseteq> set xs"
  by (induction f xs rule: dedup_by_key.induct) auto

lemma length_dedup: "length (dedup_by_key f xs) \<le> length xs"
  by (induction f xs rule: dedup_by_key.induct) auto

lemma dedup_sorted:
  fixes f :: "'a \<Rightarrow> 'k::linorder"
  shows "sorted (map f xs) \<Longrightarrow> sorted_wrt (<) (map f (dedup_by_key f xs))"
proof (induction f xs rule: dedup_by_key.induct)
  case (1 f x y ys)
  show ?case
  proof (cases "f x = f y")
    case False
    have "f x < f y" using 1(3) False by (auto simp: order_less_le)
    moreover have "\<forall>k \<in> set (map f (dedup_by_key f (y # ys))). f y \<le> k"
      unfolding dedup_set using 1(3) by auto
    ultimately show ?thesis using 1 False by auto
  qed (use 1 in auto)
qed auto

lemma ordered_ticks_sorted: "sorted_wrt (<) (map it_tick (ordered_ticks ts))"
  unfolding ordered_ticks_def by (rule dedup_sorted) simp

lemma length_ordered_ticks: "length (ordered_ticks ts) \<le> length ts"
  using length_dedup [of it_tick "sort_key it_tick ts"] by (simp add: ordered_ticks_def)

lemma length_fold_add:
  "length (fold (\<lambda>a found. if a \<in> set found then found else found @ [a]) xs ys) \<le> length ys + length xs"
proof (induction xs arbitrary: ys)
  case (Cons x xs)
  from Cons.IH [of ys] Cons.IH [of "ys @ [x]"] show ?case by simp
qed simp

text \<open>From strictly ascending ticks, a walk meets those ahead of the price, each once, in order.\<close>

lemma ticks_ahead_ordered:
  assumes "sorted_wrt (<) (map it_tick ts)"
  shows "sorted_wrt (if z then (>) else (<)) (map it_tick (ticks_ahead ts current z))"
    and "set (ticks_ahead ts current z)
       = {t \<in> set ts. if z then it_tick t \<le> current else current < it_tick t}"
proof -
  have "sorted_wrt (<) (map it_tick (filter P ts))"
    and "sorted_wrt (>) (map it_tick (filter P (rev ts)))" for P
    using assms by (simp_all add: sorted_wrt_map sorted_wrt_filter sorted_wrt_rev)
  then show "sorted_wrt (if z then (>) else (<)) (map it_tick (ticks_ahead ts current z))"
    by (cases z) (simp_all add: ticks_ahead_def)
  show "set (ticks_ahead ts current z)
       = {t \<in> set ts. if z then it_tick t \<le> current else current < it_tick t}"
    by (auto simp: ticks_ahead_def)
qed

text \<open>The legs of a venue's walk, whatever the pool.\<close>

lemma venue_walk_legs:
  assumes "walk_ticks pool (ticks_ahead ts current z) L p rate denom z amount = Inr (gross, fee, sq)"
    and "length ts < 2 ^ 60"
  shows "\<exists>gs. walk_legs pool z (ticks_ahead ts current z) L p gs
     \<and> paid gs + unat fee = unat amount
     \<and> paid gs * unat denom \<le> unat amount * (unat denom - unat rate)
     \<and> unat gross = min (received gs) (2 ^ 64 - 1)"
  using assms(2) length_ticks_ahead [of ts current z] by (intro walk_ticks_legs [OF assms(1)]) simp

section \<open>Reading zeros\<close>

lemma le_nat_zeros [simp]: "le_nat (replicate n 0) = 0"
  by (induction n) auto

end
