(* ===== verification/Raydium_Clmm.thy ===== *)
theory Raydium_Clmm
  imports Clmm_Venue
begin

text \<open>
  \<^verbatim>\<open>venues/raydium_clmm.rs\<close>: the Raydium concentrated-liquidity venue. The loader's batched
  read is an argument, as for the other venues; the walk and the tick arrays are those of
  \<^theory_text>\<open>Clmm_Ticks\<close>.
\<close>

definition SWAP_V2 :: bytes where
  "SWAP_V2 = [0x2b, 0x04, 0xed, 0x0b, 0x1a, 0xc9, 0x1e, 0x62]"

definition CLMM_FEE_RATE_DENOMINATOR :: u64 where "CLMM_FEE_RATE_DENOMINATOR = 1000000"
definition CLMM_STATUS_BIT_SWAP_DISABLED :: nat where "CLMM_STATUS_BIT_SWAP_DISABLED = 2"
definition CLMM_COMPUTE_UNITS :: u32 where "CLMM_COMPUTE_UNITS = 200000"

definition clmm_program_id :: "sdk \<Rightarrow> pubkey" where
  "clmm_program_id sdk = from_str sdk RAYDIUM_CLMM_PROGRAM_ID"

definition memo_program_id :: "sdk \<Rightarrow> pubkey" where
  "memo_program_id sdk = from_str sdk MEMO_PROGRAM_ID"

section \<open>Accounts\<close>

record clmm_pool_state =
  cl_pool :: pubkey
  cl_amm_config :: pubkey
  cl_mint_0 :: pubkey
  cl_mint_1 :: pubkey
  cl_vault_0 :: pubkey
  cl_vault_1 :: pubkey
  cl_observation :: pubkey
  cl_decimals_0 :: u8
  cl_decimals_1 :: u8
  cl_tick_spacing :: u16
  cl_liquidity :: u128
  cl_sqrt_price_x64 :: u128
  cl_tick_current :: i32
  cl_status :: u8

definition clmm_decode :: "pubkey \<Rightarrow> bytes \<Rightarrow> clmm_pool_state option" where
  "clmm_decode pool data = do {
     amm_config \<leftarrow> pubkey_at data 9;
     mint_0 \<leftarrow> pubkey_at data 73;
     mint_1 \<leftarrow> pubkey_at data 105;
     vault_0 \<leftarrow> pubkey_at data 137;
     vault_1 \<leftarrow> pubkey_at data 169;
     observation \<leftarrow> pubkey_at data 201;
     decimals_0 \<leftarrow> u8_at data 233;
     decimals_1 \<leftarrow> u8_at data 234;
     tick_spacing \<leftarrow> u16_at data 235;
     liquidity \<leftarrow> u128_at data 237;
     sqrt_price_x64 \<leftarrow> u128_at data 253;
     tick_current \<leftarrow> i32_at data 269;
     status \<leftarrow> u8_at data 389;
     Some \<lparr>cl_pool = pool, cl_amm_config = amm_config, cl_mint_0 = mint_0, cl_mint_1 = mint_1,
       cl_vault_0 = vault_0, cl_vault_1 = vault_1, cl_observation = observation,
       cl_decimals_0 = decimals_0, cl_decimals_1 = decimals_1, cl_tick_spacing = tick_spacing,
       cl_liquidity = liquidity, cl_sqrt_price_x64 = sqrt_price_x64, cl_tick_current = tick_current,
       cl_status = status\<rparr>
   }"

definition clmm_swap_enabled :: "clmm_pool_state \<Rightarrow> bool" where
  "clmm_swap_enabled state \<longleftrightarrow> cl_status state AND push_bit CLMM_STATUS_BIT_SWAP_DISABLED 1 = 0"

record clmm_fee_config =
  clf_protocol_fee_rate :: u32
  clf_trade_fee_rate :: u32
  clf_fund_fee_rate :: u32

definition clmm_config_decode :: "bytes \<Rightarrow> clmm_fee_config option" where
  "clmm_config_decode data = do {
     protocol_fee_rate \<leftarrow> u32_at data 43;
     trade_fee_rate \<leftarrow> u32_at data 47;
     fund_fee_rate \<leftarrow> u32_at data 53;
     Some \<lparr>clf_protocol_fee_rate = protocol_fee_rate, clf_trade_fee_rate = trade_fee_rate,
       clf_fund_fee_rate = fund_fee_rate\<rparr>
   }"

record clmm_market =
  clm_state :: clmm_pool_state
  clm_config :: clmm_fee_config
  clm_bitmap :: tick_array_bitmap
  clm_bitmap_extension :: pubkey
  clm_program_0 :: pubkey
  clm_program_1 :: pubkey
  clm_vault_0_balance :: u64
  clm_vault_1_balance :: u64
  clm_transfer_fee_0 :: "transfer_fee_schedule option"
  clm_transfer_fee_1 :: "transfer_fee_schedule option"
  clm_ticks :: "initialized_tick list"

section \<open>Loading\<close>

text \<open>The arrays of both directions, each once.\<close>

definition nearby_arrays :: "sdk \<Rightarrow> pubkey \<Rightarrow> clmm_pool_state \<Rightarrow> tick_array_bitmap \<Rightarrow> pubkey list" where
  "nearby_arrays sdk pool state bm =
     fold (\<lambda>address found. if address \<in> set found then found else found @ [address])
       (map (tick_array_address sdk (clmm_program_id sdk) pool)
         (arrays_for_swap bm (cl_tick_current state) (cl_tick_spacing state) True
          @ arrays_for_swap bm (cl_tick_current state) (cl_tick_spacing state) False)) []"

text \<open>The ticks of the arrays that exist; \<open>n\<close> counts the batch's entries before them.\<close>

fun read_tick_arrays ::
  "sdk \<Rightarrow> pubkey \<Rightarrow> account option list \<Rightarrow> nat \<Rightarrow> pubkey list \<Rightarrow> initialized_tick list direct_result" where
  "read_tick_arrays sdk pool accounts n [] = Inr []"
| "read_tick_arrays sdk pool accounts n (address # rest) = (case account_entry accounts n of
       None \<Rightarrow> read_tick_arrays sdk pool accounts (Suc n) rest
     | Some acc \<Rightarrow> (case decode_tick_array pool (acc_data acc) of
           None \<Rightarrow> Inl (PoolUndecodable pool (''tick array '' @ show_pubkey sdk address
                     @ '' did not match the expected layout''))
         | Some decoded \<Rightarrow> rbind (read_tick_arrays sdk pool accounts (Suc n) rest)
               (\<lambda>ticks. Inr (decoded @ ticks))))"

definition clmm_load ::
  "sdk \<Rightarrow> account_reader \<Rightarrow> pubkey \<Rightarrow> account \<Rightarrow> clmm_market direct_result" where
  "clmm_load sdk read pool pool_account =
     rbind (ok_or (clmm_decode pool (acc_data pool_account))
              (PoolUndecodable pool (''CLMM pool state did not match the expected layout (''
                 @ show_nat (length (acc_data pool_account)) @ '' bytes)''))) (\<lambda>state.
     if \<not> clmm_swap_enabled state then
       Inl (PoolNotTradable pool (''status byte '' @ show_word (cl_status state)
              @ '' has swapping disabled''))
     else if cl_liquidity state = 0 then
       Inl (InsufficientLiquidity pool 0 ''the pool has no liquidity in range at the current tick'')
     else
       let bitmap_extension = bitmap_extension_address sdk (clmm_program_id sdk) pool in
       rbind (ok_or (from_pool_state (acc_data pool_account))
                (PoolUndecodable pool ''CLMM pool state carries no tick-array bitmap'')) (\<lambda>initial_bitmap.
       let arrays = nearby_arrays sdk pool state initial_bitmap;
           fixed = [cl_amm_config state, cl_vault_0 state, cl_vault_1 state, cl_mint_0 state,
                    cl_mint_1 state, bitmap_extension];
           addresses = fixed @ arrays;
           required = fetched ''account does not exist'' addresses
       in rbind (map_err (\<lambda>e. AccountUnavailable pool (''CLMM pool accounts could not be read: '' @ e))
                   (read addresses)) (\<lambda>accounts.
       rbind (required accounts 0) (\<lambda>config_account.
       rbind (ok_or (clmm_config_decode (acc_data config_account))
                (PoolUndecodable pool ''CLMM AmmConfig did not match the expected layout'')) (\<lambda>config.
       rbind (required accounts 1) (\<lambda>vault_0.
       rbind (ok_or (token_account_amount (acc_data vault_0))
                (PoolUndecodable pool ''token_0 vault is not a token account'')) (\<lambda>vault_0_balance.
       rbind (required accounts 2) (\<lambda>vault_1.
       rbind (ok_or (token_account_amount (acc_data vault_1))
                (PoolUndecodable pool ''token_1 vault is not a token account'')) (\<lambda>vault_1_balance.
       rbind (required accounts 3) (\<lambda>mint_0.
       rbind (required accounts 4) (\<lambda>mint_1.
       let bm = (case account_entry accounts 5 of
                   Some extension \<Rightarrow> with_extension initial_bitmap pool (acc_data extension)
                 | None \<Rightarrow> initial_bitmap)
       in rbind (read_tick_arrays sdk pool accounts (length fixed) arrays) (\<lambda>ticks.
       Inr \<lparr>clm_state = state, clm_config = config, clm_bitmap = bm,
            clm_bitmap_extension = bitmap_extension, clm_program_0 = acc_owner mint_0,
            clm_program_1 = acc_owner mint_1, clm_vault_0_balance = vault_0_balance,
            clm_vault_1_balance = vault_1_balance,
            clm_transfer_fee_0 = read_transfer_fee_schedule sdk mint_0,
            clm_transfer_fee_1 = read_transfer_fee_schedule sdk mint_1,
            clm_ticks = ordered_ticks ticks\<rparr>))))))))))))"

section \<open>The market\<close>

definition clmm_is_side_0 :: "clmm_market \<Rightarrow> pubkey \<Rightarrow> bool option" where
  "clmm_is_side_0 m mint = side_of (cl_mint_0 (clm_state m)) (cl_mint_1 (clm_state m)) mint"

definition clmm_transfer_fee :: "clmm_market \<Rightarrow> bool \<Rightarrow> transfer_fee_schedule option" where
  "clmm_transfer_fee m side_0 = (if side_0 then clm_transfer_fee_0 m else clm_transfer_fee_1 m)"

definition clmm_output_vault_balance :: "clmm_market \<Rightarrow> bool \<Rightarrow> u64" where
  "clmm_output_vault_balance m input_is_0 =
     (if input_is_0 then clm_vault_1_balance m else clm_vault_0_balance m)"

definition clmm_walk :: "clmm_market \<Rightarrow> bool \<Rightarrow> u64 \<Rightarrow> (u64 \<times> u64 \<times> u128) direct_result" where
  "clmm_walk m zero_for_one amount_in =
     (let s = clm_state m in
      walk_ticks (cl_pool s) (ticks_ahead (clm_ticks m) (cl_tick_current s) zero_for_one)
        (cl_liquidity s) (cl_sqrt_price_x64 s) (ucast (clf_trade_fee_rate (clm_config m)))
        CLMM_FEE_RATE_DENOMINATOR zero_for_one amount_in)"

definition tick_array_accounts :: "sdk \<Rightarrow> clmm_market \<Rightarrow> bool \<Rightarrow> pubkey list" where
  "tick_array_accounts sdk m zero_for_one =
     (let s = clm_state m in
      map (tick_array_address sdk (clmm_program_id sdk) (cl_pool s))
        (arrays_for_swap (clm_bitmap m) (cl_tick_current s) (cl_tick_spacing s) zero_for_one))"

definition clmm_quote :: "clmm_market \<Rightarrow> pubkey \<Rightarrow> u64 \<Rightarrow> venue_quote direct_result" where
  "clmm_quote m input_mint amount_in =
     (let pool = cl_pool (clm_state m) in
      rbind (ok_or (clmm_is_side_0 m input_mint) (PairNotInPool pool input_mint default_pubkey))
        (\<lambda>input_is_0.
      let received_by_pool = net_of_fee (clmm_transfer_fee m input_is_0) amount_in in
      if received_by_pool = 0 then
        Inl (InsufficientLiquidity pool amount_in
               ''the input transfer fee consumes the whole amount at this size'')
      else rbind (clmm_walk m input_is_0 received_by_pool) (\<lambda>(gross_out, lp_fee, sqrt_next).
        if gross_out = 0 then
          Inl (InsufficientLiquidity pool amount_in ''fees consume the whole input at this size'')
        else let expected_out = net_of_fee (clmm_transfer_fee m (\<not> input_is_0)) gross_out in
        if expected_out = 0 \<or> clmm_output_vault_balance m input_is_0 \<le> expected_out then
          Inl (InsufficientLiquidity pool amount_in ''the output exceeds what the pool's vault holds'')
        else Inr \<lparr>vq_amount_in = amount_in, vq_expected_out = expected_out, vq_lp_fee = lp_fee,
                  vq_price_impact_pct =
                    sqrt_price_impact_pct (cl_sqrt_price_x64 (clm_state m)) sqrt_next\<rparr>)))"

definition clmm_swap_instruction ::
  "sdk \<Rightarrow> clmm_market \<Rightarrow> swap_accounts \<Rightarrow> u64 \<Rightarrow> u64 \<Rightarrow> instruction direct_result" where
  "clmm_swap_instruction sdk m acc amount_in min_out =
     (let s = clm_state m in
      rbind (swap_direction (cl_pool s) (cl_mint_0 s) (cl_mint_1 s) acc) (\<lambda>input_is_0.
      let (input_vault, output_vault) =
            (if input_is_0 then (cl_vault_0 s, cl_vault_1 s) else (cl_vault_1 s, cl_vault_0 s));
          tick_arrays = tick_array_accounts sdk m input_is_0
      in if tick_arrays = [] then
           Inl (InsufficientLiquidity (cl_pool s) amount_in
                  ''no initialised tick array lies in the swap direction'')
         else Inr \<lparr>ix_program = clmm_program_id sdk,
              ix_accounts =
                [meta_readonly (sa_owner acc) True,
                 meta_readonly (cl_amm_config s) False,
                 meta_new (cl_pool s) False,
                 meta_new (sa_input_token_account acc) False,
                 meta_new (sa_output_token_account acc) False,
                 meta_new input_vault False,
                 meta_new output_vault False,
                 meta_new (cl_observation s) False,
                 meta_readonly (spl_token_id sdk) False,
                 meta_readonly (spl_token_2022_id sdk) False,
                 meta_readonly (memo_program_id sdk) False,
                 meta_readonly (sa_input_mint acc) False,
                 meta_readonly (sa_output_mint acc) False,
                 meta_new (clm_bitmap_extension m) False]
                @ map (\<lambda>array. meta_new array False) (take TICK_ARRAYS_PER_SWAP tick_arrays),
              ix_data = SWAP_V2 @ to_le_bytes_u64 amount_in @ to_le_bytes_u64 min_out
                @ to_le_bytes_u128 0 @ [1]\<rparr>))"

definition clmm_pool_market :: "sdk \<Rightarrow> clmm_market \<Rightarrow> pool_market" where
  "clmm_pool_market sdk m = (let s = clm_state m in
     \<lparr>pm_program = RaydiumClmm, pm_pool = cl_pool s, pm_mints = (cl_mint_0 s, cl_mint_1 s),
      pm_token_program = (\<lambda>mint. map_option (\<lambda>side_0. if side_0 then clm_program_0 m else clm_program_1 m)
                            (clmm_is_side_0 m mint)),
      pm_decimals = (\<lambda>mint. map_option (\<lambda>side_0. if side_0 then cl_decimals_0 s else cl_decimals_1 s)
                            (clmm_is_side_0 m mint)),
      pm_quote = clmm_quote m, pm_swap_instruction = clmm_swap_instruction sdk m,
      pm_compute_units = CLMM_COMPUTE_UNITS, pm_settles_native_sol = False\<rparr>)"

section \<open>The venue keeps its contract\<close>

lemma clmm_quote_Inr:
  assumes "clmm_quote m mint amount = Inr q"
  obtains side gross sqrt_next where "clmm_is_side_0 m mint = Some side"
    and "clmm_walk m side (net_of_fee (clmm_transfer_fee m side) amount) = Inr (gross, vq_lp_fee q, sqrt_next)"
    and "vq_amount_in q = amount"
    and "vq_expected_out q = net_of_fee (clmm_transfer_fee m (\<not> side)) gross"
    and "vq_expected_out q \<noteq> 0" and "vq_expected_out q < clmm_output_vault_balance m side"
proof -
  from assms obtain side where side: "clmm_is_side_0 m mint = Some side"
    by (auto simp: clmm_quote_def Let_def res_simps)
  from assms side obtain gross fee sq where
    "clmm_walk m side (net_of_fee (clmm_transfer_fee m side) amount) = Inr (gross, fee, sq)"
    by (auto simp: clmm_quote_def Let_def res_simps)
  with assms side show thesis
    by (intro that [OF side]) (auto simp: clmm_quote_def Let_def res_simps not_le)
qed

lemma clmm_quote_errs: "errs (\<lambda>e. \<not> submitted e) (clmm_quote m mint amount)"
  unfolding clmm_quote_def Let_def clmm_walk_def
  by (intro errs_intros) (auto split: prod.split)

lemma clmm_ix:
  assumes "clmm_swap_instruction sdk m acc amount min_out = Inr ix"
  obtains side where "swap_direction (cl_pool (clm_state m)) (cl_mint_0 (clm_state m)) (cl_mint_1 (clm_state m)) acc
       = Inr side"
    and "ix_program ix = clmm_program_id sdk"
    and "\<And>me. me \<in> set (ix_accounts ix) \<Longrightarrow> meta_signer me \<Longrightarrow> meta_key me = sa_owner acc"
    and "map meta_key (take 4 (drop 3 (ix_accounts ix))) =
       [sa_input_token_account acc, sa_output_token_account acc,
        if side then cl_vault_0 (clm_state m) else cl_vault_1 (clm_state m),
        if side then cl_vault_1 (clm_state m) else cl_vault_0 (clm_state m)]"
    and "map meta_key (drop 13 (ix_accounts ix)) =
       clm_bitmap_extension m # take 3 (tick_array_accounts sdk m side)"
    and "tick_array_accounts sdk m side \<noteq> []"
    and "ix_data ix = SWAP_V2 @ to_le_bytes_u64 amount @ to_le_bytes_u64 min_out
       @ to_le_bytes_u128 0 @ [1]"
proof -
  from assms obtain side where
    side: "swap_direction (cl_pool (clm_state m)) (cl_mint_0 (clm_state m)) (cl_mint_1 (clm_state m)) acc = Inr side"
    by (auto simp: clmm_swap_instruction_def Let_def rbind_Inr_iff)
  show thesis
    by (rule that [OF side])
      (use assms side in \<open>auto simp: clmm_swap_instruction_def Let_def meta_new_def meta_readonly_def
        TICK_ARRAYS_PER_SWAP_def comp_def split: if_splits\<close>)
qed

lemma clmm_ix_errs: "errs (\<lambda>e. \<not> submitted e) (clmm_swap_instruction sdk m acc amount min_out)"
  unfolding clmm_swap_instruction_def Let_def
  by (intro errs_intros) simp_all

lemma clmm_market_simps [simp]:
  "pm_mints (clmm_pool_market sdk m) = (cl_mint_0 (clm_state m), cl_mint_1 (clm_state m))"
  "pm_quote (clmm_pool_market sdk m) = clmm_quote m"
  "pm_swap_instruction (clmm_pool_market sdk m) = clmm_swap_instruction sdk m"
  "pm_token_program (clmm_pool_market sdk m) mint = map_option (\<lambda>side_0. if side_0
     then clm_program_0 m else clm_program_1 m) (clmm_is_side_0 m mint)"
  "pm_settles_native_sol (clmm_pool_market sdk m) \<longleftrightarrow> False"
  by (simp_all add: clmm_pool_market_def Let_def)

text \<open>The well-formedness of a loaded market: a real batch holds far fewer ticks.\<close>

definition clmm_wf :: "clmm_market \<Rightarrow> bool" where
  "clmm_wf m \<longleftrightarrow> sorted_wrt (<) (map it_tick (clm_ticks m)) \<and> length (clm_ticks m) < 2 ^ 60"

lemma clmm_walk_legs:
  assumes "clmm_wf m" and "clmm_walk m side amount = Inr (gross, fee, sq)"
  shows "\<exists>gs. walk_legs (cl_pool (clm_state m)) side
       (ticks_ahead (clm_ticks m) (cl_tick_current (clm_state m)) side)
       (cl_liquidity (clm_state m)) (cl_sqrt_price_x64 (clm_state m)) gs
     \<and> paid gs + unat fee = unat amount
     \<and> paid gs * 1000000 \<le> unat amount * (1000000 - unat (clf_trade_fee_rate (clm_config m)))
     \<and> unat gross = min (received gs) (2 ^ 64 - 1)"
  using venue_walk_legs [OF assms(2) [unfolded clmm_walk_def Let_def]] assms(1)
  by (simp add: CLMM_FEE_RATE_DENOMINATOR_def clmm_wf_def)

interpretation clmm: fee_bounded_market "clmm_pool_market sdk" "\<lambda>_. clmm_program_id sdk" clmm_wf for sdk
proof (unfold_locales, goal_cases)
  case (1 s mint amount q)
  then show ?case by (auto elim: clmm_quote_Inr)
next
  case (2 s mint amount q)
  then show ?case
    by (auto simp: clmm_is_side_0_def side_of_Some elim!: clmm_quote_Inr split: if_splits)
next
  case (9 s mint amount q)
  then obtain side gross sq where
    w: "clmm_walk s side (net_of_fee (clmm_transfer_fee s side) amount) = Inr (gross, vq_lp_fee q, sq)"
    by (auto elim: clmm_quote_Inr)
  have "unat (vq_lp_fee q) \<le> unat (net_of_fee (clmm_transfer_fee s side) amount)"
    using clmm_walk_legs [OF 9(1) w] by auto
  then show ?case using net_of_fee_le [of "clmm_transfer_fee s side" amount]
    by (simp add: word_le_nat_alt)
next
  case (3 s mint amount e)
  then show ?case using errsD [OF clmm_quote_errs] by simp
next
  case (4 s acc amount min_out ix)
  then show ?case by (auto simp: trades_def elim!: clmm_ix dest!: swap_direction_Inr)
next
  case (5 s acc amount min_out ix)
  then show ?case by (auto elim: clmm_ix)
next
  case (6 s acc amount min_out ix m)
  then show ?case by (auto elim: clmm_ix)
next
  case (7 s acc amount min_out e)
  then show ?case using errsD [OF clmm_ix_errs] by simp
next
  case (8 s mint)
  then show ?case by (simp add: clmm_is_side_0_def)
qed

section \<open>A loaded market is well formed\<close>

lemma length_decode_ticks: "decode_ticks data is = Some ts \<Longrightarrow> length ts \<le> length is"
  by (induction data "is" arbitrary: ts rule: decode_ticks.induct)
    (fastforce simp: decode_tick_def Let_def bind_eq_Some_conv split: if_splits)+

lemma length_decode_tick_array: "decode_tick_array pool data = Some ts \<Longrightarrow> length ts \<le> 60"
  by (auto simp: decode_tick_array_def bind_eq_Some_conv TICK_ARRAY_SIZE_def split: if_splits
      dest!: length_decode_ticks)

lemma length_read_tick_arrays:
  "read_tick_arrays sdk pool accounts n addresses = Inr ts \<Longrightarrow> length ts \<le> 60 * length addresses"
proof (induction sdk pool accounts n addresses arbitrary: ts rule: read_tick_arrays.induct)
  case (2 sdk pool accounts n address rest)
  then show ?case
    by (force simp: res_simps split: option.splits dest: length_decode_tick_array)
qed simp

lemma length_nearby_arrays: "length (nearby_arrays sdk pool state bm) \<le> 6"
proof -
  have "length (nearby_arrays sdk pool state bm)
      \<le> length (arrays_for_swap bm (cl_tick_current state) (cl_tick_spacing state) True
          @ arrays_for_swap bm (cl_tick_current state) (cl_tick_spacing state) False)"
    unfolding nearby_arrays_def by (rule le_trans [OF length_fold_add]) simp
  also have "\<dots> \<le> 6"
    using arrays_for_swap_initialised(1) [of bm "cl_tick_current state" "cl_tick_spacing state" True]
      arrays_for_swap_initialised(1) [of bm "cl_tick_current state" "cl_tick_spacing state" False]
    by simp
  finally show ?thesis .
qed

lemma clmm_load_Inr:
  assumes "clmm_load sdk read pool pool_account = Inr m"
  obtains accounts n bm ticks where
    "clmm_decode pool (acc_data pool_account) = Some (clm_state m)"
    "clmm_swap_enabled (clm_state m)" "cl_liquidity (clm_state m) \<noteq> 0"
    "from_pool_state (acc_data pool_account) = Some bm"
    "read_tick_arrays sdk pool accounts n (nearby_arrays sdk pool (clm_state m) bm) = Inr ticks"
    "clm_ticks m = ordered_ticks ticks"
  using assms
  by (auto simp: clmm_load_def Let_def res_simps intro: that split: option.splits if_splits)

lemma clmm_load_wf:
  assumes "clmm_load sdk read pool pool_account = Inr m"
  shows "clmm_wf m" and "length (clm_ticks m) \<le> 360"
proof -
  obtain accounts n bm ticks where
    ticks: "read_tick_arrays sdk pool accounts n (nearby_arrays sdk pool (clm_state m) bm) = Inr ticks"
    and m: "clm_ticks m = ordered_ticks ticks"
    using assms by (rule clmm_load_Inr)
  have "length ticks \<le> 360"
    using length_read_tick_arrays [OF ticks] length_nearby_arrays [of sdk pool "clm_state m" bm] by simp
  then show "length (clm_ticks m) \<le> 360"
    using length_ordered_ticks [of ticks] by (simp add: m)
  then show "clmm_wf m" by (simp add: clmm_wf_def m ordered_ticks_sorted)
qed

section \<open>A concrete pool\<close>

definition sample_clmm :: clmm_market where
  "sample_clmm = \<lparr>
     clm_state = \<lparr>cl_pool = Pubkey [9], cl_amm_config = Pubkey [4], cl_mint_0 = Pubkey [1],
       cl_mint_1 = Pubkey [2], cl_vault_0 = Pubkey [11], cl_vault_1 = Pubkey [12],
       cl_observation = Pubkey [5], cl_decimals_0 = 9, cl_decimals_1 = 6, cl_tick_spacing = 1,
       cl_liquidity = 1000000, cl_sqrt_price_x64 = 0x20000000000000000, cl_tick_current = 13863,
       cl_status = 0\<rparr>,
     clm_config = \<lparr>clf_protocol_fee_rate = 0, clf_trade_fee_rate = 2500, clf_fund_fee_rate = 0\<rparr>,
     clm_bitmap = sample_bitmap, clm_bitmap_extension = Pubkey [8],
     clm_program_0 = Pubkey [6], clm_program_1 = Pubkey [22],
     clm_vault_0_balance = 1000000000, clm_vault_1_balance = 5000000000,
     clm_transfer_fee_0 = None, clm_transfer_fee_1 = Some \<lparr>basis_points = 100, maximum_fee = 5000\<rparr>,
     clm_ticks = [sample_tick]\<rparr>"

lemma sample_clmm_facts:
  "clmm_wf sample_clmm"
  "clmm_is_side_0 sample_clmm (Pubkey [1]) = Some True"
  "clmm_transfer_fee sample_clmm True = None"
  "clmm_transfer_fee sample_clmm False = Some \<lparr>basis_points = 100, maximum_fee = 5000\<rparr>"
  "clmm_output_vault_balance sample_clmm True = 5000000000"
  "net_of_fee None n = n"
  "ticks_ahead (clm_ticks sample_clmm) (cl_tick_current (clm_state sample_clmm)) True = [sample_tick]"
  "cl_pool (clm_state sample_clmm) = Pubkey [9]" "cl_liquidity (clm_state sample_clmm) = 1000000"
  "cl_sqrt_price_x64 (clm_state sample_clmm) = 0x20000000000000000"
  "net_of_fee (Some \<lparr>basis_points = 100, maximum_fee = 5000\<rparr>) 1000000 = 995000"
  by (simp_all add: clmm_wf_def clmm_is_side_0_def side_of_def clmm_transfer_fee_def
      clmm_output_vault_balance_def net_of_fee_def sample_clmm_def ticks_ahead_def sample_tick_def
      schedule_net_of_fee_def schedule_fee_on_def div_ceil_def saturating_sub_def Let_def word_unat_eq_iff)

lemma sample_clmm_walk: "clmm_walk sample_clmm True 501254 = Inr (1000000, 1254, 0x10000000000000000)"
  using sample_walk
  by (simp add: clmm_walk_def sample_clmm_facts CLMM_FEE_RATE_DENOMINATOR_def Let_def)
    (simp add: sample_clmm_def)

lemma sample_clmm_quote:
  "\<exists>q. clmm_quote sample_clmm (Pubkey [1]) 501254 = Inr q
     \<and> vq_expected_out q = 995000 \<and> vq_lp_fee q = 1254"
  by (simp add: clmm_quote_def sample_clmm_facts sample_clmm_walk Let_def)

definition sample_clmm_account :: account where
  "sample_clmm_account = \<lparr>acc_lamports = 0, acc_data = replicate 237 0 @ 1 # replicate 1306 0,
     acc_owner = Pubkey []\<rparr>"

definition sample_config_account :: account where
  "sample_config_account = \<lparr>acc_lamports = 0, acc_data = replicate 200 0, acc_owner = Pubkey [6]\<rparr>"

lemma sample_config_reads:
  "clmm_config_decode (acc_data sample_config_account) \<noteq> None"
  "\<exists>c. clmm_config_decode (acc_data sample_config_account) = Some c"
  "token_account_amount (acc_data sample_config_account) = Some 0"
proof -
  show "clmm_config_decode (acc_data sample_config_account) \<noteq> None"
    by (simp add: clmm_config_decode_def sample_config_account_def u32_at_def slice_def)
  then show "\<exists>c. clmm_config_decode (acc_data sample_config_account) = Some c" by simp
  show "token_account_amount (acc_data sample_config_account) = Some 0"
    by (simp add: token_account_amount_def u64_at_def slice_def sample_config_account_def from_le_bytes_def)
qed

lemma sample_clmm_decode:
  "\<exists>s bm. clmm_decode (Pubkey [3]) (acc_data sample_clmm_account) = Some s
     \<and> from_pool_state (acc_data sample_clmm_account) = Some bm
     \<and> clmm_swap_enabled s \<and> cl_liquidity s \<noteq> 0 \<and> cl_tick_spacing s = 0"
proof -
  let ?d = "acc_data sample_clmm_account"
  have keys: "pubkey_at ?d n \<noteq> None" if "n < 1000" for n
    using that by (simp add: pubkey_at_def slice_def sample_clmm_account_def)
  have words: "u64_at ?d n \<noteq> None" if "n < 1500" for n
    using that by (simp add: u64_at_None_iff sample_clmm_account_def)
  have L: "u128_at ?d 237 = Some 1" and P: "u128_at ?d 253 \<noteq> None" and T: "i32_at ?d 269 \<noteq> None"
    and sp: "u16_at ?d 235 = Some 0"
    by (simp_all add: u128_at_def i32_at_def u16_at_def slice_def sample_clmm_account_def from_le_bytes_def)
  have read: "read_words ?d n k \<noteq> None" if "n + 8 * k < 1500" for n k
    using that
  proof (induction k arbitrary: n)
    case (Suc k)
    moreover obtain w where "u64_at ?d n = Some w" using words [of n] Suc.prems by auto
    ultimately show ?case by (auto simp: bind_eq_None_conv)
  qed simp
  have u8: "u8_at ?d 233 = Some 0" "u8_at ?d 234 = Some 0" "u8_at ?d 389 = Some 0"
    by (simp_all add: u8_at_def sample_clmm_account_def nth_append)
  show ?thesis
    using keys [of 9] keys [of 73] keys [of 105] keys [of 137] keys [of 169] keys [of 201] L P T sp
      read [of 904 16] u8
    by (auto simp: clmm_decode_def from_pool_state_def clmm_swap_enabled_def)
qed

section \<open>Properties\<close>

text \<open>C37: a loaded pool's ticks are few and strictly ascending, so the ticks of a walk are exactly the loaded
  ones on the side the price moves to, in the order the price meets them.\<close>

theorem clmm_walk_meets_ticks_in_order:
  assumes "clmm_load sdk read pool pool_account = Inr m"
  shows "length (clm_ticks m) \<le> 360
     \<and> (let cs = ticks_ahead (clm_ticks m) current zero_for_one in
         sorted_wrt (if zero_for_one then (>) else (<)) (map it_tick cs)
         \<and> set cs = {t \<in> set (clm_ticks m).
             if zero_for_one then it_tick t \<le> current else current < it_tick t})"
  using clmm_load_wf [OF assms] ticks_ahead_ordered [of "clm_ticks m"]
  by (simp add: clmm_wf_def Let_def)

theorem clmm_walk_meets_ticks_in_order_witness:
  "\<exists>m. clmm_load sample_sdk (\<lambda>_. Inr (replicate 5 (Some sample_config_account))) (Pubkey [3])
        sample_clmm_account = Inr m
     \<and> length (clm_ticks m) \<le> 360"
proof -
  obtain s bm where s: "clmm_decode (Pubkey [3]) (acc_data sample_clmm_account) = Some s"
    "from_pool_state (acc_data sample_clmm_account) = Some bm"
    "clmm_swap_enabled s" "cl_liquidity s \<noteq> 0" "cl_tick_spacing s = 0"
    using sample_clmm_decode by blast
  obtain c where c: "clmm_config_decode (acc_data sample_config_account) = Some c"
    using sample_config_reads(2) by blast
  have "is_ok (clmm_load sample_sdk (\<lambda>_. Inr (replicate 5 (Some sample_config_account))) (Pubkey [3])
      sample_clmm_account)"
    using s c
    by (simp add: clmm_load_def Let_def fetched_def account_entry_def sample_config_reads(3)
        nearby_arrays_def arrays_for_swap_def tick_array_start_index_def ticks_per_array_eq)
  then obtain m where m: "clmm_load sample_sdk (\<lambda>_. Inr (replicate 5 (Some sample_config_account)))
      (Pubkey [3]) sample_clmm_account = Inr m" by (auto simp: is_ok_iff)
  from clmm_walk_meets_ticks_in_order [OF m] m show ?thesis by blast
qed

text \<open>An accepted concentrated-liquidity quote is what a sequence of fair legs through the loaded ticks
  pays for the whole input after its transfer fee, less the output's transfer fee; it is positive and less
  than the vault holds.\<close>

theorem clmm_quote_is_fair_walk:
  assumes "clmm_wf m" and "clmm_quote m mint amount = Inr q" and "clmm_is_side_0 m mint = Some side"
  shows "\<exists>gs gross. walk_legs (cl_pool (clm_state m)) side
         (ticks_ahead (clm_ticks m) (cl_tick_current (clm_state m)) side)
         (cl_liquidity (clm_state m)) (cl_sqrt_price_x64 (clm_state m)) gs
     \<and> paid gs + unat (vq_lp_fee q) = unat (net_of_fee (clmm_transfer_fee m side) amount)
     \<and> unat gross = min (received gs) (2 ^ 64 - 1)
     \<and> vq_expected_out q = net_of_fee (clmm_transfer_fee m (\<not> side)) gross
     \<and> 0 < vq_expected_out q \<and> vq_expected_out q < clmm_output_vault_balance m side"
proof -
  obtain gross sq where
    w: "clmm_walk m side (net_of_fee (clmm_transfer_fee m side) amount) = Inr (gross, vq_lp_fee q, sq)"
    and q: "vq_expected_out q = net_of_fee (clmm_transfer_fee m (\<not> side)) gross"
      "vq_expected_out q \<noteq> 0" "vq_expected_out q < clmm_output_vault_balance m side"
    using assms(2,3) by (auto elim: clmm_quote_Inr)
  from clmm_walk_legs [OF assms(1) w] show ?thesis using q by (auto simp: word_neq_0_conv)
qed

theorem clmm_quote_is_fair_walk_witness:
  "\<exists>q gs gross. clmm_quote sample_clmm (Pubkey [1]) 501254 = Inr q
     \<and> walk_legs (Pubkey [9]) True [sample_tick] 1000000 0x20000000000000000 gs
     \<and> paid gs + 1254 = 501254 \<and> vq_expected_out q = 995000 \<and> unat (gross :: u64) = min (received gs) (2 ^ 64 - 1)"
proof -
  obtain q where q: "clmm_quote sample_clmm (Pubkey [1]) 501254 = Inr q"
    "vq_expected_out q = 995000" "vq_lp_fee q = 1254" using sample_clmm_quote by blast
  from clmm_quote_is_fair_walk [OF sample_clmm_facts(1) q(1) sample_clmm_facts(2)]
  obtain gs gross where "walk_legs (Pubkey [9]) True [sample_tick] 1000000 0x20000000000000000 gs"
    "paid gs + unat (1254 :: u64) = unat (501254 :: u64)" "unat (gross :: u64) = min (received gs) (2 ^ 64 - 1)"
    unfolding sample_clmm_facts q by blast
  then show ?thesis using q(1,2) by (intro exI [of _ q] exI [of _ gs] exI [of _ gross]) simp
qed

text \<open>A CLMM instruction carries the input side in the input slots, at most three tick arrays, at least
  one, every one of them initialised in the pool's bitmap, in the order the price meets them after the bitmap
  extension, and encodes the two amounts.\<close>

theorem clmm_instruction_accounts:
  assumes "clmm_swap_instruction sdk m acc amount min_out = Inr ix"
    and "cl_mint_0 (clm_state m) \<noteq> cl_mint_1 (clm_state m)"
  shows "\<exists>side starts. sa_input_mint acc = (if side then cl_mint_0 (clm_state m) else cl_mint_1 (clm_state m))
     \<and> map meta_key (take 4 (drop 3 (ix_accounts ix))) =
         sa_input_token_account acc # sa_output_token_account acc
         # (if side then [cl_vault_0 (clm_state m), cl_vault_1 (clm_state m)]
            else [cl_vault_1 (clm_state m), cl_vault_0 (clm_state m)])
     \<and> map meta_key (drop 13 (ix_accounts ix)) = clm_bitmap_extension m
         # map (tick_array_address sdk (clmm_program_id sdk) (cl_pool (clm_state m))) starts
     \<and> starts \<noteq> [] \<and> length starts \<le> 3
     \<and> (\<forall>start \<in> set starts. is_initialised (clm_bitmap m) start (cl_tick_spacing (clm_state m)))
     \<and> u64_at (ix_data ix) 8 = Some amount \<and> u64_at (ix_data ix) 16 = Some min_out"
proof -
  let ?s = "clm_state m"
  from assms(1) obtain side where
    dir: "swap_direction (cl_pool ?s) (cl_mint_0 ?s) (cl_mint_1 ?s) acc = Inr side"
    and slots: "map meta_key (take 4 (drop 3 (ix_accounts ix))) =
       [sa_input_token_account acc, sa_output_token_account acc,
        if side then cl_vault_0 ?s else cl_vault_1 ?s, if side then cl_vault_1 ?s else cl_vault_0 ?s]"
    and rest: "map meta_key (drop 13 (ix_accounts ix)) =
       clm_bitmap_extension m # take 3 (tick_array_accounts sdk m side)"
    and ne: "tick_array_accounts sdk m side \<noteq> []"
    and data: "ix_data ix = SWAP_V2 @ to_le_bytes_u64 amount @ to_le_bytes_u64 min_out
       @ to_le_bytes_u128 0 @ [1]"
    by (rule clmm_ix)
  define starts where
    "starts = arrays_for_swap (clm_bitmap m) (cl_tick_current ?s) (cl_tick_spacing ?s) side"
  have len: "length starts \<le> 3"
    and ini: "\<forall>start \<in> set starts. is_initialised (clm_bitmap m) start (cl_tick_spacing ?s)"
    using arrays_for_swap_initialised unfolding starts_def by blast+
  have arrays: "tick_array_accounts sdk m side
      = map (tick_array_address sdk (clmm_program_id sdk) (cl_pool ?s)) starts"
    by (simp add: tick_array_accounts_def Let_def starts_def)
  have mint: "sa_input_mint acc = (if side then cl_mint_0 ?s else cl_mint_1 ?s)"
    using dir assms(2) by (auto simp: swap_direction_iff split: if_splits)
  have "length SWAP_V2 = 8" by (simp add: SWAP_V2_def)
  note amounts = instruction_amounts [OF this, of amount min_out "to_le_bytes_u128 0 @ [1]"]
  show ?thesis
    by (intro exI [of _ side] exI [of _ starts] conjI)
      (use mint slots rest ne len ini arrays amounts in \<open>simp_all add: data\<close>)
qed


theorem clmm_instruction_accounts_witness:
  "\<exists>ix m. clmm_swap_instruction sample_sdk m
      \<lparr>sa_owner = Pubkey [9], sa_input_mint = Pubkey [1], sa_output_mint = Pubkey [2],
       sa_input_token_account = Pubkey [7], sa_output_token_account = Pubkey [8]\<rparr> 500 400 = Inr ix
     \<and> u64_at (ix_data ix) 16 = Some 400"
proof -
  let ?acc = "\<lparr>sa_owner = Pubkey [9], sa_input_mint = Pubkey [1], sa_output_mint = Pubkey [2],
       sa_input_token_account = Pubkey [7], sa_output_token_account = Pubkey [8]\<rparr>"
  define m where "m = sample_clmm\<lparr>clm_state := (clm_state sample_clmm)\<lparr>cl_tick_current := - 1\<rparr>\<rparr>"
  have arrays: "arrays_for_swap (clm_bitmap m) (cl_tick_current (clm_state m)) (cl_tick_spacing (clm_state m)) True
      = [- 60, - 120, - 180]"
    using sample_arrays by (simp add: m_def sample_clmm_def)
  have mints: "cl_mint_0 (clm_state m) = Pubkey [1]" "cl_mint_1 (clm_state m) = Pubkey [2]"
    by (simp_all add: m_def sample_clmm_def)
  have "is_ok (clmm_swap_instruction sample_sdk m ?acc 500 400)"
    by (simp add: clmm_swap_instruction_def swap_direction_def ok_side_def side_of_def mints
        tick_array_accounts_def arrays Let_def)
  then obtain ix where ix: "clmm_swap_instruction sample_sdk m ?acc 500 400 = Inr ix"
    by (auto simp: is_ok_iff)
  from clmm_instruction_accounts [OF ix] ix mints show ?thesis by auto
qed

end
