(* ===== verification/Orca_Whirlpool.thy ===== *)
theory Orca_Whirlpool
  imports Clmm_Venue
begin

text \<open>
  \<^verbatim>\<open>venues/orca_whirlpool.rs\<close>: the Orca Whirlpool venue. Its pools publish no bitmap, so the
  tick arrays are derived from the current tick and kept when the batched read returns them; an array comes
  in a fixed and a dynamic layout.
\<close>

definition WHIRLPOOL_SWAP :: bytes where
  "WHIRLPOOL_SWAP = [0xf8, 0xc6, 0x9e, 0x91, 0xe1, 0x75, 0x87, 0xc8]"

definition WHIRLPOOL_SWAP_V2 :: bytes where
  "WHIRLPOOL_SWAP_V2 = [0x2b, 0x04, 0xed, 0x0b, 0x1a, 0xc9, 0x1e, 0x62]"

definition WHIRLPOOL_FEE_RATE_DENOMINATOR :: u64 where "WHIRLPOOL_FEE_RATE_DENOMINATOR = 1000000"
definition WHIRLPOOL_TICK_ARRAY_SIZE :: i32 where "WHIRLPOOL_TICK_ARRAY_SIZE = 88"
definition WHIRLPOOL_TICKS_OFFSET :: nat where "WHIRLPOOL_TICKS_OFFSET = 12"
definition WHIRLPOOL_TICK_STATE_SIZE :: nat where "WHIRLPOOL_TICK_STATE_SIZE = 113"

definition FIXED_TICK_ARRAY_LEN :: nat where
  "FIXED_TICK_ARRAY_LEN =
     WHIRLPOOL_TICKS_OFFSET + nat WHIRLPOOL_TICK_ARRAY_SIZE * WHIRLPOOL_TICK_STATE_SIZE + 32"

definition DYNAMIC_TICK_BITMAP_OFFSET :: nat where "DYNAMIC_TICK_BITMAP_OFFSET = 44"
definition DYNAMIC_TICKS_OFFSET :: nat where "DYNAMIC_TICKS_OFFSET = 60"
definition DYNAMIC_TICK_DATA_SIZE :: nat where "DYNAMIC_TICK_DATA_SIZE = 112"
definition WHIRLPOOL_TICK_ARRAYS_PER_SWAP :: nat where "WHIRLPOOL_TICK_ARRAYS_PER_SWAP = 3"
definition WHIRLPOOL_COMPUTE_UNITS :: u32 where "WHIRLPOOL_COMPUTE_UNITS = 200000"

definition WHIRLPOOL_TICK_ARRAY_SEED :: bytes where
  "WHIRLPOOL_TICK_ARRAY_SEED = map (of_nat \<circ> of_char) ''tick_array''"

definition ORACLE_SEED :: bytes where
  "ORACLE_SEED = map (of_nat \<circ> of_char) ''oracle''"

definition whirlpool_program_id :: "sdk \<Rightarrow> pubkey" where
  "whirlpool_program_id sdk = from_str sdk ORCA_WHIRLPOOL_PROGRAM_ID"

definition whirlpool_memo_program_id :: "sdk \<Rightarrow> pubkey" where
  "whirlpool_memo_program_id sdk = from_str sdk MEMO_PROGRAM_ID"

section \<open>Tick arrays\<close>

definition whirlpool_span :: "u16 \<Rightarrow> i32" where
  "whirlpool_span tick_spacing = wrap_i32 (WHIRLPOOL_TICK_ARRAY_SIZE * int (unat tick_spacing))"

definition whirlpool_start_index :: "i32 \<Rightarrow> u16 \<Rightarrow> i32" where
  "whirlpool_start_index tick tick_spacing =
     (let span = whirlpool_span tick_spacing in
      if span = 0 then 0
      else let index = tick sdiv span;
               index = (if tick < 0 \<and> tick smod span \<noteq> 0 then index - 1 else index)
           in wrap_i32 (index * span))"

text \<open>At most \<open>n\<close> starts, ending early where the next one leaves the 32-bit range.\<close>

fun next_starts :: "i32 \<Rightarrow> i32 \<Rightarrow> nat \<Rightarrow> i32 list" where
  "next_starts step start 0 = []"
| "next_starts step start (Suc n) =
     start # (if start + step < - (2 ^ 31) \<or> 2 ^ 31 \<le> start + step then []
              else next_starts step (start + step) n)"

definition candidate_tick_array_starts :: "i32 \<Rightarrow> u16 \<Rightarrow> bool \<Rightarrow> i32 list" where
  "candidate_tick_array_starts tick_current tick_spacing zero_for_one =
     (let span = whirlpool_span tick_spacing in
      if span = 0 then []
      else next_starts (if zero_for_one then - span else span)
             (whirlpool_start_index tick_current tick_spacing) WHIRLPOOL_TICK_ARRAYS_PER_SWAP)"

definition whirlpool_tick_array_address :: "sdk \<Rightarrow> pubkey \<Rightarrow> pubkey \<Rightarrow> i32 \<Rightarrow> pubkey" where
  "whirlpool_tick_array_address sdk program pool start_index =
     find_program_address sdk
       [WHIRLPOOL_TICK_ARRAY_SEED, key_bytes pool, map (of_nat \<circ> of_char) (show_int start_index)] program"

definition oracle_address :: "sdk \<Rightarrow> pubkey \<Rightarrow> pubkey \<Rightarrow> pubkey" where
  "oracle_address sdk program pool = find_program_address sdk [ORACLE_SEED, key_bytes pool] program"

text \<open>The index of the \<open>i\<close>-th tick of an array.\<close>

definition tick_of :: "i32 \<Rightarrow> nat \<Rightarrow> u16 \<Rightarrow> i32" where
  "tick_of start i tick_spacing = wrap_i32 (start + wrap_i32 (int i * int (unat tick_spacing)))"

fun decode_fixed_ticks :: "bytes \<Rightarrow> i32 \<Rightarrow> u16 \<Rightarrow> nat list \<Rightarrow> initialized_tick list option" where
  "decode_fixed_ticks data start tick_spacing [] = Some []"
| "decode_fixed_ticks data start tick_spacing (i # is) =
     (let offset = WHIRLPOOL_TICKS_OFFSET + i * WHIRLPOOL_TICK_STATE_SIZE in do {
        initialized \<leftarrow> u8_at data offset;
        if initialized = 0 then decode_fixed_ticks data start tick_spacing is
        else do {
          liquidity_net \<leftarrow> i128_at data (offset + 1);
          ticks \<leftarrow> decode_fixed_ticks data start tick_spacing is;
          Some (\<lparr>it_tick = tick_of start i tick_spacing, it_liquidity_net = liquidity_net\<rparr> # ticks) } })"

definition decode_fixed_tick_array :: "bytes \<Rightarrow> i32 \<Rightarrow> u16 \<Rightarrow> initialized_tick list option" where
  "decode_fixed_tick_array data start tick_spacing =
     decode_fixed_ticks data start tick_spacing [0..<nat WHIRLPOOL_TICK_ARRAY_SIZE]"

text \<open>The ticks of a dynamic array from an offset on, and the offset after them.\<close>

fun decode_dynamic_ticks ::
  "bytes \<Rightarrow> i32 \<Rightarrow> u16 \<Rightarrow> u128 \<Rightarrow> nat list \<Rightarrow> nat \<Rightarrow> (initialized_tick list \<times> nat) option" where
  "decode_dynamic_ticks data start tick_spacing bm [] offset = Some ([], offset)"
| "decode_dynamic_ticks data start tick_spacing bm (i # is) offset = do {
     tag \<leftarrow> u8_at data offset;
     let flagged = (bm AND push_bit i 1 \<noteq> 0);
     let offset = offset + 1;
     if tag = 0 \<and> \<not> flagged then decode_dynamic_ticks data start tick_spacing bm is offset
     else if tag = 1 \<and> flagged then do {
       liquidity_net \<leftarrow> i128_at data offset;
       liquidity_gross \<leftarrow> u128_at data (offset + 16);
       if int (unat liquidity_gross) < \<bar>liquidity_net\<bar> then None
       else do {
         (ticks, end_offset) \<leftarrow> decode_dynamic_ticks data start tick_spacing bm is
                                   (offset + DYNAMIC_TICK_DATA_SIZE);
         Some (\<lparr>it_tick = tick_of start i tick_spacing, it_liquidity_net = liquidity_net\<rparr> # ticks,
               end_offset) } }
     else None }"

definition decode_dynamic_tick_array :: "bytes \<Rightarrow> i32 \<Rightarrow> u16 \<Rightarrow> initialized_tick list option" where
  "decode_dynamic_tick_array data start tick_spacing = do {
     stored \<leftarrow> i32_at data 8;
     if stored \<noteq> start then None
     else do {
       bm \<leftarrow> u128_at data DYNAMIC_TICK_BITMAP_OFFSET;
       (ticks, offset) \<leftarrow> decode_dynamic_ticks data start tick_spacing bm
          [0..<nat WHIRLPOOL_TICK_ARRAY_SIZE] DYNAMIC_TICKS_OFFSET;
       if offset = length data then Some ticks else None } }"

definition whirlpool_decode_tick_array :: "bytes \<Rightarrow> i32 \<Rightarrow> u16 \<Rightarrow> initialized_tick list option" where
  "whirlpool_decode_tick_array data start tick_spacing =
     (if length data = FIXED_TICK_ARRAY_LEN then decode_fixed_tick_array data start tick_spacing
      else decode_dynamic_tick_array data start tick_spacing)"

section \<open>Accounts\<close>

record whirlpool_state =
  wp_pool :: pubkey
  wp_tick_spacing :: u16
  wp_fee_rate :: u16
  wp_liquidity :: u128
  wp_sqrt_price :: u128
  wp_tick_current :: i32
  wp_protocol_fee_owed_a :: u64
  wp_protocol_fee_owed_b :: u64
  wp_mint_a :: pubkey
  wp_vault_a :: pubkey
  wp_mint_b :: pubkey
  wp_vault_b :: pubkey

definition whirlpool_decode :: "pubkey \<Rightarrow> bytes \<Rightarrow> whirlpool_state option" where
  "whirlpool_decode pool data = do {
     tick_spacing \<leftarrow> u16_at data 41;
     fee_rate \<leftarrow> u16_at data 45;
     liquidity \<leftarrow> u128_at data 49;
     sqrt_price \<leftarrow> u128_at data 65;
     tick_current \<leftarrow> i32_at data 81;
     owed_a \<leftarrow> u64_at data 85;
     owed_b \<leftarrow> u64_at data 93;
     mint_a \<leftarrow> pubkey_at data 101;
     vault_a \<leftarrow> pubkey_at data 133;
     mint_b \<leftarrow> pubkey_at data 181;
     vault_b \<leftarrow> pubkey_at data 213;
     Some \<lparr>wp_pool = pool, wp_tick_spacing = tick_spacing, wp_fee_rate = fee_rate,
       wp_liquidity = liquidity, wp_sqrt_price = sqrt_price, wp_tick_current = tick_current,
       wp_protocol_fee_owed_a = owed_a, wp_protocol_fee_owed_b = owed_b, wp_mint_a = mint_a,
       wp_vault_a = vault_a, wp_mint_b = mint_b, wp_vault_b = vault_b\<rparr>
   }"

definition oracle_has_active_adaptive_fee :: "bytes \<Rightarrow> bool option" where
  "oracle_has_active_adaptive_fee data = map_option (\<lambda>factor. factor \<noteq> 0) (u32_at data 54)"

record whirlpool_market =
  wm_state :: whirlpool_state
  wm_oracle :: pubkey
  wm_program_a :: pubkey
  wm_program_b :: pubkey
  wm_decimals_a :: u8
  wm_decimals_b :: u8
  wm_vault_a_balance :: u64
  wm_vault_b_balance :: u64
  wm_transfer_fee_a :: "transfer_fee_schedule option"
  wm_transfer_fee_b :: "transfer_fee_schedule option"
  wm_ticks :: "initialized_tick list"
  wm_available_starts :: "i32 list"

section \<open>Loading\<close>

definition nearby_starts :: "whirlpool_state \<Rightarrow> i32 list" where
  "nearby_starts state =
     fold (\<lambda>start found. if start \<in> set found then found else found @ [start])
       (candidate_tick_array_starts (wp_tick_current state) (wp_tick_spacing state) True
        @ candidate_tick_array_starts (wp_tick_current state) (wp_tick_spacing state) False) []"

text \<open>The ticks and the starts of the arrays that exist; \<open>n\<close> counts the batch's entries before.\<close>

fun read_whirlpool_arrays ::
  "sdk \<Rightarrow> pubkey \<Rightarrow> u16 \<Rightarrow> account option list \<Rightarrow> nat \<Rightarrow> i32 list
     \<Rightarrow> (initialized_tick list \<times> i32 list) direct_result" where
  "read_whirlpool_arrays sdk pool tick_spacing accounts n [] = Inr ([], [])"
| "read_whirlpool_arrays sdk pool tick_spacing accounts n (start # rest) = (case account_entry accounts n of
       None \<Rightarrow> read_whirlpool_arrays sdk pool tick_spacing accounts (Suc n) rest
     | Some acc \<Rightarrow> (case whirlpool_decode_tick_array (acc_data acc) start tick_spacing of
           None \<Rightarrow> Inl (PoolUndecodable pool (''tick array ''
                     @ show_pubkey sdk (whirlpool_tick_array_address sdk (whirlpool_program_id sdk) pool start)
                     @ '' did not match the expected layout''))
         | Some decoded \<Rightarrow>
             rbind (read_whirlpool_arrays sdk pool tick_spacing accounts (Suc n) rest)
               (\<lambda>(ticks, starts). Inr (decoded @ ticks, start # starts))))"

definition whirlpool_load ::
  "sdk \<Rightarrow> account_reader \<Rightarrow> pubkey \<Rightarrow> account \<Rightarrow> whirlpool_market direct_result" where
  "whirlpool_load sdk read pool pool_account =
     rbind (ok_or (whirlpool_decode pool (acc_data pool_account))
              (PoolUndecodable pool (''Whirlpool state did not match the expected layout (''
                 @ show_nat (length (acc_data pool_account)) @ '' bytes)''))) (\<lambda>state.
     if wp_liquidity state = 0 then
       Inl (InsufficientLiquidity pool 0 ''the pool has no liquidity in range at the current tick'')
     else
       let program = whirlpool_program_id sdk;
           oracle = oracle_address sdk program pool;
           starts = nearby_starts state;
           fixed = [wp_vault_a state, wp_vault_b state, wp_mint_a state, wp_mint_b state, oracle];
           addresses = fixed @ map (whirlpool_tick_array_address sdk program pool) starts;
           required = fetched ''account does not exist'' addresses
       in rbind (map_err (\<lambda>e. AccountUnavailable pool (''Whirlpool accounts could not be read: '' @ e))
                   (read addresses)) (\<lambda>accounts.
       rbind (required accounts 0) (\<lambda>vault_a.
       rbind (ok_or (token_account_amount (acc_data vault_a))
                (PoolUndecodable pool ''token_vault_a is not a token account'')) (\<lambda>vault_a_balance.
       rbind (required accounts 1) (\<lambda>vault_b.
       rbind (ok_or (token_account_amount (acc_data vault_b))
                (PoolUndecodable pool ''token_vault_b is not a token account'')) (\<lambda>vault_b_balance.
       rbind (required accounts 2) (\<lambda>mint_a.
       rbind (required accounts 3) (\<lambda>mint_b.
       rbind (ok_or (mint_decimals (acc_data mint_a))
                (PoolUndecodable pool ''token_mint_a is not a mint account'')) (\<lambda>decimals_a.
       rbind (ok_or (mint_decimals (acc_data mint_b))
                (PoolUndecodable pool ''token_mint_b is not a mint account'')) (\<lambda>decimals_b.
       if (case account_entry accounts 4 of
             None \<Rightarrow> False
           | Some oracle_account \<Rightarrow> oracle_has_active_adaptive_fee (acc_data oracle_account) \<noteq> Some False)
       then Inl (PoolNotTradable pool ''this pool's oracle account either drives an adaptive fee or does not decode -- fee_rate alone cannot be trusted as the whole fee'')
       else
       rbind (read_whirlpool_arrays sdk pool (wp_tick_spacing state) accounts (length fixed) starts)
         (\<lambda>(ticks, available).
       if available = [] then
         Inl (PoolNotTradable pool ''not one tick array around the current tick exists on chain'')
       else Inr \<lparr>wm_state = state, wm_oracle = oracle, wm_program_a = acc_owner mint_a,
              wm_program_b = acc_owner mint_b, wm_decimals_a = decimals_a, wm_decimals_b = decimals_b,
              wm_vault_a_balance = vault_a_balance, wm_vault_b_balance = vault_b_balance,
              wm_transfer_fee_a = read_transfer_fee_schedule sdk mint_a,
              wm_transfer_fee_b = read_transfer_fee_schedule sdk mint_b,
              wm_ticks = ordered_ticks ticks, wm_available_starts = available\<rparr>)))))))))))"

section \<open>The market\<close>

definition whirlpool_is_side_a :: "whirlpool_market \<Rightarrow> pubkey \<Rightarrow> bool option" where
  "whirlpool_is_side_a m mint = side_of (wp_mint_a (wm_state m)) (wp_mint_b (wm_state m)) mint"

definition whirlpool_transfer_fee :: "whirlpool_market \<Rightarrow> bool \<Rightarrow> transfer_fee_schedule option" where
  "whirlpool_transfer_fee m side_a = (if side_a then wm_transfer_fee_a m else wm_transfer_fee_b m)"

definition whirlpool_reserve :: "whirlpool_market \<Rightarrow> bool \<Rightarrow> u64" where
  "whirlpool_reserve m side_a =
     (if side_a then saturating_sub (wm_vault_a_balance m) (wp_protocol_fee_owed_a (wm_state m))
      else saturating_sub (wm_vault_b_balance m) (wp_protocol_fee_owed_b (wm_state m)))"

definition whirlpool_output_reserve :: "whirlpool_market \<Rightarrow> bool \<Rightarrow> u64" where
  "whirlpool_output_reserve m input_is_a = whirlpool_reserve m (\<not> input_is_a)"

definition pad_starts :: "i32 list \<Rightarrow> i32 list" where
  "pad_starts starts = starts @ replicate (WHIRLPOOL_TICK_ARRAYS_PER_SWAP - length starts) (last starts)"

definition whirlpool_tick_array_accounts :: "sdk \<Rightarrow> whirlpool_market \<Rightarrow> bool \<Rightarrow> pubkey list" where
  "whirlpool_tick_array_accounts sdk m zero_for_one =
     (let s = wm_state m;
          starts = filter (\<lambda>start. start \<in> set (wm_available_starts m))
                     (candidate_tick_array_starts (wp_tick_current s) (wp_tick_spacing s) zero_for_one)
      in if starts = [] then []
         else map (whirlpool_tick_array_address sdk (whirlpool_program_id sdk) (wp_pool s))
                (take WHIRLPOOL_TICK_ARRAYS_PER_SWAP (pad_starts starts)))"

definition whirlpool_walk :: "whirlpool_market \<Rightarrow> bool \<Rightarrow> u64 \<Rightarrow> (u64 \<times> u64 \<times> u128) direct_result" where
  "whirlpool_walk m zero_for_one amount_in =
     (let s = wm_state m in
      walk_ticks (wp_pool s) (ticks_ahead (wm_ticks m) (wp_tick_current s) zero_for_one)
        (wp_liquidity s) (wp_sqrt_price s) (ucast (wp_fee_rate s))
        WHIRLPOOL_FEE_RATE_DENOMINATOR zero_for_one amount_in)"

definition whirlpool_quote :: "whirlpool_market \<Rightarrow> pubkey \<Rightarrow> u64 \<Rightarrow> venue_quote direct_result" where
  "whirlpool_quote m input_mint amount_in =
     (let pool = wp_pool (wm_state m) in
      rbind (ok_or (whirlpool_is_side_a m input_mint) (PairNotInPool pool input_mint default_pubkey))
        (\<lambda>input_is_a.
      let received_by_pool = net_of_fee (whirlpool_transfer_fee m input_is_a) amount_in in
      if received_by_pool = 0 then
        Inl (InsufficientLiquidity pool amount_in
               ''the input transfer fee consumes the whole amount at this size'')
      else rbind (whirlpool_walk m input_is_a received_by_pool) (\<lambda>(gross_out, lp_fee, sqrt_next).
        if gross_out = 0 then
          Inl (InsufficientLiquidity pool amount_in ''fees consume the whole input at this size'')
        else let expected_out = net_of_fee (whirlpool_transfer_fee m (\<not> input_is_a)) gross_out in
        if expected_out = 0 \<or> whirlpool_output_reserve m input_is_a \<le> expected_out then
          Inl (InsufficientLiquidity pool amount_in ''the output exceeds what the pool's vault holds'')
        else Inr \<lparr>vq_amount_in = amount_in, vq_expected_out = expected_out, vq_lp_fee = lp_fee,
                  vq_price_impact_pct = sqrt_price_impact_pct (wp_sqrt_price (wm_state m)) sqrt_next\<rparr>)))"

definition owner_account_a :: "swap_accounts \<Rightarrow> bool \<Rightarrow> pubkey" where
  "owner_account_a acc input_is_a =
     (if input_is_a then sa_input_token_account acc else sa_output_token_account acc)"

definition owner_account_b :: "swap_accounts \<Rightarrow> bool \<Rightarrow> pubkey" where
  "owner_account_b acc input_is_a =
     (if input_is_a then sa_output_token_account acc else sa_input_token_account acc)"

definition whirlpool_swap_instruction ::
  "sdk \<Rightarrow> whirlpool_market \<Rightarrow> swap_accounts \<Rightarrow> u64 \<Rightarrow> u64 \<Rightarrow> instruction direct_result" where
  "whirlpool_swap_instruction sdk m acc amount_in min_out =
     (let s = wm_state m in
      rbind (swap_direction (wp_pool s) (wp_mint_a s) (wp_mint_b s) acc) (\<lambda>input_is_a.
      let tick_arrays = whirlpool_tick_array_accounts sdk m input_is_a in
      if length tick_arrays \<noteq> WHIRLPOOL_TICK_ARRAYS_PER_SWAP then
        Inl (InsufficientLiquidity (wp_pool s) amount_in
               ''no tick array in the swap direction exists on chain'')
      else
        let uses_token_2022 = (wm_program_a m = spl_token_2022_id sdk \<or> wm_program_b m = spl_token_2022_id sdk);
            arrays = map (\<lambda>array. meta_new array False) (take WHIRLPOOL_TICK_ARRAYS_PER_SWAP tick_arrays);
            data = (if uses_token_2022 then WHIRLPOOL_SWAP_V2 else WHIRLPOOL_SWAP)
              @ to_le_bytes_u64 amount_in @ to_le_bytes_u64 min_out @ to_le_bytes_u128 0 @ [1]
              @ [if input_is_a then 1 else 0] @ (if uses_token_2022 then [0] else []);
            metas =
              (if uses_token_2022 then
                 [meta_readonly (wm_program_a m) False,
                  meta_readonly (wm_program_b m) False,
                  meta_readonly (whirlpool_memo_program_id sdk) False,
                  meta_readonly (sa_owner acc) True,
                  meta_new (wp_pool s) False,
                  meta_readonly (wp_mint_a s) False,
                  meta_readonly (wp_mint_b s) False,
                  meta_new (owner_account_a acc input_is_a) False,
                  meta_new (wp_vault_a s) False,
                  meta_new (owner_account_b acc input_is_a) False,
                  meta_new (wp_vault_b s) False]
                 @ arrays @ [meta_new (wm_oracle m) False]
               else
                 [meta_readonly (spl_token_id sdk) False,
                  meta_readonly (sa_owner acc) True,
                  meta_new (wp_pool s) False,
                  meta_new (owner_account_a acc input_is_a) False,
                  meta_new (wp_vault_a s) False,
                  meta_new (owner_account_b acc input_is_a) False,
                  meta_new (wp_vault_b s) False]
                 @ arrays @ [meta_readonly (wm_oracle m) False])
        in Inr \<lparr>ix_program = whirlpool_program_id sdk, ix_accounts = metas, ix_data = data\<rparr>))"

definition whirlpool_pool_market :: "sdk \<Rightarrow> whirlpool_market \<Rightarrow> pool_market" where
  "whirlpool_pool_market sdk m = (let s = wm_state m in
     \<lparr>pm_program = OrcaWhirlpool, pm_pool = wp_pool s, pm_mints = (wp_mint_a s, wp_mint_b s),
      pm_token_program = (\<lambda>mint. map_option (\<lambda>side_a. if side_a then wm_program_a m else wm_program_b m)
                            (whirlpool_is_side_a m mint)),
      pm_decimals = (\<lambda>mint. map_option (\<lambda>side_a. if side_a then wm_decimals_a m else wm_decimals_b m)
                            (whirlpool_is_side_a m mint)),
      pm_quote = whirlpool_quote m, pm_swap_instruction = whirlpool_swap_instruction sdk m,
      pm_compute_units = WHIRLPOOL_COMPUTE_UNITS, pm_settles_native_sol = False\<rparr>)"

section \<open>The venue keeps its contract\<close>

lemma whirlpool_quote_Inr:
  assumes "whirlpool_quote m mint amount = Inr q"
  obtains side gross sqrt_next where "whirlpool_is_side_a m mint = Some side"
    and "whirlpool_walk m side (net_of_fee (whirlpool_transfer_fee m side) amount)
       = Inr (gross, vq_lp_fee q, sqrt_next)"
    and "vq_amount_in q = amount"
    and "vq_expected_out q = net_of_fee (whirlpool_transfer_fee m (\<not> side)) gross"
    and "vq_expected_out q \<noteq> 0" and "vq_expected_out q < whirlpool_output_reserve m side"
proof -
  from assms obtain side where side: "whirlpool_is_side_a m mint = Some side"
    by (auto simp: whirlpool_quote_def Let_def res_simps)
  from assms side obtain gross fee sq where
    "whirlpool_walk m side (net_of_fee (whirlpool_transfer_fee m side) amount) = Inr (gross, fee, sq)"
    by (auto simp: whirlpool_quote_def Let_def res_simps)
  with assms side show thesis
    by (intro that [OF side]) (auto simp: whirlpool_quote_def Let_def res_simps not_le)
qed

lemma whirlpool_quote_errs: "errs (\<lambda>e. \<not> submitted e) (whirlpool_quote m mint amount)"
  unfolding whirlpool_quote_def Let_def whirlpool_walk_def
  by (intro errs_intros) (auto split: prod.split)

text \<open>The account slots that follow the program accounts, in either wire format.\<close>

lemma whirlpool_ix:
  assumes "whirlpool_swap_instruction sdk m acc amount min_out = Inr ix"
  obtains side k where "swap_direction (wp_pool (wm_state m)) (wp_mint_a (wm_state m)) (wp_mint_b (wm_state m)) acc
       = Inr side"
    and "ix_program ix = whirlpool_program_id sdk"
    and "\<And>me. me \<in> set (ix_accounts ix) \<Longrightarrow> meta_signer me \<Longrightarrow> meta_key me = sa_owner acc"
    and "k = (if wm_program_a m = spl_token_2022_id sdk \<or> wm_program_b m = spl_token_2022_id sdk then 7 else 3)"
    and "map meta_key (drop k (ix_accounts ix)) =
       [owner_account_a acc side, wp_vault_a (wm_state m), owner_account_b acc side, wp_vault_b (wm_state m)]
       @ whirlpool_tick_array_accounts sdk m side @ [wm_oracle m]"
    and "length (whirlpool_tick_array_accounts sdk m side) = 3"
    and "\<exists>tag rest. length tag = 8 \<and> ix_data ix = tag @ to_le_bytes_u64 amount @ to_le_bytes_u64 min_out @ rest"
proof -
  from assms obtain side where
    side: "swap_direction (wp_pool (wm_state m)) (wp_mint_a (wm_state m)) (wp_mint_b (wm_state m)) acc = Inr side"
    by (auto simp: whirlpool_swap_instruction_def Let_def rbind_Inr_iff)
  have len: "length WHIRLPOOL_SWAP = 8" "length WHIRLPOOL_SWAP_V2 = 8"
    by (simp_all add: WHIRLPOOL_SWAP_def WHIRLPOOL_SWAP_V2_def)
  show thesis
    by (rule that [OF side _ _ refl])
      (use assms side len in \<open>auto simp: whirlpool_swap_instruction_def Let_def meta_new_def meta_readonly_def
        WHIRLPOOL_TICK_ARRAYS_PER_SWAP_def comp_def split: if_splits\<close>)
qed

lemma whirlpool_ix_errs: "errs (\<lambda>e. \<not> submitted e) (whirlpool_swap_instruction sdk m acc amount min_out)"
  unfolding whirlpool_swap_instruction_def Let_def
  by (intro errs_intros) simp_all

lemma whirlpool_market_simps [simp]:
  "pm_mints (whirlpool_pool_market sdk m) = (wp_mint_a (wm_state m), wp_mint_b (wm_state m))"
  "pm_quote (whirlpool_pool_market sdk m) = whirlpool_quote m"
  "pm_swap_instruction (whirlpool_pool_market sdk m) = whirlpool_swap_instruction sdk m"
  "pm_token_program (whirlpool_pool_market sdk m) mint = map_option (\<lambda>side_a. if side_a
     then wm_program_a m else wm_program_b m) (whirlpool_is_side_a m mint)"
  "pm_settles_native_sol (whirlpool_pool_market sdk m) \<longleftrightarrow> False"
  by (simp_all add: whirlpool_pool_market_def Let_def)

definition whirlpool_wf :: "whirlpool_market \<Rightarrow> bool" where
  "whirlpool_wf m \<longleftrightarrow> sorted_wrt (<) (map it_tick (wm_ticks m)) \<and> length (wm_ticks m) < 2 ^ 60"

lemma whirlpool_walk_legs:
  assumes "whirlpool_wf m" and "whirlpool_walk m side amount = Inr (gross, fee, sq)"
  shows "\<exists>gs. walk_legs (wp_pool (wm_state m)) side
       (ticks_ahead (wm_ticks m) (wp_tick_current (wm_state m)) side)
       (wp_liquidity (wm_state m)) (wp_sqrt_price (wm_state m)) gs
     \<and> paid gs + unat fee = unat amount
     \<and> paid gs * 1000000 \<le> unat amount * (1000000 - unat (wp_fee_rate (wm_state m)))
     \<and> unat gross = min (received gs) (2 ^ 64 - 1)"
  using venue_walk_legs [OF assms(2) [unfolded whirlpool_walk_def Let_def]] assms(1)
  by (simp add: WHIRLPOOL_FEE_RATE_DENOMINATOR_def whirlpool_wf_def)

interpretation whirlpool: fee_bounded_market "whirlpool_pool_market sdk" "\<lambda>_. whirlpool_program_id sdk" whirlpool_wf for sdk
proof (unfold_locales, goal_cases)
  case (1 s mint amount q)
  then show ?case by (auto elim: whirlpool_quote_Inr)
next
  case (2 s mint amount q)
  then show ?case
    by (auto simp: whirlpool_is_side_a_def side_of_Some elim!: whirlpool_quote_Inr split: if_splits)
next
  case (9 s mint amount q)
  then obtain side gross sq where
    w: "whirlpool_walk s side (net_of_fee (whirlpool_transfer_fee s side) amount) = Inr (gross, vq_lp_fee q, sq)"
    by (auto elim: whirlpool_quote_Inr)
  have "unat (vq_lp_fee q) \<le> unat (net_of_fee (whirlpool_transfer_fee s side) amount)"
    using whirlpool_walk_legs [OF 9(1) w] by auto
  then show ?case using net_of_fee_le [of "whirlpool_transfer_fee s side" amount]
    by (simp add: word_le_nat_alt)
next
  case (3 s mint amount e)
  then show ?case using errsD [OF whirlpool_quote_errs] by simp
next
  case (4 s acc amount min_out ix)
  then show ?case by (auto simp: trades_def elim!: whirlpool_ix dest!: swap_direction_Inr)
next
  case (5 s acc amount min_out ix)
  then show ?case by (auto elim: whirlpool_ix)
next
  case (6 s acc amount min_out ix m)
  then show ?case by (auto elim: whirlpool_ix)
next
  case (7 s acc amount min_out e)
  then show ?case using errsD [OF whirlpool_ix_errs] by simp
next
  case (8 s mint)
  then show ?case by (simp add: whirlpool_is_side_a_def)
qed

section \<open>A loaded market is well formed\<close>

lemma length_next_starts: "length (next_starts step start n) \<le> n"
  by (induction step start n rule: next_starts.induct) auto

lemma length_candidates: "length (candidate_tick_array_starts tick sp z) \<le> 3"
  using length_next_starts by (simp add: candidate_tick_array_starts_def Let_def WHIRLPOOL_TICK_ARRAYS_PER_SWAP_def)

lemma length_nearby_starts: "length (nearby_starts state) \<le> 6"
proof -
  have "length (nearby_starts state)
      \<le> length (candidate_tick_array_starts (wp_tick_current state) (wp_tick_spacing state) True
          @ candidate_tick_array_starts (wp_tick_current state) (wp_tick_spacing state) False)"
    unfolding nearby_starts_def by (rule le_trans [OF length_fold_add]) simp
  also have "\<dots> \<le> 6"
    using length_candidates [of "wp_tick_current state" "wp_tick_spacing state" True]
      length_candidates [of "wp_tick_current state" "wp_tick_spacing state" False]
    by simp
  finally show ?thesis .
qed

lemma length_decode_fixed_ticks: "decode_fixed_ticks data start sp is = Some ts \<Longrightarrow> length ts \<le> length is"
  by (induction data start sp "is" arbitrary: ts rule: decode_fixed_ticks.induct)
    (fastforce simp: Let_def bind_eq_Some_conv split: if_splits)+

lemma decode_dynamic_ticks_length:
  "decode_dynamic_ticks data start sp bm is offset = Some (ts, end_offset) \<Longrightarrow>
     end_offset = offset + length is + 112 * length ts \<and> length ts \<le> length is"
proof (induction data start sp bm "is" offset arbitrary: ts rule: decode_dynamic_ticks.induct)
  case (2 data start sp bm i "is" offset)
  from 2(3) obtain tag where tag: "u8_at data offset = Some tag"
    by (auto simp: bind_eq_Some_conv)
  show ?case
  proof (cases "tag = 0 \<and> \<not> bm AND push_bit i 1 \<noteq> 0")
    case True
    then show ?thesis using 2(1) [OF tag refl refl] 2(3) by (force simp: tag)
  next
    case False
    then show ?thesis using 2(2) [OF tag refl refl False] 2(3)
      by (fastforce simp: tag bind_eq_Some_conv DYNAMIC_TICK_DATA_SIZE_def split: if_splits)
  qed
qed simp

lemma decode_dynamic_length:
  "decode_dynamic_tick_array data start sp = Some ts \<Longrightarrow>
     length data = 148 + 112 * length ts \<and> length ts \<le> 88"
  by (auto simp: decode_dynamic_tick_array_def bind_eq_Some_conv WHIRLPOOL_TICK_ARRAY_SIZE_def
      DYNAMIC_TICKS_OFFSET_def split: if_splits dest!: decode_dynamic_ticks_length)

lemma length_whirlpool_decode: "whirlpool_decode_tick_array data start sp = Some ts \<Longrightarrow> length ts \<le> 88"
  by (auto simp: whirlpool_decode_tick_array_def decode_fixed_tick_array_def WHIRLPOOL_TICK_ARRAY_SIZE_def
      split: if_splits dest: decode_dynamic_length length_decode_fixed_ticks)

lemma read_whirlpool_arrays_facts:
  "read_whirlpool_arrays sdk pool sp accounts n starts = Inr (ticks, available) \<Longrightarrow>
     length ticks \<le> 88 * length starts
     \<and> available = map snd (filter (\<lambda>(i, start). account_entry accounts i \<noteq> None)
         (zip [n..<n + length starts] starts))"
proof (induction sdk pool sp accounts n starts arbitrary: ticks available rule: read_whirlpool_arrays.induct)
  case (2 sdk pool sp accounts n start rest)
  have upt: "[n..<n + length (start # rest)] = n # [Suc n..<Suc n + length rest]"
    by (simp add: upt_conv_Cons del: upt_Suc)
  show ?case
  proof (cases "account_entry accounts n")
    case None
    then have "length ticks \<le> 88 * length rest
        \<and> available = map snd (filter (\<lambda>(i, start). account_entry accounts i \<noteq> None)
            (zip [Suc n..<Suc n + length rest] rest))"
      using 2(3) by (intro 2(1)) simp_all
    then show ?thesis using None unfolding upt by auto
  next
    case (Some acc)
    then obtain decoded ticks' starts' where d: "whirlpool_decode_tick_array (acc_data acc) start sp = Some decoded"
      and r: "read_whirlpool_arrays sdk pool sp accounts (Suc n) rest = Inr (ticks', starts')"
      and eq: "ticks = decoded @ ticks'" "available = start # starts'"
      using 2(3) by (auto simp: res_simps split: option.splits)
    show ?thesis
      using 2(2) [OF Some d r] length_whirlpool_decode [OF d] Some unfolding upt eq by auto
  qed
qed simp

lemma whirlpool_load_Inr:
  assumes "whirlpool_load sdk read pool pool_account = Inr m"
  obtains accounts n ticks where
    "whirlpool_decode pool (acc_data pool_account) = Some (wm_state m)"
    "wp_liquidity (wm_state m) \<noteq> 0"
    "\<And>oracle. account_entry accounts 4 = Some oracle \<Longrightarrow>
       oracle_has_active_adaptive_fee (acc_data oracle) = Some False"
    "read_whirlpool_arrays sdk pool (wp_tick_spacing (wm_state m)) accounts n (nearby_starts (wm_state m))
       = Inr (ticks, wm_available_starts m)"
    "wm_available_starts m \<noteq> []" "wm_ticks m = ordered_ticks ticks"
proof -
  from assms obtain state accounts ticks available where
    1: "whirlpool_decode pool (acc_data pool_account) = Some state" "wp_liquidity state \<noteq> 0"
      "\<not> (case account_entry accounts 4 of None \<Rightarrow> False
           | Some oracle_account \<Rightarrow> oracle_has_active_adaptive_fee (acc_data oracle_account) \<noteq> Some False)"
      "read_whirlpool_arrays sdk pool (wp_tick_spacing state) accounts 5 (nearby_starts state)
         = Inr (ticks, available)" "available \<noteq> []"
    and m: "wm_state m = state" "wm_ticks m = ordered_ticks ticks" "wm_available_starts m = available"
    by (auto simp: whirlpool_load_def Let_def res_simps eval_nat_numeral split: if_splits)
  show thesis
    by (rule that [of accounts 5 ticks]) (use 1 m in \<open>auto split: option.splits\<close>)
qed

lemma whirlpool_load_wf:
  assumes "whirlpool_load sdk read pool pool_account = Inr m"
  shows "whirlpool_wf m"
proof -
  obtain accounts n ticks where
    ticks: "read_whirlpool_arrays sdk pool (wp_tick_spacing (wm_state m)) accounts n (nearby_starts (wm_state m))
      = Inr (ticks, wm_available_starts m)"
    and m: "wm_ticks m = ordered_ticks ticks"
    using assms by (rule whirlpool_load_Inr)
  have "length ticks \<le> 88 * 6"
    using read_whirlpool_arrays_facts [OF ticks] length_nearby_starts [of "wm_state m"] by linarith
  then have "length (wm_ticks m) \<le> 88 * 6" using length_ordered_ticks [of ticks] by (simp add: m)
  then show ?thesis by (simp add: whirlpool_wf_def m ordered_ticks_sorted)
qed

section \<open>A concrete pool\<close>

definition sample_whirlpool :: whirlpool_market where
  "sample_whirlpool = \<lparr>
     wm_state = \<lparr>wp_pool = Pubkey [9], wp_tick_spacing = 1, wp_fee_rate = 2500, wp_liquidity = 1000000,
       wp_sqrt_price = 0x20000000000000000, wp_tick_current = 13863, wp_protocol_fee_owed_a = 0,
       wp_protocol_fee_owed_b = 5, wp_mint_a = Pubkey [1], wp_vault_a = Pubkey [11],
       wp_mint_b = Pubkey [2], wp_vault_b = Pubkey [12]\<rparr>,
     wm_oracle = Pubkey [8], wm_program_a = Pubkey [6], wm_program_b = Pubkey [22],
     wm_decimals_a = 9, wm_decimals_b = 6, wm_vault_a_balance = 1000000000,
     wm_vault_b_balance = 5000000000, wm_transfer_fee_a = None, wm_transfer_fee_b = None,
     wm_ticks = [sample_tick], wm_available_starts = [13816, 13728]\<rparr>"

lemma sample_whirlpool_arrays:
  "candidate_tick_array_starts 13863 1 True = [13816, 13728, 13640]"
  by (simp add: candidate_tick_array_starts_def whirlpool_start_index_def whirlpool_span_def Let_def wrap_i32_def
      WHIRLPOOL_TICK_ARRAY_SIZE_def WHIRLPOOL_TICK_ARRAYS_PER_SWAP_def signed_divide_int_def eval_nat_numeral)

section \<open>Properties\<close>

text \<open>The three tick-array slots of a Whirlpool instruction, which the programme requires, only name
  arrays that were read from the chain: candidates that do not exist are dropped and the last real one fills
  the slots, in the order the price meets them; the token accounts stay with the pool's two sides.\<close>

theorem whirlpool_instruction_names_existing_arrays:
  assumes "whirlpool_swap_instruction sdk m acc amount min_out = Inr ix"
  shows "\<exists>side starts. swap_direction (wp_pool (wm_state m)) (wp_mint_a (wm_state m)) (wp_mint_b (wm_state m)) acc
        = Inr side
     \<and> length starts = 3 \<and> set starts \<subseteq> set (wm_available_starts m)
     \<and> set starts = set (candidate_tick_array_starts (wp_tick_current (wm_state m))
          (wp_tick_spacing (wm_state m)) side) \<inter> set (wm_available_starts m)
     \<and> map meta_key (drop (length (ix_accounts ix) - 8) (ix_accounts ix)) =
        (if side then [sa_input_token_account acc, wp_vault_a (wm_state m), sa_output_token_account acc]
         else [sa_output_token_account acc, wp_vault_a (wm_state m), sa_input_token_account acc])
        @ [wp_vault_b (wm_state m)]
        @ map (whirlpool_tick_array_address sdk (whirlpool_program_id sdk) (wp_pool (wm_state m))) starts
        @ [wm_oracle m]"
proof -
  let ?s = "wm_state m"
  from assms obtain side k where
    dir: "swap_direction (wp_pool ?s) (wp_mint_a ?s) (wp_mint_b ?s) acc = Inr side"
    and slots: "map meta_key (drop k (ix_accounts ix)) =
       [owner_account_a acc side, wp_vault_a ?s, owner_account_b acc side, wp_vault_b ?s]
       @ whirlpool_tick_array_accounts sdk m side @ [wm_oracle m]"
    and len: "length (whirlpool_tick_array_accounts sdk m side) = 3"
    by (rule whirlpool_ix)
  define cs where "cs = candidate_tick_array_starts (wp_tick_current ?s) (wp_tick_spacing ?s) side"
  define starts where "starts = filter (\<lambda>start. start \<in> set (wm_available_starts m)) cs"
  have ne: "starts \<noteq> []"
    using len by (auto simp: whirlpool_tick_array_accounts_def Let_def starts_def cs_def)
  have short: "length starts \<le> 3"
    unfolding starts_def cs_def by (rule le_trans [OF length_filter_le length_candidates])
  have pad: "length (pad_starts starts) = 3" "set (pad_starts starts) = set starts"
    using short ne by (auto simp: pad_starts_def WHIRLPOOL_TICK_ARRAYS_PER_SWAP_def)
  have arrays: "whirlpool_tick_array_accounts sdk m side
      = map (whirlpool_tick_array_address sdk (whirlpool_program_id sdk) (wp_pool ?s)) (pad_starts starts)"
    using ne pad(1)
    by (simp add: whirlpool_tick_array_accounts_def Let_def starts_def cs_def WHIRLPOOL_TICK_ARRAYS_PER_SWAP_def)
  have "length (map meta_key (drop k (ix_accounts ix))) = 8" using len by (simp add: slots)
  then have k: "k = length (ix_accounts ix) - 8" by simp
  have "set starts = set cs \<inter> set (wm_available_starts m)" by (auto simp: starts_def)
  then show ?thesis
    using dir pad slots unfolding arrays k
    by (intro exI [of _ side] exI [of _ "pad_starts starts"])
      (simp add: cs_def owner_account_a_def owner_account_b_def)
qed

theorem whirlpool_instruction_names_existing_arrays_witness:
  "\<exists>ix starts. whirlpool_swap_instruction sample_sdk sample_whirlpool
      \<lparr>sa_owner = Pubkey [9], sa_input_mint = Pubkey [1], sa_output_mint = Pubkey [2],
       sa_input_token_account = Pubkey [7], sa_output_token_account = Pubkey [8]\<rparr> 500 400 = Inr ix
     \<and> length starts = 3 \<and> set starts = {13816, 13728 :: i32}"
proof -
  let ?acc = "\<lparr>sa_owner = Pubkey [9], sa_input_mint = Pubkey [1], sa_output_mint = Pubkey [2],
       sa_input_token_account = Pubkey [7], sa_output_token_account = Pubkey [8]\<rparr>"
  have facts: "wp_tick_current (wm_state sample_whirlpool) = 13863"
    "wp_tick_spacing (wm_state sample_whirlpool) = 1" "wm_available_starts sample_whirlpool = [13816, 13728]"
    "wp_mint_a (wm_state sample_whirlpool) = Pubkey [1]" "wp_mint_b (wm_state sample_whirlpool) = Pubkey [2]"
    by (simp_all add: sample_whirlpool_def)
  have dir: "swap_direction p (Pubkey [1]) (Pubkey [2]) ?acc = Inr True" for p
    by (simp add: swap_direction_def ok_side_def side_of_def)
  have "is_ok (whirlpool_swap_instruction sample_sdk sample_whirlpool ?acc 500 400)"
    by (simp add: whirlpool_swap_instruction_def facts dir whirlpool_tick_array_accounts_def
        sample_whirlpool_arrays pad_starts_def WHIRLPOOL_TICK_ARRAYS_PER_SWAP_def Let_def)
  then obtain ix where ix: "whirlpool_swap_instruction sample_sdk sample_whirlpool ?acc 500 400 = Inr ix"
    by (auto simp: is_ok_iff)
  from whirlpool_instruction_names_existing_arrays [OF ix] ix show ?thesis
    by (auto simp: facts dir sample_whirlpool_arrays)
qed

text \<open>The two tick-array layouts cannot be confused: a dynamic array that decodes has exactly the length
  its initialised ticks call for, which is never the length of a fixed one, and its ticks lie on the grid.\<close>

theorem whirlpool_dynamic_layout:
  assumes "decode_dynamic_tick_array data start sp = Some ticks"
  shows "length data = 148 + 112 * length ticks \<and> length ticks \<le> 88 \<and> length data \<noteq> FIXED_TICK_ARRAY_LEN
     \<and> whirlpool_decode_tick_array data start sp = Some ticks \<and> i32_at data 8 = Some start"
proof -
  note len = decode_dynamic_length [OF assms]
  have "(148 :: nat) + 112 * n \<noteq> 9988" for n by presburger
  then have "length data \<noteq> FIXED_TICK_ARRAY_LEN"
    using len by (simp add: FIXED_TICK_ARRAY_LEN_def WHIRLPOOL_TICKS_OFFSET_def
        WHIRLPOOL_TICK_ARRAY_SIZE_def WHIRLPOOL_TICK_STATE_SIZE_def)
  with len assms show ?thesis
    by (auto simp: whirlpool_decode_tick_array_def)
      (auto simp: decode_dynamic_tick_array_def bind_eq_Some_conv split: if_splits)
qed

lemma decode_zero_ticks:
  "offset + length is \<le> 148 \<Longrightarrow>
     decode_dynamic_ticks (replicate 148 0) start sp 0 is offset = Some ([], offset + length is)"
  by (induction "is" arbitrary: offset) (auto simp: u8_at_def)

theorem whirlpool_dynamic_layout_witness:
  "length (replicate 148 (0 :: u8)) \<noteq> FIXED_TICK_ARRAY_LEN
     \<and> whirlpool_decode_tick_array (replicate 148 0) 0 1 = Some []"
proof -
  have "decode_dynamic_tick_array (replicate 148 0) 0 1 = Some []"
    by (simp add: decode_dynamic_tick_array_def i32_at_def u128_at_def slice_def from_le_bytes_def
        decode_zero_ticks WHIRLPOOL_TICK_ARRAY_SIZE_def DYNAMIC_TICKS_OFFSET_def DYNAMIC_TICK_BITMAP_OFFSET_def)
  from whirlpool_dynamic_layout [OF this] show ?thesis by blast
qed

end
