(* ===== verification/Moonit.thy ===== *)
theory Moonit
  imports Venue_Common
begin

text \<open>
  \<^verbatim>\<open>venues/moonit.rs\<close>: the Moonit bonding curve. Its virtual collateral is recomputed from the
  token position on every trade, both divisions floored, and it settles in native SOL.
\<close>

definition MOONIT_BUY :: bytes where
  "MOONIT_BUY = [0x66, 0x06, 0x3d, 0x12, 0x01, 0xda, 0xeb, 0xea]"

definition MOONIT_SELL :: bytes where
  "MOONIT_SELL = [0x33, 0xe6, 0x85, 0xa4, 0x01, 0x7f, 0x83, 0xad]"

definition FIXED_SIDE_IN :: u8 where "FIXED_SIDE_IN = 0"
definition CURVE_TYPE_CONSTANT_PRODUCT_V1 :: u8 where "CURVE_TYPE_CONSTANT_PRODUCT_V1 = 1"
definition COLLATERAL_CURRENCY_SOL :: u8 where "COLLATERAL_CURRENCY_SOL = 0"

definition CONFIG_ACCOUNT_SEED :: bytes where
  "CONFIG_ACCOUNT_SEED = map (of_nat \<circ> of_char) ''config_account''"

definition INITIAL_VIRTUAL_TOKEN_RESERVES :: u128 where
  "INITIAL_VIRTUAL_TOKEN_RESERVES = 1073000000000000000"

definition INITIAL_VIRTUAL_COLLATERAL_RESERVES :: u128 where
  "INITIAL_VIRTUAL_COLLATERAL_RESERVES = 30000000000"

definition MOONIT_BPS :: u128 where "MOONIT_BPS = 10000"
definition MOONIT_COMPUTE_UNITS :: u32 where "MOONIT_COMPUTE_UNITS = 90000"

definition moonit_program_id :: "sdk \<Rightarrow> pubkey" where
  "moonit_program_id sdk = from_str sdk MOONIT_AMM_PROGRAM_ID"

definition associated_token_program_id :: "sdk \<Rightarrow> pubkey" where
  "associated_token_program_id sdk = from_str sdk ASSOCIATED_TOKEN_PROGRAM_ID"

definition system_program_id :: "sdk \<Rightarrow> pubkey" where
  "system_program_id sdk = from_str sdk SYSTEM_PROGRAM_ID"

definition config_account_address :: "sdk \<Rightarrow> pubkey" where
  "config_account_address sdk = find_program_address sdk [CONFIG_ACCOUNT_SEED] (moonit_program_id sdk)"

section \<open>Accounts\<close>

record curve_account_state =
  ca_pool :: pubkey
  ca_total_supply :: u64
  ca_curve_amount :: u64
  ca_mint :: pubkey
  ca_decimals :: u8
  ca_collateral_currency :: u8
  ca_curve_type :: u8

definition moonit_curve_decode :: "pubkey \<Rightarrow> bytes \<Rightarrow> curve_account_state option" where
  "moonit_curve_decode pool data =
     (if length data < 82 then None
      else do {
        total_supply \<leftarrow> u64_at data 8;
        curve_amount \<leftarrow> u64_at data 16;
        mint \<leftarrow> pubkey_at data 24;
        decimals \<leftarrow> u8_at data 56;
        collateral_currency \<leftarrow> u8_at data 57;
        curve_type \<leftarrow> u8_at data 58;
        Some \<lparr>ca_pool = pool, ca_total_supply = total_supply, ca_curve_amount = curve_amount,
          ca_mint = mint, ca_decimals = decimals, ca_collateral_currency = collateral_currency,
          ca_curve_type = curve_type\<rparr>
      })"

definition curve_position :: "curve_account_state \<Rightarrow> u128" where
  "curve_position c = saturating_sub (ucast (ca_total_supply c)) (ucast (ca_curve_amount c))"

record moonit_config =
  mc_helio_fee :: pubkey
  mc_dex_fee :: pubkey
  mc_fee_bps :: u16

definition moonit_config_decode :: "bytes \<Rightarrow> moonit_config option" where
  "moonit_config_decode data = do {
     helio_fee \<leftarrow> pubkey_at data 104;
     dex_fee \<leftarrow> pubkey_at data 136;
     fee_bps \<leftarrow> u16_at data 168;
     Some \<lparr>mc_helio_fee = helio_fee, mc_dex_fee = dex_fee, mc_fee_bps = fee_bps\<rparr>
   }"

record moonit_market =
  mm_curve :: curve_account_state
  mm_token_program :: pubkey
  mm_mint_decimals :: u8
  mm_curve_token_account :: pubkey
  mm_dex_fee :: pubkey
  mm_helio_fee :: pubkey
  mm_fee_bps :: u16

definition moonit_new ::
  "sdk \<Rightarrow> curve_account_state \<Rightarrow> pubkey \<Rightarrow> u8 \<Rightarrow> pubkey \<Rightarrow> pubkey \<Rightarrow> u16 \<Rightarrow> moonit_market" where
  "moonit_new sdk curve token_program decimals dex_fee helio_fee fee_bps =
     \<lparr>mm_curve = curve, mm_token_program = token_program, mm_mint_decimals = decimals,
      mm_curve_token_account = associated_token_address sdk (ca_pool curve) (ca_mint curve) token_program,
      mm_dex_fee = dex_fee, mm_helio_fee = helio_fee, mm_fee_bps = fee_bps\<rparr>"

section \<open>Loading\<close>

definition moonit_load ::
  "sdk \<Rightarrow> account_reader \<Rightarrow> pubkey \<Rightarrow> account \<Rightarrow> moonit_market direct_result" where
  "moonit_load sdk read pool pool_account =
     rbind (ok_or (moonit_curve_decode pool (acc_data pool_account))
              (PoolUndecodable pool (''Moonit curve account did not match the expected layout (''
                 @ show_nat (length (acc_data pool_account)) @ '' bytes)''))) (\<lambda>curve.
     if ca_curve_type curve \<noteq> CURVE_TYPE_CONSTANT_PRODUCT_V1 then
       Inl (PoolNotTradable pool (''curve_type '' @ show_word (ca_curve_type curve)
              @ '' is not ConstantProductV1 (1); this venue's formula was verified only for that curve''))
     else if ca_collateral_currency curve \<noteq> COLLATERAL_CURRENCY_SOL then
       Inl (PoolNotTradable pool (''collateral_currency '' @ show_word (ca_collateral_currency curve)
              @ '' is not SOL (0); this venue trades SOL-collateral curves only''))
     else if ca_total_supply curve < ca_curve_amount curve then
       Inl (PoolUndecodable pool ''curve_amount exceeds total_supply'')
     else if INITIAL_VIRTUAL_TOKEN_RESERVES \<le> ucast (ca_total_supply curve) then
       Inl (PoolNotTradable pool (''total_supply '' @ show_word (ca_total_supply curve)
              @ '' leaves no headroom under the protocol's virtual token reserve; unverified for this venue's formula''))
     else
       let addresses = [ca_mint curve, config_account_address sdk];
           required = fetched ''account does not exist'' addresses
       in rbind (map_err (\<lambda>e. AccountUnavailable pool (''Moonit accounts could not be read: '' @ e))
                   (read addresses)) (\<lambda>accounts.
       rbind (required accounts 0) (\<lambda>mint_account.
       if acc_owner mint_account \<noteq> spl_token_id sdk then
         Inl (PoolNotTradable pool
           ''the mint is not owned by the legacy SPL token programme; this venue's account order was verified only for legacy-token Moonit mints'')
       else
       rbind (ok_or (mint_decimals (acc_data mint_account))
                (PoolUndecodable pool ''the curve's mint is not a mint account'')) (\<lambda>decimals.
       rbind (required accounts 1) (\<lambda>config_account.
       rbind (ok_or (moonit_config_decode (acc_data config_account))
                (PoolUndecodable pool ''Moonit ConfigAccount did not match the expected layout'')) (\<lambda>config.
       Inr (moonit_new sdk curve (acc_owner mint_account) decimals (mc_dex_fee config)
              (mc_helio_fee config) (mc_fee_bps config))))))))"

section \<open>The curve\<close>

definition current_reserves :: "u128 \<Rightarrow> (u128 \<times> u128) option" where
  "current_reserves position = do {
     vtr \<leftarrow> checked_sub INITIAL_VIRTUAL_TOKEN_RESERVES position;
     if vtr = 0 then None
     else Some (vtr, INITIAL_VIRTUAL_TOKEN_RESERVES * INITIAL_VIRTUAL_COLLATERAL_RESERVES div vtr)
   }"

definition buy_in_collateral :: "u128 \<Rightarrow> u128 \<Rightarrow> u128 option" where
  "buy_in_collateral net_collateral position = do {
     (vtr, vcr) \<leftarrow> current_reserves position;
     new_vcr \<leftarrow> checked_add vcr net_collateral;
     if new_vcr = 0 then None
     else checked_sub vtr (INITIAL_VIRTUAL_TOKEN_RESERVES * INITIAL_VIRTUAL_COLLATERAL_RESERVES div new_vcr)
   }"

definition sell_in_token :: "u128 \<Rightarrow> u128 \<Rightarrow> u128 option" where
  "sell_in_token token_amount position = do {
     (vtr, vcr) \<leftarrow> current_reserves position;
     new_vtr \<leftarrow> checked_add vtr token_amount;
     if new_vtr = 0 then None
     else checked_sub vcr (INITIAL_VIRTUAL_TOKEN_RESERVES * INITIAL_VIRTUAL_COLLATERAL_RESERVES div new_vtr)
   }"

definition fee_on_gross :: "u64 \<Rightarrow> u16 \<Rightarrow> u64" where
  "fee_on_gross gross fee_bps =
     (if fee_bps = 0 then 0
      else ucast (min ((ucast gross :: u128) * ucast fee_bps div MOONIT_BPS) (ucast gross)))"

text \<open>\<^verbatim>\<open>u64::try_from\<close> of a 128-bit value.\<close>

definition try_u64 :: "u128 \<Rightarrow> u64 option" where
  "try_u64 x = (if unat x < 2 ^ 64 then Some (ucast x) else None)"

section \<open>The market\<close>

definition moonit_is_base :: "sdk \<Rightarrow> moonit_market \<Rightarrow> pubkey \<Rightarrow> bool option" where
  "moonit_is_base sdk m mint = side_of (ca_mint (mm_curve m)) (wsol_mint sdk) mint"

definition moonit_math_error :: direct_swap_error where
  "moonit_math_error =
     QuoteMath ''Moonit curve arithmetic overflowed or produced a non-positive reserve''"

text \<open>A fill: the output, the fee in input units, and the two virtual reserves it was priced on.\<close>

definition moonit_fill :: "moonit_market \<Rightarrow> bool \<Rightarrow> u64 \<Rightarrow> (u64 \<times> u64 \<times> u128 \<times> u128) direct_result" where
  "moonit_fill m input_is_base amount_in =
     (let position = curve_position (mm_curve m) in
      if input_is_base then
        rbind (ok_or (current_reserves position) moonit_math_error) (\<lambda>(vtr, vcr).
        rbind (ok_or (sell_in_token (ucast amount_in) position) moonit_math_error) (\<lambda>gross.
        rbind (ok_or (try_u64 gross) moonit_math_error) (\<lambda>gross_u64.
        let fee = fee_on_gross gross_u64 (mm_fee_bps m);
            fee_in_input = fee_in_input_units fee amount_in gross_u64
        in Inr (saturating_sub gross_u64 fee, fee_in_input, vtr, vcr))))
      else
        rbind (ok_or (current_reserves position) moonit_math_error) (\<lambda>(vtr, vcr).
        let fee = fee_on_gross amount_in (mm_fee_bps m);
            net_collateral = saturating_sub amount_in fee in
        rbind (ok_or (buy_in_collateral (ucast net_collateral) position) moonit_math_error) (\<lambda>tokens.
        rbind (ok_or (try_u64 tokens) moonit_math_error) (\<lambda>tokens_u64.
        Inr (tokens_u64, fee, vcr, vtr)))))"

definition moonit_quote :: "sdk \<Rightarrow> moonit_market \<Rightarrow> pubkey \<Rightarrow> u64 \<Rightarrow> venue_quote direct_result" where
  "moonit_quote sdk m input_mint amount_in =
     (let pool = ca_pool (mm_curve m) in
      rbind (ok_or (moonit_is_base sdk m input_mint) (PairNotInPool pool input_mint default_pubkey))
        (\<lambda>input_is_base.
      if amount_in = 0 then Inl (InsufficientLiquidity pool amount_in ''zero input'')
      else rbind (moonit_fill m input_is_base amount_in) (\<lambda>(expected_out, lp_fee, reserve_in, reserve_out).
      if expected_out = 0 then
        Inl (InsufficientLiquidity pool amount_in ''the curve returns nothing at this size'')
      else
        rbind (ok_or (try_u64 reserve_in) moonit_math_error) (\<lambda>reserve_in_u64.
        rbind (ok_or (try_u64 reserve_out) moonit_math_error) (\<lambda>reserve_out_u64.
        Inr \<lparr>vq_amount_in = amount_in, vq_expected_out = expected_out, vq_lp_fee = lp_fee,
             vq_price_impact_pct =
               price_impact_pct reserve_in_u64 reserve_out_u64 amount_in expected_out\<rparr>)))))"

definition moonit_swap_instruction ::
  "sdk \<Rightarrow> moonit_market \<Rightarrow> swap_accounts \<Rightarrow> u64 \<Rightarrow> u64 \<Rightarrow> instruction direct_result" where
  "moonit_swap_instruction sdk m acc amount_in min_out =
     (let c = mm_curve m in
      rbind (swap_direction (ca_pool c) (ca_mint c) (wsol_mint sdk) acc) (\<lambda>input_is_base.
      let sender_token_account =
            (if input_is_base then sa_input_token_account acc else sa_output_token_account acc);
          (disc, token_amount, collateral_amount) =
            (if input_is_base then (MOONIT_SELL, amount_in, min_out) else (MOONIT_BUY, min_out, amount_in))
      in Inr \<lparr>ix_program = moonit_program_id sdk,
              ix_accounts =
                [meta_new (sa_owner acc) True,
                 meta_new sender_token_account False,
                 meta_new (ca_pool c) False,
                 meta_new (mm_curve_token_account m) False,
                 meta_new (mm_dex_fee m) False,
                 meta_new (mm_helio_fee m) False,
                 meta_readonly (ca_mint c) False,
                 meta_readonly (config_account_address sdk) False,
                 meta_readonly (mm_token_program m) False,
                 meta_readonly (associated_token_program_id sdk) False,
                 meta_readonly (system_program_id sdk) False],
              ix_data = disc @ to_le_bytes_u64 token_amount @ to_le_bytes_u64 collateral_amount
                @ FIXED_SIDE_IN # to_le_bytes_u64 0\<rparr>))"

definition moonit_pool_market :: "sdk \<Rightarrow> moonit_market \<Rightarrow> pool_market" where
  "moonit_pool_market sdk m = (let c = mm_curve m in
     \<lparr>pm_program = Moonit, pm_pool = ca_pool c, pm_mints = (ca_mint c, wsol_mint sdk),
      pm_token_program = (\<lambda>mint. map_option (\<lambda>base. if base then mm_token_program m else spl_token_id sdk)
                                 (moonit_is_base sdk m mint)),
      pm_decimals = (\<lambda>mint. map_option (\<lambda>base. if base then mm_mint_decimals m else 9)
                            (moonit_is_base sdk m mint)),
      pm_quote = moonit_quote sdk m, pm_swap_instruction = moonit_swap_instruction sdk m,
      pm_compute_units = MOONIT_COMPUTE_UNITS, pm_settles_native_sol = True\<rparr>)"

section \<open>The curve on natural numbers\<close>

definition moonit_k :: nat where
  "moonit_k = unat INITIAL_VIRTUAL_TOKEN_RESERVES * unat INITIAL_VIRTUAL_COLLATERAL_RESERVES"

lemma unat_moonit_k [unat_simps]:
  "unat (INITIAL_VIRTUAL_TOKEN_RESERVES * INITIAL_VIRTUAL_COLLATERAL_RESERVES) = moonit_k"
  by (simp add: moonit_k_def INITIAL_VIRTUAL_TOKEN_RESERVES_def INITIAL_VIRTUAL_COLLATERAL_RESERVES_def)

lemma unat_initial_tokens: "unat INITIAL_VIRTUAL_TOKEN_RESERVES = 1073000000000000000"
  by (simp add: INITIAL_VIRTUAL_TOKEN_RESERVES_def)

lemma current_reserves_Some:
  "current_reserves p = Some (vtr, vcr) \<longleftrightarrow>
     unat p < unat INITIAL_VIRTUAL_TOKEN_RESERVES
     \<and> unat vtr = unat INITIAL_VIRTUAL_TOKEN_RESERVES - unat p \<and> unat vcr = moonit_k div unat vtr"
proof -
  have "current_reserves p = Some (vtr, vcr) \<longleftrightarrow>
      p < INITIAL_VIRTUAL_TOKEN_RESERVES \<and> vtr = INITIAL_VIRTUAL_TOKEN_RESERVES - p
      \<and> vcr = INITIAL_VIRTUAL_TOKEN_RESERVES * INITIAL_VIRTUAL_COLLATERAL_RESERVES div vtr"
    by (auto simp: current_reserves_def res_simps split: if_splits)
  also have "\<dots> \<longleftrightarrow> unat p < unat INITIAL_VIRTUAL_TOKEN_RESERVES
     \<and> unat vtr = unat INITIAL_VIRTUAL_TOKEN_RESERVES - unat p \<and> unat vcr = moonit_k div unat vtr"
    by (auto simp: word_unat_eq_iff word_less_nat_alt word_le_nat_alt unat_sub_exact unat_div
        unat_moonit_k)
  finally show ?thesis .
qed

lemma buy_in_collateral_Some:
  assumes "buy_in_collateral net p = Some out"
  obtains vtr vcr where "current_reserves p = Some (vtr, vcr)"
    and "0 < unat vcr + unat net" and "moonit_k div (unat vcr + unat net) \<le> unat vtr"
    and "unat out = unat vtr - moonit_k div (unat vcr + unat net)"
  using assms
  by (auto simp: buy_in_collateral_def res_simps unat_add_exact unat_div unat_moonit_k word_le_nat_alt
      unat_sub_exact unat_eq_0 [symmetric] intro: that split: if_splits)

lemma sell_in_token_Some:
  assumes "sell_in_token amount p = Some out"
  obtains vtr vcr where "current_reserves p = Some (vtr, vcr)"
    and "moonit_k div (unat vtr + unat amount) \<le> unat vcr"
    and "unat out = unat vcr - moonit_k div (unat vtr + unat amount)"
  using assms
  by (auto simp: sell_in_token_def res_simps unat_add_exact unat_div unat_moonit_k word_le_nat_alt
      unat_sub_exact intro: that split: if_splits)

lemma unat_fee_on_gross [unat_simps]:
  "unat (fee_on_gross gross bps) = min (unat gross * unat bps div 10000) (unat gross)"
proof -
  have "unat (fee_on_gross gross bps) = min (unat gross * unat bps div 10000) (unat gross) mod 2 ^ 64"
    by (simp add: fee_on_gross_def unat_narrow unat_div unat_mul_u64_u16 MOONIT_BPS_def)
  then show ?thesis using unat_u64_lt [of gross] by simp
qed

lemma fee_on_gross_le: "fee_on_gross gross bps \<le> gross"
  by (simp add: word_le_nat_alt unat_fee_on_gross)

lemma try_u64_Some [res_simps]: "try_u64 x = Some y \<longleftrightarrow> unat y = unat x"
  using unat_u64_lt [of y] by (auto simp: try_u64_def unat_narrow word_unat_eq_iff)

lemma try_u64_widen [simp]: "try_u64 (ucast (a :: u64)) = Some a"
  by (simp add: try_u64_Some)

lemma saturating_widen:
  "unat (saturating_sub (ucast (a :: u64) :: u128) (ucast (b :: u64))) = unat a - unat b"
  by simp

section \<open>The venue keeps its contract\<close>

lemma moonit_fill_fee:
  assumes "moonit_fill m side amount = Inr (out, fee, ri, ro)"
  shows "fee \<le> amount"
  using assms
  by (cases side)
    (auto simp: moonit_fill_def Let_def res_simps fee_on_gross_le fee_in_input_units_le split: prod.splits)

lemma moonit_quote_Inr:
  assumes "moonit_quote sdk m mint amount = Inr q"
  obtains side ri ro where "moonit_is_base sdk m mint = Some side" and "amount \<noteq> 0"
    and "moonit_fill m side amount = Inr (vq_expected_out q, vq_lp_fee q, ri, ro)"
    and "vq_amount_in q = amount" and "vq_expected_out q \<noteq> 0"
  using assms
  by (auto simp: moonit_quote_def Let_def res_simps intro: that split: prod.splits if_splits)

lemma moonit_quote_errs: "errs (\<lambda>e. \<not> submitted e) (moonit_quote sdk m mint amount)"
  unfolding moonit_quote_def moonit_fill_def moonit_math_error_def Let_def
  by (intro errs_intros) simp_all

lemma moonit_ix:
  assumes "moonit_swap_instruction sdk m acc amount min_out = Inr ix"
  obtains side where "swap_direction (ca_pool (mm_curve m)) (ca_mint (mm_curve m)) (wsol_mint sdk) acc = Inr side"
    and "ix_program ix = moonit_program_id sdk"
    and "\<And>me. me \<in> set (ix_accounts ix) \<Longrightarrow> meta_signer me \<Longrightarrow> meta_key me = sa_owner acc"
proof -
  from assms obtain side where
    side: "swap_direction (ca_pool (mm_curve m)) (ca_mint (mm_curve m)) (wsol_mint sdk) acc = Inr side"
    by (auto simp: moonit_swap_instruction_def Let_def rbind_Inr_iff)
  show thesis
    by (rule that [OF side])
      (use assms side in \<open>auto simp: moonit_swap_instruction_def Let_def meta_new_def meta_readonly_def
        split: if_splits\<close>)
qed

lemma moonit_ix_errs: "errs (\<lambda>e. \<not> submitted e) (moonit_swap_instruction sdk m acc amount min_out)"
  unfolding moonit_swap_instruction_def Let_def by (intro errs_intros) simp_all

lemma moonit_market_simps [simp]:
  "pm_mints (moonit_pool_market sdk m) = (ca_mint (mm_curve m), wsol_mint sdk)"
  "pm_quote (moonit_pool_market sdk m) = moonit_quote sdk m"
  "pm_swap_instruction (moonit_pool_market sdk m) = moonit_swap_instruction sdk m"
  "pm_token_program (moonit_pool_market sdk m) mint
     = map_option (\<lambda>base. if base then mm_token_program m else spl_token_id sdk) (moonit_is_base sdk m mint)"
  by (simp_all add: moonit_pool_market_def Let_def)

interpretation moonit: fee_bounded_market "moonit_pool_market sdk" "\<lambda>_. moonit_program_id sdk" "\<lambda>_. True" for sdk
proof (unfold_locales, goal_cases)
  case (1 s mint amount q)
  then show ?case by (auto elim: moonit_quote_Inr)
next
  case (2 s mint amount q)
  then show ?case by (auto simp: moonit_is_base_def side_of_Some elim!: moonit_quote_Inr split: if_splits)
next
  case (9 s mint amount q)
  then show ?case by (auto elim!: moonit_quote_Inr dest: moonit_fill_fee)
next
  case (3 s mint amount e)
  then show ?case using errsD [OF moonit_quote_errs] by simp
next
  case (4 s acc amount min_out ix)
  then show ?case by (auto simp: trades_def elim!: moonit_ix dest!: swap_direction_Inr)
next
  case (5 s acc amount min_out ix)
  then show ?case by (auto elim: moonit_ix)
next
  case (6 s acc amount min_out ix m)
  then show ?case by (auto elim: moonit_ix)
next
  case (7 s acc amount min_out e)
  then show ?case using errsD [OF moonit_ix_errs] by simp
next
  case (8 s mint)
  then show ?case by (simp add: moonit_is_base_def)
qed

section \<open>A round trip\<close>

text \<open>The position after a purchase, and what a fee leaves of an amount.\<close>

definition moonit_after_buy :: "moonit_market \<Rightarrow> u64 \<Rightarrow> moonit_market" where
  "moonit_after_buy m tokens = m\<lparr>mm_curve := (mm_curve m)\<lparr>ca_curve_amount := ca_curve_amount (mm_curve m) - tokens\<rparr>\<rparr>"

definition moonit_net :: "moonit_market \<Rightarrow> u64 \<Rightarrow> u64" where
  "moonit_net m amount = saturating_sub amount (fee_on_gross amount (mm_fee_bps m))"

lemma moonit_net_le: "moonit_net m a \<le> a"
  unfolding moonit_net_def by (rule saturating_sub_le)

lemma position_after_buy:
  assumes "tokens \<le> ca_curve_amount (mm_curve m)" and "ca_curve_amount (mm_curve m) \<le> ca_total_supply (mm_curve m)"
  shows "unat (curve_position (mm_curve (moonit_after_buy m tokens)))
    = unat (curve_position (mm_curve m)) + unat tokens"
  using assms unat_sub_exact [OF assms(1)]
  by (simp add: curve_position_def moonit_after_buy_def word_le_nat_alt)

text \<open>Below the square root of the constant product, dividing it twice gives the divisor back.\<close>

lemma div_div_small:
  fixes K x :: nat
  assumes "0 < x" and "x ^ 2 \<le> K"
  shows "K div (K div x) = x"
proof -
  let ?q = "K div x"
  have qx: "?q * x + K mod x = K" by simp
  have "x \<le> ?q" using assms by (simp add: less_eq_div_iff_mult_less_eq power2_eq_square)
  then have r: "K mod x < ?q" using assms(1) by (meson mod_less_divisor order_less_le_trans)
  show ?thesis
  proof (rule div_nat_eqI)
    show "?q * x \<le> K" using qx by linarith
    show "K < ?q * Suc x" using qx r by (simp only: mult_Suc_right)
  qed
qed

lemma moonit_sell_back:
  assumes "buy_in_collateral net p = Some out" and "current_reserves p = Some (vtr, vcr)"
    and "(unat vcr + unat net) ^ 2 \<le> moonit_k" and "unat p' = unat p + unat out"
  shows "\<exists>vtr' vcr'. current_reserves p' = Some (vtr', vcr') \<and> unat vcr' = unat vcr + unat net
     \<and> sell_in_token out p' = Some net"
proof -
  let ?x = "unat vcr + unat net"
  from assms(1,2) have x: "0 < ?x" "moonit_k div ?x \<le> unat vtr"
    "unat out = unat vtr - moonit_k div ?x"
    by (auto elim!: buy_in_collateral_Some)
  from assms(2) have v: "unat p < unat INITIAL_VIRTUAL_TOKEN_RESERVES"
    "unat vtr = unat INITIAL_VIRTUAL_TOKEN_RESERVES - unat p" "unat vcr = moonit_k div unat vtr"
    by (simp_all add: current_reserves_Some)
  have inv: "moonit_k div (moonit_k div ?x) = ?x" by (rule div_div_small [OF x(1) assms(3)])
  then have pos: "0 < moonit_k div ?x" using x(1) by (metis div_by_0 gr0I less_irrefl)
  have p': "unat p' < unat INITIAL_VIRTUAL_TOKEN_RESERVES"
    "unat INITIAL_VIRTUAL_TOKEN_RESERVES - unat p' = moonit_k div ?x"
    using v(1,2) x(2,3) pos assms(4) by linarith+
  let ?vtr' = "INITIAL_VIRTUAL_TOKEN_RESERVES - p'"
  let ?vcr' = "INITIAL_VIRTUAL_TOKEN_RESERVES * INITIAL_VIRTUAL_COLLATERAL_RESERVES div ?vtr'"
  have vt: "unat ?vtr' = moonit_k div ?x"
    using p' by (simp add: unat_sub_exact word_le_nat_alt)
  have vc: "unat ?vcr' = ?x" by (simp add: unat_div unat_moonit_k vt inv)
  have res: "current_reserves p' = Some (?vtr', ?vcr')"
    using p' by (simp add: current_reserves_Some vt vc inv)
  have sum: "unat ?vtr' + unat out = unat vtr" using x vt by simp
  have "sell_in_token out p' = checked_sub ?vcr'
     (INITIAL_VIRTUAL_TOKEN_RESERVES * INITIAL_VIRTUAL_COLLATERAL_RESERVES div (?vtr' + out))"
    using sum unat_u128_lt [of vtr] v(1,2)
    by (auto simp: sell_in_token_def res checked_add_def word_unat_eq_iff unat_add_exact)
  moreover have "unat (INITIAL_VIRTUAL_TOKEN_RESERVES * INITIAL_VIRTUAL_COLLATERAL_RESERVES div (?vtr' + out))
      = unat vcr"
    using sum unat_u128_lt [of vtr] v(3) by (simp add: unat_div unat_moonit_k unat_add_exact)
  ultimately have "sell_in_token out p' = Some net"
    by (auto simp: checked_sub_def word_le_nat_alt vc word_unat_eq_iff unat_sub_exact)
  with res vc show ?thesis by blast
qed

section \<open>A concrete curve\<close>

definition sample_moonit :: moonit_market where
  "sample_moonit = moonit_new sample_sdk
     \<lparr>ca_pool = Pubkey [3], ca_total_supply = 1000000000000000000, ca_curve_amount = 900000000000000000,
      ca_mint = Pubkey [2], ca_decimals = 9, ca_collateral_currency = 0, ca_curve_type = 1\<rparr>
     (Pubkey [6]) 9 (Pubkey [11]) (Pubkey [12]) 100"

section \<open>Properties\<close>

text \<open>C39: buying on a Moonit curve and selling straight back never profits. While the virtual
  collateral stays below the square root of the curve's constant product (some 179,000 SOL), selling
  the tokens of a purchase right after it fills, and pays exactly the amount paid less the fee taken
  twice: the two floored divisions of the curve cancel, so rounding leaks nothing either way.\<close>

theorem moonit_round_trip:
  assumes "moonit_quote sdk m (wsol_mint sdk) paid = Inr q"
    and "ca_mint (mm_curve m) \<noteq> wsol_mint sdk"
    and "vq_expected_out q \<le> ca_curve_amount (mm_curve m)"
    and "ca_curve_amount (mm_curve m) \<le> ca_total_supply (mm_curve m)"
    and "current_reserves (curve_position (mm_curve m)) = Some (vtr, vcr)"
    and "(unat vcr + unat paid) ^ 2 \<le> moonit_k"
  shows "(\<exists>fee ri ro. moonit_fill (moonit_after_buy m (vq_expected_out q)) True (vq_expected_out q)
             = Inr (moonit_net m (moonit_net m paid), fee, ri, ro))
     \<and> moonit_net m (moonit_net m paid) \<le> paid
     \<and> (\<forall>q'. moonit_quote sdk (moonit_after_buy m (vq_expected_out q)) (ca_mint (mm_curve m))
               (vq_expected_out q) = Inr q' \<longrightarrow> vq_expected_out q' = moonit_net m (moonit_net m paid))"
proof -
  let ?out = "vq_expected_out q" and ?p = "curve_position (mm_curve m)"
  let ?m' = "moonit_after_buy m ?out"
  from assms(1) obtain side ri ro where
    side: "moonit_is_base sdk m (wsol_mint sdk) = Some side"
    and fill: "moonit_fill m side paid = Inr (?out, vq_lp_fee q, ri, ro)"
    by (auto elim: moonit_quote_Inr)
  have "side = False" using side assms(2) by (simp add: moonit_is_base_def side_of_def)
  with fill have buy: "buy_in_collateral (ucast (moonit_net m paid)) ?p = Some (ucast ?out)"
    by (auto simp: moonit_fill_def Let_def res_simps word_unat_eq_iff moonit_net_def)
  have "unat (moonit_net m paid) \<le> unat paid" using moonit_net_le by (simp add: word_le_nat_alt)
  then have "(unat vcr + unat (moonit_net m paid)) ^ 2 \<le> moonit_k"
    using assms(6) by (meson add_le_mono order_refl order_trans power_mono zero_le)
  then obtain vtr' vcr' where
    "current_reserves (curve_position (mm_curve ?m')) = Some (vtr', vcr')"
    and "sell_in_token (ucast ?out) (curve_position (mm_curve ?m')) = Some (ucast (moonit_net m paid))"
    using moonit_sell_back [OF buy assms(5), of "curve_position (mm_curve ?m')"]
      position_after_buy [OF assms(3,4)] by auto
  then have sell: "\<exists>fee ri ro. moonit_fill ?m' True ?out = Inr (moonit_net m (moonit_net m paid), fee, ri, ro)"
    by (auto simp: moonit_fill_def Let_def moonit_net_def moonit_after_buy_def)
  moreover have "moonit_net m (moonit_net m paid) \<le> paid"
    using moonit_net_le [of m "moonit_net m paid"] moonit_net_le [of m paid] by (rule order_trans)
  moreover have "vq_expected_out q' = moonit_net m (moonit_net m paid)"
    if "moonit_quote sdk ?m' (ca_mint (mm_curve m)) ?out = Inr q'" for q'
  proof -
    from that obtain s ri ro where "moonit_is_base sdk ?m' (ca_mint (mm_curve m)) = Some s"
      and "moonit_fill ?m' s ?out = Inr (vq_expected_out q', vq_lp_fee q', ri, ro)"
      by (auto elim: moonit_quote_Inr)
    with sell show ?thesis by (auto simp: moonit_is_base_def moonit_after_buy_def side_of_def)
  qed
  ultimately show ?thesis by blast
qed

theorem moonit_round_trip_witness:
  "\<exists>q. moonit_quote sample_sdk sample_moonit (wsol_mint sample_sdk) 1000000000 = Inr q
     \<and> (\<exists>fee ri ro. moonit_fill (moonit_after_buy sample_moonit (vq_expected_out q)) True (vq_expected_out q)
             = Inr (980100000, fee, ri, ro))"
proof -
  have wsol: "wsol_mint sample_sdk \<noteq> Pubkey [2]"
    by (simp add: wsol_mint_def sample_sdk_def SOL_MINT_def text_key_def)
  have pos: "curve_position (mm_curve sample_moonit) = 100000000000000000"
    by (simp add: curve_position_def sample_moonit_def moonit_new_def saturating_sub_def)
  have res: "current_reserves 100000000000000000 = Some (973000000000000000, 33083247687)"
    by (simp add: current_reserves_Some moonit_k_def INITIAL_VIRTUAL_TOKEN_RESERVES_def
        INITIAL_VIRTUAL_COLLATERAL_RESERVES_def)
  have fee: "fee_on_gross 1000000000 100 = 10000000" "fee_on_gross 990000000 100 = 9900000"
    by (simp_all add: word_unat_eq_iff unat_fee_on_gross)
  have bps: "mm_fee_bps sample_moonit = 100" "ca_mint (mm_curve sample_moonit) = Pubkey [2]"
    "ca_curve_amount (mm_curve sample_moonit) = 900000000000000000"
    "ca_total_supply (mm_curve sample_moonit) = 1000000000000000000"
    by (simp_all add: sample_moonit_def moonit_new_def)
  have net: "moonit_net sample_moonit 1000000000 = 990000000" "moonit_net sample_moonit 990000000 = 980100000"
    by (simp_all add: moonit_net_def bps fee saturating_sub_def)
  have buy: "buy_in_collateral 990000000 100000000000000000 = Some 28270566055213967"
    by (simp add: buy_in_collateral_def res checked_add_def checked_sub_def
        INITIAL_VIRTUAL_TOKEN_RESERVES_def INITIAL_VIRTUAL_COLLATERAL_RESERVES_def)
  obtain q where q: "moonit_quote sample_sdk sample_moonit (wsol_mint sample_sdk) 1000000000 = Inr q"
    and out: "vq_expected_out q = 28270566055213967"
    using wsol
    by (simp add: moonit_quote_def moonit_is_base_def bps side_of_def moonit_fill_def pos res fee buy
        saturating_sub_def try_u64_def Let_def)
  from moonit_round_trip [OF q, of 973000000000000000 33083247687] q wsol show ?thesis
    by (simp add: out bps pos res net moonit_k_def
        INITIAL_VIRTUAL_TOKEN_RESERVES_def INITIAL_VIRTUAL_COLLATERAL_RESERVES_def)
qed

end
