(* ===== verification/Pump_Fees.thy ===== *)
theory Pump_Fees
  imports Venue_Common "HOL-Library.While_Combinator"
begin

text \<open>
  What the two Pump.fun venues share: the fee rates and the market-cap table of
  \<^verbatim>\<open>venues/pumpfun_amm.rs\<close>, and the binary search both use to find how much of a spend
  reaches the curve once the fees charged on top of it are backed out.
\<close>

definition FEE_PROGRAM_ID :: string where
  "FEE_PROGRAM_ID = ''pfeeUxB6jkeY1Hxd7CsFCAjcbHA9rWtchMGdZ6VojVZ''"

definition PUMP_BPS :: u64 where "PUMP_BPS = 10000"

definition ascii :: "string \<Rightarrow> bytes" where
  "ascii s = map (of_nat \<circ> of_char) s"

section \<open>Rates\<close>

record pump_fees =
  lp_bps :: u64
  protocol_bps :: u64
  creator_bps :: u64

definition no_pump_fees :: pump_fees where
  "no_pump_fees = \<lparr>lp_bps = 0, protocol_bps = 0, creator_bps = 0\<rparr>"

definition total_bps :: "pump_fees \<Rightarrow> bool \<Rightarrow> u64" where
  "total_bps fees charge_creator =
     (let creator = (if charge_creator then creator_bps fees else 0)
      in saturating_add (saturating_add (lp_bps fees) (protocol_bps fees)) creator)"

text \<open>The table: thresholds in lamports with their rates, in the order of the account.\<close>

type_synonym fee_tier_table = "(u128 \<times> pump_fees) list"

fun read_tiers :: "bytes \<Rightarrow> nat \<Rightarrow> nat \<Rightarrow> fee_tier_table option" where
  "read_tiers data offset 0 = Some []"
| "read_tiers data offset (Suc count) = do {
     threshold \<leftarrow> u128_at data offset;
     lp \<leftarrow> u64_at data (offset + 16);
     protocol \<leftarrow> u64_at data (offset + 24);
     creator \<leftarrow> u64_at data (offset + 32);
     rest \<leftarrow> read_tiers data (offset + 40) count;
     Some ((threshold, \<lparr>lp_bps = lp, protocol_bps = protocol, creator_bps = creator\<rparr>) # rest)
   }"

definition fee_tiers_decode :: "bytes \<Rightarrow> fee_tier_table option" where
  "fee_tiers_decode data =
     (let offset = 8 + 1 + 32 + 24 in do {
      count \<leftarrow> u32_at data offset;
      if unat count > 1024 then None
      else do {
        tiers \<leftarrow> read_tiers data (offset + 4) (unat count);
        if tiers = [] then None else Some tiers
      }})"

fun choose_tier :: "u128 \<Rightarrow> pump_fees \<Rightarrow> fee_tier_table \<Rightarrow> pump_fees" where
  "choose_tier market_cap chosen [] = chosen"
| "choose_tier market_cap chosen ((threshold, fees) # rest) =
     (if threshold \<le> market_cap then choose_tier market_cap fees rest else chosen)"

definition fees_for :: "fee_tier_table \<Rightarrow> u128 \<Rightarrow> pump_fees" where
  "fees_for tiers market_cap = choose_tier market_cap (snd (hd tiers)) tiers"

definition most_expensive :: "fee_tier_table \<Rightarrow> pump_fees" where
  "most_expensive tiers = snd (hd tiers)"

text \<open>The fee on an amount: each component rounded up on its own, the sum capped at the amount.\<close>

definition component_fee :: "u64 \<Rightarrow> u64 \<Rightarrow> u128" where
  "component_fee amount bps =
     (if 0 < bps then div_ceil ((ucast amount :: u128) * ucast bps) (ucast PUMP_BPS) else 0)"

definition components_fee :: "pump_fees \<Rightarrow> bool \<Rightarrow> u64 \<Rightarrow> u64" where
  "components_fee fees charge_creator amount =
     (let total = component_fee amount (lp_bps fees) + component_fee amount (protocol_bps fees);
          total = (if charge_creator then total + component_fee amount (creator_bps fees) else total)
      in ucast (min total (ucast amount)))"

section \<open>Backing the fees out of a spend\<close>

text \<open>
  The search keeps the bounds as the code does, in wrapping 64-bit arithmetic. A loop that never
  ends is \<open>None\<close>: at \<^verbatim>\<open>u64::MAX\<close> the midpoint wraps to the lower bound and it does not.
\<close>

definition search_step :: "(u64 \<Rightarrow> u128) \<Rightarrow> u64 \<Rightarrow> u64 \<times> u64 \<Rightarrow> u64 \<times> u64" where
  "search_step cost spendable = (\<lambda>(low, high).
     let mid = low + (high - low + 1) div 2
     in if cost mid \<le> ucast spendable then (mid, high) else (low, mid - 1))"

definition largest_affordable :: "(u64 \<Rightarrow> u128) \<Rightarrow> u64 \<Rightarrow> u64 option" where
  "largest_affordable cost spendable =
     map_option fst (while_option (\<lambda>(low, high). low < high) (search_step cost spendable) (0, spendable))"

definition cost_of :: "pump_fees \<Rightarrow> bool \<Rightarrow> u64 \<Rightarrow> u128" where
  "cost_of fees charge_creator amount = ucast amount + ucast (components_fee fees charge_creator amount)"

section \<open>Lemmas on the fee\<close>

lemma unat_component_fee [unat_simps]: "unat (component_fee a r) = cdiv (unat a * unat r) 10000"
  by (auto simp: component_fee_def unat_div_ceil PUMP_BPS_def cdiv_def word_gt_0)

lemma component_fee_bound: "unat (component_fee a r) < 2 ^ 115"
proof -
  have "unat a * unat r < 2 ^ 64 * 2 ^ 64"
    using unat_u64_lt [of a] unat_u64_lt [of r] by (intro mult_strict_mono') simp_all
  then have "unat a * unat r div 10000 \<le> 2 ^ 128 div 10000" by (intro div_le_mono) simp
  then show ?thesis by (simp add: unat_component_fee cdiv_def)
qed

definition fee_total :: "pump_fees \<Rightarrow> bool \<Rightarrow> u64 \<Rightarrow> nat" where
  "fee_total fees creator a = cdiv (unat a * unat (lp_bps fees)) 10000
     + cdiv (unat a * unat (protocol_bps fees)) 10000
     + (if creator then cdiv (unat a * unat (creator_bps fees)) 10000 else 0)"

lemma unat_components_fee [unat_simps]:
  "unat (components_fee fees creator a) = min (fee_total fees creator a) (unat a)"
proof -
  let ?l = "component_fee a (lp_bps fees)" and ?p = "component_fee a (protocol_bps fees)"
    and ?c = "component_fee a (creator_bps fees)"
  have lp: "unat (?l + ?p) = unat ?l + unat ?p"
    using component_fee_bound [of a "lp_bps fees"] component_fee_bound [of a "protocol_bps fees"]
    by (intro unat_add_exact) simp
  then have lpc: "unat (?l + ?p + ?c) = unat ?l + unat ?p + unat ?c"
    using component_fee_bound [of a "lp_bps fees"] component_fee_bound [of a "protocol_bps fees"]
      component_fee_bound [of a "creator_bps fees"]
    by (subst unat_add_exact) simp_all
  have "unat (components_fee fees creator a) = min (fee_total fees creator a) (unat a) mod 2 ^ 64"
    by (simp add: components_fee_def Let_def unat_narrow lp lpc fee_total_def unat_component_fee)
  then show ?thesis using unat_u64_lt [of a] by simp
qed

lemma components_fee_le: "components_fee fees creator a \<le> a"
  by (simp add: word_le_nat_alt unat_components_fee)

lemma fee_total_mono: "a \<le> b \<Longrightarrow> fee_total fees creator a \<le> fee_total fees creator b"
  by (auto simp: fee_total_def word_le_nat_alt intro!: add_mono cdiv_mono mult_le_mono1)

lemma unat_cost_of [unat_simps]: "unat (cost_of fees creator a) = unat a + unat (components_fee fees creator a)"
  by (simp add: cost_of_def)

lemma cost_of_mono: "a \<le> b \<Longrightarrow> cost_of fees creator a \<le> cost_of fees creator b"
  using fee_total_mono [of a b fees creator] by (simp add: word_le_nat_alt unat_cost_of unat_components_fee)

section \<open>The search\<close>

definition search_inv :: "(u64 \<Rightarrow> u128) \<Rightarrow> u64 \<Rightarrow> u64 \<times> u64 \<Rightarrow> bool" where
  "search_inv cost spendable = (\<lambda>(low, high). low \<le> high \<and> high \<le> spendable
     \<and> cost low \<le> ucast spendable \<and> (\<forall>q. cost q \<le> ucast spendable \<longrightarrow> q \<le> high))"

lemma search_mid:
  fixes low high :: u64
  assumes "low < high" and "high \<noteq> - 1"
  shows "unat (low + (high - low + 1) div 2) = unat low + (unat high - unat low + 1) div 2"
proof -
  have lt: "unat low < unat high" "unat high < 2 ^ 64 - 1"
    using assms unat_u64_lt [of high] by (auto simp: word_less_nat_alt word_unat_eq_iff unat_all_ones)
  have "unat (high - low + 1) = unat high - unat low + 1"
    using lt assms(1) by (subst unat_add_exact) (simp_all add: unat_sub_exact less_imp_le)
  then have half: "unat ((high - low + 1) div 2) = (unat high - unat low + 1) div 2"
    by (simp add: unat_div)
  show ?thesis using lt by (subst unat_add_exact) (simp_all add: half)
qed

lemma search_step_inv:
  assumes inv: "search_inv cost spendable s" and "fst s < snd s" and "spendable \<noteq> - 1"
    and mono: "\<And>a b. a \<le> b \<Longrightarrow> cost a \<le> cost b"
  shows "search_inv cost spendable (search_step cost spendable s)
     \<and> (\<lambda>(low, high). unat high - unat low) (search_step cost spendable s)
         < (\<lambda>(low, high). unat high - unat low) s"
proof -
  obtain low high where s: "s = (low, high)" by force
  define mid where "mid = low + (high - low + 1) div 2"
  have lt: "low < high" "high \<le> spendable" "high \<noteq> - 1"
    using inv assms(2,3) by (auto simp: s search_inv_def word_order.extremum_unique)
  have mid: "unat mid = unat low + (unat high - unat low + 1) div 2"
    unfolding mid_def by (rule search_mid [OF lt(1,3)])
  have um: "unat low < unat mid" "unat mid \<le> unat high" using lt(1) by (auto simp: mid word_less_nat_alt)
  have pred: "unat (mid - 1) = unat mid - 1"
    using um by (subst unat_sub_exact) (auto simp: word_le_nat_alt)
  have "cost mid \<le> ucast spendable \<Longrightarrow> ?thesis"
    using inv um by (auto simp: s search_inv_def search_step_def Let_def word_le_nat_alt simp flip: mid_def)
  moreover have "?thesis" if no: "\<not> cost mid \<le> ucast spendable"
  proof -
    have "q \<le> mid - 1" if "cost q \<le> ucast spendable" for q
    proof -
      have "\<not> mid \<le> q" using no that mono by (meson order_trans)
      then show ?thesis by (simp add: word_le_nat_alt word_less_nat_alt pred not_le)
    qed
    then show ?thesis
      using inv um no by (auto simp: s search_inv_def search_step_def Let_def word_le_nat_alt pred simp flip: mid_def)
  qed
  ultimately show ?thesis by blast
qed

lemma largest_affordable_Some:
  fixes cost :: "u64 \<Rightarrow> u128"
  assumes "spendable \<noteq> - 1" and mono: "\<And>a b. a \<le> b \<Longrightarrow> cost a \<le> cost b"
    and "cost 0 = 0" and "\<And>a. (ucast a :: u128) \<le> cost a"
  shows "\<exists>q. largest_affordable cost spendable = Some q \<and> cost q \<le> ucast spendable
     \<and> (\<forall>q'. cost q' \<le> ucast spendable \<longrightarrow> q' \<le> q)"
proof -
  let ?b = "\<lambda>(low, high). low < (high :: u64)" and ?c = "search_step cost spendable"
  have "q \<le> spendable" if "cost q \<le> ucast spendable" for q
  proof -
    have "(ucast q :: u128) \<le> ucast spendable" using that assms(4) by (rule order_trans [rotated])
    then show ?thesis by (simp add: word_le_nat_alt)
  qed
  then have init: "search_inv cost spendable (0, spendable)"
    using assms(3) by (simp add: search_inv_def)
  have step: "search_inv cost spendable s \<Longrightarrow> ?b s \<Longrightarrow> search_inv cost spendable (?c s)
      \<and> (\<lambda>(low, high). unat high - unat low) (?c s) < (\<lambda>(low, high). unat high - unat low) s" for s
    using search_step_inv [of cost spendable s, OF _ _ assms(1) mono] by (auto simp: case_prod_unfold)
  obtain t where t: "while_option ?b ?c (0, spendable) = Some t"
    using measure_while_option_Some [of "search_inv cost spendable" ?b ?c
        "\<lambda>(low, high). unat high - unat low", OF step init] by blast
  have "search_inv cost spendable t"
    by (rule while_option_rule [where P = "search_inv cost spendable", OF _ t init]) (use step in blast)
  moreover have "\<not> ?b t" by (rule while_option_stop [OF t])
  ultimately show ?thesis using t
    by (cases t) (auto simp: largest_affordable_def search_inv_def)
qed

lemma largest_affordable_max:
  assumes "cost 0 = (0 :: u128)"
  shows "largest_affordable cost (- 1) = None"
proof (rule ccontr)
  let ?b = "\<lambda>(low, high). low < (high :: u64)"
  assume "largest_affordable cost (- 1) \<noteq> None"
  then obtain t where t: "while_option ?b (search_step cost (- 1)) (0, - 1) = Some t"
    by (auto simp: largest_affordable_def)
  have "t = (0, - 1)"
    by (rule while_option_rule [where P = "\<lambda>s. s = (0, - 1)", OF _ t]) (simp_all add: search_step_def assms)
  with while_option_stop [OF t] show False by (simp add: word_less_nat_alt unat_all_ones)
qed

end
