(* ===== verification/Pumpfun_Amm.thy ===== *)
theory Pumpfun_Amm
  imports Pump_Fees
begin

text \<open>
  \<^verbatim>\<open>venues/pumpfun_amm.rs\<close>: the pump-swap pools. Fees are charged on the quote leg in three
  components; a purchase backs them out of the spend by a binary search, and the trailing
  accounts of an instruction depend on whether the pool has a coin creator. The search does not
  return on a spend of \<^verbatim>\<open>u64::MAX\<close>, so a quote is optional here: \<open>None\<close> never returns.
\<close>

definition BUY_EXACT_QUOTE_IN :: bytes where
  "BUY_EXACT_QUOTE_IN = [0xc6, 0x2e, 0x15, 0x52, 0xb4, 0xd9, 0xe8, 0x70]"

definition PUMP_AMM_SELL :: bytes where
  "PUMP_AMM_SELL = [0x33, 0xe6, 0x85, 0xa4, 0x01, 0x7f, 0x83, 0xad]"

definition GLOBAL_CONFIG_SEED :: bytes where "GLOBAL_CONFIG_SEED = ascii ''global_config''"
definition EVENT_AUTHORITY_SEED :: bytes where "EVENT_AUTHORITY_SEED = ascii ''__event_authority''"
definition GLOBAL_VOLUME_SEED :: bytes where "GLOBAL_VOLUME_SEED = ascii ''global_volume_accumulator''"
definition USER_VOLUME_SEED :: bytes where "USER_VOLUME_SEED = ascii ''user_volume_accumulator''"
definition CREATOR_VAULT_SEED :: bytes where "CREATOR_VAULT_SEED = ascii ''creator_vault''"
definition POOL_V2_SEED :: bytes where "POOL_V2_SEED = ascii ''pool-v2''"
definition FEE_CONFIG_SEED :: bytes where "FEE_CONFIG_SEED = ascii ''fee_config''"
definition PUMP_AMM_COMPUTE_UNITS :: u32 where "PUMP_AMM_COMPUTE_UNITS = 160000"

definition pump_amm_program_id :: "sdk \<Rightarrow> pubkey" where
  "pump_amm_program_id sdk = from_str sdk PUMP_FUN_AMM_PROGRAM_ID"

definition fee_program_id :: "sdk \<Rightarrow> pubkey" where
  "fee_program_id sdk = from_str sdk FEE_PROGRAM_ID"

definition pump_system_program_id :: "sdk \<Rightarrow> pubkey" where
  "pump_system_program_id sdk = from_str sdk SYSTEM_PROGRAM_ID"

definition pump_ata_program_id :: "sdk \<Rightarrow> pubkey" where
  "pump_ata_program_id sdk = from_str sdk ASSOCIATED_TOKEN_PROGRAM_ID"

definition global_config_address :: "sdk \<Rightarrow> pubkey" where
  "global_config_address sdk = find_program_address sdk [GLOBAL_CONFIG_SEED] (pump_amm_program_id sdk)"

definition event_authority_address :: "sdk \<Rightarrow> pubkey" where
  "event_authority_address sdk = find_program_address sdk [EVENT_AUTHORITY_SEED] (pump_amm_program_id sdk)"

definition global_volume_address :: "sdk \<Rightarrow> pubkey" where
  "global_volume_address sdk = find_program_address sdk [GLOBAL_VOLUME_SEED] (pump_amm_program_id sdk)"

definition user_volume_address :: "sdk \<Rightarrow> pubkey \<Rightarrow> pubkey" where
  "user_volume_address sdk user =
     find_program_address sdk [USER_VOLUME_SEED, key_bytes user] (pump_amm_program_id sdk)"

definition fee_config_address :: "sdk \<Rightarrow> pubkey" where
  "fee_config_address sdk =
     find_program_address sdk [FEE_CONFIG_SEED, key_bytes (pump_amm_program_id sdk)] (fee_program_id sdk)"

section \<open>Accounts\<close>

record pump_global_config =
  gc_lp_fee_bps :: u64
  gc_protocol_fee_bps :: u64
  gc_creator_fee_bps :: u64
  gc_disable_flags :: u8
  gc_fee_recipients :: "pubkey list"
  gc_buyback_fee_recipients :: "pubkey list"

fun read_keys :: "bytes \<Rightarrow> nat \<Rightarrow> nat \<Rightarrow> pubkey list option" where
  "read_keys data offset 0 = Some []"
| "read_keys data offset (Suc n) = do {
     key \<leftarrow> pubkey_at data offset;
     rest \<leftarrow> read_keys data (offset + 32) n;
     Some (key # rest)
   }"

definition global_config_decode :: "bytes \<Rightarrow> pump_global_config option" where
  "global_config_decode data = do {
     fee_recipients \<leftarrow> read_keys data 57 8;
     buyback_fee_recipients \<leftarrow> read_keys data 643 8;
     lp_fee_bps \<leftarrow> u64_at data 40;
     protocol_fee_bps \<leftarrow> u64_at data 48;
     creator_fee_bps \<leftarrow> u64_at data 313;
     disable_flags \<leftarrow> u8_at data 56;
     Some \<lparr>gc_lp_fee_bps = lp_fee_bps, gc_protocol_fee_bps = protocol_fee_bps,
       gc_creator_fee_bps = creator_fee_bps, gc_disable_flags = disable_flags,
       gc_fee_recipients = fee_recipients, gc_buyback_fee_recipients = buyback_fee_recipients\<rparr>
   }"

definition swaps_disabled :: "pump_global_config \<Rightarrow> bool" where
  "swaps_disabled g \<longleftrightarrow> gc_disable_flags g \<noteq> 0"

definition first_set_key :: "pubkey list \<Rightarrow> pubkey option" where
  "first_set_key keys = find (\<lambda>key. key \<noteq> default_pubkey) keys"

definition first_fee_recipient :: "pump_global_config \<Rightarrow> pubkey option" where
  "first_fee_recipient g = first_set_key (gc_fee_recipients g)"

definition first_buyback_recipient :: "pump_global_config \<Rightarrow> pubkey option" where
  "first_buyback_recipient g = first_set_key (gc_buyback_fee_recipients g)"

definition flat_fees :: "pump_global_config \<Rightarrow> pump_fees" where
  "flat_fees g = \<lparr>lp_bps = gc_lp_fee_bps g, protocol_bps = gc_protocol_fee_bps g,
     creator_bps = gc_creator_fee_bps g\<rparr>"

record pump_amm_state =
  pa_pool :: pubkey
  pa_base_mint :: pubkey
  pa_quote_mint :: pubkey
  pa_base_token_account :: pubkey
  pa_quote_token_account :: pubkey
  pa_coin_creator :: pubkey
  pa_is_cashback_coin :: bool
  pa_virtual_quote_reserves :: u64

definition pump_amm_decode :: "pubkey \<Rightarrow> bytes \<Rightarrow> pump_amm_state option" where
  "pump_amm_decode pool data = do {
     base_mint \<leftarrow> pubkey_at data 43;
     quote_mint \<leftarrow> pubkey_at data 75;
     base_token_account \<leftarrow> pubkey_at data 139;
     quote_token_account \<leftarrow> pubkey_at data 171;
     coin_creator \<leftarrow> pubkey_at data 211;
     cashback \<leftarrow> u8_at data 244;
     virtual_quote_reserves \<leftarrow> u64_at data 245;
     Some \<lparr>pa_pool = pool, pa_base_mint = base_mint, pa_quote_mint = quote_mint,
       pa_base_token_account = base_token_account, pa_quote_token_account = quote_token_account,
       pa_coin_creator = coin_creator, pa_is_cashback_coin = (cashback \<noteq> 0),
       pa_virtual_quote_reserves = virtual_quote_reserves\<rparr>
   }"

definition mint_supply :: "bytes \<Rightarrow> u64 option" where
  "mint_supply data = u64_at data 36"

definition pump_mint_decimals :: "bytes \<Rightarrow> u8 option" where
  "pump_mint_decimals data = u8_at data 44"

record pump_amm_market =
  pw_state :: pump_amm_state
  pw_protocol_fee_recipient :: pubkey
  pw_buyback_fee_recipient :: pubkey
  pw_tiers :: "fee_tier_table option"
  pw_flat_fees :: pump_fees
  pw_base_token_program :: pubkey
  pw_quote_token_program :: pubkey
  pw_base_decimals :: u8
  pw_quote_decimals :: u8
  pw_base_supply :: u64
  pw_base_reserve :: u64
  pw_quote_reserve :: u64
  pw_transfer_fee_base :: "transfer_fee_schedule option"
  pw_transfer_fee_quote :: "transfer_fee_schedule option"

section \<open>Loading\<close>

definition pump_amm_load ::
  "sdk \<Rightarrow> account_reader \<Rightarrow> pubkey \<Rightarrow> account \<Rightarrow> pump_amm_market direct_result" where
  "pump_amm_load sdk read pool pool_account =
     rbind (ok_or (pump_amm_decode pool (acc_data pool_account))
              (PoolUndecodable pool (''pump-swap pool state did not match the expected layout (''
                 @ show_nat (length (acc_data pool_account)) @ '' bytes)''))) (\<lambda>state.
     if pa_is_cashback_coin state then
       Inl (PoolNotTradable pool
         ''a cashback pool expects an extra trailing account this venue does not build; route it through an aggregator instead'')
     else
       let addresses = [global_config_address sdk, fee_config_address sdk, pa_base_token_account state,
             pa_quote_token_account state, pa_base_mint state, pa_quote_mint state];
           required = fetched ''account does not exist'' addresses
       in rbind (map_err (\<lambda>e. AccountUnavailable pool (''pump-swap pool accounts could not be read: '' @ e))
                   (read addresses)) (\<lambda>accounts.
       rbind (required accounts 0) (\<lambda>global_account.
       rbind (ok_or (global_config_decode (acc_data global_account))
                (PoolUndecodable pool ''pump-swap GlobalConfig did not match the expected layout'')) (\<lambda>global.
       if swaps_disabled global then
         Inl (PoolNotTradable pool (''global disable_flags '' @ show_word (gc_disable_flags global)
                @ '' block swapping''))
       else
       rbind (ok_or (first_fee_recipient global)
                (PoolNotTradable pool ''pump-swap global config lists no protocol fee recipient''))
         (\<lambda>protocol_fee_recipient.
       let tiers = Option.bind (account_entry accounts 1) (\<lambda>acc. fee_tiers_decode (acc_data acc)) in
       rbind (required accounts 2) (\<lambda>base_account.
       rbind (ok_or (token_account_amount (acc_data base_account))
                (PoolUndecodable pool ''the pool's base token account is not a token account''))
         (\<lambda>base_reserve.
       rbind (required accounts 3) (\<lambda>quote_account.
       rbind (ok_or (token_account_amount (acc_data quote_account))
                (PoolUndecodable pool ''the pool's quote token account is not a token account''))
         (\<lambda>quote_reserve.
       rbind (required accounts 4) (\<lambda>base_mint_account.
       rbind (required accounts 5) (\<lambda>quote_mint_account.
       rbind (ok_or (mint_supply (acc_data base_mint_account))
                (PoolUndecodable pool ''the base mint is not a mint account'')) (\<lambda>base_supply.
       rbind (ok_or (first_buyback_recipient global)
                (PoolNotTradable pool ''pump-swap global config lists no buyback fee recipient''))
         (\<lambda>buyback_fee_recipient.
       rbind (ok_or (pump_mint_decimals (acc_data base_mint_account))
                (PoolUndecodable pool (''base mint '' @ show_pubkey sdk (addresses ! 4)
                   @ '' carries no readable decimals''))) (\<lambda>base_decimals.
       rbind (ok_or (pump_mint_decimals (acc_data quote_mint_account))
                (PoolUndecodable pool (''quote mint '' @ show_pubkey sdk (addresses ! 5)
                   @ '' carries no readable decimals''))) (\<lambda>quote_decimals.
       Inr \<lparr>pw_state = state, pw_protocol_fee_recipient = protocol_fee_recipient,
            pw_buyback_fee_recipient = buyback_fee_recipient, pw_tiers = tiers,
            pw_flat_fees = flat_fees global, pw_base_token_program = acc_owner base_mint_account,
            pw_quote_token_program = acc_owner quote_mint_account, pw_base_decimals = base_decimals,
            pw_quote_decimals = quote_decimals, pw_base_supply = base_supply,
            pw_base_reserve = base_reserve, pw_quote_reserve = quote_reserve,
            pw_transfer_fee_base = read_transfer_fee_schedule sdk base_mint_account,
            pw_transfer_fee_quote = read_transfer_fee_schedule sdk quote_mint_account\<rparr>)))))))))))))))"

section \<open>Fees\<close>

definition pump_amm_is_base :: "pump_amm_market \<Rightarrow> pubkey \<Rightarrow> bool option" where
  "pump_amm_is_base m mint = side_of (pa_base_mint (pw_state m)) (pa_quote_mint (pw_state m)) mint"

definition market_cap :: "pump_amm_market \<Rightarrow> u128 option" where
  "market_cap m =
     (if pw_base_reserve m = 0 \<or> pw_base_supply m = 0 then None
      else Some ((ucast (pw_base_supply m) :: u128) * ucast (pw_quote_reserve m) div ucast (pw_base_reserve m)))"

definition charges_creator_fee :: "pump_amm_market \<Rightarrow> bool" where
  "charges_creator_fee m \<longleftrightarrow> pa_coin_creator (pw_state m) \<noteq> default_pubkey"

definition pump_amm_fees :: "pump_amm_market \<Rightarrow> pump_fees" where
  "pump_amm_fees m =
     (if \<not> charges_creator_fee m then pw_flat_fees m
      else case (pw_tiers m, market_cap m) of
          (Some table, Some cap) \<Rightarrow> fees_for table cap
        | (Some table, None) \<Rightarrow> most_expensive table
        | (None, _) \<Rightarrow> pw_flat_fees m)"

definition total_fee_bps :: "pump_amm_market \<Rightarrow> u64" where
  "total_fee_bps m = total_bps (pump_amm_fees m) (charges_creator_fee m)"

definition quote_fee_on :: "pump_amm_market \<Rightarrow> u64 \<Rightarrow> u64" where
  "quote_fee_on m quote_amount = components_fee (pump_amm_fees m) (charges_creator_fee m) quote_amount"

definition spend_for :: "pump_amm_market \<Rightarrow> u64 \<Rightarrow> u128" where
  "spend_for m quote_amount = ucast quote_amount + ucast (quote_fee_on m quote_amount)"

definition swappable_from_spend :: "pump_amm_market \<Rightarrow> u64 \<Rightarrow> u64 option" where
  "swappable_from_spend m spendable =
     map_option (\<lambda>low. saturating_sub low 1) (largest_affordable (spend_for m) spendable)"

definition effective_quote_reserve :: "pump_amm_market \<Rightarrow> u64" where
  "effective_quote_reserve m =
     saturating_add (pw_quote_reserve m) (pa_virtual_quote_reserves (pw_state m))"

section \<open>The quote\<close>

text \<open>The output and the pool's fee in input units, by direction.\<close>

definition pump_amm_fill :: "pump_amm_market \<Rightarrow> bool \<Rightarrow> u64 \<Rightarrow> (u64 \<times> u64) option" where
  "pump_amm_fill m input_is_base amount_in =
     (if input_is_base then
        let received = net_of_fee (pw_transfer_fee_base m) amount_in;
            gross = min (constant_product_out (pw_base_reserve m) (effective_quote_reserve m) received)
                        (pw_quote_reserve m);
            fee = quote_fee_on m gross;
            net = saturating_sub gross fee;
            out = net_of_fee (pw_transfer_fee_quote m) net
        in Some (out, fee_in_input_units fee received gross)
      else
        let received = net_of_fee (pw_transfer_fee_quote m) amount_in in
        do {
          swapped \<leftarrow> swappable_from_spend m received;
          let fee = saturating_sub received swapped;
          let gross = constant_product_out (effective_quote_reserve m) (pw_base_reserve m) swapped;
          Some (net_of_fee (pw_transfer_fee_base m) gross, fee)
        })"

definition pump_amm_quote ::
  "pump_amm_market \<Rightarrow> pubkey \<Rightarrow> u64 \<Rightarrow> venue_quote direct_result option" where
  "pump_amm_quote m input_mint amount_in =
     (let pool = pa_pool (pw_state m) in
      case pump_amm_is_base m input_mint of
        None \<Rightarrow> Some (Inl (PairNotInPool pool input_mint default_pubkey))
      | Some input_is_base \<Rightarrow>
        if pw_base_reserve m = 0 \<or> pw_quote_reserve m = 0 then
          Some (Inl (InsufficientLiquidity pool amount_in ''a side of the pool is empty''))
        else map_option (\<lambda>(expected_out, lp_fee).
          if expected_out = 0 then
            Inl (InsufficientLiquidity pool amount_in ''the pool returns nothing at this size'')
          else if (if input_is_base then pw_quote_reserve m else pw_base_reserve m) \<le> expected_out then
            Inl (InsufficientLiquidity pool amount_in ''the output exceeds what the pool holds'')
          else
            let (reserve_in, reserve_out) =
                  (if input_is_base then (pw_base_reserve m, effective_quote_reserve m)
                   else (effective_quote_reserve m, pw_base_reserve m))
            in Inr \<lparr>vq_amount_in = amount_in, vq_expected_out = expected_out, vq_lp_fee = lp_fee,
                    vq_price_impact_pct = price_impact_pct reserve_in reserve_out amount_in expected_out\<rparr>)
          (pump_amm_fill m input_is_base amount_in))"

section \<open>The instruction\<close>

definition coin_creator_vault_authority :: "sdk \<Rightarrow> pump_amm_market \<Rightarrow> pubkey" where
  "coin_creator_vault_authority sdk m =
     find_program_address sdk [CREATOR_VAULT_SEED, key_bytes (pa_coin_creator (pw_state m))]
       (pump_amm_program_id sdk)"

definition coin_creator_vault_ata :: "sdk \<Rightarrow> pump_amm_market \<Rightarrow> pubkey" where
  "coin_creator_vault_ata sdk m =
     associated_token_address sdk (coin_creator_vault_authority sdk m) (pa_quote_mint (pw_state m))
       (pw_quote_token_program m)"

definition protocol_fee_recipient_token_account :: "sdk \<Rightarrow> pump_amm_market \<Rightarrow> pubkey" where
  "protocol_fee_recipient_token_account sdk m =
     associated_token_address sdk (pw_protocol_fee_recipient m) (pa_quote_mint (pw_state m))
       (pw_quote_token_program m)"

definition pool_v2 :: "sdk \<Rightarrow> pump_amm_market \<Rightarrow> pubkey" where
  "pool_v2 sdk m =
     find_program_address sdk [POOL_V2_SEED, key_bytes (pa_base_mint (pw_state m))] (pump_amm_program_id sdk)"

definition buyback_recipient_token_account :: "sdk \<Rightarrow> pump_amm_market \<Rightarrow> pubkey" where
  "buyback_recipient_token_account sdk m =
     associated_token_address sdk (pw_buyback_fee_recipient m) (pa_quote_mint (pw_state m))
       (pw_quote_token_program m)"

definition common_accounts :: "sdk \<Rightarrow> pump_amm_market \<Rightarrow> swap_accounts \<Rightarrow> bool \<Rightarrow> account_meta list" where
  "common_accounts sdk m acc input_is_base =
     (let s = pw_state m;
          (user_base, user_quote) =
            (if input_is_base then (sa_input_token_account acc, sa_output_token_account acc)
             else (sa_output_token_account acc, sa_input_token_account acc))
      in [meta_new (pa_pool s) False,
          meta_new (sa_owner acc) True,
          meta_readonly (global_config_address sdk) False,
          meta_readonly (pa_base_mint s) False,
          meta_readonly (pa_quote_mint s) False,
          meta_new user_base False,
          meta_new user_quote False,
          meta_new (pa_base_token_account s) False,
          meta_new (pa_quote_token_account s) False,
          meta_readonly (pw_protocol_fee_recipient m) False,
          meta_new (protocol_fee_recipient_token_account sdk m) False,
          meta_readonly (pw_base_token_program m) False,
          meta_readonly (pw_quote_token_program m) False,
          meta_readonly (pump_system_program_id sdk) False,
          meta_readonly (pump_ata_program_id sdk) False,
          meta_readonly (event_authority_address sdk) False,
          meta_readonly (pump_amm_program_id sdk) False,
          meta_new (coin_creator_vault_ata sdk m) False,
          meta_readonly (coin_creator_vault_authority sdk m) False])"

definition pump_amm_swap_instruction ::
  "sdk \<Rightarrow> pump_amm_market \<Rightarrow> swap_accounts \<Rightarrow> u64 \<Rightarrow> u64 \<Rightarrow> instruction direct_result" where
  "pump_amm_swap_instruction sdk m acc amount_in min_out =
     (let s = pw_state m in
      rbind (swap_direction (pa_pool s) (pa_base_mint s) (pa_quote_mint s) acc) (\<lambda>input_is_base.
      let amounts = to_le_bytes_u64 amount_in @ to_le_bytes_u64 min_out;
          (data, volume) =
            (if input_is_base then (PUMP_AMM_SELL @ amounts, [])
             else (BUY_EXACT_QUOTE_IN @ amounts @ [0],
                   [meta_readonly (global_volume_address sdk) False,
                    meta_new (user_volume_address sdk (sa_owner acc)) False]))
      in Inr \<lparr>ix_program = pump_amm_program_id sdk,
              ix_accounts = common_accounts sdk m acc input_is_base @ volume
                @ [meta_readonly (fee_config_address sdk) False, meta_readonly (fee_program_id sdk) False]
                @ (if charges_creator_fee m then [meta_new (pool_v2 sdk m) False] else [])
                @ [meta_new (pw_buyback_fee_recipient m) False,
                   meta_new (buyback_recipient_token_account sdk m) False],
              ix_data = data\<rparr>))"

text \<open>The engine's contract has no value for a quote that never returns; it stands here as a
  refusal, which no quote of the venue itself produces.\<close>

definition quote_returns :: "venue_quote direct_result option \<Rightarrow> venue_quote direct_result" where
  "quote_returns r = (case r of None \<Rightarrow> Inl (QuoteMath ''the quote does not return'') | Some q \<Rightarrow> q)"

definition pump_amm_pool_market :: "sdk \<Rightarrow> pump_amm_market \<Rightarrow> pool_market" where
  "pump_amm_pool_market sdk m = (let s = pw_state m in
     \<lparr>pm_program = PumpFunAmm, pm_pool = pa_pool s, pm_mints = (pa_base_mint s, pa_quote_mint s),
      pm_token_program = (\<lambda>mint. map_option (\<lambda>base. if base then pw_base_token_program m
                                   else pw_quote_token_program m) (pump_amm_is_base m mint)),
      pm_decimals = (\<lambda>mint. map_option (\<lambda>base. if base then pw_base_decimals m else pw_quote_decimals m)
                            (pump_amm_is_base m mint)),
      pm_quote = (\<lambda>mint amount. quote_returns (pump_amm_quote m mint amount)),
      pm_swap_instruction = pump_amm_swap_instruction sdk m,
      pm_compute_units = PUMP_AMM_COMPUTE_UNITS, pm_settles_native_sol = False\<rparr>)"

section \<open>The venue keeps its contract\<close>

lemma quote_fee_on_le: "quote_fee_on m a \<le> a"
  unfolding quote_fee_on_def by (rule components_fee_le)

lemma spend_for_cost: "spend_for m = cost_of (pump_amm_fees m) (charges_creator_fee m)"
  by (simp add: fun_eq_iff spend_for_def cost_of_def quote_fee_on_def)

lemma pump_amm_fill_fee:
  assumes "pump_amm_fill m side amount = Some (out, fee)"
  shows "fee \<le> amount"
proof (cases side)
  case True
  have "fee_in_input_units (quote_fee_on m g) (net_of_fee s amount) g \<le> amount" for g s
    using fee_in_input_units_le [OF quote_fee_on_le] net_of_fee_le by (rule order_trans)
  with True assms show ?thesis by (auto simp: pump_amm_fill_def Let_def)
next
  case False
  have "saturating_sub (net_of_fee s amount) x \<le> amount" for s x
    using saturating_sub_le net_of_fee_le by (rule order_trans)
  with False assms show ?thesis by (auto simp: pump_amm_fill_def Let_def res_simps)
qed

lemma pump_amm_quote_Inr:
  assumes "pump_amm_quote m mint amount = Some (Inr q)"
  obtains side where "pump_amm_is_base m mint = Some side"
    and "pump_amm_fill m side amount = Some (vq_expected_out q, vq_lp_fee q)"
    and "vq_amount_in q = amount" and "vq_expected_out q \<noteq> 0"
    and "vq_expected_out q < (if side then pw_quote_reserve m else pw_base_reserve m)"
  using assms
  by (auto simp: pump_amm_quote_def Let_def intro: that split: option.splits prod.splits if_splits)

lemma quote_returns_Inr: "quote_returns r = Inr q \<longleftrightarrow> r = Some (Inr q)"
  by (auto simp: quote_returns_def split: option.split)

lemma pump_amm_quote_errs: "errs (\<lambda>e. \<not> submitted e) (quote_returns (pump_amm_quote m mint amount))"
  by (auto simp: quote_returns_def pump_amm_quote_def Let_def split: option.splits prod.splits)

lemma pump_amm_ix:
  assumes "pump_amm_swap_instruction sdk m acc amount min_out = Inr ix"
  obtains side where "swap_direction (pa_pool (pw_state m)) (pa_base_mint (pw_state m))
         (pa_quote_mint (pw_state m)) acc = Inr side"
    and "ix_program ix = pump_amm_program_id sdk"
    and "\<And>me. me \<in> set (ix_accounts ix) \<Longrightarrow> meta_signer me \<Longrightarrow> meta_key me = sa_owner acc"
    and "map meta_key (drop 19 (ix_accounts ix)) =
       (if side then [] else [global_volume_address sdk, user_volume_address sdk (sa_owner acc)])
       @ [fee_config_address sdk, fee_program_id sdk]
       @ (if charges_creator_fee m then [pool_v2 sdk m] else [])
       @ [pw_buyback_fee_recipient m, buyback_recipient_token_account sdk m]"
    and "map meta_key (take 2 (drop 5 (ix_accounts ix))) =
       (if side then [sa_input_token_account acc, sa_output_token_account acc]
        else [sa_output_token_account acc, sa_input_token_account acc])"
    and "ix_data ix = (if side then PUMP_AMM_SELL else BUY_EXACT_QUOTE_IN) @ to_le_bytes_u64 amount
       @ to_le_bytes_u64 min_out @ (if side then [] else [0])"
proof -
  from assms obtain side where
    side: "swap_direction (pa_pool (pw_state m)) (pa_base_mint (pw_state m)) (pa_quote_mint (pw_state m)) acc
      = Inr side"
    by (auto simp: pump_amm_swap_instruction_def Let_def rbind_Inr_iff)
  show thesis
    by (rule that [OF side])
      (use assms side in \<open>auto simp: pump_amm_swap_instruction_def common_accounts_def Let_def meta_new_def
        meta_readonly_def eval_nat_numeral split: if_splits\<close>)
qed

lemma pump_amm_ix_errs: "errs (\<lambda>e. \<not> submitted e) (pump_amm_swap_instruction sdk m acc amount min_out)"
  unfolding pump_amm_swap_instruction_def Let_def
  by (intro errs_intros) (auto split: prod.splits)

lemma pump_amm_market_simps [simp]:
  "pm_mints (pump_amm_pool_market sdk m) = (pa_base_mint (pw_state m), pa_quote_mint (pw_state m))"
  "pm_quote (pump_amm_pool_market sdk m) mint amount = quote_returns (pump_amm_quote m mint amount)"
  "pm_swap_instruction (pump_amm_pool_market sdk m) = pump_amm_swap_instruction sdk m"
  "pm_token_program (pump_amm_pool_market sdk m) mint
     = map_option (\<lambda>base. if base then pw_base_token_program m else pw_quote_token_program m)
         (pump_amm_is_base m mint)"
  by (simp_all add: pump_amm_pool_market_def Let_def)

interpretation pump_amm: fee_bounded_market "pump_amm_pool_market sdk" "\<lambda>_. pump_amm_program_id sdk" "\<lambda>_. True"
  for sdk
proof (unfold_locales, goal_cases)
  case (1 s mint amount q)
  then show ?case by (auto simp: quote_returns_Inr elim: pump_amm_quote_Inr)
next
  case (2 s mint amount q)
  then show ?case
    by (auto simp: quote_returns_Inr pump_amm_is_base_def side_of_Some elim!: pump_amm_quote_Inr
        split: if_splits)
next
  case (9 s mint amount q)
  then show ?case by (auto simp: quote_returns_Inr elim!: pump_amm_quote_Inr dest: pump_amm_fill_fee)
next
  case (3 s mint amount e)
  then show ?case using errsD [OF pump_amm_quote_errs] by simp
next
  case (4 s acc amount min_out ix)
  then show ?case by (auto simp: trades_def elim!: pump_amm_ix dest!: swap_direction_Inr)
next
  case (5 s acc amount min_out ix)
  then show ?case by (auto elim: pump_amm_ix)
next
  case (6 s acc amount min_out ix m)
  then show ?case by (auto elim: pump_amm_ix)
next
  case (7 s acc amount min_out e)
  then show ?case using errsD [OF pump_amm_ix_errs] by simp
next
  case (8 s mint)
  then show ?case by (simp add: pump_amm_is_base_def)
qed

section \<open>A concrete pool\<close>

definition sample_pump_amm :: pump_amm_market where
  "sample_pump_amm = \<lparr>
     pw_state = \<lparr>pa_pool = Pubkey [3], pa_base_mint = Pubkey [1], pa_quote_mint = Pubkey [2],
       pa_base_token_account = Pubkey [11], pa_quote_token_account = Pubkey [12],
       pa_coin_creator = Pubkey [5], pa_is_cashback_coin = False, pa_virtual_quote_reserves = 0\<rparr>,
     pw_protocol_fee_recipient = Pubkey [13], pw_buyback_fee_recipient = Pubkey [14],
     pw_tiers = Some [(0, \<lparr>lp_bps = 2, protocol_bps = 93, creator_bps = 30\<rparr>)],
     pw_flat_fees = \<lparr>lp_bps = 20, protocol_bps = 5, creator_bps = 0\<rparr>,
     pw_base_token_program = Pubkey [6], pw_quote_token_program = Pubkey [6],
     pw_base_decimals = 6, pw_quote_decimals = 9, pw_base_supply = 1000000000000000,
     pw_base_reserve = 200000000000000, pw_quote_reserve = 85000000000,
     pw_transfer_fee_base = None, pw_transfer_fee_quote = None\<rparr>"

lemma sample_creator: "charges_creator_fee sample_pump_amm"
  by (simp add: charges_creator_fee_def sample_pump_amm_def default_pubkey_def numeral_eq_Suc)

section \<open>Properties\<close>

text \<open>C40: the search behind a pump-swap purchase returns on every spend but one, with one unit less than the
  largest amount whose three fees, each rounded up on its own, still fit the spend (nothing when that is
  nothing): the unit is the margin the venue keeps. On a spend of \<^verbatim>\<open>u64::MAX\<close> the midpoint wraps to the
  lower bound and the loop never ends.\<close>

theorem pump_spend_search:
  assumes "spendable \<noteq> - 1"
  shows "(\<exists>q best. swappable_from_spend m spendable = Some q \<and> unat q = unat best - 1
       \<and> spend_for m best \<le> ucast spendable \<and> (\<forall>q'. spend_for m q' \<le> ucast spendable \<longrightarrow> q' \<le> best))
     \<and> swappable_from_spend m (- 1) = None"
proof -
  let ?cost = "spend_for m"
  have mono: "?cost a \<le> ?cost b" if "a \<le> b" for a b
    unfolding spend_for_cost using that by (rule cost_of_mono)
  have zero: "?cost 0 = 0" and ge: "(ucast a :: u128) \<le> ?cost a" for a
    by (simp_all add: spend_for_cost word_unat_eq_iff word_le_nat_alt unat_cost_of unat_components_fee)
  obtain low where low: "largest_affordable ?cost spendable = Some low" "?cost low \<le> ucast spendable"
    and largest: "\<And>q'. ?cost q' \<le> ucast spendable \<Longrightarrow> q' \<le> low"
    using largest_affordable_Some [OF assms mono zero ge] by blast
  have "swappable_from_spend m spendable = Some (saturating_sub low 1)" "unat (saturating_sub low 1) = unat low - 1"
    using low(1) by (simp_all add: swappable_from_spend_def)
  moreover have "swappable_from_spend m (- 1) = None"
    using largest_affordable_max [of ?cost, OF zero] by (simp add: swappable_from_spend_def)
  ultimately show ?thesis using low(2) largest by blast
qed

theorem pump_spend_search_witness:
  "\<exists>q best. swappable_from_spend sample_pump_amm 597000000 = Some q \<and> unat q = unat best - 1
     \<and> spend_for sample_pump_amm best \<le> 597000000 \<and> 589629629 \<le> best"
proof -
  let ?m = sample_pump_amm
  obtain q best where q: "swappable_from_spend ?m 597000000 = Some q" "unat q = unat best - 1" "spend_for ?m best \<le> 597000000"
    and largest: "\<And>q'. spend_for ?m q' \<le> 597000000 \<Longrightarrow> q' \<le> best"
    using pump_spend_search [of 597000000 ?m] by auto
  have fees: "pump_amm_fees ?m = \<lparr>lp_bps = 2, protocol_bps = 93, creator_bps = 30\<rparr>"
    using sample_creator
    by (simp add: pump_amm_fees_def market_cap_def fees_for_def sample_pump_amm_def)
  have "spend_for ?m 589629629 \<le> 597000000"
    by (simp add: spend_for_cost word_le_nat_alt unat_cost_of unat_components_fee fee_total_def fees
        sample_creator cdiv_def)
  from q largest [OF this] show ?thesis by blast
qed

text \<open>The trailing accounts of a pump-swap instruction are positional and conditional. After the
  nineteen named accounts come the two volume accumulators on a purchase only, the fee table and its
  programme, the second pool account exactly when the pool has a coin creator, and the buyback pair;
  the wallet is the only signer, and the data carries the venue's discriminator and both amounts.\<close>

theorem pump_amm_instruction_shape:
  assumes "pump_amm_swap_instruction sdk m acc amount min_out = Inr ix"
    and "pa_base_mint (pw_state m) \<noteq> pa_quote_mint (pw_state m)"
    and "sell = (sa_input_mint acc = pa_base_mint (pw_state m))"
  shows "map meta_key (drop 19 (ix_accounts ix)) =
       (if sell then [] else [global_volume_address sdk, user_volume_address sdk (sa_owner acc)])
       @ [fee_config_address sdk, fee_program_id sdk]
       @ (if pa_coin_creator (pw_state m) = default_pubkey then [] else [pool_v2 sdk m])
       @ [pw_buyback_fee_recipient m, buyback_recipient_token_account sdk m]
     \<and> map meta_key (take 2 (drop 5 (ix_accounts ix))) =
       (if sell then [sa_input_token_account acc, sa_output_token_account acc]
        else [sa_output_token_account acc, sa_input_token_account acc])
     \<and> take 8 (ix_data ix) = (if sell then PUMP_AMM_SELL else BUY_EXACT_QUOTE_IN)
     \<and> u64_at (ix_data ix) 8 = Some amount \<and> u64_at (ix_data ix) 16 = Some min_out"
proof -
  from assms(1) obtain side where
    side: "swap_direction (pa_pool (pw_state m)) (pa_base_mint (pw_state m)) (pa_quote_mint (pw_state m)) acc
      = Inr side"
    and tail: "map meta_key (drop 19 (ix_accounts ix)) =
       (if side then [] else [global_volume_address sdk, user_volume_address sdk (sa_owner acc)])
       @ [fee_config_address sdk, fee_program_id sdk]
       @ (if charges_creator_fee m then [pool_v2 sdk m] else [])
       @ [pw_buyback_fee_recipient m, buyback_recipient_token_account sdk m]"
    and user: "map meta_key (take 2 (drop 5 (ix_accounts ix))) =
       (if side then [sa_input_token_account acc, sa_output_token_account acc]
        else [sa_output_token_account acc, sa_input_token_account acc])"
    and data: "ix_data ix = (if side then PUMP_AMM_SELL else BUY_EXACT_QUOTE_IN) @ to_le_bytes_u64 amount
       @ to_le_bytes_u64 min_out @ (if side then [] else [0])"
    by (rule pump_amm_ix)
  have sell: "side = sell"
    using side assms(2,3) by (auto simp: swap_direction_iff split: if_splits)
  let ?tag = "if side then PUMP_AMM_SELL else BUY_EXACT_QUOTE_IN"
  have tag: "length ?tag = 8" by (simp add: PUMP_AMM_SELL_def BUY_EXACT_QUOTE_IN_def)
  have "u64_at (ix_data ix) 8 = Some amount" "u64_at (ix_data ix) 16 = Some min_out"
    using instruction_amounts [OF tag, of amount min_out "if side then [] else [0]"] by (simp_all add: data)
  moreover have "take 8 (ix_data ix) = ?tag" using tag by (simp add: data)
  ultimately show ?thesis using tail user by (simp add: sell charges_creator_fee_def)
qed

theorem pump_amm_instruction_shape_witness:
  "\<exists>ix. pump_amm_swap_instruction sample_sdk sample_pump_amm
      \<lparr>sa_owner = Pubkey [9], sa_input_mint = Pubkey [2], sa_output_mint = Pubkey [1],
       sa_input_token_account = Pubkey [7], sa_output_token_account = Pubkey [8]\<rparr> 500 400 = Inr ix
     \<and> length (drop 19 (ix_accounts ix)) = 7
     \<and> map meta_key (take 2 (drop 5 (ix_accounts ix))) = [Pubkey [8], Pubkey [7]]
     \<and> u64_at (ix_data ix) 16 = Some 400"
proof -
  let ?acc = "\<lparr>sa_owner = Pubkey [9], sa_input_mint = Pubkey [2], sa_output_mint = Pubkey [1],
       sa_input_token_account = Pubkey [7], sa_output_token_account = Pubkey [8]\<rparr>"
  have mints: "pa_base_mint (pw_state sample_pump_amm) = Pubkey [1]"
    "pa_quote_mint (pw_state sample_pump_amm) = Pubkey [2]"
    "pa_coin_creator (pw_state sample_pump_amm) \<noteq> default_pubkey"
    using sample_creator by (simp_all add: sample_pump_amm_def charges_creator_fee_def)
  have "is_ok (pump_amm_swap_instruction sample_sdk sample_pump_amm ?acc 500 400)"
    by (simp add: pump_amm_swap_instruction_def swap_direction_def ok_side_def side_of_def mints Let_def)
  then obtain ix where ix: "pump_amm_swap_instruction sample_sdk sample_pump_amm ?acc 500 400 = Inr ix"
    by (auto simp: is_ok_iff)
  note shape = pump_amm_instruction_shape [OF ix, of False, unfolded mints, simplified]
  have "length (map meta_key (drop 19 (ix_accounts ix))) = 7" using shape mints(3) by simp
  then have "length (drop 19 (ix_accounts ix)) = 7" by (simp only: length_map)
  moreover have "map meta_key (take 2 (drop 5 (ix_accounts ix))) = [Pubkey [8], Pubkey [7]]"
    and "u64_at (ix_data ix) 16 = Some 400"
    using shape by simp_all
  ultimately show ?thesis using ix by (intro exI conjI)
qed

end
