(* ===== verification/Pumpfun_Legacy.thy ===== *)
theory Pumpfun_Legacy
  imports Pumpfun_Amm
begin

text \<open>
  \<^verbatim>\<open>venues/pumpfun_legacy.rs\<close>: the Pump.fun bonding curve, settling in native SOL. The curve
  account names no mint, so the loader recovers it from the curve's largest token account; that
  listing and the parsing of its text are arguments, as the batched read is.
\<close>

definition LEGACY_BUY_EXACT_SOL_IN :: bytes where
  "LEGACY_BUY_EXACT_SOL_IN = [56, 252, 116, 8, 158, 223, 205, 95]"

definition LEGACY_SELL :: bytes where
  "LEGACY_SELL = [51, 230, 133, 164, 1, 127, 131, 173]"

definition BONDING_CURVE_DISCRIMINATOR :: bytes where
  "BONDING_CURVE_DISCRIMINATOR = [0x17, 0xb7, 0xf8, 0x37, 0x60, 0xd8, 0xac, 0x60]"

definition LEGACY_FEE_PROGRAM_ID :: string where
  "LEGACY_FEE_PROGRAM_ID = ''pfeeUxB6jkeY1Hxd7CsFCAjcbHA9rWtchMGdZ6VojVZ''"

definition GLOBAL_SEED :: bytes where "GLOBAL_SEED = ascii ''global''"
definition BONDING_CURVE_SEED :: bytes where "BONDING_CURVE_SEED = ascii ''bonding-curve''"
definition LEGACY_CREATOR_VAULT_SEED :: bytes where "LEGACY_CREATOR_VAULT_SEED = ascii ''creator-vault''"
definition BONDING_CURVE_V2_SEED :: bytes where "BONDING_CURVE_V2_SEED = ascii ''bonding-curve-v2''"
definition LEGACY_EVENT_AUTHORITY_SEED :: bytes where "LEGACY_EVENT_AUTHORITY_SEED = ascii ''__event_authority''"
definition LEGACY_GLOBAL_VOLUME_SEED :: bytes where "LEGACY_GLOBAL_VOLUME_SEED = ascii ''global_volume_accumulator''"
definition LEGACY_USER_VOLUME_SEED :: bytes where "LEGACY_USER_VOLUME_SEED = ascii ''user_volume_accumulator''"
definition LEGACY_FEE_CONFIG_SEED :: bytes where "LEGACY_FEE_CONFIG_SEED = ascii ''fee_config''"
definition LEGACY_COMPUTE_UNITS :: u32 where "LEGACY_COMPUTE_UNITS = 130000"

definition pump_legacy_program_id :: "sdk \<Rightarrow> pubkey" where
  "pump_legacy_program_id sdk = from_str sdk PUMP_FUN_LEGACY_PROGRAM_ID"

definition legacy_fee_program_id :: "sdk \<Rightarrow> pubkey" where
  "legacy_fee_program_id sdk = from_str sdk LEGACY_FEE_PROGRAM_ID"

definition legacy_system_program_id :: "sdk \<Rightarrow> pubkey" where
  "legacy_system_program_id sdk = from_str sdk SYSTEM_PROGRAM_ID"

definition global_address :: "sdk \<Rightarrow> pubkey" where
  "global_address sdk = find_program_address sdk [GLOBAL_SEED] (pump_legacy_program_id sdk)"

definition legacy_event_authority_address :: "sdk \<Rightarrow> pubkey" where
  "legacy_event_authority_address sdk =
     find_program_address sdk [LEGACY_EVENT_AUTHORITY_SEED] (pump_legacy_program_id sdk)"

definition legacy_global_volume_address :: "sdk \<Rightarrow> pubkey" where
  "legacy_global_volume_address sdk =
     find_program_address sdk [LEGACY_GLOBAL_VOLUME_SEED] (pump_legacy_program_id sdk)"

definition legacy_user_volume_address :: "sdk \<Rightarrow> pubkey \<Rightarrow> pubkey" where
  "legacy_user_volume_address sdk user =
     find_program_address sdk [LEGACY_USER_VOLUME_SEED, key_bytes user] (pump_legacy_program_id sdk)"

definition legacy_fee_config_address :: "sdk \<Rightarrow> pubkey" where
  "legacy_fee_config_address sdk =
     find_program_address sdk [LEGACY_FEE_CONFIG_SEED, key_bytes (pump_legacy_program_id sdk)]
       (legacy_fee_program_id sdk)"

definition bonding_curve_address :: "sdk \<Rightarrow> pubkey \<Rightarrow> pubkey" where
  "bonding_curve_address sdk mint =
     find_program_address sdk [BONDING_CURVE_SEED, key_bytes mint] (pump_legacy_program_id sdk)"

section \<open>Accounts\<close>

record bonding_curve =
  bc_pool :: pubkey
  bc_mint :: pubkey
  bc_virtual_token_reserves :: u64
  bc_virtual_sol_reserves :: u64
  bc_real_token_reserves :: u64
  bc_real_sol_reserves :: u64
  bc_token_total_supply :: u64
  bc_complete :: bool
  bc_creator :: pubkey
  bc_is_mayhem_mode :: bool
  bc_is_cashback_coin :: bool
  bc_quote_mint :: pubkey

definition bonding_curve_decode :: "pubkey \<Rightarrow> bytes \<Rightarrow> bonding_curve option" where
  "bonding_curve_decode pool data =
     (if length data < 115 \<or> take 8 data \<noteq> BONDING_CURVE_DISCRIMINATOR then None
      else do {
        virtual_token_reserves \<leftarrow> u64_at data 8;
        virtual_sol_reserves \<leftarrow> u64_at data 16;
        real_token_reserves \<leftarrow> u64_at data 24;
        real_sol_reserves \<leftarrow> u64_at data 32;
        token_total_supply \<leftarrow> u64_at data 40;
        complete \<leftarrow> u8_at data 48;
        creator \<leftarrow> pubkey_at data 49;
        mayhem \<leftarrow> u8_at data 81;
        cashback \<leftarrow> u8_at data 82;
        quote_mint \<leftarrow> pubkey_at data 83;
        Some \<lparr>bc_pool = pool, bc_mint = default_pubkey,
          bc_virtual_token_reserves = virtual_token_reserves,
          bc_virtual_sol_reserves = virtual_sol_reserves, bc_real_token_reserves = real_token_reserves,
          bc_real_sol_reserves = real_sol_reserves, bc_token_total_supply = token_total_supply,
          bc_complete = (complete \<noteq> 0), bc_creator = creator, bc_is_mayhem_mode = (mayhem \<noteq> 0),
          bc_is_cashback_coin = (cashback \<noteq> 0), bc_quote_mint = quote_mint\<rparr>
      })"

definition creator_set :: "bonding_curve \<Rightarrow> bool" where
  "creator_set c \<longleftrightarrow> bc_creator c \<noteq> default_pubkey"

record global_fee_recipients =
  gr_fee_recipients :: "pubkey list"
  gr_buyback_fee_recipients :: "pubkey list"

definition global_recipients_decode :: "bytes \<Rightarrow> global_fee_recipients option" where
  "global_recipients_decode data = do {
     fee_recipients \<leftarrow> read_keys data 162 7;
     buyback_fee_recipients \<leftarrow> read_keys data 741 8;
     Some \<lparr>gr_fee_recipients = fee_recipients, gr_buyback_fee_recipients = buyback_fee_recipients\<rparr>
   }"

definition legacy_first_fee_recipient :: "global_fee_recipients \<Rightarrow> pubkey option" where
  "legacy_first_fee_recipient g = first_set_key (gr_fee_recipients g)"

definition two_buyback_recipients :: "global_fee_recipients \<Rightarrow> (pubkey \<times> pubkey) option" where
  "two_buyback_recipients g =
     (case filter (\<lambda>key. key \<noteq> default_pubkey) (gr_buyback_fee_recipients g) of
        first # second # _ \<Rightarrow> Some (first, second) | _ \<Rightarrow> None)"

text \<open>A token account of the curve, as the node lists it.\<close>

record token_account_info =
  ti_account :: string
  ti_mint :: string
  ti_balance :: u64

text \<open>\<^verbatim>\<open>max_by_key\<close>: of equal balances, the last.\<close>

fun max_by_balance :: "token_account_info list \<Rightarrow> token_account_info option" where
  "max_by_balance [] = None"
| "max_by_balance (info # rest) =
     (case max_by_balance rest of
        None \<Rightarrow> Some info
      | Some best \<Rightarrow> Some (if ti_balance best < ti_balance info then info else best))"

record pump_legacy_market =
  pl_curve :: bonding_curve
  pl_token_program :: pubkey
  pl_mint_decimals :: u8
  pl_transfer_fee :: "transfer_fee_schedule option"
  pl_fee_recipient :: pubkey
  pl_buyback_wallet :: pubkey
  pl_buyback_paid :: pubkey
  pl_tiers :: "fee_tier_table option"

section \<open>Loading\<close>

definition curve_mint ::
  "(string \<Rightarrow> string + pubkey) \<Rightarrow> pubkey \<Rightarrow> string + token_account_info list \<Rightarrow> pubkey direct_result" where
  "curve_mint parse pool listing =
     rbind (map_err (\<lambda>e. AccountUnavailable pool
              (''could not read the curve's own token account: '' @ e)) listing) (\<lambda>infos.
     rbind (ok_or (max_by_balance infos)
              (PoolUndecodable pool
                 ''the bonding curve holds no token account, so its mint cannot be found'')) (\<lambda>info.
     map_err (\<lambda>e. PoolUndecodable pool (''the curve's token account names an invalid mint: '' @ e))
       (parse (ti_mint info))))"

definition curve_refusal :: "pubkey \<Rightarrow> bonding_curve \<Rightarrow> direct_swap_error option" where
  "curve_refusal pool curve =
     (if bc_complete curve then
        Some (PoolNotTradable pool
          ''the bonding curve has completed and migrated to pump-swap; trade the pump-swap pool instead'')
      else if bc_is_mayhem_mode curve then
        Some (PoolNotTradable pool
          ''a mayhem-mode curve waives fees through a settlement path this venue does not build; route it through an aggregator instead'')
      else if bc_is_cashback_coin curve then
        Some (PoolNotTradable pool
          ''a cashback curve's creator-fee waiver is not verified to this engine's bar; route it through an aggregator instead'')
      else if bc_quote_mint curve \<noteq> default_pubkey then
        Some (PoolNotTradable pool
          ''the curve trades an alternate quote mint (buy_v2 territory), which is a different product this venue does not build'')
      else None)"

definition pump_legacy_load ::
  "sdk \<Rightarrow> (string \<Rightarrow> string + pubkey) \<Rightarrow> (pubkey \<Rightarrow> string + token_account_info list) \<Rightarrow> account_reader
     \<Rightarrow> pubkey \<Rightarrow> account \<Rightarrow> pump_legacy_market direct_result" where
  "pump_legacy_load sdk parse tokens_of read pool pool_account =
     rbind (ok_or (bonding_curve_decode pool (acc_data pool_account))
              (PoolUndecodable pool (''pump.fun legacy bonding curve did not match the expected layout (''
                 @ show_nat (length (acc_data pool_account)) @ '' bytes)''))) (\<lambda>decoded.
     rbind (curve_mint parse pool (tokens_of pool)) (\<lambda>mint.
     let curve = decoded\<lparr>bc_mint := mint\<rparr> in
     case curve_refusal pool curve of
       Some e \<Rightarrow> Inl e
     | None \<Rightarrow>
       let addresses = [bc_mint curve, global_address sdk, legacy_fee_config_address sdk];
           required = fetched ''account does not exist'' addresses
       in rbind (map_err (\<lambda>e. AccountUnavailable pool
                   (''pump.fun legacy accounts could not be read: '' @ e)) (read addresses)) (\<lambda>accounts.
       rbind (required accounts 0) (\<lambda>mint_account.
       rbind (ok_or (u8_at (acc_data mint_account) 44)
                (PoolUndecodable pool ''the curve's mint is not a mint account'')) (\<lambda>decimals.
       rbind (required accounts 1) (\<lambda>global_account.
       rbind (ok_or (global_recipients_decode (acc_data global_account))
                (PoolUndecodable pool ''pump.fun legacy Global did not match the expected layout''))
         (\<lambda>global_state.
       rbind (ok_or (legacy_first_fee_recipient global_state)
                (PoolNotTradable pool ''pump.fun legacy Global lists no protocol fee recipient''))
         (\<lambda>fee_recipient.
       rbind (ok_or (two_buyback_recipients global_state)
                (PoolNotTradable pool
                   ''pump.fun legacy Global lists fewer than two buyback fee recipients''))
         (\<lambda>(buyback_wallet, buyback_paid).
       rbind (required accounts 2) (\<lambda>fee_account.
       Inr \<lparr>pl_curve = curve, pl_token_program = acc_owner mint_account, pl_mint_decimals = decimals,
            pl_transfer_fee = read_transfer_fee_schedule sdk mint_account,
            pl_fee_recipient = fee_recipient, pl_buyback_wallet = buyback_wallet,
            pl_buyback_paid = buyback_paid, pl_tiers = fee_tiers_decode (acc_data fee_account)\<rparr>))))))))))"

section \<open>Fees\<close>

definition legacy_is_base :: "sdk \<Rightarrow> pump_legacy_market \<Rightarrow> pubkey \<Rightarrow> bool option" where
  "legacy_is_base sdk m mint = side_of (bc_mint (pl_curve m)) (wsol_mint sdk) mint"

definition legacy_market_cap :: "pump_legacy_market \<Rightarrow> u128 option" where
  "legacy_market_cap m = (let c = pl_curve m in
     if bc_virtual_token_reserves c = 0 then None
     else Some ((ucast (bc_token_total_supply c) :: u128) * ucast (bc_virtual_sol_reserves c)
                div ucast (bc_virtual_token_reserves c)))"

definition legacy_fees :: "pump_legacy_market \<Rightarrow> pump_fees" where
  "legacy_fees m =
     (case (pl_tiers m, legacy_market_cap m) of
        (Some table, Some cap) \<Rightarrow> fees_for table cap
      | (Some table, None) \<Rightarrow> most_expensive table
      | (None, _) \<Rightarrow> no_pump_fees)"

definition legacy_total_bps :: "pump_legacy_market \<Rightarrow> u64" where
  "legacy_total_bps m = total_bps (legacy_fees m) (creator_set (pl_curve m))"

definition legacy_fee_on :: "pump_legacy_market \<Rightarrow> u64 \<Rightarrow> u64" where
  "legacy_fee_on m net = components_fee (legacy_fees m) (creator_set (pl_curve m)) net"

definition net_for_spend :: "pump_legacy_market \<Rightarrow> u64 \<Rightarrow> u64 option" where
  "net_for_spend m spendable =
     map_option (\<lambda>low. saturating_sub low 1)
       (largest_affordable (\<lambda>mid. ucast mid + ucast (legacy_fee_on m mid)) spendable)"

section \<open>The quote\<close>

definition legacy_fill :: "pump_legacy_market \<Rightarrow> bool \<Rightarrow> u64 \<Rightarrow> (u64 \<times> u64) option" where
  "legacy_fill m input_is_base amount_in =
     (let c = pl_curve m in
      if input_is_base then
        let sold = net_of_fee (pl_transfer_fee m) amount_in;
            gross = min (constant_product_out (bc_virtual_token_reserves c) (bc_virtual_sol_reserves c) sold)
                        (bc_real_sol_reserves c);
            fee = legacy_fee_on m gross
        in Some (saturating_sub gross fee, fee_in_input_units fee amount_in gross)
      else do {
        net \<leftarrow> net_for_spend m amount_in;
        let fee = saturating_sub amount_in net;
        let gross = min (constant_product_out (bc_virtual_sol_reserves c) (bc_virtual_token_reserves c) net)
                        (bc_real_token_reserves c);
        Some (net_of_fee (pl_transfer_fee m) gross, fee)
      })"

definition pump_legacy_quote ::
  "sdk \<Rightarrow> pump_legacy_market \<Rightarrow> pubkey \<Rightarrow> u64 \<Rightarrow> venue_quote direct_result option" where
  "pump_legacy_quote sdk m input_mint amount_in =
     (let c = pl_curve m; pool = bc_pool c in
      case legacy_is_base sdk m input_mint of
        None \<Rightarrow> Some (Inl (PairNotInPool pool input_mint default_pubkey))
      | Some input_is_base \<Rightarrow>
        if bc_virtual_token_reserves c = 0 \<or> bc_virtual_sol_reserves c = 0 then
          Some (Inl (InsufficientLiquidity pool amount_in ''the bonding curve has no reserves''))
        else map_option (\<lambda>(expected_out, lp_fee).
          if expected_out = 0 then
            Inl (InsufficientLiquidity pool amount_in ''the curve returns nothing at this size'')
          else
            let (reserve_in, reserve_out) =
                  (if input_is_base then (bc_virtual_token_reserves c, bc_virtual_sol_reserves c)
                   else (bc_virtual_sol_reserves c, bc_virtual_token_reserves c))
            in Inr \<lparr>vq_amount_in = amount_in, vq_expected_out = expected_out, vq_lp_fee = lp_fee,
                    vq_price_impact_pct = price_impact_pct reserve_in reserve_out amount_in expected_out\<rparr>)
          (legacy_fill m input_is_base amount_in))"

section \<open>The instruction\<close>

definition creator_vault :: "sdk \<Rightarrow> pump_legacy_market \<Rightarrow> pubkey" where
  "creator_vault sdk m =
     find_program_address sdk [LEGACY_CREATOR_VAULT_SEED, key_bytes (bc_creator (pl_curve m))]
       (pump_legacy_program_id sdk)"

definition associated_bonding_curve :: "sdk \<Rightarrow> pump_legacy_market \<Rightarrow> pubkey" where
  "associated_bonding_curve sdk m =
     associated_token_address sdk (bc_pool (pl_curve m)) (bc_mint (pl_curve m)) (pl_token_program m)"

definition bonding_curve_v2 :: "sdk \<Rightarrow> pump_legacy_market \<Rightarrow> pubkey" where
  "bonding_curve_v2 sdk m =
     find_program_address sdk [BONDING_CURVE_V2_SEED, key_bytes (bc_mint (pl_curve m))]
       (pump_legacy_program_id sdk)"

definition pump_legacy_swap_instruction ::
  "sdk \<Rightarrow> pump_legacy_market \<Rightarrow> swap_accounts \<Rightarrow> u64 \<Rightarrow> u64 \<Rightarrow> instruction direct_result" where
  "pump_legacy_swap_instruction sdk m acc amount_in min_out =
     (let c = pl_curve m in
      rbind (swap_direction (bc_pool c) (bc_mint c) (wsol_mint sdk) acc) (\<lambda>input_is_base.
      let (tag, metas) =
            (if input_is_base then
               (LEGACY_SELL,
                [meta_readonly (global_address sdk) False,
                 meta_new (pl_fee_recipient m) False,
                 meta_readonly (bc_mint c) False,
                 meta_new (bc_pool c) False,
                 meta_new (associated_bonding_curve sdk m) False,
                 meta_new (sa_input_token_account acc) False,
                 meta_new (sa_owner acc) True,
                 meta_readonly (legacy_system_program_id sdk) False,
                 meta_new (creator_vault sdk m) False,
                 meta_readonly (pl_token_program m) False,
                 meta_readonly (legacy_event_authority_address sdk) False,
                 meta_readonly (pump_legacy_program_id sdk) False,
                 meta_readonly (legacy_fee_config_address sdk) False,
                 meta_readonly (legacy_fee_program_id sdk) False])
             else
               (LEGACY_BUY_EXACT_SOL_IN,
                [meta_readonly (global_address sdk) False,
                 meta_new (pl_fee_recipient m) False,
                 meta_readonly (bc_mint c) False,
                 meta_new (bc_pool c) False,
                 meta_new (associated_bonding_curve sdk m) False,
                 meta_new (sa_output_token_account acc) False,
                 meta_new (sa_owner acc) True,
                 meta_readonly (legacy_system_program_id sdk) False,
                 meta_readonly (pl_token_program m) False,
                 meta_new (creator_vault sdk m) False,
                 meta_readonly (legacy_event_authority_address sdk) False,
                 meta_readonly (pump_legacy_program_id sdk) False,
                 meta_readonly (legacy_global_volume_address sdk) False,
                 meta_new (legacy_user_volume_address sdk (sa_owner acc)) False,
                 meta_readonly (legacy_fee_config_address sdk) False,
                 meta_readonly (legacy_fee_program_id sdk) False]))
      in Inr \<lparr>ix_program = pump_legacy_program_id sdk,
              ix_accounts = metas
                @ (if creator_set c then [meta_new (bonding_curve_v2 sdk m) False] else [])
                @ [meta_new (pl_buyback_wallet m) False, meta_new (pl_buyback_paid m) False],
              ix_data = tag @ to_le_bytes_u64 amount_in @ to_le_bytes_u64 min_out\<rparr>))"

definition pump_legacy_pool_market :: "sdk \<Rightarrow> pump_legacy_market \<Rightarrow> pool_market" where
  "pump_legacy_pool_market sdk m = (let c = pl_curve m in
     \<lparr>pm_program = PumpFunLegacy, pm_pool = bc_pool c, pm_mints = (bc_mint c, wsol_mint sdk),
      pm_token_program = (\<lambda>mint. map_option (\<lambda>base. if base then pl_token_program m else spl_token_id sdk)
                                 (legacy_is_base sdk m mint)),
      pm_decimals = (\<lambda>mint. map_option (\<lambda>base. if base then pl_mint_decimals m else 9)
                            (legacy_is_base sdk m mint)),
      pm_quote = (\<lambda>mint amount. quote_returns (pump_legacy_quote sdk m mint amount)),
      pm_swap_instruction = pump_legacy_swap_instruction sdk m,
      pm_compute_units = LEGACY_COMPUTE_UNITS, pm_settles_native_sol = True\<rparr>)"

section \<open>The venue keeps its contract\<close>

lemma legacy_fee_on_le: "legacy_fee_on m a \<le> a"
  unfolding legacy_fee_on_def by (rule components_fee_le)

lemma legacy_fill_fee:
  assumes "legacy_fill m side amount = Some (out, fee)"
  shows "fee \<le> amount"
  using assms
  by (cases side)
    (auto simp: legacy_fill_def Let_def res_simps fee_in_input_units_le [OF legacy_fee_on_le] saturating_sub_le)

lemma pump_legacy_quote_Inr:
  assumes "pump_legacy_quote sdk m mint amount = Some (Inr q)"
  obtains side where "legacy_is_base sdk m mint = Some side"
    and "legacy_fill m side amount = Some (vq_expected_out q, vq_lp_fee q)"
    and "vq_amount_in q = amount" and "vq_expected_out q \<noteq> 0"
  using assms
  by (auto simp: pump_legacy_quote_def Let_def intro: that split: option.splits prod.splits if_splits)

lemma pump_legacy_quote_errs:
  "errs (\<lambda>e. \<not> submitted e) (quote_returns (pump_legacy_quote sdk m mint amount))"
  by (auto simp: quote_returns_def pump_legacy_quote_def Let_def split: option.splits prod.splits)

lemma pump_legacy_ix:
  assumes "pump_legacy_swap_instruction sdk m acc amount min_out = Inr ix"
  obtains side where "swap_direction (bc_pool (pl_curve m)) (bc_mint (pl_curve m)) (wsol_mint sdk) acc = Inr side"
    and "ix_program ix = pump_legacy_program_id sdk"
    and "\<And>me. me \<in> set (ix_accounts ix) \<Longrightarrow> meta_signer me \<Longrightarrow> meta_key me = sa_owner acc"
proof -
  from assms obtain side where
    side: "swap_direction (bc_pool (pl_curve m)) (bc_mint (pl_curve m)) (wsol_mint sdk) acc = Inr side"
    by (auto simp: pump_legacy_swap_instruction_def Let_def rbind_Inr_iff)
  show thesis
    by (rule that [OF side])
      (use assms side in \<open>auto simp: pump_legacy_swap_instruction_def Let_def meta_new_def meta_readonly_def
        split: if_splits\<close>)
qed

lemma pump_legacy_ix_errs: "errs (\<lambda>e. \<not> submitted e) (pump_legacy_swap_instruction sdk m acc amount min_out)"
  unfolding pump_legacy_swap_instruction_def Let_def
  by (intro errs_intros) (auto split: prod.splits)

lemma pump_legacy_market_simps [simp]:
  "pm_mints (pump_legacy_pool_market sdk m) = (bc_mint (pl_curve m), wsol_mint sdk)"
  "pm_quote (pump_legacy_pool_market sdk m) mint amount = quote_returns (pump_legacy_quote sdk m mint amount)"
  "pm_swap_instruction (pump_legacy_pool_market sdk m) = pump_legacy_swap_instruction sdk m"
  "pm_token_program (pump_legacy_pool_market sdk m) mint
     = map_option (\<lambda>base. if base then pl_token_program m else spl_token_id sdk) (legacy_is_base sdk m mint)"
  by (simp_all add: pump_legacy_pool_market_def Let_def)

interpretation pump_legacy: fee_bounded_market "pump_legacy_pool_market sdk" "\<lambda>_. pump_legacy_program_id sdk"
  "\<lambda>_. True" for sdk
proof (unfold_locales, goal_cases)
  case (1 s mint amount q)
  then show ?case by (auto simp: quote_returns_Inr elim: pump_legacy_quote_Inr)
next
  case (2 s mint amount q)
  then show ?case
    by (auto simp: quote_returns_Inr legacy_is_base_def side_of_Some elim!: pump_legacy_quote_Inr
        split: if_splits)
next
  case (9 s mint amount q)
  then show ?case by (auto simp: quote_returns_Inr elim!: pump_legacy_quote_Inr dest: legacy_fill_fee)
next
  case (3 s mint amount e)
  then show ?case using errsD [OF pump_legacy_quote_errs] by simp
next
  case (4 s acc amount min_out ix)
  then show ?case by (auto simp: trades_def elim!: pump_legacy_ix dest!: swap_direction_Inr)
next
  case (5 s acc amount min_out ix)
  then show ?case by (auto elim: pump_legacy_ix)
next
  case (6 s acc amount min_out ix m)
  then show ?case by (auto elim: pump_legacy_ix)
next
  case (7 s acc amount min_out e)
  then show ?case using errsD [OF pump_legacy_ix_errs] by simp
next
  case (8 s mint)
  then show ?case by (simp add: legacy_is_base_def)
qed

lemma pump_legacy_load_Inr:
  assumes "pump_legacy_load sdk parse tokens_of read pool acc = Inr m"
  obtains decoded mint g accounts fee_account where "bonding_curve_decode pool (acc_data acc) = Some decoded"
    and "curve_mint parse pool (tokens_of pool) = Inr mint"
    and "curve_refusal pool (pl_curve m) = None" and "pl_curve m = decoded\<lparr>bc_mint := mint\<rparr>"
    and "legacy_first_fee_recipient g = Some (pl_fee_recipient m)"
    and "two_buyback_recipients g = Some (pl_buyback_wallet m, pl_buyback_paid m)"
    and "read [mint, global_address sdk, legacy_fee_config_address sdk] = Inr accounts"
    and "account_entry accounts 2 = Some fee_account"
    and "pl_tiers m = fee_tiers_decode (acc_data fee_account)"
  using assms
  by (auto simp: pump_legacy_load_def fetched_def Let_def res_simps intro: that split: option.splits prod.splits)

section \<open>A fee table that does not decode\<close>

lemma no_pump_fees_charge: "components_fee no_pump_fees creator a = 0"
  by (simp add: word_unat_eq_iff unat_components_fee fee_total_def no_pump_fees_def cdiv_def)

lemma legacy_fees_None: "pl_tiers m = None \<Longrightarrow> legacy_fees m = no_pump_fees"
  by (simp add: legacy_fees_def)

lemma largest_affordable_free:
  assumes "spendable \<noteq> - 1"
  shows "largest_affordable (\<lambda>mid. ucast mid + ucast (0 :: u64)) spendable = Some spendable"
proof -
  let ?cost = "\<lambda>mid :: u64. (ucast mid :: u128) + ucast (0 :: u64)"
  have mono: "?cost a \<le> ?cost b" if "a \<le> b" for a b
    using that by (simp add: word_le_nat_alt)
  obtain q where q: "largest_affordable ?cost spendable = Some q" "?cost q \<le> ucast spendable"
    and largest: "\<And>q'. ?cost q' \<le> ucast spendable \<Longrightarrow> q' \<le> q"
    using largest_affordable_Some [OF assms, of ?cost] mono by auto
  have "q = spendable"
    using q(2) largest [of spendable] by (intro order_antisym) (simp_all add: word_le_nat_alt)
  with q(1) show ?thesis by simp
qed

section \<open>Recipients\<close>

lemma first_set_key_Some: "first_set_key keys = Some k \<Longrightarrow> k \<noteq> default_pubkey"
  by (auto simp: first_set_key_def find_Some_iff)

lemma two_buyback_set:
  assumes "two_buyback_recipients g = Some (a, b)"
  shows "a \<noteq> default_pubkey \<and> b \<noteq> default_pubkey"
proof -
  let ?set = "filter (\<lambda>key. key \<noteq> default_pubkey) (gr_buyback_fee_recipients g)"
  from assms obtain rest where "?set = a # b # rest"
    by (auto simp: two_buyback_recipients_def split: list.splits)
  then have "a \<in> set ?set" "b \<in> set ?set" by simp_all
  then show ?thesis by simp
qed

section \<open>A concrete curve\<close>

definition sample_pump_legacy :: pump_legacy_market where
  "sample_pump_legacy = \<lparr>
     pl_curve = \<lparr>bc_pool = Pubkey [3], bc_mint = Pubkey [2], bc_virtual_token_reserves = 1000000000000000,
       bc_virtual_sol_reserves = 32000000000, bc_real_token_reserves = 700000000000000,
       bc_real_sol_reserves = 2000000000, bc_token_total_supply = 1000000000000000, bc_complete = False,
       bc_creator = Pubkey [5], bc_is_mayhem_mode = False, bc_is_cashback_coin = False,
       bc_quote_mint = default_pubkey\<rparr>,
     pl_token_program = Pubkey [22], pl_mint_decimals = 6, pl_transfer_fee = None,
     pl_fee_recipient = Pubkey [11], pl_buyback_wallet = Pubkey [12], pl_buyback_paid = Pubkey [13],
     pl_tiers = None\<rparr>"

section \<open>Properties\<close>

text \<open>A bonding curve whose fee table does not decode is quoted as if it charged nothing. The
  loader accepts such a table (only its absence is refused), the fee on every amount is zero, a sale
  is quoted its gross output and a purchase puts all but one unit of the spend on the curve: the
  output is over-stated by the whole fee, where the pump-swap venue falls back to a real rate.\<close>

theorem legacy_unreadable_table_is_free:
  assumes "pl_tiers m = None"
  shows "legacy_fee_on m amount = 0
     \<and> legacy_fill m True amount = Some (min (constant_product_out (bc_virtual_token_reserves (pl_curve m))
           (bc_virtual_sol_reserves (pl_curve m)) (net_of_fee (pl_transfer_fee m) amount))
         (bc_real_sol_reserves (pl_curve m)), 0)
     \<and> (amount \<noteq> - 1 \<longrightarrow> net_for_spend m amount = Some (saturating_sub amount 1))"
proof -
  have fee: "legacy_fee_on m a = 0" for a
    by (simp add: legacy_fee_on_def legacy_fees_None [OF assms] no_pump_fees_charge)
  have "net_for_spend m amount = Some (saturating_sub amount 1)" if "amount \<noteq> - 1"
    unfolding net_for_spend_def fee largest_affordable_free [OF that] by simp
  then show ?thesis
    by (simp add: fee legacy_fill_def Let_def fee_in_input_units_def saturating_sub_def)
qed

theorem legacy_unreadable_table_is_free_witness:
  "net_for_spend sample_pump_legacy 597000000 = Some 596999999
   \<and> legacy_fee_on sample_pump_legacy 597000000 = 0"
  using legacy_unreadable_table_is_free [of sample_pump_legacy 597000000]
  by (simp add: sample_pump_legacy_def saturating_sub_def)

text \<open>What the bonding-curve loader lets through. A market is only built for a curve that has not
  completed, is not in mayhem mode, is no cashback coin and is quoted in SOL; its mint is the one of the
  curve's largest token account, the protocol and both buyback recipients are set keys, and the fee
  table is whatever the fee account decodes to.\<close>

theorem legacy_load_checks:
  assumes "pump_legacy_load sdk parse tokens_of read pool acc = Inr m"
  shows "\<not> bc_complete (pl_curve m) \<and> \<not> bc_is_mayhem_mode (pl_curve m)
     \<and> \<not> bc_is_cashback_coin (pl_curve m) \<and> bc_quote_mint (pl_curve m) = default_pubkey
     \<and> bc_pool (pl_curve m) = pool
     \<and> (\<exists>infos info. tokens_of pool = Inr infos \<and> max_by_balance infos = Some info
          \<and> parse (ti_mint info) = Inr (bc_mint (pl_curve m)))
     \<and> pl_fee_recipient m \<noteq> default_pubkey \<and> pl_buyback_wallet m \<noteq> default_pubkey
     \<and> pl_buyback_paid m \<noteq> default_pubkey
     \<and> (\<exists>accounts fee_account.
          read [bc_mint (pl_curve m), global_address sdk, legacy_fee_config_address sdk] = Inr accounts
          \<and> account_entry accounts 2 = Some fee_account \<and> pl_tiers m = fee_tiers_decode (acc_data fee_account))"
proof -
  from assms obtain decoded mint g accounts fee_account where
    dec: "bonding_curve_decode pool (acc_data acc) = Some decoded"
    and mint: "curve_mint parse pool (tokens_of pool) = Inr mint"
    and ok: "curve_refusal pool (pl_curve m) = None" "pl_curve m = decoded\<lparr>bc_mint := mint\<rparr>"
    and keys: "legacy_first_fee_recipient g = Some (pl_fee_recipient m)"
      "two_buyback_recipients g = Some (pl_buyback_wallet m, pl_buyback_paid m)"
    and tiers: "read [mint, global_address sdk, legacy_fee_config_address sdk] = Inr accounts"
      "account_entry accounts 2 = Some fee_account" "pl_tiers m = fee_tiers_decode (acc_data fee_account)"
    by (rule pump_legacy_load_Inr)
  have "bc_pool decoded = pool"
    using dec by (auto simp: bonding_curve_decode_def res_simps split: if_splits)
  moreover have "\<exists>infos info. tokens_of pool = Inr infos \<and> max_by_balance infos = Some info
      \<and> parse (ti_mint info) = Inr mint"
    using mint by (auto simp: curve_mint_def res_simps)
  ultimately show ?thesis
    using ok keys tiers
    by (auto simp: curve_refusal_def legacy_first_fee_recipient_def
        dest: first_set_key_Some two_buyback_set split: if_splits)
qed

definition ones_account :: account where
  "ones_account = \<lparr>acc_lamports = 0, acc_data = replicate 1200 1, acc_owner = Pubkey [6]\<rparr>"

definition sample_curve_account :: account where
  "sample_curve_account = \<lparr>acc_lamports = 0, acc_data = BONDING_CURVE_DISCRIMINATOR @ replicate 107 0,
     acc_owner = Pubkey [6]\<rparr>"

theorem legacy_load_checks_witness:
  "\<exists>m. pump_legacy_load sample_sdk (\<lambda>s. Inr (text_key s))
       (\<lambda>_. Inr [\<lparr>ti_account = ''a'', ti_mint = ''x'', ti_balance = 1\<rparr>,
                  \<lparr>ti_account = ''b'', ti_mint = ''y'', ti_balance = 7\<rparr>])
       (\<lambda>_. Inr (replicate 3 (Some ones_account))) (Pubkey [3]) sample_curve_account = Inr m
     \<and> bc_mint (pl_curve m) = text_key ''y'' \<and> pl_buyback_paid m \<noteq> default_pubkey"
proof -
  let ?parse = "\<lambda>s. Inr (text_key s) :: string + pubkey"
  let ?infos = "[\<lparr>ti_account = ''a'', ti_mint = ''x'', ti_balance = 1\<rparr>,
                 \<lparr>ti_account = ''b'', ti_mint = ''y'', ti_balance = 7\<rparr>]"
  let ?load = "pump_legacy_load sample_sdk ?parse (\<lambda>_. Inr ?infos)
       (\<lambda>_. Inr (replicate 3 (Some ones_account))) (Pubkey [3]) sample_curve_account"
  have mint: "curve_mint ?parse pool (Inr ?infos) = Inr (text_key ''y'')" for pool
    by (simp add: curve_mint_def)
  obtain d where d: "bonding_curve_decode (Pubkey [3]) (acc_data sample_curve_account) = Some d"
    "\<not> bc_complete d" "\<not> bc_is_mayhem_mode d" "\<not> bc_is_cashback_coin d" "bc_quote_mint d = default_pubkey"
    by (simp add: bonding_curve_decode_def sample_curve_account_def BONDING_CURVE_DISCRIMINATOR_def u64_at_def
        u8_at_def pubkey_at_def slice_def default_pubkey_def nth_append)
  let ?k = "Pubkey (replicate 32 1)"
  have ones: "?k \<noteq> default_pubkey" by (simp add: default_pubkey_def numeral_eq_Suc)
  have keys: "read_keys (replicate 1200 1) off n = Some (replicate n ?k)" if "off + 32 * n \<le> 1200" for off n
    using that by (induction n arbitrary: off) (auto simp: pubkey_at_def slice_def)
  have unroll: "replicate 7 ?k = ?k # replicate 6 ?k" "replicate 8 ?k = ?k # ?k # replicate 6 ?k"
    by (simp_all add: numeral_eq_Suc)
  obtain g where g: "global_recipients_decode (acc_data ones_account) = Some g"
    "legacy_first_fee_recipient g = Some ?k" "two_buyback_recipients g = Some (?k, ?k)"
    using ones
    by (simp add: global_recipients_decode_def ones_account_def keys unroll
        legacy_first_fee_recipient_def first_set_key_def two_buyback_recipients_def)
  have "is_ok ?load"
    using d g by (simp add: pump_legacy_load_def mint curve_refusal_def Let_def fetched_def account_entry_def
        u8_at_def ones_account_def)
  then obtain m where m: "?load = Inr m" by (auto simp: is_ok_iff)
  from legacy_load_checks [OF m] have "bc_mint (pl_curve m) = text_key ''y''"
    and "pl_buyback_paid m \<noteq> default_pubkey"
    by auto
  with m show ?thesis by blast
qed

end
