(* ===== verification/Double_Step.thy ===== *)
theory Double_Step
  imports Venue_Common
begin

text \<open>
  Moves of a square-root price at constant liquidity when both are scaled by $2^{64}$, as in the two
  Meteora curves (\<^verbatim>\<open>venues/meteora_damm.rs\<close>, \<^verbatim>\<open>venues/meteora_dbc.rs\<close>). A move is fair when the
  trader pays at least the exact input of the price move and receives at most its exact output; a
  fair move never beats the constant-product curve on the virtual reserves of its liquidity.
\<close>

definition fair_move :: "bool \<Rightarrow> nat \<Rightarrow> nat \<Rightarrow> nat \<Rightarrow> nat \<Rightarrow> nat \<Rightarrow> bool" where
  "fair_move price_falls L p p' x y \<longleftrightarrow>
     (if price_falls then y * 2 ^ 128 \<le> L * (p - p') \<and> L * (p - p') \<le> x * (p * p')
      else y * (p * p') \<le> L * (p' - p) \<and> L * (p' - p) \<le> x * 2 ^ 128)"

lemma fair_move_output_le:
  "fair_move z L p p' x y \<Longrightarrow> y' \<le> y \<Longrightarrow> fair_move z L p p' x y'"
  by (auto simp: fair_move_def intro: order_trans [OF mult_le_mono1])

text \<open>On the virtual reserves \<open>L / p\<close> and \<open>L p / 2^128\<close>, scaled to stay in the integers.\<close>

lemma fair_fall_product:
  assumes "fair_move True L p p' x y"
  shows "y * 2 ^ 128 * (L + x * p) \<le> L * p * (x * p)"
proof (cases "p' \<le> p")
  case True
  then obtain d where d: "p = p' + d" by (auto dest: le_Suc_ex)
  have y: "y * 2 ^ 128 \<le> L * d" and x: "L * d \<le> x * (p * p')"
    using assms by (simp_all add: fair_move_def d)
  have "d * (L + x * p) \<le> x * p * p' + x * p * d" using x by (simp add: algebra_simps)
  also have "\<dots> = p * (x * p)" by (simp add: d algebra_simps)
  finally have "L * (d * (L + x * p)) \<le> L * (p * (x * p))" by (rule mult_le_mono2)
  then have "L * d * (L + x * p) \<le> L * p * (x * p)" by (simp add: mult.assoc)
  moreover have "y * 2 ^ 128 * (L + x * p) \<le> L * d * (L + x * p)" using y by (rule mult_le_mono1)
  ultimately show ?thesis by linarith
qed (use assms in \<open>simp add: fair_move_def\<close>)

lemma fair_rise_product:
  assumes "fair_move False L p p' x y" and "0 < p" and "0 < p'"
  shows "y * p * (L * p + x * 2 ^ 128) \<le> L * (x * 2 ^ 128)"
proof (cases "p \<le> p'")
  case True
  then obtain d where d: "p' = p + d" by (auto dest: le_Suc_ex)
  let ?X = "x * 2 ^ 128"
  have y: "y * (p * p') \<le> L * d" and x: "L * d \<le> ?X"
    using assms by (simp_all add: fair_move_def d)
  have "y * p * (L * p + ?X) * p' = (y * (p * p')) * (L * p + ?X)" by (simp add: algebra_simps)
  also have "\<dots> \<le> (L * d) * (L * p + ?X)" using y by (rule mult_le_mono1)
  also have "\<dots> = L * d * (L * p) + L * d * ?X" by (simp add: algebra_simps)
  also have "\<dots> \<le> ?X * (L * p) + L * d * ?X" using x by (intro add_mono mult_le_mono1) simp_all
  also have "\<dots> = L * ?X * p'" by (simp add: d algebra_simps)
  finally show ?thesis using assms(3) by simp
next
  case False
  then have "y * (p * p') = 0" using assms by (simp add: fair_move_def)
  then show ?thesis using assms(2,3) by simp
qed

section \<open>Rounding\<close>

text \<open>The cap \<^verbatim>\<open>min(u64::MAX) as u64\<close> on an output.\<close>

lemma unat_cap_u64: "unat (ucast (min (x :: u128) (ucast (- 1 :: u64))) :: u64) = min (unat x) (2 ^ 64 - 1)"
  by (simp add: unat_narrow unat_all_ones)

lemma cdiv_le_self: "0 < b \<Longrightarrow> b * n = a \<Longrightarrow> cdiv a b = (n :: nat)"
  by (auto simp: cdiv_def)

lemma fall_price_pays:
  fixes L p x :: nat
  assumes "0 < L + x * p"
  shows "L * (p - cdiv (L * p) (L + x * p)) \<le> x * (p * cdiv (L * p) (L + x * p))"
proof -
  define q where "q = cdiv (L * p) (L + x * p)"
  have ge: "L * p \<le> q * (L + x * p)" unfolding q_def by (rule cdiv_mult_ge [OF assms])
  have "L * (p - q) \<le> x * (p * q)"
  proof (cases "q \<le> p")
    case True
    then obtain d where d: "p = q + d" by (auto dest: le_Suc_ex)
    have "L * q + L * d \<le> q * L + x * (p * q)" using ge d
      by (metis add_mult_distrib2 mult.assoc mult.commute)
    then have "L * d \<le> x * (p * q)" by (simp add: mult.commute)
    then show ?thesis by (simp add: d)
  qed simp
  then show ?thesis by (simp add: q_def)
qed

lemma fall_price_le:
  fixes L p x :: nat
  assumes "0 < L"
  shows "cdiv (L * p) (L + x * p) \<le> p"
proof -
  have "L * p \<le> p * (L + x * p)" by (simp add: algebra_simps)
  then show ?thesis using assms by (simp add: cdiv_le_iff)
qed

lemma rise_price_pays:
  fixes L x :: nat
  shows "L * (x * 2 ^ 128 div L) \<le> x * 2 ^ 128"
  by (metis mult.commute div_times_less_eq_dividend)

lemma two_divs_le: "a div b div c * (c * b) \<le> (a :: nat)"
proof -
  have "a div b div c * (c * b) = (a div b div c * c) * b" by (simp add: algebra_simps)
  also have "\<dots> \<le> a div b * b" by (intro mult_le_mono1) (rule div_times_less_eq_dividend)
  also have "\<dots> \<le> a" by (rule div_times_less_eq_dividend)
  finally show ?thesis .
qed

lemma two_cdivs_ge: "0 < b \<Longrightarrow> 0 < c \<Longrightarrow> a \<le> cdiv (cdiv a b) c * (c * b)"
proof -
  assume b: "0 < b" and c: "0 < c"
  have "a \<le> cdiv a b * b" by (rule cdiv_mult_ge [OF b])
  also have "\<dots> \<le> (cdiv (cdiv a b) c * c) * b" by (intro mult_le_mono1) (rule cdiv_mult_ge [OF c])
  also have "\<dots> = cdiv (cdiv a b) c * (c * b)" by (simp add: algebra_simps)
  finally show ?thesis .
qed

end
