(* ===== verification/Meteora_Damm.thy ===== *)
theory Meteora_Damm
  imports Double_Step
begin

text \<open>
  \<^verbatim>\<open>venues/meteora_damm.rs\<close>: Meteora DAMM v2. One position spans the whole price band, so a
  swap is a single constant-liquidity step; the base fee is a union of schedulers, the dynamic fee
  comes from the stored volatility. The slot read and the clock are arguments of the loader.
\<close>

definition DAMM_SWAP :: bytes where
  "DAMM_SWAP = [0xf8, 0xc6, 0x9e, 0x91, 0xe1, 0x75, 0x87, 0xc8]"

definition DAMM_POOL_AUTHORITY :: string where
  "DAMM_POOL_AUTHORITY = ''HLnpSz9h2S4hiLQ43rnSD9XkcUThA7B8hQMKmDaiTLcC''"

definition DAMM_EVENT_AUTHORITY_SEED :: bytes where
  "DAMM_EVENT_AUTHORITY_SEED = map (of_nat \<circ> of_char) ''__event_authority''"

definition FEE_DENOMINATOR :: u64 where "FEE_DENOMINATOR = 1000000000"
definition MAX_FEE_NUMERATOR :: u64 where "MAX_FEE_NUMERATOR = 500000000"
definition BASIS_POINT_MAX :: u64 where "BASIS_POINT_MAX = 10000"
definition COLLECT_FEE_BOTH_TOKEN :: u8 where "COLLECT_FEE_BOTH_TOKEN = 0"
definition COLLECT_FEE_ONLY_B :: u8 where "COLLECT_FEE_ONLY_B = 1"
definition COLLECT_FEE_COMPOUNDING :: u8 where "COLLECT_FEE_COMPOUNDING = 2"
definition ACTIVATION_TYPE_SLOT :: u8 where "ACTIVATION_TYPE_SLOT = 0"
definition DAMM_COMPUTE_UNITS :: u32 where "DAMM_COMPUTE_UNITS = 180000"

definition damm_program_id :: "sdk \<Rightarrow> pubkey" where
  "damm_program_id sdk = from_str sdk METEORA_DAMM_PROGRAM_ID"

definition damm_pool_authority :: "sdk \<Rightarrow> pubkey" where
  "damm_pool_authority sdk = from_str sdk DAMM_POOL_AUTHORITY"

definition damm_event_authority :: "sdk \<Rightarrow> pubkey" where
  "damm_event_authority sdk = find_program_address sdk [DAMM_EVENT_AUTHORITY_SEED] (damm_program_id sdk)"

section \<open>The base fee\<close>

datatype base_fee =
    TimeScheduler (ts_cliff: u64) (ts_periods: u16) (ts_frequency: u64) (ts_reduction: u64) (ts_linear: bool)
  | RateLimiter (rl_cliff: u64) (rl_increment_bps: u16) (rl_duration: u32) (rl_max_bps: u32) (rl_reference: u64)
  | Cliff (cl_cliff: u64)

definition base_fee_decode :: "bytes \<Rightarrow> nat \<Rightarrow> base_fee option" where
  "base_fee_decode data offset = do {
     cliff \<leftarrow> u64_at data offset;
     mode \<leftarrow> u8_at data (offset + 8);
     if mode = 0 \<or> mode = 1 then do {
       periods \<leftarrow> u16_at data (offset + 14);
       period_frequency \<leftarrow> u64_at data (offset + 16);
       reduction_factor \<leftarrow> u64_at data (offset + 24);
       Some (TimeScheduler cliff periods period_frequency reduction_factor (mode = 0))
     }
     else if mode = 2 then do {
       fee_increment_bps \<leftarrow> u16_at data (offset + 14);
       max_limiter_duration \<leftarrow> u32_at data (offset + 16);
       max_fee_bps \<leftarrow> u32_at data (offset + 20);
       reference_amount \<leftarrow> u64_at data (offset + 24);
       Some (RateLimiter cliff fee_increment_bps max_limiter_duration max_fee_bps reference_amount)
     }
     else Some (Cliff cliff)
   }"

text \<open>The loop of the exponential scheduler, with the wrapping products of the code.\<close>

function exponent_loop :: "u128 \<Rightarrow> u128 \<Rightarrow> u64 \<Rightarrow> u128" where
  "exponent_loop result base exponent =
     (if exponent = 0 then result
      else let result = (if exponent AND 1 = 1 then drop_bit 64 (result * base) else result);
               base = drop_bit 64 (base * base);
               exponent = drop_bit 1 exponent
           in if base = 0 then result else exponent_loop result base exponent)"
  by auto
termination
proof (relation "measure (\<lambda>(_, _, exponent). unat exponent)", goal_cases)
  case (2 result base exponent x xa xb)
  then show ?case by (simp add: unat_drop_bit unat_gt_0)
qed simp

declare exponent_loop.simps [simp del]

definition exponential_reduction :: "u64 \<Rightarrow> u64 \<Rightarrow> u64 \<Rightarrow> u64" where
  "exponential_reduction cliff reduction_factor period =
     (if BASIS_POINT_MAX \<le> reduction_factor then 0
      else let one = push_bit 64 (1 :: u128);
               ratio = one * ucast (BASIS_POINT_MAX - reduction_factor) div ucast BASIS_POINT_MAX;
               result = exponent_loop one ratio period
           in ucast (min (drop_bit 64 (ucast cliff * result)) (ucast (- 1 :: u64))))"

definition rate_limited_numerator :: "u64 \<Rightarrow> u64 \<Rightarrow> u16 \<Rightarrow> u32 \<Rightarrow> u64 \<Rightarrow> u64" where
  "rate_limited_numerator amount_in cliff fee_increment_bps max_fee_bps reference_amount =
     (if amount_in \<le> reference_amount then cliff
      else
        let ceiling = min (ucast max_fee_bps * FEE_DENOMINATOR div BASIS_POINT_MAX) MAX_FEE_NUMERATOR;
            increment = (ucast fee_increment_bps :: u128) * ucast FEE_DENOMINATOR div ucast BASIS_POINT_MAX
        in if increment = 0 \<or> ceiling \<le> cliff then cliff
           else
             let x0 = ucast reference_amount :: u128;
                 c = ucast cliff :: u128;
                 excess = ucast amount_in - x0;
                 blocks = excess div x0;
                 remainder = excess mod x0;
                 max_index = (ucast ceiling - c) div increment;
                 fee =
                   (if blocks < max_index then
                      let stepped = c + c * blocks + increment * blocks * (blocks + 1) div 2
                      in x0 * stepped + remainder * (c + increment * (blocks + 1))
                    else
                      let capped = c + c * max_index + increment * max_index * (max_index + 1) div 2;
                          beyond = (blocks - max_index) * x0 + remainder
                      in x0 * capped + beyond * ucast ceiling);
                 numerator = div_ceil fee (ucast amount_in)
             in ucast (min numerator (ucast ceiling)))"

fun base_fee_numerator :: "base_fee \<Rightarrow> u64 \<Rightarrow> u64 \<Rightarrow> u64 \<Rightarrow> bool \<Rightarrow> u64" where
  "base_fee_numerator (Cliff cliff) amount_in current_point activation_point b_to_a = cliff"
| "base_fee_numerator (TimeScheduler cliff periods period_frequency reduction_factor is_linear)
     amount_in current_point activation_point b_to_a =
     (if period_frequency = 0 \<or> periods = 0 then cliff
      else let elapsed = saturating_sub current_point activation_point;
               period = min (elapsed div period_frequency) (ucast periods)
           in if is_linear then saturating_sub cliff (saturating_mul reduction_factor period)
              else exponential_reduction cliff reduction_factor period)"
| "base_fee_numerator (RateLimiter cliff fee_increment_bps max_limiter_duration max_fee_bps reference_amount)
     amount_in current_point activation_point b_to_a =
     (let in_window = current_point < saturating_add activation_point (ucast max_limiter_duration)
      in if \<not> b_to_a \<or> \<not> in_window \<or> reference_amount = 0 \<or> fee_increment_bps = 0 then cliff
         else rate_limited_numerator amount_in cliff fee_increment_bps max_fee_bps reference_amount)"

section \<open>The dynamic fee\<close>

record dynamic_fee =
  df_initialized :: bool
  df_variable_fee_control :: u32
  df_bin_step :: u16
  df_volatility_accumulator :: u128

definition dynamic_fee_decode :: "bytes \<Rightarrow> nat \<Rightarrow> dynamic_fee option" where
  "dynamic_fee_decode data offset = do {
     initialized \<leftarrow> u8_at data offset;
     variable_fee_control \<leftarrow> u32_at data (offset + 12);
     bin_step \<leftarrow> u16_at data (offset + 16);
     volatility_accumulator \<leftarrow> u128_at data (offset + 64);
     Some \<lparr>df_initialized = (initialized \<noteq> 0), df_variable_fee_control = variable_fee_control,
       df_bin_step = bin_step, df_volatility_accumulator = volatility_accumulator\<rparr>
   }"

definition dynamic_fee_numerator :: "dynamic_fee \<Rightarrow> u64" where
  "dynamic_fee_numerator d =
     (if \<not> df_initialized d \<or> df_variable_fee_control d = 0 then 0
      else let scaled = saturating_mul (df_volatility_accumulator d) (ucast (df_bin_step d));
               square = saturating_mul scaled scaled;
               raw = saturating_mul square (ucast (df_variable_fee_control d));
               fee = saturating_add raw 99999999999 div 100000000000
           in ucast (min fee (ucast MAX_FEE_NUMERATOR)))"

section \<open>Pool state\<close>

record damm_pool_state =
  da_pool :: pubkey
  da_base_fee :: base_fee
  da_dynamic_fee :: dynamic_fee
  da_collect_fee_mode :: u8
  da_compounding_fee_bps :: u16
  da_mint_a :: pubkey
  da_mint_b :: pubkey
  da_vault_a :: pubkey
  da_vault_b :: pubkey
  da_liquidity :: u128
  da_protocol_fee_a :: u64
  da_protocol_fee_b :: u64
  da_sqrt_min_price :: u128
  da_sqrt_max_price :: u128
  da_sqrt_price :: u128
  da_activation_point :: u64
  da_activation_type :: u8
  da_pool_status :: u8

definition damm_decode :: "pubkey \<Rightarrow> bytes \<Rightarrow> damm_pool_state option" where
  "damm_decode pool data = do {
     base_fee \<leftarrow> base_fee_decode data 8;
     dynamic_fee \<leftarrow> dynamic_fee_decode data 56;
     compounding_fee_bps \<leftarrow> u16_at data 54;
     mint_a \<leftarrow> pubkey_at data 168;
     mint_b \<leftarrow> pubkey_at data 200;
     vault_a \<leftarrow> pubkey_at data 232;
     vault_b \<leftarrow> pubkey_at data 264;
     liquidity \<leftarrow> u128_at data 360;
     protocol_fee_a \<leftarrow> u64_at data 392;
     protocol_fee_b \<leftarrow> u64_at data 400;
     sqrt_min_price \<leftarrow> u128_at data 424;
     sqrt_max_price \<leftarrow> u128_at data 440;
     sqrt_price \<leftarrow> u128_at data 456;
     activation_point \<leftarrow> u64_at data 472;
     activation_type \<leftarrow> u8_at data 480;
     pool_status \<leftarrow> u8_at data 481;
     collect_fee_mode \<leftarrow> u8_at data 484;
     Some \<lparr>da_pool = pool, da_base_fee = base_fee, da_dynamic_fee = dynamic_fee,
       da_collect_fee_mode = collect_fee_mode, da_compounding_fee_bps = compounding_fee_bps,
       da_mint_a = mint_a, da_mint_b = mint_b, da_vault_a = vault_a, da_vault_b = vault_b,
       da_liquidity = liquidity, da_protocol_fee_a = protocol_fee_a, da_protocol_fee_b = protocol_fee_b,
       da_sqrt_min_price = sqrt_min_price, da_sqrt_max_price = sqrt_max_price,
       da_sqrt_price = sqrt_price, da_activation_point = activation_point,
       da_activation_type = activation_type, da_pool_status = pool_status\<rparr>
   }"

record damm_market =
  dm_state :: damm_pool_state
  dm_token_program_a :: pubkey
  dm_token_program_b :: pubkey
  dm_decimals_a :: u8
  dm_decimals_b :: u8
  dm_vault_a_balance :: u64
  dm_vault_b_balance :: u64
  dm_transfer_fee_a :: "transfer_fee_schedule option"
  dm_transfer_fee_b :: "transfer_fee_schedule option"
  dm_current_point :: u64

section \<open>Loading\<close>

definition damm_current_point :: "string + u64 \<Rightarrow> u64 \<Rightarrow> damm_pool_state \<Rightarrow> u64" where
  "damm_current_point slot now_unix state =
     (if da_activation_type state = ACTIVATION_TYPE_SLOT
      then (case slot of Inr s \<Rightarrow> s | Inl _ \<Rightarrow> - 1) else now_unix)"

definition damm_load ::
  "sdk \<Rightarrow> string + u64 \<Rightarrow> u64 \<Rightarrow> account_reader \<Rightarrow> pubkey \<Rightarrow> account \<Rightarrow> damm_market direct_result" where
  "damm_load sdk slot now_unix read pool pool_account =
     rbind (ok_or (damm_decode pool (acc_data pool_account))
              (PoolUndecodable pool (''DAMM v2 pool state did not match the expected layout (''
                 @ show_nat (length (acc_data pool_account)) @ '' bytes)''))) (\<lambda>state.
     if da_pool_status state \<noteq> 0 then
       Inl (PoolNotTradable pool (''pool_status '' @ show_word (da_pool_status state) @ '' is not enabled''))
     else if da_liquidity state = 0 then
       Inl (InsufficientLiquidity pool 0 ''the pool holds no liquidity'')
     else
       let addresses = [da_vault_a state, da_vault_b state, da_mint_a state, da_mint_b state];
           required = fetched ''account does not exist'' addresses
       in rbind (map_err (\<lambda>e. AccountUnavailable pool (''DAMM v2 pool accounts could not be read: '' @ e))
                   (read addresses)) (\<lambda>accounts.
       rbind (required accounts 0) (\<lambda>vault_a.
       rbind (ok_or (token_account_amount (acc_data vault_a))
                (PoolUndecodable pool ''token_a vault is not a token account'')) (\<lambda>vault_a_balance.
       rbind (required accounts 1) (\<lambda>vault_b.
       rbind (ok_or (token_account_amount (acc_data vault_b))
                (PoolUndecodable pool ''token_b vault is not a token account'')) (\<lambda>vault_b_balance.
       rbind (required accounts 2) (\<lambda>mint_a.
       rbind (required accounts 3) (\<lambda>mint_b.
       rbind (ok_or (mint_decimals (acc_data mint_a))
                (PoolUndecodable pool ''token_a mint is not a mint account'')) (\<lambda>decimals_a.
       rbind (ok_or (mint_decimals (acc_data mint_b))
                (PoolUndecodable pool ''token_b mint is not a mint account'')) (\<lambda>decimals_b.
       Inr \<lparr>dm_state = state, dm_token_program_a = acc_owner mint_a, dm_token_program_b = acc_owner mint_b,
            dm_decimals_a = decimals_a, dm_decimals_b = decimals_b, dm_vault_a_balance = vault_a_balance,
            dm_vault_b_balance = vault_b_balance, dm_transfer_fee_a = read_transfer_fee_schedule sdk mint_a,
            dm_transfer_fee_b = read_transfer_fee_schedule sdk mint_b,
            dm_current_point = damm_current_point slot now_unix state\<rparr>))))))))))"

section \<open>The market\<close>

definition damm_is_side_a :: "damm_market \<Rightarrow> pubkey \<Rightarrow> bool option" where
  "damm_is_side_a m mint = side_of (da_mint_a (dm_state m)) (da_mint_b (dm_state m)) mint"

definition damm_transfer_fee :: "damm_market \<Rightarrow> bool \<Rightarrow> transfer_fee_schedule option" where
  "damm_transfer_fee m side_a = (if side_a then dm_transfer_fee_a m else dm_transfer_fee_b m)"

definition damm_fee_on_input :: "damm_market \<Rightarrow> bool \<Rightarrow> bool" where
  "damm_fee_on_input m input_is_a \<longleftrightarrow>
     da_collect_fee_mode (dm_state m) = COLLECT_FEE_ONLY_B \<and> \<not> input_is_a"

definition damm_fee_numerator :: "damm_market \<Rightarrow> u64 \<Rightarrow> bool \<Rightarrow> u64" where
  "damm_fee_numerator m amount input_is_a =
     (let base = base_fee_numerator (da_base_fee (dm_state m)) amount (dm_current_point m)
                   (da_activation_point (dm_state m)) (\<not> input_is_a)
      in min (saturating_add base (dynamic_fee_numerator (da_dynamic_fee (dm_state m)))) MAX_FEE_NUMERATOR)"

definition damm_fee_on :: "damm_market \<Rightarrow> u64 \<Rightarrow> bool \<Rightarrow> u64" where
  "damm_fee_on m amount input_is_a =
     (let numerator = damm_fee_numerator m amount input_is_a
      in if numerator = 0 then 0
         else ucast (min (div_ceil ((ucast amount :: u128) * ucast numerator) (ucast FEE_DENOMINATOR))
                       (ucast amount)))"

definition delta_b :: "u128 \<Rightarrow> u128 \<Rightarrow> u128 \<Rightarrow> u128 option" where
  "delta_b sqrt_lower sqrt_upper liquidity = do {
     delta \<leftarrow> checked_sub sqrt_upper sqrt_lower;
     half \<leftarrow> mul_div_floor liquidity delta (push_bit 64 1);
     Some (drop_bit 64 half)
   }"

definition delta_a :: "u128 \<Rightarrow> u128 \<Rightarrow> u128 \<Rightarrow> u128 option" where
  "delta_a sqrt_lower sqrt_upper liquidity = do {
     delta \<leftarrow> checked_sub sqrt_upper sqrt_lower;
     intermediate \<leftarrow> mul_div_floor liquidity delta sqrt_upper;
     Some (intermediate div sqrt_lower)
   }"

definition damm_overflow :: direct_swap_error where
  "damm_overflow = QuoteMath ''the DAMM v2 step overflowed 256 bits''"

definition damm_step :: "damm_market \<Rightarrow> bool \<Rightarrow> u64 \<Rightarrow> (u128 \<times> u64) direct_result" where
  "damm_step m a_for_b amount_in =
     (let liquidity = da_liquidity (dm_state m); sqrt_price = da_sqrt_price (dm_state m);
          pool = da_pool (dm_state m); amount = ucast amount_in :: u128
      in if liquidity = 0 \<or> sqrt_price = 0 then
           Inl (InsufficientLiquidity pool amount_in ''the pool holds no liquidity'')
         else if a_for_b then
           rbind (ok_or (checked_mul amount sqrt_price) damm_overflow) (\<lambda>product.
           rbind (ok_or (checked_add liquidity product) damm_overflow) (\<lambda>denominator.
           rbind (ok_or (mul_div_ceil liquidity sqrt_price denominator) damm_overflow) (\<lambda>sqrt_next.
           if sqrt_next < da_sqrt_min_price (dm_state m) then
             Inl (InsufficientLiquidity pool amount_in
                    ''the size would push the price below the pool's minimum'')
           else
             rbind (ok_or (delta_b sqrt_next sqrt_price liquidity) damm_overflow) (\<lambda>out.
             Inr (sqrt_next, ucast (min out (ucast (- 1 :: u64))))))))
         else
           rbind (ok_or (mul_div_floor (push_bit 64 amount) (push_bit 64 1) liquidity) damm_overflow) (\<lambda>delta.
           rbind (ok_or (checked_add sqrt_price delta) damm_overflow) (\<lambda>sqrt_next.
           if da_sqrt_max_price (dm_state m) < sqrt_next then
             Inl (InsufficientLiquidity pool amount_in
                    ''the size would push the price above the pool's maximum'')
           else
             rbind (ok_or (delta_a sqrt_price sqrt_next liquidity) damm_overflow) (\<lambda>out.
             Inr (sqrt_next, ucast (min out (ucast (- 1 :: u64))))))))"

definition damm_output_vault_balance :: "damm_market \<Rightarrow> bool \<Rightarrow> u64" where
  "damm_output_vault_balance m input_is_a =
     (if input_is_a then saturating_sub (dm_vault_b_balance m) (da_protocol_fee_b (dm_state m))
      else saturating_sub (dm_vault_a_balance m) (da_protocol_fee_a (dm_state m)))"

definition damm_quote :: "damm_market \<Rightarrow> pubkey \<Rightarrow> u64 \<Rightarrow> venue_quote direct_result" where
  "damm_quote m input_mint amount_in =
     (let pool = da_pool (dm_state m) in
      rbind (ok_or (damm_is_side_a m input_mint) (PairNotInPool pool input_mint default_pubkey))
        (\<lambda>input_is_a.
      let received_by_pool = net_of_fee (damm_transfer_fee m input_is_a) amount_in in
      if received_by_pool = 0 then
        Inl (InsufficientLiquidity pool amount_in ''the input mint's transfer fee consumes the whole amount'')
      else
        let fee_on_input = damm_fee_on_input m input_is_a;
            (swappable, input_fee) =
              (if fee_on_input then
                 let fee = damm_fee_on m received_by_pool input_is_a
                 in (saturating_sub received_by_pool fee, fee)
               else (received_by_pool, 0))
        in if swappable = 0 then
             Inl (InsufficientLiquidity pool amount_in ''fees consume the whole input at this size'')
           else
             rbind (damm_step m input_is_a swappable) (\<lambda>(sqrt_next, curve_out).
             let after_trade_fee =
                   (if fee_on_input then curve_out
                    else saturating_sub curve_out (damm_fee_on m curve_out input_is_a));
                 expected_out = net_of_fee (damm_transfer_fee m (\<not> input_is_a)) after_trade_fee
             in if expected_out = 0 then
                  Inl (InsufficientLiquidity pool amount_in ''the pool returns nothing at this size'')
                else if damm_output_vault_balance m input_is_a \<le> expected_out then
                  Inl (InsufficientLiquidity pool amount_in
                         ''the output exceeds what the pool's vault holds'')
                else
                  let lp_fee =
                        (if fee_on_input then input_fee
                         else fee_in_input_units (saturating_sub curve_out after_trade_fee) swappable curve_out)
                  in Inr \<lparr>vq_amount_in = amount_in, vq_expected_out = expected_out, vq_lp_fee = lp_fee,
                          vq_price_impact_pct =
                            sqrt_price_impact_pct (da_sqrt_price (dm_state m)) sqrt_next\<rparr>)))"

definition damm_swap_instruction ::
  "sdk \<Rightarrow> damm_market \<Rightarrow> swap_accounts \<Rightarrow> u64 \<Rightarrow> u64 \<Rightarrow> instruction direct_result" where
  "damm_swap_instruction sdk m acc amount_in min_out =
     (let s = dm_state m; program = damm_program_id sdk in
      rbind (swap_direction (da_pool s) (da_mint_a s) (da_mint_b s) acc) (\<lambda>input_is_a.
      Inr \<lparr>ix_program = program,
           ix_accounts =
             [meta_readonly (damm_pool_authority sdk) False,
              meta_new (da_pool s) False,
              meta_new (sa_input_token_account acc) False,
              meta_new (sa_output_token_account acc) False,
              meta_new (da_vault_a s) False,
              meta_new (da_vault_b s) False,
              meta_readonly (da_mint_a s) False,
              meta_readonly (da_mint_b s) False,
              meta_readonly (sa_owner acc) True,
              meta_readonly (dm_token_program_a m) False,
              meta_readonly (dm_token_program_b m) False,
              meta_readonly program False,
              meta_readonly (damm_event_authority sdk) False,
              meta_readonly program False],
           ix_data = DAMM_SWAP @ to_le_bytes_u64 amount_in @ to_le_bytes_u64 min_out\<rparr>))"

definition damm_pool_market :: "sdk \<Rightarrow> damm_market \<Rightarrow> pool_market" where
  "damm_pool_market sdk m = (let s = dm_state m in
     \<lparr>pm_program = MeteoraDamm, pm_pool = da_pool s, pm_mints = (da_mint_a s, da_mint_b s),
      pm_token_program = (\<lambda>mint. map_option (\<lambda>a. if a then dm_token_program_a m else dm_token_program_b m)
                                 (damm_is_side_a m mint)),
      pm_decimals = (\<lambda>mint. map_option (\<lambda>a. if a then dm_decimals_a m else dm_decimals_b m)
                            (damm_is_side_a m mint)),
      pm_quote = damm_quote m, pm_swap_instruction = damm_swap_instruction sdk m,
      pm_compute_units = DAMM_COMPUTE_UNITS, pm_settles_native_sol = False\<rparr>)"

section \<open>The venue keeps its contract\<close>

lemma damm_fee_on_le: "damm_fee_on m a side \<le> a"
proof -
  have "unat (ucast (min (x :: u128) (ucast a)) :: u64) \<le> unat a" for x
    using unat_u64_lt [of a] by (simp add: unat_narrow)
  then show ?thesis by (simp add: damm_fee_on_def Let_def word_le_nat_alt)
qed

lemma damm_quote_Inr:
  assumes "damm_quote m mint amount = Inr q"
  obtains side sqrt_next curve_out swappable where "damm_is_side_a m mint = Some side"
    and "swappable = (if damm_fee_on_input m side
           then saturating_sub (net_of_fee (damm_transfer_fee m side) amount)
                  (damm_fee_on m (net_of_fee (damm_transfer_fee m side) amount) side)
           else net_of_fee (damm_transfer_fee m side) amount)"
    and "swappable \<noteq> 0" and "damm_step m side swappable = Inr (sqrt_next, curve_out)"
    and "vq_amount_in q = amount" and "vq_lp_fee q \<le> amount"
    and "vq_expected_out q = net_of_fee (damm_transfer_fee m (\<not> side))
           (if damm_fee_on_input m side then curve_out else saturating_sub curve_out (damm_fee_on m curve_out side))"
    and "vq_expected_out q \<noteq> 0" and "vq_expected_out q < damm_output_vault_balance m side"
proof -
  have in_fee: "damm_fee_on m (net_of_fee s amount) side \<le> amount" for s side
    using damm_fee_on_le net_of_fee_le by (rule order_trans)
  have out_fee: "fee_in_input_units (saturating_sub g x) (net_of_fee s amount) g \<le> amount" for g x s
    using fee_in_input_units_le [OF saturating_sub_le] net_of_fee_le by (rule order_trans)
  show thesis
    using assms
    by (auto simp: damm_quote_def Let_def res_simps not_le in_fee out_fee intro!: that
        split: prod.splits if_splits)
qed

lemma damm_step_errs: "errs (\<lambda>e. \<not> submitted e) (damm_step m side amount)"
  unfolding damm_step_def damm_overflow_def Let_def by (intro errs_intros) simp_all

lemma damm_quote_errs: "errs (\<lambda>e. \<not> submitted e) (damm_quote m mint amount)"
  unfolding damm_quote_def Let_def by (intro errs_intros damm_step_errs) simp_all

lemma damm_ix:
  assumes "damm_swap_instruction sdk m acc amount min_out = Inr ix"
  obtains side where "swap_direction (da_pool (dm_state m)) (da_mint_a (dm_state m)) (da_mint_b (dm_state m)) acc
      = Inr side"
    and "ix_program ix = damm_program_id sdk"
    and "\<And>me. me \<in> set (ix_accounts ix) \<Longrightarrow> meta_signer me \<Longrightarrow> meta_key me = sa_owner acc"
    and "map meta_key (take 6 (drop 2 (ix_accounts ix))) = [sa_input_token_account acc,
         sa_output_token_account acc, da_vault_a (dm_state m), da_vault_b (dm_state m),
         da_mint_a (dm_state m), da_mint_b (dm_state m)]"
    and "ix_data ix = DAMM_SWAP @ to_le_bytes_u64 amount @ to_le_bytes_u64 min_out"
proof -
  from assms obtain side where
    side: "swap_direction (da_pool (dm_state m)) (da_mint_a (dm_state m)) (da_mint_b (dm_state m)) acc = Inr side"
    by (auto simp: damm_swap_instruction_def Let_def rbind_Inr_iff)
  show thesis
    by (rule that [OF side])
      (use assms side in \<open>auto simp: damm_swap_instruction_def Let_def meta_new_def meta_readonly_def
        eval_nat_numeral\<close>)
qed

lemma damm_ix_errs: "errs (\<lambda>e. \<not> submitted e) (damm_swap_instruction sdk m acc amount min_out)"
  unfolding damm_swap_instruction_def Let_def by (intro errs_intros) simp_all

lemma damm_market_simps [simp]:
  "pm_mints (damm_pool_market sdk m) = (da_mint_a (dm_state m), da_mint_b (dm_state m))"
  "pm_quote (damm_pool_market sdk m) = damm_quote m"
  "pm_swap_instruction (damm_pool_market sdk m) = damm_swap_instruction sdk m"
  "pm_token_program (damm_pool_market sdk m) mint
     = map_option (\<lambda>a. if a then dm_token_program_a m else dm_token_program_b m) (damm_is_side_a m mint)"
  by (simp_all add: damm_pool_market_def Let_def)

interpretation damm: fee_bounded_market "damm_pool_market sdk" "\<lambda>_. damm_program_id sdk" "\<lambda>_. True" for sdk
proof (unfold_locales, goal_cases)
  case (1 s mint amount q)
  then show ?case by (auto elim: damm_quote_Inr)
next
  case (2 s mint amount q)
  then show ?case by (auto simp: damm_is_side_a_def side_of_Some elim!: damm_quote_Inr split: if_splits)
next
  case (9 s mint amount q)
  then show ?case by (auto elim: damm_quote_Inr)
next
  case (3 s mint amount e)
  then show ?case using errsD [OF damm_quote_errs] by simp
next
  case (4 s acc amount min_out ix)
  then show ?case by (auto simp: trades_def elim!: damm_ix dest!: swap_direction_Inr)
next
  case (5 s acc amount min_out ix)
  then show ?case by (auto elim: damm_ix)
next
  case (6 s acc amount min_out ix m)
  then show ?case by (auto elim: damm_ix)
next
  case (7 s acc amount min_out e)
  then show ?case using errsD [OF damm_ix_errs] by simp
next
  case (8 s mint)
  then show ?case by (simp add: damm_is_side_a_def)
qed

section \<open>The step is fair\<close>

lemma delta_b_Some:
  assumes "delta_b lower upper liquidity = Some out"
  shows "unat lower \<le> unat upper \<and> unat out * 2 ^ 128 \<le> unat liquidity * (unat upper - unat lower)"
proof -
  have le: "lower \<le> upper" using assms by (auto simp: delta_b_def res_simps)
  let ?n = "unat liquidity * (unat upper - unat lower)"
  have "unat (push_bit 64 1 :: u128) = 2 ^ 64" by (simp add: unat_push_bit)
  then have "unat out = ?n div 2 ^ 64 div 2 ^ 64"
    using assms le
    by (auto simp: delta_b_def res_simps mul_div_floor_Some unat_drop_bit unat_sub_exact)
  then have "unat out * 2 ^ 128 = ?n div 2 ^ 64 div 2 ^ 64 * (2 ^ 64 * 2 ^ 64)" by simp
  also have "\<dots> \<le> ?n" by (rule two_divs_le)
  finally show ?thesis using le by (simp add: word_le_nat_alt)
qed

lemma delta_a_Some:
  assumes "delta_a lower upper liquidity = Some out"
  shows "unat lower \<le> unat upper
     \<and> unat out * (unat lower * unat upper) \<le> unat liquidity * (unat upper - unat lower)"
proof -
  have le: "lower \<le> upper" using assms by (auto simp: delta_a_def res_simps)
  let ?n = "unat liquidity * (unat upper - unat lower)"
  have "unat out = ?n div unat upper div unat lower"
    using assms le by (auto simp: delta_a_def res_simps mul_div_floor_Some unat_sub_exact unat_div)
  then show ?thesis using le two_divs_le [of ?n "unat upper" "unat lower"] by (simp add: word_le_nat_alt)
qed

lemma damm_step_fall:
  assumes "damm_step m True amount = Inr (p', out)"
  shows "fair_move True (unat (da_liquidity (dm_state m))) (unat (da_sqrt_price (dm_state m))) (unat p')
           (unat amount) (unat out)
     \<and> da_sqrt_min_price (dm_state m) \<le> p' \<and> p' \<le> da_sqrt_price (dm_state m)"
proof -
  let ?L = "da_liquidity (dm_state m)" and ?p = "da_sqrt_price (dm_state m)"
  obtain raw where L: "?L \<noteq> 0" and lt: "unat amount * unat ?p < 2 ^ 128"
    "unat ?L + unat amount * unat ?p < 2 ^ 128"
    and p': "mul_div_ceil ?L ?p (?L + ucast amount * ?p) = Some p'" "da_sqrt_min_price (dm_state m) \<le> p'"
    and raw: "delta_b p' ?p ?L = Some raw" "out = ucast (min raw (ucast (- 1 :: u64)))"
    using assms
    by (auto simp: damm_step_def Let_def res_simps unat_mul_exact not_less split: if_splits)
  have den: "unat (?L + ucast amount * ?p) = unat ?L + unat amount * unat ?p"
    using lt by (subst unat_add_exact) (simp_all add: unat_mul_exact)
  have q: "unat p' = cdiv (unat ?L * unat ?p) (unat ?L + unat amount * unat ?p)"
    using p'(1) by (simp only: mul_div_ceil_Some den)
  have pos: "0 < unat ?L" using L by (simp add: unat_gt_0)
  have "unat ?L * (unat ?p - unat p') \<le> unat amount * (unat ?p * unat p')"
    unfolding q by (rule fall_price_pays) (use pos in simp)
  moreover have "unat raw * 2 ^ 128 \<le> unat ?L * (unat ?p - unat p')" and "unat p' \<le> unat ?p"
    using delta_b_Some [OF raw(1)] by simp_all
  ultimately have "fair_move True (unat ?L) (unat ?p) (unat p') (unat amount) (unat raw)"
    by (simp add: fair_move_def)
  then have "fair_move True (unat ?L) (unat ?p) (unat p') (unat amount) (unat out)"
    by (rule fair_move_output_le) (simp add: raw(2) unat_cap_u64)
  with p'(2) \<open>unat p' \<le> unat ?p\<close> show ?thesis by (simp add: word_le_nat_alt)
qed

lemma damm_step_rise:
  assumes "damm_step m False amount = Inr (p', out)"
  shows "fair_move False (unat (da_liquidity (dm_state m))) (unat (da_sqrt_price (dm_state m))) (unat p')
           (unat amount) (unat out)
     \<and> p' \<le> da_sqrt_max_price (dm_state m) \<and> da_sqrt_price (dm_state m) \<le> p'"
proof -
  let ?L = "da_liquidity (dm_state m)" and ?p = "da_sqrt_price (dm_state m)"
  obtain delta raw where delta: "mul_div_floor (push_bit 64 (ucast amount)) (push_bit 64 1) ?L = Some delta"
    and p': "unat ?p + unat delta < 2 ^ 128" "p' = ?p + delta" "p' \<le> da_sqrt_max_price (dm_state m)"
    and raw: "delta_a ?p p' ?L = Some raw" "out = ucast (min raw (ucast (- 1 :: u64)))"
    using assms by (auto simp: damm_step_def Let_def res_simps not_less split: if_splits)
  have shift: "unat (push_bit 64 (ucast amount) :: u128) = unat amount * 2 ^ 64"
    using unat_u64_lt [of amount] by (simp add: unat_push_bit)
  have "unat (push_bit 64 (1 :: u128)) = 2 ^ 64" by (simp add: unat_push_bit)
  then have d: "unat delta = unat amount * 2 ^ 128 div unat ?L"
    using delta by (simp add: mul_div_floor_Some shift mult.commute)
  have q: "unat p' = unat ?p + unat delta" using p'(1,2) by (simp add: unat_add_exact)
  have "unat ?L * (unat p' - unat ?p) \<le> unat amount * 2 ^ 128"
    by (simp only: q d add_diff_cancel_left') (rule rise_price_pays)
  moreover have "unat raw * (unat ?p * unat p') \<le> unat ?L * (unat p' - unat ?p)" and "unat ?p \<le> unat p'"
    using delta_a_Some [OF raw(1)] by simp_all
  ultimately have "fair_move False (unat ?L) (unat ?p) (unat p') (unat amount) (unat raw)"
    by (simp add: fair_move_def)
  then have "fair_move False (unat ?L) (unat ?p) (unat p') (unat amount) (unat out)"
    by (rule fair_move_output_le) (simp add: raw(2) unat_cap_u64)
  with p'(3) \<open>unat ?p \<le> unat p'\<close> show ?thesis by (simp add: word_le_nat_alt)
qed

section \<open>The fee schedulers\<close>

lemma exponent_loop_le:
  assumes "unat result \<le> 2 ^ 64"
  shows "unat (exponent_loop result base exponent) \<le> 2 ^ 64"
  using assms
proof (induction result base exponent rule: exponent_loop.induct)
  case (1 result base exponent)
  have shifted: "unat (drop_bit 64 (x :: u128)) \<le> 2 ^ 64" for x
    using unat_u128_lt [of x] by (simp add: unat_drop_bit)
  show ?case
    by (subst exponent_loop.simps) (use 1 shifted in \<open>simp add: Let_def\<close>)
qed

lemma exponential_reduction_le: "exponential_reduction cliff r n \<le> cliff"
proof -
  have one: "unat (push_bit 64 (1 :: u128)) = 2 ^ 64" by (simp add: unat_push_bit)
  have "unat (ucast (min (drop_bit 64 (ucast cliff * e)) (ucast (- 1 :: u64))) :: u64) \<le> unat cliff"
    if e: "unat e \<le> 2 ^ 64" for e :: u128
  proof -
    have "unat (ucast cliff * e) \<le> unat (ucast cliff :: u128) * unat e"
      by (simp only: unat_word_ariths mod_less_eq_dividend)
    also have "\<dots> \<le> unat cliff * 2 ^ 64"
      using e by (simp only: unat_widen mult_le_mono2)
    finally have "unat (ucast cliff * e) div 2 ^ 64 \<le> unat cliff * 2 ^ 64 div 2 ^ 64"
      by (rule div_le_mono)
    then have "unat (drop_bit 64 (ucast cliff * e)) \<le> unat cliff"
      by (simp only: unat_drop_bit nonzero_mult_div_cancel_right power_not_zero zero_neq_numeral not_False_eq_True)
    then show ?thesis by (simp only: unat_cap_u64 min.coboundedI1)
  qed
  from this [OF exponent_loop_le [of "push_bit 64 1", unfolded one]] show ?thesis
    by (simp only: exponential_reduction_def Let_def word_le_nat_alt) simp
qed

subsection \<open>The rate limiter\<close>

text \<open>The reference: every unit of the input pays the rate of its own block, one increment per block
  above the cliff, capped at the ceiling.\<close>

definition unit_rate :: "nat \<Rightarrow> nat \<Rightarrow> nat \<Rightarrow> nat \<Rightarrow> nat \<Rightarrow> nat" where
  "unit_rate c i most x0 u = min (c + i * (u div x0)) most"

definition limiter_ceiling :: "u32 \<Rightarrow> nat" where
  "limiter_ceiling max_fee_bps = min (unat max_fee_bps * 100000) 500000000"

lemma sum_blocks:
  fixes f :: "nat \<Rightarrow> nat"
  assumes "0 < x0" and "r \<le> x0"
  shows "(\<Sum>u < n * x0 + r. f (u div x0)) = x0 * (\<Sum>k < n. f k) + r * f n"
proof -
  have whole: "(\<Sum>u < n * x0. f (u div x0)) = x0 * (\<Sum>k < n. f k)" for n
  proof (induction n)
    case (Suc n)
    have "(\<Sum>u = n * x0 ..< n * x0 + x0. f (u div x0)) = (\<Sum>u = n * x0 ..< n * x0 + x0. f n)"
    proof (rule sum.cong)
      fix u assume "u \<in> {n * x0 ..< n * x0 + x0}"
      then have "u div x0 = n" by (intro div_nat_eqI) (auto simp: mult.commute)
      then show "f (u div x0) = f n" by simp
    qed simp
    then have "(\<Sum>u = n * x0 ..< n * x0 + x0. f (u div x0)) = x0 * f n" by simp
    moreover have "(\<Sum>u < n * x0 + x0. f (u div x0))
        = (\<Sum>u < n * x0. f (u div x0)) + (\<Sum>u = n * x0 ..< n * x0 + x0. f (u div x0))"
      by (simp add: lessThan_atLeast0 sum.atLeastLessThan_concat)
    ultimately show ?case using Suc by (simp add: add.commute distrib_left)
  qed simp
  have "(\<Sum>u = n * x0 ..< n * x0 + r. f (u div x0)) = (\<Sum>u = n * x0 ..< n * x0 + r. f n)"
  proof (rule sum.cong)
    fix u assume "u \<in> {n * x0 ..< n * x0 + r}"
    then have "u div x0 = n" using assms by (intro div_nat_eqI) (auto simp: mult.commute)
    then show "f (u div x0) = f n" by simp
  qed simp
  then have "(\<Sum>u = n * x0 ..< n * x0 + r. f (u div x0)) = r * f n" by simp
  moreover have "(\<Sum>u < n * x0 + r. f (u div x0))
      = (\<Sum>u < n * x0. f (u div x0)) + (\<Sum>u = n * x0 ..< n * x0 + r. f (u div x0))"
    by (simp add: lessThan_atLeast0 sum.atLeastLessThan_concat)
  ultimately show ?thesis by (simp add: whole)
qed

lemma sum_rates:
  fixes c i :: nat
  shows "(\<Sum>k < Suc n. c + i * k) = c + c * n + i * n * (n + 1) div 2"
proof -
  have "(\<Sum>k < Suc n. k) = n * (n + 1) div 2"
    by (simp only: lessThan_Suc_atMost atMost_atLeast0 gauss_sum_nat) simp
  then have "(\<Sum>k < Suc n. c + i * k) = c + c * n + i * (n * (n + 1) div 2)"
    by (simp add: sum.distrib sum_distrib_left [symmetric] del: sum.lessThan_Suc)
  also have "i * (n * (n + 1) div 2) = i * (n * (n + 1)) div 2"
    by (rule div_mult_swap) simp
  finally show ?thesis by (simp only: mult.assoc)
qed

lemma sum_unit_rates:
  assumes "0 < x0" and "r \<le> x0" and "0 < i" and "c < most"
  defines "mi \<equiv> (most - c) div i"
  shows "(\<Sum>u < (b + 1) * x0 + r. unit_rate c i most x0 u) =
     (if b < mi then x0 * (c + c * b + i * b * (b + 1) div 2) + r * (c + i * (b + 1))
      else x0 * (c + c * mi + i * mi * (mi + 1) div 2) + ((b - mi) * x0 + r) * most)"
proof -
  let ?f = "\<lambda>k. min (c + i * k) most"
  have low: "?f k = c + i * k" if "k \<le> mi" for k
  proof -
    have "k * i \<le> most - c" using that assms(3) by (simp add: mi_def less_eq_div_iff_mult_less_eq)
    then show ?thesis using assms(4) by (simp add: mult.commute)
  qed
  have high: "?f k = most" if "mi < k" for k
  proof -
    have "most - c < k * i" using that assms(3) by (simp add: mi_def div_less_iff_less_mult)
    then show ?thesis by (simp add: mult.commute)
  qed
  have total: "(\<Sum>u < (b + 1) * x0 + r. unit_rate c i most x0 u) = x0 * (\<Sum>k < b + 1. ?f k) + r * ?f (b + 1)"
    unfolding unit_rate_def by (rule sum_blocks [OF assms(1,2)])
  show ?thesis
  proof (cases "b < mi")
    case True
    have "(\<Sum>k < b + 1. ?f k) = (\<Sum>k < Suc b. c + i * k)"
      using True by (intro sum.cong) (auto simp: low)
    then show ?thesis using True low [of "b + 1"] unfolding total sum_rates by simp
  next
    case False
    have "(\<Sum>k < b + 1. ?f k) = (\<Sum>k < Suc mi. ?f k) + (\<Sum>k = Suc mi ..< b + 1. ?f k)"
      using False by (simp only: lessThan_atLeast0) (rule sum.atLeastLessThan_concat [symmetric]; simp)
    also have "(\<Sum>k < Suc mi. ?f k) = (\<Sum>k < Suc mi. c + i * k)"
      by (intro sum.cong) (auto simp: low)
    also have "(\<Sum>k = Suc mi ..< b + 1. ?f k) = (\<Sum>k = Suc mi ..< b + 1. most)"
      by (intro sum.cong) (auto simp: high)
    finally have "(\<Sum>k < b + 1. ?f k) = (c + c * mi + i * mi * (mi + 1) div 2) + (b - mi) * most"
      unfolding sum_rates by simp
    then have "(\<Sum>k < b + 1. ?f k) * x0 = (c + c * mi + i * mi * (mi + 1) div 2) * x0 + (b - mi) * x0 * most"
      by (simp add: distrib_right mult.assoc mult.commute [of most])
    then show ?thesis
      using False high [of "b + 1"] unfolding total by (simp add: distrib_right mult.commute [of x0])
  qed
qed

lemma limiter_words:
  "unat (min (ucast max_bps * FEE_DENOMINATOR div BASIS_POINT_MAX) MAX_FEE_NUMERATOR) = limiter_ceiling max_bps"
  "unat ((ucast (inc :: u16) :: u128) * ucast FEE_DENOMINATOR div ucast BASIS_POINT_MAX) = 100000 * unat inc"
proof -
  have "unat max_bps * 1000000000 < 2 ^ 64" using unat_u32_lt [of max_bps] by simp
  then show "unat (min (ucast max_bps * FEE_DENOMINATOR div BASIS_POINT_MAX) MAX_FEE_NUMERATOR)
      = limiter_ceiling max_bps"
    by (simp add: limiter_ceiling_def FEE_DENOMINATOR_def BASIS_POINT_MAX_def MAX_FEE_NUMERATOR_def
        unat_div unat_mul_exact)
  have "unat inc * 1000000000 < 2 ^ 128" using unat_u16_lt [of inc] by simp
  then show "unat ((ucast (inc :: u16) :: u128) * ucast FEE_DENOMINATOR div ucast BASIS_POINT_MAX) = 100000 * unat inc"
    by (simp add: FEE_DENOMINATOR_def BASIS_POINT_MAX_def unat_div unat_mul_exact)
qed

text \<open>The word computation of the code is exact: no intermediate leaves 128 bits.\<close>

lemma limiter_fee_words:
  fixes x0 c i b r most :: u128
  assumes "unat x0 < 2 ^ 64" and "unat c < unat most" and "unat most \<le> 500000000"
    and "100000 \<le> unat i" and "unat i \<le> 6553500000" and "unat r \<le> unat x0"
    and "(unat b + 1) * unat x0 + unat r < 2 ^ 64"
  defines "mi \<equiv> (most - c) div i"
  shows "unat (if b < mi then x0 * (c + c * b + i * b * (b + 1) div 2) + r * (c + i * (b + 1))
               else x0 * (c + c * mi + i * mi * (mi + 1) div 2) + ((b - mi) * x0 + r) * most)
    = (if unat b < (unat most - unat c) div unat i
       then unat x0 * (unat c + unat c * unat b + unat i * unat b * (unat b + 1) div 2)
            + unat r * (unat c + unat i * (unat b + 1))
       else unat x0 * (unat c + unat c * ((unat most - unat c) div unat i)
              + unat i * ((unat most - unat c) div unat i) * ((unat most - unat c) div unat i + 1) div 2)
            + ((unat b - (unat most - unat c) div unat i) * unat x0 + unat r) * unat most)"
proof -
  have mi: "unat mi = (unat most - unat c) div unat i"
    using assms(2) by (simp add: mi_def unat_div unat_sub_exact word_le_nat_alt)
  have mi_le: "unat mi \<le> 5000"
  proof -
    have "(unat most - unat c) div unat i \<le> 500000000 div 100000"
      using assms(3,4) by (intro order_trans [OF div_le_mono div_le_mono2]) auto
    then show ?thesis by (simp add: mi)
  qed
  have add: "unat (p + q) = unat p + unat q" if "unat p + unat q < 2 ^ 128" for p q :: u128
    using that by (simp add: unat_add_exact)
  have mul: "unat (p * q) = unat p * unat q" if "unat p \<le> m" "unat q \<le> n" "m * n < 2 ^ 128"
    for p q :: u128 and m n :: nat
    using mult_le_mono [OF that(1,2)] that(3) by (intro unat_mul_exact) simp
  have c: "unat c \<le> 500000000" using assms(2,3) by simp
  have x0: "unat x0 \<le> 2 ^ 64" and r: "unat r \<le> 2 ^ 64" using assms(1,6) by simp_all
  have tri: "unat (c + c * n + i * n * (n + 1) div 2)
      = unat c + unat c * unat n + unat i * unat n * (unat n + 1) div 2
      \<and> unat c + unat c * unat n + unat i * unat n * (unat n + 1) div 2 \<le> 2 ^ 58"
    if n: "unat n \<le> 5000" for n
  proof -
    have n1: "unat (n + 1) = unat n + 1" using n by (subst add) simp_all
    have cn: "unat (c * n) = unat c * unat n" by (rule mul [OF c n]) simp
    have in1: "unat (i * n) = unat i * unat n" by (rule mul [OF assms(5) n]) simp
    have in_le: "unat i * unat n \<le> 6553500000 * 5000" using assms(5) n by (rule mult_le_mono)
    have inn: "unat (i * n * (n + 1)) = unat i * unat n * (unat n + 1)"
      unfolding in1 [symmetric] n1 [symmetric]
      by (rule mul [where m = "6553500000 * 5000" and n = 5001]) (use in1 in_le n n1 in simp_all)
    have inn_le: "unat i * unat n * (unat n + 1) \<le> 6553500000 * 5000 * 5001"
      by (rule mult_le_mono [OF in_le]) (use n in simp)
    have half: "unat (i * n * (n + 1) div 2) = unat i * unat n * (unat n + 1) div 2"
      by (simp only: unat_div inn) simp
    have half_le: "unat i * unat n * (unat n + 1) div 2 \<le> 6553500000 * 5000 * 5001 div 2"
      using inn_le by (rule div_le_mono)
    have cn_le: "unat c * unat n \<le> 500000000 * 5000" using c n by (rule mult_le_mono)
    have cc: "unat (c + c * n) = unat c + unat c * unat n"
      using c cn cn_le by (subst add) simp_all
    have "unat (c + c * n + i * n * (n + 1) div 2) = unat (c + c * n) + unat (i * n * (n + 1) div 2)"
      using c cn_le half_le by (intro add) (simp add: cc half)
    then show ?thesis using c cn_le half_le by (simp add: cc half)
  qed
  show ?thesis
  proof (cases "b < mi")
    case True
    then have b: "unat b \<le> 5000" and b': "unat b < (unat most - unat c) div unat i"
      using mi mi_le by (simp_all add: word_less_nat_alt)
    have b1: "unat (b + 1) = unat b + 1" using b by (subst add) simp_all
    have ib: "unat (i * (b + 1)) = unat i * (unat b + 1)"
      unfolding b1 [symmetric] by (rule mul [OF assms(5), of _ 5001]) (use b b1 in simp_all)
    have ib_le: "unat i * (unat b + 1) \<le> 6553500000 * 5001" using assms(5) b by (intro mult_le_mono) simp_all
    have rate: "unat (c + i * (b + 1)) = unat c + unat i * (unat b + 1)"
      using c ib_le by (subst add) (simp_all add: ib)
    have whole: "unat (x0 * (c + c * b + i * b * (b + 1) div 2))
        = unat x0 * unat (c + c * b + i * b * (b + 1) div 2)"
      by (rule mul [OF x0, of _ "2 ^ 58"]) (use tri [OF b] in simp_all)
    have whole_le: "unat x0 * unat (c + c * b + i * b * (b + 1) div 2) \<le> 2 ^ 64 * 2 ^ 58"
      using x0 tri [OF b] by (intro mult_le_mono) simp_all
    have part: "unat (r * (c + i * (b + 1))) = unat r * unat (c + i * (b + 1))"
      by (rule mul [OF r, of _ "2 ^ 58"]) (use c ib_le rate in simp_all)
    have part_le: "unat r * unat (c + i * (b + 1)) \<le> 2 ^ 64 * 2 ^ 58"
      using r c ib_le rate by (intro mult_le_mono) simp_all
    have "unat (x0 * (c + c * b + i * b * (b + 1) div 2) + r * (c + i * (b + 1)))
        = unat x0 * unat (c + c * b + i * b * (b + 1) div 2) + unat r * unat (c + i * (b + 1))"
      using whole_le part_le by (subst add) (simp_all only: whole part, simp)
    then show ?thesis using True b' tri [OF b] rate by simp
  next
    case False
    then have le: "mi \<le> b" by simp
    then have b': "\<not> unat b < (unat most - unat c) div unat i"
      using mi by (simp add: word_le_nat_alt not_less)
    have bd: "unat (b - mi) = unat b - unat mi" by (rule unat_sub_exact [OF le])
    have bx_le: "(unat b - unat mi) * unat x0 + unat r < 2 ^ 64"
    proof -
      have "(unat b - unat mi) * unat x0 \<le> (unat b + 1) * unat x0" by (intro mult_le_mono1) simp
      then show ?thesis using assms(7) by linarith
    qed
    have bx: "unat ((b - mi) * x0) = (unat b - unat mi) * unat x0"
      unfolding bd [symmetric] by (rule unat_mul_exact) (use bx_le bd in simp)
    have beyond: "unat ((b - mi) * x0 + r) = (unat b - unat mi) * unat x0 + unat r"
      using bx_le by (subst add) (simp_all add: bx)
    have part: "unat (((b - mi) * x0 + r) * most) = unat ((b - mi) * x0 + r) * unat most"
      by (rule mul [of _ "2 ^ 64" _ 500000000]) (use bx_le beyond assms(3) in simp_all)
    have part_le: "unat ((b - mi) * x0 + r) * unat most \<le> 2 ^ 64 * 500000000"
      using bx_le beyond assms(3) by (intro mult_le_mono) simp_all
    have whole: "unat (x0 * (c + c * mi + i * mi * (mi + 1) div 2))
        = unat x0 * unat (c + c * mi + i * mi * (mi + 1) div 2)"
      by (rule mul [OF x0, of _ "2 ^ 58"]) (use tri [OF mi_le] in simp_all)
    have whole_le: "unat x0 * unat (c + c * mi + i * mi * (mi + 1) div 2) \<le> 2 ^ 64 * 2 ^ 58"
      using x0 tri [OF mi_le] by (intro mult_le_mono) simp_all
    have "unat (x0 * (c + c * mi + i * mi * (mi + 1) div 2) + ((b - mi) * x0 + r) * most)
        = unat x0 * unat (c + c * mi + i * mi * (mi + 1) div 2) + unat ((b - mi) * x0 + r) * unat most"
      using whole_le part_le by (subst add) (simp_all only: whole part, simp)
    then show ?thesis using False b' tri [OF mi_le] beyond by (simp add: mi)
  qed
qed

lemma limiter_reference:
  assumes "amount \<noteq> 0" and "reference_amount \<noteq> 0" and "fee_increment_bps \<noteq> 0"
    and "unat cliff < limiter_ceiling max_fee_bps"
  shows "unat (rate_limited_numerator amount cliff fee_increment_bps max_fee_bps reference_amount) =
    cdiv (\<Sum>u < unat amount. unit_rate (unat cliff) (100000 * unat fee_increment_bps)
            (limiter_ceiling max_fee_bps) (unat reference_amount) u) (unat amount)"
proof (cases "amount \<le> reference_amount")
  case True
  have N: "0 < unat amount" using assms(1) by (simp add: unat_gt_0)
  have "(\<Sum>u < unat amount. unit_rate (unat cliff) (100000 * unat fee_increment_bps)
            (limiter_ceiling max_fee_bps) (unat reference_amount) u) = (\<Sum>u < unat amount. unat cliff)"
    using True assms(4) by (intro sum.cong) (auto simp: unit_rate_def word_le_nat_alt)
  also have "cdiv \<dots> (unat amount) = unat cliff" using N by (simp add: cdiv_def)
  finally show ?thesis using True by (simp add: rate_limited_numerator_def)
next
  case False
  define x0 c :: u128 where "x0 = ucast reference_amount" and "c = ucast cliff"
  define i :: u128 where "i = ucast fee_increment_bps * ucast FEE_DENOMINATOR div ucast BASIS_POINT_MAX"
  define most64 where "most64 = min (ucast max_fee_bps * FEE_DENOMINATOR div BASIS_POINT_MAX) MAX_FEE_NUMERATOR"
  define most :: u128 where "most = ucast most64"
  define b r where "b = (ucast amount - x0) div x0" and "r = (ucast amount - x0) mod x0"
  define mi where "mi = (most - c) div i"
  define fee where "fee = (if b < mi then x0 * (c + c * b + i * b * (b + 1) div 2) + r * (c + i * (b + 1))
     else x0 * (c + c * mi + i * mi * (mi + 1) div 2) + ((b - mi) * x0 + r) * most)"
  let ?sum = "\<Sum>u < unat amount. unit_rate (unat cliff) (100000 * unat fee_increment_bps)
            (limiter_ceiling max_fee_bps) (unat reference_amount) u"
  have X: "0 < unat reference_amount" "unat x0 = unat reference_amount"
    using assms(2) by (simp_all add: unat_gt_0 x0_def)
  have gt: "unat reference_amount < unat amount" using False unfolding word_le_nat_alt by linarith
  have excess: "unat (ucast amount - x0) = unat amount - unat reference_amount"
    using gt by (simp add: unat_sub_exact word_le_nat_alt x0_def)
  have r: "unat r < unat reference_amount" using X by (simp add: r_def unat_mod excess)
  have N: "(unat b + 1) * unat reference_amount + unat r = unat amount"
    using gt by (simp add: b_def r_def unat_div unat_mod excess X)
  have i: "unat i = 100000 * unat fee_increment_bps" unfolding i_def by (rule limiter_words)
  have most64: "unat most64 = limiter_ceiling max_fee_bps" unfolding most64_def by (rule limiter_words)
  then have most: "unat most = limiter_ceiling max_fee_bps" by (simp add: most_def)
  have c: "unat c = unat cliff" by (simp add: c_def)
  have inc: "1 \<le> unat fee_increment_bps"
    using assms(3) unat_gt_0 [of fee_increment_bps] by linarith
  have cap: "limiter_ceiling max_fee_bps \<le> 500000000" by (simp add: limiter_ceiling_def)
  have "unat fee = (if unat b < (unat most - unat c) div unat i
       then unat x0 * (unat c + unat c * unat b + unat i * unat b * (unat b + 1) div 2)
            + unat r * (unat c + unat i * (unat b + 1))
       else unat x0 * (unat c + unat c * ((unat most - unat c) div unat i)
              + unat i * ((unat most - unat c) div unat i) * ((unat most - unat c) div unat i + 1) div 2)
            + ((unat b - (unat most - unat c) div unat i) * unat x0 + unat r) * unat most)"
    unfolding fee_def mi_def
  proof (rule limiter_fee_words)
    show "unat x0 < 2 ^ 64" using unat_u64_lt [of reference_amount] by (simp add: X)
    show "unat c < unat most" "unat most \<le> 500000000" using assms(4) cap by (simp_all only: c most)
    show "100000 \<le> unat i" "unat i \<le> 6553500000" using inc unat_u16_lt [of fee_increment_bps] by (simp_all add: i)
    show "unat r \<le> unat x0" using r by (simp add: X)
    show "(unat b + 1) * unat x0 + unat r < 2 ^ 64" using N unat_u64_lt [of amount] by (simp add: X)
  qed
  also have "\<dots> = ?sum"
    unfolding N [symmetric] c most i X(2)
    by (rule sum_unit_rates [symmetric]) (use X r inc assms(4) in simp_all)
  finally have fee: "unat fee = ?sum" .
  have "?sum \<le> limiter_ceiling max_fee_bps * unat amount"
    using sum_bounded_above [of "{..< unat amount}" "unit_rate (unat cliff) (100000 * unat fee_increment_bps)
            (limiter_ceiling max_fee_bps) (unat reference_amount)" "limiter_ceiling max_fee_bps"]
    by (simp add: unit_rate_def mult.commute)
  then have avg: "cdiv ?sum (unat amount) \<le> limiter_ceiling max_fee_bps"
    using gt by (subst cdiv_le_iff) simp_all
  have nz: "i \<noteq> 0" "\<not> most64 \<le> cliff"
    using i inc most64 assms(4) by (auto simp: word_le_nat_alt)
  have "rate_limited_numerator amount cliff fee_increment_bps max_fee_bps reference_amount
      = ucast (min (div_ceil fee (ucast amount)) most)"
    using False nz
    by (simp add: rate_limited_numerator_def Let_def fee_def mi_def b_def r_def x0_def c_def i_def most_def
        most64_def)
  moreover have "unat (div_ceil fee (ucast amount)) = cdiv ?sum (unat amount)"
    using gt by (subst unat_div_ceil) (auto simp: fee simp flip: unat_gt_0)
  ultimately show ?thesis using avg cap by (simp add: unat_narrow most)
qed

section \<open>The point a scheduler measures against\<close>

lemma scheduler_antitone:
  assumes "p \<le> p'"
  shows "base_fee_numerator (TimeScheduler cliff periods freq reduction True) amount p' act dir
    \<le> base_fee_numerator (TimeScheduler cliff periods freq reduction True) amount p act dir"
proof -
  have "unat (saturating_sub p act) div unat freq \<le> unat (saturating_sub p' act) div unat freq"
    using assms by (intro div_le_mono) (simp add: word_le_nat_alt)
  then have "min (unat (saturating_sub p act) div unat freq) (unat periods)
      \<le> min (unat (saturating_sub p' act) div unat freq) (unat periods)" by simp
  then have "unat reduction * min (unat (saturating_sub p act) div unat freq) (unat periods)
      \<le> unat reduction * min (unat (saturating_sub p' act) div unat freq) (unat periods)"
    by (rule mult_le_mono2)
  then show ?thesis
    by (auto simp: Let_def word_le_nat_alt unat_saturating_mul unat_div intro!: diff_le_mono2 min.mono)
qed

lemma limiter_ge_cliff:
  assumes "reference \<noteq> 0"
  shows "cliff \<le> rate_limited_numerator amount cliff inc max_bps reference"
proof (cases "inc = 0 \<or> amount \<le> reference \<or> limiter_ceiling max_bps \<le> unat cliff")
  case True
  then show ?thesis using limiter_words(1) [of max_bps]
    by (auto simp: rate_limited_numerator_def Let_def word_le_nat_alt)
next
  case False
  then have c: "unat cliff < limiter_ceiling max_bps" "inc \<noteq> 0" by auto
  have N: "amount \<noteq> 0" "0 < unat amount" using False by (auto simp: unat_gt_0)
  let ?rate = "unit_rate (unat cliff) (100000 * unat inc) (limiter_ceiling max_bps) (unat reference)"
  have "unat cliff * unat amount \<le> (\<Sum>u < unat amount. ?rate u)"
    using sum_bounded_below [of "{..< unat amount}" "unat cliff" ?rate] c(1)
    by (simp add: unit_rate_def mult.commute)
  then have "unat cliff \<le> (\<Sum>u < unat amount. ?rate u) div unat amount"
    using N(2) by (simp add: less_eq_div_iff_mult_less_eq)
  then have "unat cliff \<le> unat (rate_limited_numerator amount cliff inc max_bps reference)"
    unfolding limiter_reference [OF N(1) assms c(2,1)] using div_le_cdiv order_trans by blast
  then show ?thesis by (simp add: word_le_nat_alt)
qed

section \<open>A concrete pool\<close>

definition sample_damm :: damm_market where
  "sample_damm = \<lparr>
     dm_state = \<lparr>da_pool = Pubkey [3], da_base_fee = RateLimiter 10000000 10 1000 5000 1000000,
       da_dynamic_fee = \<lparr>df_initialized = False, df_variable_fee_control = 0, df_bin_step = 0,
         df_volatility_accumulator = 0\<rparr>,
       da_collect_fee_mode = 1, da_compounding_fee_bps = 0, da_mint_a = Pubkey [1],
       da_mint_b = Pubkey [2], da_vault_a = Pubkey [11], da_vault_b = Pubkey [12],
       da_liquidity = 2 ^ 100, da_protocol_fee_a = 0, da_protocol_fee_b = 0, da_sqrt_min_price = 1,
       da_sqrt_max_price = 2 ^ 96, da_sqrt_price = 2 ^ 64, da_activation_point = 0,
       da_activation_type = 0, da_pool_status = 0\<rparr>,
     dm_token_program_a = Pubkey [6], dm_token_program_b = Pubkey [6], dm_decimals_a = 9, dm_decimals_b = 6,
     dm_vault_a_balance = 1000000000000, dm_vault_b_balance = 1000000000000, dm_transfer_fee_a = None,
     dm_transfer_fee_b = None, dm_current_point = 5\<rparr>"

section \<open>Properties\<close>

text \<open>C11: a DAMM v2 step never beats the pool. An accepted step keeps the price inside the pool's band,
  moves it only in the direction of the trade, takes at least the exact input of that move and pays at
  most its exact output; so the output never exceeds what the constant-product curve on the virtual
  reserves of the liquidity would pay for the whole input.\<close>

theorem damm_step_fair:
  assumes "damm_step m side amount = Inr (p', out)"
  shows "fair_move side (unat (da_liquidity (dm_state m))) (unat (da_sqrt_price (dm_state m))) (unat p')
           (unat amount) (unat out)
     \<and> (if side
        then da_sqrt_min_price (dm_state m) \<le> p' \<and> p' \<le> da_sqrt_price (dm_state m)
          \<and> unat out * 2 ^ 128 * (unat (da_liquidity (dm_state m)) + unat amount * unat (da_sqrt_price (dm_state m)))
            \<le> unat (da_liquidity (dm_state m)) * unat (da_sqrt_price (dm_state m))
                * (unat amount * unat (da_sqrt_price (dm_state m)))
        else p' \<le> da_sqrt_max_price (dm_state m) \<and> da_sqrt_price (dm_state m) \<le> p'
          \<and> unat out * unat (da_sqrt_price (dm_state m))
              * (unat (da_liquidity (dm_state m)) * unat (da_sqrt_price (dm_state m)) + unat amount * 2 ^ 128)
            \<le> unat (da_liquidity (dm_state m)) * (unat amount * 2 ^ 128))"
proof (cases side)
  case True
  with damm_step_fall [of m amount p' out] assms show ?thesis by (auto dest: fair_fall_product)
next
  case False
  have p: "0 < unat (da_sqrt_price (dm_state m))"
    using assms by (auto simp: damm_step_def Let_def unat_gt_0 split: if_splits)
  from False damm_step_rise [of m amount p' out] assms
  have rise: "fair_move False (unat (da_liquidity (dm_state m))) (unat (da_sqrt_price (dm_state m))) (unat p')
           (unat amount) (unat out)" "p' \<le> da_sqrt_max_price (dm_state m)" "da_sqrt_price (dm_state m) \<le> p'"
    by simp_all
  moreover have "0 < unat p'" using p rise(3) by (simp add: word_le_nat_alt)
  ultimately show ?thesis using False p fair_rise_product by simp
qed

theorem damm_step_fair_witness:
  "\<exists>p' out. damm_step sample_damm False 1000000000 = Inr (p', out)
     \<and> da_sqrt_price (dm_state sample_damm) \<le> p'
     \<and> unat out * (2 ^ 164 + 1000000000 * 2 ^ 128) \<le> 2 ^ 100 * (1000000000 * 2 ^ 64)"
proof -
  let ?delta = "268435456000000000 :: u128" and ?p' = "18715179529709551616 :: u128"
  have "mul_div_floor (push_bit 64 1000000000) (push_bit 64 1) 1267650600228229401496703205376 = Some ?delta"
    by (simp add: mul_div_floor_Some unat_push_bit)
  moreover have "mul_div_floor 1267650600228229401496703205376 ?delta ?p' \<noteq> None"
    by (simp add: mul_div_floor_None)
  ultimately have "is_ok (damm_step sample_damm False 1000000000)"
    by (auto simp: damm_step_def sample_damm_def Let_def checked_add_def checked_sub_def delta_a_def)
  then obtain r where "damm_step sample_damm False 1000000000 = Inr r" by (auto simp: is_ok_iff)
  then obtain p' out where step: "damm_step sample_damm False 1000000000 = Inr (p', out)" by (cases r) auto
  have "da_liquidity (dm_state sample_damm) = 2 ^ 100" "da_sqrt_price (dm_state sample_damm) = 2 ^ 64"
    by (simp_all add: sample_damm_def)
  with damm_step_fair [OF step] step show ?thesis by simp
qed

text \<open>The rate limiter's closed form is the per-unit fee. Charging every unit of the input the rate
  of its own block, one increment per block above the cliff and never above the ceiling, and averaging
  the total over the input with the division rounded up, gives exactly the numerator the code computes,
  with no intermediate leaving 128 bits.\<close>

theorem rate_limiter_is_per_unit:
  assumes "amount \<noteq> 0" and "reference_amount \<noteq> 0" and "fee_increment_bps \<noteq> 0"
    and "unat cliff < limiter_ceiling max_fee_bps"
    and "current_point < saturating_add activation_point (ucast duration)"
  shows "unat (base_fee_numerator (RateLimiter cliff fee_increment_bps duration max_fee_bps reference_amount)
            amount current_point activation_point True) =
    cdiv (\<Sum>u < unat amount. unit_rate (unat cliff) (100000 * unat fee_increment_bps)
            (limiter_ceiling max_fee_bps) (unat reference_amount) u) (unat amount)"
  using assms limiter_reference [OF assms(1-4)] by simp

theorem rate_limiter_is_per_unit_witness:
  "unat (base_fee_numerator (RateLimiter 10000000 10 1000 5000 1000000) 1 5 0 True) = 10000000"
  using rate_limiter_is_per_unit [of 1 1000000 10 10000000 5000 5 0 1000]
  by (simp add: limiter_ceiling_def unit_rate_def cdiv_def saturating_add_def)

text \<open>When the slot cannot be read the venue quotes at the cheapest fee, not the dearest. The loader
  then measures a slot-activated pool at the last possible slot: a linear scheduler has run its whole
  course, and a rate limiter's window is over, so the base fee is at most, and for the limiter never
  above the cliff, what any slot the node could have reported would charge; the quote can over-state
  the output.\<close>

theorem blind_slot_is_cheapest:
  assumes "da_activation_type state = ACTIVATION_TYPE_SLOT"
    and "(\<exists>cliff periods freq reduction. fee = TimeScheduler cliff periods freq reduction True)
       \<or> (\<exists>cliff inc duration max_bps reference. fee = RateLimiter cliff inc duration max_bps reference)"
  shows "base_fee_numerator fee amount (damm_current_point (Inl e) now_unix state) activation_point b_to_a
     \<le> base_fee_numerator fee amount (damm_current_point (Inr slot) now_unix state) activation_point b_to_a"
proof -
  have blind: "damm_current_point (Inl e) now_unix state = - 1" "damm_current_point (Inr slot) now_unix state = slot"
    using assms(1) by (simp_all add: damm_current_point_def)
  have over: "\<not> (- 1 :: u64) < x" for x by (simp add: not_less)
  from assms(2) show ?thesis
    unfolding blind by (auto simp: scheduler_antitone over limiter_ge_cliff Let_def simp del: base_fee_numerator.simps(2))
qed

theorem blind_slot_is_cheapest_witness:
  "base_fee_numerator (TimeScheduler 500000000 100 10 4000000 True) 1000
       (damm_current_point (Inl ''timeout'') 0 (dm_state sample_damm)) 0 True
     \<le> base_fee_numerator (TimeScheduler 500000000 100 10 4000000 True) 1000
       (damm_current_point (Inr 25) 0 (dm_state sample_damm)) 0 True"
  by (rule blind_slot_is_cheapest) (simp_all add: sample_damm_def ACTIVATION_TYPE_SLOT_def)

text \<open>An exponential scheduler that reduces by nothing charges nothing in its odd periods. With a
  zero reduction factor the ratio is exactly one, its square leaves 128 bits and wraps to zero, and the
  product with it: after an odd number of periods the fee is zero instead of the cliff.\<close>

theorem zero_reduction_is_free:
  "exponential_reduction cliff 0 period = (if odd (unat period) then 0 else cliff)"
proof -
  have one: "push_bit 64 (1 :: u128) * push_bit 64 1 = 0" by (simp add: push_bit_eq_mult)
  have ratio: "push_bit 64 (1 :: u128) * ucast (BASIS_POINT_MAX - 0) div ucast BASIS_POINT_MAX = push_bit 64 1"
    by (simp add: BASIS_POINT_MAX_def push_bit_eq_mult)
  have odd: "period AND 1 = 1 \<longleftrightarrow> odd (unat period)"
    by (simp add: and_one_eq word_unat_eq_iff unat_mod odd_iff_mod_2_eq_one)
  have loop: "exponent_loop (push_bit 64 1) (push_bit 64 1) period = (if odd (unat period) then 0 else push_bit 64 1)"
    by (subst exponent_loop.simps) (simp add: Let_def one odd)
  have cliff: "ucast (min (drop_bit 64 (ucast cliff * push_bit 64 (1 :: u128))) (ucast (- 1 :: u64))) = cliff"
  proof -
    have "unat (ucast cliff * push_bit 64 (1 :: u128)) = unat cliff * 2 ^ 64"
      using unat_u64_lt [of cliff] by (subst unat_mul_exact) (simp_all add: unat_push_bit)
    then have "unat (drop_bit 64 (ucast cliff * push_bit 64 (1 :: u128))) = unat cliff"
      by (simp add: unat_drop_bit)
    then show ?thesis using unat_u64_lt [of cliff] by (simp only: word_unat_eq_iff unat_cap_u64) simp
  qed
  show ?thesis
    unfolding exponential_reduction_def Let_def ratio loop using cliff by (simp add: BASIS_POINT_MAX_def)
qed

end
