(* ===== verification/Meteora_Dbc.thy ===== *)
theory Meteora_Dbc
  imports Double_Step
begin

text \<open>
  \<^verbatim>\<open>venues/meteora_dbc.rs\<close>: the Meteora dynamic bonding curve. The curve is a list of price
  boundaries with a constant liquidity between neighbours; a quote walks the segments from the
  current price and refuses once it would leave them.
\<close>

definition DBC_SWAP :: bytes where
  "DBC_SWAP = [248, 198, 158, 145, 225, 117, 135, 200]"

definition DBC_POOL_AUTHORITY :: string where
  "DBC_POOL_AUTHORITY = ''FhVo3mqL8PW5pH5U2CN4XE33DokiyZnUwuGpH2hmHLuM''"

definition DBC_EVENT_AUTHORITY_SEED :: bytes where
  "DBC_EVENT_AUTHORITY_SEED = map (of_nat \<circ> of_char) ''__event_authority''"

definition VIRTUAL_POOL_DISCRIMINATOR :: bytes where
  "VIRTUAL_POOL_DISCRIMINATOR = [213, 224, 5, 209, 98, 69, 119, 92]"

definition POOL_CONFIG_DISCRIMINATOR :: bytes where
  "POOL_CONFIG_DISCRIMINATOR = [26, 108, 14, 123, 116, 230, 129, 43]"

definition DBC_FEE_DENOMINATOR :: u64 where "DBC_FEE_DENOMINATOR = 1000000000"
definition COLLECT_FEE_QUOTE_TOKEN :: u8 where "COLLECT_FEE_QUOTE_TOKEN = 0"
definition COLLECT_FEE_OUTPUT_TOKEN :: u8 where "COLLECT_FEE_OUTPUT_TOKEN = 1"
definition MAX_CURVE_POINTS :: nat where "MAX_CURVE_POINTS = 20"
definition DBC_COMPUTE_UNITS :: u32 where "DBC_COMPUTE_UNITS = 130000"

definition dbc_program_id :: "sdk \<Rightarrow> pubkey" where
  "dbc_program_id sdk = from_str sdk METEORA_DBC_PROGRAM_ID"

definition dbc_pool_authority :: "sdk \<Rightarrow> pubkey" where
  "dbc_pool_authority sdk = from_str sdk DBC_POOL_AUTHORITY"

definition dbc_event_authority :: "sdk \<Rightarrow> pubkey" where
  "dbc_event_authority sdk = find_program_address sdk [DBC_EVENT_AUTHORITY_SEED] (dbc_program_id sdk)"

section \<open>Accounts\<close>

record virtual_pool_state =
  vp_pool :: pubkey
  vp_config :: pubkey
  vp_base_mint :: pubkey
  vp_base_vault :: pubkey
  vp_quote_vault :: pubkey
  vp_sqrt_price :: u128
  vp_is_migrated :: bool

definition virtual_pool_decode :: "pubkey \<Rightarrow> bytes \<Rightarrow> virtual_pool_state option" where
  "virtual_pool_decode pool data =
     (if length data < 306 \<or> take 8 data \<noteq> VIRTUAL_POOL_DISCRIMINATOR then None
      else do {
        config \<leftarrow> pubkey_at data 72;
        base_mint \<leftarrow> pubkey_at data 136;
        base_vault \<leftarrow> pubkey_at data 168;
        quote_vault \<leftarrow> pubkey_at data 200;
        sqrt_price \<leftarrow> u128_at data 280;
        migrated \<leftarrow> u8_at data 305;
        Some \<lparr>vp_pool = pool, vp_config = config, vp_base_mint = base_mint, vp_base_vault = base_vault,
          vp_quote_vault = quote_vault, vp_sqrt_price = sqrt_price, vp_is_migrated = (migrated \<noteq> 0)\<rparr>
      })"

record curve_point =
  pt_sqrt_price :: u128
  pt_liquidity :: u128

record pool_config_state =
  pc_quote_mint :: pubkey
  pc_cliff_fee_numerator :: u64
  pc_second_factor :: u64
  pc_third_factor :: u64
  pc_first_factor :: u16
  pc_base_fee_mode :: u8
  pc_dynamic_fee_initialized :: bool
  pc_collect_fee_mode :: u8
  pc_sqrt_start_price :: u128
  pc_curve :: "curve_point list"

text \<open>The checkpoints from an index on, up to the first empty one.\<close>

fun read_curve :: "bytes \<Rightarrow> nat \<Rightarrow> nat \<Rightarrow> curve_point list option" where
  "read_curve data offset 0 = Some []"
| "read_curve data offset (Suc n) = do {
     sqrt_price \<leftarrow> u128_at data offset;
     liquidity \<leftarrow> u128_at data (offset + 16);
     if sqrt_price = 0 then Some []
     else do {
       rest \<leftarrow> read_curve data (offset + 32) n;
       Some (\<lparr>pt_sqrt_price = sqrt_price, pt_liquidity = liquidity\<rparr> # rest)
     }
   }"

definition pool_config_decode :: "bytes \<Rightarrow> pool_config_state option" where
  "pool_config_decode data =
     (if length data < 1048 \<or> take 8 data \<noteq> POOL_CONFIG_DISCRIMINATOR then None
      else do {
        curve \<leftarrow> read_curve data 408 MAX_CURVE_POINTS;
        quote_mint \<leftarrow> pubkey_at data 8;
        cliff_fee_numerator \<leftarrow> u64_at data 104;
        second_factor \<leftarrow> u64_at data 112;
        third_factor \<leftarrow> u64_at data 120;
        first_factor \<leftarrow> u16_at data 128;
        base_fee_mode \<leftarrow> u8_at data 130;
        dynamic \<leftarrow> u8_at data 136;
        collect_fee_mode \<leftarrow> u8_at data 232;
        sqrt_start_price \<leftarrow> u128_at data 392;
        Some \<lparr>pc_quote_mint = quote_mint, pc_cliff_fee_numerator = cliff_fee_numerator,
          pc_second_factor = second_factor, pc_third_factor = third_factor,
          pc_first_factor = first_factor, pc_base_fee_mode = base_fee_mode,
          pc_dynamic_fee_initialized = (dynamic \<noteq> 0), pc_collect_fee_mode = collect_fee_mode,
          pc_sqrt_start_price = sqrt_start_price, pc_curve = curve\<rparr>
      })"

definition scheduler_active :: "pool_config_state \<Rightarrow> bool" where
  "scheduler_active c \<longleftrightarrow> pc_second_factor c \<noteq> 0 \<or> pc_third_factor c \<noteq> 0 \<or> pc_first_factor c \<noteq> 0"

definition curve_points :: "pool_config_state \<Rightarrow> (u128 \<times> u128) list" where
  "curve_points c = map (\<lambda>p. (pt_sqrt_price p, pt_liquidity p)) (pc_curve c)"

definition curve_boundaries :: "pool_config_state \<Rightarrow> u128 list" where
  "curve_boundaries c = pc_sqrt_start_price c # map pt_sqrt_price (pc_curve c)"

definition liquidities :: "pool_config_state \<Rightarrow> u128 list" where
  "liquidities c = map pt_liquidity (pc_curve c)"

record dbc_market =
  bm_state :: virtual_pool_state
  bm_config :: pool_config_state
  bm_base_decimals :: u8
  bm_quote_decimals :: u8
  bm_base_token_program :: pubkey
  bm_quote_token_program :: pubkey
  bm_base_transfer_fee :: "transfer_fee_schedule option"
  bm_quote_transfer_fee :: "transfer_fee_schedule option"
  bm_base_vault_balance :: u64
  bm_quote_vault_balance :: u64

section \<open>Loading\<close>

definition dbc_config_refusal :: "pubkey \<Rightarrow> pool_config_state \<Rightarrow> direct_swap_error option" where
  "dbc_config_refusal pool config =
     (if pc_collect_fee_mode config \<noteq> COLLECT_FEE_QUOTE_TOKEN
         \<and> pc_collect_fee_mode config \<noteq> COLLECT_FEE_OUTPUT_TOKEN then
        Some (PoolNotTradable pool (''unrecognised collect_fee_mode '' @ show_word (pc_collect_fee_mode config)
          @ '' -- refusing rather than guessing which leg pays''))
      else if scheduler_active config then
        Some (PoolNotTradable pool
          ''the base fee scheduler is active on this pool and this venue's field mapping for it is unverified against a live pool; refusing rather than guessing the decay formula'')
      else if pc_dynamic_fee_initialized config then
        Some (PoolNotTradable pool
          ''the volatility-based dynamic fee is active on this pool and this venue's formula for it is unverified against a live pool; refusing rather than guessing'')
      else if pc_curve config = [] then
        Some (PoolUndecodable pool ''PoolConfig carries no curve points'')
      else None)"

definition dbc_load :: "sdk \<Rightarrow> account_reader \<Rightarrow> pubkey \<Rightarrow> account \<Rightarrow> dbc_market direct_result" where
  "dbc_load sdk read pool pool_account =
     rbind (ok_or (virtual_pool_decode pool (acc_data pool_account))
              (PoolUndecodable pool (''VirtualPool did not match the expected layout (''
                 @ show_nat (length (acc_data pool_account)) @ '' bytes)''))) (\<lambda>state.
     if vp_is_migrated state then
       Inl (PoolNotTradable pool ''the curve has migrated; trade the post-migration pool instead'')
     else
       rbind (map_err (\<lambda>e. AccountUnavailable (vp_config state) (''PoolConfig could not be read: '' @ e))
                (read [vp_config state])) (\<lambda>config_accounts.
       rbind (ok_or (account_entry config_accounts 0)
                (AccountUnavailable (vp_config state) ''account does not exist'')) (\<lambda>config_account.
       rbind (ok_or (pool_config_decode (acc_data config_account))
                (PoolUndecodable pool ''PoolConfig did not match the expected layout'')) (\<lambda>config.
       case dbc_config_refusal pool config of
         Some e \<Rightarrow> Inl e
       | None \<Rightarrow>
         let addresses = [vp_base_mint state, pc_quote_mint config, vp_base_vault state, vp_quote_vault state];
             required = fetched ''account does not exist'' addresses
         in rbind (map_err (\<lambda>e. AccountUnavailable pool (''DBC accounts could not be read: '' @ e))
                     (read addresses)) (\<lambda>accounts.
         rbind (required accounts 0) (\<lambda>base_mint_account.
         rbind (required accounts 1) (\<lambda>quote_mint_account.
         rbind (required accounts 2) (\<lambda>base_vault_account.
         rbind (required accounts 3) (\<lambda>quote_vault_account.
         rbind (ok_or (mint_decimals (acc_data base_mint_account))
                  (PoolUndecodable pool ''base_mint is not a mint account'')) (\<lambda>base_decimals.
         rbind (ok_or (mint_decimals (acc_data quote_mint_account))
                  (PoolUndecodable pool ''quote_mint is not a mint account'')) (\<lambda>quote_decimals.
         rbind (ok_or (token_account_amount (acc_data base_vault_account))
                  (PoolUndecodable pool ''base_vault is not a token account'')) (\<lambda>base_vault_balance.
         rbind (ok_or (token_account_amount (acc_data quote_vault_account))
                  (PoolUndecodable pool ''quote_vault is not a token account'')) (\<lambda>quote_vault_balance.
         Inr \<lparr>bm_state = state, bm_config = config, bm_base_decimals = base_decimals,
              bm_quote_decimals = quote_decimals, bm_base_token_program = acc_owner base_mint_account,
              bm_quote_token_program = acc_owner quote_mint_account,
              bm_base_transfer_fee = read_transfer_fee_schedule sdk base_mint_account,
              bm_quote_transfer_fee = read_transfer_fee_schedule sdk quote_mint_account,
              bm_base_vault_balance = base_vault_balance,
              bm_quote_vault_balance = quote_vault_balance\<rparr>)))))))))))))"

section \<open>The step at constant liquidity\<close>

definition quote_math_overflow :: direct_swap_error where
  "quote_math_overflow = QuoteMath ''the DBC curve step overflowed 256 bits''"

definition dbc_output_for_move :: "bool \<Rightarrow> u128 \<Rightarrow> u128 \<Rightarrow> u128 \<Rightarrow> u64 direct_result" where
  "dbc_output_for_move zero_for_one liquidity sqrt_from sqrt_to =
     rbind (if zero_for_one then Inr (mul_shr128_floor liquidity (saturating_sub sqrt_from sqrt_to))
            else rbind (ok_or (mul_div_floor liquidity (saturating_sub sqrt_to sqrt_from) sqrt_to)
                          quote_math_overflow) (\<lambda>step1. Inr (step1 div max sqrt_from 1)))
       (\<lambda>out. Inr (ucast (min out (ucast (- 1 :: u64)))))"

definition dbc_input_for_move :: "bool \<Rightarrow> u128 \<Rightarrow> u128 \<Rightarrow> u128 \<Rightarrow> u128 direct_result" where
  "dbc_input_for_move zero_for_one liquidity sqrt_from sqrt_to =
     (if zero_for_one then
        if sqrt_from \<le> sqrt_to then Inr 0
        else rbind (ok_or (mul_div_ceil liquidity (sqrt_from - sqrt_to) sqrt_from) quote_math_overflow)
               (\<lambda>step1. Inr (div_ceil step1 (max sqrt_to 1)))
      else
        if sqrt_to \<le> sqrt_from then Inr 0
        else Inr (mul_shr128_ceil liquidity (sqrt_to - sqrt_from)))"

definition dbc_next_sqrt_price :: "bool \<Rightarrow> u128 \<Rightarrow> u128 \<Rightarrow> u128 \<Rightarrow> u128 direct_result" where
  "dbc_next_sqrt_price zero_for_one liquidity sqrt_price amount_in =
     (if zero_for_one then
        rbind (ok_or (checked_mul amount_in sqrt_price) quote_math_overflow) (\<lambda>product.
        rbind (ok_or (checked_add liquidity product) quote_math_overflow) (\<lambda>denominator.
        ok_or (mul_div_ceil liquidity sqrt_price denominator) quote_math_overflow))
      else
        rbind (ok_or (shl128_div_floor amount_in liquidity) quote_math_overflow) (\<lambda>delta.
        ok_or (checked_add sqrt_price delta) quote_math_overflow))"

text \<open>The last boundary below a price, capped to the final segment.\<close>

definition current_segment_index :: "u128 list \<Rightarrow> u128 \<Rightarrow> nat" where
  "current_segment_index boundaries price =
     (let segments = length boundaries - 1
      in if segments = 0 then 0
         else case find (\<lambda>i. price \<le> boundaries ! (i + 1)) [0..<segments] of
             Some i \<Rightarrow> i
           | None \<Rightarrow> segments - 1)"

section \<open>The walk\<close>

text \<open>
  One pass per segment. A partial step ends the walk; a full step moves to the neighbouring segment,
  and a sale that has used up the first one is refused while input remains.
\<close>

function dbc_walk_loop ::
  "pubkey \<Rightarrow> u64 \<Rightarrow> bool \<Rightarrow> u128 list \<Rightarrow> u128 list \<Rightarrow> nat \<Rightarrow> u128 \<Rightarrow> u128 \<Rightarrow> u128 \<Rightarrow> (u128 \<times> u128) direct_result"
where
  "dbc_walk_loop pool amount_in zero_for_one boundaries ls idx sqrt_price remaining total_out =
     (if remaining = 0 then Inr (total_out, sqrt_price)
      else if length ls \<le> idx then
        Inl (InsufficientLiquidity pool amount_in
               ''the swap would travel past the curve segments this venue loaded'')
      else if ls ! idx = 0 then
        Inl (InsufficientLiquidity pool amount_in ''a loaded curve segment carries zero liquidity'')
      else
        let liquidity = ls ! idx;
            boundary = (if zero_for_one then boundaries ! idx else boundaries ! (idx + 1))
        in case dbc_input_for_move zero_for_one liquidity sqrt_price boundary of
             Inl e \<Rightarrow> Inl e
           | Inr input_needed \<Rightarrow>
             if remaining < input_needed then
               rbind (dbc_next_sqrt_price zero_for_one liquidity sqrt_price remaining) (\<lambda>next_price.
               rbind (dbc_output_for_move zero_for_one liquidity sqrt_price next_price) (\<lambda>out.
               Inr (total_out + ucast out, next_price)))
             else
               case dbc_output_for_move zero_for_one liquidity sqrt_price boundary of
                 Inl e \<Rightarrow> Inl e
               | Inr out \<Rightarrow>
                 let total = total_out + ucast out;
                     rest = saturating_sub remaining input_needed
                 in if zero_for_one \<and> idx = 0 then
                      if 0 < rest then
                        Inl (InsufficientLiquidity pool amount_in
                               ''the sell would push the curve below its own starting price'')
                      else Inr (total, boundary)
                    else
                      dbc_walk_loop pool amount_in zero_for_one boundaries ls
                        (if zero_for_one then idx - 1 else idx + 1) boundary rest total)"
  by auto
termination
  by (relation "measure (\<lambda>(_, _, zero_for_one, _, ls, idx, _). if zero_for_one then idx else length ls - idx)")
    (auto split: if_splits)

declare dbc_walk_loop.simps [simp del]

definition dbc_walk :: "dbc_market \<Rightarrow> bool \<Rightarrow> u64 \<Rightarrow> (u64 \<times> u128) direct_result" where
  "dbc_walk m zero_for_one amount_in =
     (let boundaries = curve_boundaries (bm_config m); price = vp_sqrt_price (bm_state m)
      in rbind (dbc_walk_loop (vp_pool (bm_state m)) amount_in zero_for_one boundaries
                  (liquidities (bm_config m)) (current_segment_index boundaries price) price
                  (ucast amount_in) 0)
           (\<lambda>(total_out, sqrt_price). Inr (ucast (min total_out (ucast (- 1 :: u64))), sqrt_price)))"

section \<open>The market\<close>

definition dbc_is_base :: "dbc_market \<Rightarrow> pubkey \<Rightarrow> bool option" where
  "dbc_is_base m mint = side_of (vp_base_mint (bm_state m)) (pc_quote_mint (bm_config m)) mint"

definition dbc_fee_on_input :: "dbc_market \<Rightarrow> bool \<Rightarrow> bool" where
  "dbc_fee_on_input m input_is_base \<longleftrightarrow>
     pc_collect_fee_mode (bm_config m) = COLLECT_FEE_QUOTE_TOKEN \<and> \<not> input_is_base"

definition dbc_fee_on :: "dbc_market \<Rightarrow> u64 \<Rightarrow> u64" where
  "dbc_fee_on m amount = fee_amount amount (pc_cliff_fee_numerator (bm_config m)) DBC_FEE_DENOMINATOR"

definition dbc_quote :: "dbc_market \<Rightarrow> pubkey \<Rightarrow> u64 \<Rightarrow> venue_quote direct_result" where
  "dbc_quote m input_mint amount_in =
     (let pool = vp_pool (bm_state m) in
      rbind (ok_or (dbc_is_base m input_mint) (PairNotInPool pool input_mint default_pubkey))
        (\<lambda>input_is_base.
      if amount_in = 0 then Inl (InsufficientLiquidity pool amount_in ''zero input'')
      else
        let (input_transfer_fee, output_transfer_fee) =
              (if input_is_base then (bm_base_transfer_fee m, bm_quote_transfer_fee m)
               else (bm_quote_transfer_fee m, bm_base_transfer_fee m));
            received_by_pool = net_of_fee input_transfer_fee amount_in;
            fee_on_input = dbc_fee_on_input m input_is_base;
            (curve_input, input_side_fee) =
              (if fee_on_input then
                 let fee = dbc_fee_on m received_by_pool in (saturating_sub received_by_pool fee, fee)
               else (received_by_pool, 0))
        in rbind (dbc_walk m input_is_base curve_input) (\<lambda>(curve_out, sqrt_price_next).
           let (gross_out, output_side_fee) =
                 (if fee_on_input then (curve_out, 0)
                  else let fee = dbc_fee_on m curve_out in (saturating_sub curve_out fee, fee));
               output_vault_balance =
                 (if input_is_base then bm_quote_vault_balance m else bm_base_vault_balance m)
           in if output_vault_balance \<le> gross_out then
                Inl (InsufficientLiquidity pool amount_in ''the output exceeds what the pool's vault holds'')
              else
                let expected_out = net_of_fee output_transfer_fee gross_out in
                if expected_out = 0 then
                  Inl (InsufficientLiquidity pool amount_in ''the curve returns nothing at this size'')
                else
                  let lp_fee = (if fee_on_input then input_side_fee
                                else fee_in_input_units output_side_fee curve_input curve_out)
                  in Inr \<lparr>vq_amount_in = amount_in, vq_expected_out = expected_out, vq_lp_fee = lp_fee,
                          vq_price_impact_pct =
                            sqrt_price_impact_pct (vp_sqrt_price (bm_state m)) sqrt_price_next\<rparr>)))"

definition dbc_swap_instruction ::
  "sdk \<Rightarrow> dbc_market \<Rightarrow> swap_accounts \<Rightarrow> u64 \<Rightarrow> u64 \<Rightarrow> instruction direct_result" where
  "dbc_swap_instruction sdk m acc amount_in min_out =
     (let s = bm_state m; c = bm_config m; program = dbc_program_id sdk in
      rbind (swap_direction (vp_pool s) (vp_base_mint s) (pc_quote_mint c) acc) (\<lambda>input_is_base.
      Inr \<lparr>ix_program = program,
           ix_accounts =
             [meta_readonly (dbc_pool_authority sdk) False,
              meta_readonly (vp_config s) False,
              meta_new (vp_pool s) False,
              meta_new (sa_input_token_account acc) False,
              meta_new (sa_output_token_account acc) False,
              meta_new (vp_base_vault s) False,
              meta_new (vp_quote_vault s) False,
              meta_readonly (vp_base_mint s) False,
              meta_readonly (pc_quote_mint c) False,
              meta_readonly (sa_owner acc) True,
              meta_readonly (bm_base_token_program m) False,
              meta_readonly (bm_quote_token_program m) False,
              meta_readonly program False,
              meta_readonly (dbc_event_authority sdk) False,
              meta_readonly program False],
           ix_data = DBC_SWAP @ to_le_bytes_u64 amount_in @ to_le_bytes_u64 min_out\<rparr>))"

definition dbc_pool_market :: "sdk \<Rightarrow> dbc_market \<Rightarrow> pool_market" where
  "dbc_pool_market sdk m =
     \<lparr>pm_program = MeteoraDbc, pm_pool = vp_pool (bm_state m),
      pm_mints = (vp_base_mint (bm_state m), pc_quote_mint (bm_config m)),
      pm_token_program = (\<lambda>mint. map_option (\<lambda>base. if base then bm_base_token_program m
                                   else bm_quote_token_program m) (dbc_is_base m mint)),
      pm_decimals = (\<lambda>mint. map_option (\<lambda>base. if base then bm_base_decimals m else bm_quote_decimals m)
                            (dbc_is_base m mint)),
      pm_quote = dbc_quote m, pm_swap_instruction = dbc_swap_instruction sdk m,
      pm_compute_units = DBC_COMPUTE_UNITS, pm_settles_native_sol = False\<rparr>"

section \<open>Errors\<close>

lemma dbc_step_errs [errs_intros]:
  "errs (\<lambda>e. \<not> submitted e) (dbc_input_for_move z L p q)"
  "errs (\<lambda>e. \<not> submitted e) (dbc_output_for_move z L p q)"
  "errs (\<lambda>e. \<not> submitted e) (dbc_next_sqrt_price z L p x)"
  unfolding dbc_input_for_move_def dbc_output_for_move_def dbc_next_sqrt_price_def quote_math_overflow_def
  by (intro errs_intros; simp)+

lemma dbc_walk_loop_errs:
  "errs (\<lambda>e. \<not> submitted e) (dbc_walk_loop pool amount z bs ls idx p rest t)"
proof (induction pool amount z bs ls idx p rest t rule: dbc_walk_loop.induct)
  case (1 pool amount z bs ls idx p rest t)
  show ?case
    by (subst dbc_walk_loop.simps) (unfold Let_def, intro errs_intros 1; simp)
qed

section \<open>The walk is a sequence of fair moves\<close>

lemma dbc_output_fair:
  assumes "dbc_output_for_move z L p q = Inr y"
  shows "if z then unat y * 2 ^ 128 \<le> unat L * (unat p - unat q)
         else unat y * (unat p * unat q) \<le> unat L * (unat q - unat p)"
proof (cases z)
  case True
  let ?n = "unat L * (unat p - unat q)"
  have "unat y \<le> ?n div 2 ^ 128"
    using assms True by (auto simp: dbc_output_for_move_def unat_cap_u64 unat_mul_shr128_floor)
  then have "unat y * 2 ^ 128 \<le> ?n div 2 ^ 128 * 2 ^ 128" by (rule mult_le_mono1)
  also have "\<dots> \<le> ?n" by (rule div_times_less_eq_dividend)
  finally show ?thesis using True by simp
next
  case False
  let ?n = "unat L * (unat q - unat p)"
  obtain step1 where step1: "unat step1 = ?n div unat q"
    and eq: "y = ucast (min (step1 div max p 1) (ucast (- 1 :: u64)))"
    using assms False by (auto simp: dbc_output_for_move_def res_simps mul_div_floor_Some)
  have y: "unat y \<le> unat step1 div max (unat p) 1"
    unfolding eq unat_cap_u64 by (simp add: unat_div)
  have "unat y * (unat p * unat q) \<le> unat step1 div max (unat p) 1 * (max (unat p) 1 * unat q)"
    using y by (intro mult_le_mono) simp_all
  also have "\<dots> \<le> ?n" unfolding step1 by (rule two_divs_le)
  finally show ?thesis using False by simp
qed

lemma dbc_input_fair:
  assumes "dbc_input_for_move z L p q = Inr x" and "q \<noteq> 0"
  shows "if z then unat L * (unat p - unat q) \<le> unat x * (unat p * unat q)
         else unat L * (unat q - unat p) \<le> unat x * 2 ^ 128"
proof (cases z)
  case True
  show ?thesis
  proof (cases "p \<le> q")
    case False
    then have pq: "q \<le> p" by simp
    have q: "0 < unat q" using assms(2) by (simp add: unat_gt_0)
    obtain step1 where p: "p \<noteq> 0" and step1: "unat step1 = cdiv (unat L * (unat p - unat q)) (unat p)"
      and x: "x = div_ceil step1 (max q 1)"
      using assms(1) True False
      by (auto simp: dbc_input_for_move_def res_simps mul_div_ceil_Some unat_sub_exact [OF pq])
    have "max q 1 = q" using q by (simp add: word_unat_eq_iff max_def word_le_nat_alt)
    then have "unat x = cdiv (cdiv (unat L * (unat p - unat q)) (unat p)) (unat q)"
      using assms(2) by (simp add: x unat_div_ceil step1)
    then show ?thesis
      using True two_cdivs_ge [of "unat p" "unat q" "unat L * (unat p - unat q)"] p q
      by (simp add: unat_gt_0 mult.commute)
  qed (use True in \<open>simp add: word_le_nat_alt\<close>)
next
  case False
  show ?thesis
  proof (cases "q \<le> p")
    case no: False
    then have "p \<le> q" by simp
    then have "unat x = cdiv (unat L * (unat q - unat p)) (2 ^ 128)"
      using assms(1) False no
      by (auto simp: dbc_input_for_move_def unat_mul_shr128_ceil unat_sub_exact)
    then show ?thesis using False cdiv_mult_ge [of "2 ^ 128" "unat L * (unat q - unat p)"] by simp
  qed (use False in \<open>simp add: word_le_nat_alt\<close>)
qed

lemma dbc_next_fair:
  assumes "dbc_next_sqrt_price z L p amount = Inr q" and "L \<noteq> 0"
  shows "if z then unat L * (unat p - unat q) \<le> unat amount * (unat p * unat q)
         else unat L * (unat q - unat p) \<le> unat amount * 2 ^ 128"
proof (cases z)
  case True
  obtain lt: "unat amount * unat p < 2 ^ 128" "unat L + unat amount * unat p < 2 ^ 128"
    and q: "mul_div_ceil L p (L + amount * p) = Some q"
    using assms(1) True by (auto simp: dbc_next_sqrt_price_def res_simps unat_mul_exact)
  have den: "unat (L + amount * p) = unat L + unat amount * unat p"
    using lt by (subst unat_add_exact) (simp_all add: unat_mul_exact)
  have "unat q = cdiv (unat L * unat p) (unat L + unat amount * unat p)"
    using q by (simp only: mul_div_ceil_Some den)
  moreover have "0 < unat L" using assms(2) by (simp add: unat_gt_0)
  ultimately show ?thesis using True fall_price_pays [of "unat L" "unat amount" "unat p"] by simp
next
  case False
  obtain delta where delta: "unat delta = unat amount * 2 ^ 128 div unat L"
    and q: "unat p + unat delta < 2 ^ 128" "q = p + delta"
    using assms(1) False
    by (auto simp: dbc_next_sqrt_price_def res_simps shl128_div_floor_Some)
  have "unat q - unat p = unat amount * 2 ^ 128 div unat L" using q delta by (simp add: unat_add_exact)
  then show ?thesis using False rise_price_pays [of "unat L" "unat amount"] by (simp only: if_False)
qed

lemma dbc_full_fair:
  "dbc_input_for_move z L p q = Inr x \<Longrightarrow> dbc_output_for_move z L p q = Inr y \<Longrightarrow> q \<noteq> 0 \<Longrightarrow>
     fair_move z (unat L) (unat p) (unat q) (unat x) (unat y)"
  using dbc_output_fair [of z L p q y] dbc_input_fair [of z L p q x] unfolding fair_move_def by (cases z) simp_all

lemma dbc_partial_fair:
  "dbc_next_sqrt_price z L p amount = Inr q \<Longrightarrow> dbc_output_for_move z L p q = Inr y \<Longrightarrow> L \<noteq> 0 \<Longrightarrow>
     fair_move z (unat L) (unat p) (unat q) (unat amount) (unat y)"
  using dbc_output_fair [of z L p q y] dbc_next_fair [of z L p amount q] unfolding fair_move_def by (cases z) simp_all

text \<open>
  Legs: each a fair move at the liquidity of its segment, from segment to neighbouring segment, and
  only the last may stop short of the boundary between them.
\<close>

inductive curve_legs ::
  "bool \<Rightarrow> u128 list \<Rightarrow> u128 list \<Rightarrow> nat \<Rightarrow> nat \<Rightarrow> (nat \<times> nat) list \<Rightarrow> nat \<Rightarrow> bool"
  for z :: bool and bs :: "u128 list" and ls :: "u128 list" where
  rest: "curve_legs z bs ls i p [] p"
| leg: "i < length ls \<Longrightarrow> ls ! i \<noteq> 0 \<Longrightarrow> fair_move z (unat (ls ! i)) p p1 x y \<Longrightarrow>
    (gs \<noteq> [] \<Longrightarrow> p1 = unat (if z then bs ! i else bs ! (i + 1))) \<Longrightarrow>
    (if z then i' = i - 1 else i' = i + 1) \<Longrightarrow> curve_legs z bs ls i' p1 gs p2 \<Longrightarrow>
    curve_legs z bs ls i p ((x, y) # gs) p2"

lemma curve_legs_single:
  "i < length ls \<Longrightarrow> ls ! i \<noteq> 0 \<Longrightarrow> fair_move z (unat (ls ! i)) p p1 x y \<Longrightarrow> curve_legs z bs ls i p [(x, y)] p1"
  by (rule leg [where i' = "if z then i - 1 else i + 1"]) (auto intro: rest)

lemma unat_add_le: "unat (a + ucast (b :: u64) :: u128) \<le> unat a + unat b"
  by (metis unat_plus_simple unat_widen(1) unat_word_ariths(1) mod_less_eq_dividend)

lemma dbc_walk_loop_legs:
  assumes "dbc_walk_loop pool amount z bs ls i p r t = Inr (t', p')"
    and "length bs = length ls + 1" and "\<forall>b \<in> set bs. b \<noteq> 0"
  shows "\<exists>gs. curve_legs z bs ls i (unat p) gs (unat p') \<and> sum_list (map fst gs) = unat r
     \<and> unat t' \<le> unat t + sum_list (map snd gs)"
  using assms
proof (induction pool amount z bs ls i p r t rule: dbc_walk_loop.induct)
  case (1 pool amount z bs ls i p r t)
  let ?b = "if z then bs ! i else bs ! (i + 1)" and ?L = "ls ! i"
  show ?case
  proof (cases "r = 0")
    case True
    then have "t' = t" "p' = p" using "1.prems"(1) by (simp_all add: dbc_walk_loop.simps)
    then show ?thesis using True by (intro exI [of _ "[]"]) (simp add: curve_legs.rest)
  next
    case False
    note unfolded = "1.prems"(1) [unfolded dbc_walk_loop.simps [of _ _ _ _ _ _ _ r]]
    from unfolded False have i: "i < length ls" "?L \<noteq> 0" by (auto split: if_splits)
    obtain x where x: "dbc_input_for_move z ?L p ?b = Inr x"
      using unfolded False i by (auto simp: Let_def split: sum.splits if_splits)
    have b: "?b \<noteq> 0"
      using i(1) "1.prems"(2,3) by (auto intro: nth_mem)
    show ?thesis
    proof (cases "r < x")
      case True
      then obtain y where y: "dbc_next_sqrt_price z ?L p r = Inr p'" "dbc_output_for_move z ?L p p' = Inr y"
        "t' = t + ucast y"
        using unfolded False i x by (auto simp: Let_def res_simps)
      have "curve_legs z bs ls i (unat p) [(unat r, unat y)] (unat p')"
        using i by (rule curve_legs_single) (rule dbc_partial_fair [OF y(1,2) i(2)])
      then show ?thesis using unat_add_le [of t y] by (intro exI conjI) (assumption, simp_all add: y(3))
    next
      case full: False
      obtain y where y: "dbc_output_for_move z ?L p ?b = Inr y"
        using unfolded False i x full by (auto simp: Let_def split: sum.splits if_splits)
      have fair: "fair_move z (unat ?L) (unat p) (unat ?b) (unat x) (unat y)"
        by (rule dbc_full_fair [OF x y b])
      have r: "unat r = unat x + unat (saturating_sub r x)" using full by (simp add: word_le_nat_alt not_less)
      show ?thesis
      proof (cases "z \<and> i = 0")
        case True
        then have fin: "saturating_sub r x = 0" "t' = t + ucast y" "p' = ?b"
          using unfolded False i x y full by (auto simp: Let_def word_gt_0 split: if_splits)
        have "curve_legs z bs ls i (unat p) [(unat x, unat y)] (unat p')"
          unfolding fin(3) using i fair by (rule curve_legs_single)
        then show ?thesis using unat_add_le [of t y] r fin(1,2)
          by (intro exI conjI) (assumption, simp_all)
      next
        case False
        let ?i = "if z then i - 1 else i + 1"
        have rec: "dbc_walk_loop pool amount z bs ls ?i ?b (saturating_sub r x) (t + ucast y) = Inr (t', p')"
          using unfolded \<open>r \<noteq> 0\<close> i x y full False by (auto simp: Let_def split: if_splits)
        have "\<exists>gs. curve_legs z bs ls ?i (unat ?b) gs (unat p') \<and> sum_list (map fst gs) = unat (saturating_sub r x)
          \<and> unat t' \<le> unat (t + ucast y) + sum_list (map snd gs)"
          using "1.IH" \<open>r \<noteq> 0\<close> i x y full False rec "1.prems"(2,3) by auto
        then obtain gs where gs: "curve_legs z bs ls ?i (unat ?b) gs (unat p')"
          "sum_list (map fst gs) = unat (saturating_sub r x)"
          "unat t' \<le> unat (t + ucast y) + sum_list (map snd gs)" by blast
        have "curve_legs z bs ls i (unat p) ((unat x, unat y) # gs) (unat p')"
          by (rule leg [OF i fair _ _ gs(1)]) simp_all
        moreover have "sum_list (map fst ((unat x, unat y) # gs)) = unat r"
          unfolding list.map sum_list.Cons fst_conv gs(2) r ..
        moreover have "unat t' \<le> unat t + sum_list (map snd ((unat x, unat y) # gs))"
          unfolding list.map sum_list.Cons snd_conv
          using gs(3) unat_add_le [of t y] by linarith
        ultimately show ?thesis by blast
      qed
    qed
  qed
qed

lemma read_curve_nonzero: "read_curve data offset n = Some pts \<Longrightarrow> pt \<in> set pts \<Longrightarrow> pt_sqrt_price pt \<noteq> 0"
  by (induction data offset n arbitrary: pts rule: read_curve.induct)
    (fastforce simp: bind_eq_Some_conv split: if_splits)+

text \<open>A decoded configuration is missing only one thing for the walk: a start price that is not zero.\<close>

lemma pool_config_boundaries:
  "pool_config_decode data = Some c \<Longrightarrow> pc_sqrt_start_price c \<noteq> 0 \<Longrightarrow> \<forall>b \<in> set (curve_boundaries c). b \<noteq> 0"
  using read_curve_nonzero [of data 408 MAX_CURVE_POINTS]
  by (auto simp: pool_config_decode_def curve_boundaries_def bind_eq_Some_conv split: if_splits)

lemma dbc_walk_legs:
  assumes "dbc_walk m z amount = Inr (out, p')" and "\<forall>b \<in> set (curve_boundaries (bm_config m)). b \<noteq> 0"
  shows "\<exists>gs. curve_legs z (curve_boundaries (bm_config m)) (liquidities (bm_config m))
       (current_segment_index (curve_boundaries (bm_config m)) (vp_sqrt_price (bm_state m)))
       (unat (vp_sqrt_price (bm_state m))) gs (unat p')
     \<and> sum_list (map fst gs) = unat amount \<and> unat out \<le> sum_list (map snd gs)"
proof -
  let ?bs = "curve_boundaries (bm_config m)" and ?p = "vp_sqrt_price (bm_state m)"
  obtain t where t: "dbc_walk_loop (vp_pool (bm_state m)) amount z ?bs (liquidities (bm_config m))
      (current_segment_index ?bs ?p) ?p (ucast amount) 0 = Inr (t, p')"
    and out: "out = ucast (min t (ucast (- 1 :: u64)))"
    using assms(1) by (auto simp: dbc_walk_def Let_def rbind_Inr_iff)
  have len: "length ?bs = length (liquidities (bm_config m)) + 1"
    by (simp add: curve_boundaries_def liquidities_def)
  have "unat out \<le> unat t" by (simp add: out unat_cap_u64)
  with dbc_walk_loop_legs [OF t len assms(2)] show ?thesis by fastforce
qed

section \<open>The quote and the instruction\<close>

definition dbc_transfer_fee :: "dbc_market \<Rightarrow> bool \<Rightarrow> transfer_fee_schedule option" where
  "dbc_transfer_fee m base = (if base then bm_base_transfer_fee m else bm_quote_transfer_fee m)"

lemma dbc_quote_Inr:
  assumes "dbc_quote m mint amount = Inr q"
  obtains base curve_input curve_out p' where "dbc_is_base m mint = Some base" and "amount \<noteq> 0"
    and "curve_input = (if dbc_fee_on_input m base
           then saturating_sub (net_of_fee (dbc_transfer_fee m base) amount)
                  (dbc_fee_on m (net_of_fee (dbc_transfer_fee m base) amount))
           else net_of_fee (dbc_transfer_fee m base) amount)"
    and "dbc_walk m base curve_input = Inr (curve_out, p')"
    and "vq_amount_in q = amount" and "vq_lp_fee q \<le> amount"
    and "vq_expected_out q = net_of_fee (dbc_transfer_fee m (\<not> base))
           (if dbc_fee_on_input m base then curve_out else saturating_sub curve_out (dbc_fee_on m curve_out))"
    and "vq_expected_out q \<noteq> 0"
    and "vq_expected_out q < (if base then bm_quote_vault_balance m else bm_base_vault_balance m)"
proof -
  have in_fee: "dbc_fee_on m (net_of_fee s amount) \<le> amount" for s
    unfolding dbc_fee_on_def using fee_amount_le net_of_fee_le by (rule order_trans)
  have out_fee: "fee_in_input_units (dbc_fee_on m g) (net_of_fee s amount) g \<le> amount" for g s
    unfolding dbc_fee_on_def using fee_in_input_units_le [OF fee_amount_le] net_of_fee_le by (rule order_trans)
  show thesis
    using assms
    by (auto simp: dbc_quote_def Let_def res_simps not_le in_fee out_fee dbc_transfer_fee_def
        intro!: that intro: le_less_trans [OF net_of_fee_le] split: prod.splits if_splits)
qed

lemma dbc_walk_errs: "errs (\<lambda>e. \<not> submitted e) (dbc_walk m z amount)"
  unfolding dbc_walk_def Let_def by (intro errs_intros dbc_walk_loop_errs) simp

lemma dbc_quote_errs: "errs (\<lambda>e. \<not> submitted e) (dbc_quote m mint amount)"
  unfolding dbc_quote_def Let_def by (intro errs_intros dbc_walk_errs) simp_all

lemma dbc_ix:
  assumes "dbc_swap_instruction sdk m acc amount min_out = Inr ix"
  obtains base where "swap_direction (vp_pool (bm_state m)) (vp_base_mint (bm_state m))
      (pc_quote_mint (bm_config m)) acc = Inr base"
    and "ix_program ix = dbc_program_id sdk"
    and "\<And>me. me \<in> set (ix_accounts ix) \<Longrightarrow> meta_signer me \<Longrightarrow> meta_key me = sa_owner acc"
proof -
  from assms obtain base where
    side: "swap_direction (vp_pool (bm_state m)) (vp_base_mint (bm_state m)) (pc_quote_mint (bm_config m)) acc
      = Inr base"
    by (auto simp: dbc_swap_instruction_def Let_def rbind_Inr_iff)
  show thesis
    by (rule that [OF side])
      (use assms side in \<open>auto simp: dbc_swap_instruction_def Let_def meta_new_def meta_readonly_def\<close>)
qed

lemma dbc_ix_errs: "errs (\<lambda>e. \<not> submitted e) (dbc_swap_instruction sdk m acc amount min_out)"
  unfolding dbc_swap_instruction_def Let_def by (intro errs_intros) simp_all

lemma dbc_market_simps [simp]:
  "pm_mints (dbc_pool_market sdk m) = (vp_base_mint (bm_state m), pc_quote_mint (bm_config m))"
  "pm_quote (dbc_pool_market sdk m) = dbc_quote m"
  "pm_swap_instruction (dbc_pool_market sdk m) = dbc_swap_instruction sdk m"
  "pm_token_program (dbc_pool_market sdk m) mint
     = map_option (\<lambda>base. if base then bm_base_token_program m else bm_quote_token_program m) (dbc_is_base m mint)"
  by (simp_all add: dbc_pool_market_def)

interpretation dbc: fee_bounded_market "dbc_pool_market sdk" "\<lambda>_. dbc_program_id sdk" "\<lambda>_. True" for sdk
proof (unfold_locales, goal_cases)
  case (1 s mint amount q)
  then show ?case by (auto elim: dbc_quote_Inr)
next
  case (2 s mint amount q)
  then show ?case by (auto simp: dbc_is_base_def side_of_Some elim!: dbc_quote_Inr split: if_splits)
next
  case (3 s mint amount e)
  then show ?case using errsD [OF dbc_quote_errs] by simp
next
  case (4 s acc amount min_out ix)
  then show ?case by (auto simp: trades_def elim!: dbc_ix dest!: swap_direction_Inr)
next
  case (5 s acc amount min_out ix)
  then show ?case by (auto elim: dbc_ix)
next
  case (6 s acc amount min_out ix m)
  then show ?case by (auto elim: dbc_ix)
next
  case (7 s acc amount min_out e)
  then show ?case using errsD [OF dbc_ix_errs] by simp
next
  case (8 s mint)
  then show ?case by (simp add: dbc_is_base_def)
next
  case (9 s mint amount q)
  then show ?case by (auto elim: dbc_quote_Inr)
qed

section \<open>A concrete pool\<close>

text \<open>Half of the first segment is behind the price, and a sale of the sample size crosses nothing.\<close>

definition sample_dbc :: dbc_market where
  "sample_dbc = \<lparr>
     bm_state = \<lparr>vp_pool = Pubkey [3], vp_config = Pubkey [4], vp_base_mint = Pubkey [1],
       vp_base_vault = Pubkey [11], vp_quote_vault = Pubkey [12], vp_sqrt_price = 2 ^ 64, vp_is_migrated = False\<rparr>,
     bm_config = \<lparr>pc_quote_mint = Pubkey [2], pc_cliff_fee_numerator = 10000000, pc_second_factor = 0,
       pc_third_factor = 0, pc_first_factor = 0, pc_base_fee_mode = 0, pc_dynamic_fee_initialized = False,
       pc_collect_fee_mode = 1, pc_sqrt_start_price = 2 ^ 63,
       pc_curve = [\<lparr>pt_sqrt_price = 2 ^ 65, pt_liquidity = 2 ^ 100\<rparr>]\<rparr>,
     bm_base_decimals = 6, bm_quote_decimals = 9, bm_base_token_program = Pubkey [6],
     bm_quote_token_program = Pubkey [6], bm_base_transfer_fee = None, bm_quote_transfer_fee = None,
     bm_base_vault_balance = 1000000000000, bm_quote_vault_balance = 1000000000000\<rparr>"

section \<open>Properties\<close>

text \<open>C10: a DBC quote is a walk of fair moves along the curve. What reaches the curve - the amount less the
  transfer fee of the mint and, when the pool charges its fee on the input, less that fee - is spent to the
  last unit on moves that start at the pool's price and go from segment to neighbouring segment at their
  boundaries, each at its own segment's liquidity, each paying in at least the exact input of its price move
  and paying out at most the exact output. The quoted output is at most the sum of those outputs, not zero
  and less than the vault holds. No boundary of the curve may be zero; the loader refuses every zero but a
  start price of zero.\<close>

theorem dbc_quote_is_fair_walk:
  assumes "dbc_quote m mint amount = Inr q" and "\<forall>b \<in> set (curve_boundaries (bm_config m)). b \<noteq> 0"
  shows "\<exists>base received curve_input gs p'. dbc_is_base m mint = Some base
     \<and> received = net_of_fee (dbc_transfer_fee m base) amount
     \<and> curve_input = (if dbc_fee_on_input m base then saturating_sub received (dbc_fee_on m received) else received)
     \<and> curve_legs base (curve_boundaries (bm_config m)) (liquidities (bm_config m))
         (current_segment_index (curve_boundaries (bm_config m)) (vp_sqrt_price (bm_state m)))
         (unat (vp_sqrt_price (bm_state m))) gs p'
     \<and> sum_list (map fst gs) = unat curve_input \<and> unat (vq_expected_out q) \<le> sum_list (map snd gs)
     \<and> vq_expected_out q \<noteq> 0
     \<and> vq_expected_out q < (if base then bm_quote_vault_balance m else bm_base_vault_balance m)"
  using assms(1)
proof (cases rule: dbc_quote_Inr)
  case (1 base curve_input curve_out p')
  have out_le: "unat (vq_expected_out q) \<le> unat curve_out"
    unfolding 1(7) word_le_nat_alt [symmetric]
    by (rule order_trans [OF net_of_fee_le]) (simp add: saturating_sub_le)
  obtain gs where gs: "curve_legs base (curve_boundaries (bm_config m)) (liquidities (bm_config m))
       (current_segment_index (curve_boundaries (bm_config m)) (vp_sqrt_price (bm_state m)))
       (unat (vp_sqrt_price (bm_state m))) gs (unat p')"
    "sum_list (map fst gs) = unat curve_input" "unat curve_out \<le> sum_list (map snd gs)"
    using dbc_walk_legs [OF 1(4) assms(2)] by blast
  have "unat (vq_expected_out q) \<le> sum_list (map snd gs)" using out_le gs(3) by (rule order_trans)
  then show ?thesis using 1(1,3,8,9) gs(1,2) by blast
qed

theorem dbc_quote_is_fair_walk_witness:
  "\<exists>q base gs p'. dbc_quote sample_dbc (Pubkey [2]) 1000000000 = Inr q
     \<and> dbc_is_base sample_dbc (Pubkey [2]) = Some base
     \<and> curve_legs base (curve_boundaries (bm_config sample_dbc)) (liquidities (bm_config sample_dbc))
         (current_segment_index (curve_boundaries (bm_config sample_dbc)) (vp_sqrt_price (bm_state sample_dbc)))
         (unat (vp_sqrt_price (bm_state sample_dbc))) gs p'
     \<and> sum_list (map fst gs) = 1000000000 \<and> unat (vq_expected_out q) \<le> sum_list (map snd gs)"
proof -
  have step: "mul_div_floor 1267650600228229401496703205376 268435456000000000 18715179529709551616
      = Some 18182158839606891129618233705" by (simp add: mul_div_floor_Some)
  have input: "mul_shr128_ceil 1267650600228229401496703205376 18446744073709551616 = 68719476736"
    by (simp add: word_unat_eq_iff unat_mul_shr128_ceil cdiv_def)
  have price: "shl128_div_floor 1000000000 1267650600228229401496703205376 = Some 268435456000000000"
    by (simp add: shl128_div_floor_Some)
  have fee: "fee_amount 985656805 10000000 1000000000 = 9856569"
    by (simp add: word_unat_eq_iff unat_fee_amount cdiv_def)
  have cap: "(ucast (min 985656805 (ucast (- 1 :: u64)) :: u128) :: u64) = 985656805"
    by (simp only: word_unat_eq_iff unat_cap_u64) simp
  have "is_ok (dbc_quote sample_dbc (Pubkey [2]) 1000000000)"
    by (simp add: dbc_quote_def sample_dbc_def dbc_is_base_def side_of_def Let_def dbc_walk_def
        curve_boundaries_def liquidities_def current_segment_index_def dbc_walk_loop.simps
        dbc_input_for_move_def dbc_next_sqrt_price_def dbc_output_for_move_def step input price checked_add_def
        dbc_fee_on_input_def COLLECT_FEE_QUOTE_TOKEN_def net_of_fee_def saturating_sub_def dbc_fee_on_def
        DBC_FEE_DENOMINATOR_def fee cap)
  then obtain q where "dbc_quote sample_dbc (Pubkey [2]) 1000000000 = Inr q" by (auto simp: is_ok_iff)
  moreover have "\<forall>b \<in> set (curve_boundaries (bm_config sample_dbc)). b \<noteq> 0"
    by (simp add: curve_boundaries_def sample_dbc_def)
  moreover have input: "dbc_transfer_fee sample_dbc b = None" "dbc_is_base sample_dbc (Pubkey [2]) = Some False"
    "\<not> dbc_fee_on_input sample_dbc False" for b
    by (simp_all add: dbc_transfer_fee_def sample_dbc_def dbc_is_base_def side_of_def dbc_fee_on_input_def
        COLLECT_FEE_QUOTE_TOKEN_def)
  ultimately obtain base received curve_input gs p' where *: "dbc_is_base sample_dbc (Pubkey [2]) = Some base"
    "received = net_of_fee (dbc_transfer_fee sample_dbc base) 1000000000"
    "curve_input = (if dbc_fee_on_input sample_dbc base
       then saturating_sub received (dbc_fee_on sample_dbc received) else received)"
    "curve_legs base (curve_boundaries (bm_config sample_dbc)) (liquidities (bm_config sample_dbc))
         (current_segment_index (curve_boundaries (bm_config sample_dbc)) (vp_sqrt_price (bm_state sample_dbc)))
         (unat (vp_sqrt_price (bm_state sample_dbc))) gs p'"
    "sum_list (map fst gs) = unat curve_input" "unat (vq_expected_out q) \<le> sum_list (map snd gs)"
    using dbc_quote_is_fair_walk [of sample_dbc "Pubkey [2]" 1000000000 q] by blast
  moreover have "base = False" using *(1) input(2) by simp
  then have "curve_input = 1000000000" using *(2,3) input by (simp add: net_of_fee_def)
  ultimately show ?thesis using \<open>dbc_quote sample_dbc (Pubkey [2]) 1000000000 = Inr q\<close> by auto
qed

end
