(* ===== verification/Meteora_Dlmm.thy ===== *)
theory Meteora_Dlmm
  imports Clmm_Venue
begin

text \<open>
  \<^verbatim>\<open>venues/meteora_dlmm.rs\<close>: the Meteora DLMM venue. Liquidity sits in bins of one price each,
  seventy to an array account; a swap empties bin after bin, at a fee rate that grows with the distance
  from a reference bin. The code's mask of the power loop, shifted left once per round, is \<open>push_bit k 1\<close>
  here.
\<close>

definition SWAP2 :: bytes where
  "SWAP2 = [0x41, 0x4b, 0x3f, 0x4c, 0xeb, 0x5b, 0x5b, 0x88]"

definition FEE_PRECISION :: u128 where "FEE_PRECISION = 1000000000"
definition MAX_FEE_RATE :: u128 where "MAX_FEE_RATE = 100000000"
definition DLMM_BASIS_POINT_MAX :: u128 where "DLMM_BASIS_POINT_MAX = 10000"
definition SCALE_OFFSET :: nat where "SCALE_OFFSET = 64"
definition MAX_BIN_PER_ARRAY :: i32 where "MAX_BIN_PER_ARRAY = 70"
definition BINS_OFFSET :: nat where "BINS_OFFSET = 56"
definition BIN_SIZE :: nat where "BIN_SIZE = 144"
definition BIN_ARRAYS_PER_SWAP :: nat where "BIN_ARRAYS_PER_SWAP = 3"
definition DLMM_COMPUTE_UNITS :: u32 where "DLMM_COMPUTE_UNITS = 400000"

definition BIN_ARRAY_SEED :: bytes where
  "BIN_ARRAY_SEED = map (of_nat \<circ> of_char) ''bin_array''"

definition BITMAP_SEED :: bytes where
  "BITMAP_SEED = map (of_nat \<circ> of_char) ''bitmap''"

definition DLMM_EVENT_AUTHORITY_SEED :: bytes where
  "DLMM_EVENT_AUTHORITY_SEED = map (of_nat \<circ> of_char) ''__event_authority''"

definition CLOCK_SYSVAR :: string where
  "CLOCK_SYSVAR = ''SysvarC1ock11111111111111111111111111111111''"

definition dlmm_program_id :: "sdk \<Rightarrow> pubkey" where
  "dlmm_program_id sdk = from_str sdk METEORA_DLMM_PROGRAM_ID"

definition dlmm_memo_program_id :: "sdk \<Rightarrow> pubkey" where
  "dlmm_memo_program_id sdk = from_str sdk MEMO_PROGRAM_ID"

text \<open>\<^verbatim>\<open>i64::to_le_bytes\<close>.\<close>

definition to_le_bytes_i64 :: "i64 \<Rightarrow> bytes" where
  "to_le_bytes_i64 x = le_bytes 8 (nat (x mod 2 ^ 64))"

definition bin_array_address :: "sdk \<Rightarrow> pubkey \<Rightarrow> pubkey \<Rightarrow> i64 \<Rightarrow> pubkey" where
  "bin_array_address sdk program pool array_index =
     find_program_address sdk [BIN_ARRAY_SEED, key_bytes pool, to_le_bytes_i64 array_index] program"

definition dlmm_bitmap_extension_address :: "sdk \<Rightarrow> pubkey \<Rightarrow> pubkey \<Rightarrow> pubkey" where
  "dlmm_bitmap_extension_address sdk program pool = find_program_address sdk [BITMAP_SEED, key_bytes pool] program"

definition dlmm_event_authority_address :: "sdk \<Rightarrow> pubkey \<Rightarrow> pubkey" where
  "dlmm_event_authority_address sdk program = find_program_address sdk [DLMM_EVENT_AUTHORITY_SEED] program"

section \<open>Bin arrays\<close>

definition i64_at :: "bytes \<Rightarrow> nat \<Rightarrow> i64 option" where
  "i64_at data offset = map_option (\<lambda>bs. sint (from_le_bytes bs :: u64)) (slice data offset 8)"

definition bin_id_to_array_index :: "i32 \<Rightarrow> i64" where
  "bin_id_to_array_index bin_id =
     (let span = MAX_BIN_PER_ARRAY; index = bin_id sdiv span
      in if bin_id < 0 \<and> bin_id smod span \<noteq> 0 then index - 1 else index)"

text \<open>\<open>n\<close> indices outward, ending early where the next one leaves 64 bits.\<close>

fun outward_indices :: "i64 \<Rightarrow> i64 \<Rightarrow> nat \<Rightarrow> i64 list" where
  "outward_indices step index 0 = []"
| "outward_indices step index (Suc n) =
     index # (if index + step < - (2 ^ 63) \<or> 2 ^ 63 \<le> index + step then []
              else outward_indices step (index + step) n)"

definition candidate_array_indices :: "i64 \<Rightarrow> bool \<Rightarrow> i64 list" where
  "candidate_array_indices active_array_index swap_for_y =
     outward_indices (if swap_for_y then - 1 else 1) active_array_index BIN_ARRAYS_PER_SWAP"

definition dlmm_nearby_arrays :: "i64 \<Rightarrow> i64 list" where
  "dlmm_nearby_arrays active = fold (\<lambda>index indices. if index \<in> set indices then indices else indices @ [index])
     (candidate_array_indices active True @ candidate_array_indices active False) []"

record decoded_bin =
  bn_id :: i32
  bn_amount_x :: u64
  bn_amount_y :: u64

definition bin_at :: "bytes \<Rightarrow> i64 \<Rightarrow> nat \<Rightarrow> decoded_bin option" where
  "bin_at data array_index i =
     (let offset = BINS_OFFSET + i * BIN_SIZE in do {
        amount_x \<leftarrow> u64_at data offset;
        amount_y \<leftarrow> u64_at data (offset + 8);
        Some \<lparr>bn_id = wrap_i32 (wrap_i32 (array_index * MAX_BIN_PER_ARRAY) + int i),
              bn_amount_x = amount_x, bn_amount_y = amount_y\<rparr>
      })"

definition decode_bin_array :: "bytes \<Rightarrow> i64 \<Rightarrow> decoded_bin list option" where
  "decode_bin_array data array_index =
     (let bins = map (bin_at data array_index) [0..<nat MAX_BIN_PER_ARRAY]
      in if None \<in> set bins then None else Some (map the bins))"

definition mint_has_transfer_hook :: "sdk \<Rightarrow> account \<Rightarrow> bool" where
  "mint_has_transfer_hook sdk mint_account \<longleftrightarrow>
     acc_owner mint_account = spl_token_2022_id sdk \<and> transfer_hook sdk (acc_data mint_account)"

section \<open>Accounts\<close>

record static_parameters =
  st_base_factor :: u16
  st_filter_period :: u16
  st_decay_period :: u16
  st_reduction_factor :: u16
  st_variable_fee_control :: u32
  st_max_volatility_accumulator :: u32
  st_protocol_share :: u16
  st_base_fee_power_factor :: u8
  st_collect_fee_mode :: u8

record variable_parameters =
  va_volatility_accumulator :: u32
  va_volatility_reference :: u32
  va_index_reference :: i32
  va_last_update_timestamp :: i64

text \<open>\<^verbatim>\<open>i64::saturating_sub\<close>.\<close>

definition saturating_sub_i64 :: "i64 \<Rightarrow> i64 \<Rightarrow> i64" where
  "saturating_sub_i64 a b = max (- (2 ^ 63)) (min (2 ^ 63 - 1) (a - b))"

definition update_references :: "variable_parameters \<Rightarrow> i64 \<Rightarrow> i32 \<Rightarrow> static_parameters \<Rightarrow> variable_parameters" where
  "update_references v now active_id s =
     (let elapsed = saturating_sub_i64 now (va_last_update_timestamp v) in
      if int (unat (st_filter_period s)) \<le> elapsed then
        v\<lparr>va_index_reference := active_id,
          va_volatility_reference :=
            (if elapsed < int (unat (st_decay_period s)) then
               ucast ((ucast (va_volatility_accumulator v) :: u64) * ucast (st_reduction_factor s)
                        div ucast DLMM_BASIS_POINT_MAX)
             else 0)\<rparr>
      else v)"

record lb_pair_state =
  lb_pool :: pubkey
  lb_parameters :: static_parameters
  lb_active_id :: i32
  lb_bin_step :: u16
  lb_status :: u8
  lb_token_x_mint :: pubkey
  lb_token_y_mint :: pubkey
  lb_reserve_x :: pubkey
  lb_reserve_y :: pubkey
  lb_oracle :: pubkey

definition lb_pair_decode :: "pubkey \<Rightarrow> bytes \<Rightarrow> lb_pair_state option" where
  "lb_pair_decode pool data = do {
     base_factor \<leftarrow> u16_at data 8;
     filter_period \<leftarrow> u16_at data 10;
     decay_period \<leftarrow> u16_at data 12;
     reduction_factor \<leftarrow> u16_at data 14;
     variable_fee_control \<leftarrow> u32_at data 16;
     max_volatility_accumulator \<leftarrow> u32_at data 20;
     protocol_share \<leftarrow> u16_at data 32;
     base_fee_power_factor \<leftarrow> u8_at data 34;
     collect_fee_mode \<leftarrow> u8_at data 36;
     active_id \<leftarrow> i32_at data 76;
     bin_step \<leftarrow> u16_at data 80;
     status \<leftarrow> u8_at data 82;
     token_x_mint \<leftarrow> pubkey_at data 88;
     token_y_mint \<leftarrow> pubkey_at data 120;
     reserve_x \<leftarrow> pubkey_at data 152;
     reserve_y \<leftarrow> pubkey_at data 184;
     oracle \<leftarrow> pubkey_at data 552;
     Some \<lparr>lb_pool = pool,
       lb_parameters = \<lparr>st_base_factor = base_factor, st_filter_period = filter_period,
         st_decay_period = decay_period, st_reduction_factor = reduction_factor,
         st_variable_fee_control = variable_fee_control,
         st_max_volatility_accumulator = max_volatility_accumulator, st_protocol_share = protocol_share,
         st_base_fee_power_factor = base_fee_power_factor, st_collect_fee_mode = collect_fee_mode\<rparr>,
       lb_active_id = active_id, lb_bin_step = bin_step, lb_status = status,
       lb_token_x_mint = token_x_mint, lb_token_y_mint = token_y_mint, lb_reserve_x = reserve_x,
       lb_reserve_y = reserve_y, lb_oracle = oracle\<rparr>
   }"

definition decode_v_parameters :: "bytes \<Rightarrow> variable_parameters option" where
  "decode_v_parameters data = do {
     volatility_accumulator \<leftarrow> u32_at data 40;
     volatility_reference \<leftarrow> u32_at data 44;
     index_reference \<leftarrow> i32_at data 48;
     last_update_timestamp \<leftarrow> i64_at data 56;
     Some \<lparr>va_volatility_accumulator = volatility_accumulator,
       va_volatility_reference = volatility_reference, va_index_reference = index_reference,
       va_last_update_timestamp = last_update_timestamp\<rparr>
   }"

record dlmm_market =
  dl_state :: lb_pair_state
  dl_v_params :: variable_parameters
  dl_token_program_x :: pubkey
  dl_token_program_y :: pubkey
  dl_decimals_x :: u8
  dl_decimals_y :: u8
  dl_reserve_x_balance :: u64
  dl_reserve_y_balance :: u64
  dl_transfer_fee_x :: "transfer_fee_schedule option"
  dl_transfer_fee_y :: "transfer_fee_schedule option"
  dl_bins :: "decoded_bin list"
  dl_available_array_indices :: "i64 list"
  dl_has_bitmap_extension :: bool

definition ordered_bins :: "decoded_bin list \<Rightarrow> decoded_bin list" where
  "ordered_bins bins = dedup_by_key bn_id (sort_key bn_id bins)"

section \<open>Loading\<close>

text \<open>Every array the batch returned, decoded; the first that does not decode ends the load.\<close>

fun read_bin_arrays ::
  "sdk \<Rightarrow> pubkey \<Rightarrow> account option list \<Rightarrow> nat \<Rightarrow> i64 list \<Rightarrow> (decoded_bin list \<times> i64 list) direct_result" where
  "read_bin_arrays sdk pool accounts n [] = Inr ([], [])"
| "read_bin_arrays sdk pool accounts n (index # rest) =
     (case account_entry accounts n of
        None \<Rightarrow> read_bin_arrays sdk pool accounts (Suc n) rest
      | Some found \<Rightarrow>
        (case decode_bin_array (acc_data found) index of
           None \<Rightarrow> Inl (PoolUndecodable pool (''bin array ''
                     @ show_pubkey sdk (bin_array_address sdk (dlmm_program_id sdk) pool index)
                     @ '' did not match the expected layout''))
         | Some decoded \<Rightarrow>
             rbind (read_bin_arrays sdk pool accounts (Suc n) rest)
               (\<lambda>(bins, indices). Inr (decoded @ bins, index # indices))))"

definition dlmm_load :: "sdk \<Rightarrow> account_reader \<Rightarrow> pubkey \<Rightarrow> account \<Rightarrow> dlmm_market direct_result" where
  "dlmm_load sdk read pool pool_account =
     rbind (ok_or (lb_pair_decode pool (acc_data pool_account))
              (PoolUndecodable pool (''LbPair state did not match the expected layout (''
                 @ show_nat (length (acc_data pool_account)) @ '' bytes)''))) (\<lambda>state.
     if lb_status state \<noteq> 0 then
       Inl (PoolNotTradable pool ''the pair's status byte is not Enabled'')
     else
       let program = dlmm_program_id sdk;
           array_indices = dlmm_nearby_arrays (bin_id_to_array_index (lb_active_id state));
           fixed = [lb_reserve_x state, lb_reserve_y state, lb_token_x_mint state, lb_token_y_mint state,
                    from_str sdk CLOCK_SYSVAR, dlmm_bitmap_extension_address sdk program pool];
           addresses = fixed @ map (bin_array_address sdk program pool) array_indices;
           required = fetched ''account does not exist'' addresses
       in rbind (map_err (\<lambda>e. AccountUnavailable pool (''LbPair accounts could not be read: '' @ e))
                   (read addresses)) (\<lambda>accounts.
       rbind (required accounts 0) (\<lambda>reserve_x_account.
       rbind (ok_or (token_account_amount (acc_data reserve_x_account))
                (PoolUndecodable pool ''reserve_x is not a token account'')) (\<lambda>reserve_x_balance.
       rbind (required accounts 1) (\<lambda>reserve_y_account.
       rbind (ok_or (token_account_amount (acc_data reserve_y_account))
                (PoolUndecodable pool ''reserve_y is not a token account'')) (\<lambda>reserve_y_balance.
       rbind (required accounts 2) (\<lambda>mint_x_account.
       rbind (required accounts 3) (\<lambda>mint_y_account.
       rbind (ok_or (mint_decimals (acc_data mint_x_account))
                (PoolUndecodable pool ''token_x_mint is not a mint account'')) (\<lambda>decimals_x.
       rbind (ok_or (mint_decimals (acc_data mint_y_account))
                (PoolUndecodable pool ''token_y_mint is not a mint account'')) (\<lambda>decimals_y.
       if mint_has_transfer_hook sdk mint_x_account \<or> mint_has_transfer_hook sdk mint_y_account then
         Inl (PoolNotTradable pool
           ''one of this pool's mints carries a Token-2022 transfer hook, which this venue does not build accounts for'')
       else
       rbind (required accounts 4) (\<lambda>clock_account.
       rbind (ok_or (i64_at (acc_data clock_account) 32)
                (PoolUndecodable pool ''the clock sysvar did not match the expected layout'')) (\<lambda>now.
       rbind (ok_or (decode_v_parameters (acc_data pool_account))
                (PoolUndecodable pool ''v_parameters did not match the expected layout'')) (\<lambda>raw_v_params.
       rbind (read_bin_arrays sdk pool accounts (length fixed) array_indices) (\<lambda>(bins, available).
       if available = [] then
         Inl (PoolNotTradable pool ''not one bin array around the active bin exists on chain'')
       else Inr \<lparr>dl_state = state,
              dl_v_params = update_references raw_v_params now (lb_active_id state) (lb_parameters state),
              dl_token_program_x = acc_owner mint_x_account, dl_token_program_y = acc_owner mint_y_account,
              dl_decimals_x = decimals_x, dl_decimals_y = decimals_y,
              dl_reserve_x_balance = reserve_x_balance, dl_reserve_y_balance = reserve_y_balance,
              dl_transfer_fee_x = read_transfer_fee_schedule sdk mint_x_account,
              dl_transfer_fee_y = read_transfer_fee_schedule sdk mint_y_account,
              dl_bins = ordered_bins bins, dl_available_array_indices = available,
              dl_has_bitmap_extension = (account_entry accounts 5 \<noteq> None)\<rparr>))))))))))))))"

section \<open>Prices\<close>

definition MAX_EXPONENTIAL :: u32 where "MAX_EXPONENTIAL = 0x80000"

text \<open>
  The squaring loop: \<open>k\<close> counts the rounds, and the code's mask is \<open>push_bit k 1\<close>, zero once it is
  shifted out of its 32 bits.
\<close>

function pow_loop :: "u32 \<Rightarrow> u32 \<Rightarrow> nat \<Rightarrow> u128 \<Rightarrow> u128 \<Rightarrow> u128 option" where
  "pow_loop exponent remaining k squared_base result =
     (let bit = push_bit k 1 in
      if remaining = 0 \<or> bit = 0 then Some result
      else do {
        result \<leftarrow> (if exponent AND bit \<noteq> 0
                   then do { p \<leftarrow> checked_mul result squared_base; Some (drop_bit SCALE_OFFSET p) }
                   else Some result);
        square \<leftarrow> checked_mul squared_base squared_base;
        let squared_base = drop_bit SCALE_OFFSET square;
        let remaining = remaining AND NOT bit;
        let next_bit = push_bit (k + 1) 1;
        if next_bit = 0 \<or> MAX_EXPONENTIAL < next_bit then Some result
        else pow_loop exponent remaining (k + 1) squared_base result
      })"
  by auto
termination
proof (relation "measure (\<lambda>(_, _, k, _). 32 - k)", goal_cases)
  case (2 exponent remaining k squared_base result bit r square squared_base' remaining' next_bit)
  have "k < 32"
  proof (rule ccontr)
    assume "\<not> k < 32"
    then have "push_bit k (1 :: u32) = 0" by (simp add: push_bit_eq_mult)
    with 2 show False by simp
  qed
  then show ?case by simp
qed simp

declare pow_loop.simps [simp del]

definition pow_q64 :: "u128 \<Rightarrow> i32 \<Rightarrow> u128 option" where
  "pow_q64 base exponent =
     (let one = push_bit SCALE_OFFSET 1 in
      if exponent = 0 then Some one
      else
        let magnitude = (of_int \<bar>exponent\<bar> :: u32) in
        if MAX_EXPONENTIAL \<le> magnitude then None
        else do {
          (squared_base, invert) \<leftarrow>
            (if one \<le> base
             then do { inverse \<leftarrow> checked_div (- 1) base; Some (inverse, \<not> (exponent < 0)) }
             else Some (base, exponent < 0));
          result \<leftarrow> pow_loop magnitude magnitude 0 squared_base one;
          if result = 0 then None
          else if invert then Some (- 1 div result)
          else Some result
        })"

definition get_price_from_id :: "i32 \<Rightarrow> u16 \<Rightarrow> u128 option" where
  "get_price_from_id bin_id bin_step =
     (let one = push_bit SCALE_OFFSET 1;
          bps = push_bit SCALE_OFFSET (ucast bin_step) div DLMM_BASIS_POINT_MAX
      in do { base \<leftarrow> checked_add one bps; pow_q64 base bin_id })"

datatype rounding = Up | Down

text \<open>\<^verbatim>\<open>try_into().ok()\<close> from 128 to 64 bits.\<close>

definition narrow_u64 :: "u128 \<Rightarrow> u64 option" where
  "narrow_u64 w = (if unat w < 2 ^ 64 then Some (ucast w) else None)"

definition mul_div_rounded :: "rounding \<Rightarrow> u128 \<Rightarrow> u128 \<Rightarrow> u128 \<Rightarrow> u128 option" where
  "mul_div_rounded r a b d = (case r of Up \<Rightarrow> mul_div_ceil a b d | Down \<Rightarrow> mul_div_floor a b d)"

definition get_amount_out :: "u64 \<Rightarrow> u128 \<Rightarrow> bool \<Rightarrow> rounding \<Rightarrow> u64 option" where
  "get_amount_out amount_in price swap_for_y r =
     (let denominator = push_bit SCALE_OFFSET 1 in
      Option.bind (if swap_for_y then mul_div_rounded r price (ucast amount_in) denominator
                   else mul_div_rounded r (ucast amount_in) denominator price) narrow_u64)"

definition get_amount_in :: "u64 \<Rightarrow> u128 \<Rightarrow> bool \<Rightarrow> rounding \<Rightarrow> u64 option" where
  "get_amount_in amount_out price swap_for_y r =
     (let denominator = push_bit SCALE_OFFSET 1 in
      Option.bind (if swap_for_y then mul_div_rounded r (ucast amount_out) denominator price
                   else mul_div_rounded r (ucast amount_out) price denominator) narrow_u64)"

section \<open>Fees\<close>

definition quote_math_error :: direct_swap_error where
  "quote_math_error = QuoteMath ''DLMM bin/fee arithmetic overflowed''"

definition dlmm_fee_on_input :: "dlmm_market \<Rightarrow> bool \<Rightarrow> bool" where
  "dlmm_fee_on_input m swap_for_y =
     (if st_collect_fee_mode (lb_parameters (dl_state m)) = 1 then \<not> swap_for_y else True)"

definition total_fee_rate :: "dlmm_market \<Rightarrow> u32 \<Rightarrow> u128" where
  "total_fee_rate m volatility_accumulator =
     (let p = lb_parameters (dl_state m);
          bin_step = ucast (lb_bin_step (dl_state m)) :: u128;
          base_fee = ucast (st_base_factor p) * bin_step * 10 * 10 ^ unat (st_base_fee_power_factor p);
          variable_fee =
            (if 0 < st_variable_fee_control p then
               let square = ucast volatility_accumulator * bin_step;
                   square = saturating_mul square square;
                   v_fee = saturating_mul (ucast (st_variable_fee_control p)) square
               in (v_fee + 99999999999) div 100000000000
             else 0)
      in min (base_fee + variable_fee) MAX_FEE_RATE)"

definition fee_from_amount :: "u128 \<Rightarrow> u64 \<Rightarrow> u64 option" where
  "fee_from_amount rate amount_with_fee =
     Option.bind (mul_div_ceil (ucast amount_with_fee) rate FEE_PRECISION) narrow_u64"

definition fee_from_excluded_amount :: "u128 \<Rightarrow> u64 \<Rightarrow> u64 option" where
  "fee_from_excluded_amount rate amount_excluding_fee = do {
     denominator \<leftarrow> checked_sub FEE_PRECISION rate;
     if denominator = 0 then None
     else Option.bind (mul_div_ceil (ucast amount_excluding_fee) rate denominator) narrow_u64
   }"

section \<open>One bin\<close>

definition bin_cap :: "bool \<Rightarrow> decoded_bin \<Rightarrow> u64" where
  "bin_cap swap_for_y b = (if swap_for_y then bn_amount_y b else bn_amount_x b)"

text \<open>What a bin takes, pays out and charges for an exact input.\<close>

definition quote_bin ::
  "decoded_bin \<Rightarrow> u128 \<Rightarrow> u64 \<Rightarrow> bool \<Rightarrow> bool \<Rightarrow> u128 \<Rightarrow> (u64 \<times> u64 \<times> u64) direct_result" where
  "quote_bin b price amount_in swap_for_y fee_on_input rate =
     (let cap = bin_cap swap_for_y b in
      rbind (if fee_on_input
             then rbind (ok_or (fee_from_amount rate amount_in) quote_math_error)
                    (\<lambda>fee. Inr (fee, saturating_sub amount_in fee))
             else Inr (0, amount_in)) (\<lambda>(trading_fee, excluded_in).
      rbind (if cap = 0 then Inr (0, excluded_in, 0)
             else rbind (ok_or (get_amount_in cap price swap_for_y Up) quote_math_error) (\<lambda>max_amount_in.
               if max_amount_in \<le> excluded_in
               then Inr (max_amount_in, saturating_sub excluded_in max_amount_in, cap)
               else rbind (ok_or (get_amount_out excluded_in price swap_for_y Down) quote_math_error)
                      (\<lambda>out. Inr (excluded_in, 0, out))))
        (\<lambda>(amount_in_mm, amount_left, out_amount).
      rbind (if 0 < amount_left then
               if fee_on_input
               then rbind (ok_or (fee_from_excluded_amount rate amount_in_mm) quote_math_error)
                      (\<lambda>fee. Inr (fee, saturating_add amount_in_mm fee))
               else Inr (trading_fee, amount_in_mm)
             else Inr (trading_fee, amount_in)) (\<lambda>(trading_fee, included_in).
      if \<not> fee_on_input
      then rbind (ok_or (fee_from_amount rate out_amount) quote_math_error)
             (\<lambda>fee. Inr (included_in, saturating_sub out_amount fee, fee))
      else Inr (included_in, out_amount, trading_fee)))))"

section \<open>The walk\<close>

definition bin_volatility :: "dlmm_market \<Rightarrow> i32 \<Rightarrow> u32" where
  "bin_volatility m active_id =
     (let delta = (of_int \<bar>va_index_reference (dl_v_params m) - active_id\<bar> :: u64)
      in ucast (min (saturating_add (ucast (va_volatility_reference (dl_v_params m)))
                       (saturating_mul delta (ucast DLMM_BASIS_POINT_MAX)))
                    (ucast (st_max_volatility_accumulator (lb_parameters (dl_state m))))))"

definition find_bin :: "dlmm_market \<Rightarrow> i32 \<Rightarrow> decoded_bin option" where
  "find_bin m active_id = find (\<lambda>b. bn_id b = active_id) (dl_bins m)"

text \<open>The fill of the active bin: nothing from an empty one.\<close>

definition fill_active :: "dlmm_market \<Rightarrow> bool \<Rightarrow> i32 \<Rightarrow> decoded_bin \<Rightarrow> u64 \<Rightarrow> (u64 \<times> u64 \<times> u64) direct_result"
where
  "fill_active m swap_for_y active_id b amount_left =
     (if 0 < bin_cap swap_for_y b then
        let rate = total_fee_rate m (bin_volatility m active_id) in
        rbind (ok_or (get_price_from_id active_id (lb_bin_step (dl_state m))) quote_math_error) (\<lambda>price.
        rbind (quote_bin b price amount_left swap_for_y (dlmm_fee_on_input m swap_for_y) rate)
          (\<lambda>(consumed, out, fee). if 0 < consumed then Inr (consumed, out, fee) else Inr (0, 0, 0)))
      else Inr (0, 0, 0))"

function dlmm_walk_loop ::
  "dlmm_market \<Rightarrow> bool \<Rightarrow> u64 \<Rightarrow> i32 \<Rightarrow> u64 \<Rightarrow> u64 \<Rightarrow> u64 \<Rightarrow> (u64 \<times> u64) direct_result" where
  "dlmm_walk_loop m swap_for_y amount_in active_id amount_left total_out total_fee =
     (if amount_left = 0 then Inr (total_out, total_fee)
      else
        case find_bin m active_id of
          None \<Rightarrow> Inl (InsufficientLiquidity (lb_pool (dl_state m)) amount_in
                    ''the size travels further than the loaded bin arrays cover'')
        | Some b \<Rightarrow>
          (case fill_active m swap_for_y active_id b amount_left of
             Inl e \<Rightarrow> Inl e
           | Inr (consumed, out, fee) \<Rightarrow>
             let rest = saturating_sub amount_left consumed;
                 next_id = (if swap_for_y then active_id - 1 else active_id + 1)
             in if 0 < rest \<and> (next_id < - (2 ^ 31) \<or> 2 ^ 31 \<le> next_id) then Inl quote_math_error
                else dlmm_walk_loop m swap_for_y amount_in (if 0 < rest then next_id else active_id)
                       rest (saturating_add total_out out) (saturating_add total_fee fee)))"
  by auto
termination
proof (relation "measure (\<lambda>(m, swap_for_y, _, active_id, amount_left, _).
    (if amount_left = 0 then 0 else 1) +
    (if swap_for_y then nat (active_id + 2 ^ 31) else nat (2 ^ 31 - active_id)))", goal_cases)
  case (2 m swap_for_y amount_in active_id amount_left total_out total_fee b r consumed p out fee rest next_id)
  show ?case
  proof (cases "rest = 0")
    case True
    then show ?thesis using 2 by simp
  next
    case False
    then have "- (2 ^ 31) \<le> next_id" "next_id < 2 ^ 31" "0 < rest" using 2 by (auto simp: word_gt_0)
    then show ?thesis using 2 by (auto split: if_splits)
  qed
qed simp

declare dlmm_walk_loop.simps [simp del]

definition dlmm_walk :: "dlmm_market \<Rightarrow> bool \<Rightarrow> u64 \<Rightarrow> (u64 \<times> u64 \<times> bool) direct_result" where
  "dlmm_walk m swap_for_y amount_in =
     rbind (dlmm_walk_loop m swap_for_y amount_in (lb_active_id (dl_state m)) amount_in 0 0)
       (\<lambda>(total_out, total_fee). Inr (total_out, total_fee, dlmm_fee_on_input m swap_for_y))"

section \<open>The market\<close>

definition is_side_x :: "dlmm_market \<Rightarrow> pubkey \<Rightarrow> bool option" where
  "is_side_x m mint = side_of (lb_token_x_mint (dl_state m)) (lb_token_y_mint (dl_state m)) mint"

definition dlmm_transfer_fee :: "dlmm_market \<Rightarrow> bool \<Rightarrow> transfer_fee_schedule option" where
  "dlmm_transfer_fee m side_x = (if side_x then dl_transfer_fee_x m else dl_transfer_fee_y m)"

definition dlmm_price_impact :: "dlmm_market \<Rightarrow> bool \<Rightarrow> u64 \<Rightarrow> u64 \<Rightarrow> f64" where
  "dlmm_price_impact m swap_for_y received_by_pool gross_out =
     (let price = (case get_price_from_id (lb_active_id (dl_state m)) (lb_bin_step (dl_state m)) of
                     None \<Rightarrow> 0 | Some p \<Rightarrow> p);
          price_before = f64_div (f64_of_u128 price) (Finite (2 ^ 64));
          realised = (if 0 < received_by_pool
                      then f64_div (f64_of_u64 gross_out) (f64_of_u64 received_by_pool) else Finite 0)
      in if f64_less (Finite 0) price_before then
           let spot = (if swap_for_y then price_before
                       else if f64_less (Finite 0) price_before then f64_div (Finite 1) price_before
                       else Finite 0)
           in if f64_less (Finite 0) spot then
                f64_clamp (f64_mul (f64_div (f64_abs (f64_sub spot realised)) spot) (Finite 100))
                  (Finite 0) (Finite 100)
              else Finite 0
         else Finite 0)"

definition dlmm_output_vault :: "dlmm_market \<Rightarrow> bool \<Rightarrow> u64" where
  "dlmm_output_vault m swap_for_y = (if swap_for_y then dl_reserve_y_balance m else dl_reserve_x_balance m)"

definition dlmm_quote :: "dlmm_market \<Rightarrow> pubkey \<Rightarrow> u64 \<Rightarrow> venue_quote direct_result" where
  "dlmm_quote m input_mint amount_in =
     (let pool = lb_pool (dl_state m) in
      rbind (ok_or (is_side_x m input_mint) (PairNotInPool pool input_mint default_pubkey)) (\<lambda>swap_for_y.
      let received_by_pool = net_of_fee (dlmm_transfer_fee m swap_for_y) amount_in in
      if received_by_pool = 0 then
        Inl (InsufficientLiquidity pool amount_in
               ''the input transfer fee consumes the whole amount at this size'')
      else
        rbind (dlmm_walk m swap_for_y received_by_pool) (\<lambda>(gross_out, walk_fee, fee_on_input).
        if gross_out = 0 then
          Inl (InsufficientLiquidity pool amount_in ''fees consume the whole input at this size'')
        else
          let expected_out = net_of_fee (dlmm_transfer_fee m (\<not> swap_for_y)) gross_out in
          if expected_out = 0 then
            Inl (InsufficientLiquidity pool amount_in
                   ''the output transfer fee consumes the whole amount at this size'')
          else if dlmm_output_vault m swap_for_y \<le> expected_out then
            Inl (InsufficientLiquidity pool amount_in ''the output exceeds what the pool's vault holds'')
          else
            let lp_fee = (if fee_on_input then walk_fee
                          else fee_in_input_units walk_fee received_by_pool gross_out)
            in Inr \<lparr>vq_amount_in = amount_in, vq_expected_out = expected_out, vq_lp_fee = lp_fee,
                    vq_price_impact_pct = dlmm_price_impact m swap_for_y received_by_pool gross_out\<rparr>)))"

definition bin_array_indices :: "dlmm_market \<Rightarrow> bool \<Rightarrow> i64 list" where
  "bin_array_indices m swap_for_y =
     take BIN_ARRAYS_PER_SWAP
       (filter (\<lambda>index. index \<in> set (dl_available_array_indices m))
         (candidate_array_indices (bin_id_to_array_index (lb_active_id (dl_state m))) swap_for_y))"

definition bin_array_accounts :: "sdk \<Rightarrow> dlmm_market \<Rightarrow> bool \<Rightarrow> pubkey list" where
  "bin_array_accounts sdk m swap_for_y =
     map (bin_array_address sdk (dlmm_program_id sdk) (lb_pool (dl_state m))) (bin_array_indices m swap_for_y)"

definition dlmm_swap_instruction ::
  "sdk \<Rightarrow> dlmm_market \<Rightarrow> swap_accounts \<Rightarrow> u64 \<Rightarrow> u64 \<Rightarrow> instruction direct_result" where
  "dlmm_swap_instruction sdk m acc amount_in min_out =
     (let s = dl_state m; pool = lb_pool s in
      rbind (swap_direction pool (lb_token_x_mint s) (lb_token_y_mint s) acc) (\<lambda>swap_for_y.
      let bin_arrays = bin_array_accounts sdk m swap_for_y in
      if bin_arrays = [] then
        Inl (InsufficientLiquidity pool amount_in ''no bin array in the swap direction exists on chain'')
      else
        let program = dlmm_program_id sdk in
        Inr \<lparr>ix_program = program,
          ix_accounts =
            [meta_new pool False,
             (if dl_has_bitmap_extension m then meta_new (dlmm_bitmap_extension_address sdk program pool) False
              else meta_readonly program False),
             meta_new (lb_reserve_x s) False,
             meta_new (lb_reserve_y s) False,
             meta_new (sa_input_token_account acc) False,
             meta_new (sa_output_token_account acc) False,
             meta_readonly (lb_token_x_mint s) False,
             meta_readonly (lb_token_y_mint s) False,
             meta_new (lb_oracle s) False,
             meta_readonly program False,
             meta_readonly (sa_owner acc) True,
             meta_readonly (dl_token_program_x m) False,
             meta_readonly (dl_token_program_y m) False,
             meta_readonly (dlmm_memo_program_id sdk) False,
             meta_readonly (dlmm_event_authority_address sdk program) False,
             meta_readonly program False]
            @ map (\<lambda>array. meta_new array False) bin_arrays,
          ix_data = SWAP2 @ to_le_bytes_u64 amount_in @ to_le_bytes_u64 min_out @ le_bytes 4 0\<rparr>))"

definition dlmm_pool_market :: "sdk \<Rightarrow> dlmm_market \<Rightarrow> pool_market" where
  "dlmm_pool_market sdk m =
     \<lparr>pm_program = MeteoraDlmm, pm_pool = lb_pool (dl_state m),
      pm_mints = (lb_token_x_mint (dl_state m), lb_token_y_mint (dl_state m)),
      pm_token_program = (\<lambda>mint. map_option (\<lambda>x. if x then dl_token_program_x m else dl_token_program_y m)
                                   (is_side_x m mint)),
      pm_decimals = (\<lambda>mint. map_option (\<lambda>x. if x then dl_decimals_x m else dl_decimals_y m) (is_side_x m mint)),
      pm_quote = dlmm_quote m, pm_swap_instruction = dlmm_swap_instruction sdk m,
      pm_compute_units = DLMM_COMPUTE_UNITS, pm_settles_native_sol = False\<rparr>"

section \<open>The laws of a venue\<close>

lemma dlmm_quote_Inr:
  assumes "dlmm_quote m mint amount = Inr q"
  obtains side gross fee where "is_side_x m mint = Some side"
    and "net_of_fee (dlmm_transfer_fee m side) amount \<noteq> 0"
    and "dlmm_walk_loop m side (net_of_fee (dlmm_transfer_fee m side) amount) (lb_active_id (dl_state m))
           (net_of_fee (dlmm_transfer_fee m side) amount) 0 0 = Inr (gross, fee)"
    and "vq_amount_in q = amount"
    and "vq_lp_fee q = (if dlmm_fee_on_input m side then fee
           else fee_in_input_units fee (net_of_fee (dlmm_transfer_fee m side) amount) gross)"
    and "vq_expected_out q = net_of_fee (dlmm_transfer_fee m (\<not> side)) gross"
    and "vq_expected_out q \<noteq> 0" and "vq_expected_out q < dlmm_output_vault m side"
  using assms
  by (auto simp: dlmm_quote_def dlmm_walk_def Let_def res_simps not_le intro!: that split: prod.splits if_splits)

lemma quote_bin_errs [errs_intros]:
  "errs (\<lambda>e. \<not> submitted e) (quote_bin b price amount z on_input rate)"
  unfolding quote_bin_def quote_math_error_def Let_def by (intro errs_intros) simp_all

lemma fill_active_errs [errs_intros]: "errs (\<lambda>e. \<not> submitted e) (fill_active m z active_id b amount)"
  unfolding fill_active_def quote_math_error_def Let_def by (intro errs_intros) simp_all

lemma dlmm_walk_loop_errs: "errs (\<lambda>e. \<not> submitted e) (dlmm_walk_loop m z amount active_id rest out fee)"
proof (induction m z amount active_id rest out fee rule: dlmm_walk_loop.induct)
  case (1 m z amount active_id rest out fee)
  show ?case
    by (subst dlmm_walk_loop.simps) (unfold Let_def, intro errs_intros 1; simp add: quote_math_error_def)
qed

lemma dlmm_quote_errs: "errs (\<lambda>e. \<not> submitted e) (dlmm_quote m mint amount)"
  unfolding dlmm_quote_def dlmm_walk_def Let_def by (intro errs_intros dlmm_walk_loop_errs) simp_all

lemma dlmm_ix:
  assumes "dlmm_swap_instruction sdk m acc amount min_out = Inr ix"
  obtains side where "swap_direction (lb_pool (dl_state m)) (lb_token_x_mint (dl_state m))
      (lb_token_y_mint (dl_state m)) acc = Inr side"
    and "ix_program ix = dlmm_program_id sdk"
    and "\<And>me. me \<in> set (ix_accounts ix) \<Longrightarrow> meta_signer me \<Longrightarrow> meta_key me = sa_owner acc"
    and "map meta_key (drop 16 (ix_accounts ix)) = bin_array_accounts sdk m side"
proof -
  from assms obtain side where
    side: "swap_direction (lb_pool (dl_state m)) (lb_token_x_mint (dl_state m)) (lb_token_y_mint (dl_state m)) acc
      = Inr side"
    by (auto simp: dlmm_swap_instruction_def Let_def rbind_Inr_iff)
  show thesis
    by (rule that [OF side])
      (use assms side in \<open>auto simp: dlmm_swap_instruction_def Let_def meta_new_def meta_readonly_def comp_def
        split: if_splits\<close>)
qed

lemma dlmm_ix_errs: "errs (\<lambda>e. \<not> submitted e) (dlmm_swap_instruction sdk m acc amount min_out)"
  unfolding dlmm_swap_instruction_def Let_def by (intro errs_intros) simp_all

lemma dlmm_market_simps [simp]:
  "pm_mints (dlmm_pool_market sdk m) = (lb_token_x_mint (dl_state m), lb_token_y_mint (dl_state m))"
  "pm_quote (dlmm_pool_market sdk m) = dlmm_quote m"
  "pm_swap_instruction (dlmm_pool_market sdk m) = dlmm_swap_instruction sdk m"
  "pm_token_program (dlmm_pool_market sdk m) mint
     = map_option (\<lambda>x. if x then dl_token_program_x m else dl_token_program_y m) (is_side_x m mint)"
  by (simp_all add: dlmm_pool_market_def)

text \<open>No bound on the reported pool fee here: with the fee on the output side it can exceed the input.\<close>

interpretation dlmm: market_laws "dlmm_pool_market sdk" "\<lambda>_. dlmm_program_id sdk" "\<lambda>_. True" for sdk
proof (unfold_locales, goal_cases)
  case (1 s mint amount q)
  then show ?case by (auto elim: dlmm_quote_Inr)
next
  case (2 s mint amount q)
  then show ?case by (auto simp: is_side_x_def side_of_Some elim!: dlmm_quote_Inr split: if_splits)
next
  case (3 s mint amount e)
  then show ?case using errsD [OF dlmm_quote_errs] by simp
next
  case (4 s acc amount min_out ix)
  then show ?case by (auto simp: trades_def elim!: dlmm_ix dest!: swap_direction_Inr)
next
  case (5 s acc amount min_out ix)
  then show ?case by (auto elim: dlmm_ix)
next
  case (6 s acc amount min_out ix m)
  then show ?case by (auto elim: dlmm_ix)
next
  case (7 s acc amount min_out e)
  then show ?case using errsD [OF dlmm_ix_errs] by simp
next
  case (8 s mint)
  then show ?case by (simp add: is_side_x_def)
qed

section \<open>A bin is fair\<close>

lemma narrow_u64_Some: "narrow_u64 w = Some x \<Longrightarrow> unat x = unat w"
  by (auto simp: narrow_u64_def unat_narrow split: if_splits)

lemma fee_from_amount_Some:
  "fee_from_amount rate a = Some f \<Longrightarrow> unat f = cdiv (unat a * unat rate) 1000000000"
  by (auto simp: fee_from_amount_def res_simps mul_div_ceil_Some FEE_PRECISION_def dest: narrow_u64_Some)

lemma fee_from_excluded_amount_Some:
  "fee_from_excluded_amount rate a = Some f \<Longrightarrow>
     unat rate < 1000000000 \<and> unat f = cdiv (unat a * unat rate) (1000000000 - unat rate)"
  by (auto simp: fee_from_excluded_amount_def res_simps mul_div_ceil_Some FEE_PRECISION_def checked_sub_def
      word_le_nat_alt unat_sub_exact unat_gt_0 order_le_less dest!: narrow_u64_Some split: if_splits)
    (simp add: word_unat_eq_iff)

text \<open>Prices and amounts: \<open>worth z p x\<close> bounds what \<open>x\<close> buys at a price.\<close>

definition worth :: "bool \<Rightarrow> nat \<Rightarrow> nat \<Rightarrow> nat \<Rightarrow> bool" where
  "worth z p x y \<longleftrightarrow> (if z then y * 2 ^ 64 \<le> p * x else y * p \<le> x * 2 ^ 64)"

lemma get_amount_in_Some:
  assumes "get_amount_in y p z Up = Some x"
  shows "worth z (unat p) (unat x) (unat y) \<and> (\<forall>x' < unat x. \<not> worth z (unat p) x' (unat y))"
proof -
  define d n where "d = (if z then unat p else 2 ^ 64)" and "n = unat y * (if z then 2 ^ 64 else unat p)"
  have one: "unat (push_bit 64 1 :: u128) = 2 ^ 64" by (simp add: unat_push_bit)
  have d: "0 < d" and x: "unat x = cdiv n d"
    using assms one
    by (auto simp: get_amount_in_def res_simps mul_div_rounded_def mul_div_ceil_Some SCALE_OFFSET_def
        unat_gt_0 d_def n_def split: if_splits dest!: narrow_u64_Some)
  have n: "worth z (unat p) x' (unat y) \<longleftrightarrow> n \<le> x' * d" for x'
    by (simp add: worth_def d_def n_def mult.commute)
  show ?thesis unfolding n x using cdiv_le_iff [OF d, of n] by (meson le_refl not_le)
qed

lemma get_amount_out_Some:
  assumes "get_amount_out x p z Down = Some y"
  shows "worth z (unat p) (unat x) (unat y) \<and> (\<forall>c. \<not> worth z (unat p) (unat x) c \<longrightarrow> unat y \<le> c)"
proof -
  define d n where "d = (if z then 2 ^ 64 else unat p)" and "n = (if z then unat p * unat x else unat x * 2 ^ 64)"
  have one: "unat (push_bit 64 1 :: u128) = 2 ^ 64" by (simp add: unat_push_bit)
  have d: "0 < d" and y: "unat y = n div d"
    using assms one
    by (auto simp: get_amount_out_def res_simps mul_div_rounded_def mul_div_floor_Some SCALE_OFFSET_def
        unat_gt_0 d_def n_def split: if_splits dest!: narrow_u64_Some)
  have n: "worth z (unat p) (unat x) c \<longleftrightarrow> c * d \<le> n" for c
    by (simp add: worth_def d_def n_def)
  show ?thesis unfolding n y using less_eq_div_iff_mult_less_eq [OF d] by (meson le_refl nat_le_linear)
qed

text \<open>The fee fits beside what the bin used of the input.\<close>

lemma included_fits:
  fixes a mm r :: nat
  assumes "mm \<le> a - cdiv (a * r) P" and "r < P"
  shows "mm + cdiv (mm * r) (P - r) \<le> a"
proof -
  have "a * r \<le> cdiv (a * r) P * P" using assms(2) by (intro cdiv_mult_ge) simp
  moreover have "mm * P \<le> (a - cdiv (a * r) P) * P" using assms(1) by (rule mult_le_mono1)
  moreover have "cdiv (a * r) P \<le> a" using assms(2) by (subst cdiv_le_iff) simp_all
  moreover from this have "cdiv (a * r) P * P \<le> a * P" by (rule mult_le_mono1)
  ultimately have "mm * P + a * r \<le> a * P" unfolding diff_mult_distrib by linarith
  moreover have "mm \<le> a" using assms(1) by linarith
  moreover obtain t u where "a = mm + t" "P = r + u"
    using \<open>mm \<le> a\<close> assms(2) le_Suc_ex less_imp_le by metis
  ultimately have "mm * r \<le> (a - mm) * (P - r)" by (simp add: algebra_simps)
  then have "cdiv (mm * r) (P - r) \<le> a - mm" using assms(2) by (subst cdiv_le_iff) simp_all
  then show ?thesis using \<open>mm \<le> a\<close> by simp
qed

lemma included_fee:
  fixes mm r :: nat
  assumes "r < P"
  shows "r * (mm + cdiv (mm * r) (P - r)) \<le> cdiv (mm * r) (P - r) * P"
proof -
  let ?f = "cdiv (mm * r) (P - r)"
  have "mm * r \<le> ?f * (P - r)" using assms by (intro cdiv_mult_ge) simp
  then have "r * mm + ?f * r \<le> ?f * (P - r) + ?f * r" by (simp add: mult.commute)
  also have "\<dots> = ?f * P" using assms by (simp flip: distrib_left)
  finally show ?thesis by (simp add: distrib_left mult.commute)
qed

text \<open>
  A fill \<open>(x, y, f)\<close> of a bin: it takes \<open>x\<close>, pays out \<open>y\<close> and keeps \<open>f\<close>. The fee is at least the
  rate on the leg it is taken from, the bin gives no more than it holds, and the exchange before the fee is
  no better than the price of the bin.
\<close>

definition fair_fill :: "bool \<Rightarrow> bool \<Rightarrow> nat \<Rightarrow> nat \<Rightarrow> nat \<Rightarrow> nat \<times> nat \<times> nat \<Rightarrow> bool" where
  "fair_fill z on_input p rate cap = (\<lambda>(x, y, f).
     (if on_input then f \<le> x \<and> y \<le> cap \<and> worth z p (x - f) y \<and> rate * x \<le> f * 1000000000
      else y + f \<le> cap \<and> worth z p x (y + f) \<and> rate * (y + f) \<le> f * 1000000000))"

definition drained :: "bool \<Rightarrow> nat \<Rightarrow> nat \<times> nat \<times> nat \<Rightarrow> bool" where
  "drained on_input cap = (\<lambda>(x, y, f). (if on_input then y else y + f) = cap)"

lemma quote_bin_parts:
  assumes "quote_bin b p a z on_input rate = Inr (x, y, f)" and "bin_cap z b \<noteq> 0" and "unat rate < 1000000000"
  defines "e \<equiv> (if on_input then unat a - cdiv (unat a * unat rate) 1000000000 else unat a)"
  obtains mm out where "worth z (unat p) (unat mm) (unat out)" and "unat mm \<le> e"
    and "out = bin_cap z b \<or> unat mm = e \<and> unat out \<le> unat (bin_cap z b)"
    and "unat mm < e \<Longrightarrow> out = bin_cap z b"
    and "on_input \<Longrightarrow> unat f = (if unat mm < e then cdiv (unat mm * unat rate) (1000000000 - unat rate)
           else cdiv (unat a * unat rate) 1000000000) \<and> y = out
           \<and> x = (if unat mm < e then saturating_add mm f else a)"
    and "\<not> on_input \<Longrightarrow> unat f = cdiv (unat out * unat rate) 1000000000 \<and> y = saturating_sub out f
           \<and> x = (if unat mm < e then mm else a)"
proof -
  let ?cap = "bin_cap z b"
  obtain fee0 ex where ex: "unat ex = e" and fee0: "on_input \<Longrightarrow> unat fee0 = cdiv (unat a * unat rate) 1000000000"
    and start: "(if on_input
             then rbind (ok_or (fee_from_amount rate a) quote_math_error) (\<lambda>fee. Inr (fee, saturating_sub a fee))
             else Inr (0, a)) = Inr (fee0, ex)"
    using assms(1) by (auto simp: quote_bin_def Let_def res_simps e_def fee_from_amount_Some split: if_splits)
  obtain mx where mx: "get_amount_in ?cap p z Up = Some mx"
    using assms(1,2) by (auto simp: quote_bin_def Let_def res_simps split: if_splits)
  show thesis
  proof (cases "mx \<le> ex")
    case True
    have left: "0 < saturating_sub ex mx \<longleftrightarrow> unat mx < e"
      using True by (simp add: word_less_nat_alt word_le_nat_alt flip: ex)
    show thesis
    proof (rule that [of mx ?cap])
      show "worth z (unat p) (unat mx) (unat ?cap)" using get_amount_in_Some [OF mx] by simp
      show "unat mx \<le> e" using True ex by (simp add: word_le_nat_alt)
    next
      assume "on_input"
      then show "unat f = (if unat mx < e then cdiv (unat mx * unat rate) (1000000000 - unat rate)
           else cdiv (unat a * unat rate) 1000000000) \<and> y = ?cap
           \<and> x = (if unat mx < e then saturating_add mx f else a)"
        using assms(1,2) True mx start left fee0
        by (auto simp: quote_bin_def Let_def res_simps dest!: fee_from_excluded_amount_Some split: if_splits)
    next
      assume "\<not> on_input"
      then show "unat f = cdiv (unat ?cap * unat rate) 1000000000 \<and> y = saturating_sub ?cap f
           \<and> x = (if unat mx < e then mx else a)"
        using assms(1,2) True mx start left
        by (auto simp: quote_bin_def Let_def res_simps dest!: fee_from_amount_Some split: if_splits)
    qed simp_all
  next
    case False
    obtain out where out: "get_amount_out ex p z Down = Some out"
      using assms(1,2) False mx start by (auto simp: quote_bin_def Let_def res_simps split: if_splits)
    have "unat ex < unat mx" using False by (simp add: word_le_nat_alt)
    then have "\<not> worth z (unat p) (unat ex) (unat ?cap)" using get_amount_in_Some [OF mx] by blast
    then have cap: "unat out \<le> unat ?cap" using get_amount_out_Some [OF out] by blast
    show thesis
    proof (rule that [of ex out])
      show "worth z (unat p) (unat ex) (unat out)" using get_amount_out_Some [OF out] by simp
    next
      assume "on_input"
      then show "unat f = (if unat ex < e then cdiv (unat ex * unat rate) (1000000000 - unat rate)
           else cdiv (unat a * unat rate) 1000000000) \<and> y = out
           \<and> x = (if unat ex < e then saturating_add ex f else a)"
        using assms(1,2) False mx start out ex fee0
        by (auto simp: quote_bin_def Let_def res_simps split: if_splits)
    next
      assume "\<not> on_input"
      then show "unat f = cdiv (unat out * unat rate) 1000000000 \<and> y = saturating_sub out f
           \<and> x = (if unat ex < e then ex else a)"
        using assms(1,2) False mx start out ex
        by (auto simp: quote_bin_def Let_def res_simps dest!: fee_from_amount_Some split: if_splits)
    qed (use cap ex in simp_all)
  qed
qed

lemma quote_bin_fair:
  assumes "quote_bin b p a z on_input rate = Inr (x, y, f)" and "bin_cap z b \<noteq> 0" and "unat rate < 1000000000"
  shows "fair_fill z on_input (unat p) (unat rate) (unat (bin_cap z b)) (unat x, unat y, unat f)
     \<and> x \<le> a \<and> (x < a \<longrightarrow> drained on_input (unat (bin_cap z b)) (unat x, unat y, unat f))"
  using assms
proof (cases rule: quote_bin_parts)
  case (1 mm out)
  let ?e = "if on_input then unat a - cdiv (unat a * unat rate) 1000000000 else unat a"
  have cap: "unat out \<le> unat (bin_cap z b)" using 1(3) by auto
  show ?thesis
  proof (cases on_input)
    case True
    note on = 1(5) [OF True]
    show ?thesis
    proof (cases "unat mm < ?e")
      case less: True
      have fits: "unat mm + unat f \<le> unat a"
        using included_fits [of "unat mm" "unat a" "unat rate" 1000000000] 1(2) on less True assms(3) by simp
      then have x: "unat x = unat mm + unat f"
        using on less unat_u64_lt [of a] by (simp add: unat_saturating_add)
      have f: "cdiv (unat mm * unat rate) (1000000000 - unat rate) = unat f" and y: "y = bin_cap z b"
        using on less True 1(4) by simp_all
      show ?thesis
        using True 1(1,4) less fits included_fee [OF assms(3), of "unat mm", unfolded f]
        by (simp add: fair_fill_def drained_def x y word_le_nat_alt)
    next
      case False
      then have mm: "unat mm = unat a - unat f" using 1(2) on True by simp
      have "cdiv (unat a * unat rate) 1000000000 \<le> unat a" using assms(3) by (subst cdiv_le_iff) simp_all
      moreover have "unat a * unat rate \<le> cdiv (unat a * unat rate) 1000000000 * 1000000000"
        by (rule cdiv_mult_ge) simp
      ultimately show ?thesis
        using True on False 1(1) mm cap by (simp add: fair_fill_def mult.commute)
    qed
  next
    case False
    note off = 1(6) [OF False]
    have fee: "unat f \<le> unat out" using off assms(3) by (simp add: cdiv_le_iff)
    then have gross: "unat y + unat f = unat out" using off by simp
    have rate: "unat rate * unat out \<le> unat f * 1000000000"
      using off cdiv_mult_ge [of 1000000000 "unat out * unat rate"] by (simp add: mult.commute)
    have x: "unat x = unat mm" using off 1(2) False by auto
    show ?thesis
      using False 1(1,2,4) cap rate x by (auto simp: fair_fill_def drained_def gross word_le_nat_alt word_less_nat_alt)
  qed
qed

lemma total_fee_rate_lt: "unat (total_fee_rate m v) < 1000000000"
proof -
  have "total_fee_rate m v \<le> MAX_FEE_RATE" by (simp add: total_fee_rate_def Let_def)
  then show ?thesis by (simp add: word_le_nat_alt MAX_FEE_RATE_def)
qed

lemma get_price_nonzero: "get_price_from_id i step = Some p \<Longrightarrow> p \<noteq> 0"
proof -
  assume "get_price_from_id i step = Some p"
  then consider "p = push_bit 64 1" | r :: u128 where "r \<noteq> 0" "p = r \<or> p = - 1 div r"
    by (auto simp: get_price_from_id_def pow_q64_def Let_def res_simps SCALE_OFFSET_def split: if_splits)
  then show "p \<noteq> 0"
  proof cases
    case (2 r)
    have "unat r \<le> unat (- 1 :: u128)" using unat_u128_lt [of r] by (simp add: unat_all_ones)
    then have "0 < unat (- 1 div r)" using 2(1) by (simp add: unat_div div_greater_zero_iff unat_gt_0)
    then show ?thesis using 2 by auto
  qed simp
qed

lemma quote_bin_takes:
  assumes "quote_bin b p a z on_input rate = Inr (x, y, f)" and "bin_cap z b \<noteq> 0" and "unat rate < 1000000000"
    and "p \<noteq> 0" and "a \<noteq> 0"
  shows "x \<noteq> 0"
  using assms(1-3)
proof (cases rule: quote_bin_parts)
  case (1 mm out)
  have mm: "unat mm \<noteq> 0" if "out = bin_cap z b"
  proof
    assume "unat mm = 0"
    then have "unat (bin_cap z b) * unat p = 0 \<or> unat (bin_cap z b) = 0"
      using 1(1) that by (auto simp: worth_def split: if_splits)
    then show False using assms(2,4) by (simp add: unat_eq_0)
  qed
  have "unat mm \<le> unat (saturating_add mm f)" using unat_u64_lt [of mm] by (simp add: unat_saturating_add)
  then have "saturating_add mm f \<noteq> 0" if "mm \<noteq> 0"
    using that by (metis le_zero_eq unat_0 unat_eq_0)
  then have "unat x \<noteq> 0"
    using 1(4-6) mm assms(5) by (cases on_input) (auto simp: unat_eq_0 split: if_splits)
  then show ?thesis by auto
qed

lemma fill_active_fair:
  assumes "fill_active m z i b a = Inr (x, y, f)" and "a \<noteq> 0"
  shows "if bin_cap z b = 0 then x = 0 \<and> y = 0 \<and> f = 0
     else x \<le> a \<and> (x < a \<longrightarrow> drained (dlmm_fee_on_input m z) (unat (bin_cap z b)) (unat x, unat y, unat f))
       \<and> (\<exists>p. get_price_from_id i (lb_bin_step (dl_state m)) = Some p
         \<and> fair_fill z (dlmm_fee_on_input m z) (unat p) (unat (total_fee_rate m (bin_volatility m i)))
             (unat (bin_cap z b)) (unat x, unat y, unat f))"
proof (cases "bin_cap z b = 0")
  case False
  then obtain p x' y' f' where p: "get_price_from_id i (lb_bin_step (dl_state m)) = Some p"
    and q: "quote_bin b p a z (dlmm_fee_on_input m z) (total_fee_rate m (bin_volatility m i)) = Inr (x', y', f')"
    and eq: "(x, y, f) = (if 0 < x' then (x', y', f') else (0, 0, 0))"
    using assms(1) by (auto simp: fill_active_def Let_def res_simps word_gt_0 split: if_splits)
  have "x' \<noteq> 0" by (rule quote_bin_takes [OF q False total_fee_rate_lt get_price_nonzero [OF p] assms(2)])
  then show ?thesis
    using quote_bin_fair [OF q False total_fee_rate_lt] p eq False by (simp add: word_gt_0)
qed (use assms in \<open>simp add: fill_active_def\<close>)

text \<open>
  Fills from a bin on, one per bin in the direction of the swap: an empty bin gives nothing, any other a
  fair fill at its own price and fee rate, and only the last may leave something in its bin.
\<close>

inductive bin_fills :: "dlmm_market \<Rightarrow> bool \<Rightarrow> i32 \<Rightarrow> (nat \<times> nat \<times> nat) list \<Rightarrow> bool"
  for m :: dlmm_market and z :: bool where
  finished: "bin_fills m z i []"
| empty: "find_bin m i = Some b \<Longrightarrow> bin_cap z b = 0 \<Longrightarrow> bin_fills m z (if z then i - 1 else i + 1) gs \<Longrightarrow>
    bin_fills m z i ((0, 0, 0) # gs)"
| fill: "find_bin m i = Some b \<Longrightarrow> bin_cap z b \<noteq> 0 \<Longrightarrow>
    get_price_from_id i (lb_bin_step (dl_state m)) = Some p \<Longrightarrow>
    fair_fill z (dlmm_fee_on_input m z) (unat p) (unat (total_fee_rate m (bin_volatility m i)))
      (unat (bin_cap z b)) g \<Longrightarrow>
    (gs \<noteq> [] \<Longrightarrow> drained (dlmm_fee_on_input m z) (unat (bin_cap z b)) g) \<Longrightarrow>
    bin_fills m z (if z then i - 1 else i + 1) gs \<Longrightarrow> bin_fills m z i (g # gs)"

definition total_taken :: "(nat \<times> nat \<times> nat) list \<Rightarrow> nat" where
  "total_taken gs = sum_list (map (\<lambda>(x, y, f). x) gs)"

definition total_paid :: "(nat \<times> nat \<times> nat) list \<Rightarrow> nat" where
  "total_paid gs = sum_list (map (\<lambda>(x, y, f). y) gs)"

definition total_kept :: "(nat \<times> nat \<times> nat) list \<Rightarrow> nat" where
  "total_kept gs = sum_list (map (\<lambda>(x, y, f). f) gs)"

lemma totals [simp]:
  "total_taken [] = 0" "total_paid [] = 0" "total_kept [] = 0"
  "total_taken ((x, y, f) # gs) = x + total_taken gs" "total_paid ((x, y, f) # gs) = y + total_paid gs"
  "total_kept ((x, y, f) # gs) = f + total_kept gs"
  by (simp_all add: total_taken_def total_paid_def total_kept_def)

lemma dlmm_walk_loop_fills:
  assumes "dlmm_walk_loop m z amount i rest out fee = Inr (out', fee')"
  shows "\<exists>gs. bin_fills m z i gs \<and> total_taken gs = unat rest
     \<and> unat out' = min (unat out + total_paid gs) (2 ^ 64 - 1)
     \<and> unat fee' = min (unat fee + total_kept gs) (2 ^ 64 - 1)"
  using assms
proof (induction m z amount i rest out fee rule: dlmm_walk_loop.induct)
  case (1 m z amount i rest out fee)
  show ?case
  proof (cases "rest = 0")
    case True
    then have "out' = out" "fee' = fee" using "1.prems" by (simp_all add: dlmm_walk_loop.simps)
    then show ?thesis using True unat_u64_lt [of out] unat_u64_lt [of fee]
      by (intro exI [of _ "[]"]) (simp add: bin_fills.finished)
  next
    case False
    note unfolded = "1.prems" [unfolded dlmm_walk_loop.simps [of _ _ _ _ rest]]
    let ?i = "if z then i - 1 else i + 1"
    obtain b where b: "find_bin m i = Some b" using unfolded False by (auto split: option.splits)
    obtain x y f where fill: "fill_active m z i b rest = Inr (x, y, f)"
      using unfolded False b by (auto split: sum.splits)
    let ?rest = "saturating_sub rest x"
    have fair: "if bin_cap z b = 0 then x = 0 \<and> y = 0 \<and> f = 0
     else x \<le> rest \<and> (x < rest \<longrightarrow> drained (dlmm_fee_on_input m z) (unat (bin_cap z b)) (unat x, unat y, unat f))
       \<and> (\<exists>p. get_price_from_id i (lb_bin_step (dl_state m)) = Some p
         \<and> fair_fill z (dlmm_fee_on_input m z) (unat p) (unat (total_fee_rate m (bin_volatility m i)))
             (unat (bin_cap z b)) (unat x, unat y, unat f))"
      by (rule fill_active_fair [OF fill False])
    then have x: "unat x \<le> unat rest" by (auto simp: word_le_nat_alt split: if_splits)
    have rec: "dlmm_walk_loop m z amount (if 0 < ?rest then ?i else i) ?rest (saturating_add out y)
        (saturating_add fee f) = Inr (out', fee')"
      using unfolded False b fill by (auto simp: Let_def split: if_splits)
    obtain gs where gs: "bin_fills m z ?i gs" "total_taken gs = unat ?rest" "gs \<noteq> [] \<Longrightarrow> x < rest"
      "unat out' = min (unat (saturating_add out y) + total_paid gs) (2 ^ 64 - 1)"
      "unat fee' = min (unat (saturating_add fee f) + total_kept gs) (2 ^ 64 - 1)"
    proof (cases "?rest = 0")
      case True
      then have "out' = saturating_add out y" "fee' = saturating_add fee f"
        using rec by (simp_all add: dlmm_walk_loop.simps)
      then show ?thesis using True by (intro that [of "[]"]) (simp_all add: bin_fills.finished unat_saturating_add)
    next
      case more: False
      then have "0 < ?rest" "x < rest" by (simp_all add: word_gt_0 saturating_sub_def split: if_splits)
      then have "\<exists>gs. bin_fills m z ?i gs \<and> total_taken gs = unat ?rest
          \<and> unat out' = min (unat (saturating_add out y) + total_paid gs) (2 ^ 64 - 1)
          \<and> unat fee' = min (unat (saturating_add fee f) + total_kept gs) (2 ^ 64 - 1)"
        using "1.IH" [OF False b fill refl refl refl refl] rec unfolded False b fill
        by (auto simp: Let_def split: if_splits)
      then show ?thesis using \<open>x < rest\<close> that by blast
    qed
    have "bin_fills m z i ((unat x, unat y, unat f) # gs)"
    proof (cases "bin_cap z b = 0")
      case True
      then show ?thesis using fair bin_fills.empty [OF b _ gs(1)] by simp
    next
      case cap: False
      then show ?thesis using fair gs(3) by (auto intro: bin_fills.fill [OF b cap _ _ _ gs(1)])
    qed
    then show ?thesis
      using gs(2,4,5) x by (intro exI [of _ "(unat x, unat y, unat f) # gs"]) (auto simp: unat_saturating_add)
  qed
qed

section \<open>The instruction names the arrays the walk visits\<close>

lemma bin_id_to_array_index_eq: "bin_id_to_array_index i = i div 70"
  using floor_index [of 70 i] by (simp add: bin_id_to_array_index_def MAX_BIN_PER_ARRAY_def)

lemma candidates_near:
  assumes "\<bar>a\<bar> < 2 ^ 62"
  shows "candidate_array_indices a True = [a, a - 1, a - 2]" "candidate_array_indices a False = [a, a + 1, a + 2]"
  using assms by (auto simp add: candidate_array_indices_def BIN_ARRAYS_PER_SWAP_def eval_nat_numeral abs_less_iff)

lemma dlmm_nearby_arrays_near:
  assumes "\<bar>a\<bar> < 2 ^ 62"
  shows "dlmm_nearby_arrays a = [a, a - 1, a - 2, a + 1, a + 2]"
  using assms by (simp add: dlmm_nearby_arrays_def candidates_near)

lemma div70_small: "\<bar>i\<bar> < 2 ^ 30 \<Longrightarrow> \<bar>i div 70\<bar> < 2 ^ 29" for i :: int
  unfolding abs_less_iff by (auto simp: minus_less_iff)

lemma bin_at_Some: "bin_at data index k = Some b \<Longrightarrow> bn_id b = wrap_i32 (wrap_i32 (index * 70) + int k)"
  by (auto simp: bin_at_def Let_def MAX_BIN_PER_ARRAY_def bind_eq_Some_conv)

lemma decode_bin_array_ids:
  "decode_bin_array data index = Some bins \<Longrightarrow> b \<in> set bins \<Longrightarrow>
     \<exists>k < 70. bn_id b = wrap_i32 (wrap_i32 (index * 70) + int k)"
proof -
  assume d: "decode_bin_array data index = Some bins" and b: "b \<in> set bins"
  then obtain k where k: "k < 70" "b = the (bin_at data index k)" "bin_at data index k \<noteq> None"
    by (auto simp: decode_bin_array_def Let_def MAX_BIN_PER_ARRAY_def image_iff split: if_splits) force
  then show ?thesis using bin_at_Some by force
qed

lemma read_bin_arrays_ids:
  "read_bin_arrays sdk pool accounts n indices = Inr (bins, available) \<Longrightarrow>
     set available \<subseteq> set indices
     \<and> (\<forall>b \<in> set bins. \<exists>index \<in> set available. \<exists>k < 70. bn_id b = wrap_i32 (wrap_i32 (index * 70) + int k))"
proof (induction indices arbitrary: n bins available)
  case (Cons index indices)
  show ?case
  proof (cases "account_entry accounts n")
    case None
    then show ?thesis using Cons.IH [of "Suc n" bins available] Cons.prems by auto
  next
    case (Some found)
    then obtain decoded rest left where d: "decode_bin_array (acc_data found) index = Some decoded"
      and r: "read_bin_arrays sdk pool accounts (Suc n) indices = Inr (rest, left)"
      and eq: "bins = decoded @ rest" "available = index # left"
      using Cons.prems by (auto simp: rbind_Inr_iff split: option.splits)
    show ?thesis using Cons.IH [OF r] decode_bin_array_ids [OF d] by (auto simp: eq)
  qed
qed simp

lemma dlmm_load_Inr:
  assumes "dlmm_load sdk read pool pool_account = Inr m" and "\<bar>lb_active_id (dl_state m)\<bar> < 2 ^ 30"
  defines "a \<equiv> lb_active_id (dl_state m) div 70"
  shows "set (dl_available_array_indices m) \<subseteq> {a - 2..a + 2} \<and> dl_available_array_indices m \<noteq> []
     \<and> (\<forall>b \<in> set (dl_bins m). bn_id b div 70 \<in> set (dl_available_array_indices m))"
proof -
  obtain accounts bins n where
    read: "read_bin_arrays sdk pool accounts n (dlmm_nearby_arrays a) = Inr (bins, dl_available_array_indices m)"
    and bins: "dl_bins m = ordered_bins bins" and ne: "dl_available_array_indices m \<noteq> []"
    using assms(1) by (auto simp: dlmm_load_def Let_def res_simps bin_id_to_array_index_eq a_def split: if_splits)
  have a: "\<bar>a\<bar> < 2 ^ 29" using div70_small [OF assms(2)] unfolding a_def .
  then have near: "set (dlmm_nearby_arrays a) \<subseteq> {a - 2..a + 2}" by (simp add: dlmm_nearby_arrays_near)
  with read_bin_arrays_ids [OF read] have avail: "set (dl_available_array_indices m) \<subseteq> {a - 2..a + 2}" by blast
  have "bn_id b div 70 \<in> set (dl_available_array_indices m)" if b: "b \<in> set (dl_bins m)" for b
  proof -
    have "b \<in> set bins" using b dedup_subset [of bn_id "sort_key bn_id bins"] by (auto simp: bins ordered_bins_def)
    then obtain index k where i: "index \<in> set (dl_available_array_indices m)" "k < 70"
      and b_id: "bn_id b = wrap_i32 (wrap_i32 (index * 70) + int k)"
      using read_bin_arrays_ids [OF read] by blast
    have "\<bar>index * 70\<bar> < 2 ^ 30 + 280" using i(1) avail assms(2) unfolding a_def by (auto simp: subset_iff)
    then have "bn_id b = index * 70 + int k" using i(2) unfolding b_id by (simp add: wrap_i32_id)
    then show ?thesis using i by simp
  qed
  then show ?thesis using avail ne by blast
qed

lemma loaded_arrays_named:
  assumes "dlmm_load sdk read pool pool_account = Inr m" and "\<bar>lb_active_id (dl_state m)\<bar> < 2 ^ 30"
    and "find_bin m j = Some b" and "if z then j \<le> lb_active_id (dl_state m) else lb_active_id (dl_state m) \<le> j"
  shows "j div 70 \<in> set (bin_array_indices m z)"
proof -
  let ?a = "lb_active_id (dl_state m) div 70"
  have "b \<in> set (dl_bins m)" "bn_id b = j" using assms(3) by (auto simp: find_bin_def find_Some_iff)
  with dlmm_load_Inr [OF assms(1,2)] have j: "j div 70 \<in> set (dl_available_array_indices m)" "j div 70 \<in> {?a - 2..?a + 2}"
    by auto
  have side: "if z then j div 70 \<le> ?a else ?a \<le> j div 70" using assms(4) by (simp add: zdiv_mono1)
  have "\<bar>?a\<bar> < 2 ^ 62" using div70_small [OF assms(2)] by simp
  then have "j div 70 \<in> set (candidate_array_indices ?a z)"
    using j(2) side by (cases z) (auto simp: candidates_near)
  then show ?thesis
    using j(1) \<open>\<bar>?a\<bar> < 2 ^ 62\<close>
    by (cases z) (auto simp: bin_array_indices_def bin_id_to_array_index_eq candidates_near BIN_ARRAYS_PER_SWAP_def)
qed

text \<open>The fills of the walk, one for every bin it comes to: the bin and what it takes, pays out and keeps.\<close>

function walk_fills :: "dlmm_market \<Rightarrow> bool \<Rightarrow> i32 \<Rightarrow> u64 \<Rightarrow> (i32 \<times> u64 \<times> u64 \<times> u64) list" where
  "walk_fills m z i left =
     (if left = 0 then [] else case find_bin m i of
        None \<Rightarrow> []
      | Some b \<Rightarrow> (case fill_active m z i b left of
          Inl _ \<Rightarrow> []
        | Inr (x, y, f) \<Rightarrow> let rest = saturating_sub left x; next_id = (if z then i - 1 else i + 1)
            in if 0 < rest \<and> (next_id < - (2 ^ 31) \<or> 2 ^ 31 \<le> next_id) then []
               else (i, x, y, f) # walk_fills m z next_id rest))"
  by auto
termination
proof (relation "measure (\<lambda>(m, z, i, left). if left = 0 then 0
    else Suc (if z then nat (i + 2 ^ 31) else nat (2 ^ 31 - i)))", goal_cases)
  case (2 m z i left b r x p y f rest next_id)
  then show ?case by (cases "rest = 0") (auto simp: word_gt_0 split: if_splits)
qed simp

declare walk_fills.simps [simp del]

definition fill_taken :: "(i32 \<times> u64 \<times> u64 \<times> u64) list \<Rightarrow> nat" where
  "fill_taken fills = sum_list (map (\<lambda>(i, x, y, f). unat x) fills)"

definition fill_paid :: "(i32 \<times> u64 \<times> u64 \<times> u64) list \<Rightarrow> nat" where
  "fill_paid fills = sum_list (map (\<lambda>(i, x, y, f). unat y) fills)"

lemma fill_sums [simp]:
  "fill_taken [] = 0" "fill_paid [] = 0"
  "fill_taken ((i, x, y, f) # fills) = unat x + fill_taken fills"
  "fill_paid ((i, x, y, f) # fills) = unat y + fill_paid fills"
  by (simp_all add: fill_taken_def fill_paid_def)

lemma walk_fills_done [simp]: "walk_fills m z i 0 = []"
  by (simp add: walk_fills.simps)

lemma walk_fills_where:
  "(j, g) \<in> set (walk_fills m z i left) \<Longrightarrow> find_bin m j \<noteq> None \<and> (if z then j \<le> i else i \<le> j)"
proof (induction m z i left rule: walk_fills.induct)
  case (1 m z i left)
  note unfolded = "1.prems" [unfolded walk_fills.simps [of m z i left]]
  from unfolded obtain b where b1: "left \<noteq> 0" "find_bin m i = Some b" by (cases "left = 0"; cases "find_bin m i") auto
  with unfolded obtain x y f where "fill_active m z i b left = Inr (x, y, f)" by (cases "fill_active m z i b left") auto
  note b = b1 this
  let ?rest = "saturating_sub left x" and ?i = "if z then i - 1 else i + 1"
  have stop: "\<not> (0 < ?rest \<and> (?i < - (2 ^ 31) \<or> 2 ^ 31 \<le> ?i))"
    and here: "(j, g) = (i, x, y, f) \<or> (j, g) \<in> set (walk_fills m z ?i ?rest)"
    using unfolded b by (auto simp: Let_def split: if_splits)
  from here show ?case
  proof
    assume "(j, g) \<in> set (walk_fills m z ?i ?rest)"
    with "1.IH" [OF b refl refl refl refl stop] show ?thesis by (auto split: if_splits)
  qed (use b(2) in simp)
qed

lemma dlmm_walk_loop_walk_fills:
  assumes "dlmm_walk_loop m z amount i left out fee = Inr (out', fee')"
  shows "fill_taken (walk_fills m z i left) = unat left
    \<and> unat out' = min (unat out + fill_paid (walk_fills m z i left)) (2 ^ 64 - 1)"
  using assms
proof (induction m z amount i left out fee rule: dlmm_walk_loop.induct)
  case (1 m z amount i left out fee)
  show ?case
  proof (cases "left = 0")
    case True
    then have "out' = out" using "1.prems" by (simp add: dlmm_walk_loop.simps)
    then show ?thesis using True unat_u64_lt [of out] by simp
  next
    case False
    note unfolded = "1.prems" [unfolded dlmm_walk_loop.simps [of _ _ _ _ left]]
    let ?i = "if z then i - 1 else i + 1"
    obtain b where b: "find_bin m i = Some b" using unfolded False by (auto split: option.splits)
    obtain x y f where fill: "fill_active m z i b left = Inr (x, y, f)"
      using unfolded False b by (auto split: sum.splits)
    let ?rest = "saturating_sub left x"
    have x: "unat x \<le> unat left"
      using fill_active_fair [OF fill False] by (auto simp: word_le_nat_alt split: if_splits)
    have stop: "\<not> (0 < ?rest \<and> (?i < - (2 ^ 31) \<or> 2 ^ 31 \<le> ?i))"
      using unfolded False b fill by (auto simp: Let_def split: if_splits)
    have rec: "dlmm_walk_loop m z amount (if 0 < ?rest then ?i else i) ?rest (saturating_add out y)
        (saturating_add fee f) = Inr (out', fee')"
      using unfolded False b fill by (auto simp: Let_def split: if_splits)
    have fills: "walk_fills m z i left = (i, x, y, f) # walk_fills m z ?i ?rest"
      using False b fill stop by (subst walk_fills.simps) (auto simp: Let_def)
    have same: "walk_fills m z (if 0 < ?rest then ?i else i) ?rest = walk_fills m z ?i ?rest"
      by (cases "?rest = 0") (simp_all add: word_gt_0)
    have "fill_taken (walk_fills m z ?i ?rest) = unat ?rest
        \<and> unat out' = min (unat (saturating_add out y) + fill_paid (walk_fills m z ?i ?rest)) (2 ^ 64 - 1)"
      using "1.IH" [OF False b fill refl refl refl refl stop rec] unfolding same .
    then show ?thesis using x by (auto simp: fills unat_saturating_sub unat_saturating_add)
  qed
qed

section \<open>A concrete pool\<close>

text \<open>The active bin holds two units and the one below it one; the fee is taken from the output.\<close>

definition sample_dlmm :: dlmm_market where
  "sample_dlmm = \<lparr>
     dl_state = \<lparr>lb_pool = Pubkey [3],
       lb_parameters = \<lparr>st_base_factor = 10000, st_filter_period = 30, st_decay_period = 600,
         st_reduction_factor = 5000, st_variable_fee_control = 0, st_max_volatility_accumulator = 0,
         st_protocol_share = 0, st_base_fee_power_factor = 0, st_collect_fee_mode = 1\<rparr>,
       lb_active_id = 0, lb_bin_step = 1, lb_status = 0, lb_token_x_mint = Pubkey [1],
       lb_token_y_mint = Pubkey [2], lb_reserve_x = Pubkey [11], lb_reserve_y = Pubkey [12],
       lb_oracle = Pubkey [13]\<rparr>,
     dl_v_params = \<lparr>va_volatility_accumulator = 0, va_volatility_reference = 0, va_index_reference = 0,
       va_last_update_timestamp = 0\<rparr>,
     dl_token_program_x = Pubkey [6], dl_token_program_y = Pubkey [6], dl_decimals_x = 9, dl_decimals_y = 6,
     dl_reserve_x_balance = 1000, dl_reserve_y_balance = 1000, dl_transfer_fee_x = None, dl_transfer_fee_y = None,
     dl_bins = [\<lparr>bn_id = - 1, bn_amount_x = 0, bn_amount_y = 1\<rparr>, \<lparr>bn_id = 0, bn_amount_x = 0, bn_amount_y = 2\<rparr>],
     dl_available_array_indices = [0, - 1], dl_has_bitmap_extension = False\<rparr>"

lemma sample_prices:
  "get_price_from_id 0 1 = Some 18446744073709551616"
  "get_price_from_id (- 1) 1 = Some 18444899583751176498"
proof -
  show "get_price_from_id 0 1 = Some 18446744073709551616"
    by (simp add: get_price_from_id_def pow_q64_def SCALE_OFFSET_def DLMM_BASIS_POINT_MAX_def checked_add_def Let_def)
  show "get_price_from_id (- 1) 1 = Some 18444899583751176498"
    by (simp add: get_price_from_id_def pow_q64_def SCALE_OFFSET_def DLMM_BASIS_POINT_MAX_def checked_add_def Let_def
        MAX_EXPONENTIAL_def checked_div_def checked_mul_def pow_loop.simps word_le_nat_alt)
qed

lemma sample_amounts:
  "get_amount_in 2 18446744073709551616 True Up = Some 2"
  "get_amount_in 1 18444899583751176498 True Up = Some 2"
  "fee_from_amount 100000 2 = Some 1" "fee_from_amount 100000 1 = Some 1"
proof -
  have c: "mul_div_ceil 2 18446744073709551616 18446744073709551616 = Some 2"
    "mul_div_ceil 1 18446744073709551616 18444899583751176498 = Some 2"
    "mul_div_ceil 2 100000 1000000000 = Some 1" "mul_div_ceil 1 100000 1000000000 = Some 1"
    by (simp_all add: mul_div_ceil_Some cdiv_def)
  show "get_amount_in 2 18446744073709551616 True Up = Some 2"
    "get_amount_in 1 18444899583751176498 True Up = Some 2"
    "fee_from_amount 100000 2 = Some 1" "fee_from_amount 100000 1 = Some 1"
    by (simp_all add: get_amount_in_def mul_div_rounded_def SCALE_OFFSET_def c narrow_u64_def fee_from_amount_def
        FEE_PRECISION_def)
qed

lemma sample_dlmm_rate: "total_fee_rate sample_dlmm v = 100000"
  by (simp add: total_fee_rate_def sample_dlmm_def MAX_FEE_RATE_def Let_def)

lemma sample_dlmm_walk:
  "dlmm_walk_loop sample_dlmm True 4 0 4 0 0 = Inr (1, 2)"
proof -
  let ?b0 = "\<lparr>bn_id = 0, bn_amount_x = 0, bn_amount_y = 2\<rparr>" and ?b1 = "\<lparr>bn_id = - 1, bn_amount_x = 0, bn_amount_y = 1\<rparr>"
  have on: "\<not> dlmm_fee_on_input sample_dlmm True" and step: "lb_bin_step (dl_state sample_dlmm) = 1"
    by (simp_all add: dlmm_fee_on_input_def sample_dlmm_def)
  have bins: "find_bin sample_dlmm 0 = Some ?b0" "find_bin sample_dlmm (- 1) = Some ?b1"
    by (simp_all add: find_bin_def sample_dlmm_def)
  have f0: "fill_active sample_dlmm True 0 ?b0 4 = Inr (2, 1, 1)"
    by (simp add: fill_active_def bin_cap_def sample_dlmm_rate step sample_prices quote_bin_def on sample_amounts
        saturating_sub_def)
  have f1: "fill_active sample_dlmm True (- 1) ?b1 2 = Inr (2, 0, 1)"
    by (simp add: fill_active_def bin_cap_def sample_dlmm_rate step sample_prices quote_bin_def on sample_amounts
        saturating_sub_def)
  show ?thesis
    by (simp add: dlmm_walk_loop.simps [of sample_dlmm True 4 0] bins f0 saturating_sub_def saturating_add_def)
      (simp add: dlmm_walk_loop.simps [of sample_dlmm True 4 "- 1"] dlmm_walk_loop.simps [of sample_dlmm True 4 "- 1" 0]
        bins f1 saturating_sub_def saturating_add_def)
qed

lemma sample_dlmm_quote:
  "\<exists>q. dlmm_quote sample_dlmm (Pubkey [1]) 4 = Inr q \<and> vq_amount_in q = 4 \<and> vq_expected_out q = 1 \<and> vq_lp_fee q = 8"
proof -
  have m: "lb_active_id (dl_state sample_dlmm) = 0" "is_side_x sample_dlmm (Pubkey [1]) = Some True"
    "dlmm_transfer_fee sample_dlmm s = None" "dlmm_output_vault sample_dlmm s = 1000"
    "\<not> dlmm_fee_on_input sample_dlmm True" for s
    by (simp_all add: sample_dlmm_def is_side_x_def side_of_def dlmm_transfer_fee_def dlmm_output_vault_def
        dlmm_fee_on_input_def)
  show ?thesis
    by (simp add: dlmm_quote_def dlmm_walk_def m net_of_fee_def sample_dlmm_walk fee_in_input_units_def
        word_le_nat_alt)
qed

text \<open>A pool account of zeroes up to the mint of token Y and of ones from there on, and one bin array, around
  bin zero, whose every byte is one.\<close>

definition sample_pair_account :: account where
  "sample_pair_account = \<lparr>acc_lamports = 0, acc_data = replicate 120 0 @ replicate 784 1,
     acc_owner = dlmm_program_id sample_sdk\<rparr>"

definition sample_bin_array :: account where
  "sample_bin_array = \<lparr>acc_lamports = 0, acc_data = replicate 10136 1, acc_owner = Pubkey [7]\<rparr>"

definition sample_dlmm_read :: account_reader where
  "sample_dlmm_read = (\<lambda>_. Inr (replicate 6 (Some sample_token_account) @ [Some sample_bin_array]))"

lemma slice_replicate: "offset + n \<le> len \<Longrightarrow> slice (replicate len c) offset n = Some (replicate n c)"
  by (simp add: slice_def min_def)

lemma from_le_bytes_zeroes: "from_le_bytes (replicate n 0) = 0"
proof -
  have "le_nat (replicate n 0) = 0" by (induction n) simp_all
  then show ?thesis by (simp add: from_le_bytes_def)
qed

lemma slice_append_left: "offset + n \<le> length xs \<Longrightarrow> slice (xs @ ys) offset n = slice xs offset n"
  by (simp add: slice_def)

lemma zeroes_read:
  "offset + 2 \<le> n \<Longrightarrow> u16_at (replicate n 0 @ rest) offset = Some 0"
  "offset + 4 \<le> n \<Longrightarrow> u32_at (replicate n 0 @ rest) offset = Some 0"
  "offset + 4 \<le> n \<Longrightarrow> i32_at (replicate n 0 @ rest) offset = Some 0"
  "offset + 8 \<le> n \<Longrightarrow> i64_at (replicate n 0 @ rest) offset = Some 0"
  "offset + 1 \<le> n \<Longrightarrow> u8_at (replicate n 0 @ rest) offset = Some 0"
  "offset + 32 \<le> n \<Longrightarrow> pubkey_at (replicate n 0 @ rest) offset = Some default_pubkey"
  by (simp_all only: u16_at_def u32_at_def i32_at_def i64_at_def pubkey_at_def slice_append_left length_replicate
      slice_replicate option.map from_le_bytes_zeroes default_pubkey_def) (simp_all add: u8_at_def nth_append)

lemma ones_read:
  assumes "n \<le> offset" and "offset + 32 \<le> n + k"
  shows "pubkey_at (replicate n 0 @ replicate k 1) offset = Some (Pubkey (replicate 32 1))"
proof -
  have "slice (replicate n 0 @ replicate k 1) offset 32 = Some (replicate 32 (1 :: u8))"
    using assms by (simp add: slice_def min_def)
  then show ?thesis by (simp only: pubkey_at_def option.map)
qed

lemma sample_pair_decode:
  "\<exists>s. lb_pair_decode pool (acc_data sample_pair_account) = Some s \<and> lb_active_id s = 0 \<and> lb_bin_step s = 0
     \<and> lb_status s = 0 \<and> lb_token_x_mint s = default_pubkey \<and> lb_token_y_mint s = Pubkey (replicate 32 1)
     \<and> st_base_factor (lb_parameters s) = 0 \<and> st_variable_fee_control (lb_parameters s) = 0
     \<and> st_collect_fee_mode (lb_parameters s) = 0"
  by (simp add: lb_pair_decode_def sample_pair_account_def zeroes_read ones_read)

lemma sample_v_decode: "decode_v_parameters (acc_data sample_pair_account) \<noteq> None"
  by (simp add: decode_v_parameters_def sample_pair_account_def zeroes_read)

lemma sample_clock: "i64_at (acc_data sample_token_account) 32 = Some 0"
proof -
  have "slice (acc_data sample_token_account) 32 8 = Some (replicate 8 0)"
    by (simp add: slice_def sample_token_account_def to_le_bytes_u64_def min_def)
  then show ?thesis by (simp only: i64_at_def from_le_bytes_zeroes option.map) simp
qed

lemma sample_bins:
  obtains bins b where "decode_bin_array (acc_data sample_bin_array) 0 = Some bins"
    and "find (\<lambda>b. bn_id b = 0) (ordered_bins bins) = Some b" and "bn_amount_y b = 72340172838076673"
proof -
  let ?bin = "\<lambda>i. \<lparr>bn_id = wrap_i32 (int i), bn_amount_x = 72340172838076673, bn_amount_y = 72340172838076673\<rparr>"
  define ks where "ks = [0..<70]"
  have ks: "set ks = {..<70}" unfolding ks_def set_upt by (rule atLeast0LessThan)
  let ?bins = "map ?bin ks"
  have eight: "replicate 8 x = [x, x, x, x, x, x, x, x]" for x :: u8 by (simp add: numeral_eq_Suc)
  have ones: "from_le_bytes (replicate 8 1) = (72340172838076673 :: u64)"
    unfolding eight by (simp add: from_le_bytes_def)
  have u64: "u64_at (acc_data sample_bin_array) offset = Some 72340172838076673" if "offset \<le> 10128" for offset
    using that ones by (simp add: u64_at_def sample_bin_array_def slice_replicate)
  have "bin_at (acc_data sample_bin_array) 0 k = Some (?bin k)" if "k \<in> set ks" for k
    using that by (simp add: bin_at_def BINS_OFFSET_def BIN_SIZE_def MAX_BIN_PER_ARRAY_def u64 wrap_i32_id ks)
  then have "map (bin_at (acc_data sample_bin_array) 0) ks = map Some ?bins" by simp
  then have bins: "decode_bin_array (acc_data sample_bin_array) 0 = Some ?bins"
    by (auto simp: decode_bin_array_def Let_def MAX_BIN_PER_ARRAY_def comp_def simp flip: ks_def)
  have same_ids: "set (map bn_id (ordered_bins xs)) = set (map bn_id xs)" for xs
    unfolding ordered_bins_def dedup_set by simp
  have "0 \<in> set (map bn_id ?bins)" by (auto simp: image_iff wrap_i32_id ks intro!: bexI [of _ 0])
  then have "0 \<in> set (map bn_id (ordered_bins ?bins))"
    unfolding same_ids .
  then have "find (\<lambda>b. bn_id b = 0) (ordered_bins ?bins) \<noteq> None" by (auto simp: find_None_iff)
  then obtain b where b: "find (\<lambda>b. bn_id b = 0) (ordered_bins ?bins) = Some b" by blast
  then have "b \<in> set (ordered_bins ?bins)" by (auto simp: find_Some_iff)
  then have "b \<in> set ?bins" using dedup_subset [of bn_id "sort_key bn_id ?bins"] by (auto simp: ordered_bins_def)
  then have "bn_amount_y b = 72340172838076673" by auto
  with bins b show thesis by (rule that)
qed

lemma sample_dlmm_load:
  obtains m q where "dlmm_load sample_sdk sample_dlmm_read (Pubkey [3]) sample_pair_account = Inr m"
    and "lb_active_id (dl_state m) = 0" and "dlmm_quote m default_pubkey 1000 = Inr q"
    and "vq_expected_out q = 1000" and "lb_token_x_mint (dl_state m) = default_pubkey"
    and "lb_token_y_mint (dl_state m) = Pubkey (replicate 32 1)" and "bin_array_accounts sample_sdk m True \<noteq> []"
proof -
  obtain s where s: "lb_pair_decode (Pubkey [3]) (acc_data sample_pair_account) = Some s" "lb_active_id s = 0"
    "lb_bin_step s = 0" "lb_status s = 0" "lb_token_x_mint s = default_pubkey" "lb_token_y_mint s = Pubkey (replicate 32 1)"
    "st_base_factor (lb_parameters s) = 0" "st_variable_fee_control (lb_parameters s) = 0"
    "st_collect_fee_mode (lb_parameters s) = 0"
    using sample_pair_decode by blast
  obtain v where v: "decode_v_parameters (acc_data sample_pair_account) = Some v" using sample_v_decode by blast
  obtain bins b where bins: "decode_bin_array (acc_data sample_bin_array) 0 = Some bins"
    and b: "find (\<lambda>b. bn_id b = 0) (ordered_bins bins) = Some b" "bn_amount_y b = 72340172838076673"
    by (rule sample_bins)
  have near: "dlmm_nearby_arrays (bin_id_to_array_index 0) = [0, - 1, - 2, 1, 2]"
    by (simp add: dlmm_nearby_arrays_near bin_id_to_array_index_eq)
  have hook: "\<not> mint_has_transfer_hook sample_sdk sample_token_account"
    and fee: "read_transfer_fee_schedule sample_sdk sample_token_account = None"
    by (simp_all add: mint_has_transfer_hook_def read_transfer_fee_schedule_def sample_token_account_def sample_sdk_def)
  have "\<exists>m. dlmm_load sample_sdk sample_dlmm_read (Pubkey [3]) sample_pair_account = Inr m
    \<and> dl_state m = s \<and> dl_bins m = ordered_bins bins \<and> dl_transfer_fee_x m = None \<and> dl_transfer_fee_y m = None
    \<and> dl_reserve_y_balance m = 5000 \<and> dl_available_array_indices m = [0]"
    by (simp add: dlmm_load_def s v near sample_dlmm_read_def fetched_def account_entry_def nth_append
        sample_token_account_reads hook fee sample_clock bins)
  then obtain m where m: "dlmm_load sample_sdk sample_dlmm_read (Pubkey [3]) sample_pair_account = Inr m"
    "dl_state m = s" "dl_bins m = ordered_bins bins" "dl_transfer_fee_x m = None" "dl_transfer_fee_y m = None"
    "dl_reserve_y_balance m = 5000" "dl_available_array_indices m = [0]" by blast
  have "candidate_array_indices (bin_id_to_array_index 0) True = [0, - 1, - 2]"
    by (simp add: bin_id_to_array_index_eq candidates_near)
  then have arrays: "bin_array_accounts sample_sdk m True \<noteq> []"
    by (simp add: bin_array_accounts_def bin_array_indices_def m(2,7) s(2) BIN_ARRAYS_PER_SWAP_def)
  have price: "get_price_from_id 0 0 = Some 18446744073709551616"
    by (simp add: get_price_from_id_def pow_q64_def SCALE_OFFSET_def DLMM_BASIS_POINT_MAX_def checked_add_def Let_def)
  have "get_amount_in 72340172838076673 18446744073709551616 True Up = Some 72340172838076673"
    "get_amount_out 1000 18446744073709551616 True Down = Some 1000" "fee_from_amount 0 1000 = Some 0"
  proof -
    have "mul_div_ceil 72340172838076673 18446744073709551616 18446744073709551616 = Some 72340172838076673"
      "mul_div_floor 18446744073709551616 1000 18446744073709551616 = Some 1000"
      "mul_div_ceil 1000 0 1000000000 = Some 0"
      by (simp_all add: mul_div_ceil_Some mul_div_floor_Some cdiv_def)
    then show "get_amount_in 72340172838076673 18446744073709551616 True Up = Some 72340172838076673"
      "get_amount_out 1000 18446744073709551616 True Down = Some 1000" "fee_from_amount 0 1000 = Some 0"
      by (simp_all add: get_amount_in_def get_amount_out_def mul_div_rounded_def SCALE_OFFSET_def narrow_u64_def
          fee_from_amount_def FEE_PRECISION_def)
  qed
  note amounts = this
  have rate: "total_fee_rate m v = 0" for v by (simp add: total_fee_rate_def m(2) s MAX_FEE_RATE_def)
  have on: "dlmm_fee_on_input m True" by (simp add: dlmm_fee_on_input_def m(2) s)
  have "fill_active m True 0 b 1000 = Inr (1000, 1000, 0)"
    by (simp add: fill_active_def bin_cap_def b(2) rate m(2) s price quote_bin_def on amounts word_le_nat_alt
        word_less_nat_alt saturating_sub_def)
  moreover have "find_bin m 0 = Some b" by (simp add: find_bin_def m(3) b(1))
  ultimately have "dlmm_walk_loop m True 1000 0 1000 0 0 = Inr (1000, 0)"
    by (simp add: dlmm_walk_loop.simps [of m True 1000 0] saturating_sub_def saturating_add_def)
  then have "\<exists>q. dlmm_quote m default_pubkey 1000 = Inr q \<and> vq_expected_out q = 1000"
    by (simp add: dlmm_quote_def dlmm_walk_def is_side_x_def side_of_def m s dlmm_transfer_fee_def net_of_fee_def
        dlmm_output_vault_def word_le_nat_alt)
  then show thesis using that [OF m(1)] m(2) s(2,5,6) arrays by auto
qed

section \<open>Properties\<close>

text \<open>C9: a DLMM quote is a walk of fair fills. The bins from the active one on, one after the other in the
  direction of the trade, take exactly what reaches the pool; an empty bin gives nothing, every other pays
  out no more than it holds, at no better than its own price, and keeps at least its fee rate of the leg
  the fee is charged on; only the last bin may keep something. What the bins pay out, capped to 64 bits and
  less the transfer fee of the output mint, is the quoted output, and it is less than the vault holds.\<close>

theorem dlmm_quote_is_bin_walk:
  assumes "dlmm_quote m mint amount = Inr q"
  shows "\<exists>side gs gross. is_side_x m mint = Some side \<and> bin_fills m side (lb_active_id (dl_state m)) gs
     \<and> total_taken gs = unat (net_of_fee (dlmm_transfer_fee m side) amount)
     \<and> unat gross = min (total_paid gs) (2 ^ 64 - 1)
     \<and> vq_expected_out q = net_of_fee (dlmm_transfer_fee m (\<not> side)) gross
     \<and> vq_expected_out q \<noteq> 0 \<and> vq_expected_out q < dlmm_output_vault m side"
  using assms
proof (cases rule: dlmm_quote_Inr)
  case (1 side gross fee)
  then show ?thesis using dlmm_walk_loop_fills [OF 1(3)] by auto
qed

theorem dlmm_quote_is_bin_walk_witness:
  "\<exists>gs. bin_fills sample_dlmm True 0 gs \<and> total_taken gs = 4 \<and> total_paid gs = 1"
proof -
  obtain q where q: "dlmm_quote sample_dlmm (Pubkey [1]) 4 = Inr q" "vq_expected_out q = 1"
    using sample_dlmm_quote by blast
  have m: "lb_active_id (dl_state sample_dlmm) = 0" "is_side_x sample_dlmm (Pubkey [1]) = Some True"
    "dlmm_transfer_fee sample_dlmm s = None" for s
    by (simp_all add: sample_dlmm_def is_side_x_def side_of_def dlmm_transfer_fee_def)
  obtain gs gross where "bin_fills sample_dlmm True 0 gs" "total_taken gs = 4" "unat gross = min (total_paid gs) (2 ^ 64 - 1)"
    "(1 :: u64) = gross"
    using dlmm_quote_is_bin_walk [OF q(1)] by (auto simp: m net_of_fee_def q(2))
  moreover from this(3,4) have "total_paid gs = 1" by (auto simp: min_def split: if_splits)
  ultimately show ?thesis by blast
qed

text \<open>C38: the instruction names every array its quote walked. For a pool the loader accepted, whose active
  bin is in the range the program allows, the quote is the sum of the fills of its walk, and every bin of
  those fills lies in an array the swap instruction of the same direction passes, so a quoted fill never
  needs an account that is missing.\<close>

theorem dlmm_instruction_covers_walk:
  assumes "dlmm_load sdk read pool pool_account = Inr m" and "\<bar>lb_active_id (dl_state m)\<bar> < 2 ^ 30"
    and "dlmm_quote m mint amount = Inr q"
  shows "\<exists>side received fills gross. is_side_x m mint = Some side
     \<and> received = net_of_fee (dlmm_transfer_fee m side) amount
     \<and> fills = walk_fills m side (lb_active_id (dl_state m)) received
     \<and> fill_taken fills = unat received
     \<and> unat gross = min (fill_paid fills) (2 ^ 64 - 1)
     \<and> vq_expected_out q = net_of_fee (dlmm_transfer_fee m (\<not> side)) gross
     \<and> (\<forall>(i, x, y, f) \<in> set fills. bin_array_address sdk (dlmm_program_id sdk) (lb_pool (dl_state m)) (i div 70)
         \<in> set (bin_array_accounts sdk m side))"
  using assms(3)
proof (cases rule: dlmm_quote_Inr)
  case (1 side gross fee)
  have "i div 70 \<in> set (bin_array_indices m side)"
    if fill: "(i, g) \<in> set (walk_fills m side (lb_active_id (dl_state m)) (net_of_fee (dlmm_transfer_fee m side) amount))" for i g
    using walk_fills_where [OF fill] loaded_arrays_named [OF assms(1,2)] by blast
  then have "\<forall>(i, x, y, f) \<in> set (walk_fills m side (lb_active_id (dl_state m)) (net_of_fee (dlmm_transfer_fee m side) amount)).
      bin_array_address sdk (dlmm_program_id sdk) (lb_pool (dl_state m)) (i div 70) \<in> set (bin_array_accounts sdk m side)"
    unfolding bin_array_accounts_def by auto
  with 1 dlmm_walk_loop_walk_fills [OF 1(3)] show ?thesis by auto
qed

theorem dlmm_instruction_covers_walk_witness:
  "\<exists>m q side received fills gross. dlmm_load sample_sdk sample_dlmm_read (Pubkey [3]) sample_pair_account = Inr m
     \<and> dlmm_quote m default_pubkey 1000 = Inr q \<and> vq_expected_out q = 1000
     \<and> received = net_of_fee (dlmm_transfer_fee m side) 1000 \<and> fills = walk_fills m side 0 received
     \<and> fill_taken fills = unat received
     \<and> unat gross = min (fill_paid fills) (2 ^ 64 - 1)
     \<and> vq_expected_out q = net_of_fee (dlmm_transfer_fee m (\<not> side)) (gross :: u64)
     \<and> (\<forall>(i, x, y, f) \<in> set fills. bin_array_address sample_sdk (dlmm_program_id sample_sdk) (lb_pool (dl_state m)) (i div 70)
         \<in> set (bin_array_accounts sample_sdk m side))"
proof -
  obtain m q where load: "dlmm_load sample_sdk sample_dlmm_read (Pubkey [3]) sample_pair_account = Inr m"
    and zero: "lb_active_id (dl_state m) = 0" and quote: "dlmm_quote m default_pubkey 1000 = Inr q" "vq_expected_out q = 1000"
    by (rule sample_dlmm_load)
  have "\<bar>lb_active_id (dl_state m)\<bar> < 2 ^ 30" by (simp add: zero)
  with dlmm_instruction_covers_walk [OF load _ quote(1)] load quote show ?thesis unfolding zero by blast
qed

text \<open>With the fee on the output side the reported pool fee can exceed the whole input. The venue
  converts the fee at the rate of the output left after it, so four units in, of which the bins keep two
  units of output and pay out one, are reported as a fee of eight.\<close>

theorem dlmm_output_fee_overstated:
  "\<exists>q. dlmm_quote sample_dlmm (Pubkey [1]) 4 = Inr q \<and> vq_amount_in q = 4 \<and> vq_lp_fee q = 8"
  using sample_dlmm_quote by blast

end
