(* ===== verification/Registry.thy ===== *)
theory Registry
  imports Raydium_Cpmm Raydium_Amm_V4 Fluxbeam Raydium_Clmm Orca_Whirlpool Moonit Pumpfun_Amm Pumpfun_Legacy
    Meteora_Damm Meteora_Dbc Meteora_Dlmm Swap_Execute
begin

text \<open>
  \<^verbatim>\<open>registry.rs\<close> and the entry points of \<^verbatim>\<open>mod.rs\<close>: every venue the engine can swap through, the choice
  of a venue by the owner of the pool account, and the whole of a swap from the request to the outcome. What
  the loaders read of the chain and of the clock is one record of answers.
\<close>

section \<open>The chain as the loaders see it\<close>

record chain_view =
  cv_account :: "pubkey \<Rightarrow> string + account option"
  cv_accounts :: account_reader
  cv_slot :: "string + u64"
  cv_now_unix :: u64
  cv_parse_pubkey :: "string \<Rightarrow> string + pubkey"
  cv_token_accounts :: "pubkey \<Rightarrow> string + token_account_info list"

section \<open>The venues\<close>

record pool_venue =
  pv_program :: program_kind
  pv_program_id :: pubkey
  pv_load :: "chain_view \<Rightarrow> pubkey \<Rightarrow> account \<Rightarrow> pool_market direct_result"

text \<open>A loader's result as a market of the engine (\<^verbatim>\<open>Ok(Box::new(..))\<close>).\<close>

definition boxed :: "('m \<Rightarrow> pool_market) \<Rightarrow> 'm direct_result \<Rightarrow> pool_market direct_result" where
  "boxed market r = rbind r (\<lambda>m. Inr (market m))"

definition cpmm_venue :: "sdk \<Rightarrow> pool_venue" where
  "cpmm_venue sdk = \<lparr>pv_program = RaydiumCpmm, pv_program_id = cpmm_program_id sdk,
     pv_load = (\<lambda>cv pool acc. boxed (cpmm_pool_market sdk)
       (cpmm_load sdk (cv_now_unix cv) (cv_accounts cv) pool acc))\<rparr>"

definition amm_v4_venue :: "sdk \<Rightarrow> pool_venue" where
  "amm_v4_venue sdk = \<lparr>pv_program = RaydiumLegacyAmm, pv_program_id = amm_v4_program_id sdk,
     pv_load = (\<lambda>cv pool acc. boxed (amm_v4_pool_market sdk) (amm_v4_load (cv_accounts cv) pool acc))\<rparr>"

definition clmm_venue :: "sdk \<Rightarrow> pool_venue" where
  "clmm_venue sdk = \<lparr>pv_program = RaydiumClmm, pv_program_id = clmm_program_id sdk,
     pv_load = (\<lambda>cv pool acc. boxed (clmm_pool_market sdk) (clmm_load sdk (cv_accounts cv) pool acc))\<rparr>"

definition damm_venue :: "sdk \<Rightarrow> pool_venue" where
  "damm_venue sdk = \<lparr>pv_program = MeteoraDamm, pv_program_id = damm_program_id sdk,
     pv_load = (\<lambda>cv pool acc. boxed (damm_pool_market sdk)
       (damm_load sdk (cv_slot cv) (cv_now_unix cv) (cv_accounts cv) pool acc))\<rparr>"

definition dbc_venue :: "sdk \<Rightarrow> pool_venue" where
  "dbc_venue sdk = \<lparr>pv_program = MeteoraDbc, pv_program_id = dbc_program_id sdk,
     pv_load = (\<lambda>cv pool acc. boxed (dbc_pool_market sdk) (dbc_load sdk (cv_accounts cv) pool acc))\<rparr>"

definition dlmm_venue :: "sdk \<Rightarrow> pool_venue" where
  "dlmm_venue sdk = \<lparr>pv_program = MeteoraDlmm, pv_program_id = dlmm_program_id sdk,
     pv_load = (\<lambda>cv pool acc. boxed (dlmm_pool_market sdk) (dlmm_load sdk (cv_accounts cv) pool acc))\<rparr>"

definition pump_amm_venue :: "sdk \<Rightarrow> pool_venue" where
  "pump_amm_venue sdk = \<lparr>pv_program = PumpFunAmm, pv_program_id = pump_amm_program_id sdk,
     pv_load = (\<lambda>cv pool acc. boxed (pump_amm_pool_market sdk) (pump_amm_load sdk (cv_accounts cv) pool acc))\<rparr>"

definition pump_legacy_venue :: "sdk \<Rightarrow> pool_venue" where
  "pump_legacy_venue sdk = \<lparr>pv_program = PumpFunLegacy, pv_program_id = pump_legacy_program_id sdk,
     pv_load = (\<lambda>cv pool acc. boxed (pump_legacy_pool_market sdk)
       (pump_legacy_load sdk (cv_parse_pubkey cv) (cv_token_accounts cv) (cv_accounts cv) pool acc))\<rparr>"

definition whirlpool_venue :: "sdk \<Rightarrow> pool_venue" where
  "whirlpool_venue sdk = \<lparr>pv_program = OrcaWhirlpool, pv_program_id = whirlpool_program_id sdk,
     pv_load = (\<lambda>cv pool acc. boxed (whirlpool_pool_market sdk) (whirlpool_load sdk (cv_accounts cv) pool acc))\<rparr>"

definition moonit_venue :: "sdk \<Rightarrow> pool_venue" where
  "moonit_venue sdk = \<lparr>pv_program = Moonit, pv_program_id = moonit_program_id sdk,
     pv_load = (\<lambda>cv pool acc. boxed (moonit_pool_market sdk) (moonit_load sdk (cv_accounts cv) pool acc))\<rparr>"

definition fluxbeam_venue :: "sdk \<Rightarrow> pool_venue" where
  "fluxbeam_venue sdk = \<lparr>pv_program = FluxbeamAmm, pv_program_id = fluxbeam_program_id sdk,
     pv_load = (\<lambda>cv pool acc. boxed (fluxbeam_pool_market sdk) (fluxbeam_load sdk (cv_accounts cv) pool acc))\<rparr>"

definition venues :: "sdk \<Rightarrow> pool_venue list" where
  "venues sdk = [cpmm_venue sdk, amm_v4_venue sdk, clmm_venue sdk, damm_venue sdk, dbc_venue sdk,
     dlmm_venue sdk, pump_amm_venue sdk, pump_legacy_venue sdk, whirlpool_venue sdk, moonit_venue sdk,
     fluxbeam_venue sdk]"

definition venue_for_program_id :: "sdk \<Rightarrow> pubkey \<Rightarrow> pool_venue option" where
  "venue_for_program_id sdk program = find (\<lambda>venue. pv_program_id venue = program) (venues sdk)"

definition venue_for_kind :: "sdk \<Rightarrow> program_kind \<Rightarrow> pool_venue option" where
  "venue_for_kind sdk kind = find (\<lambda>venue. pv_program venue = kind) (venues sdk)"

definition supports :: "sdk \<Rightarrow> program_kind \<Rightarrow> bool" where
  "supports sdk kind \<longleftrightarrow> venue_for_kind sdk kind \<noteq> None"

definition supported_kinds :: "sdk \<Rightarrow> program_kind list" where
  "supported_kinds sdk = map pv_program (venues sdk)"

definition require_venue :: "sdk \<Rightarrow> pubkey \<Rightarrow> pool_venue direct_result" where
  "require_venue sdk program = ok_or (venue_for_program_id sdk program) (UnsupportedVenue program)"

section \<open>The entry points\<close>

definition load_market :: "sdk \<Rightarrow> chain_view \<Rightarrow> pubkey \<Rightarrow> pool_market direct_result" where
  "load_market sdk cv pool =
     rbind (map_err (AccountUnavailable pool) (cv_account cv pool)) (\<lambda>found.
     rbind (ok_or found (AccountUnavailable pool ''pool account does not exist'')) (\<lambda>acc.
     rbind (require_venue sdk (acc_owner acc)) (\<lambda>venue.
     pv_load venue cv pool acc)))"

definition quote :: "sdk \<Rightarrow> chain_view \<Rightarrow> direct_swap_intent \<Rightarrow> (direct_quote \<times> pool_market) direct_result" where
  "quote sdk cv intent =
     rbind (validate sdk intent) (\<lambda>_.
     rbind (load_market sdk cv (intent_pool intent)) (\<lambda>market.
     rbind (quote_with_market sdk intent market) (\<lambda>q.
     Inr (q, market))))"

definition swap ::
  "sdk \<Rightarrow> (json \<Rightarrow> string) \<Rightarrow> u64 \<Rightarrow> chain_view \<Rightarrow> node \<Rightarrow> direct_swap_intent \<Rightarrow> pubkey \<Rightarrow> swap_outcome run" where
  "swap sdk sj config_price cv nd intent signer =
     (case quote sdk cv intent of
        Inl e \<Rightarrow> (Some (Inl e), [])
      | Inr (q, market) \<Rightarrow>
        (case build_plan sdk config_price intent market q of
           Inl e \<Rightarrow> (Some (Inl e), [])
         | Inr plan \<Rightarrow> execute_plan sdk sj config_price nd plan signer))"

section \<open>What a loader returns\<close>

lemma amm_v4_balance_errs [errs_intros]: "errs (\<lambda>e. \<not> submitted e) (amm_v4_balance pool addresses accounts i)"
  unfolding amm_v4_balance_def fetched_def Let_def by (intro errs_intros) simp_all

lemma read_tick_arrays_errs [errs_intros]: "errs (\<lambda>e. \<not> submitted e) (read_tick_arrays sdk pool accounts n addresses)"
proof (induction sdk pool accounts n addresses rule: read_tick_arrays.induct)
  case (2 sdk pool accounts n address rest)
  then show ?case by (auto intro!: errs_intros split: option.split)
qed simp

lemma read_whirlpool_arrays_errs [errs_intros]:
  "errs (\<lambda>e. \<not> submitted e) (read_whirlpool_arrays sdk pool sp accounts n starts)"
proof (induction sdk pool sp accounts n starts rule: read_whirlpool_arrays.induct)
  case (2 sdk pool sp accounts n start rest)
  then show ?case by (auto intro!: errs_intros split: option.split)
qed simp

lemma read_bin_arrays_errs [errs_intros]: "errs (\<lambda>e. \<not> submitted e) (read_bin_arrays sdk pool accounts n indices)"
proof (induction sdk pool accounts n indices rule: read_bin_arrays.induct)
  case (2 sdk pool accounts n index rest)
  then show ?case by (auto intro!: errs_intros split: option.split)
qed simp

lemma refusals_not_submitted:
  "dbc_config_refusal pool c = Some e \<Longrightarrow> \<not> submitted e"
  "curve_refusal pool curve = Some e \<Longrightarrow> \<not> submitted e"
  by (auto simp: dbc_config_refusal_def curve_refusal_def split: if_splits)

lemma curve_mint_errs [errs_intros]: "errs (\<lambda>e. \<not> submitted e) (curve_mint parse pool listing)"
  unfolding curve_mint_def by (intro errs_intros) simp_all

lemma cpmm_load_errs: "errs (\<lambda>e. \<not> submitted e) (cpmm_load sdk now read pool acc)"
  unfolding cpmm_load_def fetched_def Let_def by (intro errs_intros) simp_all

lemma cpmm_load_pool: "cpmm_load sdk now read pool acc = Inr m \<Longrightarrow> pm_pool (cpmm_pool_market sdk m) = pool"
  by (auto simp: cpmm_load_def cpmm_decode_def cpmm_pool_market_def Let_def res_simps split: if_splits option.splits prod.splits)

lemma amm_v4_load_errs: "errs (\<lambda>e. \<not> submitted e) (amm_v4_load read pool acc)"
  unfolding amm_v4_load_def fetched_def Let_def by (intro errs_intros) simp_all

lemma amm_v4_load_pool: "amm_v4_load read pool acc = Inr m \<Longrightarrow> pm_pool (amm_v4_pool_market sdk m) = pool"
  by (auto simp: amm_v4_load_def amm_v4_decode_def amm_v4_pool_market_def Let_def res_simps split: if_splits option.splits prod.splits)

lemma clmm_load_errs: "errs (\<lambda>e. \<not> submitted e) (clmm_load sdk read pool acc)"
  unfolding clmm_load_def fetched_def Let_def by (intro errs_intros) simp_all

lemma clmm_load_pool: "clmm_load sdk read pool acc = Inr m \<Longrightarrow> pm_pool (clmm_pool_market sdk m) = pool"
  by (auto simp: clmm_load_def clmm_decode_def clmm_pool_market_def Let_def res_simps split: if_splits option.splits prod.splits)

lemma damm_load_errs: "errs (\<lambda>e. \<not> submitted e) (damm_load sdk slot now read pool acc)"
  unfolding damm_load_def fetched_def Let_def by (intro errs_intros) simp_all

lemma damm_load_pool: "damm_load sdk slot now read pool acc = Inr m \<Longrightarrow> pm_pool (damm_pool_market sdk m) = pool"
  by (auto simp: damm_load_def damm_decode_def damm_pool_market_def Let_def res_simps split: if_splits option.splits prod.splits)

lemma dbc_load_errs: "errs (\<lambda>e. \<not> submitted e) (dbc_load sdk read pool acc)"
  unfolding dbc_load_def fetched_def Let_def by (intro errs_intros) (simp_all add: refusals_not_submitted)

lemma dbc_load_pool: "dbc_load sdk read pool acc = Inr m \<Longrightarrow> pm_pool (dbc_pool_market sdk m) = pool"
  by (auto simp: dbc_load_def virtual_pool_decode_def dbc_pool_market_def Let_def res_simps split: if_splits option.splits prod.splits)

lemma dlmm_load_errs: "errs (\<lambda>e. \<not> submitted e) (dlmm_load sdk read pool acc)"
  unfolding dlmm_load_def fetched_def Let_def by (intro errs_intros) simp_all

lemma dlmm_load_pool: "dlmm_load sdk read pool acc = Inr m \<Longrightarrow> pm_pool (dlmm_pool_market sdk m) = pool"
  by (auto simp: dlmm_load_def lb_pair_decode_def dlmm_pool_market_def Let_def res_simps split: if_splits option.splits prod.splits)

lemma pump_amm_load_errs: "errs (\<lambda>e. \<not> submitted e) (pump_amm_load sdk read pool acc)"
  unfolding pump_amm_load_def fetched_def Let_def by (intro errs_intros) simp_all

lemma pump_amm_load_pool: "pump_amm_load sdk read pool acc = Inr m \<Longrightarrow> pm_pool (pump_amm_pool_market sdk m) = pool"
  by (auto simp: pump_amm_load_def pump_amm_decode_def pump_amm_pool_market_def Let_def res_simps split: if_splits option.splits prod.splits)

lemma pump_legacy_load_errs: "errs (\<lambda>e. \<not> submitted e) (pump_legacy_load sdk parse tokens_of read pool acc)"
  unfolding pump_legacy_load_def fetched_def Let_def by (intro errs_intros) (simp_all add: refusals_not_submitted)

lemma pump_legacy_load_pool: "pump_legacy_load sdk parse tokens_of read pool acc = Inr m \<Longrightarrow> pm_pool (pump_legacy_pool_market sdk m) = pool"
  by (auto simp: pump_legacy_load_def bonding_curve_decode_def pump_legacy_pool_market_def Let_def res_simps split: if_splits option.splits prod.splits)

lemma whirlpool_load_errs: "errs (\<lambda>e. \<not> submitted e) (whirlpool_load sdk read pool acc)"
  unfolding whirlpool_load_def fetched_def Let_def by (intro errs_intros) simp_all

lemma whirlpool_load_pool: "whirlpool_load sdk read pool acc = Inr m \<Longrightarrow> pm_pool (whirlpool_pool_market sdk m) = pool"
  by (auto simp: whirlpool_load_def whirlpool_decode_def whirlpool_pool_market_def Let_def res_simps split: if_splits option.splits prod.splits)

lemma moonit_load_errs: "errs (\<lambda>e. \<not> submitted e) (moonit_load sdk read pool acc)"
  unfolding moonit_load_def fetched_def Let_def by (intro errs_intros) simp_all

lemma moonit_load_pool: "moonit_load sdk read pool acc = Inr m \<Longrightarrow> pm_pool (moonit_pool_market sdk m) = pool"
  by (auto simp: moonit_load_def moonit_curve_decode_def moonit_pool_market_def moonit_new_def Let_def res_simps split: if_splits option.splits prod.splits)

lemma fluxbeam_load_errs: "errs (\<lambda>e. \<not> submitted e) (fluxbeam_load sdk read pool acc)"
  unfolding fluxbeam_load_def fetched_def Let_def by (intro errs_intros) simp_all

lemma fluxbeam_load_pool: "fluxbeam_load sdk read pool acc = Inr m \<Longrightarrow> pm_pool (fluxbeam_pool_market sdk m) = pool"
  by (auto simp: fluxbeam_load_def fluxbeam_decode_def fluxbeam_pool_market_def Let_def res_simps split: if_splits option.splits prod.splits)

text \<open>What a venue promises of the market it loads, and of an error.\<close>

definition serves :: "pool_venue \<Rightarrow> pubkey \<Rightarrow> pool_market direct_result \<Rightarrow> bool" where
  "serves venue pool r \<longleftrightarrow> (case r of
     Inr market \<Rightarrow> pm_pool market = pool \<and> pm_program market = pv_program venue
       \<and> lawful_market market (pv_program_id venue)
   | Inl e \<Rightarrow> \<not> submitted e)"

lemma boxed_serves:
  assumes "errs (\<lambda>e. \<not> submitted e) r"
    and "\<And>m. r = Inr m \<Longrightarrow> pm_pool (market m) = pool \<and> pm_program (market m) = pv_program venue
      \<and> lawful_market (market m) (pv_program_id venue)"
  shows "serves venue pool (boxed market r)"
  using assms by (cases r) (simp_all add: serves_def boxed_def)

lemma cpmm_serves: "serves (cpmm_venue sdk) pool (pv_load (cpmm_venue sdk) cv pool acc)"
  unfolding cpmm_venue_def pool_venue.simps
  by (rule boxed_serves [OF cpmm_load_errs])
    (simp add: cpmm_load_pool cpmm.lawful [OF TrueI], simp add: cpmm_pool_market_def Let_def)

lemma amm_v4_serves: "serves (amm_v4_venue sdk) pool (pv_load (amm_v4_venue sdk) cv pool acc)"
  unfolding amm_v4_venue_def pool_venue.simps
  by (rule boxed_serves [OF amm_v4_load_errs])
    (simp add: amm_v4_load_pool amm_v4.lawful [OF TrueI], simp add: amm_v4_pool_market_def Let_def)

lemma clmm_serves: "serves (clmm_venue sdk) pool (pv_load (clmm_venue sdk) cv pool acc)"
  unfolding clmm_venue_def pool_venue.simps
  by (rule boxed_serves [OF clmm_load_errs])
    (simp add: clmm_load_pool clmm.lawful [OF clmm_load_wf(1)], simp add: clmm_pool_market_def Let_def)

lemma damm_serves: "serves (damm_venue sdk) pool (pv_load (damm_venue sdk) cv pool acc)"
  unfolding damm_venue_def pool_venue.simps
  by (rule boxed_serves [OF damm_load_errs])
    (simp add: damm_load_pool damm.lawful [OF TrueI], simp add: damm_pool_market_def Let_def)

lemma dbc_serves: "serves (dbc_venue sdk) pool (pv_load (dbc_venue sdk) cv pool acc)"
  unfolding dbc_venue_def pool_venue.simps
  by (rule boxed_serves [OF dbc_load_errs])
    (simp add: dbc_load_pool dbc.lawful [OF TrueI], simp add: dbc_pool_market_def Let_def)

lemma dlmm_serves: "serves (dlmm_venue sdk) pool (pv_load (dlmm_venue sdk) cv pool acc)"
  unfolding dlmm_venue_def pool_venue.simps
  by (rule boxed_serves [OF dlmm_load_errs])
    (simp add: dlmm_load_pool dlmm.lawful [OF TrueI], simp add: dlmm_pool_market_def Let_def)

lemma pump_amm_serves: "serves (pump_amm_venue sdk) pool (pv_load (pump_amm_venue sdk) cv pool acc)"
  unfolding pump_amm_venue_def pool_venue.simps
  by (rule boxed_serves [OF pump_amm_load_errs])
    (simp add: pump_amm_load_pool pump_amm.lawful [OF TrueI], simp add: pump_amm_pool_market_def Let_def)

lemma pump_legacy_serves: "serves (pump_legacy_venue sdk) pool (pv_load (pump_legacy_venue sdk) cv pool acc)"
  unfolding pump_legacy_venue_def pool_venue.simps
  by (rule boxed_serves [OF pump_legacy_load_errs])
    (simp add: pump_legacy_load_pool pump_legacy.lawful [OF TrueI], simp add: pump_legacy_pool_market_def Let_def)

lemma whirlpool_serves: "serves (whirlpool_venue sdk) pool (pv_load (whirlpool_venue sdk) cv pool acc)"
  unfolding whirlpool_venue_def pool_venue.simps
  by (rule boxed_serves [OF whirlpool_load_errs])
    (simp add: whirlpool_load_pool whirlpool.lawful [OF whirlpool_load_wf], simp add: whirlpool_pool_market_def Let_def)

lemma moonit_serves: "serves (moonit_venue sdk) pool (pv_load (moonit_venue sdk) cv pool acc)"
  unfolding moonit_venue_def pool_venue.simps
  by (rule boxed_serves [OF moonit_load_errs])
    (simp add: moonit_load_pool moonit.lawful [OF TrueI], simp add: moonit_pool_market_def Let_def)

lemma fluxbeam_serves: "serves (fluxbeam_venue sdk) pool (pv_load (fluxbeam_venue sdk) cv pool acc)"
  unfolding fluxbeam_venue_def pool_venue.simps
  by (rule boxed_serves [OF fluxbeam_load_errs])
    (simp add: fluxbeam_load_pool fluxbeam.lawful [OF TrueI], simp add: fluxbeam_pool_market_def Let_def)

lemma venues_serve:
  assumes "venue \<in> set (venues sdk)"
  shows "serves venue pool (pv_load venue cv pool acc)"
  using assms unfolding venues_def
  by (auto simp: cpmm_serves amm_v4_serves clmm_serves damm_serves dbc_serves dlmm_serves pump_amm_serves
      pump_legacy_serves whirlpool_serves moonit_serves fluxbeam_serves)

section \<open>From the request to the outcome\<close>

lemma require_venue_Inr: "require_venue sdk program = Inr venue \<Longrightarrow> venue \<in> set (venues sdk) \<and> pv_program_id venue = program"
  by (auto simp: require_venue_def venue_for_program_id_def res_simps find_Some_iff)

lemma load_market_serves:
  "(\<exists>acc venue. cv_account cv pool = Inr (Some acc) \<and> venue \<in> set (venues sdk)
     \<and> pv_program_id venue = acc_owner acc \<and> load_market sdk cv pool = pv_load venue cv pool acc
     \<and> serves venue pool (load_market sdk cv pool))
   \<or> (\<exists>e. load_market sdk cv pool = Inl e \<and> \<not> submitted e)"
proof (cases "\<exists>acc venue. cv_account cv pool = Inr (Some acc) \<and> require_venue sdk (acc_owner acc) = Inr venue")
  case True
  then obtain acc venue where "cv_account cv pool = Inr (Some acc)" "require_venue sdk (acc_owner acc) = Inr venue"
    by blast
  moreover from this(2) have "venue \<in> set (venues sdk)" "pv_program_id venue = acc_owner acc"
    using require_venue_Inr by blast+
  ultimately show ?thesis using venues_serve [of venue sdk pool cv acc] by (auto simp: load_market_def)
next
  case False
  then show ?thesis
    by (cases "cv_account cv pool"; cases "projr (cv_account cv pool)")
      (auto simp: load_market_def require_venue_def ok_or_Inr_iff split: option.splits)
qed

lemma load_market_errs: "errs (\<lambda>e. \<not> submitted e) (load_market sdk cv pool)"
  using load_market_serves [of cv pool sdk] by (auto simp: errs_def serves_def)

lemma load_market_Inr:
  assumes "load_market sdk cv pool = Inr market"
  obtains acc venue where "cv_account cv pool = Inr (Some acc)" "venue \<in> set (venues sdk)"
    "pv_program_id venue = acc_owner acc" "pm_pool market = pool" "pm_program market = pv_program venue"
    "lawful_market market (acc_owner acc)"
  using load_market_serves [of cv pool sdk] assms by (auto simp: serves_def)

lemma lawful_errs:
  assumes "lawful_market market program"
  shows "errs (\<lambda>e. \<not> submitted e) (pm_quote market mint amount)"
    and "errs (\<lambda>e. \<not> submitted e) (pm_swap_instruction market acc amount min_out)"
  using assms unfolding lawful_market_def errs_def by (metis (no_types, lifting) sum.simps(5))+

lemma quote_with_market_errs:
  assumes "lawful_market market program"
  shows "errs (\<lambda>e. \<not> submitted e) (quote_with_market sdk intent market)"
  unfolding quote_with_market_def validate_def resolve_def assemble_def Let_def
  by (intro errs_intros lawful_errs [OF assms]; simp split: fee_side.splits prod.splits)

lemma build_plan_errs:
  assumes "lawful_market market program"
  shows "errs (\<lambda>e. \<not> submitted e) (build_plan sdk price intent market q)"
  unfolding build_plan_def resolve_legs_def wrap_input_def wrap_lamports_def fee_transfer_def transfer_instruction_def
    output_fee_def close_wsol_def Let_def
  by (intro errs_intros lawful_errs [OF assms]) simp_all

lemma execute_unsent:
  assumes "execute_plan sdk sj price nd plan signer = (out, [])"
  obtains e where "out = Some (Inl e)" "\<not> submitted e"
  using assms errsD [OF preflight_not_submitted]
  by (auto simp: execute_plan_def Let_def split: sum.splits prod.splits if_splits option.splits)

lemma quote_errs: "errs (\<lambda>e. \<not> submitted e) (quote sdk cv intent)"
  unfolding quote_def
proof (intro errs_intros load_market_errs)
  show "errs (\<lambda>e. \<not> submitted e) (validate sdk intent)" by (simp add: validate_def)
next
  fix market assume "load_market sdk cv (intent_pool intent) = Inr market"
  then show "errs (\<lambda>e. \<not> submitted e) (quote_with_market sdk intent market)"
    by (rule load_market_Inr) (rule quote_with_market_errs)
qed simp

lemma build_plan_venue_ix:
  assumes "build_plan sdk price intent market q = Inr plan" and "lawful_market market program"
  shows "\<exists>ix \<in> set (plan_instructions plan). ix_program ix = program
     \<and> (\<forall>m \<in> set (ix_accounts ix). meta_signer m \<longrightarrow> meta_key m = intent_owner intent)"
proof -
  let ?acc = "\<lambda>legs. \<lparr>sa_owner = intent_owner intent, sa_input_mint = intent_input_mint intent,
    sa_output_mint = intent_output_mint intent, sa_input_token_account = legs_input_account legs,
    sa_output_token_account = legs_output_account legs\<rparr>"
  obtain legs w f ix out cl where "pm_swap_instruction market (?acc legs) (dq_swap_amount_in q) (dq_min_out q) = Inr ix"
    and "plan_instructions plan = compute_budget_instructions sdk price (pm_compute_units market)
        @ ensure_instructions sdk legs (intent_owner intent) (intent_owner intent) (intent_input_mint intent)
            (intent_output_mint intent) @ w @ f @ [ix] @ out @ cl"
    using assms(1) by (auto simp: build_plan_def Let_def res_simps intro: that)
  then have ix: "ix \<in> set (plan_instructions plan)"
    "pm_swap_instruction market (?acc legs) (dq_swap_amount_in q) (dq_min_out q) = Inr ix" by simp_all
  have "case pm_swap_instruction market (?acc legs) (dq_swap_amount_in q) (dq_min_out q) of
        Inr ix \<Rightarrow> trades market (sa_input_mint (?acc legs)) (sa_output_mint (?acc legs)) \<and> ix_program ix = program
          \<and> (\<forall>m \<in> set (ix_accounts ix). meta_signer m \<longrightarrow> meta_key m = sa_owner (?acc legs))
      | Inl e \<Rightarrow> \<not> submitted e"
    using assms(2) unfolding lawful_market_def by blast
  with ix show ?thesis by auto
qed

section \<open>A concrete pool\<close>

definition sample_chain :: chain_view where
  "sample_chain = \<lparr>
     cv_account = (\<lambda>_. Inr (Some sample_pair_account)),
     cv_accounts = sample_dlmm_read, cv_slot = Inr 0, cv_now_unix = 0,
     cv_parse_pubkey = (\<lambda>s. Inr (text_key s)), cv_token_accounts = (\<lambda>_. Inr [])\<rparr>"

lemma venue_ids:
  "map pv_program_id (venues sdk) = map (from_str sdk \<circ> program_id_str \<circ> pv_program) (venues sdk)"
  "map pv_program (venues sdk) = [RaydiumCpmm, RaydiumLegacyAmm, RaydiumClmm, MeteoraDamm, MeteoraDbc, MeteoraDlmm,
     PumpFunAmm, PumpFunLegacy, OrcaWhirlpool, Moonit, FluxbeamAmm]"
  by (simp_all add: venues_def cpmm_venue_def amm_v4_venue_def clmm_venue_def damm_venue_def dbc_venue_def
      dlmm_venue_def pump_amm_venue_def pump_legacy_venue_def whirlpool_venue_def moonit_venue_def
      fluxbeam_venue_def cpmm_program_id_def amm_v4_program_id_def clmm_program_id_def damm_program_id_def
      dbc_program_id_def dlmm_program_id_def pump_amm_program_id_def pump_legacy_program_id_def
      whirlpool_program_id_def moonit_program_id_def fluxbeam_program_id_def)

lemma program_strings_distinct: "distinct (map (program_id_str \<circ> pv_program) (venues sdk))"
proof -
  have "map (program_id_str \<circ> pv_program) (venues sdk) = map program_id_str (map pv_program (venues sdk))" by simp
  then show ?thesis
    unfolding venue_ids(2)
    by (simp add: RAYDIUM_CPMM_PROGRAM_ID_def RAYDIUM_LEGACY_AMM_PROGRAM_ID_def RAYDIUM_CLMM_PROGRAM_ID_def
        METEORA_DAMM_PROGRAM_ID_def METEORA_DBC_PROGRAM_ID_def METEORA_DLMM_PROGRAM_ID_def
        PUMP_FUN_AMM_PROGRAM_ID_def PUMP_FUN_LEGACY_PROGRAM_ID_def ORCA_WHIRLPOOL_PROGRAM_ID_def
        MOONIT_AMM_PROGRAM_ID_def FLUXBEAM_AMM_PROGRAM_ID_def)
qed

lemma find_key:
  "distinct (map f xs) \<Longrightarrow> x \<in> set xs \<Longrightarrow> find (\<lambda>y. f y = f x) xs = Some x"
  by (induction xs) auto

lemma sample_pair_owner: "acc_owner sample_pair_account = dlmm_program_id sample_sdk"
  by (simp add: sample_pair_account_def)

lemma sample_chain_load:
  obtains m q where "load_market sample_sdk sample_chain (Pubkey [3]) = Inr (dlmm_pool_market sample_sdk m)"
    and "dlmm_quote m default_pubkey 1000 = Inr q" and "vq_expected_out q = 1000"
    and "lb_token_x_mint (dl_state m) = default_pubkey" and "lb_token_y_mint (dl_state m) = Pubkey (replicate 32 1)"
    and "bin_array_accounts sample_sdk m True \<noteq> []"
proof -
  obtain m q where m: "dlmm_load sample_sdk sample_dlmm_read (Pubkey [3]) sample_pair_account = Inr m"
    and rest: "dlmm_quote m default_pubkey 1000 = Inr q" "vq_expected_out q = 1000"
    "lb_token_x_mint (dl_state m) = default_pubkey" "lb_token_y_mint (dl_state m) = Pubkey (replicate 32 1)"
    "bin_array_accounts sample_sdk m True \<noteq> []"
    by (rule sample_dlmm_load)
  have find: "venue_for_program_id sample_sdk (dlmm_program_id sample_sdk) = Some (dlmm_venue sample_sdk)"
  proof -
    have "distinct (map pv_program_id (venues sample_sdk))"
      using program_strings_distinct [of sample_sdk] unfolding venue_ids(1)
      by (simp add: distinct_map inj_on_def sample_sdk_def)
    moreover have "dlmm_venue sample_sdk \<in> set (venues sample_sdk)" by (simp add: venues_def)
    moreover have "pv_program_id (dlmm_venue sample_sdk) = dlmm_program_id sample_sdk" by (simp add: dlmm_venue_def)
    ultimately show ?thesis unfolding venue_for_program_id_def using find_key by metis
  qed
  show thesis
    by (rule that [OF _ rest])
      (simp add: load_market_def sample_chain_def require_venue_def sample_pair_owner find, simp add: dlmm_venue_def boxed_def m)
qed

text \<open>A swap on the concrete pool, through a node that simulates the plan and then refuses it.\<close>

definition refusing_node :: node where
  "refusing_node = (sample_node [])\<lparr>
     nd_accounts := Inr [Some \<lparr>acc_lamports = - 1, acc_data = [], acc_owner = Pubkey []\<rparr>,
       Some sample_token_account, Some sample_token_account],
     nd_send := (\<lambda>_. Inl ''refused'')\<rparr>"

definition pair_intent :: direct_swap_intent where
  "pair_intent = \<lparr>intent_pool = Pubkey [3], intent_owner = Pubkey [9], intent_input_mint = default_pubkey,
     intent_output_mint = Pubkey (replicate 32 1), intent_amount_in = 1000, intent_slippage_bps = 100\<rparr>"

lemma short_keys:
  assumes "length bs = 32"
  shows "\<not> is_reference_mint sample_sdk (Pubkey bs)" and "Pubkey bs \<noteq> wsol_mint sample_sdk"
proof -
  have len: "length (key_bytes (wsol_mint sample_sdk)) = 43" "length (key_bytes (usdc_mint sample_sdk)) = 44"
    by (simp_all add: wsol_mint_def usdc_mint_def sample_sdk_def text_key_def SOL_MINT_def USDC_MINT_def)
  then show "Pubkey bs \<noteq> wsol_mint sample_sdk" using assms by (auto dest: arg_cong [of _ _ "length \<circ> key_bytes"])
  from len have "Pubkey bs \<noteq> usdc_mint sample_sdk" using assms by (auto dest: arg_cong [of _ _ "length \<circ> key_bytes"])
  with \<open>Pubkey bs \<noteq> wsol_mint sample_sdk\<close> show "\<not> is_reference_mint sample_sdk (Pubkey bs)"
    by (simp add: is_reference_mint_def)
qed

lemma pair_mints:
  "\<not> is_reference_mint sample_sdk default_pubkey" "\<not> is_reference_mint sample_sdk (Pubkey (replicate 32 1))"
  "wsol_mint sample_sdk \<noteq> default_pubkey" "wsol_mint sample_sdk \<noteq> Pubkey (replicate 32 1)"
  "default_pubkey \<noteq> Pubkey (replicate 32 1)"
proof -
  show "default_pubkey \<noteq> Pubkey (replicate 32 1)" by (simp add: default_pubkey_def)
qed (use short_keys [of "replicate 32 0"] short_keys [of "replicate 32 1"] in \<open>auto simp: default_pubkey_def\<close>)

lemma pair_quote:
  obtains m q where "quote sample_sdk sample_chain pair_intent = Inr (q, dlmm_pool_market sample_sdk m)"
    and "lb_token_x_mint (dl_state m) = default_pubkey" "lb_token_y_mint (dl_state m) = Pubkey (replicate 32 1)"
    and "bin_array_accounts sample_sdk m True \<noteq> []"
proof -
  obtain m vq where m: "load_market sample_sdk sample_chain (Pubkey [3]) = Inr (dlmm_pool_market sample_sdk m)"
    "dlmm_quote m default_pubkey 1000 = Inr vq" "vq_expected_out vq = 1000"
    "lb_token_x_mint (dl_state m) = default_pubkey" "lb_token_y_mint (dl_state m) = Pubkey (replicate 32 1)"
    "bin_array_accounts sample_sdk m True \<noteq> []" by (rule sample_chain_load)
  have "min_out_after_slippage 1000 100 \<noteq> 0" by (simp add: word_unat_eq_iff unat_min_out_after_slippage)
  moreover have "pool_amount sample_sdk pair_intent = 1000"
    by (simp add: pool_amount_def pair_intent_def for_pair_def pair_mints)
  moreover have "validate sample_sdk pair_intent = Inr ()"
    using pair_mints(5) by (simp add: validate_def pair_intent_def MAX_SLIPPAGE_BPS_def)
  moreover have "trades (dlmm_pool_market sample_sdk m) default_pubkey (Pubkey (replicate 32 1))"
    by (simp add: trades_def dlmm_pool_market_def m)
  ultimately have "is_ok (quote_with_market sample_sdk pair_intent (dlmm_pool_market sample_sdk m))"
    using m(2,3) by (simp add: quote_ok_iff) (simp add: pair_intent_def dlmm_pool_market_def)
  with that m \<open>validate sample_sdk pair_intent = Inr ()\<close> show thesis
    by (auto simp: quote_def is_ok_iff pair_intent_def)
qed

lemma pair_swap:
  "\<exists>e tx. swap sample_sdk (\<lambda>_. []) 50000 sample_chain refusing_node pair_intent (Pubkey [9]) = (Some (Inl e), [tx])"
proof -
  obtain m q where q: "quote sample_sdk sample_chain pair_intent = Inr (q, dlmm_pool_market sample_sdk m)"
    and m: "lb_token_x_mint (dl_state m) = default_pubkey" "lb_token_y_mint (dl_state m) = Pubkey (replicate 32 1)"
      "bin_array_accounts sample_sdk m True \<noteq> []" by (rule pair_quote)
  let ?market = "dlmm_pool_market sample_sdk m"
  have facts: "quote_with_market sample_sdk pair_intent ?market = Inr q" using q by (auto simp: quote_def res_simps)
  have fields: "intent_input_mint pair_intent = default_pubkey" "intent_output_mint pair_intent = Pubkey (replicate 32 1)"
    "intent_amount_in pair_intent = 1000" by (simp_all add: pair_intent_def)
  have leg: "fee_leg (dq_fee q) = NoSide"
    using quote_with_market_Inr(5) [OF facts] by (simp add: fields for_pair_def pair_mints)
  note qf = quote_with_market_Inr(9,10) [OF facts, unfolded fields]
  have native: "\<not> wraps_native sample_sdk pair_intent" "\<not> unwraps_native sample_sdk pair_intent"
    using pair_mints(3,4) by (auto simp: wraps_native_def unwraps_native_def is_wsol_def fields)
  have close: "close_wsol sample_sdk pair_intent legs = Inr []" for legs
    using native by (simp add: close_wsol_def wsol_account_def wraps_native_def unwraps_native_def)
  have direction: "swap_direction pool default_pubkey (Pubkey (replicate 32 1))
      \<lparr>sa_owner = ow, sa_input_mint = default_pubkey, sa_output_mint = Pubkey (replicate 32 1),
       sa_input_token_account = i, sa_output_token_account = t\<rparr> = Inr True" for pool ow i t
    using pair_mints(5) by (simp add: swap_direction_iff)
  have sides: "is_side_x m default_pubkey = Some True" "is_side_x m (Pubkey (replicate 32 1)) = Some False"
    using pair_mints(5) by (simp_all add: is_side_x_def side_of_def m(1,2))
  have "is_ok (dlmm_swap_instruction sample_sdk m \<lparr>sa_owner = ow, sa_input_mint = default_pubkey,
      sa_output_mint = Pubkey (replicate 32 1), sa_input_token_account = i, sa_output_token_account = t\<rparr> a l)"
    for ow i t a l by (simp add: dlmm_swap_instruction_def m direction Let_def)
  then have "is_ok (build_plan sample_sdk 50000 pair_intent ?market q)"
    using native close by (auto simp: build_plan_def resolve_legs_def fields dlmm_pool_market_def sides leg wrap_input_def
        output_fee_def is_ok_iff rbind_Inr_iff Let_def)
  then obtain plan where plan: "build_plan sample_sdk 50000 pair_intent ?market q = Inr plan" by (auto simp: is_ok_iff)
  then have "plan_quote plan = q" by (auto simp: build_plan_def res_simps Let_def)
  then have "preflight_balance sample_sdk 50000 (nd_accounts refusing_node) (nd_rent refusing_node) plan (Pubkey [9]) = Inr ()"
    using pair_mints(3) by (auto simp: preflight_balance_def refusing_node_def entry_def qf is_wsol_def
        sample_token_account_reads not_less Let_def)
  then show ?thesis
    by (simp add: swap_def q plan execute_plan_def) (simp add: refusing_node_def sample_node_def succeeded_def Let_def)
qed

section \<open>Properties\<close>

text \<open>Dispatch by owner is exact. As long as the program ids of the venues parse to different keys, every
  registered venue is found by its own program id and by its own kind, its program id is the one its kind
  names, every kind but the unknown one is supported, and an account owned by any other program is refused
  as an unsupported venue.\<close>

theorem dispatch_by_owner:
  assumes "inj_on (from_str sdk) (program_id_str ` {kind. kind \<noteq> UnknownProgram})"
  shows "(\<forall>venue \<in> set (venues sdk). require_venue sdk (pv_program_id venue) = Inr venue
         \<and> venue_for_kind sdk (pv_program venue) = Some venue
         \<and> pv_program_id venue = from_str sdk (program_id_str (pv_program venue)))
     \<and> (\<forall>kind. supports sdk kind \<longleftrightarrow> kind \<noteq> UnknownProgram)
     \<and> (\<forall>program. program \<notin> set (map pv_program_id (venues sdk)) \<longrightarrow>
         require_venue sdk program = Inl (UnsupportedVenue program))"
proof (intro conjI ballI allI impI)
  have kinds: "set (map pv_program (venues sdk)) = {kind. kind \<noteq> UnknownProgram}"
    unfolding venue_ids(2) by (auto intro: program_kind.exhaust)
  have by_kind: "distinct (map pv_program (venues sdk))" unfolding venue_ids(2) by simp
  have "inj_on (from_str sdk) (set (map (program_id_str \<circ> pv_program) (venues sdk)))"
    by (rule inj_on_subset [OF assms]) (use kinds in auto)
  then have "inj_on (from_str sdk \<circ> (program_id_str \<circ> pv_program)) (set (venues sdk))"
    by (intro comp_inj_on [of "program_id_str \<circ> pv_program"])
      (use program_strings_distinct [of sdk] in \<open>simp_all add: distinct_map\<close>)
  then have by_id: "distinct (map pv_program_id (venues sdk))"
    using program_strings_distinct [of sdk] unfolding venue_ids(1) comp_assoc by (simp add: distinct_map)
  fix venue assume venue: "venue \<in> set (venues sdk)"
  show "require_venue sdk (pv_program_id venue) = Inr venue"
    by (simp add: require_venue_def venue_for_program_id_def find_key [OF by_id venue])
  show "venue_for_kind sdk (pv_program venue) = Some venue"
    by (simp add: venue_for_kind_def find_key [OF by_kind venue])
  from venue venue_ids(1) [of sdk] show "pv_program_id venue = from_str sdk (program_id_str (pv_program venue))"
    by (auto simp: map_eq_conv)
next
  fix kind
  have "set (map pv_program (venues sdk)) = {kind. kind \<noteq> UnknownProgram}"
    unfolding venue_ids(2) by (auto intro: program_kind.exhaust)
  then have "kind \<noteq> UnknownProgram \<longleftrightarrow> kind \<in> pv_program ` set (venues sdk)" by simp
  then show "supports sdk kind \<longleftrightarrow> kind \<noteq> UnknownProgram"
    unfolding supports_def venue_for_kind_def find_None_iff image_iff by metis
next
  fix program assume "program \<notin> set (map pv_program_id (venues sdk))"
  then have "venue_for_program_id sdk program = None" by (auto simp: venue_for_program_id_def find_None_iff)
  then show "require_venue sdk program = Inl (UnsupportedVenue program)" by (simp add: require_venue_def)
qed

theorem dispatch_by_owner_witness:
  "require_venue sample_sdk (dlmm_program_id sample_sdk) = Inr (dlmm_venue sample_sdk)
     \<and> require_venue sample_sdk (Pubkey []) = Inl (UnsupportedVenue (Pubkey []))
     \<and> \<not> supports sample_sdk UnknownProgram"
proof -
  have inj: "inj_on (from_str sample_sdk) S" for S by (simp add: inj_on_def sample_sdk_def)
  have venue: "dlmm_venue sample_sdk \<in> set (venues sample_sdk)" "pv_program_id (dlmm_venue sample_sdk) = dlmm_program_id sample_sdk"
    by (simp_all add: venues_def) (simp add: dlmm_venue_def)
  have "Pubkey [] \<notin> set (map pv_program_id (venues sample_sdk))"
  proof -
    have "Pubkey [] = text_key ''''" by (simp add: text_key_def)
    moreover have "'''' \<notin> set (map program_id_str (map pv_program (venues sample_sdk)))"
      unfolding venue_ids(2)
      by (simp add: RAYDIUM_CPMM_PROGRAM_ID_def RAYDIUM_LEGACY_AMM_PROGRAM_ID_def RAYDIUM_CLMM_PROGRAM_ID_def
          METEORA_DAMM_PROGRAM_ID_def METEORA_DBC_PROGRAM_ID_def METEORA_DLMM_PROGRAM_ID_def
          PUMP_FUN_AMM_PROGRAM_ID_def PUMP_FUN_LEGACY_PROGRAM_ID_def ORCA_WHIRLPOOL_PROGRAM_ID_def
          MOONIT_AMM_PROGRAM_ID_def FLUXBEAM_AMM_PROGRAM_ID_def)
    ultimately show ?thesis unfolding venue_ids(1) by (auto simp: sample_sdk_def)
  qed
  with dispatch_by_owner [OF inj] venue show ?thesis by metis
qed

text \<open>C3: whatever the engine loads keeps the venue contract. A market loaded for a pool is a market of that
  pool, of a registered venue whose program owns the pool's account; its quotes answer the size asked for and
  only for the pool's mints, its instructions go to that very program, only for the pool's pair, and are
  signed by the wallet alone, and its refusals, like those of the load itself, claim nothing was submitted.\<close>

theorem loaded_market_is_lawful:
  "case load_market sdk cv pool of
     Inl e \<Rightarrow> \<not> submitted e
   | Inr market \<Rightarrow> \<exists>acc venue. cv_account cv pool = Inr (Some acc) \<and> venue \<in> set (venues sdk)
       \<and> pv_program_id venue = acc_owner acc \<and> pm_pool market = pool \<and> pm_program market = pv_program venue
       \<and> lawful_market market (acc_owner acc)"
proof (cases "load_market sdk cv pool")
  case (Inl e)
  then show ?thesis using errsD [OF load_market_errs] by simp
next
  case (Inr market)
  then show ?thesis by (auto elim!: load_market_Inr)
qed

theorem loaded_market_is_lawful_witness:
  "\<exists>market. load_market sample_sdk sample_chain (Pubkey [3]) = Inr market
     \<and> pm_pool market = Pubkey [3] \<and> lawful_market market (dlmm_program_id sample_sdk)"
proof -
  obtain m where "load_market sample_sdk sample_chain (Pubkey [3]) = Inr (dlmm_pool_market sample_sdk m)"
    by (rule sample_chain_load)
  with loaded_market_is_lawful [where sdk = sample_sdk and cv = sample_chain and pool = "Pubkey [3]"] show ?thesis
    by (auto simp: sample_chain_def sample_pair_owner)
qed

text \<open>C2: a swap end to end sends only the plan of the market it loaded, or nothing. If no transaction was
  handed over, the outcome is an error that claims none was. Otherwise there is one transaction, perhaps
  handed over again, which is the plan built from the engine's own quote on the loaded market up to its
  compute-unit limit; and the one instruction the venue contributes is addressed to the program that owns
  the pool's account and asks for no signature but the wallet's.\<close>

theorem swap_sends_its_plan_or_nothing:
  assumes "swap sdk sj price cv nd intent signer = (out, sent)"
  shows "if sent = [] then \<exists>e. out = Some (Inl e) \<and> \<not> submitted e
     else \<exists>acc market q plan tx units ix. cv_account cv (intent_pool intent) = Inr (Some acc)
       \<and> quote sdk cv intent = Inr (q, market) \<and> build_plan sdk price intent market q = Inr plan
       \<and> sent = replicate (length sent) tx \<and> fst tx = tighten_limit sdk units (plan_instructions plan)
       \<and> ix \<in> set (plan_instructions plan) \<and> ix_program ix = acc_owner acc
       \<and> (\<forall>m \<in> set (ix_accounts ix). meta_signer m \<longrightarrow> meta_key m = intent_owner intent)"
proof (cases "quote sdk cv intent")
  case (Inl e)
  then show ?thesis using assms errsD [OF quote_errs Inl] by (auto simp: swap_def)
next
  case (Inr qm)
  then obtain q market where q: "quote sdk cv intent = Inr (q, market)" by (cases qm) auto
  then have "load_market sdk cv (intent_pool intent) = Inr market" by (auto simp: quote_def res_simps)
  then obtain acc where acc: "cv_account cv (intent_pool intent) = Inr (Some acc)"
    and lawful: "lawful_market market (acc_owner acc)" by (rule load_market_Inr)
  show ?thesis
  proof (cases "build_plan sdk price intent market q")
    case (Inl e)
    then show ?thesis using assms q errsD [OF build_plan_errs [OF lawful] Inl] by (auto simp: swap_def)
  next
    case (Inr plan)
    with assms q have run: "execute_plan sdk sj price nd plan signer = (out, sent)" by (simp add: swap_def)
    show ?thesis
    proof (cases "sent = []")
      case True
      then show ?thesis using run by (auto elim: execute_unsent)
    next
      case False
      from execute_sent_same [OF run] obtain tx n units where tx: "sent = replicate n tx"
        "0 < n \<longrightarrow> fst tx = tighten_limit sdk units (plan_instructions plan)" by fastforce
      obtain ix where ix: "ix \<in> set (plan_instructions plan)" "ix_program ix = acc_owner acc"
        "\<forall>m \<in> set (ix_accounts ix). meta_signer m \<longrightarrow> meta_key m = intent_owner intent"
        using build_plan_venue_ix [OF Inr lawful] by blast
      have "0 < n" "length sent = n" using False tx(1) by auto
      with False acc q Inr tx ix show ?thesis by auto
    qed
  qed
qed

theorem swap_sends_its_plan_or_nothing_witness:
  "\<exists>e tx q market plan units ix. swap sample_sdk (\<lambda>_. []) 50000 sample_chain refusing_node pair_intent (Pubkey [9])
       = (Some (Inl e), [tx])
     \<and> quote sample_sdk sample_chain pair_intent = Inr (q, market)
     \<and> build_plan sample_sdk 50000 pair_intent market q = Inr plan
     \<and> fst tx = tighten_limit sample_sdk units (plan_instructions plan)
     \<and> ix \<in> set (plan_instructions plan) \<and> ix_program ix = dlmm_program_id sample_sdk"
proof -
  obtain e tx where run: "swap sample_sdk (\<lambda>_. []) 50000 sample_chain refusing_node pair_intent (Pubkey [9])
    = (Some (Inl e), [tx])" using pair_swap by blast
  from swap_sends_its_plan_or_nothing [OF run] run show ?thesis
    by (auto simp: sample_chain_def sample_pair_owner)
qed

end
