(* ===== verification/Cost_Guard.thy ===== *)
theory Cost_Guard
  imports Json F64 Venue_Common "HOL-Library.List_Lexorder" "HOL-Library.Product_Lexorder"
    "HOL-Library.Multiset"
begin

text \<open>
  \<^verbatim>\<open>src/chains/solana/swaps/cost_guard.rs\<close>: what a transaction built by a third-party router
  would spend beside the trade, read from its simulated inner instructions, and the refusal of it. The
  node's answers (the simulation, the owners of the funded accounts) and the configuration are arguments.
  The map from programs to lamports is an association list with unique keys; the code sorts it before
  anything depends on its order.
\<close>

record swap_cost_assessment =
  ca_unrecoverable :: u64
  ca_recoverable_rent :: u64
  ca_venue_program :: "string option"
  ca_unresolved :: "(string \<times> u64) list"

definition assessment_is_empty :: "swap_cost_assessment \<Rightarrow> bool" where
  "assessment_is_empty a \<longleftrightarrow> ca_unrecoverable a = 0 \<and> ca_recoverable_rent a = 0 \<and> ca_unresolved a = []"

record cost_guard_settings =
  cg_enabled :: bool
  cg_max_extra_cost_pct :: f64
  cg_always_allow_below :: u64
  cg_retry_excluding_venue :: bool

definition owner_returns_rent :: "string \<Rightarrow> bool" where
  "owner_returns_rent owner \<longleftrightarrow> owner = SPL_TOKEN_PROGRAM_ID \<or> owner = TOKEN_2022_PROGRAM_ID"

fun as_u64 :: "json \<Rightarrow> u64 option" where
  "as_u64 (JNumber s) = parse_word s"
| "as_u64 _ = None"

definition info_lamports :: "json \<Rightarrow> u64" where
  "info_lamports info = (case json_get info ''lamports'' of
       Some (JNumber n) \<Rightarrow> (case as_u64 (JNumber n) of Some l \<Rightarrow> l | None \<Rightarrow> 0)
     | Some (JString s) \<Rightarrow> (case parse_word s of Some l \<Rightarrow> l | None \<Rightarrow> 0)
     | _ \<Rightarrow> 0)"

section \<open>Reading the inner instructions\<close>

text \<open>\<^verbatim>\<open>*by_program.entry(program).or_default() += lamports\<close>; the plain addition wraps.\<close>

fun charge :: "string \<Rightarrow> u64 \<Rightarrow> (string \<times> u64) list \<Rightarrow> (string \<times> u64) list" where
  "charge p l [] = [(p, l)]"
| "charge p l ((q, n) # rest) = (if q = p then (q, n + l) # rest else (q, n) # charge p l rest)"

text \<open>A transfer to an account already funded is added to it.\<close>

fun fund :: "string \<Rightarrow> u64 \<Rightarrow> (string \<times> u64) list \<Rightarrow> (string \<times> u64) list" where
  "fund a l [] = [(a, l)]"
| "fund a l ((b, n) # rest) = (if b = a then (b, saturating_add n l) # rest else (b, n) # fund a l rest)"

fun take_funded :: "string \<Rightarrow> (string \<times> u64) list \<Rightarrow> (u64 \<times> (string \<times> u64) list) option" where
  "take_funded a [] = None"
| "take_funded a ((b, n) # rest) =
     (if b = a then Some (n, rest)
      else map_option (\<lambda>(l, rest'). (l, (b, n) # rest')) (take_funded a rest))"

record cost_scan =
  cs_recoverable :: u64
  cs_by_program :: "(string \<times> u64) list"
  cs_funded :: "(string \<times> u64) list"

definition is_system :: "json \<Rightarrow> bool" where
  "is_system instruction \<longleftrightarrow> json_get_str instruction ''program'' = Some ''system''
     \<or> json_get_str instruction ''programId'' = Some SYSTEM_PROGRAM_ID"

text \<open>The parsed kind and info of a system instruction; anything else is skipped.\<close>

definition system_call :: "json \<Rightarrow> (string \<times> json) option" where
  "system_call instruction =
     (if \<not> is_system instruction then None
      else do {
        parsed \<leftarrow> json_get instruction ''parsed'';
        kind \<leftarrow> json_get_str parsed ''type'';
        info \<leftarrow> json_get parsed ''info'';
        Some (kind, info) })"

definition create_account :: "string \<Rightarrow> json \<Rightarrow> cost_scan \<Rightarrow> cost_scan" where
  "create_account wallet info s =
     (if json_get_str info ''source'' \<noteq> Some wallet then s
      else let lamports = info_lamports info;
               account = (case json_get_str info ''newAccount'' of Some a \<Rightarrow> a | None \<Rightarrow> [])
           in case json_get_str info ''owner'' of
                None \<Rightarrow>
                  if 0 < lamports \<and> account \<noteq> []
                  then s\<lparr>cs_funded := cs_funded s @ [(account, lamports)]\<rparr> else s
              | Some owner \<Rightarrow>
                  if owner_returns_rent owner
                  then s\<lparr>cs_recoverable := saturating_add (cs_recoverable s) lamports\<rparr>
                  else if owner = SYSTEM_PROGRAM_ID then
                    if 0 < lamports \<and> account \<noteq> []
                    then s\<lparr>cs_funded := cs_funded s @ [(account, lamports)]\<rparr> else s
                  else s\<lparr>cs_by_program := charge owner lamports (cs_by_program s)\<rparr>)"

definition wallet_transfer :: "string \<Rightarrow> json \<Rightarrow> cost_scan \<Rightarrow> cost_scan" where
  "wallet_transfer wallet info s =
     (if json_get_str info ''source'' \<noteq> Some wallet then s
      else let lamports = info_lamports info
           in case json_get_str info ''destination'' of
                None \<Rightarrow> s
              | Some destination \<Rightarrow>
                  if lamports = 0 then s
                  else s\<lparr>cs_funded := fund destination lamports (cs_funded s)\<rparr>)"

definition assign_account :: "json \<Rightarrow> cost_scan \<Rightarrow> cost_scan" where
  "assign_account info s =
     (case (json_get_str info ''account'', json_get_str info ''owner'') of
        (Some account, Some owner) \<Rightarrow>
          (case take_funded account (cs_funded s) of
             None \<Rightarrow> s
           | Some (lamports, rest) \<Rightarrow>
               let s = s\<lparr>cs_funded := rest\<rparr>
               in if owner_returns_rent owner
                  then s\<lparr>cs_recoverable := saturating_add (cs_recoverable s) lamports\<rparr>
                  else if owner \<noteq> SYSTEM_PROGRAM_ID
                  then s\<lparr>cs_by_program := charge owner lamports (cs_by_program s)\<rparr>
                  else s)
      | _ \<Rightarrow> s)"

definition cost_step :: "string \<Rightarrow> json \<Rightarrow> cost_scan \<Rightarrow> cost_scan" where
  "cost_step wallet instruction s = (case system_call instruction of
       None \<Rightarrow> s
     | Some (kind, info) \<Rightarrow>
         if kind = ''createAccount'' \<or> kind = ''createAccountWithSeed'' then create_account wallet info s
         else if kind = ''transfer'' then wallet_transfer wallet info s
         else if kind = ''assign'' then assign_account info s
         else s)"

definition inner_calls :: "json list \<Rightarrow> json list" where
  "inner_calls groups = concat (map (\<lambda>group. case json_get_array group ''instructions'' of
       Some instructions \<Rightarrow> instructions | None \<Rightarrow> []) groups)"

text \<open>Largest first, then by address.\<close>

definition by_charge :: "(string \<times> u64) list \<Rightarrow> (string \<times> u64) list" where
  "by_charge charged = sort_key (\<lambda>(program, lamports). (- int (unat lamports), program)) charged"

definition finalise :: "swap_cost_assessment \<Rightarrow> (string \<times> u64) list \<Rightarrow> swap_cost_assessment" where
  "finalise assessment by_program =
     fold (\<lambda>(program, lamports) a. a\<lparr>ca_unrecoverable := saturating_add (ca_unrecoverable a) lamports,
             ca_venue_program := (case ca_venue_program a of None \<Rightarrow> Some program | p \<Rightarrow> p)\<rparr>)
       (by_charge by_program) assessment"

definition assess_inner_instructions :: "string \<Rightarrow> json list \<Rightarrow> swap_cost_assessment" where
  "assess_inner_instructions wallet groups =
     (let s = fold (cost_step wallet) (inner_calls groups)
                \<lparr>cs_recoverable = 0, cs_by_program = [], cs_funded = []\<rparr>
      in finalise \<lparr>ca_unrecoverable = 0, ca_recoverable_rent = cs_recoverable s,
           ca_venue_program = None, ca_unresolved = cs_funded s\<rparr> (cs_by_program s))"

section \<open>Settling what chain state decides\<close>

definition attribute_one ::
  "(string \<Rightarrow> string option) \<Rightarrow> string \<times> u64 \<Rightarrow> u64 \<times> (string \<times> u64) list \<Rightarrow> u64 \<times> (string \<times> u64) list" where
  "attribute_one owners = (\<lambda>(account, lamports) (recoverable, by_program).
     (case owners account of
        None \<Rightarrow> (recoverable, by_program)
      | Some owner \<Rightarrow>
          if owner_returns_rent owner then (saturating_add recoverable lamports, by_program)
          else if owner \<noteq> SYSTEM_PROGRAM_ID then (recoverable, charge owner lamports by_program)
          else (recoverable, by_program)))"

definition attribute_unresolved ::
  "swap_cost_assessment \<Rightarrow> (string \<Rightarrow> string option) \<Rightarrow> swap_cost_assessment" where
  "attribute_unresolved assessment owners =
     (let (recoverable, by_program) =
            fold (attribute_one owners) (ca_unresolved assessment) (ca_recoverable_rent assessment, []);
          base = assessment\<lparr>ca_unresolved := [], ca_recoverable_rent := recoverable\<rparr>
      in case ca_venue_program assessment of
           None \<Rightarrow> finalise base by_program
         | Some existing \<Rightarrow>
             finalise (base\<lparr>ca_venue_program := None, ca_unrecoverable := 0\<rparr>)
               (charge existing (ca_unrecoverable assessment) by_program))"

definition allowance_lamports :: "u64 \<Rightarrow> cost_guard_settings \<Rightarrow> u64" where
  "allowance_lamports trade_value settings =
     (let proportional =
            (if f64_less (Finite 0) (cg_max_extra_cost_pct settings)
             then f64_to_u64 (f64_round (f64_div
                    (f64_mul (f64_of_u64 trade_value) (cg_max_extra_cost_pct settings)) (Finite 100)))
             else 0)
      in max proportional (cg_always_allow_below settings))"

record router_quote =
  rq_input_mint :: string
  rq_output_mint :: string
  rq_input_amount :: u64
  rq_output_amount :: u64
  rq_wallet_address :: string

definition trade_value_lamports :: "router_quote \<Rightarrow> u64" where
  "trade_value_lamports quote =
     (if is_native_asset (rq_input_mint quote) then rq_input_amount quote
      else if is_native_asset (rq_output_mint quote) then rq_output_amount quote
      else 0)"

text \<open>The owners of the accounts a batched read returned; an address that is no key, an account that does
  not exist and a failed read leave the address without an owner.\<close>

definition resolve_owners ::
  "sdk \<Rightarrow> (string \<Rightarrow> pubkey option) \<Rightarrow> account_reader \<Rightarrow> (string \<times> u64) list \<Rightarrow> string \<Rightarrow> string option" where
  "resolve_owners sdk parse_key read unresolved =
     (let keys = List.map_filter (\<lambda>(address, _). parse_key address) unresolved
      in if keys = [] then Map.empty
         else case read keys of
                Inl e \<Rightarrow> Map.empty
              | Inr accounts \<Rightarrow>
                  fold (\<lambda>(key, account) m. case account of
                          None \<Rightarrow> m
                        | Some account \<Rightarrow> m(show_pubkey sdk key \<mapsto> show_pubkey sdk (acc_owner account)))
                    (zip keys accounts) Map.empty)"

section \<open>The verdict\<close>

datatype cost_error =
    DecodeFailed string string
  | SimulationFailed string string
  | SwapCostRejected string u64 string string

definition is_space :: "char \<Rightarrow> bool" where
  "is_space c \<longleftrightarrow> c = CHR '' '' \<or> (let n = of_char c :: nat in 9 \<le> n \<and> n \<le> 13)"

definition trim :: "string \<Rightarrow> string" where
  "trim s = rev (dropWhile is_space (rev (dropWhile is_space s)))"

fun join :: "string \<Rightarrow> string list \<Rightarrow> string" where
  "join sep [] = []"
| "join sep [x] = x"
| "join sep (x # xs) = x @ sep @ join sep xs"

definition venue_display_name :: "(string \<Rightarrow> string option) \<Rightarrow> string \<Rightarrow> string" where
  "venue_display_name label program =
     (if program = [] then ''a third-party program''
      else case label program of
             Some l \<Rightarrow> l
           | None \<Rightarrow>
               if 12 < length program
               then take 4 program @ [CHR 0xE2, CHR 0x80, CHR 0xA6] @ drop (length program - 4) program
               else program)"

text \<open>
  \<open>decoded\<close> is the outcome of decoding the transaction, \<open>simulated\<close> the node's answer;
  \<open>owners\<close> reads the owners of the accounts that stayed unresolved.
\<close>

definition cost_preflight ::
  "(json \<Rightarrow> string) \<Rightarrow> string \<Rightarrow> cost_error + unit \<Rightarrow> string + simulation_outcome \<Rightarrow> cost_guard_settings
     \<Rightarrow> router_quote \<Rightarrow> ((string \<times> u64) list \<Rightarrow> string \<Rightarrow> string option) \<Rightarrow> (string \<Rightarrow> string option)
     \<Rightarrow> cost_error + unit" where
  "cost_preflight sj router decoded simulated settings quote owners label =
     rbind decoded (\<lambda>_. case simulated of
       Inl e \<Rightarrow> Inr ()
     | Inr outcome \<Rightarrow> (case sim_err outcome of
         Some err \<Rightarrow>
           let logs = sim_logs outcome; last_logs = join '' | '' (drop (length logs - 3) logs)
           in Inl (SimulationFailed router (trim (sj err @ '' '' @ last_logs)))
       | None \<Rightarrow>
           if \<not> cg_enabled settings then Inr ()
           else let assessment = assess_inner_instructions (rq_wallet_address quote)
                                   (sim_inner_instructions outcome)
           in if assessment_is_empty assessment then Inr ()
           else let assessment = (if ca_unresolved assessment \<noteq> []
                      then attribute_unresolved assessment (owners (ca_unresolved assessment))
                      else assessment);
                    allowance = allowance_lamports (trade_value_lamports quote) settings
           in if allowance < ca_unrecoverable assessment then
                let venue_program = (case ca_venue_program assessment of Some p \<Rightarrow> p | None \<Rightarrow> [])
                in Inl (SwapCostRejected router (ca_unrecoverable assessment)
                          (venue_display_name label venue_program) venue_program)
              else Inr ()))"

section \<open>Every lamport is counted once\<close>

definition lamports_in :: "(string \<times> u64) list \<Rightarrow> nat" where
  "lamports_in xs = sum_list (map (\<lambda>x. unat (snd x)) xs)"

lemma lamports_in_simps [simp]:
  "lamports_in [] = 0" "lamports_in ((p, l) # xs) = unat l + lamports_in xs"
  "lamports_in (xs @ ys) = lamports_in xs + lamports_in ys"
  by (simp_all add: lamports_in_def)

lemma lamports_in_charge:
  "lamports_in xs + unat l < 2 ^ 64 \<Longrightarrow> lamports_in (charge p l xs) = lamports_in xs + unat l"
  by (induction p l xs rule: charge.induct) (auto simp: unat_add_exact)

lemma lamports_in_fund:
  "lamports_in xs + unat l < 2 ^ 64 \<Longrightarrow> lamports_in (fund a l xs) = lamports_in xs + unat l"
  by (induction a l xs rule: fund.induct) (auto simp: unat_saturating_add)

lemma lamports_in_take_funded:
  "take_funded a xs = Some (l, rest) \<Longrightarrow> lamports_in xs = unat l + lamports_in rest"
  by (induction a xs arbitrary: rest rule: take_funded.induct) (auto split: if_splits)

lemma unat_saturating_add_u64:
  "unat a + unat b < 2 ^ 64 \<Longrightarrow> unat (saturating_add a b :: u64) = unat a + unat b"
  by (simp add: unat_saturating_add)

definition spent :: "cost_scan \<Rightarrow> nat" where
  "spent s = unat (cs_recoverable s) + lamports_in (cs_by_program s) + lamports_in (cs_funded s)"

text \<open>The lamports an instruction takes out of the wallet.\<close>

definition outflow :: "string \<Rightarrow> json \<Rightarrow> nat" where
  "outflow wallet instruction = (case system_call instruction of
       Some (kind, info) \<Rightarrow>
         if kind \<in> {''createAccount'', ''createAccountWithSeed'', ''transfer''}
            \<and> json_get_str info ''source'' = Some wallet
         then unat (info_lamports info) else 0
     | None \<Rightarrow> 0)"

definition total_outflow :: "string \<Rightarrow> json list \<Rightarrow> nat" where
  "total_outflow wallet groups = sum_list (map (outflow wallet) (inner_calls groups))"

lemma create_account_spent:
  "spent s + unat (info_lamports info) < 2 ^ 64 \<Longrightarrow> json_get_str info ''source'' = Some wallet \<Longrightarrow>
     spent (create_account wallet info s) \<le> spent s + unat (info_lamports info)"
  by (auto simp: create_account_def spent_def Let_def unat_saturating_add_u64 lamports_in_charge
      split: option.split)

lemma wallet_transfer_spent:
  "spent s + unat (info_lamports info) < 2 ^ 64 \<Longrightarrow> json_get_str info ''source'' = Some wallet \<Longrightarrow>
     spent (wallet_transfer wallet info s) \<le> spent s + unat (info_lamports info)"
  by (auto simp: wallet_transfer_def spent_def Let_def lamports_in_fund split: option.split)

lemma other_wallet:
  "json_get_str info ''source'' \<noteq> Some wallet \<Longrightarrow> create_account wallet info s = s"
  "json_get_str info ''source'' \<noteq> Some wallet \<Longrightarrow> wallet_transfer wallet info s = s"
  by (simp_all add: create_account_def wallet_transfer_def)

lemma assign_account_spent: "spent s < 2 ^ 64 \<Longrightarrow> spent (assign_account info s) \<le> spent s"
  by (auto simp: assign_account_def spent_def Let_def unat_saturating_add_u64 lamports_in_charge
      split: option.split dest: lamports_in_take_funded)

lemma cost_step_spent:
  "spent s + outflow wallet i < 2 ^ 64 \<Longrightarrow> spent (cost_step wallet i s) \<le> spent s + outflow wallet i"
proof (cases "system_call i")
  case (Some call)
  obtain kind info where call: "system_call i = Some (kind, info)" using Some by (cases call) auto
  assume "spent s + outflow wallet i < 2 ^ 64"
  then show ?thesis
    using create_account_spent [of s info wallet] wallet_transfer_spent [of s info wallet]
      assign_account_spent [of s info] other_wallet [of info wallet s]
    by (cases "json_get_str info ''source'' = Some wallet") (auto simp: cost_step_def outflow_def call split: if_splits)
qed (simp add: cost_step_def)

lemma fold_cost_step_spent:
  "spent s + sum_list (map (outflow wallet) is) < 2 ^ 64 \<Longrightarrow>
     spent (fold (cost_step wallet) is s) \<le> spent s + sum_list (map (outflow wallet) is)"
proof (induction "is" arbitrary: s)
  case (Cons i "is")
  have "spent (cost_step wallet i s) \<le> spent s + outflow wallet i"
    using Cons.prems by (intro cost_step_spent) simp
  with Cons.IH [of "cost_step wallet i s"] Cons.prems show ?case by simp
qed simp

lemma lamports_in_by_charge: "lamports_in (by_charge xs) = lamports_in xs"
proof -
  have "mset (map (\<lambda>x. unat (snd x)) (by_charge xs)) = mset (map (\<lambda>x. unat (snd x)) xs)"
    by (simp only: mset_map by_charge_def mset_sort)
  then show ?thesis by (simp only: lamports_in_def flip: sum_mset_sum_list)
qed

lemma by_charge_Nil: "by_charge xs = [] \<longleftrightarrow> xs = []"
proof -
  have "length (by_charge xs) = length xs" by (simp add: by_charge_def)
  then show ?thesis by (metis length_0_conv)
qed

lemma finalise_fold:
  assumes "unat (ca_unrecoverable a) + lamports_in xs < 2 ^ 64"
  shows "(let a' = fold (\<lambda>(program, lamports) a. a\<lparr>ca_unrecoverable := saturating_add (ca_unrecoverable a) lamports,
             ca_venue_program := (case ca_venue_program a of None \<Rightarrow> Some program | p \<Rightarrow> p)\<rparr>) xs a
      in unat (ca_unrecoverable a') = unat (ca_unrecoverable a) + lamports_in xs
         \<and> ca_recoverable_rent a' = ca_recoverable_rent a \<and> ca_unresolved a' = ca_unresolved a
         \<and> (ca_venue_program a' = None \<longleftrightarrow> ca_venue_program a = None \<and> xs = []))"
  using assms
proof (induction xs arbitrary: a)
  case (Cons x xs)
  obtain p l where x: "x = (p, l)" by force
  let ?a = "a\<lparr>ca_unrecoverable := saturating_add (ca_unrecoverable a) l,
     ca_venue_program := (case ca_venue_program a of None \<Rightarrow> Some p | q \<Rightarrow> q)\<rparr>"
  have u: "unat (ca_unrecoverable ?a) = unat (ca_unrecoverable a) + unat l"
    using Cons.prems by (simp add: x unat_saturating_add_u64)
  from Cons.IH [of ?a] u Cons.prems show ?case
    by (simp add: x Let_def split: option.splits)
qed simp

lemma finalise_facts:
  assumes "unat (ca_unrecoverable a) + lamports_in xs < 2 ^ 64"
  shows "unat (ca_unrecoverable (finalise a xs)) = unat (ca_unrecoverable a) + lamports_in xs"
    and "ca_recoverable_rent (finalise a xs) = ca_recoverable_rent a"
    and "ca_unresolved (finalise a xs) = ca_unresolved a"
    and "ca_venue_program (finalise a xs) = None \<longleftrightarrow> ca_venue_program a = None \<and> xs = []"
  using finalise_fold [of a "by_charge xs"] assms
  by (simp_all add: lamports_in_by_charge finalise_def Let_def by_charge_Nil)

text \<open>What an assessment holds together, and its shape before chain state is consulted.\<close>

definition assessed :: "swap_cost_assessment \<Rightarrow> nat" where
  "assessed a = unat (ca_unrecoverable a) + unat (ca_recoverable_rent a) + lamports_in (ca_unresolved a)"

lemma assess_facts:
  assumes "total_outflow wallet groups < 2 ^ 64"
  shows "assessed (assess_inner_instructions wallet groups) \<le> total_outflow wallet groups"
    and "ca_venue_program (assess_inner_instructions wallet groups) = None \<Longrightarrow>
       ca_unrecoverable (assess_inner_instructions wallet groups) = 0"
proof -
  define s where "s = fold (cost_step wallet) (inner_calls groups)
     \<lparr>cs_recoverable = 0, cs_by_program = [], cs_funded = []\<rparr>"
  define b where "b = \<lparr>ca_unrecoverable = 0, ca_recoverable_rent = cs_recoverable s,
     ca_venue_program = None, ca_unresolved = cs_funded s\<rparr>"
  have sp: "spent s \<le> total_outflow wallet groups"
    using assms fold_cost_step_spent [of "\<lparr>cs_recoverable = 0, cs_by_program = [], cs_funded = []\<rparr>"
        wallet "inner_calls groups"]
    by (simp add: s_def total_outflow_def spent_def)
  then have small: "unat (ca_unrecoverable b) + lamports_in (cs_by_program s) < 2 ^ 64"
    using assms by (simp add: b_def spent_def)
  have eq: "assess_inner_instructions wallet groups = finalise b (cs_by_program s)"
    by (simp add: assess_inner_instructions_def Let_def s_def b_def)
  note f = finalise_facts [OF small]
  show "assessed (assess_inner_instructions wallet groups) \<le> total_outflow wallet groups"
    using sp by (simp add: eq f assessed_def spent_def) (simp add: b_def)
  show "ca_unrecoverable (assess_inner_instructions wallet groups) = 0"
    if "ca_venue_program (assess_inner_instructions wallet groups) = None"
  proof -
    have "cs_by_program s = []" using that by (simp add: eq f)
    then show ?thesis using f(1) by (simp add: eq b_def unat_eq_0)
  qed
qed

section \<open>What chain state adds\<close>

definition third_party :: "(string \<Rightarrow> string option) \<Rightarrow> string \<Rightarrow> bool" where
  "third_party owners a \<longleftrightarrow> (case owners a of
       None \<Rightarrow> False | Some owner \<Rightarrow> \<not> owner_returns_rent owner \<and> owner \<noteq> SYSTEM_PROGRAM_ID)"

definition held_by :: "(string \<Rightarrow> bool) \<Rightarrow> (string \<times> u64) list \<Rightarrow> nat" where
  "held_by P xs = lamports_in (filter (\<lambda>x. P (fst x)) xs)"

lemma held_by_simps [simp]:
  "held_by P [] = 0"
  "held_by P ((a, l) # xs) = (if P a then unat l else 0) + held_by P xs"
  by (simp_all add: held_by_def)

lemma held_by_le: "held_by P xs \<le> lamports_in xs"
  by (induction xs) auto

lemma held_by_mono: "(\<And>a. P a \<Longrightarrow> Q a) \<Longrightarrow> held_by P xs \<le> held_by Q xs"
  by (induction xs) (auto intro: add_mono)

definition owner_is_token :: "(string \<Rightarrow> string option) \<Rightarrow> string \<Rightarrow> bool" where
  "owner_is_token owners a \<longleftrightarrow> (case owners a of None \<Rightarrow> False | Some owner \<Rightarrow> owner_returns_rent owner)"

lemma fold_attribute:
  assumes "unat r + lamports_in by + lamports_in xs < 2 ^ 64"
  shows "(let (r', by') = fold (attribute_one owners) xs (r, by)
     in unat r' = unat r + held_by (owner_is_token owners) xs
        \<and> lamports_in by' = lamports_in by + held_by (third_party owners) xs)"
  using assms
proof (induction xs arbitrary: r "by")
  case (Cons x xs)
  obtain a l where x: "x = (a, l)" by force
  consider (none) "owners a = None" | (token) w where "owners a = Some w" "owner_returns_rent w"
    | (third) w where "owners a = Some w" "\<not> owner_returns_rent w" "w \<noteq> SYSTEM_PROGRAM_ID"
    | (sys) "owners a = Some SYSTEM_PROGRAM_ID" "\<not> owner_returns_rent SYSTEM_PROGRAM_ID"
    by (cases "owners a") auto
  then show ?case
  proof cases
    case none
    then show ?thesis using Cons by (simp add: x attribute_one_def owner_is_token_def third_party_def)
  next
    case token
    then show ?thesis
      using Cons.IH [of "saturating_add r l" "by"] Cons.prems
      by (simp add: x attribute_one_def owner_is_token_def third_party_def unat_saturating_add_u64 Let_def
          split: prod.splits)
  next
    case third
    then show ?thesis
      using Cons.IH [of r "charge w l by"] Cons.prems
      by (simp add: x attribute_one_def owner_is_token_def third_party_def lamports_in_charge Let_def
          split: prod.splits)
  next
    case sys
    then show ?thesis using Cons by (simp add: x attribute_one_def owner_is_token_def third_party_def)
  qed
qed simp

lemma attribute_facts:
  assumes "assessed a < 2 ^ 64" and "ca_venue_program a = None \<Longrightarrow> ca_unrecoverable a = 0"
  shows "unat (ca_unrecoverable (attribute_unresolved a owners))
      = unat (ca_unrecoverable a) + held_by (third_party owners) (ca_unresolved a)"
    and "unat (ca_recoverable_rent (attribute_unresolved a owners))
      = unat (ca_recoverable_rent a) + held_by (owner_is_token owners) (ca_unresolved a)"
    and "ca_unresolved (attribute_unresolved a owners) = []"
proof -
  obtain r "by" where f: "fold (attribute_one owners) (ca_unresolved a) (ca_recoverable_rent a, []) = (r, by)"
    by force
  then have r: "unat r = unat (ca_recoverable_rent a) + held_by (owner_is_token owners) (ca_unresolved a)"
    and b: "lamports_in by = held_by (third_party owners) (ca_unresolved a)"
    using fold_attribute [of "ca_recoverable_rent a" "[]" "ca_unresolved a" owners] assms(1)
    by (simp_all add: assessed_def)
  have small: "unat (ca_unrecoverable a) + lamports_in by < 2 ^ 64"
    using held_by_le [of "third_party owners" "ca_unresolved a"] assms(1) by (simp add: b assessed_def)
  define base where "base = a\<lparr>ca_unresolved := [], ca_recoverable_rent := r\<rparr>"
  have *: "unat (ca_unrecoverable (attribute_unresolved a owners)) = unat (ca_unrecoverable a) + lamports_in by
     \<and> ca_recoverable_rent (attribute_unresolved a owners) = r
     \<and> ca_unresolved (attribute_unresolved a owners) = []"
  proof (cases "ca_venue_program a")
    case None
    then show ?thesis
      using finalise_facts [of base "by"] small
      by (simp add: attribute_unresolved_def f base_def)
  next
    case (Some p)
    have c: "lamports_in (charge p (ca_unrecoverable a) by) = lamports_in by + unat (ca_unrecoverable a)"
      using small by (intro lamports_in_charge) simp
    then show ?thesis
      using finalise_facts [of "base\<lparr>ca_venue_program := None, ca_unrecoverable := 0\<rparr>"
          "charge p (ca_unrecoverable a) by"] small Some
      by (simp add: attribute_unresolved_def f base_def)
  qed
  then show "unat (ca_unrecoverable (attribute_unresolved a owners))
      = unat (ca_unrecoverable a) + held_by (third_party owners) (ca_unresolved a)"
    and "unat (ca_recoverable_rent (attribute_unresolved a owners))
      = unat (ca_recoverable_rent a) + held_by (owner_is_token owners) (ca_unresolved a)"
    and "ca_unresolved (attribute_unresolved a owners) = []"
    by (simp_all add: r b)
qed

section \<open>What is charged, program by program\<close>

text \<open>Programs other than the token programs, which return the rent, and the system program.\<close>

definition charges_rent :: "string \<Rightarrow> bool" where
  "charges_rent program \<longleftrightarrow> \<not> owner_returns_rent program \<and> program \<noteq> SYSTEM_PROGRAM_ID"

text \<open>What the scan of a simulation and the owners of the accounts it left open put down as recoverable, and
  what they charge to each program.\<close>

definition cost_scan_of :: "string \<Rightarrow> json list \<Rightarrow> cost_scan" where
  "cost_scan_of wallet groups = fold (cost_step wallet) (inner_calls groups)
     \<lparr>cs_recoverable = 0, cs_by_program = [], cs_funded = []\<rparr>"

definition settled_charges :: "((string \<times> u64) list \<Rightarrow> string \<Rightarrow> string option) \<Rightarrow> string \<Rightarrow> json list \<Rightarrow> u64 \<times> (string \<times> u64) list" where
  "settled_charges owners wallet groups = (let s = cost_scan_of wallet groups
     in fold (attribute_one (owners (cs_funded s))) (cs_funded s) (cs_recoverable s, cs_by_program s))"

definition charging :: "(string \<times> u64) list \<Rightarrow> bool" where
  "charging xs \<longleftrightarrow> (\<forall>x \<in> set xs. charges_rent (fst x))"

lemma charging_charge: "charging xs \<Longrightarrow> charges_rent p \<Longrightarrow> charging (charge p l xs)"
  by (induction p l xs rule: charge.induct) (auto simp: charging_def)

lemma create_account_charging: "charging (cs_by_program s) \<Longrightarrow> charging (cs_by_program (create_account wallet info s))"
  by (auto simp: create_account_def Let_def charges_rent_def intro!: charging_charge split: option.split)

lemma assign_account_charging: "charging (cs_by_program s) \<Longrightarrow> charging (cs_by_program (assign_account info s))"
  by (auto simp: assign_account_def Let_def charges_rent_def intro!: charging_charge split: option.split)

lemma wallet_transfer_charging: "cs_by_program (wallet_transfer wallet info s) = cs_by_program s"
  by (simp add: wallet_transfer_def Let_def split: option.split)

lemma cost_step_charging: "charging (cs_by_program s) \<Longrightarrow> charging (cs_by_program (cost_step wallet i s))"
  by (simp add: cost_step_def create_account_charging assign_account_charging wallet_transfer_charging
      split: option.split prod.split)

lemma scan_charging: "charging (cs_by_program (cost_scan_of wallet groups))"
proof -
  have "charging (cs_by_program s) \<Longrightarrow> charging (cs_by_program (fold (cost_step wallet) xs s))" for xs s
    by (induction xs arbitrary: s) (simp_all add: cost_step_charging)
  then show ?thesis unfolding cost_scan_of_def by this (simp add: charging_def)
qed

lemma attribute_one_charging: "charging (snd z) \<Longrightarrow> charging (snd (attribute_one owners x z))"
  by (cases x; cases z) (auto simp: attribute_one_def charges_rent_def intro!: charging_charge split: option.split)

lemma settled_charging: "charging (snd (settled_charges owners wallet groups))"
proof -
  have "charging (snd z) \<Longrightarrow> charging (snd (fold (attribute_one owners) xs z))" for owners xs z
    by (induction xs arbitrary: z) (simp_all add: attribute_one_charging)
  then show ?thesis by (simp add: settled_charges_def Let_def scan_charging)
qed

lemma settled_sums:
  assumes "total_outflow wallet groups < 2 ^ 64"
  defines "a \<equiv> assess_inner_instructions wallet groups"
  shows "ca_unresolved a = cs_funded (cost_scan_of wallet groups)"
    and "lamports_in (snd (settled_charges owners wallet groups))
      = unat (ca_unrecoverable a) + held_by (third_party (owners (ca_unresolved a))) (ca_unresolved a)"
    and "unat (fst (settled_charges owners wallet groups))
      = unat (ca_recoverable_rent a) + held_by (owner_is_token (owners (ca_unresolved a))) (ca_unresolved a)"
    and "unat (ca_unrecoverable a) = lamports_in (cs_by_program (cost_scan_of wallet groups))"
proof -
  let ?s = "cost_scan_of wallet groups"
  have sp: "spent ?s \<le> total_outflow wallet groups"
    using assms(1) fold_cost_step_spent [of "\<lparr>cs_recoverable = 0, cs_by_program = [], cs_funded = []\<rparr>"
        wallet "inner_calls groups"]
    by (simp add: cost_scan_of_def total_outflow_def spent_def)
  let ?b = "\<lparr>ca_unrecoverable = 0, ca_recoverable_rent = cs_recoverable ?s, ca_venue_program = None, ca_unresolved = cs_funded ?s\<rparr>"
  have a: "a = finalise ?b (cs_by_program ?s)" by (simp add: a_def assess_inner_instructions_def cost_scan_of_def Let_def)
  have "unat (ca_unrecoverable ?b) + lamports_in (cs_by_program ?s) < 2 ^ 64" using sp assms(1) by (simp add: spent_def)
  note f = finalise_facts [OF this]
  have f': "unat (ca_unrecoverable a) = lamports_in (cs_by_program ?s)" "ca_recoverable_rent a = cs_recoverable ?s"
    "ca_unresolved a = cs_funded ?s" using f by (simp_all add: a)
  obtain r "by" where fold: "settled_charges owners wallet groups = (r, by)" by force
  have "unat (cs_recoverable ?s) + lamports_in (cs_by_program ?s) + lamports_in (cs_funded ?s) < 2 ^ 64"
    using sp assms(1) by (simp add: spent_def)
  from fold_attribute [OF this, of "owners (cs_funded ?s)"] fold
  have "unat r = unat (cs_recoverable ?s) + held_by (owner_is_token (owners (cs_funded ?s))) (cs_funded ?s)"
    "lamports_in by = lamports_in (cs_by_program ?s) + held_by (third_party (owners (cs_funded ?s))) (cs_funded ?s)"
    by (simp_all add: settled_charges_def Let_def)
  with f' fold show "ca_unresolved a = cs_funded ?s"
    "lamports_in (snd (settled_charges owners wallet groups))
      = unat (ca_unrecoverable a) + held_by (third_party (owners (ca_unresolved a))) (ca_unresolved a)"
    "unat (fst (settled_charges owners wallet groups))
      = unat (ca_recoverable_rent a) + held_by (owner_is_token (owners (ca_unresolved a))) (ca_unresolved a)"
    "unat (ca_unrecoverable a) = lamports_in (cs_by_program ?s)" by simp_all
qed

lemma held_by_apart: "\<forall>a. \<not> (P a \<and> Q a) \<Longrightarrow> held_by P xs + held_by Q xs \<le> lamports_in xs"
  by (induction xs) auto

section \<open>The verdict on concrete swaps\<close>

definition system_ix :: "string \<Rightarrow> (string \<times> json) list \<Rightarrow> json" where
  "system_ix kind info = JObject [(''program'', JString ''system''),
     (''parsed'', JObject [(''type'', JString kind), (''info'', JObject info)])]"

definition sample_create :: "string \<Rightarrow> string \<Rightarrow> string \<Rightarrow> json" where
  "sample_create account owner lamports = system_ix ''createAccount''
     [(''source'', JString ''wallet''), (''newAccount'', JString account), (''owner'', JString owner),
      (''lamports'', JNumber lamports)]"

definition sample_transfer :: "string \<Rightarrow> string \<Rightarrow> json" where
  "sample_transfer account lamports = system_ix ''transfer''
     [(''source'', JString ''wallet''), (''destination'', JString account), (''lamports'', JNumber lamports)]"

lemmas sample_json = system_ix_def sample_create_def sample_transfer_def json_get_str_def json_get_array_def

lemma sample_numbers:
  "parse_word ''5000000'' = Some (5000000 :: u64)" "parse_word ''3000000'' = Some (3000000 :: u64)"
  "parse_word ''4000000'' = Some (4000000 :: u64)"
  by (simp_all add: parse_word_def parse_nat_def digit_value_def)

lemma sample_system_calls:
  "system_call (sample_create account owner n) = Some (''createAccount'', JObject
     [(''source'', JString ''wallet''), (''newAccount'', JString account), (''owner'', JString owner),
      (''lamports'', JNumber n)])"
  "system_call (sample_transfer account n) = Some (''transfer'', JObject
     [(''source'', JString ''wallet''), (''destination'', JString account), (''lamports'', JNumber n)])"
  by (simp_all add: system_call_def is_system_def sample_json)

definition sample_groups :: "json list" where
  "sample_groups = [JObject [(''instructions'', JArray
     [sample_create ''a'' ''VenueA'' ''5000000'', sample_create ''b'' ''VenueB'' ''3000000'',
      sample_transfer ''c'' ''4000000''])]]"

lemma sample_inner:
  "inner_calls sample_groups = [sample_create ''a'' ''VenueA'' ''5000000'',
     sample_create ''b'' ''VenueB'' ''3000000'', sample_transfer ''c'' ''4000000'']"
  by (simp add: inner_calls_def sample_groups_def json_get_array_def)

lemma sample_outflow: "total_outflow ''wallet'' sample_groups = 12000000"
  by (simp add: total_outflow_def sample_inner outflow_def sample_system_calls json_get_str_def
      info_lamports_def sample_numbers)

lemma sample_assessment:
  "assess_inner_instructions ''wallet'' sample_groups = \<lparr>ca_unrecoverable = 8000000,
     ca_recoverable_rent = 0, ca_venue_program = Some ''VenueA'', ca_unresolved = [(''c'', 4000000)]\<rparr>"
  by (simp add: assess_inner_instructions_def sample_inner cost_step_def sample_system_calls
      create_account_def wallet_transfer_def json_get_str_def info_lamports_def sample_numbers
      owner_returns_rent_def SPL_TOKEN_PROGRAM_ID_def TOKEN_2022_PROGRAM_ID_def SYSTEM_PROGRAM_ID_def
      finalise_def by_charge_def saturating_add_def Let_def)

text \<open>C34: a refusal names real, lost lamports. When the simulated run succeeds and the guard refuses, the amount
  it names is above both dials of the configuration and is exactly what was charged, program by program, by
  the simulation and the owners read: no charge is to a token program, which returns the rent, or to the
  system program, and together with the recoverable rent the charges are no more than the inner
  instructions take out of the wallet. A node that cannot simulate never refuses a trade: the verdict is then
  that of decoding the transaction.\<close>

theorem cost_refusal_is_grounded:
  assumes "cost_preflight sj router (Inr ()) (Inr outcome) settings quote owners label = Inl e"
    and "sim_err outcome = None"
    and "total_outflow (rq_wallet_address quote) (sim_inner_instructions outcome) < 2 ^ 64"
  shows "cg_enabled settings \<and> (\<exists>x venue program recoverable charged. e = SwapCostRejected router x venue program
       \<and> cg_always_allow_below settings < x
       \<and> allowance_lamports (trade_value_lamports quote) settings < x
       \<and> settled_charges owners (rq_wallet_address quote) (sim_inner_instructions outcome) = (recoverable, charged)
       \<and> unat x = lamports_in charged
       \<and> (\<forall>(p, l) \<in> set charged. \<not> owner_returns_rent p \<and> p \<noteq> SYSTEM_PROGRAM_ID)
       \<and> unat x + unat recoverable \<le> total_outflow (rq_wallet_address quote) (sim_inner_instructions outcome))
     \<and> cost_preflight sj router decoded (Inl unavailable) settings quote owners label = decoded"
proof -
  define a where "a = assess_inner_instructions (rq_wallet_address quote) (sim_inner_instructions outcome)"
  define final where "final = (if ca_unresolved a \<noteq> []
     then attribute_unresolved a (owners (ca_unresolved a)) else a)"
  obtain r charged where settled: "settled_charges owners (rq_wallet_address quote) (sim_inner_instructions outcome) = (r, charged)"
    by force
  have on: "cg_enabled settings"
    and over: "allowance_lamports (trade_value_lamports quote) settings < ca_unrecoverable final"
    and e: "\<exists>venue program. e = SwapCostRejected router (ca_unrecoverable final) venue program"
    using assms(1,2) by (auto simp: cost_preflight_def Let_def a_def final_def split: if_splits)
  have le: "assessed a \<le> total_outflow (rq_wallet_address quote) (sim_inner_instructions outcome)"
    unfolding a_def by (rule assess_facts(1) [OF assms(3)])
  have small: "assessed a < 2 ^ 64" using le assms(3) by linarith
  note sums = settled_sums(2,3) [OF assms(3), folded a_def, where owners = owners, unfolded settled]
  have x: "unat (ca_unrecoverable final) = lamports_in charged"
    using attribute_facts(1) [OF small] assess_facts(2) [OF assms(3)] sums(1) by (simp add: final_def a_def)
  have "held_by (third_party (owners (ca_unresolved a))) (ca_unresolved a)
      + held_by (owner_is_token (owners (ca_unresolved a))) (ca_unresolved a) \<le> lamports_in (ca_unresolved a)"
    by (rule held_by_apart) (simp add: third_party_def owner_is_token_def split: option.split)
  then have bound: "unat (ca_unrecoverable final) + unat r \<le> total_outflow (rq_wallet_address quote) (sim_inner_instructions outcome)"
    using x sums le by (simp add: assessed_def)
  moreover have "cg_always_allow_below settings \<le> allowance_lamports (trade_value_lamports quote) settings"
    by (simp add: allowance_lamports_def Let_def)
  moreover have "cost_preflight sj router decoded (Inl unavailable) settings quote owners label = decoded"
    by (cases decoded) (simp_all add: cost_preflight_def)
  moreover obtain venue program where "e = SwapCostRejected router (ca_unrecoverable final) venue program"
    using e by blast
  moreover have "cg_always_allow_below settings < ca_unrecoverable final"
    using \<open>cg_always_allow_below settings \<le> _\<close> over by (rule le_less_trans)
  moreover have "\<forall>(p, l) \<in> set charged. \<not> owner_returns_rent p \<and> p \<noteq> SYSTEM_PROGRAM_ID"
    using settled_charging [of owners "rq_wallet_address quote" "sim_inner_instructions outcome"] settled
    by (auto simp: charging_def charges_rent_def)
  ultimately show ?thesis using on over x settled by auto
qed

text \<open>An owner that could not be read only makes the guard more permissive: a swap refused with some of
  the owners known is refused with more of them known, for at least as many lamports.\<close>

theorem cost_guard_permissive_when_blind:
  assumes "cost_preflight sj router (Inr ()) (Inr outcome) settings quote owners label
       = Inl (SwapCostRejected router x venue program)"
    and "\<And>unresolved. owners unresolved \<subseteq>\<^sub>m owners' unresolved"
    and "total_outflow (rq_wallet_address quote) (sim_inner_instructions outcome) < 2 ^ 64"
  shows "\<exists>x' venue' program'. cost_preflight sj router (Inr ()) (Inr outcome) settings quote owners' label
       = Inl (SwapCostRejected router x' venue' program') \<and> x \<le> x'"
proof -
  define a where "a = assess_inner_instructions (rq_wallet_address quote) (sim_inner_instructions outcome)"
  define final where "final o1 = (if ca_unresolved a \<noteq> []
     then attribute_unresolved a (o1 (ca_unresolved a)) else a)" for o1 :: "(string \<times> u64) list \<Rightarrow> string \<Rightarrow> string option"
  have ok: "sim_err outcome = None" "cg_enabled settings" "\<not> assessment_is_empty a"
    and x: "x = ca_unrecoverable (final owners)"
    and over: "allowance_lamports (trade_value_lamports quote) settings < ca_unrecoverable (final owners)"
    using assms(1) by (auto simp: cost_preflight_def Let_def a_def final_def split: if_splits option.splits)
  have small: "assessed a < 2 ^ 64"
    using assess_facts(1) [OF assms(3)] assms(3) by (simp add: a_def)
  have "third_party (owners u) b \<Longrightarrow> third_party (owners' u) b" for u b
    using assms(2) [of u] by (auto simp: third_party_def map_le_def dom_def split: option.splits)
  then have "held_by (third_party (owners (ca_unresolved a))) (ca_unresolved a)
      \<le> held_by (third_party (owners' (ca_unresolved a))) (ca_unresolved a)"
    by (rule held_by_mono)
  then have le: "ca_unrecoverable (final owners) \<le> ca_unrecoverable (final owners')"
    using attribute_facts(1) [OF small] assess_facts(2) [OF assms(3)]
    by (simp add: final_def a_def word_le_nat_alt)
  then have "allowance_lamports (trade_value_lamports quote) settings < ca_unrecoverable (final owners')"
    using over by (rule less_le_trans [rotated])
  then show ?thesis
    using ok le by (simp add: cost_preflight_def Let_def x flip: a_def) (auto simp: final_def)
qed

definition sample_cost_outcome :: simulation_outcome where
  "sample_cost_outcome = \<lparr>sim_err = None, sim_logs = [], sim_units_consumed = None,
     sim_inner_instructions = sample_groups\<rparr>"

definition sample_cost_settings :: cost_guard_settings where
  "sample_cost_settings = \<lparr>cg_enabled = True, cg_max_extra_cost_pct = Finite 0,
     cg_always_allow_below = 100000, cg_retry_excluding_venue = True\<rparr>"

definition sample_router_quote :: router_quote where
  "sample_router_quote = \<lparr>rq_input_mint = SOL_MINT, rq_output_mint = ''token'', rq_input_amount = 5000000,
     rq_output_amount = 77, rq_wallet_address = ''wallet''\<rparr>"

text \<open>The third account turns out to belong to the second program.\<close>

definition sample_owners :: "string \<Rightarrow> string option" where
  "sample_owners = [''c'' \<mapsto> ''VenueB'']"

lemma sample_attribution:
  "attribute_unresolved (assess_inner_instructions ''wallet'' sample_groups) sample_owners
     = \<lparr>ca_unrecoverable = 12000000, ca_recoverable_rent = 0, ca_venue_program = Some ''VenueA'',
        ca_unresolved = []\<rparr>"
  by (simp add: sample_assessment attribute_unresolved_def attribute_one_def sample_owners_def
      owner_returns_rent_def SPL_TOKEN_PROGRAM_ID_def TOKEN_2022_PROGRAM_ID_def SYSTEM_PROGRAM_ID_def
      finalise_def by_charge_def saturating_add_def Let_def)

lemma sample_cost_refused:
  "cost_preflight (\<lambda>_. []) ''router'' (Inr ()) (Inr sample_cost_outcome) sample_cost_settings
     sample_router_quote (\<lambda>_. Map.empty) (\<lambda>_. None)
   = Inl (SwapCostRejected ''router'' 8000000 ''VenueA'' ''VenueA'')"
proof -
  have "attribute_unresolved (assess_inner_instructions ''wallet'' sample_groups) Map.empty
      = \<lparr>ca_unrecoverable = 8000000, ca_recoverable_rent = 0, ca_venue_program = Some ''VenueA'',
         ca_unresolved = []\<rparr>"
    by (simp add: sample_assessment attribute_unresolved_def attribute_one_def finalise_def by_charge_def
        saturating_add_def Let_def)
  then show ?thesis
    by (simp add: cost_preflight_def sample_cost_outcome_def sample_cost_settings_def
        sample_router_quote_def sample_assessment assessment_is_empty_def allowance_lamports_def
        venue_display_name_def Let_def)
qed

theorem cost_refusal_is_grounded_witness:
  "\<exists>x venue program recoverable charged. cost_preflight (\<lambda>_. []) ''router'' (Inr ()) (Inr sample_cost_outcome)
       sample_cost_settings sample_router_quote (\<lambda>_. Map.empty) (\<lambda>_. None) = Inl (SwapCostRejected ''router'' x venue program)
     \<and> cg_always_allow_below sample_cost_settings < x \<and> x = 8000000
     \<and> settled_charges (\<lambda>_. Map.empty) ''wallet'' sample_groups = (recoverable, charged)
     \<and> unat x = lamports_in charged \<and> (\<forall>(p, l) \<in> set charged. \<not> owner_returns_rent p \<and> p \<noteq> SYSTEM_PROGRAM_ID)
     \<and> unat x + unat recoverable \<le> total_outflow ''wallet'' sample_groups"
  using cost_refusal_is_grounded [OF sample_cost_refused] sample_cost_refused
  by (simp add: sample_cost_outcome_def sample_router_quote_def sample_outflow)

theorem cost_guard_permissive_when_blind_witness:
  "\<exists>x venue program. cost_preflight (\<lambda>_. []) ''router'' (Inr ()) (Inr sample_cost_outcome)
       sample_cost_settings sample_router_quote (\<lambda>_. sample_owners) (\<lambda>_. None)
     = Inl (SwapCostRejected ''router'' x venue program) \<and> 8000000 \<le> x"
  by (rule cost_guard_permissive_when_blind [OF sample_cost_refused])
    (simp_all add: sample_cost_outcome_def sample_router_quote_def sample_outflow)

text \<open>The venue named by a refusal need not be the one that takes the most: merging folds every earlier
  charge into the program named first.\<close>

theorem named_venue_is_not_the_largest:
  "ca_venue_program (attribute_unresolved (assess_inner_instructions ''wallet'' sample_groups) sample_owners)
     = Some ''VenueA''
   \<and> held_by (\<lambda>a. sample_owners a = Some ''VenueB'')
       (ca_unresolved (assess_inner_instructions ''wallet'' sample_groups)) = 4000000
   \<and> sum_list (map (outflow ''wallet'') [sample_create ''b'' ''VenueB'' ''3000000'']) = 3000000
   \<and> sum_list (map (outflow ''wallet'') [sample_create ''a'' ''VenueA'' ''5000000'']) < 3000000 + 4000000"
  by (simp add: sample_attribution) (simp add: sample_assessment sample_owners_def outflow_def
      sample_system_calls json_get_str_def info_lamports_def sample_numbers)

end
