(* ===== verification/Circuit_Breaker.thy ===== *)
theory Circuit_Breaker
  imports Prelude "HOL-Library.AList"
begin

text \<open>
  \<^verbatim>\<open>rpc/circuit_breaker\<close>: the breaker each RPC provider sits behind, its manager, and what the RPC manager
  records of a request. An \<^verbatim>\<open>Instant\<close> and a \<^verbatim>\<open>Duration\<close> are nanoseconds; a section the code runs under
  one lock is one step and reads one clock. \<^verbatim>\<open>can_execute\<close> takes no lock across its three parts, so it is
  also given as the steps another task can come between.
\<close>

section \<open>State\<close>

datatype circuit_state = Closed | Open | HalfOpen

record breaker_config =
  bc_failure_threshold :: u32
  bc_success_threshold :: u32
  bc_open_duration :: nat
  bc_half_open_timeout :: nat
  bc_half_open_max_requests :: u32
  bc_ignore_rate_limits :: bool
  bc_min_state_duration :: nat

definition millis :: "nat \<Rightarrow> nat" where "millis n = n * 1000000"
definition secs :: "nat \<Rightarrow> nat" where "secs n = n * 1000000000"

definition default_breaker_config :: breaker_config where
  "default_breaker_config = \<lparr>bc_failure_threshold = 5, bc_success_threshold = 3, bc_open_duration = secs 30,
     bc_half_open_timeout = secs 10, bc_half_open_max_requests = 2, bc_ignore_rate_limits = True,
     bc_min_state_duration = secs 5\<rparr>"

definition with_threshold :: "u32 \<Rightarrow> breaker_config" where
  "with_threshold failure_threshold = default_breaker_config\<lparr>bc_failure_threshold := failure_threshold\<rparr>"

definition aggressive :: breaker_config where
  "aggressive = \<lparr>bc_failure_threshold = 3, bc_success_threshold = 2, bc_open_duration = secs 15,
     bc_half_open_timeout = secs 5, bc_half_open_max_requests = 1, bc_ignore_rate_limits = True,
     bc_min_state_duration = secs 5\<rparr>"

definition conservative :: breaker_config where
  "conservative = \<lparr>bc_failure_threshold = 10, bc_success_threshold = 5, bc_open_duration = secs 60,
     bc_half_open_timeout = secs 10, bc_half_open_max_requests = 3, bc_ignore_rate_limits = True,
     bc_min_state_duration = secs 10\<rparr>"

record breaker =
  cb_provider_id :: string
  cb_state :: circuit_state
  cb_config :: breaker_config
  cb_failures :: u32
  cb_successes :: u32
  cb_opened_at :: "nat option"
  cb_last_state_change :: nat
  cb_total_opens :: u64
  cb_last_error :: "string option"
  cb_half_open_requests :: u32

definition breaker_new :: "string \<Rightarrow> breaker_config \<Rightarrow> nat \<Rightarrow> breaker" where
  "breaker_new provider_id config now = \<lparr>cb_provider_id = provider_id, cb_state = Closed, cb_config = config,
     cb_failures = 0, cb_successes = 0, cb_opened_at = None, cb_last_state_change = now, cb_total_opens = 0,
     cb_last_error = None, cb_half_open_requests = 0\<rparr>"

definition with_defaults :: "string \<Rightarrow> nat \<Rightarrow> breaker" where
  "with_defaults provider_id now = breaker_new provider_id default_breaker_config now"

section \<open>Operations\<close>

definition transition_to_half_open :: "nat \<Rightarrow> breaker \<Rightarrow> breaker" where
  "transition_to_half_open now cb =
     (if cb_state cb = Open
      then cb\<lparr>cb_state := HalfOpen, cb_successes := 0, cb_half_open_requests := 0, cb_last_state_change := now\<rparr>
      else cb)"

text \<open>A refusal carries how long to wait.\<close>

definition can_execute :: "nat \<Rightarrow> breaker \<Rightarrow> (nat + unit) \<times> breaker" where
  "can_execute now cb = (case cb_state cb of
       Closed \<Rightarrow> (Inr (), cb)
     | HalfOpen \<Rightarrow>
         let current = cb_half_open_requests cb; cb = cb\<lparr>cb_half_open_requests := current + 1\<rparr>
         in if current < bc_half_open_max_requests (cb_config cb) then (Inr (), cb) else (Inl (millis 100), cb)
     | Open \<Rightarrow> (case cb_opened_at cb of
           None \<Rightarrow> (Inr (), cb)
         | Some time \<Rightarrow>
             let elapsed = now - time
             in if bc_open_duration (cb_config cb) \<le> elapsed then (Inr (), transition_to_half_open now cb)
                else (Inl (bc_open_duration (cb_config cb) - elapsed), cb)))"

definition record_success :: "nat \<Rightarrow> breaker \<Rightarrow> breaker" where
  "record_success now cb = (case cb_state cb of
       Closed \<Rightarrow> cb\<lparr>cb_failures := 0\<rparr>
     | HalfOpen \<Rightarrow>
         let successes = cb_successes cb + 1; cb = cb\<lparr>cb_successes := successes\<rparr>
         in if bc_success_threshold (cb_config cb) \<le> successes
            then cb\<lparr>cb_state := Closed, cb_failures := 0, cb_successes := 0, cb_half_open_requests := 0,
                    cb_opened_at := None, cb_last_state_change := now, cb_last_error := None\<rparr>
            else cb
     | Open \<Rightarrow> cb)"

definition record_failure :: "nat \<Rightarrow> string \<Rightarrow> bool \<Rightarrow> breaker \<Rightarrow> breaker" where
  "record_failure now error is_rate_limit cb =
     (if is_rate_limit \<and> bc_ignore_rate_limits (cb_config cb) then cb
      else let cb = cb\<lparr>cb_last_error := Some error\<rparr> in
        case cb_state cb of
          Closed \<Rightarrow>
            let failures = cb_failures cb + 1; cb = cb\<lparr>cb_failures := failures\<rparr>
            in if bc_failure_threshold (cb_config cb) \<le> failures
                  \<and> bc_min_state_duration (cb_config cb) \<le> now - cb_last_state_change cb
               then cb\<lparr>cb_state := Open, cb_opened_at := Some now, cb_last_state_change := now,
                       cb_total_opens := cb_total_opens cb + 1\<rparr>
               else cb
        | HalfOpen \<Rightarrow>
            cb\<lparr>cb_state := Open, cb_opened_at := Some now, cb_last_state_change := now, cb_successes := 0,
               cb_half_open_requests := 0, cb_total_opens := cb_total_opens cb + 1\<rparr>
        | Open \<Rightarrow> cb\<lparr>cb_opened_at := Some now\<rparr>)"

definition force_open :: "nat \<Rightarrow> string \<Rightarrow> breaker \<Rightarrow> breaker" where
  "force_open now reason cb = cb\<lparr>cb_state := Open, cb_opened_at := Some now, cb_last_state_change := now,
     cb_last_error := Some reason, cb_total_opens := cb_total_opens cb + 1\<rparr>"

definition force_close :: "nat \<Rightarrow> breaker \<Rightarrow> breaker" where
  "force_close now cb = cb\<lparr>cb_state := Closed, cb_failures := 0, cb_successes := 0, cb_half_open_requests := 0,
     cb_opened_at := None, cb_last_state_change := now, cb_last_error := None\<rparr>"

definition time_until_transition :: "nat \<Rightarrow> breaker \<Rightarrow> nat option" where
  "time_until_transition now cb = (case cb_state cb of
       Open \<Rightarrow> map_option (\<lambda>t. let elapsed = now - t in
           if elapsed < bc_open_duration (cb_config cb) then bc_open_duration (cb_config cb) - elapsed else 0)
         (cb_opened_at cb)
     | _ \<Rightarrow> None)"

record breaker_status =
  bs_provider_id :: string
  bs_state :: circuit_state
  bs_failure_count :: u32
  bs_success_count :: u32
  bs_total_opens :: u64
  bs_last_error :: "string option"
  bs_time_until_transition :: "nat option"

definition status :: "nat \<Rightarrow> breaker \<Rightarrow> breaker_status" where
  "status now cb = \<lparr>bs_provider_id = cb_provider_id cb, bs_state = cb_state cb, bs_failure_count = cb_failures cb,
     bs_success_count = cb_successes cb, bs_total_opens = cb_total_opens cb, bs_last_error = cb_last_error cb,
     bs_time_until_transition = time_until_transition now cb\<rparr>"

text \<open>What the RPC manager records of a request: a rate-limited one is not recorded at all.\<close>

datatype call_result = CallOk | CallError string bool

fun record_call :: "nat \<Rightarrow> call_result \<Rightarrow> breaker \<Rightarrow> breaker" where
  "record_call now CallOk cb = record_success now cb"
| "record_call now (CallError e is_rate_limited) cb =
     (if is_rate_limited then cb else record_failure now e is_rate_limited cb)"

section \<open>The manager\<close>

text \<open>
  The map from providers to breakers is shared: its values are addresses of a store, so that a breaker
  replaced or removed while a request still holds it goes on existing. Entries are in the map's own order.
\<close>

record breaker_manager =
  cm_breakers :: "(string \<times> nat) list"
  cm_heap :: "breaker list"
  cm_default_config :: breaker_config

definition manager_with_config :: "breaker_config \<Rightarrow> breaker_manager" where
  "manager_with_config config = \<lparr>cm_breakers = [], cm_heap = [], cm_default_config = config\<rparr>"

definition manager_new :: breaker_manager where
  "manager_new = manager_with_config default_breaker_config"

definition get_breaker_with_config :: "string \<Rightarrow> breaker_config \<Rightarrow> nat \<Rightarrow> breaker_manager \<Rightarrow> nat \<times> breaker_manager" where
  "get_breaker_with_config provider_id config now m =
     (let address = length (cm_heap m) in
      (address, m\<lparr>cm_heap := cm_heap m @ [breaker_new provider_id config now],
                  cm_breakers := AList.update provider_id address (cm_breakers m)\<rparr>))"

definition get_breaker :: "string \<Rightarrow> nat \<Rightarrow> breaker_manager \<Rightarrow> nat \<times> breaker_manager" where
  "get_breaker provider_id now m = (case map_of (cm_breakers m) provider_id of
       Some address \<Rightarrow> (address, m)
     | None \<Rightarrow> get_breaker_with_config provider_id (cm_default_config m) now m)"

definition remove_breaker :: "string \<Rightarrow> breaker_manager \<Rightarrow> breaker_manager" where
  "remove_breaker provider_id m = m\<lparr>cm_breakers := AList.delete provider_id (cm_breakers m)\<rparr>"

definition check_at :: "nat \<Rightarrow> nat \<Rightarrow> breaker_manager \<Rightarrow> (nat + unit) \<times> breaker_manager" where
  "check_at now address m =
     (let (r, cb) = can_execute now (cm_heap m ! address) in (r, m\<lparr>cm_heap := (cm_heap m)[address := cb]\<rparr>))"

definition is_available :: "string \<Rightarrow> nat \<Rightarrow> breaker_manager \<Rightarrow> bool \<times> breaker_manager" where
  "is_available provider_id now m = (case map_of (cm_breakers m) provider_id of
       Some address \<Rightarrow> (let (r, m) = check_at now address m in (is_ok r, m))
     | None \<Rightarrow> (True, m))"

fun check_all :: "nat \<Rightarrow> (string \<times> nat) list \<Rightarrow> breaker_manager \<Rightarrow> (string \<times> (nat + unit)) list \<times> breaker_manager" where
  "check_all now [] m = ([], m)"
| "check_all now ((provider_id, address) # rest) m =
     (let (r, m) = check_at now address m; (rs, m) = check_all now rest m in ((provider_id, r) # rs, m))"

definition get_healthy_providers :: "nat \<Rightarrow> breaker_manager \<Rightarrow> string list \<times> breaker_manager" where
  "get_healthy_providers now m =
     (let (rs, m) = check_all now (cm_breakers m) m in (map fst (filter (\<lambda>(_, r). is_ok r) rs), m))"

definition get_unhealthy_providers :: "nat \<Rightarrow> breaker_manager \<Rightarrow> (string \<times> nat) list \<times> breaker_manager" where
  "get_unhealthy_providers now m =
     (let (rs, m) = check_all now (cm_breakers m) m
      in (List.map_filter (\<lambda>(id, r). case r of Inl wait \<Rightarrow> Some (id, wait) | Inr _ \<Rightarrow> None) rs, m))"

definition reset_all :: "nat \<Rightarrow> breaker_manager \<Rightarrow> breaker_manager" where
  "reset_all now m = fold (\<lambda>(_, address) m. m\<lparr>cm_heap := (cm_heap m)[address := force_close now (cm_heap m ! address)]\<rparr>)
     (cm_breakers m) m"

definition get_all_status :: "nat \<Rightarrow> breaker_manager \<Rightarrow> breaker_status list" where
  "get_all_status now m = map (\<lambda>(_, address). status now (cm_heap m ! address)) (cm_breakers m)"

definition get_status :: "string \<Rightarrow> nat \<Rightarrow> breaker_manager \<Rightarrow> breaker_status option" where
  "get_status provider_id now m =
     map_option (\<lambda>address. status now (cm_heap m ! address)) (map_of (cm_breakers m) provider_id)"

definition open_circuit_count :: "breaker_manager \<Rightarrow> nat" where
  "open_circuit_count m = length (filter (\<lambda>(_, address). cb_state (cm_heap m ! address) = Open) (cm_breakers m))"

definition breaker_count :: "breaker_manager \<Rightarrow> nat" where
  "breaker_count m = length (cm_breakers m)"

section \<open>Tasks interleaved\<close>

text \<open>
  A task inside \<^verbatim>\<open>can_execute\<close> has read the state, or has found the cooldown over and is about to take
  the write lock.
\<close>

datatype check = Observed circuit_state | Transitioning

fun check_step :: "nat \<Rightarrow> check \<Rightarrow> breaker \<Rightarrow> (check + (nat + unit)) \<times> breaker" where
  "check_step now (Observed Closed) cb = (Inr (Inr ()), cb)"
| "check_step now (Observed HalfOpen) cb =
     (let current = cb_half_open_requests cb
      in (Inr (if current < bc_half_open_max_requests (cb_config cb) then Inr () else Inl (millis 100)),
          cb\<lparr>cb_half_open_requests := current + 1\<rparr>))"
| "check_step now (Observed Open) cb = (case cb_opened_at cb of
       None \<Rightarrow> (Inr (Inr ()), cb)
     | Some time \<Rightarrow>
         if bc_open_duration (cb_config cb) \<le> now - time then (Inl Transitioning, cb)
         else (Inr (Inl (bc_open_duration (cb_config cb) - (now - time))), cb))"
| "check_step now Transitioning cb = (Inr (Inr ()), transition_to_half_open now cb)"

text \<open>
  The breaker, the tasks inside \<^verbatim>\<open>can_execute\<close>, and how many requests were let through and have not
  ended. Of the events, \<open>Ask\<close> reads the state, \<open>Proceed i\<close> takes the next step of the \<open>i\<close>th task,
  \<open>Finish\<close> records a result and \<open>Abandon\<close> is a request whose task was dropped.
\<close>

record system =
  sy_breaker :: breaker
  sy_checks :: "check list"
  sy_running :: nat

datatype event = Ask | Proceed nat | Finish call_result | Abandon

definition drop_nth :: "nat \<Rightarrow> 'a list \<Rightarrow> 'a list" where
  "drop_nth i xs = take i xs @ drop (Suc i) xs"

inductive breaker_step :: "nat \<Rightarrow> event \<Rightarrow> system \<Rightarrow> system \<Rightarrow> bool" where
  ask: "breaker_step now Ask s (s\<lparr>sy_checks := sy_checks s @ [Observed (cb_state (sy_breaker s))]\<rparr>)"
| proceed: "i < length (sy_checks s) \<Longrightarrow> check_step now (sy_checks s ! i) (sy_breaker s) = (Inl c, cb) \<Longrightarrow>
    breaker_step now (Proceed i) s (s\<lparr>sy_breaker := cb, sy_checks := (sy_checks s)[i := c]\<rparr>)"
| admit: "i < length (sy_checks s) \<Longrightarrow> check_step now (sy_checks s ! i) (sy_breaker s) = (Inr (Inr ()), cb) \<Longrightarrow>
    breaker_step now (Proceed i) s
      (s\<lparr>sy_breaker := cb, sy_checks := drop_nth i (sy_checks s), sy_running := Suc (sy_running s)\<rparr>)"
| refuse: "i < length (sy_checks s) \<Longrightarrow> check_step now (sy_checks s ! i) (sy_breaker s) = (Inr (Inl wait), cb) \<Longrightarrow>
    breaker_step now (Proceed i) s (s\<lparr>sy_breaker := cb, sy_checks := drop_nth i (sy_checks s)\<rparr>)"
| finish: "0 < sy_running s \<Longrightarrow>
    breaker_step now (Finish r) s
      (s\<lparr>sy_breaker := record_call now r (sy_breaker s), sy_running := sy_running s - 1\<rparr>)"
| abandon: "0 < sy_running s \<Longrightarrow> breaker_step now Abandon s (s\<lparr>sy_running := sy_running s - 1\<rparr>)"

inductive_cases breaker_stepE: "breaker_step now e s s'"
inductive_simps breaker_step_simps:
  "breaker_step now Ask s s'" "breaker_step now (Proceed i) s s'"
  "breaker_step now (Finish r) s s'" "breaker_step now Abandon s s'"

text \<open>A run, its events at instants that never go back.\<close>

inductive breaker_run :: "nat \<Rightarrow> system \<Rightarrow> (nat \<times> event) list \<Rightarrow> system \<Rightarrow> bool" where
  stop: "breaker_run now s [] s"
| more: "now \<le> now' \<Longrightarrow> breaker_step now' e s s' \<Longrightarrow> breaker_run now' s' es s'' \<Longrightarrow>
    breaker_run now s ((now', e) # es) s''"

inductive_simps breaker_run_simps: "breaker_run now s [] s'" "breaker_run now s (x # es) s''"

definition fresh_system :: "breaker_config \<Rightarrow> nat \<Rightarrow> system" where
  "fresh_system config now = \<lparr>sy_breaker = breaker_new ''provider'' config now, sy_checks = [], sy_running = 0\<rparr>"

section \<open>The invariant\<close>

text \<open>
  An open or half-open circuit knows when it opened, and only a half-open one has counted successes,
  never as many as would have closed it.
\<close>

definition breaker_wf :: "breaker \<Rightarrow> bool" where
  "breaker_wf cb \<longleftrightarrow>
     (cb_opened_at cb = None \<longleftrightarrow> cb_state cb = Closed)
     \<and> (cb_successes cb \<noteq> 0 \<longrightarrow> cb_state cb = HalfOpen \<and> cb_successes cb < bc_success_threshold (cb_config cb))"

named_theorems wf_intros \<open>every operation keeps the breaker well-formed\<close>

lemma breaker_new_wf [wf_intros]: "breaker_wf (breaker_new provider_id config now)"
  by (simp add: breaker_wf_def breaker_new_def)

lemma transition_wf [wf_intros]: "breaker_wf cb \<Longrightarrow> breaker_wf (transition_to_half_open now cb)"
  by (auto simp: breaker_wf_def transition_to_half_open_def)

lemma record_success_wf [wf_intros]: "breaker_wf cb \<Longrightarrow> breaker_wf (record_success now cb)"
  by (auto simp: breaker_wf_def record_success_def Let_def split: circuit_state.splits)

lemma record_failure_wf [wf_intros]: "breaker_wf cb \<Longrightarrow> breaker_wf (record_failure now e limited cb)"
  by (auto simp: breaker_wf_def record_failure_def Let_def split: circuit_state.splits)

lemma record_call_wf [wf_intros]: "breaker_wf cb \<Longrightarrow> breaker_wf (record_call now r cb)"
  by (cases r) (auto intro: wf_intros)

lemma can_execute_wf [wf_intros]: "breaker_wf cb \<Longrightarrow> breaker_wf (snd (can_execute now cb))"
  by (auto simp: can_execute_def Let_def intro!: wf_intros split: circuit_state.splits option.splits)
    (auto simp: breaker_wf_def)

lemma check_step_wf: "breaker_wf cb \<Longrightarrow> check_step now c cb = (r, cb') \<Longrightarrow> breaker_wf cb'"
  by (cases "(now, c, cb)" rule: check_step.cases)
    (auto simp: Let_def intro: wf_intros split: option.splits if_splits, auto simp: breaker_wf_def)

lemma breaker_step_wf: "breaker_step now e s s' \<Longrightarrow> breaker_wf (sy_breaker s) \<Longrightarrow> breaker_wf (sy_breaker s')"
  by (erule breaker_stepE) (auto intro: wf_intros dest: check_step_wf)

lemma breaker_run_wf: "breaker_run now s es s' \<Longrightarrow> breaker_wf (sy_breaker s) \<Longrightarrow> breaker_wf (sy_breaker s')"
  by (induction rule: breaker_run.induct) (auto dest: breaker_step_wf)

lemma fresh_wf: "breaker_wf (sy_breaker (fresh_system config now))"
  by (simp add: fresh_system_def breaker_new_wf)

text \<open>Nothing coming between, the steps of a check are \<^verbatim>\<open>can_execute\<close>.\<close>

fun check_alone :: "nat \<Rightarrow> check \<Rightarrow> breaker \<Rightarrow> (nat + unit) \<times> breaker" where
  "check_alone now c cb = (case check_step now c cb of
       (Inr r, cb') \<Rightarrow> (r, cb')
     | (Inl c', cb') \<Rightarrow> (case check_step now c' cb' of (Inr r, cb'') \<Rightarrow> (r, cb'') | (Inl _, cb'') \<Rightarrow> (Inr (), cb'')))"

lemma check_alone_eq: "check_alone now (Observed (cb_state cb)) cb = can_execute now cb"
  by (cases "cb_state cb") (auto simp: can_execute_def Let_def split: option.splits)

section \<open>Recovery\<close>

text \<open>One probe after another: a request asked for at one instant, if let through recorded as a success at another.\<close>

definition probe :: "nat \<times> nat \<Rightarrow> breaker \<Rightarrow> breaker" where
  "probe = (\<lambda>(asked, ended) cb. case can_execute asked cb of
       (Inr _, cb') \<Rightarrow> record_success ended cb'
     | (Inl _, cb') \<Rightarrow> cb')"

lemma probe_Closed: "cb_state cb = Closed \<Longrightarrow> cb_state (probe t cb) = Closed"
  by (cases t) (simp add: probe_def can_execute_def record_success_def)

lemma probes_Closed: "cb_state cb = Closed \<Longrightarrow> cb_state (fold probe ts cb) = Closed"
  by (induction ts arbitrary: cb) (auto simp: probe_Closed)

lemma unat_succ_u32: "unat (w :: u32) + 1 < 2 ^ 32 \<Longrightarrow> unat (w + 1) = unat w + 1"
  by (simp add: unat_add_exact)

lemma probe_HalfOpen:
  assumes "cb_state cb = HalfOpen" and "unat (cb_half_open_requests cb) + 1 < 2 ^ 32"
    and "cb_successes cb < bc_success_threshold (cb_config cb)"
  shows "if bc_half_open_max_requests (cb_config cb) \<le> cb_half_open_requests cb
     then probe t cb = cb\<lparr>cb_half_open_requests := cb_half_open_requests cb + 1\<rparr>
     else if bc_success_threshold (cb_config cb) = cb_successes cb + 1 then cb_state (probe t cb) = Closed
     else probe t cb = cb\<lparr>cb_half_open_requests := cb_half_open_requests cb + 1, cb_successes := cb_successes cb + 1\<rparr>"
proof -
  have "bc_success_threshold (cb_config cb) \<le> cb_successes cb + 1
      \<longleftrightarrow> bc_success_threshold (cb_config cb) = cb_successes cb + 1"
    using assms(3) by (metis inc_le order.antisym order.refl)
  then show ?thesis
    using assms(1) by (cases t) (auto simp: probe_def can_execute_def record_success_def Let_def not_le)
qed

lemma probes_HalfOpen:
  assumes "cb_state cb = HalfOpen" and "unat (cb_half_open_requests cb) + length ts < 2 ^ 32"
    and "cb_successes cb < bc_success_threshold (cb_config cb)"
  shows "cb_state (fold probe ts cb) = Closed \<longleftrightarrow>
     unat (bc_success_threshold (cb_config cb)) - unat (cb_successes cb)
       \<le> min (unat (bc_half_open_max_requests (cb_config cb)) - unat (cb_half_open_requests cb)) (length ts)"
  using assms
proof (induction ts arbitrary: cb)
  case Nil
  then show ?case by (simp add: word_less_nat_alt)
next
  case (Cons t ts)
  let ?max = "bc_half_open_max_requests (cb_config cb)" and ?need = "bc_success_threshold (cb_config cb)"
    and ?r = "cb_half_open_requests cb" and ?s = "cb_successes cb"
  have r: "unat (?r + 1) = unat ?r + 1" using Cons.prems(2) by (simp add: unat_succ_u32)
  have lt: "unat ?s < unat ?need" using Cons.prems(3) by (simp add: word_less_nat_alt)
  then have s: "unat (?s + 1) = unat ?s + 1" using unat_u32_lt [of ?need] by (simp add: unat_succ_u32)
  note step = probe_HalfOpen [OF Cons.prems(1) _ Cons.prems(3), of t]
  consider "?max \<le> ?r" | "?r < ?max" "?need = ?s + 1" | "?r < ?max" "?need \<noteq> ?s + 1" by fastforce
  then show ?case
  proof cases
    case 1
    with step Cons.prems(2) have "probe t cb = cb\<lparr>cb_half_open_requests := ?r + 1\<rparr>" by simp
    with Cons.IH [of "probe t cb"] Cons.prems r lt 1 show ?thesis by (auto simp: word_le_nat_alt)
  next
    case 2
    with step Cons.prems(2) have "cb_state (probe t cb) = Closed" by (simp add: not_le)
    with 2 s show ?thesis by (auto simp: probes_Closed word_less_nat_alt)
  next
    case 3
    then have "unat ?need \<noteq> unat ?s + 1" using s by (metis word_unat_eq_iff)
    moreover from this lt s have "?s + 1 < ?need" by (simp add: word_less_nat_alt)
    moreover from 3 step Cons.prems(2) have "probe t cb = cb\<lparr>cb_half_open_requests := ?r + 1, cb_successes := ?s + 1\<rparr>"
      by (simp add: not_le)
    ultimately show ?thesis
      using Cons.IH [of "probe t cb"] Cons.prems r s lt 3 by (auto simp: word_less_nat_alt)
  qed
qed

section \<open>Time and configuration along a run\<close>

lemma record_call_config: "cb_config (record_call now r cb) = cb_config cb"
  by (cases r) (auto simp: record_success_def record_failure_def Let_def split: circuit_state.splits)

lemma check_step_keeps:
  "check_step now c cb = (r, cb') \<Longrightarrow> cb_config cb' = cb_config cb \<and> cb_opened_at cb' = cb_opened_at cb"
  by (cases "(now, c, cb)" rule: check_step.cases)
    (auto simp: transition_to_half_open_def Let_def split: option.splits if_splits)

definition opened_by :: "nat \<Rightarrow> breaker \<Rightarrow> bool" where
  "opened_by now cb \<longleftrightarrow> (\<forall>t. cb_opened_at cb = Some t \<longrightarrow> t \<le> now)"

lemma breaker_step_opened:
  "breaker_step t e s s' \<Longrightarrow> t \<le> now \<Longrightarrow> opened_by now (sy_breaker s) \<Longrightarrow>
     opened_by now (sy_breaker s') \<and> cb_config (sy_breaker s') = cb_config (sy_breaker s)"
proof (erule breaker_stepE, goal_cases)
  case (5 r)
  have "opened_by now (record_call t r (sy_breaker s))"
    using 5(1,2) unfolding opened_by_def
    by (cases r) (auto simp: record_success_def record_failure_def Let_def split: circuit_state.splits if_splits)
  with 5 show ?case by (simp add: record_call_config)
qed (auto simp: opened_by_def dest: check_step_keeps)

lemma breaker_run_opened:
  assumes "breaker_run t s es s'" and "\<forall>(t, e) \<in> set es. t \<le> now" and "opened_by now (sy_breaker s)"
  shows "opened_by now (sy_breaker s') \<and> cb_config (sy_breaker s') = cb_config (sy_breaker s)"
  using assms by (induction rule: breaker_run.induct) (auto dest: breaker_step_opened)

section \<open>Starvation\<close>

text \<open>
  Half-open, every probe slot spent, nothing running, and every task inside a check bound to be refused.
\<close>

definition starved :: "system \<Rightarrow> bool" where
  "starved s \<longleftrightarrow> cb_state (sy_breaker s) = HalfOpen
     \<and> bc_half_open_max_requests (cb_config (sy_breaker s)) \<le> cb_half_open_requests (sy_breaker s)
     \<and> sy_running s = 0 \<and> set (sy_checks s) \<subseteq> {Observed HalfOpen}"

lemma set_drop_nth: "set (drop_nth i xs) \<subseteq> set xs"
  by (auto simp: drop_nth_def dest: in_set_takeD in_set_dropD)

lemma starved_step:
  assumes "breaker_step now e s s'" and "starved s" and "unat (cb_half_open_requests (sy_breaker s)) + 1 < 2 ^ 32"
  shows "starved s' \<and> unat (cb_half_open_requests (sy_breaker s'))
     \<le> unat (cb_half_open_requests (sy_breaker s)) + 1"
proof -
  have observed: "sy_checks s ! i = Observed HalfOpen" if "i < length (sy_checks s)" for i
    using assms(2) that nth_mem unfolding starved_def by blast
  have r: "unat (cb_half_open_requests (sy_breaker s) + 1) = unat (cb_half_open_requests (sy_breaker s)) + 1"
    using assms(3) by (rule unat_succ_u32)
  with assms(2) have le: "bc_half_open_max_requests (cb_config (sy_breaker s)) \<le> cb_half_open_requests (sy_breaker s) + 1"
    by (simp add: starved_def word_le_nat_alt)
  have facts: "cb_state (sy_breaker s) = HalfOpen"
    "bc_half_open_max_requests (cb_config (sy_breaker s)) \<le> cb_half_open_requests (sy_breaker s)"
    "sy_running s = 0" "set (sy_checks s) \<subseteq> {Observed HalfOpen}"
    using assms(2) by (simp_all add: starved_def)
  then have full: "\<not> cb_half_open_requests (sy_breaker s) < bc_half_open_max_requests (cb_config (sy_breaker s))"
    by (simp add: not_less)
  have dropped: "set (drop_nth i (sy_checks s)) \<subseteq> {Observed HalfOpen}" for i
    by (rule order_trans [OF set_drop_nth facts(4)])
  have refused: "check_step now (sy_checks s ! i) (sy_breaker s) = (Inr (Inl (millis 100)),
      (sy_breaker s)\<lparr>cb_half_open_requests := cb_half_open_requests (sy_breaker s) + 1\<rparr>)"
    if "i < length (sy_checks s)" for i
    using observed [OF that] full by (simp add: Let_def)
  from assms(1) show ?thesis
  proof cases
    case ask
    then show ?thesis using facts by (simp add: starved_def)
  next
    case (refuse i wait cb)
    then have s': "s' = s\<lparr>sy_breaker := (sy_breaker s)\<lparr>cb_half_open_requests := cb_half_open_requests (sy_breaker s) + 1\<rparr>,
        sy_checks := drop_nth i (sy_checks s)\<rparr>" using refused by simp
    show ?thesis unfolding s' starved_def using facts le r dropped [of i] by simp
  qed (use facts refused in simp_all)
qed

lemma starved_run:
  assumes "breaker_run now s es s'" and "starved s"
    and "unat (cb_half_open_requests (sy_breaker s)) + length es < 2 ^ 32"
  shows "starved s'"
  using assms
proof (induction rule: breaker_run.induct)
  case (more now now' e s s' es s'')
  have "starved s' \<and> unat (cb_half_open_requests (sy_breaker s'))
     \<le> unat (cb_half_open_requests (sy_breaker s)) + 1"
    using more.prems by (intro starved_step [OF more.hyps(2)]) simp_all
  with more show ?case by simp
qed simp

section \<open>The manager's map\<close>

text \<open>Every provider has one breaker of its own, and every breaker ever made stays well-formed.\<close>

definition manager_wf :: "breaker_manager \<Rightarrow> bool" where
  "manager_wf m \<longleftrightarrow> distinct (map fst (cm_breakers m)) \<and> distinct (map snd (cm_breakers m))
     \<and> snd ` set (cm_breakers m) \<subseteq> {..< length (cm_heap m)} \<and> (\<forall>cb \<in> set (cm_heap m). breaker_wf cb)"

lemma snd_update_subset: "snd ` set (AList.update k v xs) \<subseteq> insert v (snd ` set xs)"
  by (induction xs) auto

lemma distinct_snd_update:
  "distinct (map snd xs) \<Longrightarrow> v \<notin> snd ` set xs \<Longrightarrow> distinct (map snd (AList.update k v xs))"
proof (induction xs)
  case (Cons x xs)
  then show ?case using snd_update_subset [of k v xs] by (cases x) auto
qed simp

lemma snd_delete_subset: "snd ` set (AList.delete k xs) \<subseteq> snd ` set xs"
  by (induction xs) auto

lemma distinct_snd_delete: "distinct (map snd xs) \<Longrightarrow> distinct (map snd (AList.delete k xs))"
proof (induction xs)
  case (Cons x xs)
  then show ?case using snd_delete_subset [of k xs] by auto
qed simp

lemma heap_update_wf [wf_intros]:
  "manager_wf m \<Longrightarrow> breaker_wf cb \<Longrightarrow> manager_wf (m\<lparr>cm_heap := (cm_heap m)[address := cb]\<rparr>)"
  using set_update_subset_insert [of "cm_heap m" address cb] by (auto simp: manager_wf_def)

lemma manager_with_config_wf [wf_intros]: "manager_wf (manager_with_config config)"
  by (simp add: manager_wf_def manager_with_config_def)

lemma get_breaker_with_config_wf [wf_intros]:
  assumes "manager_wf m"
  shows "manager_wf (snd (get_breaker_with_config provider_id config now m))"
proof -
  let ?n = "length (cm_heap m)" and ?bs = "cm_breakers m"
  have "?n \<notin> snd ` set ?bs" using assms by (auto simp: manager_wf_def)
  then have "distinct (map snd (AList.update provider_id ?n ?bs))"
    using assms by (intro distinct_snd_update) (simp_all add: manager_wf_def)
  moreover have "snd ` set (AList.update provider_id ?n ?bs) \<subseteq> {..< Suc ?n}"
    using snd_update_subset [of provider_id ?n ?bs] assms by (fastforce simp: manager_wf_def)
  ultimately show ?thesis
    using assms by (auto simp: manager_wf_def get_breaker_with_config_def distinct_update breaker_new_wf Let_def)
qed

lemma get_breaker_wf [wf_intros]: "manager_wf m \<Longrightarrow> manager_wf (snd (get_breaker provider_id now m))"
  by (auto simp: get_breaker_def intro: wf_intros split: option.split)

lemma remove_breaker_wf [wf_intros]: "manager_wf m \<Longrightarrow> manager_wf (remove_breaker provider_id m)"
  using snd_delete_subset [of provider_id "cm_breakers m"]
  by (auto simp: manager_wf_def remove_breaker_def distinct_delete distinct_snd_delete)

lemma check_at_wf:
  assumes "manager_wf m" and "(k, address) \<in> set (cm_breakers m)"
  shows "manager_wf (snd (check_at now address m))"
proof -
  have "address < length (cm_heap m)" using assms by (force simp: manager_wf_def)
  then have "breaker_wf (cm_heap m ! address)" using assms(1) by (simp add: manager_wf_def)
  then show ?thesis
    using assms(1) can_execute_wf [of "cm_heap m ! address" now]
    by (auto simp: check_at_def intro: wf_intros split: prod.split)
qed

lemma check_at_breakers: "cm_breakers (snd (check_at now address m)) = cm_breakers m"
  by (simp add: check_at_def split: prod.split)

lemma is_available_wf [wf_intros]: "manager_wf m \<Longrightarrow> manager_wf (snd (is_available provider_id now m))"
  using check_at_wf [of m provider_id]
  by (auto simp: is_available_def split: option.split prod.split) (metis map_of_SomeD snd_conv)

lemma check_all_wf:
  "manager_wf m \<Longrightarrow> set entries \<subseteq> set (cm_breakers m) \<Longrightarrow> manager_wf (snd (check_all now entries m))"
proof (induction entries arbitrary: m)
  case (Cons entry rest)
  obtain k address where entry: "entry = (k, address)" by (cases entry)
  let ?m = "snd (check_at now address m)"
  have "manager_wf ?m" "cm_breakers ?m = cm_breakers m"
    using Cons.prems by (auto simp: entry check_at_breakers intro: check_at_wf)
  with Cons.IH [of ?m] Cons.prems(2) show ?case by (auto simp: entry split: prod.split)
qed simp

lemma health_wf [wf_intros]:
  "manager_wf m \<Longrightarrow> manager_wf (snd (get_healthy_providers now m))"
  "manager_wf m \<Longrightarrow> manager_wf (snd (get_unhealthy_providers now m))"
  using check_all_wf [of m "cm_breakers m" now]
  by (auto simp: get_healthy_providers_def get_unhealthy_providers_def split: prod.split)

text \<open>A provider keeps the breaker it was given, and looking up another never disturbs it.\<close>

lemma get_breaker_again:
  "get_breaker provider_id now m = (address, m') \<Longrightarrow> get_breaker provider_id later m' = (address, m')"
  by (auto simp: get_breaker_def get_breaker_with_config_def update_conv' Let_def split: option.splits)

lemma get_breaker_other:
  "manager_wf m \<Longrightarrow> map_of (cm_breakers m) other = Some a \<Longrightarrow> get_breaker provider_id now m = (address, m') \<Longrightarrow>
     other \<noteq> provider_id \<Longrightarrow> map_of (cm_breakers m') other = Some a \<and> cm_heap m' ! a = cm_heap m ! a"
  by (auto simp: get_breaker_def get_breaker_with_config_def update_conv' manager_wf_def nth_append Let_def
      dest!: map_of_SomeD split: option.splits)

text \<open>
  Asking whether a provider is available takes a probe slot. After the cooldown, that question alone, asked
  once more often than there are slots, leaves the circuit half-open with no slot for a request.
\<close>

fun ask_again :: "nat \<Rightarrow> nat \<Rightarrow> breaker \<Rightarrow> breaker" where
  "ask_again now 0 cb = cb"
| "ask_again now (Suc n) cb = ask_again now n (snd (can_execute now cb))"

lemma ask_again_HalfOpen:
  assumes "cb_state cb = HalfOpen" and "unat (cb_half_open_requests cb) + n < 2 ^ 32"
  shows "ask_again now n cb = cb\<lparr>cb_half_open_requests := cb_half_open_requests cb + of_nat n\<rparr>"
  using assms
proof (induction n arbitrary: cb)
  case (Suc n)
  then have "snd (can_execute now cb) = cb\<lparr>cb_half_open_requests := cb_half_open_requests cb + 1\<rparr>"
    by (simp add: can_execute_def Let_def)
  with Suc.IH [of "snd (can_execute now cb)"] Suc.prems unat_succ_u32 [of "cb_half_open_requests cb"]
  show ?case by (simp add: algebra_simps)
qed simp

theorem availability_polls_starve:
  assumes "cb_state cb = Open" and "cb_opened_at cb = Some t" and "t + bc_open_duration (cb_config cb) \<le> now"
  shows "starved \<lparr>sy_breaker = ask_again now (Suc (unat (bc_half_open_max_requests (cb_config cb)))) cb,
     sy_checks = [], sy_running = 0\<rparr>"
proof -
  have "snd (can_execute now cb) = transition_to_half_open now cb"
    using assms by (simp add: can_execute_def Let_def)
  then show ?thesis
    using assms(1) unat_u32_lt [of "bc_half_open_max_requests (cb_config cb)"]
    by (simp add: ask_again_HalfOpen transition_to_half_open_def starved_def)
qed

section \<open>Concrete runs\<close>

text \<open>Requests served one after the other, all of them let through, with their results.\<close>

fun serve :: "(nat \<times> call_result) list \<Rightarrow> breaker \<Rightarrow> breaker option" where
  "serve [] cb = Some cb"
| "serve ((now, r) # rest) cb = (case can_execute now cb of
     (Inr _, cb') \<Rightarrow> serve rest (record_call now r cb')
   | (Inl _, cb') \<Rightarrow> None)"

lemma breaker_run_append:
  "breaker_run now s es s' \<Longrightarrow> (\<forall>(t, e) \<in> set es. t \<le> now') \<Longrightarrow> now \<le> now' \<Longrightarrow> breaker_run now' s' es' s'' \<Longrightarrow>
     breaker_run now s (es @ es') s''"
proof (induction rule: breaker_run.induct)
  case (stop now s)
  then show ?case by (cases es') (auto simp: breaker_run_simps)
qed (auto intro: breaker_run.more)

definition request_events :: "breaker \<Rightarrow> nat \<Rightarrow> call_result \<Rightarrow> (nat \<times> event) list" where
  "request_events cb now r =
     (now, Ask) # replicate (if cb_state cb = Open \<and> cb_opened_at cb \<noteq> None then 2 else 1) (now, Proceed 0)
       @ [(now, Finish r)]"

lemma request_run:
  assumes "can_execute t cb = (Inr x, cb')" and "now \<le> t"
  shows "breaker_run now \<lparr>sy_breaker = cb, sy_checks = [], sy_running = 0\<rparr> (request_events cb t r)
     \<lparr>sy_breaker = record_call t r cb', sy_checks = [], sy_running = 0\<rparr>"
  using assms
  by (cases "cb_state cb") (auto simp: request_events_def breaker_run_simps breaker_step_simps drop_nth_def
      can_execute_def numeral_2_eq_2 Let_def split: option.splits if_splits)

lemma serve_run:
  assumes "serve rs cb = Some cb'" and "sorted (now # map fst rs)"
  shows "\<exists>es. breaker_run now \<lparr>sy_breaker = cb, sy_checks = [], sy_running = 0\<rparr> es
       \<lparr>sy_breaker = cb', sy_checks = [], sy_running = 0\<rparr>
     \<and> filter (\<lambda>(t, e). e \<noteq> Ask \<and> e \<noteq> Proceed 0) es = map (\<lambda>(t, r). (t, Finish r)) rs
     \<and> fst ` set es \<subseteq> fst ` set rs"
  using assms
proof (induction rs arbitrary: cb now)
  case Nil
  then show ?case by (intro exI [of _ "[]"]) (auto intro: breaker_run.stop)
next
  case (Cons tr rs)
  obtain t r where tr: "tr = (t, r)" by (cases tr)
  with Cons.prems obtain x cb1 where ask: "can_execute t cb = (Inr x, cb1)" and rest: "serve rs (record_call t r cb1) = Some cb'"
    by (auto split: prod.splits sum.splits)
  from Cons.IH [OF rest, of t] Cons.prems(2) tr obtain es where
    es: "breaker_run t \<lparr>sy_breaker = record_call t r cb1, sy_checks = [], sy_running = 0\<rparr> es
       \<lparr>sy_breaker = cb', sy_checks = [], sy_running = 0\<rparr>"
    and f: "filter (\<lambda>(t, e). e \<noteq> Ask \<and> e \<noteq> Proceed 0) es = map (\<lambda>(t, r). (t, Finish r)) rs" "fst ` set es \<subseteq> fst ` set rs" by auto
  have "now \<le> t" using Cons.prems(2) tr by simp
  from breaker_run_append [OF request_run [OF ask this, of r] _ this es] f show ?case
    by (intro exI [of _ "request_events cb t r @ es"]) (auto simp: tr request_events_def)
qed

definition failures :: "(nat \<times> call_result) list" where
  "failures = [(secs 5, CallError ''down'' False), (secs 5, CallError ''down'' False),
     (secs 5, CallError ''down'' False), (secs 5, CallError ''down'' False), (secs 5, CallError ''down'' False)]"

definition tripped :: "breaker_config \<Rightarrow> breaker" where
  "tripped config = (breaker_new ''provider'' config 0)\<lparr>cb_state := Open, cb_failures := 5,
     cb_opened_at := Some (secs 5), cb_last_state_change := secs 5, cb_total_opens := 1,
     cb_last_error := Some ''down''\<rparr>"

lemma secs_simps [simp]: "secs a \<le> secs b \<longleftrightarrow> a \<le> b" "secs a - secs b = secs (a - b)" "secs a = 0 \<longleftrightarrow> a = 0"
  by (simp_all add: secs_def diff_mult_distrib)

lemma serve_failures: "serve failures (breaker_new ''provider'' default_breaker_config 0) = Some (tripped default_breaker_config)"
  by (simp add: failures_def can_execute_def record_failure_def breaker_new_def tripped_def default_breaker_config_def
      word_le_nat_alt Let_def)

text \<open>After the cooldown the first probe of the default circuit is rate-limited and the two that are left succeed.\<close>

definition unlucky :: "(nat \<times> call_result) list" where
  "unlucky = [(secs 35, CallError ''429'' True), (secs 35, CallOk), (secs 35, CallOk)]"

definition stuck :: breaker where
  "stuck = (tripped default_breaker_config)\<lparr>cb_state := HalfOpen, cb_successes := 2, cb_half_open_requests := 2,
     cb_last_state_change := secs 35\<rparr>"

lemma serve_unlucky: "serve unlucky (tripped default_breaker_config) = Some stuck"
  by (simp add: unlucky_def can_execute_def record_success_def transition_to_half_open_def tripped_def
      default_breaker_config_def breaker_new_def stuck_def word_le_nat_alt word_less_nat_alt Let_def)

lemma served_from_fresh:
  assumes "serve rs (breaker_new ''provider'' config 0) = Some cb" and "sorted (map fst rs)"
  obtains es where "breaker_run 0 (fresh_system config 0) es \<lparr>sy_breaker = cb, sy_checks = [], sy_running = 0\<rparr>"
    and "filter (\<lambda>(t, e). e \<noteq> Ask \<and> e \<noteq> Proceed 0) es = map (\<lambda>(t, r). (t, Finish r)) rs"
    and "fst ` set es \<subseteq> fst ` set rs"
proof -
  have "sorted (0 # map fst rs)" using assms(2) by simp
  from serve_run [OF assms(1) this] obtain es where
    "breaker_run 0 \<lparr>sy_breaker = breaker_new ''provider'' config 0, sy_checks = [], sy_running = 0\<rparr> es
       \<lparr>sy_breaker = cb, sy_checks = [], sy_running = 0\<rparr>"
    "filter (\<lambda>(t, e). e \<noteq> Ask \<and> e \<noteq> Proceed 0) es = map (\<lambda>(t, r). (t, Finish r)) rs"
    "fst ` set es \<subseteq> fst ` set rs" by (elim exE conjE)
  then show thesis by (intro that [of es]) (simp_all only: fresh_system_def)
qed

lemma serve_append: "serve (rs @ rs') cb = Option.bind (serve rs cb) (serve rs')"
  by (induction rs cb rule: serve.induct) (auto split: prod.splits sum.splits)

section \<open>Properties\<close>

text \<open>C12: an open circuit waits out its cooldown, to the nanosecond. Whatever requests, results and
  interleaved checks came before, an undisturbed check at an instant after them lets a request through an
  open circuit only once the cooldown since it opened is over, and never leaves it open then; refused by an
  open circuit, it is told exactly how long is left, after which the same circuit lets it through; and the
  only other refusal is a half-open circuit whose probe slots are spent. The branch for an open circuit
  that does not know when it opened is never taken.\<close>

theorem open_circuit_waits_out_cooldown:
  assumes "breaker_run start (fresh_system config start) es s" and "\<forall>(t, e) \<in> set es. t \<le> now"
  shows "case can_execute now (sy_breaker s) of
     (Inr _, cb') \<Rightarrow> cb_state cb' \<noteq> Open \<and> (cb_state (sy_breaker s) = Open \<longrightarrow>
        (\<exists>t. cb_opened_at (sy_breaker s) = Some t \<and> t + bc_open_duration config \<le> now))
   | (Inl wait, cb') \<Rightarrow>
        cb_state (sy_breaker s) = HalfOpen \<and> bc_half_open_max_requests config \<le> cb_half_open_requests (sy_breaker s)
      \<or> cb_state (sy_breaker s) = Open \<and> cb' = sy_breaker s \<and> 0 < wait
          \<and> (\<exists>t. cb_opened_at (sy_breaker s) = Some t \<and> now + wait = t + bc_open_duration config)
          \<and> fst (can_execute (now + wait) (sy_breaker s)) = Inr ()"
proof -
  have wf: "breaker_wf (sy_breaker s)" by (rule breaker_run_wf [OF assms(1) fresh_wf])
  have "opened_by now (sy_breaker (fresh_system config start))"
    by (simp add: opened_by_def fresh_system_def breaker_new_def)
  from breaker_run_opened [OF assms this] have time: "opened_by now (sy_breaker s)"
    and config: "cb_config (sy_breaker s) = config" by (simp_all add: fresh_system_def breaker_new_def)
  show ?thesis
  proof (cases "cb_state (sy_breaker s)")
    case Open
    with wf obtain t where t: "cb_opened_at (sy_breaker s) = Some t" by (auto simp: breaker_wf_def)
    with time have "t \<le> now" by (simp add: opened_by_def)
    with Open t show ?thesis by (auto simp: can_execute_def config Let_def transition_to_half_open_def)
  qed (auto simp: can_execute_def config Let_def)
qed

theorem open_circuit_waits_out_cooldown_witness:
  "\<exists>es s wait. breaker_run 0 (fresh_system default_breaker_config 0) es s
     \<and> fst (can_execute (secs 10) (sy_breaker s)) = Inl wait \<and> 0 < wait
     \<and> fst (can_execute (secs 10 + wait) (sy_breaker s)) = Inr ()"
proof -
  have "sorted (map fst failures)" by (simp add: failures_def)
  then obtain es where run: "breaker_run 0 (fresh_system default_breaker_config 0) es
      \<lparr>sy_breaker = tripped default_breaker_config, sy_checks = [], sy_running = 0\<rparr>"
    and at: "fst ` set es \<subseteq> fst ` set failures" by (rule served_from_fresh [OF serve_failures])
  have times: "\<forall>(t, e) \<in> set es. t \<le> secs 10"
  proof clarify
    fix t e assume "(t, e) \<in> set es"
    then have "t \<in> fst ` set failures" using at by force
    then show "t \<le> secs 10" by (auto simp: failures_def)
  qed
  have wait: "can_execute (secs 10) (tripped default_breaker_config) = (Inl (secs 25), tripped default_breaker_config)"
    by (simp add: can_execute_def tripped_def default_breaker_config_def breaker_new_def Let_def)
  from open_circuit_waits_out_cooldown [OF run times] run wait show ?thesis
    by (intro exI [of _ es] exI [of _ "secs 25"] exI) (auto simp: tripped_def)
qed

text \<open>C13: a circuit recovers from successful probes exactly when its configuration allows enough of them.
  Once the cooldown is over, requests asked for one after the other, all of them successful, close the
  circuit if and only if the successes it wants are at most one more than the probes it lets through.\<close>

theorem recovery_needs_enough_probes:
  assumes "cb_state cb = Open" and "cb_opened_at cb = Some t" and "ts \<noteq> []"
    and "t + bc_open_duration (cb_config cb) \<le> fst (hd ts)"
    and "unat (bc_success_threshold (cb_config cb)) \<le> length ts" and "length ts < 2 ^ 32"
  shows "cb_state (fold probe ts cb) = Closed \<longleftrightarrow>
     unat (bc_success_threshold (cb_config cb)) \<le> unat (bc_half_open_max_requests (cb_config cb)) + 1"
proof -
  obtain a e rest where ts: "ts = (a, e) # rest" using assms(3) by (cases ts) auto
  let ?need = "bc_success_threshold (cb_config cb)" and ?open = "transition_to_half_open a cb"
  have first: "probe (a, e) cb = record_success e ?open"
    using assms(1,2,4) by (simp add: ts probe_def can_execute_def Let_def)
  show ?thesis
  proof (cases "?need \<le> 1")
    case True
    then have "cb_state (probe (a, e) cb) = Closed" unfolding first
      using assms(1) by (simp add: record_success_def transition_to_half_open_def Let_def)
    with True show ?thesis by (simp add: ts probes_Closed word_le_nat_alt)
  next
    case False
    then have "probe (a, e) cb = ?open\<lparr>cb_successes := 1\<rparr>" unfolding first
      using assms(1) by (simp add: record_success_def transition_to_half_open_def Let_def)
    with probes_HalfOpen [of "probe (a, e) cb" rest] assms(1,5,6) False show ?thesis
      by (auto simp: ts transition_to_half_open_def word_le_nat_alt word_less_nat_alt not_le)
  qed
qed

theorem recovery_needs_enough_probes_witness:
  "cb_state (fold probe (replicate 9 (secs 90, secs 91)) (tripped default_breaker_config)) = Closed
   \<and> cb_state (fold probe (replicate 9 (secs 90, secs 91)) (tripped conservative)) \<noteq> Closed"
proof -
  have at: "cb_state (tripped c) = Open" "cb_opened_at (tripped c) = Some (secs 5)" "cb_config (tripped c) = c" for c
    by (simp_all add: tripped_def breaker_new_def)
  show ?thesis
    using recovery_needs_enough_probes [OF at(1,2), of "replicate 9 (secs 90, secs 91)" default_breaker_config]
      recovery_needs_enough_probes [OF at(1,2), of "replicate 9 (secs 90, secs 91)" conservative]
    by (simp add: at(3) default_breaker_config_def conservative_def secs_def)
qed

text \<open>C14: a half-open circuit whose probes ended without a result never recovers. Once the probe slots are
  spent and nothing is running, no request is ever let through again and no time brings the circuit out of
  half-open, until the counter of refused probes wraps after four billion of them; under the default
  configuration one rate-limited probe is enough to get there.\<close>

theorem starved_circuit_stays_half_open:
  assumes "breaker_run now s es s'" and "starved s"
    and "unat (cb_half_open_requests (sy_breaker s)) + length es < 2 ^ 32"
  shows "cb_state (sy_breaker s') = HalfOpen \<and> sy_running s' = 0
     \<and> fst (can_execute later (sy_breaker s')) = Inl (millis 100)"
  using starved_run [OF assms] by (simp add: starved_def can_execute_def Let_def not_less)

theorem starved_circuit_stays_half_open_witness:
  "\<exists>es s s'. breaker_run 0 (fresh_system default_breaker_config 0) es s
     \<and> filter (\<lambda>(t, e). e \<noteq> Ask \<and> e \<noteq> Proceed 0) es = map (\<lambda>(t, r). (t, Finish r)) (failures @ unlucky)
     \<and> breaker_run (secs 35) s [(secs 1000000, Ask), (secs 1000000, Proceed 0)] s'
     \<and> cb_state (sy_breaker s') = HalfOpen \<and> fst (can_execute (secs 2000000) (sy_breaker s')) = Inl (millis 100)"
proof -
  have "serve (failures @ unlucky) (breaker_new ''provider'' default_breaker_config 0) = Some stuck"
    by (simp add: serve_append serve_failures serve_unlucky)
  moreover have "sorted (map fst (failures @ unlucky))" by (simp add: failures_def unlucky_def)
  ultimately obtain es where run: "breaker_run 0 (fresh_system default_breaker_config 0) es
      \<lparr>sy_breaker = stuck, sy_checks = [], sy_running = 0\<rparr>"
    and results: "filter (\<lambda>(t, e). e \<noteq> Ask \<and> e \<noteq> Proceed 0) es = map (\<lambda>(t, r). (t, Finish r)) (failures @ unlucky)"
    by (rule served_from_fresh)
  let ?s = "\<lparr>sy_breaker = stuck, sy_checks = [], sy_running = 0\<rparr>"
  have fields: "cb_state stuck = HalfOpen" "cb_half_open_requests stuck = 2"
    "bc_half_open_max_requests (cb_config stuck) = 2"
    by (simp_all add: stuck_def tripped_def breaker_new_def default_breaker_config_def)
  obtain s' where s': "breaker_run (secs 35) ?s [(secs 1000000, Ask), (secs 1000000, Proceed 0)] s'"
    by (auto simp: breaker_run_simps breaker_step_simps fields Let_def)
  have "starved ?s" by (simp add: starved_def fields)
  from starved_circuit_stays_half_open [OF s' this, of "secs 2000000"] run results s' show ?thesis
    by (auto simp: fields)
qed

end
