(* ===== verification/Wallet_Ledger.thy ===== *)
theory Wallet_Ledger
  imports F64 Sdk Swap_Verify
begin

text \<open>
  The data of the wallet-history ledger: one balance movement of one transaction
  (\<^verbatim>\<open>transactions/deltas.rs\<close>), the rounds, events and holdings of \<^verbatim>\<open>positions/ledger/mod.rs\<close>, and the
  reference assets of \<^verbatim>\<open>chains/solana/adapter.rs\<close>. A movement is without its chain, wallet and fee, which the
  reduction does not read.

  An \<^verbatim>\<open>i128\<close> is an integer of its range; a sum or a negation wraps, as in a build without overflow
  checks. A time is in seconds. Strings are compared byte by byte. What \<^verbatim>\<open>10f64.powi\<close> returns is left open
  by its documentation, so it is a parameter.
\<close>

section \<open>Balance movements\<close>

datatype delta_kind = Trade | Transfer | DeFi | Other

definition delta_kind_as_str :: "delta_kind \<Rightarrow> string" where
  "delta_kind_as_str k = (case k of Trade \<Rightarrow> ''trade'' | Transfer \<Rightarrow> ''transfer'' | DeFi \<Rightarrow> ''defi'' | Other \<Rightarrow> ''other'')"

definition delta_kind_parse :: "string \<Rightarrow> string + delta_kind" where
  "delta_kind_parse value =
     (if value = ''trade'' then Inr Trade
      else if value = ''transfer'' then Inr Transfer
      else if value = ''defi'' then Inr DeFi
      else if value = ''other'' then Inr Other
      else Inl (''unknown delta kind: '' @ value))"

lemma delta_kind_parse_as_str [simp]: "delta_kind_parse (delta_kind_as_str k) = Inr k"
  by (cases k) (simp_all add: delta_kind_parse_def delta_kind_as_str_def)

record subject_delta =
  sd_signature :: string
  sd_mint :: string
  sd_slot :: "u64 option"
  sd_block_time :: "i64 option"
  sd_tx_index :: u32
  sd_delta_raw :: i128
  sd_before_raw :: "u128 option"
  sd_after_raw :: "u128 option"
  sd_decimals :: u8
  sd_kind :: delta_kind
  sd_venue :: "string option"
  sd_success :: bool

definition NATIVE_SOL_SENTINEL :: string where
  "NATIVE_SOL_SENTINEL = ''native''"

definition USDT_MINT :: string where
  "USDT_MINT = ''Es9vMFrzaCERmJfrF4H2FYD4KCoNkY11McCe8BenwNYB''"

definition stable_assets :: "string list" where
  "stable_assets = [USDC_MINT, USDT_MINT]"

definition is_stable_asset :: "string \<Rightarrow> bool" where
  "is_stable_asset address \<longleftrightarrow> address \<in> set stable_assets"

text \<open>Assets that denominate trades rather than being positions themselves.\<close>

definition is_reference_asset :: "string \<Rightarrow> bool" where
  "is_reference_asset mint \<longleftrightarrow> mint = NATIVE_SOL_SENTINEL \<or> is_native_asset mint \<or> is_stable_asset mint"

section \<open>Rounds\<close>

datatype quote_asset = Sol | Usd

record quote_leg =
  ql_asset :: quote_asset
  ql_amount :: f64

datatype event_kind = Entry | Add | PartialExit | Exit | Receive | Send

definition is_acquisition :: "event_kind \<Rightarrow> bool" where
  "is_acquisition kind \<longleftrightarrow> kind = Entry \<or> kind = Add \<or> kind = Receive"

record ledger_event =
  le_signature :: string
  le_slot :: "u64 option"
  le_block_time :: "i64 option"
  le_kind :: event_kind
  le_amount :: f64
  le_balance_after :: f64
  le_quote :: "quote_leg option"
  le_price_sol :: "f64 option"
  le_venue :: "string option"

record ledger_round =
  lr_mint :: string
  lr_decimals :: u8
  lr_round_key :: string
  lr_opened_at :: "i64 option"
  lr_closed_at :: "i64 option"
  lr_is_open :: bool
  lr_balance_raw :: u128
  lr_total_acquired_raw :: u128
  lr_total_disposed_raw :: u128
  lr_entry_count :: u32
  lr_exit_count :: u32
  lr_invested_sol :: f64
  lr_remaining_basis_sol :: f64
  lr_realized_proceeds_sol :: f64
  lr_realized_cost_sol :: f64
  lr_average_entry_price_sol :: "f64 option"
  lr_average_exit_price_sol :: "f64 option"
  lr_realized_pnl_sol :: "f64 option"
  lr_basis_complete :: bool
  lr_history_complete :: bool
  lr_entry_signature :: "string option"
  lr_exit_signature :: "string option"
  lr_events :: "ledger_event list"

record wallet_holding =
  wh_mint :: string
  wh_amount_raw :: u128
  wh_decimals :: u8

section \<open>Integers and money\<close>

definition wrap_i128 :: "int \<Rightarrow> i128" where
  "wrap_i128 x = (x + 2 ^ 127) mod 2 ^ 128 - 2 ^ 127"

definition in_i128 :: "int \<Rightarrow> bool" where
  "in_i128 x \<longleftrightarrow> - (2 ^ 127) \<le> x \<and> x < 2 ^ 127"

lemma wrap_i128_id [simp]: "in_i128 x \<Longrightarrow> wrap_i128 x = x"
  by (simp add: in_i128_def wrap_i128_def)

lemma wrap_i128_range: "in_i128 (wrap_i128 x)"
  unfolding in_i128_def wrap_i128_def
  using pos_mod_sign [of "2 ^ 128 :: int" "x + 2 ^ 127"] pos_mod_bound [of "2 ^ 128 :: int" "x + 2 ^ 127"]
  by (simp add: algebra_simps)

definition i128_of_u128 :: "u128 \<Rightarrow> i128 option" where
  "i128_of_u128 w = (if unat w < 2 ^ 127 then Some (int (unat w)) else None)"

definition u128_of_i128 :: "i128 \<Rightarrow> u128" where
  "u128_of_i128 x = word_of_int x"

definition as_i128 :: "u128 \<Rightarrow> i128" where
  "as_i128 w = wrap_i128 (int (unat w))"

definition f64_of_i128 :: "i128 \<Rightarrow> f64" where
  "f64_of_i128 x = f64_of_rat (of_int x)"

text \<open>\<^verbatim>\<open>f64::max\<close>: a \<^verbatim>\<open>NaN\<close> loses.\<close>

definition f64_max :: "f64 \<Rightarrow> f64 \<Rightarrow> f64" where
  "f64_max a b = (if a = NaN then b else if b = NaN then a else if f64_less a b then b else a)"

definition DUST :: f64 where
  "DUST = f64_of_rat (1 / 10 ^ 12)"

definition raw_to_whole :: "(u8 \<Rightarrow> f64) \<Rightarrow> i128 \<Rightarrow> u8 \<Rightarrow> f64" where
  "raw_to_whole pow10 raw decimals = f64_div (f64_of_i128 raw) (pow10 decimals)"

definition round_balance :: "(u8 \<Rightarrow> f64) \<Rightarrow> ledger_round \<Rightarrow> f64" where
  "round_balance pow10 r = raw_to_whole pow10 (as_i128 (lr_balance_raw r)) (lr_decimals r)"

definition is_genesis :: "ledger_round \<Rightarrow> bool" where
  "is_genesis r \<longleftrightarrow> take 8 (lr_round_key r) = ''genesis:''"

fun max_option :: "int option \<Rightarrow> int list \<Rightarrow> int option" where
  "max_option m [] = m"
| "max_option None (x # xs) = max_option (Some x) xs"
| "max_option (Some m) (x # xs) = max_option (Some (if m \<le> x then x else m)) xs"

text \<open>The latest moment the round was seen, or when it opened.\<close>

definition last_seen_at :: "ledger_round \<Rightarrow> int option" where
  "last_seen_at r = (case max_option None (List.map_filter le_block_time (lr_events r)) of
       Some t \<Rightarrow> Some t
     | None \<Rightarrow> lr_opened_at r)"

lemma i128_of_u128_range: "i128_of_u128 w = Some x \<Longrightarrow> 0 \<le> x \<and> in_i128 x"
proof -
  assume "i128_of_u128 w = Some x"
  then have "unat w < 2 ^ 127" "x = int (unat w)" by (simp_all add: i128_of_u128_def split: if_splits)
  then have "nat x < 2 ^ 127" "0 \<le> x" by simp_all
  then have "x < 2 ^ 127" by (simp add: nat_less_iff)
  with \<open>0 \<le> x\<close> show ?thesis by (simp add: in_i128_def)
qed

lemma u128_of_i128_unat: "0 \<le> x \<Longrightarrow> in_i128 x \<Longrightarrow> int (unat (u128_of_i128 x)) = x"
  by (simp add: u128_of_i128_def in_i128_def uint_word_of_int)

lemma max_option_Some [simp]: "max_option (Some m) xs \<noteq> None"
  by (induction xs arbitrary: m) auto

text \<open>What \<^verbatim>\<open>last_seen_at\<close> returns is not before any event.\<close>

lemma max_option_upper: "max_option m xs = Some t \<Longrightarrow> x \<in> set xs \<or> m = Some x \<Longrightarrow> x \<le> t"
  by (induction m xs arbitrary: x rule: max_option.induct) (fastforce split: if_splits)+

lemma last_seen_at_latest:
  assumes "e \<in> set (lr_events r)" and "le_block_time e = Some x"
  shows "\<exists>t. last_seen_at r = Some t \<and> x \<le> t"
proof -
  let ?xs = "List.map_filter le_block_time (lr_events r)"
  from assms have x: "x \<in> set ?xs" by (force simp: List.map_filter_def)
  then have "?xs \<noteq> []" by auto
  then obtain y ys where "?xs = y # ys" by (cases ?xs) auto
  then obtain t where t: "max_option None ?xs = Some t" by (cases "max_option None ?xs") auto
  with max_option_upper [OF t] x show ?thesis by (simp add: last_seen_at_def)
qed

end
