(* ===== verification/Position_Types.thy ===== *)
theory Position_Types
  imports Wallet_Ledger Json
begin

text \<open>
  \<^verbatim>\<open>positions/types.rs\<close>: a position with its provenance and ownership, and the columns both are stored in.
  A \<^verbatim>\<open>DateTime<Utc>\<close> is its count of nanoseconds.
\<close>

text \<open>\<^verbatim>\<open>Option::or_else\<close>.\<close>

fun or_else :: "'a option \<Rightarrow> 'a option \<Rightarrow> 'a option" where
  "or_else (Some x) _ = Some x"
| "or_else None y = y"

section \<open>Provenance and ownership\<close>

datatype trade_origin = AutoTrade | ManualTrade

datatype position_origin = Auto "string option" | Manual | Copy i64 string | External

datatype position_management = AutoTrader | UserOnly | CopyTask | Hybrid

text \<open>\<^verbatim>\<open>UnknownPersistedValue\<close>, the one error of these conversions, with its field and value.\<close>

datatype persisted_error = UnknownPersistedValue string string

definition origin_kind :: "position_origin \<Rightarrow> string" where
  "origin_kind origin = (case origin of Auto _ \<Rightarrow> ''auto'' | Manual \<Rightarrow> ''manual'' | Copy _ _ \<Rightarrow> ''copy'' | External \<Rightarrow> ''external'')"

text \<open>\<^verbatim>\<open>Display\<close> and \<^verbatim>\<open>str::parse\<close> of an \<^verbatim>\<open>i64\<close>.\<close>

definition show_i64 :: "i64 \<Rightarrow> string" where
  "show_i64 n = (if n < 0 then CHR ''-'' # show_nat (nat (- n)) else show_nat (nat n))"

definition parse_i64 :: "string \<Rightarrow> i64 option" where
  "parse_i64 s =
     (let negative = (s \<noteq> [] \<and> hd s = CHR ''-'');
          body = (if s \<noteq> [] \<and> (hd s = CHR ''-'' \<or> hd s = CHR ''+'') then tl s else s)
      in if body = [] then None
         else case parse_digits 0 body of
             None \<Rightarrow> None
           | Some n \<Rightarrow> let x = (if negative then - int n else int n)
                      in if - (2 ^ 63) \<le> x \<and> x < 2 ^ 63 then Some x else None)"

definition origin_reference :: "position_origin \<Rightarrow> string option" where
  "origin_reference origin = (case origin of
       Auto strategy_id \<Rightarrow> strategy_id
     | Manual \<Rightarrow> None
     | Copy task_id source_wallet \<Rightarrow> Some (show_i64 task_id @ '':'' @ source_wallet)
     | External \<Rightarrow> None)"

text \<open>\<^verbatim>\<open>split_once(':')\<close>.\<close>

fun split_once :: "char \<Rightarrow> string \<Rightarrow> (string \<times> string) option" where
  "split_once c [] = None"
| "split_once c (x # xs) = (if x = c then Some ([], xs) else map_option (\<lambda>(a, b). (x # a, b)) (split_once c xs))"

definition origin_from_columns :: "string \<Rightarrow> string option \<Rightarrow> persisted_error + position_origin" where
  "origin_from_columns kind reference =
     (if kind = ''auto'' then Inr (Auto reference)
      else if kind = ''manual'' then Inr Manual
      else if kind = ''external'' then Inr External
      else if kind = ''copy'' then
        rbind (ok_or reference (UnknownPersistedValue ''origin_ref'' ''<missing>'')) (\<lambda>value.
        rbind (ok_or (split_once (CHR '':'') value) (UnknownPersistedValue ''origin_ref'' value)) (\<lambda>(task_id, source_wallet).
        rbind (ok_or (parse_i64 task_id) (UnknownPersistedValue ''origin_ref'' value)) (\<lambda>task_id.
        Inr (Copy task_id source_wallet))))
      else Inl (UnknownPersistedValue ''origin_kind'' kind))"

definition management_as_str :: "position_management \<Rightarrow> string" where
  "management_as_str management = (case management of
       AutoTrader \<Rightarrow> ''auto_trader'' | UserOnly \<Rightarrow> ''user_only'' | CopyTask \<Rightarrow> ''copy_task'' | Hybrid \<Rightarrow> ''hybrid'')"

definition management_parse :: "string \<Rightarrow> persisted_error + position_management" where
  "management_parse value =
     (if value = ''auto_trader'' then Inr AutoTrader
      else if value = ''user_only'' then Inr UserOnly
      else if value = ''copy_task'' then Inr CopyTask
      else if value = ''hybrid'' then Inr Hybrid
      else Inl (UnknownPersistedValue ''management'' value))"

definition allows_safety_exits :: "position_management \<Rightarrow> bool" where
  "allows_safety_exits management \<longleftrightarrow> management \<noteq> UserOnly"

definition allows_policy_exits :: "position_management \<Rightarrow> bool" where
  "allows_policy_exits management \<longleftrightarrow> management = AutoTrader \<or> management = Hybrid"

definition allows_auto_dca :: "position_management \<Rightarrow> bool" where
  "allows_auto_dca management \<longleftrightarrow> management = AutoTrader"

definition allows_copy_sell :: "position_management \<Rightarrow> bool" where
  "allows_copy_sell management \<longleftrightarrow> management = CopyTask \<or> management = Hybrid"

definition is_valid_for_origin :: "position_management \<Rightarrow> position_origin \<Rightarrow> bool" where
  "is_valid_for_origin management origin =
     (if origin = External then management = UserOnly
      else \<not> (management = CopyTask \<or> management = Hybrid) \<or> (\<exists>task_id source_wallet. origin = Copy task_id source_wallet))"

section \<open>Positions\<close>

record position =
  po_id :: "i64 option"
  po_mint :: string
  po_symbol :: string
  po_name :: string
  po_entry_price :: f64
  po_entry_time :: int
  po_exit_price :: "f64 option"
  po_exit_time :: "int option"
  po_position_type :: string
  po_entry_size_sol :: f64
  po_total_size_sol :: f64
  po_price_highest :: f64
  po_price_lowest :: f64
  po_entry_transaction_signature :: "string option"
  po_exit_transaction_signature :: "string option"
  po_token_amount :: "u64 option"
  po_effective_entry_price :: "f64 option"
  po_effective_exit_price :: "f64 option"
  po_sol_received :: "f64 option"
  po_profit_target_min :: "f64 option"
  po_profit_target_max :: "f64 option"
  po_liquidity_tier :: "string option"
  po_transaction_entry_verified :: bool
  po_transaction_exit_verified :: bool
  po_entry_fee_lamports :: "u64 option"
  po_exit_fee_lamports :: "u64 option"
  po_current_price :: "f64 option"
  po_current_price_updated :: "int option"
  po_phantom_remove :: bool
  po_phantom_confirmations :: u32
  po_phantom_first_seen :: "int option"
  po_synthetic_exit :: bool
  po_closed_reason :: "string option"
  po_pnl :: "f64 option"
  po_pnl_percent :: "f64 option"
  po_unrealized_pnl :: "f64 option"
  po_unrealized_pnl_percent :: "f64 option"
  po_remaining_token_amount :: "u64 option"
  po_total_exited_amount :: u64
  po_average_exit_price :: "f64 option"
  po_partial_exit_count :: u32
  po_dca_count :: u32
  po_average_entry_price :: f64
  po_last_dca_time :: "int option"
  po_archived :: bool
  po_archived_at :: "int option"
  po_origin :: position_origin
  po_management :: position_management
  po_round_key :: "string option"
  po_basis_complete :: bool
  po_history_complete :: bool
  po_holding_state :: "string option"

definition is_wallet_derived :: "position \<Rightarrow> bool" where
  "is_wallet_derived p \<longleftrightarrow> po_origin p = External"

definition has_trustworthy_pnl :: "position \<Rightarrow> bool" where
  "has_trustworthy_pnl p \<longleftrightarrow> po_basis_complete p \<and> po_history_complete p"

definition HOLDING_STATE_FROZEN :: string where
  "HOLDING_STATE_FROZEN = ''frozen''"

definition is_frozen :: "position \<Rightarrow> bool" where
  "is_frozen p \<longleftrightarrow> po_holding_state p = Some HOLDING_STATE_FROZEN"

section \<open>Stored and read back\<close>

lemma management_parse_as_str [simp]: "management_parse (management_as_str management) = Inr management"
  by (cases management) (simp_all add: management_parse_def management_as_str_def)

lemma digits_of_show: "c \<in> set (show_nat n) \<Longrightarrow> digit_value c \<noteq> None"
proof (induction n rule: show_nat.induct)
  case (1 n)
  have digit: "digit_value (char_of (48 + d)) \<noteq> None" if "d < 10" for d :: nat using digit_value_char [OF that] by simp
  show ?case
  proof (cases "n < 10")
    case True
    with 1(2) digit show ?thesis by (simp add: show_nat.simps [of n])
  next
    case False
    with 1(2) have "c \<in> set (show_nat (n div 10)) \<or> c = char_of (48 + n mod 10)" by (auto simp: show_nat.simps [of n])
    with 1(1) [OF False] digit [of "n mod 10"] show ?thesis by auto
  qed
qed

lemma show_nat_plain: "CHR '':'' \<notin> set (show_nat n)" "CHR ''-'' \<notin> set (show_nat n)"
  using digits_of_show [of "CHR '':''" n] digits_of_show [of "CHR ''-''" n]
  by (auto simp: digit_value_def Let_def)

lemma parse_show_i64:
  assumes "- (2 ^ 63) \<le> n" and "n < 2 ^ 63"
  shows "parse_i64 (show_i64 n) = Some n"
proof (cases "n < 0")
  case True
  with assms show ?thesis by (simp add: parse_i64_def show_i64_def parse_digits_show)
next
  case False
  have "hd (show_nat (nat n)) \<noteq> CHR ''-''" using show_nat_plain(2) [of "nat n"] hd_in_set [OF show_nat_nonempty, of "nat n"]
    by metis
  with False assms show ?thesis
    by (simp add: parse_i64_def show_i64_def parse_digits_show show_nat_head)
qed

lemma split_once_append: "c \<notin> set a \<Longrightarrow> split_once c (a @ c # b) = Some (a, b)"
  by (induction a) auto

definition storable_origin :: "position_origin \<Rightarrow> bool" where
  "storable_origin origin = (case origin of Copy task_id _ \<Rightarrow> - (2 ^ 63) \<le> task_id \<and> task_id < 2 ^ 63 | _ \<Rightarrow> True)"

text \<open>What is stored of a position's provenance reads back as it was. The two columns of every origin
  decode to it, whatever characters the strategy or the copied wallet is named with.\<close>

theorem origin_columns_round_trip:
  assumes "storable_origin origin"
  shows "origin_from_columns (origin_kind origin) (origin_reference origin) = Inr origin"
proof (cases origin)
  case (Copy task_id source_wallet)
  have "CHR '':'' \<notin> set (show_i64 task_id)" using show_nat_plain(1) by (simp add: show_i64_def)
  with Copy assms show ?thesis
    by (simp add: origin_from_columns_def origin_kind_def origin_reference_def split_once_append parse_show_i64
        storable_origin_def)
qed (simp_all add: origin_from_columns_def origin_kind_def origin_reference_def)

theorem origin_columns_round_trip_witness:
  "origin_from_columns ''copy'' (origin_reference (Copy (- 7) ''a:b'')) = Inr (Copy (- 7) ''a:b'')"
  using origin_columns_round_trip [of "Copy (- 7) ''a:b''"] by (simp add: storable_origin_def origin_kind_def)

end
