(* ===== verification/Stored_Json.thy ===== *)
theory Stored_Json
  imports F64
begin

text \<open>
  The JSON the bot keeps in its database, as \<^verbatim>\<open>serde_json\<close> and the derived \<^verbatim>\<open>Serialize\<close> and \<^verbatim>\<open>Deserialize\<close> write and
  read it: the value a stored text spells, how a field of each type is written, and which values a field accepts. A
  \<open>JsonTime\<close> is the RFC 3339 text of an instant, which \<^verbatim>\<open>chrono\<close> writes to the nanosecond; a \<open>JsonFloat\<close> is the shortest
  decimal that denotes a finite float. What \<^verbatim>\<open>serde_json\<close> reads back from that decimal is the parameter \<open>read_f64\<close>:
  built without its \<^verbatim>\<open>float_roundtrip\<close> feature, it need not be the float that was written, and a decimal out of range is
  an error.
\<close>

datatype stored_json =
    JsonNull
  | JsonText string
  | JsonTime int
  | JsonInt int
  | JsonFloat rat
  | JsonList "stored_json list"
  | JsonObject "(string \<times> stored_json) list"

text \<open>A stored text: empty, the spelling of a value, or neither.\<close>

datatype stored_text = EmptyText | Spells stored_json | Malformed

section \<open>Writing\<close>

text \<open>A float that is not finite is written as \<open>null\<close>.\<close>

fun json_of_f64 :: "f64 \<Rightarrow> stored_json" where
  "json_of_f64 (Finite q) = JsonFloat q"
| "json_of_f64 _ = JsonNull"

definition json_of_u64 :: "u64 \<Rightarrow> stored_json" where
  "json_of_u64 n = JsonInt (int (unat n))"

fun json_of_option :: "('a \<Rightarrow> stored_json) \<Rightarrow> 'a option \<Rightarrow> stored_json" where
  "json_of_option write None = JsonNull"
| "json_of_option write (Some a) = write a"

section \<open>Reading\<close>

fun read_text :: "stored_json \<Rightarrow> string option" where
  "read_text (JsonText s) = Some s"
| "read_text _ = None"

fun read_time :: "stored_json \<Rightarrow> int option" where
  "read_time (JsonTime t) = Some t"
| "read_time _ = None"

fun read_i64 :: "stored_json \<Rightarrow> i64 option" where
  "read_i64 (JsonInt n) = (if - (2 ^ 63) \<le> n \<and> n < 2 ^ 63 then Some n else None)"
| "read_i64 _ = None"

fun read_u64 :: "stored_json \<Rightarrow> u64 option" where
  "read_u64 (JsonInt n) = (if 0 \<le> n \<and> n < 2 ^ 64 then Some (word_of_int n) else None)"
| "read_u64 _ = None"

fun read_float :: "(rat \<Rightarrow> f64 option) \<Rightarrow> stored_json \<Rightarrow> f64 option" where
  "read_float read_f64 (JsonFloat q) = read_f64 q"
| "read_float read_f64 (JsonInt n) = (if - (2 ^ 63) \<le> n \<and> n < 2 ^ 64 then Some (f64_of_rat (of_int n)) else read_f64 (of_int n))"
| "read_float read_f64 _ = None"

fun read_option :: "(stored_json \<Rightarrow> 'a option) \<Rightarrow> stored_json \<Rightarrow> 'a option option" where
  "read_option read JsonNull = Some None"
| "read_option read v = map_option Some (read v)"

text \<open>
  The fields of a struct: an object, whose unknown fields are skipped and whose known fields may not be repeated, or a
  list of the fields in their order. A field that is missing is an error, unless it is an \<open>Option\<close> or has a default.
\<close>

fun struct_fields :: "string list \<Rightarrow> stored_json \<Rightarrow> (string \<rightharpoonup> stored_json) option" where
  "struct_fields names (JsonObject fields) =
     (if distinct (filter (\<lambda>name. name \<in> set names) (map fst fields)) then Some (map_of fields) else None)"
| "struct_fields names (JsonList values) =
     (if length values \<le> length names then Some (map_of (zip names values)) else None)"
| "struct_fields names _ = None"

definition field_required :: "(stored_json \<Rightarrow> 'a option) \<Rightarrow> stored_json option \<Rightarrow> 'a option" where
  "field_required read v = Option.bind v read"

definition field_or :: "'a \<Rightarrow> (stored_json \<Rightarrow> 'a option) \<Rightarrow> stored_json option \<Rightarrow> 'a option" where
  "field_or absent read v = (case v of None \<Rightarrow> Some absent | Some v \<Rightarrow> read v)"

text \<open>The list a metadata value holds: none when the key is missing or its value empty.\<close>

fun list_of_payload :: "(stored_json \<Rightarrow> 'a option) \<Rightarrow> stored_text option \<Rightarrow> 'a list option" where
  "list_of_payload read None = Some []"
| "list_of_payload read (Some EmptyText) = Some []"
| "list_of_payload read (Some (Spells (JsonList values))) = those (map read values)"
| "list_of_payload read _ = None"

section \<open>What reads back\<close>

lemma read_u64_written [simp]: "read_u64 (json_of_u64 n) = Some n"
proof -
  have "uint n < 2 ^ LENGTH(64)" by (rule unsigned_less)
  then show ?thesis by (simp add: json_of_u64_def)
qed

lemma read_option_not_null: "v \<noteq> JsonNull \<Longrightarrow> read_option read v = map_option Some (read v)"
  by (cases v) simp_all

lemma read_option_written:
  assumes "\<And>a. write a \<noteq> JsonNull" and "\<And>a. read (write a) = Some a"
  shows "read_option read (json_of_option write x) = Some x"
  using assms by (cases x) (simp_all add: read_option_not_null)

lemma json_of_u64_not_null [simp]: "json_of_u64 n \<noteq> JsonNull"
  by (simp add: json_of_u64_def)

lemma read_option_u64_written [simp]: "read_option read_u64 (json_of_option json_of_u64 x) = Some x"
  by (rule read_option_written) simp_all

lemma those_written: "(\<And>a. a \<in> set as \<Longrightarrow> read (write a) = Some (f a)) \<Longrightarrow> those (map (read \<circ> write) as) = Some (map f as)"
  by (induction as) auto

lemma unreadable_list: "v \<in> set vs \<Longrightarrow> read v = None \<Longrightarrow> those (map read vs) = None"
  by (induction vs) (auto split: option.split)

end
