(* ===== verification/Position_State.thy ===== *)
theory Position_State
  imports Position_Types Stored_Json "HOL-Library.AList"
begin

text \<open>
  \<^verbatim>\<open>positions/state.rs\<close> and \<^verbatim>\<open>positions/state_pending.rs\<close>: the positions in memory with their indexes, the slots
  that bound how many may be open, the swaps in flight, and the rows, records and metadata of the database they
  are mirrored in. Times are nanoseconds; the clock and the configuration are arguments. A lock is held for one
  operation, so each operation is one step.
\<close>

section \<open>The state\<close>

record pending_partial_exit =
  pp_signature :: string
  pp_mint :: string
  pp_position_id :: i64
  pp_expected_exit_amount :: u64
  pp_requested_exit_percentage :: f64
  pp_expiry_height :: "u64 option"
  pp_created_at :: int

record pending_dca_swap =
  pd_signature :: string
  pd_mint :: string
  pd_position_id :: i64
  pd_expiry_height :: "u64 option"
  pd_created_at :: int
  pd_size_sol :: f64

record exit_record =
  xr_position_id :: i64
  xr_timestamp :: int
  xr_amount :: u64
  xr_price :: f64
  xr_sol_received :: f64
  xr_transaction_signature :: string
  xr_is_partial :: bool
  xr_percentage :: f64
  xr_fees_lamports :: "u64 option"

record entry_record =
  er_position_id :: i64
  er_timestamp :: int
  er_amount :: u64
  er_price :: f64
  er_sol_spent :: f64
  er_transaction_signature :: string
  er_is_dca :: bool
  er_fees_lamports :: "u64 option"

record position_store =
  st_positions :: "position list"
  st_signatures :: "string \<rightharpoonup> string"
  st_mints :: "string \<rightharpoonup> nat"
  st_pending_open :: "string \<rightharpoonup> int"
  st_permits :: nat
  st_slots :: "i64 set"
  st_partial_counts :: "string \<rightharpoonup> u32"
  st_partials :: "(string \<times> pending_partial_exit) list"
  st_dcas :: "(string \<times> pending_dca_swap) list"
  st_saved_partials :: "stored_text option"
  st_saved_dcas :: "stored_text option"
  st_rows :: "i64 \<rightharpoonup> position"
  st_exits :: "exit_record list"
  st_entries :: "entry_record list"

datatype position_error = NotFoundById i64 | TransitionFailed string string | SlotUnavailable nat | DatabaseFailed
  | RowDecode string

section \<open>Positions and their indexes\<close>

definition optional_index :: "string option \<Rightarrow> string \<Rightarrow> (string \<rightharpoonup> string) \<Rightarrow> string \<rightharpoonup> string" where
  "optional_index signature mint m = (case signature of None \<Rightarrow> m | Some s \<Rightarrow> m(s \<mapsto> mint))"

definition add_position :: "position \<Rightarrow> position_store \<Rightarrow> nat \<times> position_store" where
  "add_position p s =
     (let index = length (st_positions s)
      in (index, s\<lparr>st_positions := st_positions s @ [p],
            st_signatures := optional_index (po_exit_transaction_signature p) (po_mint p)
              (optional_index (po_entry_transaction_signature p) (po_mint p) (st_signatures s)),
            st_mints := (st_mints s)(po_mint p \<mapsto> index),
            st_pending_open := (st_pending_open s)(po_mint p := None)\<rparr>))"

text \<open>\<^verbatim>\<open>iter_mut().find(..)\<close> and the update of what it found.\<close>

fun update_first :: "(position \<Rightarrow> bool) \<Rightarrow> (position \<Rightarrow> position) \<Rightarrow> position list \<Rightarrow> bool \<times> position list" where
  "update_first P f [] = (False, [])"
| "update_first P f (p # ps) =
     (if P p then (True, f p # ps) else (let (updated, ps) = update_first P f ps in (updated, p # ps)))"

definition update_position_state :: "string \<Rightarrow> (position \<Rightarrow> position) \<Rightarrow> position_store \<Rightarrow> bool \<times> position_store" where
  "update_position_state mint f s =
     (let (updated, ps) = update_first (\<lambda>p. po_mint p = mint) f (st_positions s) in (updated, s\<lparr>st_positions := ps\<rparr>))"

definition update_position_state_by_id :: "i64 \<Rightarrow> (position \<Rightarrow> position) \<Rightarrow> position_store \<Rightarrow> bool \<times> position_store" where
  "update_position_state_by_id i f s =
     (let (updated, ps) = update_first (\<lambda>p. po_id p = Some i) f (st_positions s) in (updated, s\<lparr>st_positions := ps\<rparr>))"

definition get_position_by_id :: "i64 \<Rightarrow> position_store \<Rightarrow> position option" where
  "get_position_by_id i s = find (\<lambda>p. po_id p = Some i) (st_positions s)"

definition remove_all_signatures_for_mint :: "string \<Rightarrow> (string \<rightharpoonup> string) \<Rightarrow> string \<rightharpoonup> string" where
  "remove_all_signatures_for_mint mint m = (\<lambda>signature. if m signature = Some mint then None else m signature)"

fun index_from :: "nat \<Rightarrow> position list \<Rightarrow> (string \<rightharpoonup> nat) \<Rightarrow> string \<rightharpoonup> nat" where
  "index_from n [] m = m"
| "index_from n (p # ps) m = index_from (Suc n) ps (m(po_mint p \<mapsto> n))"

definition rebuild_position_indexes :: "position list \<Rightarrow> string \<rightharpoonup> nat" where
  "rebuild_position_indexes ps = index_from 0 ps Map.empty"

fun remove_first :: "(position \<Rightarrow> bool) \<Rightarrow> position list \<Rightarrow> (position \<times> position list) option" where
  "remove_first P [] = None"
| "remove_first P (p # ps) =
     (if P p then Some (p, ps) else map_option (\<lambda>(q, ps). (q, p # ps)) (remove_first P ps))"

definition removed_from :: "(position \<Rightarrow> bool) \<Rightarrow> position_store \<Rightarrow> position option \<times> position_store" where
  "removed_from P s = (case remove_first P (st_positions s) of
       None \<Rightarrow> (None, s)
     | Some (p, ps) \<Rightarrow> (Some p, s\<lparr>st_positions := ps,
           st_signatures := remove_all_signatures_for_mint (po_mint p) (st_signatures s),
           st_mints := rebuild_position_indexes ps, st_pending_open := (st_pending_open s)(po_mint p := None)\<rparr>))"

definition remove_position :: "string \<Rightarrow> position_store \<Rightarrow> position option \<times> position_store" where
  "remove_position mint = removed_from (\<lambda>p. po_mint p = mint)"

definition remove_position_by_id :: "i64 \<Rightarrow> position_store \<Rightarrow> position option \<times> position_store" where
  "remove_position_by_id i = removed_from (\<lambda>p. po_id p = Some i)"

definition set_position_archived_in_memory :: "int \<Rightarrow> i64 \<Rightarrow> bool \<Rightarrow> position_store \<Rightarrow> bool \<times> position_store" where
  "set_position_archived_in_memory now i archived = update_position_state_by_id i
     (\<lambda>p. p\<lparr>po_archived := archived, po_archived_at := (if archived then Some now else None)\<rparr>)"

definition set_position_management_in_memory :: "i64 \<Rightarrow> position_management \<Rightarrow> position_store \<Rightarrow> bool \<times> position_store" where
  "set_position_management_in_memory i management = update_position_state_by_id i (\<lambda>p. p\<lparr>po_management := management\<rparr>)"

definition is_position_open :: "position \<Rightarrow> bool" where
  "is_position_open p \<longleftrightarrow> \<not> po_archived p \<and> po_position_type p = ''buy'' \<and> po_exit_time p = None
     \<and> (po_exit_transaction_signature p = None \<or> \<not> po_transaction_exit_verified p)"

definition get_position_by_mint :: "string \<Rightarrow> position_store \<Rightarrow> position option" where
  "get_position_by_mint mint s = find (\<lambda>p. po_mint p = mint \<and> is_position_open p) (st_positions s)"

definition get_open_positions :: "position_store \<Rightarrow> position list" where
  "get_open_positions s = filter is_position_open (st_positions s)"

definition get_closed_positions :: "position_store \<Rightarrow> position list" where
  "get_closed_positions s = filter (\<lambda>p. \<not> po_archived p \<and> po_transaction_exit_verified p) (st_positions s)"

definition get_archived_positions :: "position_store \<Rightarrow> position list" where
  "get_archived_positions s = filter po_archived (st_positions s)"

definition get_capacity_consuming_positions :: "position_store \<Rightarrow> position list" where
  "get_capacity_consuming_positions s = filter (\<lambda>p. is_position_open p \<and> \<not> is_wallet_derived p) (st_positions s)"

definition get_open_positions_count :: "position_store \<Rightarrow> nat" where
  "get_open_positions_count s = length (get_open_positions s)"

definition get_open_mints :: "position_store \<Rightarrow> string list" where
  "get_open_mints s = map po_mint (get_open_positions s)"

definition get_position_index_by_mint :: "string \<Rightarrow> position_store \<Rightarrow> nat option" where
  "get_position_index_by_mint mint s = st_mints s mint"

definition get_mint_by_signature :: "string \<Rightarrow> position_store \<Rightarrow> string option" where
  "get_mint_by_signature signature s = st_signatures s signature"

definition add_signature_to_index :: "string \<Rightarrow> string \<Rightarrow> position_store \<Rightarrow> position_store" where
  "add_signature_to_index signature mint s = s\<lparr>st_signatures := (st_signatures s)(signature \<mapsto> mint)\<rparr>"

definition remove_signature_from_index :: "string \<Rightarrow> position_store \<Rightarrow> position_store" where
  "remove_signature_from_index signature s = s\<lparr>st_signatures := (st_signatures s)(signature := None)\<rparr>"

definition PENDING_OPEN_TTL_SECS :: i64 where "PENDING_OPEN_TTL_SECS = 120"

definition set_pending_open :: "int \<Rightarrow> string \<Rightarrow> i64 \<Rightarrow> position_store \<Rightarrow> position_store" where
  "set_pending_open now mint ttl_secs s = s\<lparr>st_pending_open := (st_pending_open s)(mint \<mapsto> now + ttl_secs * 1000000000)\<rparr>"

definition clear_pending_open :: "string \<Rightarrow> position_store \<Rightarrow> position_store" where
  "clear_pending_open mint s = s\<lparr>st_pending_open := (st_pending_open s)(mint := None)\<rparr>"

definition is_open_position :: "int \<Rightarrow> string \<Rightarrow> position_store \<Rightarrow> bool \<times> position_store" where
  "is_open_position now mint s =
     (if list_ex (\<lambda>p. po_mint p = mint \<and> is_position_open p) (st_positions s) then (True, s)
      else let is_pending = (case st_pending_open s mint of None \<Rightarrow> False | Some expires \<Rightarrow> now < expires)
        in (is_pending, s\<lparr>st_pending_open := (\<lambda>m. case st_pending_open s m of
             None \<Rightarrow> None | Some expires \<Rightarrow> if expires \<le> now then None else Some expires)\<rparr>))"

definition is_token_in_cooldown :: "int \<Rightarrow> i64 \<Rightarrow> string \<Rightarrow> position_store \<Rightarrow> bool" where
  "is_token_in_cooldown now cooldown_minutes mint s =
     (let cutoff = now - cooldown_minutes * 60000000000
      in list_ex (\<lambda>p. po_mint p = mint \<and> po_transaction_exit_verified p
           \<and> (case po_exit_time p of None \<Rightarrow> False | Some exit_time \<Rightarrow> cutoff < exit_time)) (st_positions s))"

section \<open>Slots\<close>

definition acquire_global_position_permit :: "position_store \<Rightarrow> (position_error + unit) \<times> position_store" where
  "acquire_global_position_permit s =
     (if 0 < st_permits s then (Inr (), s\<lparr>st_permits := st_permits s - 1\<rparr>) else (Inl (SlotUnavailable (st_permits s)), s))"

definition release_global_position_permit :: "position_store \<Rightarrow> position_store" where
  "release_global_position_permit s = s\<lparr>st_permits := st_permits s + 1\<rparr>"

definition register_position_slot :: "i64 \<Rightarrow> position_store \<Rightarrow> position_store" where
  "register_position_slot i s = s\<lparr>st_slots := insert i (st_slots s)\<rparr>"

definition release_position_slot :: "i64 \<Rightarrow> position_store \<Rightarrow> position_store" where
  "release_position_slot i s =
     (if i \<in> st_slots s then release_global_position_permit (s\<lparr>st_slots := st_slots s - {i}\<rparr>) else s)"

definition rebuild_position_slot_holders :: "position_store \<Rightarrow> position_store" where
  "rebuild_position_slot_holders s = s\<lparr>st_slots := set (List.map_filter po_id (get_capacity_consuming_positions s))\<rparr>"

definition try_consume_global_position_permit :: "position_store \<Rightarrow> bool \<times> position_store" where
  "try_consume_global_position_permit s =
     (if 0 < st_permits s then (True, s\<lparr>st_permits := st_permits s - 1\<rparr>) else (False, s))"

text \<open>Called at startup, with a semaphore of at most \<open>max_open\<close> permits.\<close>

definition reconcile_global_position_semaphore :: "nat \<Rightarrow> position_store \<Rightarrow> position_store" where
  "reconcile_global_position_semaphore max_open s =
     (let open_count = length (get_capacity_consuming_positions s);
          consumed_before = max_open - st_permits s
      in if open_count < consumed_before then s\<lparr>st_permits := st_permits s + (consumed_before - open_count)\<rparr>
         else s\<lparr>st_permits := st_permits s - open_count\<rparr>)"

section \<open>Swaps in flight\<close>

text \<open>
  The two registries are stored as JSON, each under its own metadata key. \<open>ok\<close> is whether the metadata is written, or read.
\<close>

definition json_of_partial :: "pending_partial_exit \<Rightarrow> stored_json" where
  "json_of_partial entry = JsonObject
     [(''signature'', JsonText (pp_signature entry)), (''mint'', JsonText (pp_mint entry)),
      (''position_id'', JsonInt (pp_position_id entry)),
      (''expected_exit_amount'', json_of_u64 (pp_expected_exit_amount entry)),
      (''requested_exit_percentage'', json_of_f64 (pp_requested_exit_percentage entry)),
      (''expiry_height'', json_of_option json_of_u64 (pp_expiry_height entry)),
      (''created_at'', JsonTime (pp_created_at entry))]"

definition json_of_dca :: "pending_dca_swap \<Rightarrow> stored_json" where
  "json_of_dca entry = JsonObject
     [(''signature'', JsonText (pd_signature entry)), (''mint'', JsonText (pd_mint entry)),
      (''position_id'', JsonInt (pd_position_id entry)),
      (''expiry_height'', json_of_option json_of_u64 (pd_expiry_height entry)),
      (''created_at'', JsonTime (pd_created_at entry)), (''size_sol'', json_of_f64 (pd_size_sol entry))]"

definition partial_of_json :: "(rat \<Rightarrow> f64 option) \<Rightarrow> stored_json \<Rightarrow> pending_partial_exit option" where
  "partial_of_json read_f64 v = do {
     fields \<leftarrow> struct_fields [''signature'', ''mint'', ''position_id'', ''expected_exit_amount'', ''requested_exit_percentage'',
       ''expiry_height'', ''created_at''] v;
     signature \<leftarrow> field_required read_text (fields ''signature'');
     mint \<leftarrow> field_required read_text (fields ''mint'');
     position_id \<leftarrow> field_required read_i64 (fields ''position_id'');
     expected_exit_amount \<leftarrow> field_required read_u64 (fields ''expected_exit_amount'');
     requested_exit_percentage \<leftarrow> field_required (read_float read_f64) (fields ''requested_exit_percentage'');
     expiry_height \<leftarrow> field_or None (read_option read_u64) (fields ''expiry_height'');
     created_at \<leftarrow> field_required read_time (fields ''created_at'');
     Some \<lparr>pp_signature = signature, pp_mint = mint, pp_position_id = position_id,
       pp_expected_exit_amount = expected_exit_amount, pp_requested_exit_percentage = requested_exit_percentage,
       pp_expiry_height = expiry_height, pp_created_at = created_at\<rparr>
   }"

definition dca_of_json :: "(rat \<Rightarrow> f64 option) \<Rightarrow> stored_json \<Rightarrow> pending_dca_swap option" where
  "dca_of_json read_f64 v = do {
     fields \<leftarrow> struct_fields [''signature'', ''mint'', ''position_id'', ''expiry_height'', ''created_at'', ''size_sol''] v;
     signature \<leftarrow> field_required read_text (fields ''signature'');
     mint \<leftarrow> field_required read_text (fields ''mint'');
     position_id \<leftarrow> field_required read_i64 (fields ''position_id'');
     expiry_height \<leftarrow> field_or None (read_option read_u64) (fields ''expiry_height'');
     created_at \<leftarrow> field_required read_time (fields ''created_at'');
     size_sol \<leftarrow> field_or (Finite 0) (read_float read_f64) (fields ''size_sol'');
     Some \<lparr>pd_signature = signature, pd_mint = mint, pd_position_id = position_id, pd_expiry_height = expiry_height,
       pd_created_at = created_at, pd_size_sol = size_sol\<rparr>
   }"

definition mark_partial_exit_pending :: "string \<Rightarrow> position_store \<Rightarrow> position_store" where
  "mark_partial_exit_pending mint s = s\<lparr>st_partial_counts := (st_partial_counts s)
     (mint \<mapsto> saturating_add (case st_partial_counts s mint of None \<Rightarrow> 0 | Some n \<Rightarrow> n) 1)\<rparr>"

definition clear_partial_exit_pending :: "string \<Rightarrow> position_store \<Rightarrow> position_store" where
  "clear_partial_exit_pending mint s = (case st_partial_counts s mint of
       None \<Rightarrow> s
     | Some n \<Rightarrow> s\<lparr>st_partial_counts := (st_partial_counts s)(mint := (if 1 < n then Some (n - 1) else None))\<rparr>)"

definition is_partial_exit_pending :: "string \<Rightarrow> position_store \<Rightarrow> bool" where
  "is_partial_exit_pending mint s = (case st_partial_counts s mint of None \<Rightarrow> False | Some n \<Rightarrow> 0 < n)"

definition persist_pending_partial_exits :: "bool \<Rightarrow> position_store \<Rightarrow> (position_error + unit) \<times> position_store" where
  "persist_pending_partial_exits ok s =
     (if ok then (Inr (), s\<lparr>st_saved_partials := Some (Spells (JsonList (map (json_of_partial \<circ> snd) (st_partials s))))\<rparr>) else (Inl DatabaseFailed, s))"

definition persist_pending_dca_swaps :: "bool \<Rightarrow> position_store \<Rightarrow> (position_error + unit) \<times> position_store" where
  "persist_pending_dca_swaps ok s =
     (if ok then (Inr (), s\<lparr>st_saved_dcas := Some (Spells (JsonList (map (json_of_dca \<circ> snd) (st_dcas s))))\<rparr>) else (Inl DatabaseFailed, s))"

definition clear_pending_partial_exits_for_mint :: "bool \<Rightarrow> string \<Rightarrow> position_store \<Rightarrow> (position_error + unit) \<times> position_store" where
  "clear_pending_partial_exits_for_mint ok mint s =
     (let removed = filter (\<lambda>(_, entry). pp_mint entry = mint) (st_partials s);
          s = s\<lparr>st_partials := filter (\<lambda>(_, entry). pp_mint entry \<noteq> mint) (st_partials s),
                st_partial_counts := (st_partial_counts s)(mint := None)\<rparr>
      in if removed = [] then (Inr (), s) else persist_pending_partial_exits ok s)"

definition register_pending_dca_swap :: "bool \<Rightarrow> pending_dca_swap \<Rightarrow> position_store \<Rightarrow> (position_error + unit) \<times> position_store" where
  "register_pending_dca_swap ok entry s =
     (let s = s\<lparr>st_dcas := AList.update (pd_signature entry) entry (st_dcas s)\<rparr>
      in case persist_pending_dca_swaps ok s of
           (Inr _, s) \<Rightarrow> (Inr (), s)
         | (Inl e, s) \<Rightarrow> (Inl e, s\<lparr>st_dcas := AList.delete (pd_signature entry) (st_dcas s)\<rparr>))"

definition clear_pending_dca_swap :: "bool \<Rightarrow> string \<Rightarrow> position_store \<Rightarrow> (position_error + pending_dca_swap option) \<times> position_store" where
  "clear_pending_dca_swap ok signature s = (case map_of (st_dcas s) signature of
       None \<Rightarrow> (Inr None, s)
     | Some entry \<Rightarrow> (case persist_pending_dca_swaps ok (s\<lparr>st_dcas := AList.delete signature (st_dcas s)\<rparr>) of
           (Inr _, s) \<Rightarrow> (Inr (Some entry), s)
         | (Inl e, s) \<Rightarrow> (Inl e, s\<lparr>st_dcas := AList.update (pd_signature entry) entry (st_dcas s)\<rparr>)))"

definition get_pending_dca_swaps_for_mint :: "string \<Rightarrow> position_store \<Rightarrow> pending_dca_swap list" where
  "get_pending_dca_swaps_for_mint mint s = filter (\<lambda>entry. pd_mint entry = mint) (map snd (st_dcas s))"

definition rehydrate_pending_dca_swaps :: "(rat \<Rightarrow> f64 option) \<Rightarrow> bool \<Rightarrow> position_store
    \<Rightarrow> (position_error + pending_dca_swap list) \<times> position_store" where
  "rehydrate_pending_dca_swaps read_f64 ok s =
     (if \<not> ok then (Inl DatabaseFailed, s)
      else case list_of_payload (dca_of_json read_f64) (st_saved_dcas s) of
          None \<Rightarrow> (Inl (RowDecode ''pending_dca_metadata''), s)
        | Some entries \<Rightarrow>
            (Inr entries, s\<lparr>st_dcas := fold (\<lambda>entry. AList.update (pd_signature entry) entry) entries []\<rparr>))"

definition register_pending_partial_exit :: "bool \<Rightarrow> pending_partial_exit \<Rightarrow> position_store \<Rightarrow> (position_error + unit) \<times> position_store" where
  "register_pending_partial_exit ok entry s =
     (let s = s\<lparr>st_partials := AList.update (pp_signature entry) entry (st_partials s)\<rparr>
      in case persist_pending_partial_exits ok s of
           (Inr _, s) \<Rightarrow> (Inr (), s)
         | (Inl e, s) \<Rightarrow> (Inl e, s\<lparr>st_partials := AList.delete (pp_signature entry) (st_partials s)\<rparr>))"

definition clear_pending_partial_exit :: "bool \<Rightarrow> string \<Rightarrow> position_store \<Rightarrow> (position_error + pending_partial_exit option) \<times> position_store" where
  "clear_pending_partial_exit ok signature s = (case map_of (st_partials s) signature of
       None \<Rightarrow> (Inr None, s)
     | Some entry \<Rightarrow> (case persist_pending_partial_exits ok (s\<lparr>st_partials := AList.delete signature (st_partials s)\<rparr>) of
           (Inr _, s) \<Rightarrow> (Inr (Some entry), s)
         | (Inl e, s) \<Rightarrow> (Inl e, s\<lparr>st_partials := AList.update (pp_signature entry) entry (st_partials s)\<rparr>)))"

definition get_pending_partial_exit :: "string \<Rightarrow> position_store \<Rightarrow> pending_partial_exit option" where
  "get_pending_partial_exit signature s = map_of (st_partials s) signature"

definition get_pending_partial_exits_for_mint :: "string \<Rightarrow> position_store \<Rightarrow> pending_partial_exit list" where
  "get_pending_partial_exits_for_mint mint s = filter (\<lambda>entry. pp_mint entry = mint) (map snd (st_partials s))"

definition mints_with_pending_swaps :: "position_store \<Rightarrow> string set" where
  "mints_with_pending_swaps s = {mint. is_partial_exit_pending mint s} \<union> set (map (pd_mint \<circ> snd) (st_dcas s))"

definition rehydrate_pending_partial_exits :: "(rat \<Rightarrow> f64 option) \<Rightarrow> bool \<Rightarrow> position_store
    \<Rightarrow> (position_error + pending_partial_exit list) \<times> position_store" where
  "rehydrate_pending_partial_exits read_f64 ok s =
     (if \<not> ok then (Inl DatabaseFailed, s)
      else case list_of_payload (partial_of_json read_f64) (st_saved_partials s) of
          None \<Rightarrow> (Inl (RowDecode ''pending_partial_exit_metadata''), s)
        | Some entries \<Rightarrow>
            (Inr entries, fold (\<lambda>entry s. mark_partial_exit_pending (pp_mint entry) s) entries
               (s\<lparr>st_partials := fold (\<lambda>entry. AList.update (pp_signature entry) entry) entries [],
                  st_partial_counts := Map.empty\<rparr>)))"

section \<open>The database\<close>

text \<open>\<open>ok\<close> is whether the statement is executed. The update of a row leaves provenance, ownership and archival alone.\<close>

definition stored_row :: "position \<Rightarrow> position \<Rightarrow> position" where
  "stored_row old p = p\<lparr>po_origin := po_origin old, po_management := po_management old, po_archived := po_archived old,
     po_archived_at := po_archived_at old, po_phantom_remove := po_phantom_remove old\<rparr>"

definition update_position :: "bool \<Rightarrow> position \<Rightarrow> position_store \<Rightarrow> (position_error + unit) \<times> position_store" where
  "update_position ok p s = (case po_id p of
       None \<Rightarrow> (Inl (TransitionFailed ''update'' (po_mint p)), s)
     | Some i \<Rightarrow> if \<not> ok then (Inl DatabaseFailed, s)
         else case st_rows s i of
             None \<Rightarrow> (Inl (NotFoundById i), s)
           | Some old \<Rightarrow> (Inr (), s\<lparr>st_rows := (st_rows s)(i \<mapsto> stored_row old p)\<rparr>))"

definition update_position_price_fields :: "bool \<Rightarrow> position \<Rightarrow> position_store \<Rightarrow> (position_error + unit) \<times> position_store" where
  "update_position_price_fields ok p s = (case po_id p of
       None \<Rightarrow> (Inl (TransitionFailed ''update_price_fields'' (po_mint p)), s)
     | Some i \<Rightarrow> if \<not> ok then (Inl DatabaseFailed, s)
         else case st_rows s i of
             None \<Rightarrow> (Inl (NotFoundById i), s)
           | Some old \<Rightarrow> (Inr (), s\<lparr>st_rows := (st_rows s)(i \<mapsto>
               old\<lparr>po_current_price := po_current_price p, po_current_price_updated := po_current_price_updated p,
                   po_price_highest := po_price_highest p, po_price_lowest := po_price_lowest p\<rparr>)\<rparr>))"

definition has_exit_record :: "i64 \<Rightarrow> string \<Rightarrow> position_store \<Rightarrow> bool" where
  "has_exit_record i signature s = list_ex (\<lambda>r. xr_position_id r = i \<and> xr_transaction_signature r = signature) (st_exits s)"

definition exit_record_exists :: "bool \<Rightarrow> i64 \<Rightarrow> string \<Rightarrow> position_store \<Rightarrow> bool" where
  "exit_record_exists ok i signature s \<longleftrightarrow> ok \<and> has_exit_record i signature s"

definition save_exit_record :: "bool \<Rightarrow> exit_record \<Rightarrow> position_store \<Rightarrow> (position_error + unit) \<times> position_store" where
  "save_exit_record ok r s =
     (if \<not> ok then (Inl DatabaseFailed, s)
      else if has_exit_record (xr_position_id r) (xr_transaction_signature r) s then (Inr (), s)
      else (Inr (), s\<lparr>st_exits := st_exits s @ [r]\<rparr>))"

definition save_entry_record :: "bool \<Rightarrow> entry_record \<Rightarrow> position_store \<Rightarrow> (position_error + unit) \<times> position_store" where
  "save_entry_record ok r s =
     (if \<not> ok then (Inl DatabaseFailed, s)
      else if list_ex (\<lambda>x. er_position_id x = er_position_id r \<and> er_transaction_signature x = er_transaction_signature r) (st_entries s)
        then (Inr (), s)
      else (Inr (), s\<lparr>st_entries := st_entries s @ [r]\<rparr>))"

end
