(* ===== verification/Position_Pnl.thy ===== *)
theory Position_Pnl
  imports Position_State F64
begin

text \<open>
  \<^verbatim>\<open>positions/pnl.rs\<close>, and what \<^verbatim>\<open>positions/loss_detection.rs\<close> and \<^verbatim>\<open>trader/safety/loss_limit.rs\<close> make of a closed position.
  The decimals of a token come from the token store, \<^verbatim>\<open>powi\<close> is a parameter as in the ledger.
\<close>

section \<open>Profit and loss\<close>

record pnl_env =
  pe_decimals :: "string \<Rightarrow> u8 option"
  pe_pow10 :: "u8 \<Rightarrow> f64"
  pe_raw_units_per_native :: u64

definition f64_is_finite :: "f64 \<Rightarrow> bool" where
  "f64_is_finite x = (case x of Finite _ \<Rightarrow> True | _ \<Rightarrow> False)"

definition zero :: f64 where "zero = Finite 0"

definition percent :: f64 where "percent = Finite 100"

definition raw_to_native :: "pnl_env \<Rightarrow> u64 \<Rightarrow> f64" where
  "raw_to_native env raw = f64_div (f64_of_u64 raw) (f64_of_u64 (pe_raw_units_per_native env))"

definition fee_sol :: "pnl_env \<Rightarrow> u64 option \<Rightarrow> f64" where
  "fee_sol env fee = (case fee of None \<Rightarrow> zero | Some fee \<Rightarrow> raw_to_native env fee)"

definition ui_amount :: "pnl_env \<Rightarrow> u64 \<Rightarrow> u8 \<Rightarrow> f64" where
  "ui_amount env amount decimals = f64_div (f64_of_u64 amount) (pe_pow10 env decimals)"

text \<open>The price the position was entered at, the average of its purchases if there is a usable one.\<close>

definition pnl_entry_price :: "position \<Rightarrow> f64" where
  "pnl_entry_price p =
     (if f64_less zero (po_average_entry_price p) \<and> f64_is_finite (po_average_entry_price p) then po_average_entry_price p
      else unwrap_or (po_effective_entry_price p) (po_entry_price p))"

definition unusable_price :: "f64 \<Rightarrow> bool" where
  "unusable_price x \<longleftrightarrow> f64_le x zero \<or> \<not> f64_is_finite x"

text \<open>The estimate from the change of the price, less the fees as a share of the cost.\<close>

definition pnl_from_change :: "f64 \<Rightarrow> f64 \<Rightarrow> f64 \<Rightarrow> f64 \<times> f64" where
  "pnl_from_change price_change total_fees cost =
     (let fee_percent = f64_mul (f64_div total_fees cost) percent;
          net_pnl_percent = f64_sub (f64_mul price_change percent) fee_percent
      in (f64_mul (f64_div net_pnl_percent percent) cost, net_pnl_percent))"

definition pnl_of_value :: "f64 \<Rightarrow> f64 \<Rightarrow> f64 \<Rightarrow> f64 \<Rightarrow> f64 \<times> f64" where
  "pnl_of_value value realized cost total_fees =
     (let net_pnl_sol = f64_sub (f64_sub (f64_add value realized) cost) total_fees
      in (net_pnl_sol, f64_mul (f64_div net_pnl_sol cost) percent))"

text \<open>A close that is still confirming, at the current price.\<close>

definition pnl_closing :: "pnl_env \<Rightarrow> position \<Rightarrow> f64 \<Rightarrow> f64 \<times> f64" where
  "pnl_closing env p current =
     (let entry_price = unwrap_or (po_effective_entry_price p) (po_entry_price p);
          entry_cost = po_total_size_sol p;
          realized_sol = unwrap_or (po_sol_received p) zero;
          buy_fee = fee_sol env (po_entry_fee_lamports p);
          total_fees = f64_add buy_fee buy_fee;
          fallback = pnl_from_change (f64_div (f64_sub current entry_price) entry_price) total_fees entry_cost
      in case or_else (po_remaining_token_amount p) (po_token_amount p) of
           None \<Rightarrow> fallback
         | Some token_amount \<Rightarrow> (case pe_decimals env (po_mint p) of
               None \<Rightarrow> fallback
             | Some decimals \<Rightarrow>
                 pnl_of_value (f64_mul (ui_amount env token_amount decimals) current) realized_sol entry_cost total_fees))"

definition least_investment :: f64 where "least_investment = f64_of_rat (1 / 100000)"

definition pnl_realized :: "pnl_env \<Rightarrow> position \<Rightarrow> f64 \<Rightarrow> f64 \<times> f64" where
  "pnl_realized env p sol_received =
     (let sol_invested = po_total_size_sol p;
          total_fees = f64_add (fee_sol env (po_entry_fee_lamports p)) (fee_sol env (po_exit_fee_lamports p));
          net_pnl_sol = f64_sub (f64_sub sol_received sol_invested) total_fees;
          safe_invested = (if f64_less sol_invested least_investment then least_investment else sol_invested)
      in (net_pnl_sol, f64_mul (f64_div net_pnl_sol safe_invested) percent))"

text \<open>A closed position that predates \<^verbatim>\<open>sol_received\<close>.\<close>

definition pnl_legacy_closed :: "pnl_env \<Rightarrow> position \<Rightarrow> f64 \<Rightarrow> f64 \<times> f64" where
  "pnl_legacy_closed env p exit_price =
     (let entry_price = unwrap_or (po_effective_entry_price p) (po_entry_price p);
          effective_exit = unwrap_or (po_effective_exit_price p) exit_price;
          total_fees = f64_add (fee_sol env (po_entry_fee_lamports p)) (fee_sol env (po_exit_fee_lamports p));
          entry_cost = po_entry_size_sol p
      in case po_token_amount p of
           Some token_amount \<Rightarrow> (case pe_decimals env (po_mint p) of
               None \<Rightarrow> (zero, zero)
             | Some decimals \<Rightarrow>
                 let net_pnl_sol = f64_sub (f64_sub (f64_mul (ui_amount env token_amount decimals) effective_exit) entry_cost) total_fees
                 in (net_pnl_sol, f64_mul (f64_div net_pnl_sol entry_cost) percent))
         | None \<Rightarrow> pnl_from_change (f64_div (f64_sub effective_exit entry_price) entry_price) total_fees entry_cost)"

definition pnl_open :: "pnl_env \<Rightarrow> position \<Rightarrow> f64 \<Rightarrow> f64 \<Rightarrow> f64 \<times> f64" where
  "pnl_open env p entry_price current =
     (let buy_fee = fee_sol env (po_entry_fee_lamports p);
          total_fees = f64_add buy_fee buy_fee
      in case or_else (po_remaining_token_amount p) (po_token_amount p) of
           Some token_amount \<Rightarrow> (case pe_decimals env (po_mint p) of
               None \<Rightarrow> (zero, zero)
             | Some decimals \<Rightarrow>
                 pnl_of_value (f64_mul (ui_amount env token_amount decimals) current) (unwrap_or (po_sol_received p) zero)
                   (po_total_size_sol p) total_fees)
         | None \<Rightarrow> pnl_from_change (f64_div (f64_sub current entry_price) entry_price) total_fees (po_entry_size_sol p))"

definition calculate_position_pnl :: "pnl_env \<Rightarrow> position \<Rightarrow> f64 option \<Rightarrow> f64 \<times> f64" where
  "calculate_position_pnl env p current_price =
     (let entry_price = pnl_entry_price p
      in if unusable_price entry_price then (zero, zero)
      else if (case current_price of None \<Rightarrow> False | Some current \<Rightarrow> unusable_price current) then (zero, zero)
      else case (if po_exit_transaction_signature p \<noteq> None \<and> \<not> po_transaction_exit_verified p then current_price else None) of
          Some current \<Rightarrow> pnl_closing env p current
        | None \<Rightarrow>
            let is_closed = (po_exit_time p \<noteq> None)
            in case (is_closed, po_exit_price p, po_sol_received p) of
                 (True, Some _, Some sol_received) \<Rightarrow> pnl_realized env p sol_received
               | (True, Some exit_price, None) \<Rightarrow> pnl_legacy_closed env p exit_price
               | _ \<Rightarrow> (case current_price of
                     Some current \<Rightarrow> pnl_open env p entry_price current
                   | None \<Rightarrow> (zero, zero)))"

definition calculate_position_total_fees :: "pnl_env \<Rightarrow> position \<Rightarrow> f64" where
  "calculate_position_total_fees env p =
     f64_add (raw_to_native env (unwrap_or (po_entry_fee_lamports p) 0)) (raw_to_native env (unwrap_or (po_exit_fee_lamports p) 0))"

definition calculate_position_pnl_safe :: "pnl_env \<Rightarrow> position \<Rightarrow> f64 option \<Rightarrow> (f64 \<times> f64) option" where
  "calculate_position_pnl_safe env p current_price =
     (if unusable_price (pnl_entry_price p) then None
      else if (case current_price of None \<Rightarrow> False | Some current \<Rightarrow> unusable_price current) then None
      else Some (calculate_position_pnl env p current_price))"

section \<open>The split by what is sold and what is held\<close>

definition acquired_units :: "position \<Rightarrow> u64" where
  "acquired_units p = unwrap_or (po_remaining_token_amount p) 0 + po_total_exited_amount p"

definition calculate_split_pnl :: "pnl_env \<Rightarrow> position \<Rightarrow> f64 option \<Rightarrow> f64 \<times> f64 \<times> f64 \<times> f64" where
  "calculate_split_pnl env p current_price =
     (if unusable_price (pnl_entry_price p) then (zero, zero, zero, zero)
      else let acquired = (if 0 < acquired_units p then f64_of_u64 (acquired_units p) else f64_of_u64 (unwrap_or (po_token_amount p) 1));
               realized = (if 0 < po_total_exited_amount p \<and> po_average_exit_price p \<noteq> None
                 then let exit_portion = f64_div (f64_of_u64 (po_total_exited_amount p)) acquired
                      in f64_sub (f64_sub (unwrap_or (po_sol_received p) zero) (f64_mul (po_total_size_sol p) exit_portion))
                           (raw_to_native env (unwrap_or (po_exit_fee_lamports p) 0))
                 else zero);
               unrealized = (case po_remaining_token_amount p of
                   Some remaining \<Rightarrow> (case current_price of
                       Some current \<Rightarrow> (case pe_decimals env (po_mint p) of
                           Some decimals \<Rightarrow>
                             let remaining_portion = f64_div (f64_of_u64 remaining) acquired
                             in f64_sub (f64_sub (f64_mul (ui_amount env remaining decimals) current)
                                    (f64_mul (po_total_size_sol p) remaining_portion))
                                  (f64_mul (raw_to_native env (unwrap_or (po_entry_fee_lamports p) 0)) remaining_portion)
                         | None \<Rightarrow> zero)
                     | None \<Rightarrow> zero)
                 | None \<Rightarrow> if po_exit_time p = None
                     then (case current_price of Some current \<Rightarrow> fst (calculate_position_pnl env p (Some current)) | None \<Rightarrow> zero)
                     else zero);
               total_pnl_sol = f64_add realized unrealized
           in (realized, unrealized, total_pnl_sol, f64_mul (f64_div total_pnl_sol (po_total_size_sol p)) percent))"

section \<open>Losses\<close>

record loss_settings =
  ls_blacklist_enabled :: bool
  ls_blacklist_copy_origins :: bool
  ls_blacklist_threshold_pct :: f64
  ls_limit_enabled :: bool
  ls_limit_sol :: f64

text \<open>The reason \<^verbatim>\<open>process_position_loss_detection\<close> blacklists the token with, if it does.\<close>

definition loss_reason :: "position_origin \<Rightarrow> string" where
  "loss_reason origin = (case origin of
       Copy task_id source_wallet \<Rightarrow> ''PoorPerformance:copy:'' @ show_i64 task_id @ '':'' @ source_wallet
     | Auto strategy_id \<Rightarrow> ''PoorPerformance:auto:'' @ unwrap_or strategy_id ''unattributed''
     | Manual \<Rightarrow> ''PoorPerformance:manual''
     | External \<Rightarrow> ''PoorPerformance:external'')"

definition is_copy :: "position_origin \<Rightarrow> bool" where
  "is_copy origin = (case origin of Copy _ _ \<Rightarrow> True | _ \<Rightarrow> False)"

definition process_position_loss_detection :: "pnl_env \<Rightarrow> loss_settings \<Rightarrow> position \<Rightarrow> string option" where
  "process_position_loss_detection env settings p =
     (if po_origin p = External then None
      else if \<not> ls_blacklist_enabled settings then None
      else if is_copy (po_origin p) \<and> \<not> ls_blacklist_copy_origins settings then None
      else let (net_pnl_sol, net_pnl_percent) = calculate_position_pnl env p None
      in if f64_less net_pnl_sol zero \<and> f64_le net_pnl_percent (ls_blacklist_threshold_pct settings)
         then Some (loss_reason (po_origin p)) else None)"

record loss_limit_state =
  ll_cumulative_loss_sol :: f64
  ll_is_limited :: bool
  ll_limited_at :: "int option"

definition record_realized_loss :: "loss_settings \<Rightarrow> int \<Rightarrow> f64 \<Rightarrow> loss_limit_state \<Rightarrow> loss_limit_state" where
  "record_realized_loss settings now loss_sol s =
     (if \<not> ls_limit_enabled settings then s
      else let s = s\<lparr>ll_cumulative_loss_sol := f64_add (ll_cumulative_loss_sol s) (f64_abs loss_sol)\<rparr>
      in if \<not> ll_is_limited s \<and> f64_le (ls_limit_sol settings) (ll_cumulative_loss_sol s)
         then s\<lparr>ll_is_limited := True, ll_limited_at := Some now\<rparr> else s)"

end
