(* ===== verification/Position_Apply.thy ===== *)
theory Position_Apply
  imports Position_Pnl
begin

text \<open>
  \<^verbatim>\<open>positions/transitions.rs\<close> and \<^verbatim>\<open>positions/apply.rs\<close>: the transitions of a position and what applying one does to the
  positions in memory, the database, the slots, the swaps in flight and the loss limit. What the database answers
  is an argument of each step. Log lines, event records and notifications only report and are left out.
\<close>

section \<open>Transitions\<close>

datatype position_transition =
    EntryVerified (t_id: i64) (t_price: f64) (t_units: u64) (t_fee: u64) (t_sol: f64)
  | ExitVerified (t_id: i64) (t_price: f64) (t_sol: f64) (t_fee: u64) (t_time: int)
  | ExitFailedClearForRetry (t_id: i64)
  | ExitPermanentFailureSynthetic (t_id: i64) (t_time: int)
  | RemoveOrphanEntry (t_id: i64)
  | UpdatePriceTracking (t_mint: string) (t_current: f64) (t_highest: "f64 option") (t_lowest: "f64 option")
  | PartialExitSubmitted (t_id: i64) (t_signature: string) (t_units: u64) (t_percentage: f64) (t_price: f64)
  | PartialExitVerified (t_id: i64) (t_units: u64) (t_sol: f64) (t_price: f64) (t_fee: u64) (t_time: int)
      (t_signature: string) (t_percentage: f64)
  | PartialExitFailed (t_id: i64) (t_reason: string)
  | ExitResidualClearForRetry (t_id: i64) (t_units: u64) (t_sol: f64) (t_price: f64) (t_fee: u64) (t_time: int)
      (t_signature: string) (t_percentage: f64)
  | DcaSubmitted (t_id: i64) (t_signature: string) (t_sol: f64) (t_price: f64)
  | DcaVerified (t_id: i64) (t_units: u64) (t_sol: f64) (t_price: f64) (t_fee: u64) (t_time: int) (t_signature: string)
  | DcaFailed (t_id: i64) (t_signature: string) (t_reason: string)

definition transition_position_id :: "position_transition \<Rightarrow> i64 option" where
  "transition_position_id t = (case t of UpdatePriceTracking _ _ _ _ \<Rightarrow> None | _ \<Rightarrow> Some (t_id t))"

definition is_terminal :: "position_transition \<Rightarrow> bool" where
  "is_terminal t = (case t of ExitVerified _ _ _ _ _ \<Rightarrow> True | ExitPermanentFailureSynthetic _ _ \<Rightarrow> True
     | RemoveOrphanEntry _ \<Rightarrow> True | _ \<Rightarrow> False)"

definition requires_db_update :: "position_transition \<Rightarrow> bool" where
  "requires_db_update t = (case t of UpdatePriceTracking _ _ _ _ \<Rightarrow> False | _ \<Rightarrow> True)"

definition affects_wallet_balance :: "position_transition \<Rightarrow> bool" where
  "affects_wallet_balance t = (case t of EntryVerified _ _ _ _ _ \<Rightarrow> True | ExitVerified _ _ _ _ _ \<Rightarrow> True
     | PartialExitVerified _ _ _ _ _ _ _ _ \<Rightarrow> True | ExitResidualClearForRetry _ _ _ _ _ _ _ _ \<Rightarrow> True
     | DcaVerified _ _ _ _ _ _ _ \<Rightarrow> True | _ \<Rightarrow> False)"

section \<open>The state of the bot\<close>

text \<open>Calls to other parts: a refresh of the wallet balance, the priority and the blacklist of a token.\<close>

datatype outward = RefreshBalance | ResetPriority string | Blacklist string string

record bot =
  bo_store :: position_store
  bo_loss :: loss_limit_state
  bo_calls :: "outward list"

record apply_env =
  ae_pnl :: pnl_env
  ae_settings :: loss_settings
  ae_now :: int
  ae_tokens_db :: bool

text \<open>Whether the statements a transition sends succeed.\<close>

record db_answers =
  da_lookup :: bool
  da_update :: bool
  da_record :: bool
  da_metadata :: bool

record apply_effects =
  ef_db_updated :: bool
  ef_position_removed :: bool
  ef_position_closed :: bool

definition no_effects :: apply_effects where
  "no_effects = \<lparr>ef_db_updated = False, ef_position_removed = False, ef_position_closed = False\<rparr>"

type_synonym applied = "(position_error + apply_effects) \<times> bot"

definition on_store :: "(position_store \<Rightarrow> position_store) \<Rightarrow> bot \<Rightarrow> bot" where
  "on_store f b = b\<lparr>bo_store := f (bo_store b)\<rparr>"

definition call :: "outward \<Rightarrow> bot \<Rightarrow> bot" where
  "call c b = b\<lparr>bo_calls := bo_calls b @ [c]\<rparr>"

definition reset_priority :: "apply_env \<Rightarrow> string \<Rightarrow> bot \<Rightarrow> bot" where
  "reset_priority env mint b = (if ae_tokens_db env then call (ResetPriority mint) b else b)"

definition update_by_id :: "i64 \<Rightarrow> (position \<Rightarrow> position) \<Rightarrow> bot \<Rightarrow> bool \<times> bot" where
  "update_by_id i f b = (let (updated, s) = update_position_state_by_id i f (bo_store b) in (updated, b\<lparr>bo_store := s\<rparr>))"

text \<open>An update in memory is followed by the update of the row; its failure is the transition's.\<close>

definition persist_then :: "db_answers \<Rightarrow> i64 \<Rightarrow> (position \<Rightarrow> bot \<Rightarrow> applied) \<Rightarrow> bot \<Rightarrow> applied" where
  "persist_then an i k b = (case get_position_by_id i (bo_store b) of
       None \<Rightarrow> (Inr no_effects, b)
     | Some p \<Rightarrow> (case update_position (da_update an) p (bo_store b) of
           (Inl _, s) \<Rightarrow> (Inl (TransitionFailed ''apply'' (po_mint p)), b\<lparr>bo_store := s\<rparr>)
         | (Inr _, s) \<Rightarrow> k p (b\<lparr>bo_store := s\<rparr>)))"

definition find_mint_by_position_id :: "i64 \<Rightarrow> position_store \<Rightarrow> position_error + string" where
  "find_mint_by_position_id i s = (case find (\<lambda>p. po_id p = Some i) (st_positions s) of
       None \<Rightarrow> Inl (NotFoundById i) | Some p \<Rightarrow> Inr (po_mint p))"

section \<open>Entry\<close>

definition entry_booked :: "f64 \<Rightarrow> u64 \<Rightarrow> u64 \<Rightarrow> f64 \<Rightarrow> position \<Rightarrow> position" where
  "entry_booked effective_entry_price token_amount_units fee_lamports sol_size p =
     p\<lparr>po_transaction_entry_verified := True, po_effective_entry_price := Some effective_entry_price,
       po_total_size_sol := sol_size, po_token_amount := Some token_amount_units, po_entry_fee_lamports := Some fee_lamports,
       po_entry_size_sol := sol_size, po_remaining_token_amount := Some token_amount_units,
       po_average_entry_price := effective_entry_price\<rparr>"

definition save_entry :: "db_answers \<Rightarrow> entry_record \<Rightarrow> bot \<Rightarrow> bot" where
  "save_entry an r = on_store (\<lambda>s. snd (save_entry_record (da_record an) r s))"

definition apply_entry_verified :: "db_answers \<Rightarrow> i64 \<Rightarrow> f64 \<Rightarrow> u64 \<Rightarrow> u64 \<Rightarrow> f64 \<Rightarrow> bot \<Rightarrow> applied" where
  "apply_entry_verified an i price units fee sol b =
     (let (updated, b) = update_by_id i (entry_booked price units fee sol) b
      in if \<not> updated then (Inr no_effects, b)
      else persist_then an i (\<lambda>p b.
        (Inr (no_effects\<lparr>ef_db_updated := True\<rparr>),
         case po_entry_transaction_signature p of
           None \<Rightarrow> b
         | Some signature \<Rightarrow> save_entry an \<lparr>er_position_id = i, er_timestamp = po_entry_time p, er_amount = units,
             er_price = price, er_sol_spent = sol, er_transaction_signature = signature, er_is_dca = False,
             er_fees_lamports = Some fee\<rparr> b)) b)"

section \<open>Full exit\<close>

definition PENDING_VERIFICATION_SUFFIX :: string where
  "PENDING_VERIFICATION_SUFFIX = ''_pending_verification''"

definition ends_with :: "string \<Rightarrow> string \<Rightarrow> bool" where
  "ends_with suffix s \<longleftrightarrow> length suffix \<le> length s \<and> drop (length s - length suffix) s = suffix"

function trim_end_matches :: "string \<Rightarrow> string \<Rightarrow> string" where
  "trim_end_matches suffix s =
     (if suffix \<noteq> [] \<and> ends_with suffix s then trim_end_matches suffix (take (length s - length suffix) s) else s)"
  by pat_completeness auto
termination
proof (relation "measure (length \<circ> snd)")
  fix suffix s :: string
  assume ends: "suffix \<noteq> [] \<and> ends_with suffix s"
  then have "0 < length suffix" "length suffix \<le> length s" by (simp_all add: ends_with_def)
  then have "length s - length suffix < length s" by linarith
  then show "((suffix, take (length s - length suffix) s), suffix, s) \<in> measure (length \<circ> snd)" by simp
qed simp

declare trim_end_matches.simps [simp del]

definition roll_remaining :: "position \<Rightarrow> position" where
  "roll_remaining p = (case po_remaining_token_amount p of
       None \<Rightarrow> p
     | Some remaining \<Rightarrow> p\<lparr>po_total_exited_amount := po_total_exited_amount p + remaining, po_remaining_token_amount := Some 0\<rparr>)"

definition verified_reason :: "string option \<Rightarrow> string option" where
  "verified_reason reason = (case reason of
       None \<Rightarrow> None
     | Some r \<Rightarrow> if ends_with PENDING_VERIFICATION_SUFFIX r then Some (trim_end_matches PENDING_VERIFICATION_SUFFIX r) else Some r)"

definition exit_booked :: "f64 \<Rightarrow> f64 \<Rightarrow> u64 \<Rightarrow> int \<Rightarrow> position \<Rightarrow> position" where
  "exit_booked effective_exit_price sol_received fee_lamports exit_time p =
     (let p = roll_remaining (p\<lparr>po_transaction_exit_verified := True, po_effective_exit_price := Some effective_exit_price,
            po_sol_received := Some (f64_add (unwrap_or (po_sol_received p) zero) sol_received),
            po_exit_fee_lamports := Some fee_lamports, po_exit_time := Some exit_time\<rparr>)
      in p\<lparr>po_closed_reason := verified_reason (po_closed_reason p)\<rparr>)"

definition pnl_booked :: "f64 \<times> f64 \<Rightarrow> position \<Rightarrow> position" where
  "pnl_booked pnl p = p\<lparr>po_pnl := Some (fst pnl), po_pnl_percent := Some (snd pnl), po_unrealized_pnl := None,
     po_unrealized_pnl_percent := None\<rparr>"

definition detect_loss :: "apply_env \<Rightarrow> position \<Rightarrow> bot \<Rightarrow> bot" where
  "detect_loss env p b = (case process_position_loss_detection (ae_pnl env) (ae_settings env) p of
       None \<Rightarrow> b
     | Some reason \<Rightarrow> if ae_tokens_db env then call (Blacklist (po_mint p) reason) b else b)"

definition record_loss :: "apply_env \<Rightarrow> f64 \<Rightarrow> bot \<Rightarrow> bot" where
  "record_loss env pnl b = b\<lparr>bo_loss := record_realized_loss (ae_settings env) (ae_now env) (f64_abs pnl) (bo_loss b)\<rparr>"

definition save_exit :: "db_answers \<Rightarrow> exit_record \<Rightarrow> bot \<Rightarrow> bot" where
  "save_exit an r = on_store (\<lambda>s. snd (save_exit_record (da_record an) r s))"

definition apply_exit_verified :: "apply_env \<Rightarrow> db_answers \<Rightarrow> i64 \<Rightarrow> f64 \<Rightarrow> f64 \<Rightarrow> u64 \<Rightarrow> int \<Rightarrow> bot \<Rightarrow> applied" where
  "apply_exit_verified env an i price sol fee time b =
     (case get_position_by_id i (bo_store b) of
        None \<Rightarrow> (Inr no_effects, b)
      | Some before \<Rightarrow>
          if po_transaction_exit_verified before then (Inr no_effects, b)
          else let closed_amount = unwrap_or (po_remaining_token_amount before) 0;
                   booked = exit_booked price sol fee time before;
                   pnl = calculate_position_pnl (ae_pnl env) booked None;
                   b = snd (update_by_id i (exit_booked price sol fee time) b);
                   b = snd (update_by_id i (pnl_booked pnl) b);
                   b = detect_loss env (pnl_booked pnl booked) b;
                   b = (if f64_less (fst pnl) zero \<and> \<not> is_wallet_derived booked then record_loss env (fst pnl) b else b)
               in persist_then an i (\<lambda>p b.
                    (Inr (no_effects\<lparr>ef_db_updated := True, ef_position_closed := True\<rparr>),
                     reset_priority env (po_mint p) (on_store (release_position_slot i)
                       (case po_exit_transaction_signature p of
                          None \<Rightarrow> b
                        | Some signature \<Rightarrow> save_exit an \<lparr>xr_position_id = i, xr_timestamp = time, xr_amount = closed_amount,
                            xr_price = price, xr_sol_received = sol, xr_transaction_signature = signature, xr_is_partial = False,
                            xr_percentage = percent, xr_fees_lamports = Some fee\<rparr> b)))) b)"

section \<open>Exit failure\<close>

definition exit_cleared :: "position \<Rightarrow> position" where
  "exit_cleared p = p\<lparr>po_exit_transaction_signature := None, po_transaction_exit_verified := False,
     po_closed_reason := Some ''exit_retry_pending'', po_exit_price := None, po_effective_exit_price := None\<rparr>"

definition apply_exit_failed_clear :: "db_answers \<Rightarrow> i64 \<Rightarrow> bot \<Rightarrow> applied" where
  "apply_exit_failed_clear an i b =
     (let old_sig = Option.bind (get_position_by_id i (bo_store b)) po_exit_transaction_signature;
          (updated, b) = update_by_id i exit_cleared b;
          b = (case old_sig of None \<Rightarrow> b | Some signature \<Rightarrow> on_store (remove_signature_from_index signature) b)
      in if \<not> updated then (Inr no_effects, b)
      else persist_then an i (\<lambda>p b. (Inr (no_effects\<lparr>ef_db_updated := True\<rparr>), b)) b)"

definition written_off :: "position \<Rightarrow> f64" where
  "written_off p = f64_sub (unwrap_or (po_sol_received p) zero) (po_total_size_sol p)"

definition synthetic_exit_booked :: "int \<Rightarrow> position \<Rightarrow> position" where
  "synthetic_exit_booked exit_time p =
     roll_remaining (p\<lparr>po_synthetic_exit := True, po_transaction_exit_verified := True, po_exit_time := Some exit_time,
       po_closed_reason := Some ''synthetic_exit_permanent_failure'', po_pnl := Some (written_off p),
       po_pnl_percent := Some (if f64_less zero (po_total_size_sol p)
         then f64_mul (f64_div (written_off p) (po_total_size_sol p)) percent else zero),
       po_unrealized_pnl := None, po_unrealized_pnl_percent := None\<rparr>)"

definition apply_synthetic_exit :: "apply_env \<Rightarrow> db_answers \<Rightarrow> i64 \<Rightarrow> int \<Rightarrow> bot \<Rightarrow> applied" where
  "apply_synthetic_exit env an i time b =
     (let realized_pnl = (case get_position_by_id i (bo_store b) of None \<Rightarrow> zero | Some p \<Rightarrow> written_off p);
          (updated, b) = update_by_id i (synthetic_exit_booked time) b;
          b = (if updated \<and> f64_less realized_pnl zero then record_loss env realized_pnl b else b)
      in if \<not> updated then (Inr no_effects, b)
      else persist_then an i (\<lambda>p b.
        (Inr (no_effects\<lparr>ef_db_updated := True, ef_position_closed := True\<rparr>),
         reset_priority env (po_mint p) (on_store (release_position_slot i) b))) b)"

definition apply_remove_orphan :: "apply_env \<Rightarrow> i64 \<Rightarrow> bot \<Rightarrow> applied" where
  "apply_remove_orphan env i b = (case find_mint_by_position_id i (bo_store b) of
       Inl _ \<Rightarrow> (Inr no_effects, b)
     | Inr mint \<Rightarrow> (case remove_position mint (bo_store b) of
           (None, s) \<Rightarrow> (Inr no_effects, b\<lparr>bo_store := s\<rparr>)
         | (Some _, s) \<Rightarrow> (Inr (no_effects\<lparr>ef_position_removed := True\<rparr>),
             reset_priority env mint (b\<lparr>bo_store := release_position_slot i s\<rparr>))))"

section \<open>Partial exit\<close>

definition average_exit :: "f64 option \<Rightarrow> u64 \<Rightarrow> u64 \<Rightarrow> f64 \<Rightarrow> f64 option" where
  "average_exit prev total_exited exit_amount effective_exit_price =
     (if total_exited = 0 then prev
      else Some (case prev of
          None \<Rightarrow> effective_exit_price
        | Some prev_avg \<Rightarrow>
            let prev_weight = f64_div (f64_of_u64 (total_exited - exit_amount)) (f64_of_u64 total_exited);
                new_weight = f64_div (f64_of_u64 exit_amount) (f64_of_u64 total_exited)
            in f64_add (f64_mul prev_avg prev_weight) (f64_mul effective_exit_price new_weight)))"

definition partial_booked :: "u64 \<Rightarrow> f64 \<Rightarrow> f64 \<Rightarrow> position \<Rightarrow> position" where
  "partial_booked exit_amount sol_received effective_exit_price p =
     (let total_exited = po_total_exited_amount p + exit_amount
      in p\<lparr>po_remaining_token_amount := map_option (\<lambda>remaining. saturating_sub remaining exit_amount) (po_remaining_token_amount p),
           po_total_exited_amount := total_exited,
           po_average_exit_price := average_exit (po_average_exit_price p) total_exited exit_amount effective_exit_price,
           po_partial_exit_count := po_partial_exit_count p + 1,
           po_sol_received := Some (f64_add (unwrap_or (po_sol_received p) zero) sol_received)\<rparr>)"

definition unrealized_booked :: "f64 \<times> f64 \<Rightarrow> position \<Rightarrow> position" where
  "unrealized_booked pnl p = p\<lparr>po_unrealized_pnl := Some (fst pnl), po_unrealized_pnl_percent := Some (snd pnl)\<rparr>"

definition apply_partial_exit :: "apply_env \<Rightarrow> db_answers \<Rightarrow> i64 \<Rightarrow> u64 \<Rightarrow> f64 \<Rightarrow> f64 \<Rightarrow> u64 \<Rightarrow> int \<Rightarrow> string \<Rightarrow> f64 \<Rightarrow> bot \<Rightarrow> applied" where
  "apply_partial_exit env an i units sol price fee time signature percentage b =
     (if exit_record_exists (da_lookup an) i signature (bo_store b) then
        (Inr no_effects, case get_position_by_id i (bo_store b) of
             None \<Rightarrow> b
           | Some p \<Rightarrow> on_store (\<lambda>s. clear_partial_exit_pending (po_mint p)
               (snd (clear_pending_partial_exit (da_metadata an) signature s))) b)
      else let (updated, b) = update_by_id i (partial_booked units sol price) b
      in if \<not> updated then (Inr no_effects, b)
      else let b = (case Option.bind (get_position_by_id i (bo_store b)) (\<lambda>p. map_option (Pair p) (po_current_price p)) of
               None \<Rightarrow> b
             | Some (p, current) \<Rightarrow>
                 snd (update_by_id i (unrealized_booked (calculate_position_pnl (ae_pnl env) p (Some current))) b))
      in persist_then an i (\<lambda>p b.
           let b = save_exit an \<lparr>xr_position_id = i, xr_timestamp = time, xr_amount = units, xr_price = price,
                 xr_sol_received = sol, xr_transaction_signature = signature, xr_is_partial = True,
                 xr_percentage = percentage, xr_fees_lamports = Some fee\<rparr> b
           in case clear_pending_partial_exit (da_metadata an) signature (bo_store b) of
                (Inl _, s) \<Rightarrow> (Inl (TransitionFailed ''partial_exit'' (po_mint p)), b\<lparr>bo_store := s\<rparr>)
              | (Inr _, s) \<Rightarrow> (Inr (no_effects\<lparr>ef_db_updated := True\<rparr>),
                  b\<lparr>bo_store := clear_partial_exit_pending (po_mint p) s\<rparr>)) b)"

definition apply_partial_exit_failed :: "db_answers \<Rightarrow> i64 \<Rightarrow> bot \<Rightarrow> applied" where
  "apply_partial_exit_failed an i b =
     (Inr no_effects, case get_position_by_id i (bo_store b) of
          None \<Rightarrow> b
        | Some p \<Rightarrow> on_store (\<lambda>s. clear_partial_exit_pending (po_mint p)
            (snd (clear_pending_partial_exits_for_mint (da_metadata an) (po_mint p) s))) b)"

section \<open>Adding to a position\<close>

definition DEFAULT_DECIMALS :: u8 where "DEFAULT_DECIMALS = 9"

definition dca_booked :: "pnl_env \<Rightarrow> u8 \<Rightarrow> u64 \<Rightarrow> f64 \<Rightarrow> int \<Rightarrow> position \<Rightarrow> position" where
  "dca_booked env decimals tokens_bought sol_spent dca_time p =
     (let remaining = (case po_remaining_token_amount p of Some remaining \<Rightarrow> remaining + tokens_bought | None \<Rightarrow> tokens_bought);
          total = f64_add (po_total_size_sol p) sol_spent;
          normalized = ui_amount env remaining decimals;
          average = (if 0 < remaining \<and> f64_less zero total \<and> f64_is_finite total \<and> f64_less zero normalized
              \<and> f64_is_finite normalized then f64_div total normalized else po_average_entry_price p)
      in p\<lparr>po_remaining_token_amount := Some remaining, po_total_size_sol := total, po_average_entry_price := average,
           po_dca_count := po_dca_count p + 1, po_last_dca_time := Some dca_time\<rparr>)"

definition apply_dca_verified :: "apply_env \<Rightarrow> db_answers \<Rightarrow> i64 \<Rightarrow> u64 \<Rightarrow> f64 \<Rightarrow> f64 \<Rightarrow> u64 \<Rightarrow> int \<Rightarrow> string \<Rightarrow> bot \<Rightarrow> applied" where
  "apply_dca_verified env an i units sol price fee time signature b =
     (case find_mint_by_position_id i (bo_store b) of
        Inl e \<Rightarrow> (Inl e, b)
      | Inr mint \<Rightarrow>
          let decimals = unwrap_or (pe_decimals (ae_pnl env) mint) DEFAULT_DECIMALS;
              (updated, b) = update_by_id i (dca_booked (ae_pnl env) decimals units sol time) b
          in if \<not> updated then (Inr no_effects, b)
          else persist_then an i (\<lambda>p b.
            let b = save_entry an \<lparr>er_position_id = i, er_timestamp = time, er_amount = units, er_price = price,
                  er_sol_spent = sol, er_transaction_signature = signature, er_is_dca = True, er_fees_lamports = Some fee\<rparr> b
            in case clear_pending_dca_swap (da_metadata an) signature (bo_store b) of
                 (Inl _, s) \<Rightarrow> (Inl (TransitionFailed ''dca'' (po_mint p)), b\<lparr>bo_store := s\<rparr>)
               | (Inr _, s) \<Rightarrow> (Inr (no_effects\<lparr>ef_db_updated := True\<rparr>), b\<lparr>bo_store := s\<rparr>)) b)"

definition apply_dca_failed :: "db_answers \<Rightarrow> i64 \<Rightarrow> string \<Rightarrow> bot \<Rightarrow> applied" where
  "apply_dca_failed an i signature b = (case clear_pending_dca_swap (da_metadata an) signature (bo_store b) of
       (Inl _, s) \<Rightarrow> (Inl (TransitionFailed ''dca'' (case find_mint_by_position_id i s of Inr mint \<Rightarrow> mint | Inl _ \<Rightarrow> [])),
         b\<lparr>bo_store := s\<rparr>)
     | (Inr _, s) \<Rightarrow> (Inr no_effects, b\<lparr>bo_store := s\<rparr>))"

section \<open>Prices\<close>

definition price_tracked :: "int \<Rightarrow> f64 \<Rightarrow> f64 option \<Rightarrow> f64 option \<Rightarrow> position \<Rightarrow> position" where
  "price_tracked now current highest lowest p =
     p\<lparr>po_current_price := Some current, po_current_price_updated := Some now,
       po_price_highest := unwrap_or highest (po_price_highest p), po_price_lowest := unwrap_or lowest (po_price_lowest p)\<rparr>"

definition apply_price_tracking :: "apply_env \<Rightarrow> db_answers \<Rightarrow> string \<Rightarrow> f64 \<Rightarrow> f64 option \<Rightarrow> f64 option \<Rightarrow> bot \<Rightarrow> applied" where
  "apply_price_tracking env an mint current highest lowest b =
     (let (updated, s) = update_position_state mint (price_tracked (ae_now env) current highest lowest) (bo_store b);
          b = b\<lparr>bo_store := s\<rparr>
      in if \<not> updated then (Inr no_effects, b)
      else case get_position_by_mint mint s of
          None \<Rightarrow> (Inr no_effects, b)
        | Some p \<Rightarrow> (case update_position_price_fields (da_update an) p s of
              (Inr _, s) \<Rightarrow> (Inr (no_effects\<lparr>ef_db_updated := True\<rparr>), b\<lparr>bo_store := s\<rparr>)
            | (Inl _, s) \<Rightarrow> (Inr no_effects, b\<lparr>bo_store := s\<rparr>)))"

section \<open>Applying a transition\<close>

text \<open>A close that left tokens behind is booked as a partial exit and then cleared for a retry; each of the two
  asks the database for itself, so there are two sets of answers.\<close>

definition with_refresh :: "position_transition \<Rightarrow> bot \<Rightarrow> bot" where
  "with_refresh t b = (if affects_wallet_balance t then call RefreshBalance b else b)"

definition apply_step :: "apply_env \<Rightarrow> db_answers \<Rightarrow> position_transition \<Rightarrow> bot \<Rightarrow> applied" where
  "apply_step env an t b =
     (let b = with_refresh t b
      in case t of
           EntryVerified i price units fee sol \<Rightarrow> apply_entry_verified an i price units fee sol b
         | ExitVerified i price sol fee time \<Rightarrow> apply_exit_verified env an i price sol fee time b
         | ExitFailedClearForRetry i \<Rightarrow> apply_exit_failed_clear an i b
         | ExitPermanentFailureSynthetic i time \<Rightarrow> apply_synthetic_exit env an i time b
         | RemoveOrphanEntry i \<Rightarrow> apply_remove_orphan env i b
         | UpdatePriceTracking mint current highest lowest \<Rightarrow> apply_price_tracking env an mint current highest lowest b
         | PartialExitSubmitted _ _ _ _ _ \<Rightarrow> (Inr no_effects, b)
         | PartialExitVerified i units sol price fee time signature percentage \<Rightarrow>
             apply_partial_exit env an i units sol price fee time signature percentage b
         | PartialExitFailed i _ \<Rightarrow> apply_partial_exit_failed an i b
         | ExitResidualClearForRetry _ _ _ _ _ _ _ _ \<Rightarrow> (Inr no_effects, b)
         | DcaSubmitted _ _ _ _ \<Rightarrow> (Inr no_effects, b)
         | DcaVerified i units sol price fee time signature \<Rightarrow> apply_dca_verified env an i units sol price fee time signature b
         | DcaFailed i signature _ \<Rightarrow> apply_dca_failed an i signature b)"

definition apply_transition :: "apply_env \<Rightarrow> db_answers \<Rightarrow> db_answers \<Rightarrow> position_transition \<Rightarrow> bot \<Rightarrow> applied" where
  "apply_transition env an an' t b = (case t of
       ExitResidualClearForRetry i units sol price fee time signature percentage \<Rightarrow>
         (case apply_step env an (PartialExitVerified i units sol price fee time signature percentage) (with_refresh t b) of
            (Inl e, b) \<Rightarrow> (Inl e, b)
          | (Inr _, b) \<Rightarrow> (case apply_step env an' (ExitFailedClearForRetry i) b of
                (Inl e, b) \<Rightarrow> (Inl e, b)
              | (Inr cleared, b) \<Rightarrow> (Inr (no_effects\<lparr>ef_db_updated := ef_db_updated cleared\<rparr>), b)))
     | _ \<Rightarrow> apply_step env an t b)"

text \<open>A sequence of transitions, as the verification worker applies them.\<close>

fun apply_all :: "apply_env \<Rightarrow> (db_answers \<times> db_answers \<times> position_transition) list \<Rightarrow> bot \<Rightarrow> bot" where
  "apply_all env [] b = b"
| "apply_all env ((an, an', t) # ts) b = apply_all env ts (snd (apply_transition env an an' t b))"

end
