(* ===== verification/Position_Laws.thy ===== *)
theory Position_Laws
  imports Position_Apply
begin

text \<open>How the operations on the positions in memory, the slots and the database see each other.\<close>

section \<open>Updates in memory\<close>

definition keeps_identity :: "(position \<Rightarrow> position) \<Rightarrow> bool" where
  "keeps_identity f \<longleftrightarrow> (\<forall>p. po_id (f p) = po_id p \<and> po_mint (f p) = po_mint p)"

lemma update_first_found: "fst (update_first P f ps) \<longleftrightarrow> (\<exists>p \<in> set ps. P p)"
  by (induction ps) (auto split: prod.splits)

lemma update_first_find:
  assumes "\<And>p. P p \<Longrightarrow> P (f p)"
  shows "find P (snd (update_first P f ps)) = map_option f (find P ps)"
  using assms by (induction ps) (auto split: prod.splits)

lemma update_first_other:
  assumes "\<And>p. P p \<Longrightarrow> \<not> Q p \<and> \<not> Q (f p)"
  shows "find Q (snd (update_first P f ps)) = find Q ps"
  using assms by (induction ps) (auto split: prod.splits)

lemma update_first_map:
  assumes "\<And>p. g (f p) = g p"
  shows "map g (snd (update_first P f ps)) = map g ps"
  using assms by (induction ps) (auto split: prod.splits)

lemma update_by_id_store:
  "update_by_id i f b = (get_position_by_id i (bo_store b) \<noteq> None,
     b\<lparr>bo_store := (bo_store b)\<lparr>st_positions := snd (update_first (\<lambda>p. po_id p = Some i) f (st_positions (bo_store b)))\<rparr>\<rparr>)"
  using update_first_found [of "\<lambda>p. po_id p = Some i" f "st_positions (bo_store b)"]
  by (auto simp: update_by_id_def update_position_state_by_id_def get_position_by_id_def find_None_iff
      split: prod.splits simp flip: not_None_eq)

lemma get_updated [simp]:
  assumes "keeps_identity f"
  shows "get_position_by_id j (bo_store (snd (update_by_id i f b))) =
    (if i = j then map_option f (get_position_by_id j (bo_store b)) else get_position_by_id j (bo_store b))"
  using assms update_first_find [of "\<lambda>p. po_id p = Some i" f] update_first_other [of "\<lambda>p. po_id p = Some i" "\<lambda>p. po_id p = Some j" f]
  by (auto simp: update_by_id_store get_position_by_id_def keeps_identity_def)

lemma update_by_id_fields [simp]:
  "st_slots (bo_store (snd (update_by_id i f b))) = st_slots (bo_store b)"
  "st_permits (bo_store (snd (update_by_id i f b))) = st_permits (bo_store b)"
  "st_rows (bo_store (snd (update_by_id i f b))) = st_rows (bo_store b)"
  "st_exits (bo_store (snd (update_by_id i f b))) = st_exits (bo_store b)"
  "st_mints (bo_store (snd (update_by_id i f b))) = st_mints (bo_store b)"
  "st_dcas (bo_store (snd (update_by_id i f b))) = st_dcas (bo_store b)"
  "st_partials (bo_store (snd (update_by_id i f b))) = st_partials (bo_store b)"
  "bo_loss (snd (update_by_id i f b)) = bo_loss b" "bo_calls (snd (update_by_id i f b)) = bo_calls b"
  "fst (update_by_id i f b) \<longleftrightarrow> get_position_by_id i (bo_store b) \<noteq> None"
  by (simp_all add: update_by_id_store)

lemma get_same_positions: "st_positions s = st_positions t \<Longrightarrow> get_position_by_id i s = get_position_by_id i t"
  by (simp add: get_position_by_id_def)

lemma booking_keeps_identity [simp, intro]:
  "keeps_identity (entry_booked a b c d)" "keeps_identity (exit_booked e f g h)" "keeps_identity (pnl_booked pnl)"
  "keeps_identity exit_cleared" "keeps_identity (synthetic_exit_booked k)" "keeps_identity (partial_booked l m n)"
  "keeps_identity (unrealized_booked pnl)" "keeps_identity (dca_booked env o1 q r s)" "keeps_identity (price_tracked t u v w)"
  by (simp_all add: keeps_identity_def entry_booked_def exit_booked_def pnl_booked_def exit_cleared_def synthetic_exit_booked_def
      partial_booked_def unrealized_booked_def dca_booked_def price_tracked_def roll_remaining_def Let_def split: option.split)

section \<open>Slots\<close>

definition slot_sum :: "position_store \<Rightarrow> nat" where
  "slot_sum s = st_permits s + card (st_slots s)"

lemma release_slot_sum: "finite (st_slots s) \<Longrightarrow> slot_sum (release_position_slot i s) = slot_sum s"
  by (simp add: slot_sum_def release_position_slot_def release_global_position_permit_def card_Diff_singleton)
    (metis Suc_pred card_gt_0_iff empty_iff)

lemma release_slot_set [simp]: "st_slots (release_position_slot i s) = st_slots s - {i}"
  by (simp add: release_position_slot_def release_global_position_permit_def)

lemma release_slot_fields [simp]:
  "st_positions (release_position_slot i s) = st_positions s" "st_rows (release_position_slot i s) = st_rows s"
  "st_exits (release_position_slot i s) = st_exits s" "st_mints (release_position_slot i s) = st_mints s"
  by (simp_all add: release_position_slot_def release_global_position_permit_def)

section \<open>The other parts of the store\<close>

definition same_slots :: "position_store \<Rightarrow> position_store \<Rightarrow> bool" where
  "same_slots s t \<longleftrightarrow> st_slots t = st_slots s \<and> st_permits t = st_permits s"

definition same_memory :: "position_store \<Rightarrow> position_store \<Rightarrow> bool" where
  "same_memory s t \<longleftrightarrow> st_positions t = st_positions s \<and> st_mints t = st_mints s"

definition same_rows :: "position_store \<Rightarrow> position_store \<Rightarrow> bool" where
  "same_rows s t \<longleftrightarrow> st_rows t = st_rows s"

lemmas same_defs = same_slots_def same_memory_def same_rows_def

lemma store_frames [simp]:
  "same_slots s (snd (update_position ok p s))" "same_memory s (snd (update_position ok p s))"
  "same_slots s (snd (update_position_price_fields ok p s))" "same_memory s (snd (update_position_price_fields ok p s))"
  "same_slots s (snd (save_exit_record ok r s))" "same_memory s (snd (save_exit_record ok r s))" "same_rows s (snd (save_exit_record ok r s))"
  "same_slots s (snd (save_entry_record ok r' s))" "same_memory s (snd (save_entry_record ok r' s))" "same_rows s (snd (save_entry_record ok r' s))"
  "same_slots s (snd (clear_pending_dca_swap ok sig s))" "same_memory s (snd (clear_pending_dca_swap ok sig s))"
  "same_rows s (snd (clear_pending_dca_swap ok sig s))"
  "same_slots s (snd (clear_pending_partial_exit ok sig s))" "same_memory s (snd (clear_pending_partial_exit ok sig s))"
  "same_rows s (snd (clear_pending_partial_exit ok sig s))"
  "same_slots s (clear_partial_exit_pending mint s)" "same_memory s (clear_partial_exit_pending mint s)" "same_rows s (clear_partial_exit_pending mint s)"
  "same_slots s (snd (clear_pending_partial_exits_for_mint ok mint s))" "same_memory s (snd (clear_pending_partial_exits_for_mint ok mint s))"
  "same_slots s (remove_signature_from_index sig s)" "same_memory s (remove_signature_from_index sig s)" "same_rows s (remove_signature_from_index sig s)"
  by (simp_all add: same_defs update_position_def update_position_price_fields_def save_exit_record_def save_entry_record_def
      clear_pending_dca_swap_def persist_pending_dca_swaps_def clear_pending_partial_exit_def persist_pending_partial_exits_def
      clear_partial_exit_pending_def clear_pending_partial_exits_for_mint_def Let_def remove_signature_from_index_def split: option.split)

lemma same_trans:
  "same_slots s t \<Longrightarrow> same_slots t u \<Longrightarrow> same_slots s u" "same_memory s t \<Longrightarrow> same_memory t u \<Longrightarrow> same_memory s u"
  "same_rows s t \<Longrightarrow> same_rows t u \<Longrightarrow> same_rows s u"
  by (simp_all add: same_defs)

lemma same_memory_get: "same_memory s t \<Longrightarrow> get_position_by_id i t = get_position_by_id i s"
  by (simp add: same_memory_def get_position_by_id_def)

end
