(* ===== verification/Position_Slots.thy ===== *)
theory Position_Slots
  imports Position_Laws
begin

text \<open>
  A relation that every primitive change of the bot respects holds across every sequence of transitions: the locale
  \<open>bot_relation\<close>, used for the slots, the identities of the positions and the index from tokens to positions.
\<close>

section \<open>Writing a row\<close>

lemma update_position_cases:
  obtains e where "update_position ok p s = (Inl e, s)"
  | j old where "update_position ok p s = (Inr (), s\<lparr>st_rows := (st_rows s)(j \<mapsto> stored_row old p)\<rparr>)" and "po_id p = Some j"
      and "st_rows s j = Some old"
  by (cases "po_id p"; cases ok; cases "st_rows s (the (po_id p))") (auto simp: update_position_def)

lemma persist_cases:
  obtains "get_position_by_id i (bo_store b) = None" and "persist_then an i k b = (Inr no_effects, b)"
  | p where "get_position_by_id i (bo_store b) = Some p" and "persist_then an i k b = (Inl (TransitionFailed ''apply'' (po_mint p)), b)"
  | p j old where "get_position_by_id i (bo_store b) = Some p" and "po_id p = Some j" and "st_rows (bo_store b) j = Some old"
      and "persist_then an i k b = k p (b\<lparr>bo_store := (bo_store b)\<lparr>st_rows := (st_rows (bo_store b))(j \<mapsto> stored_row old p)\<rparr>\<rparr>)"
proof (cases "get_position_by_id i (bo_store b)")
  case None
  with that(1) show ?thesis by (simp add: persist_then_def)
next
  case (Some p)
  show ?thesis
    by (rule update_position_cases [of "da_update an" p "bo_store b"]) (use Some that(2,3) in \<open>simp_all add: persist_then_def\<close>)
qed

section \<open>Relations across transitions\<close>

locale bot_relation =
  fixes R :: "bot \<Rightarrow> bot \<Rightarrow> bool"
  assumes refl: "R b b"
    and trans: "R b c \<Longrightarrow> R c d \<Longrightarrow> R b d"
    and outside: "bo_store c = bo_store b \<Longrightarrow> R b c"
    and elsewhere: "same_slots (bo_store b) s \<Longrightarrow> same_memory (bo_store b) s \<Longrightarrow> R b (b\<lparr>bo_store := s\<rparr>)"
    and update: "keeps_identity f \<Longrightarrow> R b (b\<lparr>bo_store := (bo_store b)\<lparr>st_positions := snd (update_first P f (st_positions (bo_store b)))\<rparr>\<rparr>)"
    and release: "R b (b\<lparr>bo_store := release_position_slot i (bo_store b)\<rparr>)"
    and remove: "R b (b\<lparr>bo_store := snd (removed_from P (bo_store b))\<rparr>)"
begin

lemma persist_step:
  assumes "\<And>p c. R c (snd (k p c))"
  shows "R b (snd (persist_then an i k b))"
proof (rule persist_cases [of i b an k])
  fix p j old
  let ?s = "(bo_store b)\<lparr>st_rows := (st_rows (bo_store b))(j \<mapsto> stored_row old p)\<rparr>"
  assume k: "persist_then an i k b = k p (b\<lparr>bo_store := ?s\<rparr>)"
  have "R b (b\<lparr>bo_store := ?s\<rparr>)" by (rule elsewhere) (simp_all add: same_defs)
  then show ?thesis unfolding k by (rule trans) (rule assms)
qed (simp_all add: refl)

lemma outside_steps: "R b (call x b)" "R b (reset_priority env mint b)" "R b (detect_loss env p b)" "R b (record_loss env y b)"
  "R b (with_refresh t b)"
  by (rule outside; simp add: call_def reset_priority_def detect_loss_def record_loss_def with_refresh_def split: option.split)+

lemma store_steps: "R b (save_entry an r b)" "R b (save_exit an r' b)" "R b (on_store (release_position_slot i) b)"
  "R b (on_store (remove_signature_from_index sig) b)"
  by (simp_all add: save_entry_def save_exit_def on_store_def elsewhere release)

lemma flow:
  "R b c \<Longrightarrow> keeps_identity f \<Longrightarrow> R b (snd (update_by_id i f c))" "R b c \<Longrightarrow> R b (call x c)"
  "R b c \<Longrightarrow> R b (reset_priority env mint c)" "R b c \<Longrightarrow> R b (detect_loss env p c)"
  "R b c \<Longrightarrow> R b (record_loss env y c)" "R b c \<Longrightarrow> R b (with_refresh t c)"
  "R b c \<Longrightarrow> R b (save_entry an r c)" "R b c \<Longrightarrow> R b (save_exit an r' c)"
  "R b c \<Longrightarrow> R b (on_store (release_position_slot i) c)"
  "R b c \<Longrightarrow> R b (on_store (remove_signature_from_index sig) c)"
  "R b c \<Longrightarrow> (\<And>p d. R d (snd (k p d))) \<Longrightarrow> R b (snd (persist_then an i k c))"
  by (erule trans, simp add: update_by_id_store update outside_steps store_steps persist_step)+

lemma cleared:
  "R b c \<Longrightarrow> R b (c\<lparr>bo_store := snd (clear_pending_partial_exit ok sig (bo_store c))\<rparr>)"
  "R b c \<Longrightarrow> R b (c\<lparr>bo_store := clear_partial_exit_pending mint (snd (clear_pending_partial_exit ok sig (bo_store c)))\<rparr>)"
  "R b c \<Longrightarrow> R b (c\<lparr>bo_store := clear_partial_exit_pending mint (snd (clear_pending_partial_exits_for_mint ok mint (bo_store c)))\<rparr>)"
  "R b c \<Longrightarrow> R b (c\<lparr>bo_store := snd (clear_pending_dca_swap ok sig (bo_store c))\<rparr>)"
  by (erule trans, rule elsewhere; simp add: same_defs store_frames [unfolded same_defs])+

lemma entry: "R b (snd (apply_entry_verified an i price units fee sol b))"
  unfolding apply_entry_verified_def case_prod_beta Let_def if_distrib [of snd]
  by (auto intro!: flow refl split: option.split simp del: update_by_id_fields)

lemma exit: "R b (snd (apply_exit_verified env an i price sol fee time b))"
  unfolding apply_exit_verified_def case_prod_beta Let_def if_distrib [of snd]
  by (auto intro!: flow refl split: option.split simp del: update_by_id_fields)

lemma clear: "R b (snd (apply_exit_failed_clear an i b))"
  unfolding apply_exit_failed_clear_def case_prod_beta Let_def if_distrib [of snd]
  by (auto intro!: flow refl split: option.split simp del: update_by_id_fields)

lemma synthetic: "R b (snd (apply_synthetic_exit env an i time b))"
  unfolding apply_synthetic_exit_def case_prod_beta Let_def if_distrib [of snd]
  by (auto intro!: flow refl split: option.split simp del: update_by_id_fields)

lemma orphan: "R b (snd (apply_remove_orphan env i b))"
proof -
  have removed: "R b (b\<lparr>bo_store := snd (remove_position mint (bo_store b))\<rparr>)" for mint
    unfolding remove_position_def by (rule remove)
  have "R b (b\<lparr>bo_store := release_position_slot i (snd (remove_position mint (bo_store b)))\<rparr>)" for mint
    using trans [OF removed release [of "b\<lparr>bo_store := snd (remove_position mint (bo_store b))\<rparr>" i]] by simp
  with removed show ?thesis
    unfolding apply_remove_orphan_def case_prod_beta by (auto intro!: flow refl split: option.split sum.split)
qed

lemma partial: "R b (snd (apply_partial_exit env an i units sol price fee time sig percentage b))"
  unfolding apply_partial_exit_def case_prod_beta Let_def if_distrib [of snd]
  by (auto intro!: flow cleared refl simp: on_store_def case_prod_beta split: option.split sum.split simp del: update_by_id_fields)

lemma partial_failed: "R b (snd (apply_partial_exit_failed an i b))"
  unfolding apply_partial_exit_failed_def by (auto intro!: cleared refl simp: on_store_def split: option.split)

lemma dca: "R b (snd (apply_dca_verified env an i units sol price fee time sig b))"
  unfolding apply_dca_verified_def case_prod_beta Let_def if_distrib [of snd]
  by (auto intro!: flow cleared refl simp: case_prod_beta split: option.split sum.split simp del: update_by_id_fields)

lemma dca_failed: "R b (snd (apply_dca_failed an i sig b))"
  unfolding apply_dca_failed_def case_prod_beta by (auto intro!: cleared refl split: sum.split)

lemma price: "R b (snd (apply_price_tracking env an mint current highest lowest b))"
proof -
  let ?s = "snd (update_position_state mint (price_tracked (ae_now env) current highest lowest) (bo_store b))"
  have tracked: "R b (b\<lparr>bo_store := ?s\<rparr>)" by (simp add: update_position_state_def case_prod_beta update)
  have "R b (b\<lparr>bo_store := snd (update_position_price_fields ok p ?s)\<rparr>)" for ok p
    using trans [OF tracked elsewhere [of "b\<lparr>bo_store := ?s\<rparr>" "snd (update_position_price_fields ok p ?s)"]] by simp
  with tracked show ?thesis
    unfolding apply_price_tracking_def case_prod_beta Let_def by (auto split: option.split sum.split)
qed

lemma step: "R b (snd (apply_step env an t b))"
proof -
  have "R (with_refresh t b) (snd (apply_step env an t b))"
    by (cases t) (simp_all add: apply_step_def refl entry exit clear synthetic orphan partial partial_failed dca dca_failed price)
  with outside_steps(5) show ?thesis by (rule trans)
qed

lemma transition: "R b (snd (apply_transition env an an' t b))"
proof -
  have "R b (snd (case apply_step env an u (with_refresh t b) of (Inl e, c) \<Rightarrow> (Inl e, c)
      | (Inr _, c) \<Rightarrow> (case apply_step env an' v c of (Inl e, c) \<Rightarrow> (Inl e, c)
          | (Inr cleared, c) \<Rightarrow> (Inr (no_effects\<lparr>ef_db_updated := ef_db_updated cleared\<rparr>), c))))" for u v
    using trans [OF trans [OF outside_steps(5) step [of _ env an u]] step [of _ env an' v]]
      trans [OF outside_steps(5) step [of _ env an u]]
    by (auto simp: case_prod_beta split: sum.split)
  then show ?thesis by (cases t) (simp_all add: apply_transition_def step)
qed

lemma sequence: "R b (apply_all env ts b)"
  by (induction env ts b rule: apply_all.induct) (auto intro: refl trans transition)

end

section \<open>Slots\<close>

definition slot_step :: "bot \<Rightarrow> bot \<Rightarrow> bool" where
  "slot_step b c \<longleftrightarrow> (finite (st_slots (bo_store b)) \<longrightarrow>
     slot_sum (bo_store c) = slot_sum (bo_store b) \<and> st_slots (bo_store c) \<subseteq> st_slots (bo_store b))"

lemma removed_from_slots [simp]: "same_slots s (snd (removed_from P s))"
  by (simp add: removed_from_def same_slots_def split: option.split)

interpretation slots: bot_relation slot_step
proof unfold_locales
  show "slot_step b c \<Longrightarrow> slot_step c d \<Longrightarrow> slot_step b d" for b c d by (auto simp: slot_step_def dest: finite_subset)
  show "slot_step b (b\<lparr>bo_store := release_position_slot i (bo_store b)\<rparr>)" for b i by (auto simp: slot_step_def release_slot_sum)
  show "slot_step b (b\<lparr>bo_store := snd (removed_from P (bo_store b))\<rparr>)" for b P
    using removed_from_slots [of "bo_store b" P] by (simp add: slot_step_def slot_sum_def same_slots_def)
qed (auto simp: slot_step_def slot_sum_def same_slots_def)

section \<open>Identities\<close>

definition distinct_ids :: "bot \<Rightarrow> bool" where
  "distinct_ids b \<longleftrightarrow> distinct (map po_id (st_positions (bo_store b)))"

lemma remove_first_Some: "remove_first P ps = Some (p, qs) \<Longrightarrow> \<exists>xs ys. ps = xs @ p # ys \<and> qs = xs @ ys \<and> P p \<and> (\<forall>x \<in> set xs. \<not> P x)"
proof (induction ps arbitrary: qs)
  case (Cons a ps)
  show ?case
  proof (cases "P a")
    case True
    with Cons.prems show ?thesis by (intro exI [of _ "[]"] exI [of _ ps]) simp
  next
    case False
    with Cons.prems obtain qs' where "remove_first P ps = Some (p, qs')" "qs = a # qs'" by auto
    with Cons.IH obtain xs ys where "ps = xs @ p # ys" "qs' = xs @ ys" "P p" "\<forall>x \<in> set xs. \<not> P x" by blast
    with False \<open>qs = a # qs'\<close> show ?thesis by (intro exI [of _ "a # xs"] exI [of _ ys]) simp
  qed
qed simp

lemma update_keeps: "keeps_identity f \<Longrightarrow> map po_id (snd (update_first P f ps)) = map po_id ps"
  "keeps_identity f \<Longrightarrow> map po_mint (snd (update_first P f ps)) = map po_mint ps"
  by (simp_all add: update_first_map keeps_identity_def)

interpretation ids: bot_relation "\<lambda>b c. distinct_ids b \<longrightarrow> distinct_ids c"
proof unfold_locales
  show "distinct_ids b \<longrightarrow> distinct_ids (b\<lparr>bo_store := snd (removed_from P (bo_store b))\<rparr>)" for b P
    by (auto simp: distinct_ids_def removed_from_def split: option.split dest!: remove_first_Some)
qed (auto simp: distinct_ids_def same_memory_def update_keeps)

section \<open>The index from tokens to positions\<close>

definition index_ok :: "position_store \<Rightarrow> bool" where
  "index_ok s \<longleftrightarrow> (\<forall>mint k. st_mints s mint = Some k \<longrightarrow> k < length (st_positions s) \<and> po_mint (st_positions s ! k) = mint)
     \<and> (\<forall>p \<in> set (st_positions s). st_mints s (po_mint p) \<noteq> None)"

lemma index_from_some: "index_from n ps m mint = Some k \<Longrightarrow>
    (m mint = Some k \<and> (\<forall>p \<in> set ps. po_mint p \<noteq> mint)) \<or> (n \<le> k \<and> k < n + length ps \<and> po_mint (ps ! (k - n)) = mint)"
proof (induction ps arbitrary: n m)
  case (Cons p ps)
  have "index_from (Suc n) ps (m(po_mint p \<mapsto> n)) mint = Some k" using Cons.prems by simp
  from Cons.IH [OF this] show ?case
    by (auto simp: nth_Cons' Suc_le_eq split: if_splits)
qed simp

lemma index_from_none: "index_from n ps m mint = None \<longleftrightarrow> m mint = None \<and> (\<forall>p \<in> set ps. po_mint p \<noteq> mint)"
  by (induction ps arbitrary: n m) auto

lemma rebuilt_index: "index_ok (s\<lparr>st_positions := ps, st_signatures := x, st_mints := rebuild_position_indexes ps, st_pending_open := y\<rparr>)"
  unfolding index_ok_def rebuild_position_indexes_def
  using index_from_some [of 0 ps Map.empty] index_from_none [of 0 ps Map.empty] by fastforce

lemma index_ok_mints: "index_ok s \<longleftrightarrow>
    (\<forall>mint k. st_mints s mint = Some k \<longrightarrow> k < length (map po_mint (st_positions s)) \<and> map po_mint (st_positions s) ! k = mint)
    \<and> (\<forall>mint \<in> set (map po_mint (st_positions s)). st_mints s mint \<noteq> None)"
  by (auto simp: index_ok_def) (metis nth_map)

lemma index_same: "map po_mint (st_positions t) = map po_mint (st_positions s) \<Longrightarrow> st_mints t = st_mints s \<Longrightarrow> index_ok s \<Longrightarrow> index_ok t"
  unfolding index_ok_mints by (simp only:)

interpretation index: bot_relation "\<lambda>b c. index_ok (bo_store b) \<longrightarrow> index_ok (bo_store c)"
proof unfold_locales
  show "index_ok (bo_store b) \<longrightarrow> index_ok (bo_store (b\<lparr>bo_store := snd (removed_from P (bo_store b))\<rparr>))" for b P
    by (simp add: removed_from_def rebuilt_index split: option.split)
  show "keeps_identity f \<Longrightarrow> index_ok (bo_store b) \<longrightarrow>
      index_ok (bo_store (b\<lparr>bo_store := (bo_store b)\<lparr>st_positions := snd (update_first P f (st_positions (bo_store b)))\<rparr>\<rparr>))" for b f P
    using index_same [of "(bo_store b)\<lparr>st_positions := snd (update_first P f (st_positions (bo_store b)))\<rparr>" "bo_store b"]
    by (simp add: update_keeps)
  show "index_ok (bo_store b) \<longrightarrow> index_ok (bo_store (b\<lparr>bo_store := release_position_slot i (bo_store b)\<rparr>))" for b i
    by (simp add: index_ok_def)
qed (auto simp: same_memory_def index_ok_def)

end
