(* ===== verification/Position_Sample.thy ===== *)
theory Position_Sample
  imports Position_Types
begin

text \<open>A position the trader bought and holds, on which the properties of the positions are evaluated.\<close>

definition held_position :: "i64 \<Rightarrow> string \<Rightarrow> string \<Rightarrow> u64 \<Rightarrow> f64 \<Rightarrow> position" where
  "held_position i mint signature amount sol =
     \<lparr>po_id = Some i, po_mint = mint, po_symbol = mint, po_name = mint, po_entry_price = Finite 1, po_entry_time = 0,
      po_exit_price = None, po_exit_time = None, po_position_type = ''buy'', po_entry_size_sol = sol, po_total_size_sol = sol,
      po_price_highest = Finite 1, po_price_lowest = Finite 1, po_entry_transaction_signature = Some signature,
      po_exit_transaction_signature = None, po_token_amount = Some amount, po_effective_entry_price = Some (Finite 1),
      po_effective_exit_price = None, po_sol_received = None, po_profit_target_min = None, po_profit_target_max = None,
      po_liquidity_tier = None, po_transaction_entry_verified = True, po_transaction_exit_verified = False,
      po_entry_fee_lamports = None, po_exit_fee_lamports = None, po_current_price = None, po_current_price_updated = None,
      po_phantom_remove = False, po_phantom_confirmations = 0, po_phantom_first_seen = None, po_synthetic_exit = False,
      po_closed_reason = None, po_pnl = None, po_pnl_percent = None, po_unrealized_pnl = None,
      po_unrealized_pnl_percent = None, po_remaining_token_amount = Some amount, po_total_exited_amount = 0,
      po_average_exit_price = None, po_partial_exit_count = 0, po_dca_count = 0, po_average_entry_price = Finite 1,
      po_last_dca_time = None, po_archived = False, po_archived_at = None, po_origin = Manual, po_management = UserOnly,
      po_round_key = None, po_basis_complete = True, po_history_complete = True, po_holding_state = None\<rparr>"

end
