(* ===== verification/Position_Closes.thy ===== *)
theory Position_Closes
  imports Position_Slots Position_Sample
begin

text \<open>
  The properties of closing a position: a verified close is booked at most once, its slot is freed once, and what
  becomes of a close whose row could not be written.
\<close>

section \<open>Closing\<close>

lemma with_refresh_store [simp]: "bo_store (with_refresh t b) = bo_store b" "bo_store (call x b) = bo_store b"
  "bo_store (reset_priority env mint b) = bo_store b" "bo_store (detect_loss env p b) = bo_store b"
  "bo_store (record_loss env y b) = bo_store b"
  by (simp_all add: with_refresh_def call_def reset_priority_def detect_loss_def record_loss_def split: option.split)

lemma reset_priority_slots: "st_slots (bo_store (reset_priority env mint (on_store (release_position_slot i) b))) = st_slots (bo_store b) - {i}"
  by (simp add: on_store_def)

text \<open>A full exit up to the write of the row, and what follows it.\<close>

definition exit_memory :: "apply_env \<Rightarrow> i64 \<Rightarrow> f64 \<Rightarrow> f64 \<Rightarrow> u64 \<Rightarrow> int \<Rightarrow> position \<Rightarrow> bot \<Rightarrow> bot" where
  "exit_memory env i price sol fee time p b =
     (let booked = exit_booked price sol fee time p;
          pnl = calculate_position_pnl (ae_pnl env) booked None;
          b = detect_loss env (pnl_booked pnl booked)
            (snd (update_by_id i (pnl_booked pnl) (snd (update_by_id i (exit_booked price sol fee time) b))))
      in if f64_less (fst pnl) zero \<and> \<not> is_wallet_derived booked then record_loss env (fst pnl) b else b)"

definition closed_position :: "apply_env \<Rightarrow> f64 \<Rightarrow> f64 \<Rightarrow> u64 \<Rightarrow> int \<Rightarrow> position \<Rightarrow> position" where
  "closed_position env price sol fee time p =
     pnl_booked (calculate_position_pnl (ae_pnl env) (exit_booked price sol fee time p) None) (exit_booked price sol fee time p)"

definition exit_after :: "apply_env \<Rightarrow> db_answers \<Rightarrow> i64 \<Rightarrow> f64 \<Rightarrow> f64 \<Rightarrow> u64 \<Rightarrow> int \<Rightarrow> position \<Rightarrow> position \<Rightarrow> bot \<Rightarrow> applied" where
  "exit_after env an i price sol fee time before p b =
     (Inr (no_effects\<lparr>ef_db_updated := True, ef_position_closed := True\<rparr>),
      reset_priority env (po_mint p) (on_store (release_position_slot i)
        (case po_exit_transaction_signature p of
           None \<Rightarrow> b
         | Some signature \<Rightarrow> save_exit an \<lparr>xr_position_id = i, xr_timestamp = time,
             xr_amount = unwrap_or (po_remaining_token_amount before) 0,
             xr_price = price, xr_sol_received = sol, xr_transaction_signature = signature, xr_is_partial = False,
             xr_percentage = percent, xr_fees_lamports = Some fee\<rparr> b)))"

lemma exit_unfold:
  assumes "get_position_by_id i (bo_store b) = Some p" and "\<not> po_transaction_exit_verified p"
  shows "apply_exit_verified env an i price sol fee time b =
    persist_then an i (exit_after env an i price sol fee time p) (exit_memory env i price sol fee time p b)"
  using assms by (simp add: apply_exit_verified_def exit_memory_def exit_after_def [abs_def] Let_def)

lemma exit_memory_get:
  assumes "get_position_by_id i (bo_store b) = Some p"
  shows "get_position_by_id j (bo_store (exit_memory env i price sol fee time p b)) =
    (if j = i then Some (closed_position env price sol fee time p) else get_position_by_id j (bo_store b))"
  using assms by (simp add: exit_memory_def Let_def closed_position_def)

lemma exit_memory_fields [simp]:
  "st_slots (bo_store (exit_memory env i price sol fee time p b)) = st_slots (bo_store b)"
  "st_rows (bo_store (exit_memory env i price sol fee time p b)) = st_rows (bo_store b)"
  "st_exits (bo_store (exit_memory env i price sol fee time p b)) = st_exits (bo_store b)"
  by (simp_all add: exit_memory_def Let_def)

lemma exit_after_fields [simp]:
  "same_memory (bo_store b) (bo_store (snd (exit_after env an i price sol fee time before p b)))"
  "st_slots (bo_store (snd (exit_after env an i price sol fee time before p b))) = st_slots (bo_store b) - {i}"
  "st_rows (bo_store (snd (exit_after env an i price sol fee time before p b))) = st_rows (bo_store b)"
  "fst (exit_after env an i price sol fee time before p b) = Inr (no_effects\<lparr>ef_db_updated := True, ef_position_closed := True\<rparr>)"
  by (simp_all add: exit_after_def on_store_def save_exit_def store_frames [unfolded same_defs] same_memory_def split: option.split)

lemma closed_position_fields [simp]:
  "po_transaction_exit_verified (closed_position env price sol fee time p)" "po_id (closed_position env price sol fee time p) = po_id p"
  "po_exit_time (closed_position env price sol fee time p) = Some time"
  by (simp_all add: closed_position_def pnl_booked_def exit_booked_def Let_def roll_remaining_def split: option.split)

lemma exit_frees: "apply_exit_verified env an i price sol fee time b = (Inr ef, c) \<Longrightarrow> ef_position_closed ef \<Longrightarrow> i \<notin> st_slots (bo_store c)"
proof (cases "get_position_by_id i (bo_store b)")
  case (Some p)
  assume run: "apply_exit_verified env an i price sol fee time b = (Inr ef, c)" "ef_position_closed ef"
  show ?thesis
  proof (cases "po_transaction_exit_verified p")
    case True
    with run Some show ?thesis by (auto simp: apply_exit_verified_def no_effects_def)
  next
    case False
    show ?thesis
      by (rule persist_cases [of i "exit_memory env i price sol fee time p b" an "exit_after env an i price sol fee time p"])
        (use run exit_unfold [OF Some False, of env an price sol fee time] in \<open>auto simp: exit_after_def on_store_def no_effects_def\<close>)
  qed
qed (auto simp: apply_exit_verified_def no_effects_def)

lemma synthetic_frees: "apply_synthetic_exit env an i time b = (Inr ef, c) \<Longrightarrow> ef_position_closed ef \<Longrightarrow> i \<notin> st_slots (bo_store c)"
  unfolding apply_synthetic_exit_def case_prod_beta Let_def
  by (auto simp: persist_then_def no_effects_def on_store_def split: if_splits option.splits prod.splits sum.splits)

lemma orphan_frees: "apply_remove_orphan env i b = (Inr ef, c) \<Longrightarrow> ef_position_removed ef \<Longrightarrow> i \<notin> st_slots (bo_store c)"
  by (auto simp: apply_remove_orphan_def no_effects_def split: sum.splits option.splits prod.splits)

lemma terminal_frees:
  assumes "is_terminal t" and "apply_transition env an an' t b = (Inr ef, c)" and "ef_position_closed ef \<or> ef_position_removed ef"
  shows "t_id t \<notin> st_slots (bo_store c)"
proof (cases t)
  case (ExitVerified i price sol fee time)
  with assms have run: "apply_exit_verified env an i price sol fee time (with_refresh t b) = (Inr ef, c)"
    by (simp add: apply_transition_def apply_step_def)
  have "\<not> ef_position_removed ef"
  proof (cases "get_position_by_id i (bo_store b)")
    case (Some p)
    show ?thesis
    proof (cases "po_transaction_exit_verified p")
      case False
      show ?thesis
        by (rule persist_cases [of i "exit_memory env i price sol fee time p (with_refresh t b)" an "exit_after env an i price sol fee time p"])
          (use run exit_unfold [of i "with_refresh t b" p env an price sol fee time] Some False in \<open>auto simp: exit_after_def no_effects_def\<close>)
    qed (use run Some in \<open>auto simp: apply_exit_verified_def no_effects_def\<close>)
  qed (use run in \<open>auto simp: apply_exit_verified_def no_effects_def\<close>)
  with exit_frees [OF run] assms(3) ExitVerified show ?thesis by simp
next
  case (ExitPermanentFailureSynthetic i time)
  with assms have run: "apply_synthetic_exit env an i time (with_refresh t b) = (Inr ef, c)"
    by (simp add: apply_transition_def apply_step_def)
  then have "\<not> ef_position_removed ef" unfolding apply_synthetic_exit_def case_prod_beta Let_def
    by (auto simp: persist_then_def no_effects_def split: if_splits option.splits prod.splits sum.splits)
  with synthetic_frees [OF run] assms(3) ExitPermanentFailureSynthetic show ?thesis by simp
next
  case (RemoveOrphanEntry i)
  with assms have run: "apply_remove_orphan env i (with_refresh t b) = (Inr ef, c)"
    by (simp add: apply_transition_def apply_step_def)
  then have "\<not> ef_position_closed ef"
    by (auto simp: apply_remove_orphan_def no_effects_def split: sum.splits option.splits prod.splits)
  with orphan_frees [OF run] assms(3) RemoveOrphanEntry show ?thesis by simp
qed (use assms(1) in \<open>simp_all add: is_terminal_def\<close>)

section \<open>A close is booked once\<close>

definition booked_close :: "i64 \<Rightarrow> position_store \<Rightarrow> bool" where
  "booked_close i s \<longleftrightarrow> (\<forall>p. get_position_by_id i s = Some p \<longrightarrow> po_transaction_exit_verified p)"

lemma exit_when_booked:
  assumes "booked_close i (bo_store b)"
  shows "apply_transition env an an' (ExitVerified i price sol fee time) b = (Inr no_effects, call RefreshBalance b)"
  using assms by (cases "get_position_by_id i (bo_store b)")
    (simp_all add: apply_transition_def apply_step_def apply_exit_verified_def with_refresh_def affects_wallet_balance_def booked_close_def)

lemma booked_close_call [simp]: "booked_close i (bo_store (call x b)) = booked_close i (bo_store b)"
  by simp

lemma persist_memory:
  assumes "\<And>p c. same_memory (bo_store c) (bo_store (snd (k p c)))"
  shows "same_memory (bo_store b) (bo_store (snd (persist_then an i k b)))"
proof (rule persist_cases [of i b an k])
  fix p j old
  let ?c = "b\<lparr>bo_store := (bo_store b)\<lparr>st_rows := (st_rows (bo_store b))(j \<mapsto> stored_row old p)\<rparr>\<rparr>"
  assume k: "persist_then an i k b = k p ?c"
  have "same_memory (bo_store b) (bo_store ?c)" by (simp add: same_memory_def)
  then show ?thesis unfolding k by (rule same_trans(2)) (rule assms)
qed (simp_all add: same_memory_def)

lemma same_memory_on [simp]:
  "same_memory (bo_store b) (bo_store (save_exit an r b))" "same_memory (bo_store b) (bo_store (save_entry an r' b))"
  "same_memory (bo_store b) (bo_store (on_store (release_position_slot i) b))" "same_memory (bo_store b) (bo_store b)"
  by (simp_all add: save_exit_def save_entry_def on_store_def store_frames) (simp_all add: same_memory_def)

section \<open>A sample bot\<close>

definition sample_env :: apply_env where
  "sample_env = \<lparr>ae_pnl = \<lparr>pe_decimals = (\<lambda>_. Some 0), pe_pow10 = (\<lambda>_. Finite 1), pe_raw_units_per_native = 1000000000\<rparr>,
     ae_settings = \<lparr>ls_blacklist_enabled = False, ls_blacklist_copy_origins = False, ls_blacklist_threshold_pct = Finite 0,
       ls_limit_enabled = True, ls_limit_sol = Finite 1\<rparr>, ae_now = 7, ae_tokens_db = True\<rparr>"

definition all_well :: db_answers where
  "all_well = \<lparr>da_lookup = True, da_update = True, da_record = True, da_metadata = True\<rparr>"

definition no_update :: db_answers where
  "no_update = all_well\<lparr>da_update := False\<rparr>"

definition store_of :: "position list \<Rightarrow> nat \<Rightarrow> i64 set \<Rightarrow> position_store" where
  "store_of ps permits slots = \<lparr>st_positions = ps, st_signatures = Map.empty, st_mints = rebuild_position_indexes ps,
     st_pending_open = Map.empty, st_permits = permits, st_slots = slots, st_partial_counts = Map.empty, st_partials = [],
     st_dcas = [], st_saved_partials = None, st_saved_dcas = None,
     st_rows = map_of (map (\<lambda>p. (the (po_id p), p)) ps), st_exits = [], st_entries = []\<rparr>"

definition bot_of :: "position_store \<Rightarrow> bot" where
  "bot_of s = \<lparr>bo_store = s, bo_loss = \<lparr>ll_cumulative_loss_sol = Finite 0, ll_is_limited = False, ll_limited_at = None\<rparr>, bo_calls = []\<rparr>"

definition closing_position :: position where
  "closing_position = (held_position 1 ''A'' ''s'' 7 (Finite 2))\<lparr>po_exit_transaction_signature := Some ''x''\<rparr>"

definition sample_bot :: bot where
  "sample_bot = bot_of (store_of [closing_position, held_position 2 ''B'' ''t'' 9 (Finite 1)] 3 {1, 2})"

definition sample_exit :: position_transition where
  "sample_exit = ExitVerified 1 (Finite 1) (Finite 2) 5000 9"

lemma sample_get [simp]: "get_position_by_id 1 (bo_store sample_bot) = Some closing_position"
  by (simp add: sample_bot_def bot_of_def store_of_def get_position_by_id_def closing_position_def held_position_def)

lemma closing_fields [simp]: "\<not> po_transaction_exit_verified closing_position" "po_id closing_position = Some 1" "po_mint closing_position = ''A''"
  by (simp_all add: closing_position_def held_position_def)

section \<open>Properties\<close>

text \<open>C16: However the transitions interleave and whatever the database answers, the free permits and the slots held add up
  to what they were: a slot is returned exactly when its holder gives it up, so the bot never opens more
  positions than it may. A transition that reports a position closed or removed leaves it without a slot.\<close>

theorem slots_are_released_once:
  assumes "finite (st_slots (bo_store b))" and "c = apply_all env ts b"
  shows "st_permits (bo_store c) + card (st_slots (bo_store c)) = st_permits (bo_store b) + card (st_slots (bo_store b))
    \<and> st_slots (bo_store c) \<subseteq> st_slots (bo_store b)
    \<and> (\<forall>an an' t ef d. is_terminal t \<and> apply_transition env an an' t c = (Inr ef, d)
         \<and> (ef_position_closed ef \<or> ef_position_removed ef) \<longrightarrow> t_id t \<notin> st_slots (bo_store d))"
  using slots.sequence [of b env ts] assms terminal_frees by (auto simp: slot_step_def slot_sum_def)

theorem slots_are_released_once_witness:
  "st_permits (bo_store (apply_all sample_env [(all_well, all_well, sample_exit), (no_update, all_well, RemoveOrphanEntry 2)] sample_bot))
     + card (st_slots (bo_store (apply_all sample_env [(all_well, all_well, sample_exit), (no_update, all_well, RemoveOrphanEntry 2)] sample_bot))) = 5"
proof -
  have "finite (st_slots (bo_store sample_bot))" "st_permits (bo_store sample_bot) = 3" "card (st_slots (bo_store sample_bot)) = 2"
    by (simp_all add: sample_bot_def bot_of_def store_of_def)
  with slots_are_released_once [OF this(1) refl, of sample_env "[(all_well, all_well, sample_exit), (no_update, all_well, RemoveOrphanEntry 2)]"]
  show ?thesis by simp
qed

text \<open>C17: A verified close is booked at most once. Whatever the first application met, applying a close of the same position
  again, with the same or other amounts, changes nothing but to ask for a fresh wallet balance.\<close>

theorem close_is_booked_once:
  "apply_transition env an2 an2' (ExitVerified i price2 sol2 fee2 time2)
      (snd (apply_transition env an an' (ExitVerified i price sol fee time) b))
    = (Inr no_effects, call RefreshBalance (snd (apply_transition env an an' (ExitVerified i price sol fee time) b)))"
proof (rule exit_when_booked)
  let ?b = "with_refresh (ExitVerified i price sol fee time) b"
  have run: "apply_transition env an an' (ExitVerified i price sol fee time) b = apply_exit_verified env an i price sol fee time ?b"
    by (simp add: apply_transition_def apply_step_def)
  show "booked_close i (bo_store (snd (apply_transition env an an' (ExitVerified i price sol fee time) b)))"
  proof (cases "\<exists>p. get_position_by_id i (bo_store b) = Some p \<and> \<not> po_transaction_exit_verified p")
    case True
    then obtain p where p: "get_position_by_id i (bo_store ?b) = Some p" "\<not> po_transaction_exit_verified p" by auto
    have "same_memory (bo_store (exit_memory env i price sol fee time p ?b)) (bo_store (snd (apply_exit_verified env an i price sol fee time ?b)))"
      unfolding exit_unfold [OF p] by (rule persist_memory) simp
    from same_memory_get [OF this] show ?thesis unfolding run booked_close_def by (simp add: exit_memory_get [OF p(1)])
  next
    case False
    then have "snd (apply_exit_verified env an i price sol fee time ?b) = ?b"
      by (cases "get_position_by_id i (bo_store b)") (auto simp: apply_exit_verified_def)
    with False show ?thesis unfolding run by (auto simp: booked_close_def)
  qed
qed

text \<open>C19: A close whose row could not be written is never completed. The transition fails after memory was changed; the
  worker applies it again, the guard against booking twice takes it for booked, and so the row stays open, the
  exit is not recorded and the slot stays taken, however often it is retried and whatever the database answers.\<close>

theorem failed_close_is_never_completed:
  assumes "get_position_by_id i (bo_store b) = Some p" and "\<not> po_transaction_exit_verified p" and "\<not> da_update an"
    and "t = ExitVerified i price sol fee time"
    and "c = apply_all env (map (\<lambda>(an, an'). (an, an', t)) retries) (snd (apply_transition env an an' t b))"
  shows "fst (apply_transition env an an' t b) = Inl (TransitionFailed ''apply'' (po_mint p))
    \<and> get_position_by_id i (bo_store c) = Some (closed_position env price sol fee time p)
    \<and> st_slots (bo_store c) = st_slots (bo_store b) \<and> st_rows (bo_store c) = st_rows (bo_store b)
    \<and> st_exits (bo_store c) = st_exits (bo_store b)"
proof -
  let ?b = "with_refresh t b"
  let ?m = "exit_memory env i price sol fee time p ?b"
  have p: "get_position_by_id i (bo_store ?b) = Some p" using assms(1) by simp
  have get: "get_position_by_id i (bo_store ?m) = Some (closed_position env price sol fee time p)"
    by (simp add: exit_memory_get [OF p])
  have "po_id p = Some i" using assms(1) by (auto simp: get_position_by_id_def find_Some_iff)
  then have "persist_then an i (exit_after env an i price sol fee time p) ?m
      = (Inl (TransitionFailed ''apply'' (po_mint (closed_position env price sol fee time p))), ?m)"
    using assms(3) by (simp add: persist_then_def get update_position_def)
  moreover have "po_mint (closed_position env price sol fee time p) = po_mint p"
    by (simp add: closed_position_def pnl_booked_def exit_booked_def Let_def roll_remaining_def split: option.split)
  ultimately have run: "apply_transition env an an' t b = (Inl (TransitionFailed ''apply'' (po_mint p)), ?m)"
    using exit_unfold [OF p assms(2)] by (simp add: assms(4) apply_transition_def apply_step_def)
  have again: "booked_close i (bo_store d) \<Longrightarrow> bo_store (apply_all env (map (\<lambda>(an, an'). (an, an', t)) rs) d) = bo_store d" for rs d
  proof (induction rs arbitrary: d)
    case (Cons r rs)
    then show ?case by (cases r) (simp add: assms(4) exit_when_booked [OF Cons.prems])
  qed simp
  have "booked_close i (bo_store ?m)" by (simp add: booked_close_def get)
  from again [OF this] have "bo_store c = bo_store ?m" by (simp add: assms(5) run)
  with get run show ?thesis by simp
qed

theorem failed_close_is_never_completed_witness:
  "fst (apply_transition sample_env no_update all_well sample_exit sample_bot) = Inl (TransitionFailed ''apply'' ''A'')
    \<and> 1 \<in> st_slots (bo_store (apply_all sample_env [(all_well, all_well, sample_exit)]
        (snd (apply_transition sample_env no_update all_well sample_exit sample_bot))))"
proof -
  have "\<not> da_update no_update" by (simp add: no_update_def)
  from failed_close_is_never_completed [OF sample_get closing_fields(1) this sample_exit_def refl,
      where env = sample_env and an' = all_well and retries = "[(all_well, all_well)]"]
  show ?thesis by (simp add: no_update_def sample_bot_def bot_of_def store_of_def)
qed

text \<open>When the limit was lowered below the number of open positions, a restart registers every one of them as a holder
  but takes only the permits there are; closing them all hands out more permits than the limit allows.\<close>

theorem lowered_limit_leaks_permits:
  fixes s :: position_store
  defines "s \<equiv> rebuild_position_slot_holders (reconcile_global_position_semaphore 1
      (store_of [held_position 1 ''A'' ''s'' 7 (Finite 2), held_position 2 ''B'' ''t'' 9 (Finite 1)] 1 {}))"
  shows "st_permits s = 0 \<and> st_permits (release_position_slot 1 (release_position_slot 2 s)) = 2"
  by (simp add: s_def store_of_def reconcile_global_position_semaphore_def rebuild_position_slot_holders_def
      get_capacity_consuming_positions_def is_position_open_def is_wallet_derived_def held_position_def Let_def
      release_position_slot_def release_global_position_permit_def map_filter_simps)

end
