(* ===== verification/Position_Tokens.thy ===== *)
theory Position_Tokens
  imports Position_Closes
begin

text \<open>
  The tokens of a position under any sequence of transitions: what is held and what was sold add up to what was
  bought. And what a fill whose write failed does to them when it is applied again.
\<close>

section \<open>A position after a transition\<close>

lemma persist_get:
  assumes "\<And>p c. same_memory (bo_store c) (bo_store (snd (k p c)))"
  shows "get_position_by_id j (bo_store (snd (persist_then an i k b))) = get_position_by_id j (bo_store b)"
  by (rule same_memory_get) (rule persist_memory [OF assms])

definition changed :: "(position \<Rightarrow> position) \<Rightarrow> i64 \<Rightarrow> i64 \<Rightarrow> bot \<Rightarrow> position option" where
  "changed f i j b = (if i = j then map_option f (get_position_by_id j (bo_store b)) else get_position_by_id j (bo_store b))"

lemma changed_none [simp]: "get_position_by_id i (bo_store b) = None \<Longrightarrow> changed f i j b = get_position_by_id j (bo_store b)"
  by (auto simp: changed_def)

lemma same_memory_case [simp]:
  "(\<And>x. same_memory (bo_store c) (bo_store (f x))) \<Longrightarrow> same_memory (bo_store c) (bo_store (case d of None \<Rightarrow> c | Some x \<Rightarrow> f x))"
  "same_memory (bo_store c) (bo_store (reset_priority env mint (on_store (release_position_slot i) c)))"
  "same_memory (bo_store c) (bo_store (on_store (remove_signature_from_index sig) c))"
  by (cases d) (simp_all add: on_store_def same_memory_def remove_signature_from_index_def)

lemma get_entry: "get_position_by_id j (bo_store (snd (apply_entry_verified an i price units fee sol b))) =
    changed (entry_booked price units fee sol) i j b"
  by (cases "get_position_by_id i (bo_store b)") (auto simp: apply_entry_verified_def case_prod_beta Let_def changed_def persist_get)

lemma get_exit: "get_position_by_id j (bo_store (snd (apply_exit_verified env an i price sol fee time b))) =
    changed (\<lambda>p. if po_transaction_exit_verified p then p else closed_position env price sol fee time p) i j b"
proof (cases "get_position_by_id i (bo_store b)")
  case (Some p)
  show ?thesis
  proof (cases "po_transaction_exit_verified p")
    case True
    with Some show ?thesis by (auto simp: apply_exit_verified_def changed_def)
  next
    case False
    with Some show ?thesis by (auto simp: exit_unfold [OF Some False] persist_get exit_memory_get changed_def)
  qed
qed (auto simp: apply_exit_verified_def changed_def)

lemma get_clear: "get_position_by_id j (bo_store (snd (apply_exit_failed_clear an i b))) = changed exit_cleared i j b"
proof -
  have "get_position_by_id j (bo_store (case d of None \<Rightarrow> c | Some sig \<Rightarrow> on_store (remove_signature_from_index sig) c))
      = get_position_by_id j (bo_store c)" for d c
    by (rule same_memory_get) simp
  then show ?thesis
    by (cases "get_position_by_id i (bo_store b)")
      (auto simp: apply_exit_failed_clear_def case_prod_beta Let_def changed_def persist_get)
qed

lemma get_synthetic: "get_position_by_id j (bo_store (snd (apply_synthetic_exit env an i time b))) = changed (synthetic_exit_booked time) i j b"
  by (cases "get_position_by_id i (bo_store b)") (auto simp: apply_synthetic_exit_def case_prod_beta Let_def changed_def persist_get)

lemma clear_partial_memory: "same_memory s (clear_partial_exit_pending mint (snd (clear_pending_partial_exit ok sig s)))"
  by (simp add: same_memory_def store_frames [unfolded same_defs])

definition after_partial :: "apply_env \<Rightarrow> u64 \<Rightarrow> f64 \<Rightarrow> f64 \<Rightarrow> position \<Rightarrow> position" where
  "after_partial env units sol price p =
     (let q = partial_booked units sol price p in case po_current_price q of
        None \<Rightarrow> q | Some current \<Rightarrow> unrealized_booked (calculate_position_pnl (ae_pnl env) q (Some current)) q)"

lemma sum_case_snd: "snd (case x of Inl e \<Rightarrow> (f e, c) | Inr y \<Rightarrow> (g y, d)) = (case x of Inl _ \<Rightarrow> c | Inr _ \<Rightarrow> d)"
  by (cases x) simp_all

lemma get_partial: "get_position_by_id j (bo_store (snd (apply_partial_exit env an i units sol price fee time sig percentage b))) =
    (if exit_record_exists (da_lookup an) i sig (bo_store b) then get_position_by_id j (bo_store b)
     else changed (after_partial env units sol price) i j b)"
proof (cases "exit_record_exists (da_lookup an) i sig (bo_store b)")
  case True
  then show ?thesis
    by (simp add: apply_partial_exit_def on_store_def same_memory_get [OF clear_partial_memory] split: option.split)
next
  case False
  show ?thesis
  proof (cases "get_position_by_id i (bo_store b)")
    case None
    with False show ?thesis by (auto simp: apply_partial_exit_def case_prod_beta changed_def)
  next
    case (Some p)
    have k: "same_memory (bo_store c) (bo_store (snd (let b = save_exit an r c in case clear_pending_partial_exit ok sig (bo_store b) of
         (Inl _, s) \<Rightarrow> (Inl e, b\<lparr>bo_store := s\<rparr>) | (Inr _, s) \<Rightarrow> (Inr ef, b\<lparr>bo_store := clear_partial_exit_pending mint s\<rparr>))))"
      for c r ok e ef mint
      by (simp add: Let_def case_prod_beta sum_case_snd same_memory_def save_exit_def on_store_def store_frames [unfolded same_defs]
          split: sum.split)
    from Some False show ?thesis
      by (cases "po_current_price (partial_booked units sol price p)")
        (auto simp: apply_partial_exit_def [unfolded Let_def] case_prod_beta changed_def after_partial_def Let_def persist_get [OF k [unfolded Let_def case_prod_beta]])
  qed
qed

lemma get_partial_failed: "get_position_by_id j (bo_store (snd (apply_partial_exit_failed an i b))) = get_position_by_id j (bo_store b)"
proof -
  have "same_memory s (clear_partial_exit_pending mint (snd (clear_pending_partial_exits_for_mint ok mint s)))" for mint ok s
    by (simp add: same_memory_def store_frames [unfolded same_defs])
  from same_memory_get [OF this] show ?thesis by (simp add: apply_partial_exit_failed_def on_store_def split: option.split)
qed

lemma get_dca: "get_position_by_id j (bo_store (snd (apply_dca_verified env an i units sol price fee time sig b))) =
    changed (\<lambda>p. dca_booked (ae_pnl env) (unwrap_or (pe_decimals (ae_pnl env) (po_mint p)) DEFAULT_DECIMALS) units sol time p) i j b"
proof (cases "get_position_by_id i (bo_store b)")
  case None
  then show ?thesis by (auto simp: apply_dca_verified_def find_mint_by_position_id_def get_position_by_id_def changed_def)
next
  case (Some p)
  then have mint: "find_mint_by_position_id i (bo_store b) = Inr (po_mint p)"
    by (simp add: find_mint_by_position_id_def get_position_by_id_def)
  have k: "same_memory (bo_store c) (bo_store (snd (let b = save_entry an r c in case clear_pending_dca_swap ok sig (bo_store b) of
       (Inl _, s) \<Rightarrow> (Inl e, b\<lparr>bo_store := s\<rparr>) | (Inr _, s) \<Rightarrow> (Inr ef, b\<lparr>bo_store := s\<rparr>))))"
    for c r ok e ef
    by (simp add: Let_def case_prod_beta sum_case_snd same_memory_def save_entry_def on_store_def store_frames [unfolded same_defs]
        split: sum.split)
  from Some show ?thesis
    by (auto simp: apply_dca_verified_def [unfolded Let_def] case_prod_beta mint changed_def persist_get [OF k [unfolded Let_def case_prod_beta]])
qed

lemma get_dca_failed: "get_position_by_id j (bo_store (snd (apply_dca_failed an i sig b))) = get_position_by_id j (bo_store b)"
proof -
  have "same_memory s (snd (clear_pending_dca_swap ok sig s))" for ok s by (rule store_frames)
  from same_memory_get [OF this] show ?thesis by (simp add: apply_dca_failed_def case_prod_beta sum_case_snd split: sum.split)
qed

lemma find_updated:
  assumes "\<And>p. po_id (f p) = po_id p" and "find (\<lambda>p. po_id p = Some j) (snd (update_first P f ps)) = Some q"
  shows "\<exists>p. find (\<lambda>p. po_id p = Some j) ps = Some p \<and> (q = p \<or> q = f p)"
  using assms(2)
proof (induction ps)
  case (Cons p ps)
  then show ?case using assms(1) by (cases "P p"; cases "po_id p = Some j") (auto split: prod.splits)
qed simp

lemma get_price:
  assumes "get_position_by_id j (bo_store (snd (apply_price_tracking env an mint current highest lowest b))) = Some q"
  shows "\<exists>p. get_position_by_id j (bo_store b) = Some p \<and> (q = p \<or> q = price_tracked (ae_now env) current highest lowest p)"
proof -
  let ?f = "price_tracked (ae_now env) current highest lowest"
  let ?s = "snd (update_position_state mint ?f (bo_store b))"
  have "same_memory ?s (bo_store (snd (apply_price_tracking env an mint current highest lowest b)))"
    by (auto simp: apply_price_tracking_def case_prod_beta Let_def sum_case_snd same_memory_def store_frames [unfolded same_defs]
        split: option.split sum.split)
  from same_memory_get [OF this, of j] assms have "get_position_by_id j ?s = Some q" by simp
  then have "find (\<lambda>p. po_id p = Some j) (snd (update_first (\<lambda>p. po_mint p = mint) ?f (st_positions (bo_store b)))) = Some q"
    by (simp add: update_position_state_def case_prod_beta get_position_by_id_def)
  from find_updated [OF _ this] show ?thesis by (simp add: get_position_by_id_def price_tracked_def)
qed

lemma find_distinct:
  assumes "distinct (map po_id ps)" and "p \<in> set ps" and "po_id p = Some j"
  shows "find (\<lambda>p. po_id p = Some j) ps = Some p"
  using assms by (induction ps) force+

lemma get_orphan:
  assumes "distinct_ids b" and "get_position_by_id j (bo_store (snd (apply_remove_orphan env i b))) = Some q"
  shows "get_position_by_id j (bo_store b) = Some q"
proof -
  have "\<exists>P. st_positions (bo_store (snd (apply_remove_orphan env i b))) = st_positions (snd (removed_from P (bo_store b)))"
  proof (cases "find_mint_by_position_id i (bo_store b)")
    case (Inl e)
    have "st_positions (bo_store b) = st_positions (snd (removed_from (\<lambda>_. False) (bo_store b)))"
    proof -
      have "remove_first (\<lambda>_. False) ps = None" for ps by (induction ps) simp_all
      then show ?thesis by (simp add: removed_from_def)
    qed
    with Inl show ?thesis by (auto simp: apply_remove_orphan_def)
  next
    case (Inr mint)
    then have "st_positions (bo_store (snd (apply_remove_orphan env i b))) = st_positions (snd (removed_from (\<lambda>p. po_mint p = mint) (bo_store b)))"
      by (simp add: apply_remove_orphan_def case_prod_beta remove_position_def split: option.split)
    then show ?thesis by blast
  qed
  then obtain P where P: "st_positions (bo_store (snd (apply_remove_orphan env i b))) = st_positions (snd (removed_from P (bo_store b)))" ..
  from assms(2) have q: "q \<in> set (st_positions (snd (removed_from P (bo_store b))))" "po_id q = Some j"
    by (auto simp: get_position_by_id_def P find_Some_iff)
  have "q \<in> set (st_positions (bo_store b))"
    using q(1) by (auto simp: removed_from_def split: option.splits dest!: remove_first_Some)
  with q(2) assms(1) show ?thesis by (simp add: get_position_by_id_def distinct_ids_def find_distinct)
qed

section \<open>What is held and sold\<close>

lemma roll_acquired [simp]: "acquired_units (roll_remaining p) = acquired_units p"
  by (simp add: roll_remaining_def acquired_units_def unwrap_or_def split: option.split)

lemma booking_acquired [simp]:
  "acquired_units (pnl_booked pnl p) = acquired_units p" "acquired_units (exit_cleared p) = acquired_units p"
  "acquired_units (unrealized_booked pnl p) = acquired_units p" "acquired_units (price_tracked t c h l p) = acquired_units p"
  by (simp_all add: pnl_booked_def exit_cleared_def unrealized_booked_def price_tracked_def acquired_units_def)

lemma exit_acquired [simp]: "acquired_units (closed_position env price sol fee time p) = acquired_units p"
proof -
  have "acquired_units (q\<lparr>po_closed_reason := r\<rparr>) = acquired_units q" for q r by (simp add: acquired_units_def)
  moreover have "acquired_units (p\<lparr>po_transaction_exit_verified := a, po_effective_exit_price := b, po_sol_received := c,
      po_exit_fee_lamports := d, po_exit_time := e\<rparr>) = acquired_units p" for a b c d e by (simp add: acquired_units_def)
  ultimately show ?thesis by (simp add: closed_position_def exit_booked_def Let_def)
qed

lemma synthetic_acquired [simp]: "acquired_units (synthetic_exit_booked time p) = acquired_units p"
proof -
  have "acquired_units (p\<lparr>po_synthetic_exit := a, po_transaction_exit_verified := b, po_exit_time := c, po_closed_reason := d,
      po_pnl := e, po_pnl_percent := f, po_unrealized_pnl := g, po_unrealized_pnl_percent := h\<rparr>) = acquired_units p"
    for a b c d e f g h by (simp add: acquired_units_def)
  then show ?thesis by (simp add: synthetic_exit_booked_def)
qed

text \<open>What a sale takes beyond what is held: the subtraction saturates at zero, so it is sold without having been held.\<close>

definition oversale :: "position \<Rightarrow> u64 \<Rightarrow> u64" where
  "oversale p units = saturating_sub units (unwrap_or (po_remaining_token_amount p) 0)"

lemma no_oversale: "po_remaining_token_amount p = Some remaining \<Longrightarrow> units \<le> remaining \<Longrightarrow> oversale p units = 0"
  by (simp add: oversale_def unwrap_or_def saturating_sub_def)

lemma partial_acquired: "acquired_units (after_partial env units sol price p) = acquired_units p + oversale p units"
proof -
  have "acquired_units (partial_booked units sol price p) = acquired_units p + oversale p units"
    by (auto simp: oversale_def partial_booked_def acquired_units_def Let_def unwrap_or_def saturating_sub_def not_less split: option.split)
  then show ?thesis by (simp add: after_partial_def Let_def split: option.split)
qed

lemma dca_acquired: "acquired_units (dca_booked env decimals units sol time p) = acquired_units p + units"
  by (simp add: dca_booked_def acquired_units_def Let_def unwrap_or_def split: option.split)

definition units_bought :: "i64 \<Rightarrow> position_transition \<Rightarrow> u64" where
  "units_bought j t = (case t of DcaVerified i units _ _ _ _ _ \<Rightarrow> if i = j then units else 0 | _ \<Rightarrow> 0)"

text \<open>What a partial exit takes beyond what is held, unless its record says it was booked before.\<close>

definition units_oversold :: "db_answers \<Rightarrow> i64 \<Rightarrow> position_transition \<Rightarrow> bot \<Rightarrow> u64" where
  "units_oversold an j t b = (case get_position_by_id j (bo_store b) of None \<Rightarrow> 0 | Some p \<Rightarrow> (case t of
       PartialExitVerified i units _ _ _ _ sig _ \<Rightarrow>
         if i = j \<and> \<not> exit_record_exists (da_lookup an) i sig (bo_store b) then oversale p units else 0
     | ExitResidualClearForRetry i units _ _ _ _ sig _ \<Rightarrow>
         if i = j \<and> \<not> exit_record_exists (da_lookup an) i sig (bo_store b) then oversale p units else 0
     | _ \<Rightarrow> 0))"

text \<open>The fills a position can have: its entry is verified once, before anything else.\<close>

definition fits :: "i64 \<Rightarrow> position_transition \<Rightarrow> bot \<Rightarrow> bool" where
  "fits j t b = (case get_position_by_id j (bo_store b) of None \<Rightarrow> True | Some p \<Rightarrow> (case t of
       EntryVerified i _ _ _ _ \<Rightarrow> i \<noteq> j
     | _ \<Rightarrow> True))"

lemma step_tokens:
  assumes "distinct_ids b" and "fits j t b" and "get_position_by_id j (bo_store (snd (apply_step env an t b))) = Some q"
    and "\<nexists>i units sol price fee time sig percentage. t = ExitResidualClearForRetry i units sol price fee time sig percentage"
  shows "\<exists>p. get_position_by_id j (bo_store b) = Some p
    \<and> acquired_units q = acquired_units p + units_bought j t + units_oversold an j t b"
proof -
  let ?b = "with_refresh t b"
  have ids: "distinct_ids ?b" using assms(1) by (simp add: distinct_ids_def)
  show ?thesis
  proof (cases t)
    case (RemoveOrphanEntry i)
    with get_orphan [OF ids] assms(3) show ?thesis by (force simp: apply_step_def units_bought_def units_oversold_def)
  next
    case (UpdatePriceTracking mint current highest lowest)
    with get_price [of j env an mint current highest lowest ?b q] assms(3) show ?thesis
      by (auto simp: apply_step_def units_bought_def units_oversold_def)
  next
    case (PartialExitVerified i units sol price fee time sig percentage)
    with assms(2,3) show ?thesis
      by (auto simp: apply_step_def units_bought_def units_oversold_def get_partial changed_def partial_acquired split: if_splits)
  qed (use assms(2,3,4) in \<open>auto simp: apply_step_def units_bought_def units_oversold_def get_entry get_exit get_clear get_synthetic get_partial_failed
      get_dca get_dca_failed changed_def fits_def dca_acquired split: if_splits\<close>)
qed

lemma transition_tokens:
  assumes "distinct_ids b" and "fits j t b" and "get_position_by_id j (bo_store (snd (apply_transition env an an' t b))) = Some q"
  shows "\<exists>p. get_position_by_id j (bo_store b) = Some p
    \<and> acquired_units q = acquired_units p + units_bought j t + units_oversold an j t b"
proof (cases "\<exists>i units sol price fee time sig percentage. t = ExitResidualClearForRetry i units sol price fee time sig percentage")
  case True
  then obtain i units sol price fee time sig percentage where t: "t = ExitResidualClearForRetry i units sol price fee time sig percentage" by blast
  let ?p = "PartialExitVerified i units sol price fee time sig percentage"
  let ?b = "with_refresh t b" and ?c = "snd (apply_step env an (PartialExitVerified i units sol price fee time sig percentage) (with_refresh t b))"
  have ids: "distinct_ids ?b" using assms(1) by (simp add: distinct_ids_def)
  then have ids': "distinct_ids ?c" using ids.step by blast
  have fit: "fits j ?p ?b" by (simp add: fits_def split: option.split)
  have over: "units_oversold an j ?p ?b = units_oversold an j t b" "units_oversold an' j (ExitFailedClearForRetry i) ?c = 0"
    by (simp_all add: t units_oversold_def split: option.split)
  have fit': "fits j (ExitFailedClearForRetry i) ?c" by (simp add: fits_def split: option.split)
  from assms(3) consider "get_position_by_id j (bo_store ?c) = Some q"
    | "get_position_by_id j (bo_store (snd (apply_step env an' (ExitFailedClearForRetry i) ?c))) = Some q"
    by (auto simp: t apply_transition_def case_prod_beta split: sum.splits)
  then show ?thesis
  proof cases
    case 1
    from step_tokens [OF ids fit 1] show ?thesis by (simp add: t units_bought_def over [unfolded t])
  next
    case 2
    from step_tokens [OF ids' fit' 2] obtain r where r: "get_position_by_id j (bo_store ?c) = Some r" "acquired_units q = acquired_units r"
      by (auto simp: units_bought_def over)
    from step_tokens [OF ids fit r(1)] r(2) show ?thesis by (simp add: t units_bought_def over [unfolded t])
  qed
next
  case False
  then have "apply_transition env an an' t b = apply_step env an t b" by (cases t) (simp_all add: apply_transition_def)
  with step_tokens [OF assms(1,2) _ False] assms(3) show ?thesis by simp
qed

fun fitting :: "apply_env \<Rightarrow> i64 \<Rightarrow> (db_answers \<times> db_answers \<times> position_transition) list \<Rightarrow> bot \<Rightarrow> bool" where
  "fitting env j [] b = True"
| "fitting env j ((an, an', t) # ts) b \<longleftrightarrow> fits j t b \<and> fitting env j ts (snd (apply_transition env an an' t b))"

definition total_bought :: "i64 \<Rightarrow> (db_answers \<times> db_answers \<times> position_transition) list \<Rightarrow> u64" where
  "total_bought j ts = sum_list (map (\<lambda>(_, _, t). units_bought j t) ts)"

fun total_oversold :: "apply_env \<Rightarrow> i64 \<Rightarrow> (db_answers \<times> db_answers \<times> position_transition) list \<Rightarrow> bot \<Rightarrow> u64" where
  "total_oversold env j [] b = 0"
| "total_oversold env j ((an, an', t) # ts) b = units_oversold an j t b + total_oversold env j ts (snd (apply_transition env an an' t b))"

lemma run_tokens:
  assumes "distinct_ids b" and "fitting env j ts b" and "get_position_by_id j (bo_store (apply_all env ts b)) = Some q"
  shows "\<exists>p. get_position_by_id j (bo_store b) = Some p \<and> acquired_units q = acquired_units p + total_bought j ts + total_oversold env j ts b"
  using assms
proof (induction env ts b rule: apply_all.induct)
  case (2 env an an' t ts b)
  let ?c = "snd (apply_transition env an an' t b)"
  have "distinct_ids ?c" using 2(2) ids.transition by blast
  with 2 obtain r where r: "get_position_by_id j (bo_store ?c) = Some r" "acquired_units q = acquired_units r + total_bought j ts + total_oversold env j ts ?c" by auto
  from transition_tokens [OF 2(2) _ r(1)] 2(3) r(2) show ?case by (auto simp: total_bought_def algebra_simps)
qed (simp add: total_bought_def)

section \<open>Rows\<close>

text \<open>What the database holds of a position is what memory holds, in the columns an update writes.\<close>

definition mirrored :: "i64 \<Rightarrow> position_store \<Rightarrow> bool" where
  "mirrored i s \<longleftrightarrow> (\<exists>p row. get_position_by_id i s = Some p \<and> st_rows s i = Some row \<and> stored_row row p = row)"

lemma persist_mirrors:
  assumes "persist_then an i k b = (Inr ef, c)" and "ef_db_updated ef"
    and "\<And>p c. same_memory (bo_store c) (bo_store (snd (k p c)))" and "\<And>p c. st_rows (bo_store (snd (k p c))) = st_rows (bo_store c)"
  shows "mirrored i (bo_store c)"
proof (rule persist_cases [of i b an k])
  fix p j old
  let ?b = "b\<lparr>bo_store := (bo_store b)\<lparr>st_rows := (st_rows (bo_store b))(j \<mapsto> stored_row old p)\<rparr>\<rparr>"
  assume p: "get_position_by_id i (bo_store b) = Some p" "po_id p = Some j" "st_rows (bo_store b) j = Some old"
    and k: "persist_then an i k b = k p ?b"
  have c: "c = snd (k p ?b)" using k assms(1) by (metis snd_conv)
  have j: "j = i" using p(1,2) by (auto simp: get_position_by_id_def find_Some_iff)
  have "get_position_by_id i (bo_store c) = get_position_by_id i (bo_store ?b)" unfolding c by (rule same_memory_get) (rule assms(3))
  moreover have "get_position_by_id i (bo_store ?b) = Some p" using p(1) by (simp add: get_position_by_id_def)
  moreover have "st_rows (bo_store c) i = Some (stored_row old p)" unfolding c assms(4) using j by simp
  moreover have "stored_row (stored_row old p) p = stored_row old p" by (simp add: stored_row_def)
  ultimately show ?thesis by (auto simp: mirrored_def)
qed (use assms(1,2) in \<open>auto simp: no_effects_def\<close>)

lemma rows_case [simp]:
  "st_rows (bo_store (case d of None \<Rightarrow> c | Some sig \<Rightarrow> save_entry an (r sig) c)) = st_rows (bo_store c)"
  "st_rows (bo_store (on_store (release_position_slot i) c)) = st_rows (bo_store c)"
  by (simp_all add: save_entry_def on_store_def store_frames [unfolded same_defs] split: option.split)

lemma entry_mirrors: "apply_entry_verified an i price units fee sol b = (Inr ef, c) \<Longrightarrow> ef_db_updated ef \<Longrightarrow> mirrored i (bo_store c)"
  unfolding apply_entry_verified_def case_prod_beta Let_def
  by (auto simp: no_effects_def split: if_splits elim!: persist_mirrors)

lemma exit_mirrors:
  assumes "apply_exit_verified env an i price sol fee time b = (Inr ef, c)" and "ef_db_updated ef"
  shows "mirrored i (bo_store c)"
proof (cases "get_position_by_id i (bo_store b)")
  case (Some p)
  show ?thesis
  proof (cases "po_transaction_exit_verified p")
    case False
    from assms show ?thesis unfolding exit_unfold [OF Some False] by (auto elim!: persist_mirrors)
  qed (use assms Some in \<open>auto simp: apply_exit_verified_def no_effects_def\<close>)
qed (use assms in \<open>auto simp: apply_exit_verified_def no_effects_def\<close>)

lemma clear_mirrors: "apply_exit_failed_clear an i b = (Inr ef, c) \<Longrightarrow> ef_db_updated ef \<Longrightarrow> mirrored i (bo_store c)"
  unfolding apply_exit_failed_clear_def case_prod_beta Let_def
  by (auto simp: no_effects_def split: if_splits elim!: persist_mirrors)

lemma synthetic_mirrors: "apply_synthetic_exit env an i time b = (Inr ef, c) \<Longrightarrow> ef_db_updated ef \<Longrightarrow> mirrored i (bo_store c)"
  unfolding apply_synthetic_exit_def case_prod_beta Let_def
  by (auto simp: no_effects_def split: if_splits elim!: persist_mirrors)

lemma partial_mirrors: "apply_partial_exit env an i units sol price fee time sig percentage b = (Inr ef, c) \<Longrightarrow> ef_db_updated ef \<Longrightarrow>
    mirrored i (bo_store c)"
  unfolding apply_partial_exit_def case_prod_beta Let_def
  by (auto simp: no_effects_def sum_case_snd same_memory_def save_exit_def on_store_def store_frames [unfolded same_defs]
      split: if_splits sum.split elim!: persist_mirrors)

lemma dca_mirrors: "apply_dca_verified env an i units sol price fee time sig b = (Inr ef, c) \<Longrightarrow> ef_db_updated ef \<Longrightarrow>
    mirrored i (bo_store c)"
  unfolding apply_dca_verified_def case_prod_beta Let_def
  by (auto simp: no_effects_def sum_case_snd same_memory_def save_entry_def on_store_def store_frames [unfolded same_defs]
      split: if_splits sum.splits elim!: persist_mirrors)

lemma step_mirrors:
  assumes "apply_step env an t b = (Inr ef, c)" and "ef_db_updated ef" and "transition_position_id t = Some i"
  shows "mirrored i (bo_store c)"
  using assms
  by (cases t) (auto simp: apply_step_def transition_position_id_def no_effects_def apply_remove_orphan_def apply_partial_exit_failed_def
      apply_dca_failed_def Let_def split: sum.splits prod.splits option.splits
      dest: entry_mirrors exit_mirrors clear_mirrors synthetic_mirrors partial_mirrors dca_mirrors)

lemma transition_mirrors:
  assumes "apply_transition env an an' t b = (Inr ef, c)" and "ef_db_updated ef" and "transition_position_id t = Some i"
  shows "mirrored i (bo_store c)"
proof (cases "\<exists>j units sol price fee time sig percentage. t = ExitResidualClearForRetry j units sol price fee time sig percentage")
  case True
  then obtain j units sol price fee time sig percentage where t: "t = ExitResidualClearForRetry j units sol price fee time sig percentage" by blast
  with assms obtain d cleared where "apply_step env an' (ExitFailedClearForRetry i) d = (Inr cleared, c)" "ef_db_updated cleared"
    by (auto simp: apply_transition_def transition_position_id_def no_effects_def split: sum.splits prod.splits)
  then show ?thesis by (rule step_mirrors) (simp add: transition_position_id_def)
next
  case False
  with assms(1) have "apply_step env an t b = (Inr ef, c)" by (cases t) (simp_all add: apply_transition_def)
  from step_mirrors [OF this assms(2,3)] show ?thesis .
qed

section \<open>A fill that could not be written\<close>

text \<open>The worker applies a transition that failed again. Neither an addition nor a partial exit remembers that memory
  already has it: the addition has no guard, the guard of the partial exit is the record that is written after the row.\<close>

definition dca_of :: "apply_env \<Rightarrow> u64 \<Rightarrow> f64 \<Rightarrow> int \<Rightarrow> position \<Rightarrow> position" where
  "dca_of env units sol time p =
     dca_booked (ae_pnl env) (unwrap_or (pe_decimals (ae_pnl env) (po_mint p)) DEFAULT_DECIMALS) units sol time p"

lemma persist_fails:
  assumes "get_position_by_id i (bo_store b) = Some p" and "\<not> da_update an"
  shows "persist_then an i k b = (Inl (TransitionFailed ''apply'' (po_mint p)), b)"
proof -
  have "po_id p = Some i" using assms(1) by (auto simp: get_position_by_id_def find_Some_iff)
  with assms show ?thesis by (simp add: persist_then_def update_position_def)
qed

lemma dca_fails:
  assumes "get_position_by_id i (bo_store b) = Some p" and "\<not> da_update an"
  shows "fst (apply_dca_verified env an i units sol price fee time sig b) = Inl (TransitionFailed ''apply'' (po_mint p))"
proof -
  have mint: "find_mint_by_position_id i (bo_store b) = Inr (po_mint p)"
    using assms(1) by (simp add: find_mint_by_position_id_def get_position_by_id_def)
  let ?f = "dca_booked (ae_pnl env) (unwrap_or (pe_decimals (ae_pnl env) (po_mint p)) DEFAULT_DECIMALS) units sol time"
  have "get_position_by_id i (bo_store (snd (update_by_id i ?f b))) = Some (?f p)" using assms(1) by simp
  from persist_fails [OF this assms(2)] show ?thesis
    using assms(1) by (simp add: apply_dca_verified_def case_prod_beta Let_def mint) (simp add: dca_booked_def Let_def)
qed

lemma partial_fails:
  assumes "get_position_by_id i (bo_store b) = Some p" and "\<not> da_update an" and "\<not> has_exit_record i sig (bo_store b)"
  shows "fst (apply_partial_exit env an i units sol price fee time sig percentage b) = Inl (TransitionFailed ''apply'' (po_mint p))"
    and "st_exits (bo_store (snd (apply_partial_exit env an i units sol price fee time sig percentage b))) = st_exits (bo_store b)"
proof -
  let ?b = "snd (update_by_id i (partial_booked units sol price) b)"
  define c where "c = (case Option.bind (get_position_by_id i (bo_store ?b)) (\<lambda>p. map_option (Pair p) (po_current_price p)) of
      None \<Rightarrow> ?b
    | Some (p, current) \<Rightarrow> snd (update_by_id i (unrealized_booked (calculate_position_pnl (ae_pnl env) p (Some current))) ?b))"
  have get: "\<exists>q. get_position_by_id i (bo_store c) = Some q \<and> po_mint q = po_mint p"
    using assms(1) by (cases "po_current_price (partial_booked units sol price p)")
      (simp_all add: c_def partial_booked_def unrealized_booked_def Let_def)
  then obtain q where q: "get_position_by_id i (bo_store c) = Some q" "po_mint q = po_mint p" by blast
  have exits: "st_exits (bo_store c) = st_exits (bo_store b)" by (simp add: c_def split: option.split)
  have unfold: "\<exists>k. apply_partial_exit env an i units sol price fee time sig percentage b = persist_then an i k c"
    using assms(1,3) unfolding apply_partial_exit_def case_prod_beta Let_def c_def
    by (auto simp: exit_record_exists_def case_prod_beta)
  then obtain k where "apply_partial_exit env an i units sol price fee time sig percentage b = persist_then an i k c" ..
  with persist_fails [OF q(1) assms(2), of k] q(2) exits
  show "fst (apply_partial_exit env an i units sol price fee time sig percentage b) = Inl (TransitionFailed ''apply'' (po_mint p))"
    "st_exits (bo_store (snd (apply_partial_exit env an i units sol price fee time sig percentage b))) = st_exits (bo_store b)"
    by simp_all
qed

end
