(* ===== verification/Ledger_Reducer.thy ===== *)
theory Ledger_Reducer
  imports Wallet_Ledger "HOL-Library.AList" "HOL-Library.Char_ord" "HOL-Library.List_Lexorder"
    "HOL-Library.Option_ord" "HOL-Library.Product_Lexorder"
begin

text \<open>
  \<^verbatim>\<open>positions/ledger/reducer.rs\<close>: the reduction of observed balance movements to rounds, and their
  reconciliation with what the wallet holds. A hash map is a list of its entries; the order in which the
  code iterates over it is a parameter.
\<close>

section \<open>The accumulator\<close>

record wallet_round =
  wr_mint :: string
  wr_decimals :: u8
  wr_round_key :: string
  wr_opened_at :: "i64 option"
  wr_closed_at :: "i64 option"
  wr_balance :: i128
  wr_total_acquired :: i128
  wr_total_disposed :: i128
  wr_entry_count :: u32
  wr_exit_count :: u32
  wr_quote_asset :: "quote_asset option"
  wr_invested :: f64
  wr_remaining_basis :: f64
  wr_realized_proceeds :: f64
  wr_realized_cost :: f64
  wr_priced_acquired :: f64
  wr_priced_disposed :: f64
  wr_basis_complete :: bool
  wr_history_complete :: bool
  wr_proceeds_complete :: bool
  wr_entry_signature :: "string option"
  wr_exit_signature :: "string option"
  wr_events :: "ledger_event list"

definition grounded_round :: "subject_delta \<Rightarrow> string \<Rightarrow> wallet_round" where
  "grounded_round d round_key = \<lparr>wr_mint = sd_mint d, wr_decimals = sd_decimals d, wr_round_key = round_key,
     wr_opened_at = sd_block_time d, wr_closed_at = None, wr_balance = 0, wr_total_acquired = 0,
     wr_total_disposed = 0, wr_entry_count = 0, wr_exit_count = 0, wr_quote_asset = None,
     wr_invested = Finite 0, wr_remaining_basis = Finite 0, wr_realized_proceeds = Finite 0,
     wr_realized_cost = Finite 0, wr_priced_acquired = Finite 0, wr_priced_disposed = Finite 0,
     wr_basis_complete = True, wr_history_complete = True, wr_proceeds_complete = True,
     wr_entry_signature = Some (sd_signature d), wr_exit_signature = None, wr_events = []\<rparr>"

definition genesis_round :: "subject_delta \<Rightarrow> string \<Rightarrow> wallet_round" where
  "genesis_round d round_key =
     (let active = (grounded_round d round_key)\<lparr>wr_opened_at := None, wr_entry_signature := None,
            wr_basis_complete := False, wr_history_complete := False\<rparr>
      in case Option.bind (sd_before_raw d) i128_of_u128 of
           None \<Rightarrow> active
         | Some balance \<Rightarrow> active\<lparr>wr_balance := balance, wr_total_acquired := balance\<rparr>)"

text \<open>The consideration of a movement, among its siblings in the transaction.\<close>

definition quote_for :: "(u8 \<Rightarrow> f64) \<Rightarrow> subject_delta list \<Rightarrow> string \<Rightarrow> bool \<Rightarrow> quote_leg option" where
  "quote_for pow10 siblings target_mint acquisition =
     (let same_direction_positions = length (filter (\<lambda>d. \<not> is_reference_asset (sd_mint d)
            \<and> (if acquisition then 0 < sd_delta_raw d else sd_delta_raw d < 0)) siblings)
      in if 1 < same_direction_positions then None
      else let matches_direction = (\<lambda>raw. if acquisition then raw < 0 else 0 < raw);
               candidate = (\<lambda>d. if sd_mint d \<noteq> target_mint \<and> matches_direction (sd_delta_raw d)
                  then Some (raw_to_whole pow10 (wrap_i128 \<bar>sd_delta_raw d\<bar>) (sd_decimals d)) else None);
               leg = (\<lambda>wanted. find_map (\<lambda>d. if wanted (sd_mint d) then candidate d else None) siblings)
      in case leg (\<lambda>mint. mint = NATIVE_SOL_SENTINEL) of
           Some amount \<Rightarrow> Some \<lparr>ql_asset = Sol, ql_amount = amount\<rparr>
         | None \<Rightarrow> (case leg is_native_asset of
             Some amount \<Rightarrow> Some \<lparr>ql_asset = Sol, ql_amount = amount\<rparr>
           | None \<Rightarrow> map_option (\<lambda>amount. \<lparr>ql_asset = Usd, ql_amount = amount\<rparr>) (leg is_stable_asset)))"

definition reconcile_before :: "subject_delta \<Rightarrow> wallet_round \<Rightarrow> wallet_round" where
  "reconcile_before d r = (case Option.bind (sd_before_raw d) i128_of_u128 of
       None \<Rightarrow> r\<lparr>wr_history_complete := False, wr_basis_complete := False\<rparr>
     | Some before \<Rightarrow>
         if before \<noteq> wr_balance r
         then r\<lparr>wr_balance := before, wr_total_acquired := max (wr_total_acquired r) before,
                wr_history_complete := False, wr_basis_complete := False\<rparr>
         else r)"

definition accept_quote :: "quote_leg \<Rightarrow> wallet_round \<Rightarrow> bool \<times> wallet_round" where
  "accept_quote leg r =
     (if wr_quote_asset r \<noteq> None \<and> wr_quote_asset r \<noteq> Some (ql_asset leg)
      then (False, r\<lparr>wr_basis_complete := False, wr_proceeds_complete := False\<rparr>)
      else let r = (if wr_quote_asset r = None then r\<lparr>wr_quote_asset := Some (ql_asset leg)\<rparr> else r)
      in if ql_asset leg \<noteq> Sol then (False, r\<lparr>wr_basis_complete := False\<rparr>) else (True, r))"

definition push_event :: "(u8 \<Rightarrow> f64) \<Rightarrow> subject_delta \<Rightarrow> event_kind \<Rightarrow> f64 \<Rightarrow> i128 \<Rightarrow> quote_leg option \<Rightarrow>
    f64 option \<Rightarrow> wallet_round \<Rightarrow> wallet_round" where
  "push_event pow10 d kind amount after quote price_sol r = r\<lparr>wr_events := wr_events r @
     [\<lparr>le_signature = sd_signature d, le_slot = sd_slot d, le_block_time = sd_block_time d, le_kind = kind,
       le_amount = amount, le_balance_after = raw_to_whole pow10 after (wr_decimals r), le_quote = quote,
       le_price_sol = price_sol, le_venue = sd_venue d\<rparr>]\<rparr>"

text \<open>An acquisition is counted first, then priced.\<close>

definition count_acquisition :: "subject_delta \<Rightarrow> i128 \<Rightarrow> wallet_round \<Rightarrow> event_kind \<times> wallet_round" where
  "count_acquisition d before r =
     (let traded = sd_kind d = Trade;
          kind = (if traded then if before \<le> 0 then Entry else Add else Receive);
          r = (if traded then r\<lparr>wr_entry_count := saturating_add (wr_entry_count r) 1\<rparr>
               else r\<lparr>wr_basis_complete := False\<rparr>);
          r = r\<lparr>wr_total_acquired := wrap_i128 (wr_total_acquired r + sd_delta_raw d)\<rparr>;
          r = (if wr_entry_signature r = None \<and> kind = Entry
               then r\<lparr>wr_entry_signature := Some (sd_signature d)\<rparr> else r);
          r = (if wr_opened_at r = None \<and> before \<le> 0 then r\<lparr>wr_opened_at := sd_block_time d\<rparr> else r)
      in (kind, r))"

definition apply_acquisition :: "(u8 \<Rightarrow> f64) \<Rightarrow> subject_delta list \<Rightarrow> subject_delta \<Rightarrow> i128 \<Rightarrow> i128 \<Rightarrow>
    wallet_round \<Rightarrow> wallet_round" where
  "apply_acquisition pow10 siblings d before after r =
     (let traded = sd_kind d = Trade;
          (kind, r) = count_acquisition d before r;
          amount = raw_to_whole pow10 (sd_delta_raw d) (wr_decimals r);
          quote = (if traded then quote_for pow10 siblings (sd_mint d) True else None)
      in case quote of
           Some leg \<Rightarrow>
             (let (accepted, r) = accept_quote leg r
              in if accepted \<and> f64_less DUST amount
                 then push_event pow10 d kind amount after quote (Some (f64_div (ql_amount leg) amount))
                   (r\<lparr>wr_invested := f64_add (wr_invested r) (ql_amount leg),
                      wr_remaining_basis := f64_add (wr_remaining_basis r) (ql_amount leg),
                      wr_priced_acquired := f64_add (wr_priced_acquired r) amount\<rparr>)
                 else push_event pow10 d kind amount after quote None r)
         | None \<Rightarrow> push_event pow10 d kind amount after quote None
             (if traded then r\<lparr>wr_basis_complete := False\<rparr> else r))"

definition apply_disposal :: "(u8 \<Rightarrow> f64) \<Rightarrow> subject_delta list \<Rightarrow> subject_delta \<Rightarrow> i128 \<Rightarrow> i128 \<Rightarrow>
    wallet_round \<Rightarrow> wallet_round" where
  "apply_disposal pow10 siblings d before after r =
     (let amount_raw = (if 0 < before then min (wrap_i128 (- sd_delta_raw d)) before
                        else wrap_i128 (- sd_delta_raw d));
          traded = sd_kind d = Trade;
          closing = after \<le> 0;
          kind = (if traded then if closing then Exit else PartialExit else Send);
          r = (if traded then r\<lparr>wr_exit_count := saturating_add (wr_exit_count r) 1\<rparr>
               else r\<lparr>wr_proceeds_complete := False\<rparr>);
          r = r\<lparr>wr_total_disposed := wrap_i128 (wr_total_disposed r + amount_raw)\<rparr>;
          r = (if closing \<and> traded then r\<lparr>wr_exit_signature := Some (sd_signature d)\<rparr> else r);
          (allocated_basis, r) =
            (if 0 < before
             then (f64_mul (wr_remaining_basis r)
                     (f64_clamp (f64_div (f64_of_i128 amount_raw) (f64_of_i128 before)) (Finite 0) (Finite 1)), r)
             else (Finite 0, r\<lparr>wr_history_complete := False, wr_basis_complete := False\<rparr>));
          r = r\<lparr>wr_remaining_basis := f64_max (f64_sub (wr_remaining_basis r) allocated_basis) (Finite 0)\<rparr>;
          amount = raw_to_whole pow10 amount_raw (wr_decimals r);
          quote = (if traded then quote_for pow10 siblings (sd_mint d) False else None);
          (price_sol, r) =
            (if traded then
               case quote of
                 Some leg \<Rightarrow>
                   if ql_asset leg = Sol \<and> wr_quote_asset r \<noteq> Some Usd
                   then (if f64_less DUST amount then Some (f64_div (ql_amount leg) amount) else None,
                         r\<lparr>wr_realized_proceeds := f64_add (wr_realized_proceeds r) (ql_amount leg),
                           wr_realized_cost := f64_add (wr_realized_cost r) allocated_basis,
                           wr_priced_disposed := f64_add (wr_priced_disposed r) amount\<rparr>)
                   else (None, r\<lparr>wr_proceeds_complete := False\<rparr>)
               | None \<Rightarrow> (None, r\<lparr>wr_proceeds_complete := False\<rparr>)
             else (None, r));
          r = push_event pow10 d kind amount after quote price_sol r
      in if closing then r\<lparr>wr_remaining_basis := Finite 0\<rparr> else r)"

definition apply_movement :: "(u8 \<Rightarrow> f64) \<Rightarrow> subject_delta list \<Rightarrow> subject_delta \<Rightarrow> wallet_round \<Rightarrow> wallet_round" where
  "apply_movement pow10 siblings d r =
     (let r = (if wr_decimals r = 0 \<and> sd_decimals d \<noteq> 0 then r\<lparr>wr_decimals := sd_decimals d\<rparr> else r);
          r = reconcile_before d r;
          before = max (wr_balance r) 0;
          reported_after = Option.bind (sd_after_raw d) i128_of_u128;
          computed_after = max (wrap_i128 (before + sd_delta_raw d)) 0;
          after = (case reported_after of Some x \<Rightarrow> x | None \<Rightarrow> computed_after);
          r = (if reported_after = None \<or> reported_after \<noteq> Some computed_after
               then r\<lparr>wr_history_complete := False, wr_basis_complete := False\<rparr> else r);
          r = (if 0 < sd_delta_raw d then apply_acquisition pow10 siblings d before after r
               else apply_disposal pow10 siblings d before after r);
          r = r\<lparr>wr_balance := after\<rparr>
      in if after \<le> 0 then r\<lparr>wr_closed_at := sd_block_time d\<rparr> else r)"

definition finish :: "bool \<Rightarrow> wallet_round \<Rightarrow> ledger_round" where
  "finish still_open r =
     (let basis_complete = (wr_basis_complete r \<and> wr_quote_asset r = Some Sol \<and> 0 < wr_entry_count r);
          average_entry_price_sol = (if basis_complete \<and> f64_less DUST (wr_priced_acquired r)
            then Some (f64_div (wr_invested r) (wr_priced_acquired r)) else None);
          average_exit_price_sol = (if wr_proceeds_complete r \<and> f64_less DUST (wr_priced_disposed r)
            then Some (f64_div (wr_realized_proceeds r) (wr_priced_disposed r)) else None);
          realized_pnl_sol = (if basis_complete \<and> wr_proceeds_complete r \<and> 0 < wr_exit_count r
            then Some (f64_sub (wr_realized_proceeds r) (wr_realized_cost r)) else None);
          r = (if \<not> basis_complete then r\<lparr>wr_invested := Finite 0, wr_remaining_basis := Finite 0\<rparr> else r)
      in \<lparr>lr_mint = wr_mint r, lr_decimals = wr_decimals r, lr_round_key = wr_round_key r,
          lr_opened_at = wr_opened_at r, lr_closed_at = (if still_open then None else wr_closed_at r),
          lr_is_open = still_open, lr_balance_raw = u128_of_i128 (max (wr_balance r) 0),
          lr_total_acquired_raw = u128_of_i128 (max (wr_total_acquired r) 0),
          lr_total_disposed_raw = u128_of_i128 (max (wr_total_disposed r) 0),
          lr_entry_count = wr_entry_count r, lr_exit_count = wr_exit_count r,
          lr_invested_sol = wr_invested r, lr_remaining_basis_sol = wr_remaining_basis r,
          lr_realized_proceeds_sol = wr_realized_proceeds r, lr_realized_cost_sol = wr_realized_cost r,
          lr_average_entry_price_sol = average_entry_price_sol,
          lr_average_exit_price_sol = average_exit_price_sol, lr_realized_pnl_sol = realized_pnl_sol,
          lr_basis_complete = basis_complete, lr_history_complete = wr_history_complete r,
          lr_entry_signature = wr_entry_signature r, lr_exit_signature = wr_exit_signature r,
          lr_events = wr_events r\<rparr>)"

section \<open>The reduction\<close>

record reduction =
  re_open :: "(string \<times> wallet_round) list"
  re_finished :: "ledger_round list"
  re_genesis_used :: "string set"

text \<open>A round that was still open although the chain says the mint starts at zero.\<close>

definition close_stale :: "string \<Rightarrow> reduction \<Rightarrow> reduction" where
  "close_stale mint s = (case map_of (re_open s) mint of
       None \<Rightarrow> s
     | Some stale \<Rightarrow>
         let s = s\<lparr>re_open := AList.delete mint (re_open s)\<rparr>
         in if 0 < wr_balance stale
            then s\<lparr>re_finished := re_finished s @
                   [(finish False stale)\<lparr>lr_history_complete := False, lr_basis_complete := False\<rparr>]\<rparr>
            else s\<lparr>re_finished := re_finished s @ [finish False stale]\<rparr>)"

definition open_round :: "subject_delta \<Rightarrow> reduction \<Rightarrow> reduction" where
  "open_round d s =
     (let mint = sd_mint d; grounded = (0 < sd_delta_raw d \<and> sd_before_raw d = Some 0)
      in if grounded then
           let s = close_stale mint s
           in s\<lparr>re_open := AList.update mint (grounded_round d (sd_signature d @ '':'' @ mint)) (re_open s)\<rparr>
         else if map_of (re_open s) mint = None then
           let round_key = (if mint \<notin> re_genesis_used s then ''genesis:'' @ mint
                            else ''genesis:'' @ sd_signature d @ '':'' @ mint)
           in s\<lparr>re_genesis_used := insert mint (re_genesis_used s),
                re_open := AList.update mint (genesis_round d round_key) (re_open s)\<rparr>
         else s)"

definition apply_delta :: "(u8 \<Rightarrow> f64) \<Rightarrow> subject_delta list \<Rightarrow> subject_delta \<Rightarrow> reduction \<Rightarrow> reduction" where
  "apply_delta pow10 siblings d s =
     (let mint = sd_mint d; s = open_round d s
      in case map_of (re_open s) mint of
           None \<Rightarrow> s
         | Some active \<Rightarrow>
             let active = apply_movement pow10 siblings d active;
                 s = s\<lparr>re_open := AList.update mint active (re_open s)\<rparr>
             in if wr_balance active \<le> 0
                then s\<lparr>re_open := AList.delete mint (re_open s), re_finished := re_finished s @ [finish False active]\<rparr>
                else s)"

definition delta_key :: "subject_delta \<Rightarrow> bool \<times> u64 option \<times> u32 \<times> string \<times> string" where
  "delta_key d = (sd_slot d = None, sd_slot d, sd_tx_index d, sd_signature d, sd_mint d)"

definition ordered_deltas :: "subject_delta list \<Rightarrow> subject_delta list" where
  "ordered_deltas ds = sort_key delta_key (filter sd_success ds)"

text \<open>One transaction is one contiguous run of equal signatures.\<close>

function signature_groups :: "subject_delta list \<Rightarrow> subject_delta list list" where
  "signature_groups [] = []"
| "signature_groups (d # ds) =
     (d # takeWhile (\<lambda>e. sd_signature e = sd_signature d) ds)
       # signature_groups (dropWhile (\<lambda>e. sd_signature e = sd_signature d) ds)"
  by pat_completeness auto
termination by (relation "measure length") (auto simp: length_dropWhile_le le_imp_less_Suc)

definition reduce_group :: "(u8 \<Rightarrow> f64) \<Rightarrow> subject_delta list \<Rightarrow> reduction \<Rightarrow> reduction" where
  "reduce_group pow10 siblings s =
     fold (\<lambda>d s. if is_reference_asset (sd_mint d) \<or> sd_delta_raw d = 0 then s else apply_delta pow10 siblings d s) siblings s"

definition empty_reduction :: reduction where
  "empty_reduction = \<lparr>re_open = [], re_finished = [], re_genesis_used = {}\<rparr>"

definition round_order :: "ledger_round \<Rightarrow> int option \<times> string \<times> string" where
  "round_order r = (lr_opened_at r, lr_mint r, lr_round_key r)"

definition reduce_rounds :: "((string \<times> wallet_round) list \<Rightarrow> (string \<times> wallet_round) list) \<Rightarrow> (u8 \<Rightarrow> f64) \<Rightarrow>
    subject_delta list \<Rightarrow> ledger_round list" where
  "reduce_rounds hash_order pow10 deltas =
     (let s = fold (reduce_group pow10) (signature_groups (ordered_deltas deltas)) empty_reduction
      in sort_key round_order
           (re_finished s @ map (\<lambda>(_, active). finish True active) (hash_order (re_open s))))"

end
