(* ===== verification/Ledger_Laws.thy ===== *)
theory Ledger_Laws
  imports Ledger_Reducer "HOL-Library.Multiset"
begin

text \<open>
  What the reduction of \<^verbatim>\<open>positions/ledger/reducer.rs\<close> guarantees. A law of the accumulator that opening a
  round establishes and a movement preserves holds of every round the reduction reports: that is the locale
  below, interpreted once per law.
\<close>

section \<open>What a movement leaves alone\<close>

lemma push_event_fields [simp]:
  "wr_mint (push_event pow10 d k a b q p r) = wr_mint r"
  "wr_round_key (push_event pow10 d k a b q p r) = wr_round_key r"
  "wr_history_complete (push_event pow10 d k a b q p r) = wr_history_complete r"
  "wr_basis_complete (push_event pow10 d k a b q p r) = wr_basis_complete r"
  "wr_proceeds_complete (push_event pow10 d k a b q p r) = wr_proceeds_complete r"
  "wr_quote_asset (push_event pow10 d k a b q p r) = wr_quote_asset r"
  "wr_total_acquired (push_event pow10 d k a b q p r) = wr_total_acquired r"
  "wr_total_disposed (push_event pow10 d k a b q p r) = wr_total_disposed r"
  by (simp_all add: push_event_def)

lemma accept_quote_fields [simp]:
  "wr_mint (snd (accept_quote leg r)) = wr_mint r"
  "wr_round_key (snd (accept_quote leg r)) = wr_round_key r"
  "wr_history_complete (snd (accept_quote leg r)) = wr_history_complete r"
  "wr_total_acquired (snd (accept_quote leg r)) = wr_total_acquired r"
  "wr_total_disposed (snd (accept_quote leg r)) = wr_total_disposed r"
  "wr_events (snd (accept_quote leg r)) = wr_events r"
  by (simp_all add: accept_quote_def Let_def)

lemma count_acquisition_fields [simp]:
  "wr_mint (snd (count_acquisition d x r)) = wr_mint r"
  "wr_round_key (snd (count_acquisition d x r)) = wr_round_key r"
  "wr_history_complete (snd (count_acquisition d x r)) = wr_history_complete r"
  "wr_basis_complete (snd (count_acquisition d x r)) \<longleftrightarrow> wr_basis_complete r \<and> sd_kind d = Trade"
  "wr_proceeds_complete (snd (count_acquisition d x r)) = wr_proceeds_complete r"
  "wr_total_acquired (snd (count_acquisition d x r)) = wrap_i128 (wr_total_acquired r + sd_delta_raw d)"
  "wr_total_disposed (snd (count_acquisition d x r)) = wr_total_disposed r"
  "wr_realized_proceeds (snd (count_acquisition d x r)) = wr_realized_proceeds r"
  "wr_events (snd (count_acquisition d x r)) = wr_events r"
  "fst (count_acquisition d x r) = (if sd_kind d = Trade then if x \<le> 0 then Entry else Add else Receive)"
  by (simp_all add: count_acquisition_def Let_def)

lemma apply_acquisition_fields [simp]:
  "wr_mint (apply_acquisition pow10 g d x y r) = wr_mint r"
  "wr_round_key (apply_acquisition pow10 g d x y r) = wr_round_key r"
  "wr_history_complete (apply_acquisition pow10 g d x y r) = wr_history_complete r"
  "wr_total_acquired (apply_acquisition pow10 g d x y r) = wrap_i128 (wr_total_acquired r + sd_delta_raw d)"
  "wr_total_disposed (apply_acquisition pow10 g d x y r) = wr_total_disposed r"
  by (simp_all add: apply_acquisition_def Let_def case_prod_beta split: option.split)

lemma apply_disposal_fields [simp]:
  "wr_mint (apply_disposal pow10 g d x y r) = wr_mint r"
  "wr_round_key (apply_disposal pow10 g d x y r) = wr_round_key r"
  "wr_history_complete (apply_disposal pow10 g d x y r) \<longleftrightarrow> 0 < x \<and> wr_history_complete r"
  "wr_total_acquired (apply_disposal pow10 g d x y r) = wr_total_acquired r"
  "wr_total_disposed (apply_disposal pow10 g d x y r) = wrap_i128 (wr_total_disposed r +
     (if 0 < x then min (wrap_i128 (- sd_delta_raw d)) x else wrap_i128 (- sd_delta_raw d)))"
  by (simp_all add: apply_disposal_def Let_def case_prod_beta split: option.split)

lemma reconcile_before_fields [simp]:
  "wr_mint (reconcile_before d r) = wr_mint r"
  "wr_round_key (reconcile_before d r) = wr_round_key r"
  "wr_total_disposed (reconcile_before d r) = wr_total_disposed r"
  "wr_events (reconcile_before d r) = wr_events r"
  "wr_proceeds_complete (reconcile_before d r) = wr_proceeds_complete r"
  "wr_quote_asset (reconcile_before d r) = wr_quote_asset r"
  by (simp_all add: reconcile_before_def split: option.split)

definition known_before :: "subject_delta \<Rightarrow> wallet_round \<Rightarrow> bool" where
  "known_before d r \<longleftrightarrow> Option.bind (sd_before_raw d) i128_of_u128 = Some (wr_balance r)"

lemma reconcile_before_complete [simp]:
  "wr_history_complete (reconcile_before d r) \<longleftrightarrow> wr_history_complete r \<and> known_before d r"
  "wr_basis_complete (reconcile_before d r) \<longleftrightarrow> wr_basis_complete r \<and> known_before d r"
  by (auto simp: reconcile_before_def known_before_def split: option.split)

lemma reconcile_before_known: "known_before d r \<Longrightarrow> reconcile_before d r = r"
  by (simp add: reconcile_before_def known_before_def)

lemma grounded_round_fields [simp]:
  "wr_mint (grounded_round d key) = sd_mint d" "wr_round_key (grounded_round d key) = key"
  "wr_balance (grounded_round d key) = 0" "wr_events (grounded_round d key) = []"
  "wr_total_acquired (grounded_round d key) = 0" "wr_total_disposed (grounded_round d key) = 0"
  by (simp_all add: grounded_round_def)

lemma genesis_round_fields [simp]:
  "wr_mint (genesis_round d key) = sd_mint d" "wr_round_key (genesis_round d key) = key"
  "\<not> wr_history_complete (genesis_round d key)" "\<not> wr_basis_complete (genesis_round d key)"
  "wr_events (genesis_round d key) = []"
  by (simp_all add: genesis_round_def Let_def split: option.split)

text \<open>The balance a movement leaves, and the two ways its total changes.\<close>

definition balance_after :: "subject_delta \<Rightarrow> wallet_round \<Rightarrow> i128" where
  "balance_after d r = (case Option.bind (sd_after_raw d) i128_of_u128 of
       Some x \<Rightarrow> x
     | None \<Rightarrow> max (wrap_i128 (max (wr_balance (reconcile_before d r)) 0 + sd_delta_raw d)) 0)"

lemma balance_after_range: "0 \<le> balance_after d r" "in_i128 (balance_after d r)"
  using wrap_i128_range [of "max (wr_balance (reconcile_before d r)) 0 + sd_delta_raw d"]
  by (auto simp: balance_after_def in_i128_def max_def bind_eq_Some_conv dest!: i128_of_u128_range split: option.split)

lemma apply_movement_fields [simp]:
  "wr_mint (apply_movement pow10 g d r) = wr_mint r"
  "wr_round_key (apply_movement pow10 g d r) = wr_round_key r"
  "wr_balance (apply_movement pow10 g d r) = balance_after d r"
proof -
  have bal: "wr_balance (reconcile_before d (r\<lparr>wr_decimals := x\<rparr>)) = wr_balance (reconcile_before d r)" for x
    by (simp add: reconcile_before_def split: option.split)
  show "wr_mint (apply_movement pow10 g d r) = wr_mint r"
    "wr_round_key (apply_movement pow10 g d r) = wr_round_key r"
    "wr_balance (apply_movement pow10 g d r) = balance_after d r"
    by (simp_all add: apply_movement_def balance_after_def Let_def bal split: option.split)
qed

section \<open>Laws of the accumulator\<close>

definition stale_report :: "wallet_round \<Rightarrow> ledger_round" where
  "stale_report r = (finish False r)\<lparr>lr_history_complete := False, lr_basis_complete := False\<rparr>"

text \<open>A round is only ever closed at balance zero, or as stale history with its balance still standing.\<close>

definition closed_as :: "(wallet_round \<Rightarrow> bool) \<Rightarrow> ledger_round \<Rightarrow> bool" where
  "closed_as law f \<longleftrightarrow> (\<exists>r. law r \<and> (wr_balance r = 0 \<and> f = finish False r
     \<or> 0 < wr_balance r \<and> in_i128 (wr_balance r) \<and> f = stale_report r))"

definition open_as :: "(wallet_round \<Rightarrow> bool) \<Rightarrow> string \<Rightarrow> wallet_round \<Rightarrow> bool" where
  "open_as law mint r \<longleftrightarrow> wr_mint r = mint \<and> 0 < wr_balance r \<and> in_i128 (wr_balance r) \<and> law r"

definition reduction_ok :: "(wallet_round \<Rightarrow> bool) \<Rightarrow> reduction \<Rightarrow> bool" where
  "reduction_ok law s \<longleftrightarrow> distinct (map fst (re_open s))
     \<and> (\<forall>mint r. map_of (re_open s) mint = Some r \<longrightarrow> open_as law mint r)
     \<and> (\<forall>f \<in> set (re_finished s). closed_as law f)"

lemma reduction_ok_mono: "reduction_ok P s \<Longrightarrow> (\<And>r. P r \<Longrightarrow> Q r) \<Longrightarrow> reduction_ok Q s"
  unfolding reduction_ok_def open_as_def closed_as_def by blast

lemma empty_reduction_ok: "reduction_ok law empty_reduction"
  by (simp add: reduction_ok_def empty_reduction_def)

lemma close_stale_ok:
  assumes "reduction_ok law s"
  shows "reduction_ok law (close_stale mint s)" and "map_of (re_open (close_stale mint s)) mint = None"
proof -
  have "0 < wr_balance stale \<and> in_i128 (wr_balance stale) \<and> law stale" if "map_of (re_open s) mint = Some stale" for stale
    using assms that by (auto simp: reduction_ok_def open_as_def)
  with assms show "reduction_ok law (close_stale mint s)"
    by (auto simp: close_stale_def reduction_ok_def closed_as_def stale_report_def delete_conv' distinct_delete
        Let_def simp del: map_of_eq_Some_iff split: option.splits if_splits)
  show "map_of (re_open (close_stale mint s)) mint = None"
    by (auto simp: close_stale_def Let_def delete_conv' split: option.split)
qed

text \<open>A hash map visits each entry once, in an order of its own.\<close>

definition visits_each_once :: "((string \<times> wallet_round) list \<Rightarrow> (string \<times> wallet_round) list) \<Rightarrow> bool" where
  "visits_each_once hash_order \<longleftrightarrow> (\<forall>es. mset (hash_order es) = mset es)"

lemma concat_signature_groups: "concat (signature_groups ds) = ds"
  by (induction ds rule: signature_groups.induct) simp_all

lemma finish_is_open [simp]: "lr_is_open (finish b r) = b" "lr_mint (finish b r) = wr_mint r"
  "lr_round_key (finish b r) = wr_round_key r" "lr_history_complete (finish b r) = wr_history_complete r"
  "lr_events (finish b r) = wr_events r" "lr_balance_raw (finish b r) = u128_of_i128 (max (wr_balance r) 0)"
  "lr_total_acquired_raw (finish b r) = u128_of_i128 (max (wr_total_acquired r) 0)"
  "lr_total_disposed_raw (finish b r) = u128_of_i128 (max (wr_total_disposed r) 0)"
  by (simp_all add: finish_def Let_def)

locale round_law =
  fixes pow10 :: "u8 \<Rightarrow> f64"
    and good :: "subject_delta \<Rightarrow> bool"
    and law :: "nat \<Rightarrow> wallet_round \<Rightarrow> bool"
  assumes grounded: "good d \<Longrightarrow> law n (grounded_round d key)"
    and genesis: "good d \<Longrightarrow> law n (genesis_round d key)"
    and applied: "good d \<Longrightarrow> sd_delta_raw d \<noteq> 0 \<Longrightarrow> law n r \<Longrightarrow> wr_mint r = sd_mint d \<Longrightarrow>
       law (Suc n) (apply_movement pow10 siblings d r)"
    and later: "law n r \<Longrightarrow> law (Suc n) r"
begin

text \<open>Opening for a movement gives the movement an accumulator that keeps the law, and keeps the others.\<close>

lemma open_round_ok:
  assumes "reduction_ok (law n) s" and "good d"
  shows "reduction_ok (law n) ((open_round d s)\<lparr>re_open := AList.delete (sd_mint d) (re_open (open_round d s))\<rparr>)
    \<and> distinct (map fst (re_open (open_round d s)))
    \<and> (\<exists>r. map_of (re_open (open_round d s)) (sd_mint d) = Some r \<and> law n r \<and> wr_mint r = sd_mint d)"
proof (cases "0 < sd_delta_raw d \<and> sd_before_raw d = Some 0")
  case True
  with close_stale_ok [OF assms(1), of "sd_mint d"] assms(2) show ?thesis
    by (auto simp: open_round_def Let_def reduction_ok_def delete_conv' update_conv' distinct_update distinct_delete grounded
        simp del: map_of_eq_Some_iff)
next
  case False
  with assms show ?thesis
    by (cases "map_of (re_open s) (sd_mint d)")
      (auto simp: open_round_def Let_def reduction_ok_def open_as_def delete_conv' update_conv' distinct_update
        distinct_delete genesis simp del: map_of_eq_Some_iff)
qed

lemma apply_delta_ok:
  assumes "reduction_ok (law n) s" and "good d" and "sd_delta_raw d \<noteq> 0"
  shows "reduction_ok (law (Suc n)) (apply_delta pow10 siblings d s)"
proof -
  let ?s = "open_round d s"
  from open_round_ok [OF assms(1,2)] obtain r where
    rest: "reduction_ok (law n) (?s\<lparr>re_open := AList.delete (sd_mint d) (re_open ?s)\<rparr>)"
    and dist: "distinct (map fst (re_open ?s))"
    and r: "map_of (re_open ?s) (sd_mint d) = Some r" "law n r" "wr_mint r = sd_mint d" by blast
  let ?r = "apply_movement pow10 siblings d r"
  have law: "law (Suc n) ?r" by (rule applied [OF assms(2,3) r(2,3)])
  have old: "reduction_ok (law (Suc n)) (?s\<lparr>re_open := AList.delete (sd_mint d) (re_open ?s)\<rparr>)"
    by (rule reduction_ok_mono [OF rest later])
  from balance_after_range [of d r] have "wr_balance ?r = 0 \<or> 0 < wr_balance ?r" "in_i128 (wr_balance ?r)" by auto
  with old law dist r show ?thesis
    by (auto simp: apply_delta_def Let_def reduction_ok_def open_as_def closed_as_def delete_conv' update_conv'
        distinct_update distinct_delete simp del: map_of_eq_Some_iff split: if_splits)
qed

lemma reduce_group_ok:
  assumes "reduction_ok (law n) s" and "\<And>d. d \<in> set ds \<Longrightarrow> good d"
  shows "reduction_ok (law (n + length ds)) (fold (\<lambda>d s. if is_reference_asset (sd_mint d) \<or> sd_delta_raw d = 0
     then s else apply_delta pow10 siblings d s) ds s)"
  using assms
proof (induction ds arbitrary: n s)
  case (Cons d ds)
  have "reduction_ok (law (Suc n)) (if is_reference_asset (sd_mint d) \<or> sd_delta_raw d = 0
      then s else apply_delta pow10 siblings d s)"
    using apply_delta_ok [of n s d] reduction_ok_mono [OF Cons.prems(1) later] Cons.prems by simp
  from Cons.IH [OF this] Cons.prems(2) show ?case by simp
qed simp

lemma reduce_groups_ok:
  assumes "reduction_ok (law n) s" and "\<And>d. d \<in> set (concat gs) \<Longrightarrow> good d"
  shows "reduction_ok (law (n + length (concat gs))) (fold (reduce_group pow10) gs s)"
  using assms
proof (induction gs arbitrary: n s)
  case (Cons g gs)
  from reduce_group_ok [OF Cons.prems(1)] Cons.prems(2)
  have "reduction_ok (law (n + length g)) (reduce_group pow10 g s)" by (simp add: reduce_group_def)
  from Cons.IH [OF this] Cons.prems(2) show ?case by (simp add: add.assoc)
qed simp

lemma reported:
  assumes "\<And>d. d \<in> set deltas \<Longrightarrow> good d" and "visits_each_once hash_order"
    and "f \<in> set (reduce_rounds hash_order pow10 deltas)"
  shows "if lr_is_open f
     then \<exists>r. open_as (law (length (filter sd_success deltas))) (lr_mint f) r \<and> f = finish True r
     else closed_as (law (length (filter sd_success deltas))) f"
proof -
  let ?s = "fold (reduce_group pow10) (signature_groups (ordered_deltas deltas)) empty_reduction"
  let ?law = "law (length (filter sd_success deltas))"
  have "reduction_ok (law (0 + length (concat (signature_groups (ordered_deltas deltas))))) ?s"
  proof (rule reduce_groups_ok [OF empty_reduction_ok])
    show "good d" if "d \<in> set (concat (signature_groups (ordered_deltas deltas)))" for d
      using that assms(1) by (simp add: concat_signature_groups ordered_deltas_def)
  qed
  then have ok: "reduction_ok ?law ?s" by (simp add: concat_signature_groups ordered_deltas_def)
  have "set (hash_order es) = set es" for es
    using assms(2) by (auto simp: visits_each_once_def dest!: mset_eq_setD spec [of _ es])
  with assms(3) consider "f \<in> set (re_finished ?s)" | mint r where "(mint, r) \<in> set (re_open ?s)" "f = finish True r"
    by (auto simp: reduce_rounds_def Let_def)
  then show ?thesis
  proof cases
    case 1
    with ok have "closed_as ?law f" by (simp add: reduction_ok_def)
    moreover from this have "\<not> lr_is_open f" by (auto simp: closed_as_def stale_report_def)
    ultimately show ?thesis by simp
  next
    case 2
    with ok have "open_as ?law mint r" by (auto simp: reduction_ok_def)
    with 2 show ?thesis by (auto simp: open_as_def)
  qed
qed

end

section \<open>Totals balance\<close>

definition spl_amount :: "subject_delta \<Rightarrow> bool" where
  "spl_amount d \<longleftrightarrow> \<bar>sd_delta_raw d\<bar> < 2 ^ 64"

definition balances :: "nat \<Rightarrow> wallet_round \<Rightarrow> bool" where
  "balances n r \<longleftrightarrow> (n \<le> 2 ^ 62 \<and> wr_history_complete r \<longrightarrow> 0 \<le> wr_balance r \<and> 0 \<le> wr_total_disposed r
     \<and> wr_total_acquired r = wr_total_disposed r + wr_balance r \<and> wr_total_acquired r \<le> int n * 2 ^ 64)"

lemma apply_movement_history:
  "wr_history_complete (apply_movement pow10 siblings d r) \<longleftrightarrow>
     wr_history_complete r \<and> known_before d r
     \<and> Option.bind (sd_after_raw d) i128_of_u128 = Some (max (wrap_i128 (max (wr_balance r) 0 + sd_delta_raw d)) 0)
     \<and> (0 < sd_delta_raw d \<or> 0 < wr_balance r)"
proof -
  have known: "known_before d (r\<lparr>wr_decimals := x\<rparr>) = known_before d r" for x by (simp add: known_before_def)
  show ?thesis
    by (cases "known_before d r") (auto simp: apply_movement_def Let_def known reconcile_before_known)
qed

lemma balances_applied:
  assumes "spl_amount d" and "sd_delta_raw d \<noteq> 0" and "balances n r"
  shows "balances (Suc n) (apply_movement pow10 siblings d r)"
  unfolding balances_def
proof (intro impI, elim conjE)
  let ?r = "apply_movement pow10 siblings d r" and ?d = "sd_delta_raw d"
  assume n: "Suc n \<le> 2 ^ 62" and complete: "wr_history_complete ?r"
  from complete have known: "known_before d r" and r: "wr_history_complete r"
    and after: "balance_after d r = max (wrap_i128 (max (wr_balance r) 0 + ?d)) 0"
    and side: "0 < ?d \<or> 0 < wr_balance r"
    by (auto simp: apply_movement_history balance_after_def)
  from assms(3) n r have old: "0 \<le> wr_balance r" "0 \<le> wr_total_disposed r"
    "wr_total_acquired r = wr_total_disposed r + wr_balance r" "wr_total_acquired r \<le> int n * 2 ^ 64"
    by (simp_all add: balances_def)
  have "int n * 2 ^ 64 \<le> 2 ^ 62 * 2 ^ 64" using n by (simp add: nat_le_iff)
  with old have small: "wr_total_acquired r \<le> 2 ^ 126" "wr_balance r \<le> 2 ^ 126" "wr_total_disposed r \<le> 2 ^ 126" by simp_all
  from assms(1) have d: "- (2 ^ 64) < ?d" "?d < 2 ^ 64" by (auto simp: spl_amount_def)
  have known': "known_before d (r\<lparr>wr_decimals := x\<rparr>) = known_before d r" for x by (simp add: known_before_def)
  have acquired: "wr_total_acquired ?r = (if 0 < ?d then wrap_i128 (wr_total_acquired r + ?d) else wr_total_acquired r)"
    and disposed: "wr_total_disposed ?r = (if 0 < ?d then wr_total_disposed r
      else wrap_i128 (wr_total_disposed r + min (wrap_i128 (- ?d)) (wr_balance r)))"
    using known known' side old(1) by (auto simp: apply_movement_def Let_def reconcile_before_known)
  have wrapped: "wrap_i128 (wr_balance r + ?d) = wr_balance r + ?d" "wrap_i128 (- ?d) = - ?d"
    "wrap_i128 (wr_total_acquired r + ?d) = wr_total_acquired r + ?d"
    "wrap_i128 (wr_total_disposed r + min (- ?d) (wr_balance r)) = wr_total_disposed r + min (- ?d) (wr_balance r)"
    using d small old by (auto intro!: wrap_i128_id simp: in_i128_def)
  have totals: "wr_balance ?r = max (wr_balance r + ?d) 0"
    "wr_total_acquired ?r = (if 0 < ?d then wr_total_acquired r + ?d else wr_total_acquired r)"
    "wr_total_disposed ?r = (if 0 < ?d then wr_total_disposed r else wr_total_disposed r + min (- ?d) (wr_balance r))"
    using old(1) by (simp_all only: apply_movement_fields after acquired disposed wrapped max_absorb1 if_cancel)
  show "0 \<le> wr_balance ?r \<and> 0 \<le> wr_total_disposed ?r
     \<and> wr_total_acquired ?r = wr_total_disposed ?r + wr_balance ?r \<and> wr_total_acquired ?r \<le> int (Suc n) * 2 ^ 64"
    using old d side assms(2) unfolding totals by (auto simp: max_def min_def)
qed

interpretation balance: round_law pow10 spl_amount balances for pow10
proof unfold_locales
  show "balances (Suc n) r" if "balances n r" for n r using that by (auto simp: balances_def algebra_simps)
  show "balances (Suc n) (apply_movement pow10 siblings d r)"
    if "spl_amount d" "sd_delta_raw d \<noteq> 0" "balances n r" for d n r siblings by (rule balances_applied [OF that])
qed (simp_all add: balances_def)

section \<open>Prices are seen\<close>

definition sol_priced :: "ledger_event \<Rightarrow> bool" where
  "sol_priced e \<longleftrightarrow> le_kind e \<noteq> Receive \<and> le_kind e \<noteq> Send \<and> map_option ql_asset (le_quote e) = Some Sol"

definition sol_legs :: "ledger_event list \<Rightarrow> f64 list" where
  "sol_legs es = map (\<lambda>e. case le_quote e of Some leg \<Rightarrow> ql_amount leg | None \<Rightarrow> Finite 0) es"

definition disposals :: "ledger_event list \<Rightarrow> ledger_event list" where
  "disposals es = filter (\<lambda>e. \<not> is_acquisition (le_kind e)) es"

definition acquisitions :: "ledger_event list \<Rightarrow> ledger_event list" where
  "acquisitions es = filter (\<lambda>e. is_acquisition (le_kind e)) es"

definition prices_seen :: "wallet_round \<Rightarrow> bool" where
  "prices_seen r \<longleftrightarrow>
     (wr_basis_complete r \<longrightarrow> (\<forall>e \<in> set (acquisitions (wr_events r)). sol_priced e))
     \<and> (wr_proceeds_complete r \<longrightarrow> (\<forall>e \<in> set (disposals (wr_events r)). sol_priced e)
          \<and> wr_realized_proceeds r = foldl f64_add (Finite 0) (sol_legs (disposals (wr_events r))))"

lemma sol_legs_append [simp]: "sol_legs [] = []" "sol_legs (es @ fs) = sol_legs es @ sol_legs fs"
  by (simp_all add: sol_legs_def)

lemma event_lists_push [simp]:
  "disposals (wr_events (push_event pow10 d k a b q p r)) = disposals (wr_events r) @
     (if is_acquisition k then [] else [last (wr_events (push_event pow10 d k a b q p r))])"
  "acquisitions (wr_events (push_event pow10 d k a b q p r)) = acquisitions (wr_events r) @
     (if is_acquisition k then [last (wr_events (push_event pow10 d k a b q p r))] else [])"
  "sol_priced (last (wr_events (push_event pow10 d k a b q p r))) \<longleftrightarrow>
     k \<noteq> Receive \<and> k \<noteq> Send \<and> map_option ql_asset q = Some Sol"
  "sol_legs [last (wr_events (push_event pow10 d k a b q p r))] =
     [case q of Some leg \<Rightarrow> ql_amount leg | None \<Rightarrow> Finite 0]"
  "wr_realized_proceeds (push_event pow10 d k a b q p r) = wr_realized_proceeds r"
  by (simp_all add: push_event_def disposals_def acquisitions_def sol_priced_def sol_legs_def)

lemma is_acquisition_simps [simp]:
  "is_acquisition Entry" "is_acquisition Add" "is_acquisition Receive"
  "\<not> is_acquisition PartialExit" "\<not> is_acquisition Exit" "\<not> is_acquisition Send"
  by (simp_all add: is_acquisition_def)

lemma accept_quote_accepts:
  "wr_basis_complete (snd (accept_quote leg r)) \<Longrightarrow> wr_basis_complete r \<and> ql_asset leg = Sol"
  "wr_proceeds_complete (snd (accept_quote leg r)) \<Longrightarrow> wr_proceeds_complete r"
  "wr_realized_proceeds (snd (accept_quote leg r)) = wr_realized_proceeds r"
  by (auto simp: accept_quote_def Let_def split: if_splits)

lemma prices_seen_acquisition:
  assumes "prices_seen r"
  shows "prices_seen (apply_acquisition pow10 siblings d before after r)"
proof -
  let ?q = "quote_for pow10 siblings (sd_mint d) True"
  show ?thesis
    using assms
    by (cases "sd_kind d = Trade"; cases ?q)
      (auto simp: prices_seen_def apply_acquisition_def Let_def case_prod_beta accept_quote_accepts(3)
        dest: accept_quote_accepts(1,2))
qed

lemma prices_seen_disposal:
  assumes "prices_seen r"
  shows "prices_seen (apply_disposal pow10 siblings d before after r)"
proof -
  let ?q = "quote_for pow10 siblings (sd_mint d) False"
  show ?thesis
    using assms
    by (cases "after \<le> 0"; cases "0 < before"; cases "sd_kind d = Trade"; cases ?q)
      (simp_all add: prices_seen_def apply_disposal_def Let_def)
qed

lemma prices_seen_cong:
  assumes "prices_seen r" and "wr_basis_complete r' \<Longrightarrow> wr_basis_complete r"
    and "wr_proceeds_complete r' = wr_proceeds_complete r" and "wr_events r' = wr_events r"
    and "wr_realized_proceeds r' = wr_realized_proceeds r"
  shows "prices_seen r'"
  using assms by (auto simp: prices_seen_def)

lemma prices_seen_applied:
  assumes "prices_seen r"
  shows "prices_seen (apply_movement pow10 siblings d r)"
proof -
  have rec: "prices_seen (reconcile_before d r')" if "prices_seen r'" for r'
    using that by (rule prices_seen_cong) (simp_all add: reconcile_before_def split: option.splits if_splits)
  have upd: "prices_seen (r'\<lparr>wr_decimals := x\<rparr>)" "prices_seen (r'\<lparr>wr_balance := y\<rparr>)"
    "prices_seen (r'\<lparr>wr_closed_at := z\<rparr>)"
    "prices_seen (r'\<lparr>wr_history_complete := False, wr_basis_complete := False\<rparr>)" if "prices_seen r'" for r' x y z
    by (rule prices_seen_cong [OF that]; simp)+
  show ?thesis unfolding apply_movement_def Let_def
    using assms by (auto intro!: upd rec prices_seen_acquisition prices_seen_disposal)
qed

interpretation priced: round_law pow10 "\<lambda>_. True" "\<lambda>_. prices_seen" for pow10
proof unfold_locales
  show "prices_seen (grounded_round d key)" for d key
    by (simp add: prices_seen_def grounded_round_def acquisitions_def disposals_def sol_legs_def)
  show "prices_seen (genesis_round d key)" for d key
    by (simp add: prices_seen_def genesis_round_def grounded_round_def acquisitions_def disposals_def sol_legs_def
        Let_def split: option.split)
qed (auto intro: prices_seen_applied)

end
