(* ===== verification/Ledger_Keys.thy ===== *)
theory Ledger_Keys
  imports Ledger_Laws
begin

text \<open>
  The identities of the rounds \<^verbatim>\<open>positions/ledger/reducer.rs\<close> reports. Each round opened takes a key no other
  round has, so the order of the rows and of the hash map cannot show in the result.
\<close>

section \<open>The keys of the open rounds\<close>

definition open_keys :: "(string \<times> wallet_round) list \<Rightarrow> string list" where
  "open_keys al = map (wr_round_key \<circ> snd) al"

lemma update_absent: "map_of al k = None \<Longrightarrow> AList.update k v al = al @ [(k, v)]"
  by (induction al) (auto split: if_splits)

lemma open_keys_absent: "map_of al k = None \<Longrightarrow> open_keys (AList.update k v al) = open_keys al @ [wr_round_key v]"
  by (simp add: update_absent open_keys_def)

lemma open_keys_in_place:
  "map_of al k = Some v \<Longrightarrow> wr_round_key v' = wr_round_key v \<Longrightarrow> open_keys (AList.update k v' al) = open_keys al"
  by (induction al) (auto simp: open_keys_def split: if_splits)

lemma open_keys_delete:
  "distinct (map fst al) \<Longrightarrow> map_of al k = Some v \<Longrightarrow>
     mset (open_keys al) = add_mset (wr_round_key v) (mset (open_keys (AList.delete k al)))"
proof (induction al)
  case (Cons kv al)
  then show ?case by (cases kv) (auto simp: open_keys_def delete_idem image_iff split: if_splits)
qed simp

section \<open>The key a movement opens\<close>

definition tagged :: "string \<Rightarrow> string \<Rightarrow> string" where
  "tagged a b = a @ CHR '':'' # b"

lemma tagged_inject: "CHR '':'' \<notin> set a \<Longrightarrow> CHR '':'' \<notin> set a' \<Longrightarrow> tagged a b = tagged a' b' \<longleftrightarrow> a = a' \<and> b = b'"
  unfolding tagged_def
proof (induction a arbitrary: a')
  case Nil
  then show ?case by (cases a') auto
next
  case (Cons x a)
  then show ?case by (cases a') auto
qed

lemma colon_in_tagged: "CHR '':'' \<in> set (tagged a b)"
  by (simp add: tagged_def)

definition all_keys :: "reduction \<Rightarrow> string list" where
  "all_keys s = open_keys (re_open s) @ map lr_round_key (re_finished s)"

definition opening_key :: "subject_delta \<Rightarrow> reduction \<Rightarrow> string list" where
  "opening_key d s =
     (if 0 < sd_delta_raw d \<and> sd_before_raw d = Some 0 then [tagged (sd_signature d) (sd_mint d)]
      else if map_of (re_open s) (sd_mint d) \<noteq> None then []
      else if sd_mint d \<notin> re_genesis_used s then [tagged ''genesis'' (sd_mint d)]
      else [tagged ''genesis'' (tagged (sd_signature d) (sd_mint d))])"

lemma close_stale_keys:
  assumes "distinct (map fst (re_open s))"
  shows "mset (all_keys (close_stale mint s)) = mset (all_keys s)"
  using open_keys_delete [OF assms, of mint]
  by (auto simp: close_stale_def all_keys_def Let_def split: option.split)

lemma close_stale_used [simp]: "re_genesis_used (close_stale mint s) = re_genesis_used s"
  by (simp add: close_stale_def Let_def split: option.split)

lemma close_stale_absent [simp]: "map_of (re_open (close_stale mint s)) mint = None"
  by (auto simp: close_stale_def Let_def delete_conv' split: option.split)

lemma open_round_keys:
  assumes "distinct (map fst (re_open s))"
  shows "mset (all_keys (open_round d s)) = mset (all_keys s) + mset (opening_key d s)"
proof (cases "0 < sd_delta_raw d \<and> sd_before_raw d = Some 0")
  case True
  with close_stale_keys [OF assms, of "sd_mint d"] show ?thesis
    by (simp add: open_round_def opening_key_def Let_def all_keys_def open_keys_absent tagged_def)
next
  case False
  then show ?thesis
    by (cases "map_of (re_open s) (sd_mint d)")
      (auto simp: open_round_def opening_key_def Let_def all_keys_def open_keys_absent tagged_def)
qed

lemma apply_delta_keys:
  assumes "distinct (map fst (re_open s))"
  shows "mset (all_keys (apply_delta pow10 siblings d s)) = mset (all_keys s) + mset (opening_key d s)"
proof -
  let ?s = "open_round d s"
  have dist: "distinct (map fst (re_open ?s))"
    using assms by (auto simp: open_round_def Let_def close_stale_def distinct_update distinct_delete split: option.split)
  have "mset (all_keys (apply_delta pow10 siblings d s)) = mset (all_keys ?s)"
  proof (cases "map_of (re_open ?s) (sd_mint d)")
    case (Some r)
    let ?r = "apply_movement pow10 siblings d r"
    let ?open = "AList.update (sd_mint d) ?r (re_open ?s)"
    have same: "open_keys ?open = open_keys (re_open ?s)" by (rule open_keys_in_place [OF Some]) simp
    have "distinct (map fst ?open)" "map_of ?open (sd_mint d) = Some ?r"
      using dist by (simp_all add: distinct_update update_conv' del: map_of_eq_Some_iff)
    from open_keys_delete [OF this] Some same show ?thesis
      by (auto simp: apply_delta_def Let_def all_keys_def simp del: map_of_eq_Some_iff)
  qed (simp add: apply_delta_def Let_def)
  with open_round_keys [OF assms] show ?thesis by simp
qed

lemma apply_delta_used:
  "re_genesis_used (apply_delta pow10 siblings d s) =
     (if 0 < sd_delta_raw d \<and> sd_before_raw d = Some 0 \<or> map_of (re_open s) (sd_mint d) \<noteq> None
      then re_genesis_used s else insert (sd_mint d) (re_genesis_used s))"
proof -
  have "re_genesis_used (apply_delta pow10 siblings d s) = re_genesis_used (open_round d s)"
    by (simp add: apply_delta_def Let_def split: option.split)
  then show ?thesis by (simp add: open_round_def Let_def)
qed

section \<open>Keys never collide\<close>

definition plain_names :: "subject_delta \<Rightarrow> bool" where
  "plain_names d \<longleftrightarrow> CHR '':'' \<notin> set (sd_signature d) \<and> CHR '':'' \<notin> set (sd_mint d) \<and> sd_signature d \<noteq> ''genesis''"

definition row :: "subject_delta \<Rightarrow> string \<times> string" where
  "row d = (sd_signature d, sd_mint d)"

definition key_from :: "subject_delta \<Rightarrow> string \<Rightarrow> bool" where
  "key_from d key \<longleftrightarrow> key = tagged (sd_signature d) (sd_mint d) \<or> key = tagged ''genesis'' (tagged (sd_signature d) (sd_mint d))"

definition keys_ok :: "subject_delta set \<Rightarrow> reduction \<Rightarrow> bool" where
  "keys_ok past s \<longleftrightarrow> distinct (all_keys s) \<and> re_genesis_used s \<subseteq> sd_mint ` past
     \<and> (\<forall>key \<in> set (all_keys s). (\<exists>mint \<in> re_genesis_used s. key = tagged ''genesis'' mint) \<or> (\<exists>d \<in> past. key_from d key))"

lemma genesis_tag: "tagged ''genesis'' x = tagged ''genesis'' y \<longleftrightarrow> x = y"
  by (simp add: tagged_def)

lemma plain_tag:
  assumes "plain_names d"
  shows "tagged (sd_signature d) x \<noteq> tagged ''genesis'' y"
    and "plain_names e \<Longrightarrow> tagged (sd_signature d) x = tagged (sd_signature e) y \<longleftrightarrow> sd_signature d = sd_signature e \<and> x = y"
    and "sd_mint d \<noteq> tagged x y"
  using assms colon_in_tagged [of x y]
  by (auto simp: plain_names_def tagged_inject)

lemma key_from_inj:
  assumes "plain_names d" and "plain_names e" and "key_from d key" and "key_from e key"
  shows "row d = row e"
  using assms(3,4) plain_tag(1) [OF assms(1)] plain_tag(1) [OF assms(2)] plain_tag(2) [OF assms(1,2)]
  by (auto simp: key_from_def row_def genesis_tag) (metis+)?

lemma opening_key_fresh:
  assumes "keys_ok past s" and "plain_names d" and "\<forall>e \<in> past. plain_names e \<and> row e \<noteq> row d"
    and "key \<in> set (opening_key d s)"
  shows "key \<notin> set (all_keys s)"
proof
  assume "key \<in> set (all_keys s)"
  with assms(1) consider e where "e \<in> past" "sd_mint e \<in> re_genesis_used s" "key = tagged ''genesis'' (sd_mint e)"
    | e where "e \<in> past" "key_from e key" unfolding keys_ok_def by blast
  then show False
  proof cases
    case (1 e)
    with assms(3) have "plain_names e" by blast
    with 1(2,3) assms(4) plain_tag(1) [OF assms(2)] plain_tag(1) [OF assms(2), THEN not_sym] plain_tag(3) [of e]
    show False
      by (auto simp: opening_key_def genesis_tag split: if_splits)
  next
    case (2 e)
    with assms(3) have e: "plain_names e" "row e \<noteq> row d" by auto
    show False
    proof (cases "key = tagged ''genesis'' (sd_mint d)")
      case True
      with 2(2) plain_tag(1) [OF e(1)] plain_tag(1) [OF e(1), THEN not_sym] plain_tag(3) [OF assms(2)] show False
        by (auto simp: key_from_def genesis_tag)
    next
      case False
      with assms(4) have "key_from d key" by (auto simp: opening_key_def key_from_def split: if_splits)
      from key_from_inj [OF assms(2) e(1) this 2(2)] e(2) show False by simp
    qed
  qed
qed

lemma opening_key_length: "distinct (opening_key d s)"
  by (simp add: opening_key_def)

lemma apply_delta_keys_ok:
  assumes "keys_ok past s" and "distinct (map fst (re_open s))" and "plain_names d"
    and "\<forall>e \<in> past. plain_names e \<and> row e \<noteq> row d"
  shows "keys_ok (insert d past) (apply_delta pow10 siblings d s)"
proof -
  have keys: "mset (all_keys (apply_delta pow10 siblings d s)) = mset (all_keys s @ opening_key d s)"
    using apply_delta_keys [OF assms(2)] by simp
  have "distinct (all_keys s @ opening_key d s)"
    using opening_key_fresh [OF assms(1,3,4)] opening_key_length assms(1) by (auto simp: keys_ok_def)
  then have dist: "distinct (all_keys (apply_delta pow10 siblings d s))" by (simp only: mset_eq_imp_distinct_iff [OF keys])
  have set: "set (all_keys (apply_delta pow10 siblings d s)) = set (all_keys s) \<union> set (opening_key d s)"
    using mset_eq_setD [OF keys] by simp
  have new: "(\<exists>mint \<in> re_genesis_used (apply_delta pow10 siblings d s). key = tagged ''genesis'' mint) \<or> key_from d key"
    if "key \<in> set (opening_key d s)" for key
    using that by (auto simp: opening_key_def key_from_def apply_delta_used split: if_splits)
  have "re_genesis_used s \<subseteq> re_genesis_used (apply_delta pow10 siblings d s)"
    "re_genesis_used (apply_delta pow10 siblings d s) \<subseteq> insert (sd_mint d) (re_genesis_used s)"
    by (auto simp: apply_delta_used)
  moreover have "(\<exists>mint \<in> re_genesis_used s. key = tagged ''genesis'' mint) \<or> (\<exists>d \<in> past. key_from d key)"
    if "key \<in> set (all_keys s)" for key using assms(1) that by (simp add: keys_ok_def)
  ultimately show ?thesis using assms(1) dist new unfolding keys_ok_def set Un_iff by blast
qed

lemma keys_ok_mono: "keys_ok past s \<Longrightarrow> past \<subseteq> past' \<Longrightarrow> keys_ok past' s"
  unfolding keys_ok_def by blast

lemma reduce_group_keys:
  assumes "reduction_ok prices_seen s" and "keys_ok (set past) s" and "distinct (map row (past @ ds))"
    and "\<forall>d \<in> set (past @ ds). plain_names d"
  shows "keys_ok (set (past @ ds)) (fold (\<lambda>d s. if is_reference_asset (sd_mint d) \<or> sd_delta_raw d = 0
     then s else apply_delta pow10 siblings d s) ds s)"
  using assms
proof (induction ds arbitrary: past s)
  case (Cons d ds)
  let ?s = "if is_reference_asset (sd_mint d) \<or> sd_delta_raw d = 0 then s else apply_delta pow10 siblings d s"
  have "distinct (map fst (re_open s))" "plain_names d" "\<forall>e \<in> set past. plain_names e \<and> row e \<noteq> row d"
    using Cons.prems(1,3,4) by (auto simp: reduction_ok_def rev_image_eqI)
  from apply_delta_keys_ok [OF Cons.prems(2) this] keys_ok_mono [OF Cons.prems(2), of "insert d (set past)"]
  have "keys_ok (insert d (set past)) ?s" by auto
  moreover have "reduction_ok prices_seen ?s"
    using priced.apply_delta_ok [OF Cons.prems(1)] Cons.prems(1) by simp
  ultimately show ?case using Cons.IH [of ?s "past @ [d]"] Cons.prems(3,4) by simp
qed simp

lemma reduce_groups_keys:
  assumes "reduction_ok prices_seen s" and "keys_ok (set past) s" and "distinct (map row (past @ concat gs))"
    and "\<forall>d \<in> set (past @ concat gs). plain_names d"
  shows "keys_ok (set (past @ concat gs)) (fold (reduce_group pow10) gs s)"
  using assms
proof (induction gs arbitrary: past s)
  case (Cons g gs)
  have "keys_ok (set (past @ g)) (reduce_group pow10 g s)"
    unfolding reduce_group_def by (rule reduce_group_keys [OF Cons.prems(1,2)]) (use Cons.prems in auto)
  moreover have "reduction_ok prices_seen (reduce_group pow10 g s)"
    unfolding reduce_group_def by (rule priced.reduce_group_ok [OF Cons.prems(1)]) simp
  ultimately show ?case using Cons.IH [of "reduce_group pow10 g s" "past @ g"] Cons.prems(3,4) by simp
qed simp

text \<open>No transaction moves a mint twice, and the names are not made to look like keys.\<close>

definition clean_history :: "subject_delta list \<Rightarrow> bool" where
  "clean_history deltas \<longleftrightarrow> distinct (map row (filter sd_success deltas)) \<and> list_all plain_names deltas"

definition reduced :: "(u8 \<Rightarrow> f64) \<Rightarrow> subject_delta list \<Rightarrow> reduction" where
  "reduced pow10 deltas = fold (reduce_group pow10) (signature_groups (ordered_deltas deltas)) empty_reduction"

lemma reduced_ok: "reduction_ok prices_seen (reduced pow10 deltas)"
  unfolding reduced_def by (rule priced.reduce_groups_ok [OF empty_reduction_ok]) simp

lemma reduced_keys_ok:
  assumes "clean_history deltas"
  shows "keys_ok (set (ordered_deltas deltas)) (reduced pow10 deltas)"
proof -
  have "keys_ok (set ([] @ concat (signature_groups (ordered_deltas deltas)))) (reduced pow10 deltas)"
    unfolding reduced_def
  proof (rule reduce_groups_keys [OF empty_reduction_ok])
    show "keys_ok (set []) empty_reduction" by (simp add: keys_ok_def empty_reduction_def all_keys_def open_keys_def)
    have "mset (map row (ordered_deltas deltas)) = mset (map row (filter sd_success deltas))"
      by (simp add: ordered_deltas_def)
    from mset_eq_imp_distinct_iff [OF this] assms
    show "distinct (map row ([] @ concat (signature_groups (ordered_deltas deltas))))"
      by (simp add: concat_signature_groups clean_history_def)
    show "\<forall>d \<in> set ([] @ concat (signature_groups (ordered_deltas deltas))). plain_names d"
      using assms by (auto simp: concat_signature_groups clean_history_def list_all_iff ordered_deltas_def)
  qed
  then show ?thesis by (simp add: concat_signature_groups)
qed

lemma reduced_keys: "clean_history deltas \<Longrightarrow> distinct (all_keys (reduced pow10 deltas))"
  using reduced_keys_ok by (simp add: keys_ok_def)

section \<open>What is reported\<close>

definition reports :: "((string \<times> wallet_round) list \<Rightarrow> (string \<times> wallet_round) list) \<Rightarrow> reduction \<Rightarrow> ledger_round list" where
  "reports hash_order s = re_finished s @ map (\<lambda>(_, r). finish True r) (hash_order (re_open s))"

lemma reduce_rounds_reports:
  "reduce_rounds hash_order pow10 deltas = sort_key round_order (reports hash_order (reduced pow10 deltas))"
  by (simp add: reduce_rounds_def reduced_def reports_def Let_def)

lemma mset_reports:
  assumes "visits_each_once hash_order"
  shows "mset (map f (reports hash_order s)) = mset (map f (re_finished s @ map (\<lambda>(_, r). finish True r) (re_open s)))"
proof -
  have "mset (hash_order (re_open s)) = mset (re_open s)" using assms by (simp add: visits_each_once_def)
  then show ?thesis by (simp add: reports_def image_mset.compositionality)
qed

lemma reports_keys:
  assumes "visits_each_once hash_order"
  shows "mset (map lr_round_key (reports hash_order s)) = mset (all_keys s)"
proof -
  have "map (lr_round_key \<circ> (\<lambda>(_, r). finish True r)) (re_open s) = open_keys (re_open s)"
    by (auto simp: open_keys_def)
  then show ?thesis unfolding mset_reports [OF assms] by (simp add: all_keys_def flip: mset_map)
qed

lemma reports_open_mints:
  assumes "visits_each_once hash_order" and "reduction_ok law s"
  shows "distinct (map lr_mint (filter lr_is_open (reports hash_order s)))"
proof -
  have closed: "\<not> lr_is_open f" if "f \<in> set (re_finished s)" for f
    using assms(2) that by (auto simp: reduction_ok_def closed_as_def stale_report_def)
  have mint: "wr_mint r = mint" if "(mint, r) \<in> set (hash_order (re_open s))" for mint r
  proof -
    have "set (hash_order (re_open s)) = set (re_open s)"
      using assms(1) by (auto simp: visits_each_once_def dest: mset_eq_setD)
    with that assms(2) show ?thesis by (auto simp: reduction_ok_def open_as_def)
  qed
  have "filter lr_is_open (reports hash_order s) = map (\<lambda>(_, r). finish True r) (hash_order (re_open s))"
    using closed by (auto simp: reports_def filter_empty_conv filter_id_conv)
  then have "map lr_mint (filter lr_is_open (reports hash_order s)) = map fst (hash_order (re_open s))"
    using mint by (auto simp: case_prod_beta)
  moreover have "mset (map fst (hash_order (re_open s))) = mset (map fst (re_open s))"
    using assms(1) by (simp add: visits_each_once_def)
  ultimately show ?thesis using assms(2) mset_eq_imp_distinct_iff by (metis reduction_ok_def)
qed

lemma sort_key_unique:
  assumes "mset xs = mset ys" and "inj_on f (set xs)"
  shows "sort_key f xs = sort_key f ys"
  by (rule sort_key_inj_key_eq) (use assms in simp_all)

lemma round_order_inj: "distinct (map lr_round_key fs) \<Longrightarrow> inj_on round_order (set fs)"
  by (auto simp: distinct_map inj_on_def round_order_def)

lemma delta_key_inj: "distinct (map row ds) \<Longrightarrow> inj_on delta_key (set ds)"
  by (auto simp: distinct_map inj_on_def delta_key_def row_def)

lemma ordered_deltas_unique:
  assumes "mset deltas = mset deltas'" and "clean_history deltas"
  shows "ordered_deltas deltas = ordered_deltas deltas'"
  unfolding ordered_deltas_def
proof (rule sort_key_unique)
  show "mset (filter sd_success deltas) = mset (filter sd_success deltas')" using assms(1) by (simp add: mset_filter)
  show "inj_on delta_key (set (filter sd_success deltas))"
    using assms(2) by (intro delta_key_inj) (simp add: clean_history_def)
qed

end
