(* ===== verification/Wallet_Reconcile.thy ===== *)
theory Wallet_Reconcile
  imports Ledger_Keys
begin

text \<open>
  \<^verbatim>\<open>reconcile_with_wallet\<close> of \<^verbatim>\<open>positions/ledger/reducer.rs\<close>: the balances the wallet holds win over what was
  observed, and a holding without a round gets one.
\<close>

section \<open>Reconciliation\<close>

text \<open>Collecting into a hash map keeps the last entry of a key.\<close>

definition on_chain :: "wallet_holding list \<Rightarrow> string \<Rightarrow> wallet_holding option" where
  "on_chain holdings = map_of (rev (map (\<lambda>h. (wh_mint h, h)) holdings))"

definition actual_balance :: "(string \<Rightarrow> wallet_holding option) \<Rightarrow> string \<Rightarrow> u128" where
  "actual_balance held mint = (case held mint of Some h \<Rightarrow> wh_amount_raw h | None \<Rightarrow> 0)"

definition reconcile_round :: "(string \<Rightarrow> wallet_holding option) \<Rightarrow> ledger_round \<Rightarrow> ledger_round" where
  "reconcile_round held r =
     (if \<not> lr_is_open r then r
      else let actual = actual_balance held (lr_mint r)
      in if actual = lr_balance_raw r then r
      else let r = r\<lparr>lr_balance_raw := actual, lr_history_complete := False, lr_basis_complete := False,
                 lr_realized_pnl_sol := None, lr_average_entry_price_sol := None\<rparr>
      in if actual = 0 then r\<lparr>lr_is_open := False, lr_remaining_basis_sol := Finite 0\<rparr> else r)"

definition holding_round :: "string set \<Rightarrow> wallet_holding \<Rightarrow> ledger_round" where
  "holding_round taken h =
     (let bare = ''genesis:'' @ wh_mint h;
          round_key = (if bare \<in> taken then ''genesis:holding:'' @ wh_mint h else bare)
      in \<lparr>lr_mint = wh_mint h, lr_decimals = wh_decimals h, lr_round_key = round_key, lr_opened_at = None,
          lr_closed_at = None, lr_is_open = True, lr_balance_raw = wh_amount_raw h,
          lr_total_acquired_raw = wh_amount_raw h, lr_total_disposed_raw = 0, lr_entry_count = 0,
          lr_exit_count = 0, lr_invested_sol = Finite 0, lr_remaining_basis_sol = Finite 0,
          lr_realized_proceeds_sol = Finite 0, lr_realized_cost_sol = Finite 0,
          lr_average_entry_price_sol = None, lr_average_exit_price_sol = None, lr_realized_pnl_sol = None,
          lr_basis_complete = False, lr_history_complete = False, lr_entry_signature = None,
          lr_exit_signature = None, lr_events = []\<rparr>)"

definition reconcile_with_wallet :: "ledger_round list \<Rightarrow> wallet_holding list \<Rightarrow> ledger_round list" where
  "reconcile_with_wallet rounds holdings =
     (let rounds = map (reconcile_round (on_chain holdings)) rounds;
          known = set (map lr_mint (filter lr_is_open rounds));
          taken = set (map lr_round_key rounds);
          missing = filter (\<lambda>h. 0 < wh_amount_raw h \<and> wh_mint h \<notin> known) holdings
      in rounds @ map (holding_round taken) missing)"

lemma reconcile_round_fields [simp]:
  "lr_mint (reconcile_round held r) = lr_mint r"
  "lr_round_key (reconcile_round held r) = lr_round_key r"
  "lr_events (reconcile_round held r) = lr_events r"
  by (simp_all add: reconcile_round_def Let_def)

lemma holding_round_fields [simp]:
  "lr_mint (holding_round taken h) = wh_mint h" "lr_is_open (holding_round taken h)"
  "lr_balance_raw (holding_round taken h) = wh_amount_raw h"
  "lr_realized_pnl_sol (holding_round taken h) = None" "\<not> lr_basis_complete (holding_round taken h)"
  "lr_round_key (holding_round taken h) =
     (if tagged ''genesis'' (wh_mint h) \<in> taken then tagged ''genesis'' (tagged ''holding'' (wh_mint h))
      else tagged ''genesis'' (wh_mint h))"
  by (simp_all add: holding_round_def Let_def tagged_def)

lemma on_chain_distinct: "distinct (map wh_mint holdings) \<Longrightarrow> on_chain holdings mint = Some h \<longleftrightarrow> h \<in> set holdings \<and> wh_mint h = mint"
  by (auto simp: on_chain_def rev_map [symmetric] o_def distinct_map)

lemma on_chain_None: "on_chain holdings mint = None \<longleftrightarrow> mint \<notin> wh_mint ` set holdings"
  by (simp add: on_chain_def map_of_eq_None_iff image_image)

lemma actual_held: "distinct (map wh_mint holdings) \<Longrightarrow> h \<in> set holdings \<Longrightarrow>
   actual_balance (on_chain holdings) (wh_mint h) = wh_amount_raw h"
proof -
  assume "distinct (map wh_mint holdings)" "h \<in> set holdings"
  then have "on_chain holdings (wh_mint h) = Some h" by (simp add: on_chain_distinct)
  then show ?thesis by (simp add: actual_balance_def)
qed

lemma actual_nonzero:
  "actual_balance (on_chain holdings) mint \<noteq> 0 \<Longrightarrow> mint \<in> wh_mint ` set holdings"
  using on_chain_None [of holdings mint] by (auto simp: actual_balance_def split: option.splits)

text \<open>A reconciled round is open exactly when the wallet still holds its mint, with what it holds.\<close>

lemma reconcile_round_open:
  assumes "lr_is_open r \<Longrightarrow> lr_balance_raw r \<noteq> 0"
  shows "lr_is_open (reconcile_round held r) \<longleftrightarrow> lr_is_open r \<and> actual_balance held (lr_mint r) \<noteq> 0"
    and "lr_is_open (reconcile_round held r) \<Longrightarrow> lr_balance_raw (reconcile_round held r) = actual_balance held (lr_mint r)"
  using assms by (auto simp: reconcile_round_def Let_def split: if_splits)

definition held :: "ledger_round \<Rightarrow> string \<times> u128" where
  "held r = (lr_mint r, lr_balance_raw r)"

definition holds :: "wallet_holding \<Rightarrow> string \<times> u128" where
  "holds h = (wh_mint h, wh_amount_raw h)"

lemma distinct_map_filterI: "distinct (map f xs) \<Longrightarrow> distinct (map f (filter P xs))"
  by (simp add: distinct_map_filter)

lemma reconcile_mirrors:
  assumes "distinct (map wh_mint holdings)" and "distinct (map lr_mint (filter lr_is_open rounds))"
    and "\<forall>r \<in> set rounds. lr_is_open r \<longrightarrow> lr_balance_raw r \<noteq> 0"
  shows "mset (map held (filter lr_is_open (reconcile_with_wallet rounds holdings)))
     = mset (map holds (filter (\<lambda>h. 0 < wh_amount_raw h) holdings))"
proof -
  let ?rec = "reconcile_round (on_chain holdings)" and ?actual = "actual_balance (on_chain holdings)"
  let ?kept = "filter (\<lambda>r. ?actual (lr_mint r) \<noteq> 0) (filter lr_is_open rounds)"
  let ?known = "lr_mint ` set ?kept"
  let ?missing = "filter (\<lambda>h. 0 < wh_amount_raw h \<and> wh_mint h \<notin> ?known) holdings"
  let ?old = "map (\<lambda>r. (lr_mint r, ?actual (lr_mint r))) ?kept" and ?new = "map holds ?missing"
  have opens: "filter lr_is_open (map ?rec rounds) = map ?rec ?kept"
    unfolding filter_map using reconcile_round_open(1) assms(3) by (auto intro!: arg_cong [of _ _ "map _"] filter_cong)
  have "held (?rec r) = (lr_mint r, ?actual (lr_mint r))" if "r \<in> set ?kept" for r
    using that reconcile_round_open [of r] assms(3) by (auto simp: held_def)
  then have "map held (filter lr_is_open (map ?rec rounds)) = ?old" unfolding opens by simp
  moreover have "set (map lr_mint (filter lr_is_open (map ?rec rounds))) = ?known" unfolding opens by force
  ultimately have split: "map held (filter lr_is_open (reconcile_with_wallet rounds holdings)) = ?old @ ?new"
    by (simp add: reconcile_with_wallet_def Let_def held_def holds_def o_def)
  have "distinct (map lr_mint ?kept)" by (rule distinct_map_filterI [OF assms(2)])
  moreover have "distinct (map wh_mint ?missing)" by (rule distinct_map_filterI [OF assms(1)])
  moreover have "map fst (?old @ ?new) = map lr_mint ?kept @ map wh_mint ?missing" by (simp add: o_def holds_def)
  moreover have "set (map lr_mint ?kept) \<inter> set (map wh_mint ?missing) = {}" by force
  ultimately have "distinct (map fst (?old @ ?new))" by (simp only: distinct_append)
  then have dist: "distinct (?old @ ?new)" by (simp only: distinct_map)
  have "distinct (map fst (map holds (filter (\<lambda>h. 0 < wh_amount_raw h) holdings)))"
    using distinct_map_filterI [OF assms(1)] by (simp add: o_def holds_def)
  then have dist': "distinct (map holds (filter (\<lambda>h. 0 < wh_amount_raw h) holdings))" by (simp only: distinct_map)
  have old: "x \<in> set ?old \<longleftrightarrow> (\<exists>h \<in> set holdings. 0 < wh_amount_raw h \<and> wh_mint h \<in> ?known \<and> x = holds h)" for x
  proof
    assume "x \<in> set ?old"
    then obtain r where r: "r \<in> set ?kept" "x = (lr_mint r, ?actual (lr_mint r))" by (auto simp only: set_map)
    then have pos: "?actual (lr_mint r) \<noteq> 0" by simp
    from actual_nonzero [OF this] obtain h where h: "h \<in> set holdings" "lr_mint r = wh_mint h" by auto
    with pos actual_held [OF assms(1)] have "0 < wh_amount_raw h" "x = holds h" by (simp_all add: r(2) holds_def word_neq_0_conv)
    moreover have "wh_mint h \<in> ?known" using r(1) h(2) by (metis imageI)
    ultimately show "\<exists>h \<in> set holdings. 0 < wh_amount_raw h \<and> wh_mint h \<in> ?known \<and> x = holds h" using h(1) by blast
  next
    assume "\<exists>h \<in> set holdings. 0 < wh_amount_raw h \<and> wh_mint h \<in> ?known \<and> x = holds h"
    then obtain h r where h: "h \<in> set holdings" "x = holds h" and r: "r \<in> set ?kept" "wh_mint h = lr_mint r" by blast
    have "x = (lr_mint r, ?actual (lr_mint r))" using actual_held [OF assms(1) h(1)] r(2) h(2) by (simp add: holds_def)
    with r(1) show "x \<in> set ?old" by (auto simp only: set_map)
  qed
  have "x \<in> set ?new \<longleftrightarrow> (\<exists>h \<in> set holdings. 0 < wh_amount_raw h \<and> wh_mint h \<notin> ?known \<and> x = holds h)" for x by auto
  with old have "x \<in> set (?old @ ?new) \<longleftrightarrow> x \<in> set (map holds (filter (\<lambda>h. 0 < wh_amount_raw h) holdings))" for x
    unfolding set_append Un_iff by auto
  then have "set (?old @ ?new) = set (map holds (filter (\<lambda>h. 0 < wh_amount_raw h) holdings))" by blast
  with dist dist' show ?thesis unfolding split by (simp only: set_eq_iff_mset_eq_distinct)
qed

section \<open>Keys after the reconciliation\<close>

definition signatures_plain :: "subject_delta list \<Rightarrow> bool" where
  "signatures_plain deltas \<longleftrightarrow> (\<forall>d \<in> set deltas. sd_signature d \<noteq> ''holding'')"

lemma u128_nonzero: "0 < x \<Longrightarrow> in_i128 x \<Longrightarrow> u128_of_i128 x \<noteq> 0"
  using u128_of_i128_unat [of x] by auto

text \<open>Everything the reduction reports: a closed round of a full exit, stale history, or an open round.\<close>

lemma reduced_round_open:
  assumes "visits_each_once hash_order" and "r \<in> set (reduce_rounds hash_order pow10 deltas)"
  shows "lr_is_open r \<Longrightarrow> lr_balance_raw r \<noteq> 0"
    and "\<not> lr_is_open r \<Longrightarrow> lr_balance_raw r = 0 \<or> \<not> lr_history_complete r \<and> \<not> lr_basis_complete r"
proof -
  note reported = priced.reported [OF _ assms]
  show "lr_balance_raw r \<noteq> 0" if "lr_is_open r"
    using reported that by (auto simp: open_as_def u128_nonzero)
  show "lr_balance_raw r = 0 \<or> \<not> lr_history_complete r \<and> \<not> lr_basis_complete r" if "\<not> lr_is_open r"
    using reported that by (auto simp: closed_as_def stale_report_def u128_of_i128_def)
qed

lemma reduced_open_mints:
  assumes "visits_each_once hash_order"
  shows "distinct (map lr_mint (filter lr_is_open (reduce_rounds hash_order pow10 deltas)))"
proof -
  let ?rs = "reports hash_order (reduced pow10 deltas)"
  have "mset (map lr_mint (filter lr_is_open (sort_key round_order ?rs))) = mset (map lr_mint (filter lr_is_open ?rs))"
    by (simp add: mset_filter)
  from mset_eq_imp_distinct_iff [OF this] reports_open_mints [OF assms reduced_ok] show ?thesis
    by (simp add: reduce_rounds_reports)
qed

lemma reduced_round_keys:
  assumes "visits_each_once hash_order" and "clean_history deltas"
  shows "distinct (map lr_round_key (reduce_rounds hash_order pow10 deltas))"
proof -
  have "mset (map lr_round_key (reduce_rounds hash_order pow10 deltas)) = mset (all_keys (reduced pow10 deltas))"
    using reports_keys [OF assms(1), of "reduced pow10 deltas"] by (simp add: reduce_rounds_reports)
  from mset_eq_imp_distinct_iff [OF this] reduced_keys [OF assms(2)] show ?thesis by simp
qed

text \<open>Where a key can come from, once the names are plain.\<close>

definition key_form :: "string \<Rightarrow> bool" where
  "key_form key \<longleftrightarrow> (\<exists>mint. CHR '':'' \<notin> set mint \<and> key = tagged ''genesis'' mint)
     \<or> (\<exists>d. plain_names d \<and> sd_signature d \<noteq> ''holding'' \<and> key_from d key)"

lemma reduced_key_forms:
  assumes "visits_each_once hash_order" and "clean_history deltas" and "signatures_plain deltas"
    and "r \<in> set (reduce_rounds hash_order pow10 deltas)"
  shows "key_form (lr_round_key r)"
proof -
  have past: "plain_names d \<and> sd_signature d \<noteq> ''holding''" if "d \<in> set (ordered_deltas deltas)" for d
    using that assms(2,3) by (auto simp: ordered_deltas_def clean_history_def list_all_iff signatures_plain_def)
  have keys: "keys_ok (set (ordered_deltas deltas)) (reduced pow10 deltas)"
    by (rule reduced_keys_ok [OF assms(2)])
  have "lr_round_key r \<in> set (map lr_round_key (reports hash_order (reduced pow10 deltas)))"
    using assms(4) by (simp add: reduce_rounds_reports)
  then have "lr_round_key r \<in> set (all_keys (reduced pow10 deltas))"
    using mset_eq_setD [OF reports_keys [OF assms(1)]] by blast
  with keys consider mint where "mint \<in> sd_mint ` set (ordered_deltas deltas)" "lr_round_key r = tagged ''genesis'' mint"
    | d where "d \<in> set (ordered_deltas deltas)" "key_from d (lr_round_key r)"
    unfolding keys_ok_def by blast
  then show ?thesis
  proof cases
    case 1
    with past show ?thesis unfolding key_form_def plain_names_def by blast
  next
    case 2
    with past show ?thesis unfolding key_form_def by blast
  qed
qed

lemma holding_key_fresh:
  assumes "key_form (tagged ''genesis'' (tagged ''holding'' mint))"
  shows False
  using assms unfolding key_form_def
proof (elim disjE exE conjE)
  fix m assume "CHR '':'' \<notin> set m" "tagged ''genesis'' (tagged ''holding'' mint) = tagged ''genesis'' m"
  then show False using colon_in_tagged [of "''holding''" mint] by (simp add: genesis_tag)
next
  fix d assume d: "plain_names d" "sd_signature d \<noteq> ''holding''" "key_from d (tagged ''genesis'' (tagged ''holding'' mint))"
  then have "tagged (sd_signature d) (sd_mint d) = tagged ''holding'' mint"
    using plain_tag(1) [OF d(1), THEN not_sym] by (auto simp: key_from_def genesis_tag)
  then show False using d(1,2) by (simp add: tagged_inject plain_names_def)
qed

lemma reconcile_keys:
  assumes "distinct (map wh_mint holdings)" and "\<forall>h \<in> set holdings. CHR '':'' \<notin> set (wh_mint h)"
    and "distinct (map lr_round_key rounds)" and "\<forall>r \<in> set rounds. key_form (lr_round_key r)"
  shows "distinct (map lr_round_key (reconcile_with_wallet rounds holdings))"
proof -
  let ?taken = "set (map lr_round_key rounds)"
  let ?key = "\<lambda>h. lr_round_key (holding_round ?taken h)"
  have plain: "wh_mint h \<noteq> tagged x y" if "h \<in> set holdings" for h x y
    using assms(2) that colon_in_tagged [of x y] by auto
  have "?key h \<notin> ?taken" for h
    using assms(4) holding_key_fresh [of "wh_mint h"] by auto
  then have "?taken \<inter> ?key ` A = {}" for A by blast
  moreover have "inj_on ?key (set holdings)"
  proof (rule inj_onI)
    fix h h' assume h: "h \<in> set holdings" "h' \<in> set holdings" "?key h = ?key h'"
    then have "wh_mint h = wh_mint h'"
      using plain [OF h(1)] plain [OF h(2)] plain [OF h(1), THEN not_sym] plain [OF h(2), THEN not_sym]
      by (auto simp: genesis_tag tagged_inject split: if_splits)
    with assms(1) h(1,2) show "h = h'" by (auto simp: distinct_map inj_on_def)
  qed
  moreover have "distinct holdings" using assms(1) by (simp add: distinct_map)
  ultimately have "distinct (map lr_round_key rounds @ map ?key (filter P holdings))" for P
    using assms(3) by (simp del: holding_round_fields add: distinct_map) (blast intro: inj_on_subset)
  moreover have "map lr_round_key (map (reconcile_round (on_chain holdings)) rounds) = map lr_round_key rounds" by simp
  ultimately show ?thesis
    unfolding reconcile_with_wallet_def Let_def map_append by (simp only: map_map o_def)
qed

end
