(* ===== verification/Ledger_Sync.thy ===== *)
theory Ledger_Sync
  imports Wallet_Reconcile Position_Types
begin

text \<open>
  The planner of \<^verbatim>\<open>positions/ledger/sync.rs\<close>: which position rows the reduced rounds require to be created,
  rewritten or reconciled. \<^verbatim>\<open>DateTime::from_timestamp\<close> refuses a time outside its range; what it returns is
  the parameter \<open>stamp\<close>.
\<close>

section \<open>Inputs and the plan\<close>

definition CLOSED_EXTERNALLY :: string where
  "CLOSED_EXTERNALLY = ''closed_externally''"

record trader_legs =
  tl_entry_signatures :: "string set"
  tl_booked_invested_sol :: f64

definition no_legs :: trader_legs where
  "no_legs = \<lparr>tl_entry_signatures = {}, tl_booked_invested_sol = Finite 0\<rparr>"

fun legs_from_rows :: "(i64 \<times> string \<times> bool \<times> f64) list \<Rightarrow> (i64 \<rightharpoonup> trader_legs) \<Rightarrow> i64 \<rightharpoonup> trader_legs" where
  "legs_from_rows [] m = m"
| "legs_from_rows ((position_id, signature, is_exit, sol) # rows) m =
     (if is_exit then legs_from_rows rows m
      else let legs = (case m position_id of Some legs \<Rightarrow> legs | None \<Rightarrow> no_legs);
               legs = (if signature \<in> tl_entry_signatures legs then legs
                 else \<lparr>tl_entry_signatures = insert signature (tl_entry_signatures legs),
                       tl_booked_invested_sol = f64_add (tl_booked_invested_sol legs) sol\<rparr>)
      in legs_from_rows rows (m(position_id \<mapsto> legs)))"

definition from_rows :: "(i64 \<times> string \<times> bool \<times> f64) list \<Rightarrow> i64 \<rightharpoonup> trader_legs" where
  "from_rows rows = legs_from_rows rows Map.empty"

record round_metadata =
  rm_symbol :: "string option"
  rm_name :: "string option"
  rm_frozen :: bool

definition no_metadata :: round_metadata where
  "no_metadata = \<lparr>rm_symbol = None, rm_name = None, rm_frozen = False\<rparr>"

record sync_plan =
  sp_inserts :: "position list"
  sp_updates :: "position list"

definition plan_is_empty :: "sync_plan \<Rightarrow> bool" where
  "plan_is_empty plan \<longleftrightarrow> sp_inserts plan = [] \<and> sp_updates plan = []"

section \<open>Helpers\<close>

definition same_money :: "f64 \<Rightarrow> f64 \<Rightarrow> bool" where
  "same_money a b \<longleftrightarrow> f64_le (f64_abs (f64_sub a b)) DUST"

fun same_opt_money :: "f64 option \<Rightarrow> f64 option \<Rightarrow> bool" where
  "same_opt_money None None = True"
| "same_opt_money (Some a) (Some b) = same_money a b"
| "same_opt_money _ _ = False"

text \<open>Equality of \<^verbatim>\<open>Option<f64>\<close>, under which a \<^verbatim>\<open>NaN\<close> differs from itself.\<close>

fun same_opt_f64 :: "f64 option \<Rightarrow> f64 option \<Rightarrow> bool" where
  "same_opt_f64 None None = True"
| "same_opt_f64 (Some a) (Some b) = (a \<noteq> NaN \<and> a = b)"
| "same_opt_f64 _ _ = False"

definition clamp_raw :: "u128 \<Rightarrow> u64" where
  "clamp_raw raw = (if unat raw < 2 ^ 64 then ucast raw else - 1)"

definition short_mint :: "string \<Rightarrow> string" where
  "short_mint mint = (if length mint \<le> 8 then mint
     else take 4 mint @ [CHR 0xE2, CHR 0x80, CHR 0xA6] @ drop (length mint - 4) mint)"

definition is_busy :: "position \<Rightarrow> string set \<Rightarrow> bool" where
  "is_busy p busy_mints =
     (let exit_in_flight = po_exit_transaction_signature p \<noteq> None \<and> \<not> po_transaction_exit_verified p
      in \<not> po_transaction_entry_verified p \<or> exit_in_flight \<or> po_mint p \<in> busy_mints)"

section \<open>Adoption\<close>

text \<open>The rows without a key that one signature could claim for a mint, in order of entry.\<close>

definition adoptable :: "position list \<Rightarrow> string \<Rightarrow> string \<Rightarrow> position list" where
  "adoptable existing mint signature = sort_key (\<lambda>p. (po_entry_time p, po_id p))
     (filter (\<lambda>p. po_round_key p = None \<and> po_id p \<noteq> None \<and> po_mint p = mint
        \<and> po_entry_transaction_signature p = Some signature) existing)"

fun acquisition_signatures :: "ledger_event list \<Rightarrow> string list \<Rightarrow> string list" where
  "acquisition_signatures [] signatures = signatures"
| "acquisition_signatures (e # es) signatures = acquisition_signatures es
     (if is_acquisition (le_kind e) \<and> le_signature e \<notin> set signatures then signatures @ [le_signature e] else signatures)"

definition adopt_row :: "ledger_round \<Rightarrow> position list \<Rightarrow> i64 set \<Rightarrow> position option \<times> i64 set" where
  "adopt_row r existing claimed =
     (let signatures = acquisition_signatures (lr_events r)
            (case lr_entry_signature r of Some s \<Rightarrow> [s] | None \<Rightarrow> []);
          candidates = concat (map (adoptable existing (lr_mint r)) signatures)
      in case find (\<lambda>p. the (po_id p) \<notin> claimed) candidates of
           Some p \<Rightarrow> (Some p, insert (the (po_id p)) claimed)
         | None \<Rightarrow> (None, claimed))"

section \<open>Rows the ledger owns\<close>

definition hundred :: f64 where "hundred = Finite 100"

definition build_position :: "(i64 \<Rightarrow> int option) \<Rightarrow> ledger_round \<Rightarrow> round_metadata \<Rightarrow> position option \<Rightarrow> int \<Rightarrow> position" where
  "build_position stamp r meta existing now =
     (let entry_time = unwrap_or (or_else (Option.bind (lr_opened_at r) stamp) (map_option po_entry_time existing)) now;
          exit_time = or_else (Option.bind (lr_closed_at r) stamp)
            (if lr_is_open r then None
             else or_else (Option.bind (last_seen_at r) stamp)
                    (or_else (Option.bind existing po_exit_time) (Some entry_time)));
          realized_pnl = (if lr_basis_complete r \<and> lr_history_complete r then lr_realized_pnl_sol r else None);
          realized_pnl_percent = Option.bind realized_pnl (\<lambda>pnl.
            if f64_less DUST (lr_realized_cost_sol r)
            then Some (f64_mul (f64_div pnl (lr_realized_cost_sol r)) hundred) else None);
          entry_price = unwrap_or (lr_average_entry_price_sol r) (Finite 0)
      in \<lparr>po_id = Option.bind existing po_id, po_mint = lr_mint r,
          po_symbol = unwrap_or (or_else (rm_symbol meta) (map_option po_symbol existing)) (short_mint (lr_mint r)),
          po_name = unwrap_or (or_else (rm_name meta) (map_option po_name existing)) (short_mint (lr_mint r)),
          po_entry_price = entry_price, po_entry_time = entry_time,
          po_exit_price = lr_average_exit_price_sol r, po_exit_time = exit_time, po_position_type = ''buy'',
          po_entry_size_sol = lr_invested_sol r, po_total_size_sol = lr_invested_sol r,
          po_price_highest = unwrap_or (map_option po_price_highest existing) entry_price,
          po_price_lowest = unwrap_or (map_option po_price_lowest existing) entry_price,
          po_entry_transaction_signature = lr_entry_signature r,
          po_exit_transaction_signature = lr_exit_signature r,
          po_token_amount = Some (clamp_raw (lr_total_acquired_raw r)),
          po_effective_entry_price = lr_average_entry_price_sol r,
          po_effective_exit_price = lr_average_exit_price_sol r,
          po_sol_received = (if 0 < lr_exit_count r then Some (lr_realized_proceeds_sol r) else None),
          po_profit_target_min = None, po_profit_target_max = None,
          po_liquidity_tier = Option.bind existing po_liquidity_tier,
          po_transaction_entry_verified = True, po_transaction_exit_verified = (\<not> lr_is_open r),
          po_entry_fee_lamports = None, po_exit_fee_lamports = None,
          po_current_price = Option.bind existing po_current_price,
          po_current_price_updated = Option.bind existing po_current_price_updated,
          po_phantom_remove = False, po_phantom_confirmations = 0, po_phantom_first_seen = None,
          po_synthetic_exit = False,
          po_closed_reason = (if \<not> lr_is_open r then Some ''wallet_history'' else None),
          po_pnl = realized_pnl, po_pnl_percent = realized_pnl_percent,
          po_unrealized_pnl = Option.bind existing po_unrealized_pnl,
          po_unrealized_pnl_percent = Option.bind existing po_unrealized_pnl_percent,
          po_remaining_token_amount = Some (clamp_raw (lr_balance_raw r)),
          po_total_exited_amount = clamp_raw (lr_total_disposed_raw r),
          po_average_exit_price = lr_average_exit_price_sol r,
          po_partial_exit_count = saturating_sub (lr_exit_count r) (if lr_is_open r then 0 else 1),
          po_dca_count = saturating_sub (lr_entry_count r) 1, po_average_entry_price = entry_price,
          po_last_dca_time = Option.bind existing po_last_dca_time,
          po_archived = (case existing of Some p \<Rightarrow> po_archived p | None \<Rightarrow> False),
          po_archived_at = Option.bind existing po_archived_at,
          po_origin = External, po_management = UserOnly, po_round_key = Some (lr_round_key r),
          po_basis_complete = lr_basis_complete r, po_history_complete = lr_history_complete r,
          po_holding_state = (if rm_frozen meta \<and> lr_is_open r then Some HOLDING_STATE_FROZEN else None)\<rparr>)"

definition differs :: "position \<Rightarrow> position \<Rightarrow> bool" where
  "differs existing fresh \<longleftrightarrow>
     po_entry_time existing \<noteq> po_entry_time fresh
     \<or> po_exit_time existing \<noteq> po_exit_time fresh
     \<or> po_transaction_exit_verified existing \<noteq> po_transaction_exit_verified fresh
     \<or> po_remaining_token_amount existing \<noteq> po_remaining_token_amount fresh
     \<or> po_total_exited_amount existing \<noteq> po_total_exited_amount fresh
     \<or> po_token_amount existing \<noteq> po_token_amount fresh
     \<or> po_dca_count existing \<noteq> po_dca_count fresh
     \<or> po_partial_exit_count existing \<noteq> po_partial_exit_count fresh
     \<or> po_basis_complete existing \<noteq> po_basis_complete fresh
     \<or> po_history_complete existing \<noteq> po_history_complete fresh
     \<or> po_holding_state existing \<noteq> po_holding_state fresh
     \<or> po_entry_transaction_signature existing \<noteq> po_entry_transaction_signature fresh
     \<or> po_exit_transaction_signature existing \<noteq> po_exit_transaction_signature fresh
     \<or> po_symbol existing \<noteq> po_symbol fresh
     \<or> po_name existing \<noteq> po_name fresh
     \<or> \<not> same_money (po_total_size_sol existing) (po_total_size_sol fresh)
     \<or> \<not> same_money (po_entry_price existing) (po_entry_price fresh)
     \<or> \<not> same_opt_money (po_exit_price existing) (po_exit_price fresh)
     \<or> \<not> same_opt_money (po_sol_received existing) (po_sol_received fresh)
     \<or> \<not> same_opt_money (po_pnl existing) (po_pnl fresh)"

section \<open>Rows the bot owns\<close>

definition external_sol :: "string set \<Rightarrow> ledger_event list \<Rightarrow> f64" where
  "external_sol booked es = foldl f64_add (Finite 0) (map ql_amount (filter (\<lambda>q. ql_asset q = Sol)
     (List.map_filter le_quote
        (filter (\<lambda>e. (le_kind e = Entry \<or> le_kind e = Add) \<and> le_signature e \<notin> booked) es))))"

definition adopt_external_growth :: "(u8 \<Rightarrow> f64) \<Rightarrow> position \<Rightarrow> position \<Rightarrow> ledger_round \<Rightarrow> trader_legs option \<Rightarrow> position" where
  "adopt_external_growth pow10 p existing r legs =
     (let p = p\<lparr>po_remaining_token_amount := Some (clamp_raw (lr_balance_raw r)),
                po_token_amount := Some (clamp_raw (lr_total_acquired_raw r)),
                po_total_exited_amount := clamp_raw (lr_total_disposed_raw r),
                po_dca_count := saturating_sub (lr_entry_count r) 1\<rparr>
      in if \<not> lr_basis_complete r then p\<lparr>po_basis_complete := False\<rparr>
      else let (booked_signatures, booked_sol) =
                 (case legs of
                    Some l \<Rightarrow> if tl_entry_signatures l \<noteq> {} then (tl_entry_signatures l, tl_booked_invested_sol l)
                      else (set_option (po_entry_transaction_signature existing), po_total_size_sol existing)
                  | None \<Rightarrow> (set_option (po_entry_transaction_signature existing), po_total_size_sol existing));
               p = p\<lparr>po_total_size_sol := f64_add booked_sol (external_sol booked_signatures (lr_events r))\<rparr>;
               acquired = raw_to_whole pow10 (as_i128 (lr_total_acquired_raw r)) (lr_decimals r)
      in if f64_less DUST acquired then p\<lparr>po_average_entry_price := f64_div (po_total_size_sol p) acquired\<rparr> else p)"

definition reconcile_owned_position :: "(i64 \<Rightarrow> int option) \<Rightarrow> (u8 \<Rightarrow> f64) \<Rightarrow> position \<Rightarrow> ledger_round \<Rightarrow> round_metadata \<Rightarrow>
    trader_legs option \<Rightarrow> int \<Rightarrow> position" where
  "reconcile_owned_position stamp pow10 existing r meta legs now =
     (let p = existing\<lparr>po_round_key := Some (lr_round_key r),
            po_holding_state := (if rm_frozen meta \<and> lr_is_open r then Some HOLDING_STATE_FROZEN else None)\<rparr>;
          observed_remaining = clamp_raw (lr_balance_raw r);
          claimed_remaining = unwrap_or (po_remaining_token_amount existing) 0;
          grew = claimed_remaining < observed_remaining;
          p = (if grew \<and> lr_history_complete r then adopt_external_growth pow10 p existing r legs else p)
      in if lr_is_open r then
           if observed_remaining < claimed_remaining
           then p\<lparr>po_remaining_token_amount := Some observed_remaining,
                  po_total_exited_amount := saturating_add (po_total_exited_amount existing) (claimed_remaining - observed_remaining)\<rparr>
           else p
         else if po_exit_time existing \<noteq> None then p
         else let p = p\<lparr>po_remaining_token_amount := Some 0,
                    po_total_exited_amount := saturating_add (po_total_exited_amount existing) claimed_remaining,
                    po_exit_time := Some (unwrap_or (or_else (Option.bind (lr_closed_at r) stamp)
                       (Option.bind (last_seen_at r) stamp)) now)\<rparr>;
                  p = (if po_exit_transaction_signature p = None
                       then p\<lparr>po_exit_transaction_signature := lr_exit_signature r\<rparr> else p);
                  p = p\<lparr>po_transaction_exit_verified := True\<rparr>;
                  p = (if po_closed_reason p = None then p\<lparr>po_closed_reason := Some CLOSED_EXTERNALLY\<rparr> else p);
                  p = p\<lparr>po_unrealized_pnl := None, po_unrealized_pnl_percent := None\<rparr>
         in if \<not> lr_history_complete r then p\<lparr>po_history_complete := False\<rparr>
         else case lr_average_exit_price_sol r of
             None \<Rightarrow> p
           | Some exit_price \<Rightarrow>
               let p = p\<lparr>po_exit_price := Some exit_price, po_effective_exit_price := Some exit_price,
                         po_average_exit_price := Some exit_price, po_sol_received := Some (lr_realized_proceeds_sol r)\<rparr>
               in if f64_less DUST (po_total_size_sol p)
                  then let pnl = f64_sub (lr_realized_proceeds_sol r) (po_total_size_sol p)
                    in p\<lparr>po_pnl := Some pnl,
                         po_pnl_percent := Some (f64_mul (f64_div pnl (po_total_size_sol p)) hundred)\<rparr>
                  else p)"

definition differs_owned :: "position \<Rightarrow> position \<Rightarrow> bool" where
  "differs_owned existing fresh \<longleftrightarrow>
     po_round_key existing \<noteq> po_round_key fresh
     \<or> po_holding_state existing \<noteq> po_holding_state fresh
     \<or> po_remaining_token_amount existing \<noteq> po_remaining_token_amount fresh
     \<or> po_token_amount existing \<noteq> po_token_amount fresh
     \<or> po_total_exited_amount existing \<noteq> po_total_exited_amount fresh
     \<or> po_dca_count existing \<noteq> po_dca_count fresh
     \<or> po_basis_complete existing \<noteq> po_basis_complete fresh
     \<or> \<not> same_money (po_total_size_sol existing) (po_total_size_sol fresh)
     \<or> \<not> same_money (po_average_entry_price existing) (po_average_entry_price fresh)
     \<or> po_exit_time existing \<noteq> po_exit_time fresh
     \<or> po_exit_transaction_signature existing \<noteq> po_exit_transaction_signature fresh
     \<or> po_transaction_exit_verified existing \<noteq> po_transaction_exit_verified fresh
     \<or> po_closed_reason existing \<noteq> po_closed_reason fresh
     \<or> \<not> same_opt_f64 (po_unrealized_pnl existing) (po_unrealized_pnl fresh)
     \<or> \<not> same_opt_money (po_exit_price existing) (po_exit_price fresh)
     \<or> \<not> same_opt_money (po_sol_received existing) (po_sol_received fresh)
     \<or> \<not> same_opt_money (po_pnl existing) (po_pnl fresh)"

section \<open>The plan\<close>

definition by_round_key :: "position list \<Rightarrow> string \<Rightarrow> position option" where
  "by_round_key existing = map_of (rev (List.map_filter (\<lambda>p. map_option (\<lambda>key. (key, p)) (po_round_key p)) existing))"

record sync_inputs =
  si_existing :: "position list"
  si_metadata :: "string \<Rightarrow> round_metadata option"
  si_trader_legs :: "i64 \<Rightarrow> trader_legs option"
  si_busy_mints :: "string set"
  si_now :: int

definition current_row :: "position list \<Rightarrow> ledger_round \<Rightarrow> i64 set \<Rightarrow> position option \<times> i64 set" where
  "current_row existing r claimed = (case by_round_key existing (lr_round_key r) of
       Some p \<Rightarrow> (Some p, claimed)
     | None \<Rightarrow> adopt_row r existing claimed)"

definition fresh_row :: "(i64 \<Rightarrow> int option) \<Rightarrow> (u8 \<Rightarrow> f64) \<Rightarrow> sync_inputs \<Rightarrow> ledger_round \<Rightarrow> position \<Rightarrow> position" where
  "fresh_row stamp pow10 inp r p =
     (let meta = unwrap_or (si_metadata inp (lr_mint r)) no_metadata
      in if \<not> is_wallet_derived p
         then reconcile_owned_position stamp pow10 p r meta (Option.bind (po_id p) (si_trader_legs inp)) (si_now inp)
         else build_position stamp r meta (Some p) (si_now inp))"

definition row_differs :: "position \<Rightarrow> position \<Rightarrow> bool" where
  "row_differs p fresh = (if \<not> is_wallet_derived p then differs_owned p fresh else differs p fresh)"

definition plan_round :: "(i64 \<Rightarrow> int option) \<Rightarrow> (u8 \<Rightarrow> f64) \<Rightarrow> sync_inputs \<Rightarrow> ledger_round \<Rightarrow> i64 set \<times> sync_plan \<Rightarrow> i64 set \<times> sync_plan" where
  "plan_round stamp pow10 inp r = (\<lambda>(claimed, plan).
     let (current, claimed) = current_row (si_existing inp) r claimed
     in case current of
          Some p \<Rightarrow>
            (if \<not> is_wallet_derived p \<and> is_busy p (si_busy_mints inp) then (claimed, plan)
             else let fresh = fresh_row stamp pow10 inp r p
             in (claimed, if row_differs p fresh then plan\<lparr>sp_updates := sp_updates plan @ [fresh]\<rparr> else plan))
        | None \<Rightarrow> (claimed, plan\<lparr>sp_inserts := sp_inserts plan @
            [build_position stamp r (unwrap_or (si_metadata inp (lr_mint r)) no_metadata) None (si_now inp)]\<rparr>))"

definition plan_position_writes :: "(i64 \<Rightarrow> int option) \<Rightarrow> (u8 \<Rightarrow> f64) \<Rightarrow> sync_inputs \<Rightarrow> ledger_round list \<Rightarrow> sync_plan" where
  "plan_position_writes stamp pow10 inp rounds =
     snd (fold (plan_round stamp pow10 inp) rounds ({}, \<lparr>sp_inserts = [], sp_updates = []\<rparr>))"

section \<open>A whole sync\<close>

record token_account =
  ta_mint :: string
  ta_balance :: u64
  ta_decimals :: u8
  ta_is_nft :: bool
  ta_is_frozen :: bool

definition wallet_holdings :: "token_account list \<Rightarrow> wallet_holding list" where
  "wallet_holdings accounts =
     map (\<lambda>a. \<lparr>wh_mint = ta_mint a, wh_amount_raw = ucast (ta_balance a), wh_decimals = ta_decimals a\<rparr>)
       (filter (\<lambda>a. \<not> ta_is_nft a \<and> 0 < ta_balance a) accounts)"

text \<open>A wallet that could not be read counts as one without accounts.\<close>

definition sync_rounds :: "((string \<times> wallet_round) list \<Rightarrow> (string \<times> wallet_round) list) \<Rightarrow> (u8 \<Rightarrow> f64) \<Rightarrow>
    subject_delta list \<Rightarrow> token_account list \<Rightarrow> ledger_round list" where
  "sync_rounds hash_order pow10 deltas accounts =
     (if deltas = [] then []
      else let rounds = reduce_rounds hash_order pow10 deltas
      in if accounts \<noteq> [] then reconcile_with_wallet rounds (wallet_holdings accounts) else rounds)"

definition resolve_metadata :: "(string \<Rightarrow> (string option \<times> string option) option) \<Rightarrow> token_account list \<Rightarrow> string \<Rightarrow> round_metadata option" where
  "resolve_metadata info accounts mint =
     (let (symbol, name) = unwrap_or (info mint) (None, None)
      in Some \<lparr>rm_symbol = symbol, rm_name = name,
               rm_frozen = (mint \<in> ta_mint ` set (filter ta_is_frozen accounts))\<rparr>)"

text \<open>The writes of a plan that all succeed: an insert gets the identity the database assigns.\<close>

definition apply_plan :: "i64 list \<Rightarrow> sync_plan \<Rightarrow> position list \<Rightarrow> position list" where
  "apply_plan new_ids plan rows =
     fold (\<lambda>p rows. case po_id p of None \<Rightarrow> rows | Some i \<Rightarrow> map (\<lambda>q. if po_id q = Some i then p else q) rows)
       (sp_updates plan)
       (rows @ map (\<lambda>(p, i). p\<lparr>po_id := Some i\<rparr>) (zip (sp_inserts plan) new_ids))"

section \<open>Money that compares equal to itself\<close>

lemma round_even_nonneg: "0 \<le> y \<Longrightarrow> 0 \<le> round_even y"
proof -
  assume "0 \<le> y"
  then have "0 \<le> \<lfloor>y\<rfloor>" by simp
  then show ?thesis by (simp add: round_even_def Let_def del: zero_le_floor)
qed

lemma DUST_value: "\<exists>r \<ge> 0. DUST = Finite r"
proof -
  define x :: rat where "x = 1 / 10 ^ 12"
  have "0 \<le> x / ulp x" using less_imp_le [OF ulp_pos, of x] by (simp add: x_def)
  then have pos: "0 \<le> round64 x"
    using round_even_nonneg [of "x / ulp x"] less_imp_le [OF ulp_pos, of x] by (simp add: round64_def)
  have "\<bar>round64 x\<bar> \<le> 2 * \<bar>x\<bar> + 1" by (rule round64_bound)
  moreover have "\<bar>x\<bar> < 1 / 2" by (simp add: x_def)
  ultimately have "round64 x < 2" by linarith
  then have "\<not> 2 ^ 1024 \<le> round64 x" "\<not> round64 x \<le> - (2 ^ 1024)" using pos by (simp_all add: not_le)
  then have "DUST = Finite (round64 x)" by (simp only: DUST_def f64_of_rat_def Let_def x_def if_False)
  with pos show ?thesis by blast
qed

definition finite_f64 :: "f64 \<Rightarrow> bool" where
  "finite_f64 a \<longleftrightarrow> (\<exists>x. a = Finite x)"

lemma same_money_refl [simp]: "finite_f64 a \<Longrightarrow> same_money a a"
proof -
  assume "finite_f64 a"
  then obtain x where a: "a = Finite x" by (auto simp: finite_f64_def)
  obtain r where "0 \<le> r" "DUST = Finite r" using DUST_value by blast
  moreover have "f64_of_rat 0 = Finite 0" by (simp add: f64_of_rat_def round64_def Let_def)
  ultimately show ?thesis unfolding same_money_def f64_sub_def a \<open>DUST = Finite r\<close> by simp
qed

definition finite_opt :: "f64 option \<Rightarrow> bool" where
  "finite_opt a \<longleftrightarrow> (\<forall>x. a = Some x \<longrightarrow> finite_f64 x)"

lemma same_opt_refl [simp]: "finite_opt a \<Longrightarrow> same_opt_money a a" "finite_opt a \<Longrightarrow> same_opt_f64 a a"
  by (cases a; auto simp: finite_opt_def finite_f64_def)+

definition finite_money :: "position \<Rightarrow> bool" where
  "finite_money p \<longleftrightarrow> finite_f64 (po_total_size_sol p) \<and> finite_f64 (po_entry_price p) \<and> finite_f64 (po_average_entry_price p)
     \<and> finite_opt (po_unrealized_pnl p) \<and> finite_opt (po_exit_price p) \<and> finite_opt (po_sol_received p) \<and> finite_opt (po_pnl p)"

lemma row_differs_refl: "finite_money p \<Longrightarrow> \<not> row_differs p p"
  by (simp add: row_differs_def differs_def differs_owned_def finite_money_def)

section \<open>A settled row stays as it is\<close>

lemma unwrap_again: "unwrap_or (or_else a (Some (unwrap_or (or_else a b) c))) d = unwrap_or (or_else a b) c"
  by (cases a; cases b) (simp_all add: unwrap_or_def)

lemma build_again:
  "build_position stamp r meta (Some (build_position stamp r meta existing now)) now' = build_position stamp r meta existing now"
proof -
  have exit: "or_else a (or_else l (or_else (or_else a (or_else l (or_else e (Some t)))) (Some t)))
     = or_else a (or_else l (or_else e (Some t)))" for a l e :: "int option" and t
    by (cases a; cases l; cases e) auto
  have none: "or_else a (if b then None else x) = (if b then a else or_else a x)" for a x :: "int option" and b
    by (cases a) auto
  show ?thesis
    by (simp add: build_position_def Let_def unwrap_again none) (simp add: exit unwrap_or_def)
qed

text \<open>A closed round with complete history has nothing left (\<open>complete_history_adds_up\<close> of the reduction).\<close>

definition closed_is_empty :: "ledger_round \<Rightarrow> bool" where
  "closed_is_empty r \<longleftrightarrow> lr_is_open r \<or> \<not> lr_history_complete r \<or> lr_balance_raw r = 0"

lemma adopt_growth_fields [simp]:
  "po_remaining_token_amount (adopt_external_growth pow10 p existing r legs) = Some (clamp_raw (lr_balance_raw r))"
  "po_exit_time (adopt_external_growth pow10 p existing r legs) = po_exit_time p"
  "po_round_key (adopt_external_growth pow10 p existing r legs) = po_round_key p"
  "po_holding_state (adopt_external_growth pow10 p existing r legs) = po_holding_state p"
  "po_origin (adopt_external_growth pow10 p existing r legs) = po_origin p"
  "po_id (adopt_external_growth pow10 p existing r legs) = po_id p"
  by (simp_all add: adopt_external_growth_def Let_def case_prod_beta split: option.split)

lemma clamp_zero [simp]: "clamp_raw 0 = 0"
  by (simp add: clamp_raw_def)

lemma reconcile_settled:
  assumes "po_round_key p = Some (lr_round_key r)"
    and "po_holding_state p = (if rm_frozen meta \<and> lr_is_open r then Some HOLDING_STATE_FROZEN else None)"
    and "\<not> (unwrap_or (po_remaining_token_amount p) 0 < clamp_raw (lr_balance_raw r) \<and> lr_history_complete r)"
    and "if lr_is_open r then unwrap_or (po_remaining_token_amount p) 0 \<le> clamp_raw (lr_balance_raw r) else po_exit_time p \<noteq> None"
  shows "reconcile_owned_position stamp pow10 p r meta legs now = p"
proof -
  have same: "p\<lparr>po_round_key := Some (lr_round_key r),
       po_holding_state := if rm_frozen meta \<and> lr_is_open r then Some HOLDING_STATE_FROZEN else None\<rparr> = p"
    unfolding assms(1,2) [symmetric] by simp
  show ?thesis
  proof (cases "lr_is_open r")
    case True
    with assms(4) have "\<not> clamp_raw (lr_balance_raw r) < unwrap_or (po_remaining_token_amount p) 0" by (simp add: not_less)
    then show ?thesis
      unfolding reconcile_owned_position_def Let_def same if_not_P [OF assms(3)] if_P [OF True] by (simp only: if_False)
  next
    case False
    with assms(4) have "po_exit_time p \<noteq> None" by simp
    from if_P [OF this] show ?thesis
      unfolding reconcile_owned_position_def Let_def same if_not_P [OF assms(3)] if_not_P [OF False] .
  qed
qed

lemma reconcile_fields:
  shows "po_round_key (reconcile_owned_position stamp pow10 p r meta legs now) = Some (lr_round_key r)"
    and "po_holding_state (reconcile_owned_position stamp pow10 p r meta legs now)
      = (if rm_frozen meta \<and> lr_is_open r then Some HOLDING_STATE_FROZEN else None)"
    and "\<not> lr_is_open r \<Longrightarrow> po_exit_time (reconcile_owned_position stamp pow10 p r meta legs now) \<noteq> None"
    and "lr_is_open r \<Longrightarrow> po_remaining_token_amount (reconcile_owned_position stamp pow10 p r meta legs now) =
      (if unwrap_or (po_remaining_token_amount p) 0 < clamp_raw (lr_balance_raw r) \<and> lr_history_complete r
         \<or> clamp_raw (lr_balance_raw r) < unwrap_or (po_remaining_token_amount p) 0
       then Some (clamp_raw (lr_balance_raw r)) else po_remaining_token_amount p)"
  by (auto simp: reconcile_owned_position_def Let_def split: option.split)

lemma reconcile_again:
  assumes "closed_is_empty r"
  shows "reconcile_owned_position stamp pow10 (reconcile_owned_position stamp pow10 p r meta legs now) r meta legs' now'
     = reconcile_owned_position stamp pow10 p r meta legs now"
proof (rule reconcile_settled [OF reconcile_fields(1,2)])
  let ?p = "reconcile_owned_position stamp pow10 p r meta legs now"
  show "\<not> (unwrap_or (po_remaining_token_amount ?p) 0 < clamp_raw (lr_balance_raw r) \<and> lr_history_complete r)"
  proof (cases "lr_is_open r")
    case True
    then show ?thesis by (auto simp: reconcile_fields(4) unwrap_or_def)
  next
    case False
    with assms show ?thesis by (auto simp: closed_is_empty_def)
  qed
  show "if lr_is_open r then unwrap_or (po_remaining_token_amount ?p) 0 \<le> clamp_raw (lr_balance_raw r) else po_exit_time ?p \<noteq> None"
    using reconcile_fields(3) by (auto simp: reconcile_fields(4) unwrap_or_def)
qed

end
