(* ===== verification/Ledger_Rounds.thy ===== *)
theory Ledger_Rounds
  imports Wallet_Reconcile
begin

text \<open>
  The properties of \<^verbatim>\<open>positions/ledger/reducer.rs\<close>: the result is the same whatever the order of the rows,
  every round has its own key, the open rounds are what the wallet holds, complete histories add up, and a
  profit is only ever computed from prices that were seen. They are evaluated on a small history.
\<close>

section \<open>A sample history\<close>

definition decimals10 :: "u8 \<Rightarrow> f64" where
  "decimals10 d = Finite (10 ^ unat d)"

definition movement :: "string \<Rightarrow> u64 \<Rightarrow> string \<Rightarrow> i128 \<Rightarrow> u128 \<Rightarrow> u128 \<Rightarrow> subject_delta" where
  "movement signature slot mint amount before after = \<lparr>sd_signature = signature, sd_mint = mint, sd_slot = Some slot,
     sd_block_time = Some 0, sd_tx_index = 0, sd_delta_raw = amount, sd_before_raw = Some before,
     sd_after_raw = Some after, sd_decimals = 0, sd_kind = Trade, sd_venue = None, sd_success = True\<rparr>"

text \<open>A purchase, a sale of half of it, and a purchase after the rest left unseen.\<close>

definition buy :: "subject_delta list" where
  "buy = [movement ''a'' 1 ''M'' 100 0 100, movement ''a'' 1 ''native'' (- 10) 20 10]"

definition sell :: "subject_delta list" where
  "sell = [movement ''b'' 2 ''M'' (- 50) 100 50, movement ''b'' 2 ''native'' 6 10 16]"

definition buy_again :: "subject_delta list" where
  "buy_again = [movement ''d'' 4 ''M'' 70 0 70, movement ''d'' 4 ''native'' (- 8) 20 12]"

definition sample_history :: "subject_delta list" where
  "sample_history = rev (buy @ sell @ buy_again)"

lemma movement_fields [simp]:
  "sd_signature (movement a s m x y z) = a" "sd_mint (movement a s m x y z) = m" "sd_slot (movement a s m x y z) = Some s"
  "sd_tx_index (movement a s m x y z) = 0" "sd_delta_raw (movement a s m x y z) = x"
  "sd_before_raw (movement a s m x y z) = Some y" "sd_after_raw (movement a s m x y z) = Some z"
  "sd_kind (movement a s m x y z) = Trade" "sd_success (movement a s m x y z)" "sd_decimals (movement a s m x y z) = 0"
  "sd_block_time (movement a s m x y z) = Some 0" "sd_venue (movement a s m x y z) = None"
  by (simp_all add: movement_def)

lemma sample_groups: "signature_groups (ordered_deltas sample_history) = [buy, sell, buy_again]"
proof -
  have "ordered_deltas sample_history = buy @ sell @ buy_again"
    by (simp add: sample_history_def buy_def sell_def buy_again_def ordered_deltas_def delta_key_def)
  then show ?thesis by (simp add: buy_def sell_def buy_again_def)
qed

text \<open>Integers below \<open>2 ^ 53\<close> are represented exactly.\<close>

lemma round_even_int: "round_even (of_int z) = z"
  by (simp add: round_even_def Let_def)

lemma f64_exact:
  assumes "0 < n" and "n < 2 ^ 53"
  shows "f64_of_rat (of_int n) = Finite (of_int n)"
proof -
  let ?x = "of_int n :: rat"
  define k where "k = 52 - max (exponent2 \<bar>?x\<bar>) (- 1022)"
  have "\<not> 53 \<le> exponent2 ?x"
  proof
    assume "53 \<le> exponent2 ?x"
    from pow2_mono [OF this] pow2_exponent2_le [of ?x] assms(1) have "pow2 53 \<le> ?x" by simp
    moreover have "pow2 53 = of_int (2 ^ 53)" by (simp add: pow2_def)
    ultimately show False using assms(2) by (simp only: of_int_le_iff)
  qed
  then have k: "0 \<le> k" using assms(1) by (simp add: k_def)
  have ulp: "ulp ?x = 1 / 2 ^ nat k"
    using k by (cases "k = 0") (simp_all add: ulp_def pow2_def k_def algebra_simps)
  have "?x / ulp ?x = of_int (n * 2 ^ nat k)" by (simp add: ulp)
  then have "round_even (?x / ulp ?x) = n * 2 ^ nat k" by (simp only: round_even_int)
  then have "round64 ?x = ?x" using assms(1) by (simp add: round64_def ulp)
  moreover have "\<not> 2 ^ 1024 \<le> ?x" "\<not> ?x \<le> - (2 ^ 1024)"
  proof -
    have "?x < of_int (2 ^ 53)" using assms(2) by (simp only: of_int_less_iff)
    moreover have "(of_int (2 ^ 53) :: rat) \<le> 2 ^ 1024" by simp
    ultimately show "\<not> 2 ^ 1024 \<le> ?x" by linarith
    have "0 < ?x" using assms(1) by simp
    moreover have "(0 :: rat) < 2 ^ 1024" by simp
    ultimately show "\<not> ?x \<le> - (2 ^ 1024)" by linarith
  qed
  ultimately show ?thesis by (simp only: f64_of_rat_def Let_def if_False)
qed

lemma sample_floats: "f64_of_rat 100 = Finite 100" "f64_of_rat 50 = Finite 50" "f64_of_rat 70 = Finite 70"
  "f64_of_rat 10 = Finite 10" "f64_of_rat 6 = Finite 6" "f64_of_rat 8 = Finite 8"
  using f64_exact [of 100] f64_exact [of 50] f64_exact [of 70] f64_exact [of 10] f64_exact [of 6] f64_exact [of 8]
  by simp_all

lemma DUST_small:
  assumes "2 \<le> x"
  shows "f64_less DUST (Finite x)"
proof -
  define r where "r = round64 (1 / 10 ^ 12)"
  have "\<bar>r\<bar> \<le> 2 * \<bar>1 / 10 ^ 12\<bar> + 1" unfolding r_def by (rule round64_bound)
  then have r: "r < 2" "- 2 < r" by (simp_all add: abs_le_iff)
  then have "\<not> 2 ^ 1024 \<le> r" "\<not> r \<le> - (2 ^ 1024)" by (simp_all add: not_le)
  then have "DUST = Finite r" by (simp only: DUST_def f64_of_rat_def Let_def r_def if_False)
  moreover have "f64_less (Finite r) (Finite x)" using r(1) assms by simp
  ultimately show ?thesis by (rule ssubst)
qed

lemma sample_mint_kinds: "is_reference_asset ''native''" "\<not> is_reference_asset ''M''"
  by (simp_all add: is_reference_asset_def NATIVE_SOL_SENTINEL_def is_native_asset_def is_stable_asset_def
      stable_assets_def SOL_MINT_def SYSTEM_PROGRAM_ID_def USDC_MINT_def USDT_MINT_def)

lemma sample_quotes:
  "quote_for decimals10 buy ''M'' True = Some \<lparr>ql_asset = Sol, ql_amount = Finite 10\<rparr>"
  "quote_for decimals10 sell ''M'' False = Some \<lparr>ql_asset = Sol, ql_amount = Finite 6\<rparr>"
  "quote_for decimals10 buy_again ''M'' True = Some \<lparr>ql_asset = Sol, ql_amount = Finite 8\<rparr>"
  by (simp_all add: buy_def sell_def buy_again_def quote_for_def sample_mint_kinds Let_def NATIVE_SOL_SENTINEL_def
      raw_to_whole_def decimals10_def in_i128_def f64_of_i128_def sample_floats)

definition bought :: wallet_round where
  "bought = apply_movement decimals10 buy (hd buy) (grounded_round (hd buy) ''a:M'')"

definition half_sold :: wallet_round where
  "half_sold = apply_movement decimals10 sell (hd sell) bought"

definition bought_again :: wallet_round where
  "bought_again = apply_movement decimals10 buy_again (hd buy_again) (grounded_round (hd buy_again) ''d:M'')"

lemma first_rows [simp]: "hd buy = movement ''a'' 1 ''M'' 100 0 100" "hd sell = movement ''b'' 2 ''M'' (- 50) 100 50"
  "hd buy_again = movement ''d'' 4 ''M'' 70 0 70"
  by (simp_all add: buy_def sell_def buy_again_def)

lemma sample_counts: "saturating_add 0 1 = (1 :: u32)"
  by (simp add: saturating_add_def)

lemma bought_eq: "bought = apply_acquisition decimals10 buy (hd buy) 0 100 (grounded_round (hd buy) ''a:M'')\<lparr>wr_balance := 100\<rparr>"
  unfolding bought_def
  by (simp add: apply_movement_def reconcile_before_def grounded_round_def i128_of_u128_def Let_def in_i128_def)

lemma bought_again_eq:
  "bought_again = apply_acquisition decimals10 buy_again (hd buy_again) 0 70 (grounded_round (hd buy_again) ''d:M'')\<lparr>wr_balance := 70\<rparr>"
  unfolding bought_again_def
  by (simp add: apply_movement_def reconcile_before_def grounded_round_def i128_of_u128_def Let_def in_i128_def)

lemma sample_balances: "wr_balance bought = 100" "wr_balance half_sold = 50" "wr_balance bought_again = 70"
  "wr_mint bought = ''M''" "wr_mint half_sold = ''M''" "wr_mint bought_again = ''M''"
  by (simp_all add: bought_def half_sold_def bought_again_def balance_after_def i128_of_u128_def)

lemma half_sold_eq: "half_sold = apply_disposal decimals10 sell (hd sell) 100 50 bought\<lparr>wr_balance := 50\<rparr>"
proof -
  have "wr_decimals bought = 0"
    unfolding bought_eq by (simp add: apply_acquisition_def count_acquisition_def grounded_round_def accept_quote_def
        push_event_def Let_def sample_quotes)
  then show ?thesis unfolding half_sold_def
    by (simp add: apply_movement_def reconcile_before_def i128_of_u128_def sample_balances Let_def in_i128_def)
qed

lemmas acquisition_simps = apply_acquisition_def count_acquisition_def accept_quote_def grounded_round_def
  raw_to_whole_def decimals10_def f64_of_i128_def DUST_small push_event_def sample_floats sample_quotes sample_counts in_i128_def Let_def

lemma bought_facts: "wr_basis_complete bought \<and> wr_history_complete bought \<and> wr_proceeds_complete bought
   \<and> wr_quote_asset bought = Some Sol \<and> wr_entry_count bought = 1 \<and> wr_exit_count bought = 0 \<and> wr_decimals bought = 0"
  unfolding bought_eq by (simp add: acquisition_simps)

lemma bought_again_facts: "wr_basis_complete bought_again \<and> wr_history_complete bought_again
   \<and> wr_proceeds_complete bought_again \<and> wr_quote_asset bought_again = Some Sol \<and> wr_entry_count bought_again = 1"
  unfolding bought_again_eq by (simp add: acquisition_simps)

lemma half_sold_facts: "wr_basis_complete half_sold \<and> wr_history_complete half_sold \<and> wr_proceeds_complete half_sold
   \<and> wr_quote_asset half_sold = Some Sol \<and> wr_entry_count half_sold = 1 \<and> wr_exit_count half_sold = 1"
  unfolding half_sold_eq
  by (simp add: apply_disposal_def Let_def sample_quotes bought_facts sample_counts push_event_def)

lemma sample_reduced:
  "reduced decimals10 sample_history =
     \<lparr>re_open = [(''M'', bought_again)], re_finished = [stale_report half_sold], re_genesis_used = {}\<rparr>"
proof -
  have "reduce_group decimals10 buy empty_reduction = \<lparr>re_open = [(''M'', bought)], re_finished = [], re_genesis_used = {}\<rparr>"
    using sample_balances(1)
    by (simp add: reduce_group_def buy_def [THEN arg_cong [of _ _ "\<lambda>ds. fold f ds s" for f s]] sample_mint_kinds
        apply_delta_def open_round_def close_stale_def empty_reduction_def Let_def bought_def)
  moreover have "reduce_group decimals10 sell \<lparr>re_open = [(''M'', bought)], re_finished = [], re_genesis_used = {}\<rparr>
     = \<lparr>re_open = [(''M'', half_sold)], re_finished = [], re_genesis_used = {}\<rparr>"
    using sample_balances(2)
    by (simp add: reduce_group_def sell_def [THEN arg_cong [of _ _ "\<lambda>ds. fold f ds s" for f s]] sample_mint_kinds
        apply_delta_def open_round_def Let_def half_sold_def)
  moreover have "reduce_group decimals10 buy_again \<lparr>re_open = [(''M'', half_sold)], re_finished = [], re_genesis_used = {}\<rparr>
     = \<lparr>re_open = [(''M'', bought_again)], re_finished = [stale_report half_sold], re_genesis_used = {}\<rparr>"
    using sample_balances(2,3)
    by (simp add: reduce_group_def buy_again_def [THEN arg_cong [of _ _ "\<lambda>ds. fold f ds s" for f s]] sample_mint_kinds
        apply_delta_def open_round_def close_stale_def stale_report_def Let_def bought_again_def)
  ultimately show ?thesis by (simp add: reduced_def sample_groups)
qed

lemma sample_orders: "visits_each_once (\<lambda>es. es)" "visits_each_once rev"
  by (simp_all add: visits_each_once_def)

lemma sample_rounds:
  "set (reduce_rounds (\<lambda>es. es) decimals10 sample_history) = {stale_report half_sold, finish True bought_again}"
  by (auto simp: reduce_rounds_reports reports_def sample_reduced)

lemma sample_clean: "clean_history sample_history"
  by (simp add: clean_history_def sample_history_def buy_def sell_def buy_again_def plain_names_def row_def)

lemma sample_reports:
  "lr_history_complete (finish True bought_again)" "lr_realized_pnl_sol (stale_report half_sold) \<noteq> None"
  "\<not> lr_basis_complete (stale_report half_sold)" "lr_realized_pnl_sol (finish True bought_again) = None"
  using bought_again_facts half_sold_facts
  by (simp_all add: finish_def stale_report_def Let_def bought_again_eq acquisition_simps)

section \<open>Properties\<close>

text \<open>C23: the reduction is a function of what was observed. Rows in any order, on a hash map that visits its
  entries in any order, reduce to the same rounds in the same order, as long as no transaction has two rows
  for one mint and no name contains the separator of a round key.\<close>

theorem reduction_is_deterministic:
  assumes "mset deltas = mset deltas'" and "clean_history deltas"
    and "visits_each_once hash_order" and "visits_each_once hash_order'"
  shows "reduce_rounds hash_order pow10 deltas = reduce_rounds hash_order' pow10 deltas'"
proof -
  have same: "reduced pow10 deltas' = reduced pow10 deltas"
    using ordered_deltas_unique [OF assms(1,2)] by (simp add: reduced_def)
  have "mset (reports hash_order (reduced pow10 deltas)) = mset (reports hash_order' (reduced pow10 deltas))"
    using mset_reports [OF assms(3), of id] mset_reports [OF assms(4), of id] by simp
  moreover have "distinct (map lr_round_key (reports hash_order (reduced pow10 deltas)))"
    using mset_eq_imp_distinct_iff [OF reports_keys [OF assms(3)]] reduced_keys [OF assms(2)] by blast
  ultimately show ?thesis unfolding reduce_rounds_reports same
    by (intro sort_key_unique round_order_inj)
qed

theorem reduction_is_deterministic_witness:
  "reduce_rounds (\<lambda>es. es) decimals10 sample_history = reduce_rounds rev decimals10 (rev sample_history)
   \<and> finish True bought_again \<in> set (reduce_rounds rev decimals10 (rev sample_history))"
proof -
  have "mset sample_history = mset (rev sample_history)" by simp
  from reduction_is_deterministic [OF this sample_clean sample_orders, of decimals10] sample_rounds show ?thesis
    by (metis insertCI)
qed

text \<open>C24: for a wallet with one account per token, the open rounds are after the reconciliation exactly what the
  wallet holds: one open round for each mint that is held, with the amount held, and no other, whatever the
  history said. The holdings are one per token account, and two accounts of a mint break it.\<close>

theorem reconciled_rounds_mirror_wallet:
  assumes "visits_each_once hash_order" and "distinct (map wh_mint holdings)"
  shows "mset (map held (filter lr_is_open (reconcile_with_wallet (reduce_rounds hash_order pow10 deltas) holdings)))
     = mset (map holds (filter (\<lambda>h. 0 < wh_amount_raw h) holdings))"
  by (rule reconcile_mirrors [OF assms(2) reduced_open_mints [OF assms(1)]])
    (use reduced_round_open(1) [OF assms(1)] in blast)

definition sample_holdings :: "wallet_holding list" where
  "sample_holdings = [\<lparr>wh_mint = ''M'', wh_amount_raw = 65, wh_decimals = 0\<rparr>,
     \<lparr>wh_mint = ''N'', wh_amount_raw = 5, wh_decimals = 0\<rparr>, \<lparr>wh_mint = ''O'', wh_amount_raw = 0, wh_decimals = 0\<rparr>]"

lemma sample_holdings_mints: "distinct (map wh_mint sample_holdings)"
  by (simp add: sample_holdings_def)

theorem reconciled_rounds_mirror_wallet_witness:
  "mset (map held (filter lr_is_open
     (reconcile_with_wallet (reduce_rounds (\<lambda>es. es) decimals10 sample_history) sample_holdings)))
   = {#(''M'', 65), (''N'', 5)#}"
  unfolding reconciled_rounds_mirror_wallet [OF sample_orders(1) sample_holdings_mints]
  by (simp add: sample_holdings_def holds_def)

text \<open>C30: for a wallet with one account per token, no two rounds share an identity. The keys of the reduced rounds
  and of the rounds made for unknown holdings are then all different, which is what the unique index over the
  stored positions needs, as long as no transaction has two rows for one mint, no signature is the word
  \<^verbatim>\<open>holding\<close> that keys the rounds made for holdings, and neither mints nor signatures
  contain the colon that separates the parts of a key. Two accounts of one mint break it.\<close>

theorem reconciled_keys_are_unique:
  assumes "visits_each_once hash_order" and "clean_history deltas" and "signatures_plain deltas"
    and "distinct (map wh_mint holdings)" and "\<forall>h \<in> set holdings. CHR '':'' \<notin> set (wh_mint h)"
  shows "distinct (map lr_round_key (reconcile_with_wallet (reduce_rounds hash_order pow10 deltas) holdings))"
  by (rule reconcile_keys [OF assms(4,5) reduced_round_keys [OF assms(1,2)]])
    (use reduced_key_forms [OF assms(1-3)] in blast)

theorem reconciled_keys_are_unique_witness:
  "distinct (map lr_round_key
     (reconcile_with_wallet (reduce_rounds (\<lambda>es. es) decimals10 sample_history) sample_holdings))"
  by (rule reconciled_keys_are_unique [OF sample_orders(1) sample_clean _ sample_holdings_mints])
    (simp_all add: signatures_plain_def sample_history_def buy_def sell_def buy_again_def sample_holdings_def)

text \<open>C25: a round whose history is complete adds up. What was acquired is what was disposed of and what is
  left, to the last base unit; a closed round then has nothing left.\<close>

theorem complete_history_adds_up:
  assumes "visits_each_once hash_order" and "\<forall>d \<in> set deltas. spl_amount d" and "length deltas \<le> 2 ^ 62"
    and "r \<in> set (reduce_rounds hash_order pow10 deltas)" and "lr_history_complete r"
  shows "unat (lr_total_acquired_raw r) = unat (lr_total_disposed_raw r) + unat (lr_balance_raw r)
     \<and> (lr_is_open r \<longleftrightarrow> lr_balance_raw r \<noteq> 0)"
proof -
  let ?n = "length (filter sd_success deltas)"
  have n: "?n \<le> 2 ^ 62" using assms(3) length_filter_le [of sd_success deltas] by linarith
  from balance.reported [OF _ assms(1,4)] assms(2) obtain a where
    a: "balances ?n a" and r: "\<exists>b. r = finish b a \<or> r = stale_report a"
    by (auto simp: closed_as_def open_as_def split: if_splits)
  from r assms(5) obtain b where b: "r = finish b a" "wr_history_complete a" by (auto simp: stale_report_def)
  with a n have totals: "0 \<le> wr_balance a" "0 \<le> wr_total_disposed a"
    "wr_total_acquired a = wr_total_disposed a + wr_balance a" "wr_total_acquired a \<le> int ?n * 2 ^ 64"
    by (simp_all add: balances_def)
  moreover have "int ?n * 2 ^ 64 \<le> 2 ^ 62 * 2 ^ 64" using n by (simp add: nat_le_iff)
  ultimately have "in_i128 (wr_balance a)" "in_i128 (wr_total_disposed a)" "in_i128 (wr_total_acquired a)"
    by (simp_all add: in_i128_def)
  with totals u128_of_i128_unat [of "wr_balance a"] u128_of_i128_unat [of "wr_total_disposed a"]
    u128_of_i128_unat [of "wr_total_acquired a"]
  have "int (unat (lr_total_acquired_raw r)) = int (unat (lr_total_disposed_raw r) + unat (lr_balance_raw r))"
    by (simp add: b(1) max_absorb1)
  then have "unat (lr_total_acquired_raw r) = unat (lr_total_disposed_raw r) + unat (lr_balance_raw r)"
    by (simp only: of_nat_eq_iff)
  with reduced_round_open [OF assms(1,4)] assms(5) show ?thesis by blast
qed


theorem complete_history_adds_up_witness:
  "unat (lr_total_acquired_raw (finish True bought_again))
     = unat (lr_total_disposed_raw (finish True bought_again)) + unat (lr_balance_raw (finish True bought_again))
   \<and> lr_balance_raw (finish True bought_again) \<noteq> 0"
proof -
  have "\<forall>d \<in> set sample_history. spl_amount d" "length sample_history \<le> 2 ^ 62"
    by (simp_all add: sample_history_def buy_def sell_def buy_again_def spl_amount_def)
  moreover have "finish True bought_again \<in> set (reduce_rounds (\<lambda>es. es) decimals10 sample_history)"
    by (simp add: sample_rounds)
  ultimately show ?thesis using complete_history_adds_up [OF sample_orders(1)] sample_reports(1) by fastforce
qed

lemma finish_money [simp]:
  "lr_realized_proceeds_sol (finish b a) = wr_realized_proceeds a" "lr_realized_cost_sol (finish b a) = wr_realized_cost a"
  "lr_realized_pnl_sol (finish b a) = (if wr_basis_complete a \<and> wr_quote_asset a = Some Sol \<and> 0 < wr_entry_count a
      \<and> wr_proceeds_complete a \<and> 0 < wr_exit_count a
    then Some (f64_sub (wr_realized_proceeds a) (wr_realized_cost a)) else None)"
  by (simp_all add: finish_def Let_def)

lemma stale_money [simp]:
  "lr_realized_proceeds_sol (stale_report a) = wr_realized_proceeds a" "lr_events (stale_report a) = wr_events a"
  "lr_realized_cost_sol (stale_report a) = wr_realized_cost a"
  "lr_realized_pnl_sol (stale_report a) = lr_realized_pnl_sol (finish False a)"
  by (simp_all add: stale_report_def)

text \<open>C26: a profit is only ever computed from prices that were seen. A round with a realized profit consists
  of trades against SOL alone, its proceeds are the SOL legs of its disposals added up in order, and the
  profit is the proceeds less the released basis.\<close>

theorem profit_needs_seen_prices:
  assumes "visits_each_once hash_order" and "r \<in> set (reduce_rounds hash_order pow10 deltas)"
    and "lr_realized_pnl_sol r = Some profit"
  shows "(\<forall>e \<in> set (lr_events r). sol_priced e)
     \<and> lr_realized_proceeds_sol r = foldl f64_add (Finite 0) (sol_legs (disposals (lr_events r)))
     \<and> profit = f64_sub (lr_realized_proceeds_sol r) (lr_realized_cost_sol r)"
proof -
  from priced.reported [OF _ assms(1,2)] obtain a where a: "prices_seen a" and r: "\<exists>b. r = finish b a \<or> r = stale_report a"
    by (auto simp: closed_as_def open_as_def split: if_splits)
  from r assms(3) have "wr_basis_complete a \<and> wr_proceeds_complete a"
    and fields: "lr_events r = wr_events a" "lr_realized_proceeds_sol r = wr_realized_proceeds a"
    "profit = f64_sub (lr_realized_proceeds_sol r) (lr_realized_cost_sol r)"
    by (elim exE disjE; simp split: if_splits)+
  with a have seen: "\<forall>e \<in> set (acquisitions (lr_events r)). sol_priced e" "\<forall>e \<in> set (disposals (lr_events r)). sol_priced e"
    "lr_realized_proceeds_sol r = foldl f64_add (Finite 0) (sol_legs (disposals (lr_events r)))"
    unfolding fields(1,2) by (simp_all add: prices_seen_def)
  have "sol_priced e" if "e \<in> set (lr_events r)" for e
    using seen(1,2) that by (cases "is_acquisition (le_kind e)") (simp_all add: acquisitions_def disposals_def)
  with seen(3) fields(3) show ?thesis by blast
qed

theorem profit_needs_seen_prices_witness:
  "\<exists>profit. lr_realized_pnl_sol (stale_report half_sold) = Some profit
     \<and> profit = f64_sub (lr_realized_proceeds_sol (stale_report half_sold)) (lr_realized_cost_sol (stale_report half_sold))"
proof -
  obtain profit where profit: "lr_realized_pnl_sol (stale_report half_sold) = Some profit" using sample_reports(2) by auto
  have "stale_report half_sold \<in> set (reduce_rounds (\<lambda>es. es) decimals10 sample_history)" by (simp add: sample_rounds)
  from profit_needs_seen_prices [OF sample_orders(1) this profit] profit show ?thesis by blast
qed

text \<open>A round closed as stale history keeps its profit although its basis is marked incomplete.\<close>

theorem stale_round_keeps_profit:
  "\<exists>r \<in> set (reduce_rounds (\<lambda>es. es) decimals10 sample_history). lr_realized_pnl_sol r \<noteq> None \<and> \<not> lr_basis_complete r"
  using sample_reports(2,3) by (simp add: sample_rounds)

text \<open>Two token accounts of one mint get two rounds with one key.\<close>

theorem two_accounts_share_a_key:
  "map lr_round_key (reconcile_with_wallet [] [\<lparr>wh_mint = mint, wh_amount_raw = 1, wh_decimals = 6\<rparr>,
     \<lparr>wh_mint = mint, wh_amount_raw = 2, wh_decimals = 6\<rparr>]) = [''genesis:'' @ mint, ''genesis:'' @ mint]"
  by (simp add: reconcile_with_wallet_def tagged_def)

end
