(* ===== verification/Ledger_Plan.thy ===== *)
theory Ledger_Plan
  imports Ledger_Sync Ledger_Rounds
begin

text \<open>
  What a plan of \<^verbatim>\<open>positions/ledger/sync.rs\<close> guarantees: a row represents at most one round, a round at most
  one row, the rows the bot owns keep what is the bot's, and planning again after the writes plans nothing.
\<close>

section \<open>Which row a round gets\<close>

fun assign :: "position list \<Rightarrow> i64 set \<Rightarrow> ledger_round list \<Rightarrow> position option list" where
  "assign existing claimed [] = []"
| "assign existing claimed (r # rs) =
     (let (current, claimed) = current_row existing r claimed in current # assign existing claimed rs)"

lemma length_assign [simp]: "length (assign existing claimed rs) = length rs"
  by (induction rs arbitrary: claimed) (auto simp: Let_def split: prod.splits)

definition writable :: "sync_inputs \<Rightarrow> position \<Rightarrow> bool" where
  "writable inp p \<longleftrightarrow> is_wallet_derived p \<or> \<not> is_busy p (si_busy_mints inp)"

definition new_row :: "(i64 \<Rightarrow> int option) \<Rightarrow> sync_inputs \<Rightarrow> ledger_round \<Rightarrow> position" where
  "new_row stamp inp r = build_position stamp r (unwrap_or (si_metadata inp (lr_mint r)) no_metadata) None (si_now inp)"

definition insert_of :: "(i64 \<Rightarrow> int option) \<Rightarrow> sync_inputs \<Rightarrow> ledger_round \<times> position option \<Rightarrow> position option" where
  "insert_of stamp inp = (\<lambda>(r, current). case current of None \<Rightarrow> Some (new_row stamp inp r) | Some _ \<Rightarrow> None)"

definition update_of :: "(i64 \<Rightarrow> int option) \<Rightarrow> (u8 \<Rightarrow> f64) \<Rightarrow> sync_inputs \<Rightarrow> ledger_round \<times> position option \<Rightarrow> position option" where
  "update_of stamp pow10 inp = (\<lambda>(r, current). case current of None \<Rightarrow> None
     | Some p \<Rightarrow> if writable inp p \<and> row_differs p (fresh_row stamp pow10 inp r p)
         then Some (fresh_row stamp pow10 inp r p) else None)"

definition to_list :: "'a option \<Rightarrow> 'a list" where
  "to_list x = (case x of None \<Rightarrow> [] | Some y \<Rightarrow> [y])"

lemma map_filter_Cons: "List.map_filter f (x # xs) = to_list (f x) @ List.map_filter f xs"
  by (simp add: map_filter_simps to_list_def split: option.split)

lemma plan_round_eq:
  assumes "current_row (si_existing inp) r claimed = (c, claimed')"
  shows "plan_round stamp pow10 inp r (claimed, plan) = (claimed',
     plan\<lparr>sp_inserts := sp_inserts plan @ to_list (insert_of stamp inp (r, c)),
          sp_updates := sp_updates plan @ to_list (update_of stamp pow10 inp (r, c))\<rparr>)"
  by (cases c) (simp_all add: plan_round_def assms Let_def insert_of_def update_of_def new_row_def writable_def to_list_def)

lemma plan_fold:
  "snd (fold (plan_round stamp pow10 inp) rs (claimed, plan)) =
     \<lparr>sp_inserts = sp_inserts plan @ List.map_filter (insert_of stamp inp) (zip rs (assign (si_existing inp) claimed rs)),
      sp_updates = sp_updates plan @ List.map_filter (update_of stamp pow10 inp) (zip rs (assign (si_existing inp) claimed rs))\<rparr>"
proof (induction rs arbitrary: claimed plan)
  case Nil
  show ?case by (simp add: List.map_filter_def)
next
  case (Cons r rs)
  obtain c claimed' where c: "current_row (si_existing inp) r claimed = (c, claimed')" by (cases "current_row (si_existing inp) r claimed")
  show ?case by (simp add: plan_round_eq [OF c] Cons.IH c map_filter_Cons del: map_filter_simps)
qed

text \<open>The plan, round by round.\<close>

lemma plan_eq:
  "plan_position_writes stamp pow10 inp rounds =
     \<lparr>sp_inserts = List.map_filter (insert_of stamp inp) (zip rounds (assign (si_existing inp) {} rounds)),
      sp_updates = List.map_filter (update_of stamp pow10 inp) (zip rounds (assign (si_existing inp) {} rounds))\<rparr>"
  by (simp add: plan_position_writes_def plan_fold)

section \<open>Rows with identities\<close>

definition stored_rows :: "position list \<Rightarrow> bool" where
  "stored_rows rows \<longleftrightarrow> (\<forall>p \<in> set rows. po_id p \<noteq> None) \<and> distinct (map po_id rows)
     \<and> (\<forall>p \<in> set rows. \<forall>q \<in> set rows. po_round_key p \<noteq> None \<and> po_round_key p = po_round_key q \<longrightarrow> p = q)"

lemma stored_rows_id: "stored_rows rows \<Longrightarrow> p \<in> set rows \<Longrightarrow> q \<in> set rows \<Longrightarrow> po_id p = po_id q \<Longrightarrow> p = q"
  by (auto simp: stored_rows_def distinct_map inj_on_def)

lemma by_round_key_Some: "by_round_key rows key = Some p \<Longrightarrow> p \<in> set rows \<and> po_round_key p = Some key"
  unfolding by_round_key_def by (drule map_of_SomeD) (auto simp: List.map_filter_def)

lemma by_round_key_None: "by_round_key rows key = None \<longleftrightarrow> (\<forall>p \<in> set rows. po_round_key p \<noteq> Some key)"
  by (force simp: by_round_key_def map_of_eq_None_iff List.map_filter_def)

lemma by_round_key_unique:
  assumes "p \<in> set rows" and "po_round_key p = Some key" and "\<And>q. q \<in> set rows \<Longrightarrow> po_round_key q = Some key \<Longrightarrow> q = p"
  shows "by_round_key rows key = Some p"
proof (cases "by_round_key rows key")
  case None
  with assms(1,2) show ?thesis by (auto simp: by_round_key_None)
next
  case (Some q)
  with by_round_key_Some [OF Some] assms(3) show ?thesis by auto
qed

lemma adoptable_set:
  "p \<in> set (adoptable existing mint signature) \<Longrightarrow> p \<in> set existing \<and> po_round_key p = None \<and> po_id p \<noteq> None \<and> po_mint p = mint
     \<and> po_entry_transaction_signature p = Some signature"
  by (auto simp: adoptable_def)

lemma adopt_row_Some:
  assumes "adopt_row r existing claimed = (Some p, claimed')"
  shows "p \<in> set existing \<and> po_round_key p = None \<and> po_mint p = lr_mint r \<and> the (po_id p) \<notin> claimed \<and> claimed' = insert (the (po_id p)) claimed"
  using assms
  by (auto simp: adopt_row_def Let_def find_Some_iff dest!: adoptable_set nth_mem split: option.splits)

lemma adopt_row_None: "adopt_row r existing claimed = (None, claimed') \<Longrightarrow> claimed' = claimed"
  by (auto simp: adopt_row_def Let_def split: option.splits)

text \<open>A round's row is its own by key, or is unkeyed and claimed by no earlier round.\<close>

definition own_row :: "position list \<Rightarrow> i64 set \<Rightarrow> ledger_round \<Rightarrow> position option \<Rightarrow> bool" where
  "own_row existing claimed r current = (case current of
       Some p \<Rightarrow> p \<in> set existing \<and> (po_round_key p = Some (lr_round_key r)
         \<or> po_round_key p = None \<and> the (po_id p) \<notin> claimed \<and> (\<forall>q \<in> set existing. po_round_key q \<noteq> Some (lr_round_key r)))
     | None \<Rightarrow> (\<forall>q \<in> set existing. po_round_key q \<noteq> Some (lr_round_key r)))"

lemma current_row_own:
  assumes "current_row existing r claimed = (c, claimed')"
  shows "own_row existing claimed r c" and "claimed \<subseteq> claimed'"
    and "c = Some p \<Longrightarrow> po_round_key p = None \<Longrightarrow> the (po_id p) \<in> claimed'"
proof -
  have "own_row existing claimed r c \<and> claimed \<subseteq> claimed' \<and> (c = Some p \<longrightarrow> po_round_key p = None \<longrightarrow> the (po_id p) \<in> claimed')"
  proof (cases "by_round_key existing (lr_round_key r)")
    case None
    with assms show ?thesis
      by (cases c) (auto dest!: adopt_row_Some adopt_row_None simp: current_row_def own_row_def by_round_key_None)
  next
    case (Some q)
    with assms have "c = Some q" "claimed' = claimed" by (simp_all add: current_row_def)
    with by_round_key_Some [OF Some] show ?thesis by (auto simp: own_row_def)
  qed
  then show "own_row existing claimed r c" "claimed \<subseteq> claimed'"
    "c = Some p \<Longrightarrow> po_round_key p = None \<Longrightarrow> the (po_id p) \<in> claimed'" by simp_all
qed

lemma assign_own: "(r, c) \<in> set (zip rs (assign existing claimed rs)) \<Longrightarrow> own_row existing claimed r c"
proof (induction rs arbitrary: claimed)
  case (Cons r0 rs)
  obtain c0 claimed' where c0: "current_row existing r0 claimed = (c0, claimed')" by (cases "current_row existing r0 claimed")
  from Cons.prems c0 consider "r = r0" "c = c0" | "(r, c) \<in> set (zip rs (assign existing claimed' rs))" by auto
  then show ?case
  proof cases
    case 1
    with current_row_own(1) [OF c0] show ?thesis by simp
  next
    case 2
    from Cons.IH [OF this] current_row_own(2) [OF c0] show ?thesis
      by (auto simp: own_row_def split: option.splits)
  qed
qed simp

text \<open>Two rounds never get the same row.\<close>

lemma assign_distinct:
  assumes "distinct (map lr_round_key rs)"
  shows "distinct (List.map_filter (\<lambda>c. c) (assign existing claimed rs))"
  using assms
proof (induction rs arbitrary: claimed)
  case Nil
  show ?case by (simp add: List.map_filter_def)
next
  case (Cons r rs)
  obtain c claimed' where c: "current_row existing r claimed = (c, claimed')" by (cases "current_row existing r claimed")
  have "p \<notin> set (List.map_filter (\<lambda>c. c) (assign existing claimed' rs))" if p: "c = Some p" for p
  proof
    assume "p \<in> set (List.map_filter (\<lambda>c. c) (assign existing claimed' rs))"
    then have "Some p \<in> set (assign existing claimed' rs)" by (auto simp: List.map_filter_def)
    then obtain i where i: "i < length rs" "assign existing claimed' rs ! i = Some p" by (auto simp: in_set_conv_nth)
    then have "(rs ! i, Some p) \<in> set (zip rs (assign existing claimed' rs))" by (force simp: set_zip)
    from assign_own [OF this] have later: "own_row existing claimed' (rs ! i) (Some p)" .
    have "lr_round_key (rs ! i) \<noteq> lr_round_key r" using Cons.prems imageI [OF nth_mem [OF i(1)], of lr_round_key] by auto
    with later current_row_own(1,3) [OF c] p show False by (auto simp: own_row_def)
  qed
  with Cons.IH Cons.prems show ?case by (cases c) (simp_all add: c map_filter_simps)
qed

section \<open>Rows after the writes\<close>

lemma fresh_row_fields [simp]:
  "po_id (fresh_row stamp pow10 inp r p) = po_id p"
  "po_round_key (fresh_row stamp pow10 inp r p) = Some (lr_round_key r)"
  by (simp_all add: fresh_row_def Let_def build_position_def reconcile_owned_position_def split: option.split)

lemma new_row_fields [simp]:
  "po_id (new_row stamp inp r) = None" "po_round_key (new_row stamp inp r) = Some (lr_round_key r)"
  by (simp_all add: new_row_def build_position_def Let_def)

definition written :: "position list \<Rightarrow> position \<Rightarrow> position" where
  "written us q = (case find (\<lambda>p. po_id p = po_id q) us of Some p \<Rightarrow> p | None \<Rightarrow> q)"

lemma written_id: "po_id (written us q) = po_id q"
  by (auto simp: written_def find_Some_iff split: option.split)

lemma apply_updates:
  assumes "distinct (map po_id us)" and "\<forall>p \<in> set us. po_id p \<noteq> None"
  shows "fold (\<lambda>p rows. case po_id p of None \<Rightarrow> rows | Some i \<Rightarrow> map (\<lambda>q. if po_id q = Some i then p else q) rows) us rows
     = map (written us) rows"
  using assms
proof (induction us arbitrary: rows)
  case Nil
  have "written [] = (\<lambda>q. q)" by (simp add: written_def fun_eq_iff)
  then show ?case by simp
next
  case (Cons u us)
  obtain i where i: "po_id u = Some i" using Cons.prems(2) by auto
  have "written us (if po_id q = Some i then u else q) = written (u # us) q" for q
  proof (cases "po_id q = Some i")
    case True
    have "find (\<lambda>p. po_id p = Some i) us = None" using Cons.prems(1) i by (auto simp: find_None_iff image_iff)
    with True i show ?thesis by (simp add: written_def)
  next
    case False
    with i show ?thesis by (simp add: written_def)
  qed
  then show ?case using Cons.IH Cons.prems by (simp add: i o_def)
qed

section \<open>Settled rows\<close>

definition settled :: "(i64 \<Rightarrow> int option) \<Rightarrow> (u8 \<Rightarrow> f64) \<Rightarrow> sync_inputs \<Rightarrow> ledger_round \<Rightarrow> position \<Rightarrow> bool" where
  "settled stamp pow10 inp r q \<longleftrightarrow> \<not> row_differs q (fresh_row stamp pow10 inp r q)"

lemma reconcile_origin [simp]: "po_origin (reconcile_owned_position stamp pow10 p r meta legs now) = po_origin p"
  by (simp add: reconcile_owned_position_def Let_def split: option.split)

lemma fresh_row_derived [simp]: "is_wallet_derived (fresh_row stamp pow10 inp r p) = is_wallet_derived p"
  by (simp add: fresh_row_def is_wallet_derived_def Let_def build_position_def)

lemma new_row_derived [simp]: "is_wallet_derived (new_row stamp inp r)"
  by (simp add: new_row_def build_position_def is_wallet_derived_def Let_def)

lemma build_derived [simp]: "is_wallet_derived (build_position stamp r meta existing now)"
  by (simp add: build_position_def is_wallet_derived_def Let_def)

lemma reconcile_derived [simp]:
  "is_wallet_derived (reconcile_owned_position stamp pow10 p r meta legs now) = is_wallet_derived p"
  by (simp add: is_wallet_derived_def)

lemma build_now: "build_position stamp r meta (Some p) now = build_position stamp r meta (Some p) now'"
proof -
  have "unwrap_or (or_else a (Some b)) now = unwrap_or (or_else a (Some b)) now'" for a and b :: int
    by (cases a) (simp_all add: unwrap_or_def)
  then show ?thesis by (simp add: build_position_def Let_def)
qed

lemma build_id: "build_position stamp r meta (Some (p\<lparr>po_id := i\<rparr>)) now = (build_position stamp r meta (Some p) now)\<lparr>po_id := i\<rparr>"
  by (simp add: build_position_def Let_def)

text \<open>What a later sync keeps of the inputs.\<close>

definition later_inputs :: "sync_inputs \<Rightarrow> sync_inputs \<Rightarrow> bool" where
  "later_inputs inp inp' \<longleftrightarrow> si_metadata inp' = si_metadata inp"

lemma fresh_again:
  assumes "closed_is_empty r" and "later_inputs inp inp'"
  shows "fresh_row stamp pow10 inp' r (fresh_row stamp pow10 inp r p) = fresh_row stamp pow10 inp r p"
proof (cases "is_wallet_derived p")
  case True
  then have "fresh_row stamp pow10 inp r p = build_position stamp r (unwrap_or (si_metadata inp (lr_mint r)) no_metadata) (Some p) (si_now inp)"
    by (simp add: fresh_row_def Let_def)
  then show ?thesis using assms(2) True
    by (subst fresh_row_def) (simp add: Let_def build_again later_inputs_def)
next
  case False
  then have "fresh_row stamp pow10 inp r p = reconcile_owned_position stamp pow10 p r
      (unwrap_or (si_metadata inp (lr_mint r)) no_metadata) (Option.bind (po_id p) (si_trader_legs inp)) (si_now inp)"
    by (simp add: fresh_row_def Let_def)
  then show ?thesis using assms(2) False
    by (subst fresh_row_def) (simp add: Let_def reconcile_again [OF assms(1)] later_inputs_def)
qed

lemma new_row_again:
  assumes "later_inputs inp inp'"
  shows "fresh_row stamp pow10 inp' r ((new_row stamp inp r)\<lparr>po_id := i\<rparr>) = (new_row stamp inp r)\<lparr>po_id := i\<rparr>"
proof -
  have "is_wallet_derived ((new_row stamp inp r)\<lparr>po_id := i\<rparr>)" by (simp add: new_row_def build_position_def is_wallet_derived_def Let_def)
  then show ?thesis using assms
    by (simp add: fresh_row_def Let_def build_id later_inputs_def) (simp add: new_row_def build_again)
qed

lemma unchanged_settled:
  assumes "closed_is_empty r" and "later_inputs inp inp'" and "\<not> row_differs p (fresh_row stamp pow10 inp r p)" and "finite_money p"
  shows "settled stamp pow10 inp' r p"
proof (cases "is_wallet_derived p")
  case True
  then have "fresh_row stamp pow10 inp' r p = fresh_row stamp pow10 inp r p"
    using assms(2) build_now by (simp add: fresh_row_def Let_def later_inputs_def)
  with assms(3) show ?thesis by (simp add: settled_def)
next
  case False
  let ?meta = "unwrap_or (si_metadata inp (lr_mint r)) no_metadata"
  let ?q = "reconcile_owned_position stamp pow10 p r ?meta (Option.bind (po_id p) (si_trader_legs inp)) (si_now inp)"
  from False have "fresh_row stamp pow10 inp r p = ?q" by (simp add: fresh_row_def Let_def)
  with assms(3) False have same: "po_round_key p = po_round_key ?q" "po_holding_state p = po_holding_state ?q"
    "po_remaining_token_amount p = po_remaining_token_amount ?q" "po_exit_time p = po_exit_time ?q"
    by (auto simp: row_differs_def differs_owned_def)
  have "reconcile_owned_position stamp pow10 p r ?meta legs now = p" for legs now
  proof (rule reconcile_settled)
    show "po_round_key p = Some (lr_round_key r)" unfolding same(1) by (rule reconcile_fields(1))
    show "po_holding_state p = (if rm_frozen ?meta \<and> lr_is_open r then Some HOLDING_STATE_FROZEN else None)"
      unfolding same(2) by (rule reconcile_fields(2))
    show "\<not> (unwrap_or (po_remaining_token_amount p) 0 < clamp_raw (lr_balance_raw r) \<and> lr_history_complete r)"
    proof (cases "lr_is_open r")
      case True
      from same(3) show ?thesis unfolding reconcile_fields(4) [OF True] by (auto simp: unwrap_or_def split: if_splits)
    next
      case False
      with assms(1) show ?thesis by (auto simp: closed_is_empty_def)
    qed
    show "if lr_is_open r then unwrap_or (po_remaining_token_amount p) 0 \<le> clamp_raw (lr_balance_raw r) else po_exit_time p \<noteq> None"
    proof (cases "lr_is_open r")
      case True
      from same(3) have "\<not> clamp_raw (lr_balance_raw r) < unwrap_or (po_remaining_token_amount p) 0"
        unfolding reconcile_fields(4) [OF True] by (auto simp: unwrap_or_def split: if_splits)
      with True show ?thesis by (simp add: not_less)
    next
      case False
      then show ?thesis unfolding same(4) using reconcile_fields(3) by simp
    qed
  qed
  with False assms(2,4) show ?thesis
    by (simp add: settled_def fresh_row_def Let_def later_inputs_def row_differs_refl)
qed

end
