(* ===== verification/Ledger_Writes.thy ===== *)
theory Ledger_Writes
  imports Ledger_Plan Position_Sample
begin

text \<open>
  The guarantees of a whole plan of \<^verbatim>\<open>positions/ledger/sync.rs\<close>: every row is written at most once, every
  round is one row, and a sync of a settled wallet writes nothing.
\<close>

section \<open>One write for a row, one row for a round\<close>

lemma distinct_image_filter:
  assumes "distinct (List.map_filter f xs)" and "inj_on h (set (List.map_filter f xs))"
    and "\<And>x y. x \<in> set xs \<Longrightarrow> g x = Some y \<Longrightarrow> \<exists>p. f x = Some p \<and> k y = h p"
  shows "distinct (map k (List.map_filter g xs))"
  using assms
proof (induction xs)
  case Nil
  show ?case by (simp add: List.map_filter_def)
next
  case (Cons x xs)
  from Cons.prems(1,2) have sub: "distinct (List.map_filter f xs)" "inj_on h (set (List.map_filter f xs))"
    by (auto simp: map_filter_simps split: option.splits)
  have IH: "distinct (map k (List.map_filter g xs))" using Cons.IH [OF sub] Cons.prems(3) by simp
  show ?case
  proof (cases "g x")
    case None
    with IH show ?thesis by (simp add: map_filter_simps)
  next
    case (Some y)
    obtain p where p: "f x = Some p" "k y = h p" using Cons.prems(3) [OF _ Some] by auto
    have "k y \<notin> k ` set (List.map_filter g xs)"
    proof
      assume "k y \<in> k ` set (List.map_filter g xs)"
      then obtain z y' where z: "z \<in> set xs" "g z = Some y'" "k y = k y'" by (auto simp: List.map_filter_def)
      from Cons.prems(3) [of z y'] z obtain p' where p': "f z = Some p'" "k y' = h p'" by auto
      have "p' \<in> set (List.map_filter f xs)" using z(1) p'(1) by (force simp: List.map_filter_def)
      moreover from this have "p' \<noteq> p" using Cons.prems(1) p(1) by (auto simp: map_filter_simps)
      ultimately show False using Cons.prems(2) p p' z(3) by (auto simp: map_filter_simps inj_on_def)
    qed
    with Some IH show ?thesis by (simp add: map_filter_simps)
  qed
qed

lemma set_map_filter_Ex: "y \<in> set (List.map_filter f xs) \<longleftrightarrow> (\<exists>x \<in> set xs. f x = Some y)"
  by (force simp: List.map_filter_def)

lemma map_filter_total: "List.map_filter (\<lambda>x. Some (f x)) xs = map f xs"
  by (simp add: List.map_filter_def)

lemma map_filter_length2:
  assumes "\<And>x. x \<in> set xs \<Longrightarrow> f x = None \<or> g x = None"
  shows "length (List.map_filter f xs) + length (List.map_filter g xs) \<le> length xs"
  using assms
proof (induction xs)
  case (Cons x xs)
  have "length (List.map_filter f xs) + length (List.map_filter g xs) \<le> length xs" using Cons.IH Cons.prems by simp
  moreover have "f x = None \<or> g x = None" using Cons.prems [of x] by simp
  ultimately show ?case by (auto simp: map_filter_simps split: option.splits)
qed (simp add: List.map_filter_def)

lemma map_filter_zip_snd: "length ys = length xs \<Longrightarrow> List.map_filter (f \<circ> snd) (zip xs ys) = List.map_filter f ys"
  by (induction xs ys rule: list_induct2') (auto simp: map_filter_simps split: option.splits) 

definition pairs :: "sync_inputs \<Rightarrow> ledger_round list \<Rightarrow> (ledger_round \<times> position option) list" where
  "pairs inp rounds = zip rounds (assign (si_existing inp) {} rounds)"

lemma insert_of_Some: "insert_of stamp inp (r, c) = Some n \<longleftrightarrow> c = None \<and> n = new_row stamp inp r"
  by (auto simp: insert_of_def split: option.splits)

lemma update_of_Some: "update_of stamp pow10 inp (r, c) = Some u \<longleftrightarrow>
    (\<exists>p. c = Some p \<and> writable inp p \<and> row_differs p (fresh_row stamp pow10 inp r p) \<and> u = fresh_row stamp pow10 inp r p)"
  by (auto simp: update_of_def split: option.splits)

lemma set_inserts: "n \<in> set (sp_inserts (plan_position_writes stamp pow10 inp rounds)) \<longleftrightarrow>
    (\<exists>r. (r, None) \<in> set (pairs inp rounds) \<and> n = new_row stamp inp r)"
  by (simp add: plan_eq set_map_filter_Ex Bex_def split_paired_Ex insert_of_Some pairs_def)

lemma set_updates: "u \<in> set (sp_updates (plan_position_writes stamp pow10 inp rounds)) \<longleftrightarrow>
    (\<exists>r p. (r, Some p) \<in> set (pairs inp rounds) \<and> writable inp p \<and> row_differs p (fresh_row stamp pow10 inp r p)
       \<and> u = fresh_row stamp pow10 inp r p)"
  by (simp add: plan_eq set_map_filter_Ex Bex_def split_paired_Ex update_of_Some pairs_def) blast

lemma pairs_key:
  assumes "distinct (map lr_round_key rounds)" and "(r, c) \<in> set (pairs inp rounds)" and "(r1, c1) \<in> set (pairs inp rounds)"
    and "lr_round_key r = lr_round_key r1"
  shows "r = r1 \<and> c = c1"
proof -
  have "distinct (map (lr_round_key \<circ> fst) (pairs inp rounds))" using assms(1) by (simp add: pairs_def flip: map_map)
  then have "inj_on (lr_round_key \<circ> fst) (set (pairs inp rounds))" by (simp add: distinct_map)
  from inj_onD [OF this _ assms(2,3)] assms(4) have "(r, c) = (r1, c1)" by simp
  then show ?thesis by simp
qed

lemma pairs_rows: "distinct (map lr_round_key rounds) \<Longrightarrow> distinct (List.map_filter snd (pairs inp rounds))"
  using assign_distinct [of rounds "si_existing inp" "{}"] map_filter_zip_snd [of "assign (si_existing inp) {} rounds" rounds "\<lambda>c. c"]
  by (simp add: pairs_def o_def)

lemma pairs_own: "(r, c) \<in> set (pairs inp rounds) \<Longrightarrow> own_row (si_existing inp) {} r c"
  unfolding pairs_def by (rule assign_own)

lemma pairs_row: "(r, Some p) \<in> set (pairs inp rounds) \<Longrightarrow> p \<in> set (si_existing inp)"
  using pairs_own by (force simp: own_row_def)

lemma pairs_total: "r \<in> set rounds \<Longrightarrow> \<exists>c. (r, c) \<in> set (pairs inp rounds)"
  by (force simp: pairs_def in_set_conv_nth set_zip)

lemma plan_inserts: "sp_inserts (plan_position_writes stamp pow10 inp rounds) = List.map_filter (insert_of stamp inp) (pairs inp rounds)"
  by (simp add: plan_eq pairs_def)

lemma plan_updates:
  "sp_updates (plan_position_writes stamp pow10 inp rounds) = List.map_filter (update_of stamp pow10 inp) (pairs inp rounds)"
  by (simp add: plan_eq pairs_def)

lemma updates_ids:
  assumes "distinct (map lr_round_key rounds)" and "stored_rows (si_existing inp)"
  shows "distinct (map po_id (sp_updates (plan_position_writes stamp pow10 inp rounds)))"
proof -
  have "set (List.map_filter snd (pairs inp rounds)) \<subseteq> set (si_existing inp)"
    using pairs_row by (auto simp: set_map_filter_Ex)
  then have "inj_on po_id (set (List.map_filter snd (pairs inp rounds)))"
    using assms(2) by (auto simp: stored_rows_def distinct_map intro: inj_on_subset)
  then show ?thesis
    unfolding plan_updates by (rule distinct_image_filter [OF pairs_rows [OF assms(1)]]) (auto simp: update_of_Some)
qed

lemma updates_old: "set (map po_id (sp_updates (plan_position_writes stamp pow10 inp rounds))) \<subseteq> set (map po_id (si_existing inp))"
  using pairs_row by (auto simp: set_updates)

lemma write_keys:
  assumes "distinct (map lr_round_key rounds)"
  shows "distinct (map po_round_key (sp_inserts (plan_position_writes stamp pow10 inp rounds)))"
    and "distinct (map po_round_key (sp_updates (plan_position_writes stamp pow10 inp rounds)))"
proof -
  have keyed: "distinct (List.map_filter (\<lambda>x. Some (fst x)) (pairs inp rounds))"
      "inj_on (\<lambda>r. Some (lr_round_key r)) (set (List.map_filter (\<lambda>x. Some (fst x)) (pairs inp rounds)))"
    using assms by (auto simp: map_filter_total pairs_def distinct_map inj_on_def)
  show "distinct (map po_round_key (sp_inserts (plan_position_writes stamp pow10 inp rounds)))"
    unfolding plan_inserts by (rule distinct_image_filter [OF keyed]) (auto simp: insert_of_Some)
  show "distinct (map po_round_key (sp_updates (plan_position_writes stamp pow10 inp rounds)))"
    unfolding plan_updates by (rule distinct_image_filter [OF keyed]) (auto simp: update_of_Some)
qed

text \<open>A row the ledger created carries its round's key.\<close>

definition keyed_derived :: "position list \<Rightarrow> bool" where
  "keyed_derived rows \<longleftrightarrow> (\<forall>p \<in> set rows. is_wallet_derived p \<longrightarrow> po_round_key p \<noteq> None)"

section \<open>A sample wallet\<close>

text \<open>One round the trader bought, one the wallet received elsewhere, and the one row there is.\<close>

definition sample_round :: "string \<Rightarrow> string \<Rightarrow> u128 \<Rightarrow> ledger_event list \<Rightarrow> ledger_round" where
  "sample_round mint signature amount es = \<lparr>lr_mint = mint, lr_decimals = 0, lr_round_key = signature @ mint,
     lr_opened_at = Some 5, lr_closed_at = None, lr_is_open = True, lr_balance_raw = amount, lr_total_acquired_raw = amount,
     lr_total_disposed_raw = 0, lr_entry_count = 1, lr_exit_count = 0, lr_invested_sol = Finite 1,
     lr_remaining_basis_sol = Finite 1, lr_realized_proceeds_sol = Finite 0, lr_realized_cost_sol = Finite 0,
     lr_average_entry_price_sol = None, lr_average_exit_price_sol = None, lr_realized_pnl_sol = None,
     lr_basis_complete = True, lr_history_complete = True, lr_entry_signature = Some signature, lr_exit_signature = None,
     lr_events = es\<rparr>"

definition sample_rounds :: "ledger_round list" where
  "sample_rounds = [sample_round ''A'' ''s'' 7 [], sample_round ''B'' ''t'' 9 []]"

definition sample_inputs :: sync_inputs where
  "sample_inputs = \<lparr>si_existing = [held_position 1 ''A'' ''s'' 7 (Finite 1)], si_metadata = (\<lambda>_. None),
     si_trader_legs = (\<lambda>_. None), si_busy_mints = {}, si_now = 8\<rparr>"

lemmas sample_wallet = sample_rounds_def sample_round_def sample_inputs_def held_position_def

lemma sample_keys: "distinct (map lr_round_key sample_rounds)"
  by (simp add: sample_wallet)

lemma sample_closed: "\<forall>r \<in> set sample_rounds. closed_is_empty r"
  by (simp add: sample_wallet closed_is_empty_def)

lemma sample_stored: "stored_rows (si_existing sample_inputs)" "keyed_derived (si_existing sample_inputs)"
  "\<forall>p \<in> set (si_existing sample_inputs). writable sample_inputs p"
  by (simp_all add: sample_wallet stored_rows_def keyed_derived_def writable_def is_busy_def is_wallet_derived_def)

lemma sample_plan:
  "plan_position_writes Some decimals10 sample_inputs sample_rounds =
     \<lparr>sp_inserts = [new_row Some sample_inputs (sample_round ''B'' ''t'' 9 [])],
      sp_updates = [(held_position 1 ''A'' ''s'' 7 (Finite 1))\<lparr>po_round_key := Some ''sA''\<rparr>]\<rparr>"
  by (simp add: plan_eq sample_wallet current_row_def by_round_key_def adopt_row_def adoptable_def Let_def map_filter_simps
      insert_of_def update_of_def writable_def is_busy_def is_wallet_derived_def row_differs_def differs_owned_def fresh_row_def
      reconcile_owned_position_def clamp_raw_def unwrap_or_def no_metadata_def)

text \<open>C28: For rounds with different keys, as the reduction makes them for a wallet with one account per token, and stored
  rows with ids and round keys that differ, as the table keeps them, a plan rewrites each stored row at most once and only rows that exist,
  stores a new row only for a round that has none, and gives no two of its writes the same round; there are never
  more writes than rounds, so the count of unchanged rounds does not underflow. Two accounts of one token can give
  two rounds of one key, and then two new rows of that key.\<close>

theorem plan_writes_each_row_once:
  assumes "distinct (map lr_round_key rounds)" and "stored_rows (si_existing inp)"
    and "plan = plan_position_writes stamp pow10 inp rounds"
  shows "distinct (map po_id (sp_updates plan))
    \<and> set (map po_id (sp_updates plan)) \<subseteq> set (map po_id (si_existing inp))
    \<and> distinct (map po_round_key (sp_inserts plan @ sp_updates plan))
    \<and> set (map po_round_key (sp_inserts plan)) \<inter> set (map po_round_key (si_existing inp)) = {}
    \<and> (\<forall>p \<in> set (sp_inserts plan). po_id p = None)
    \<and> length (sp_inserts plan) + length (sp_updates plan) \<le> length rounds"
proof -
  note ids = updates_ids [OF assms(1,2), of stamp pow10, folded assms(3)]
    and old = updates_old [of stamp pow10 inp rounds, folded assms(3)]
    and ikeys = write_keys(1) [OF assms(1), of stamp pow10 inp, folded assms(3)]
    and ukeys = write_keys(2) [OF assms(1), of stamp pow10 inp, folded assms(3)]
  have apart: "set (map po_round_key (sp_inserts plan)) \<inter> set (map po_round_key (sp_updates plan)) = {}"
  proof -
    have False if n: "(r, None) \<in> set (pairs inp rounds)" and u: "(r1, Some p) \<in> set (pairs inp rounds)"
      and "lr_round_key r = lr_round_key r1" for r r1 p
      using pairs_key [OF assms(1) n u] that(3) by simp
    then show ?thesis by (auto simp: assms(3) set_inserts set_updates)
  qed
  have new: "set (map po_round_key (sp_inserts plan)) \<inter> set (map po_round_key (si_existing inp)) = {}"
  proof -
    have "Some (lr_round_key r) \<noteq> po_round_key q" if n: "(r, None) \<in> set (pairs inp rounds)" and q: "q \<in> set (si_existing inp)" for r q
      using pairs_own [OF n] q by (auto simp: own_row_def)
    then show ?thesis by (auto simp: assms(3) set_inserts)
  qed
  have "length (sp_inserts plan) + length (sp_updates plan) \<le> length (pairs inp rounds)"
    unfolding assms(3) plan_inserts plan_updates by (rule map_filter_length2) (auto simp: insert_of_def update_of_def split: option.splits)
  then have len: "length (sp_inserts plan) + length (sp_updates plan) \<le> length rounds" by (simp add: pairs_def)
  have none: "\<forall>p \<in> set (sp_inserts plan). po_id p = None" by (auto simp: assms(3) set_inserts)
  have keys: "distinct (map po_round_key (sp_inserts plan @ sp_updates plan))"
    unfolding map_append distinct_append using ikeys ukeys apart by (intro conjI)
  show ?thesis using ids old keys new none len by (intro conjI)
qed

theorem plan_writes_each_row_once_witness:
  "length (sp_inserts (plan_position_writes Some decimals10 sample_inputs sample_rounds)) = 1
    \<and> distinct (map po_round_key (sp_inserts (plan_position_writes Some decimals10 sample_inputs sample_rounds)
         @ sp_updates (plan_position_writes Some decimals10 sample_inputs sample_rounds)))"
  using plan_writes_each_row_once [OF sample_keys sample_stored(1) refl, of Some decimals10] by (simp add: sample_plan)

section \<open>The next sync\<close>

lemma settled_plans_nothing:
  assumes "\<And>r. r \<in> set rounds \<Longrightarrow> \<exists>q. by_round_key (si_existing inp) (lr_round_key r) = Some q \<and> settled stamp pow10 inp r q"
  shows "plan_is_empty (plan_position_writes stamp pow10 inp rounds)"
proof -
  have "fold (plan_round stamp pow10 inp) rounds (claimed, plan) = (claimed, plan)" for claimed plan
    using assms
  proof (induction rounds)
    case (Cons r rounds)
    obtain q where "by_round_key (si_existing inp) (lr_round_key r) = Some q" "settled stamp pow10 inp r q"
      using Cons.prems [of r] by auto
    then have "plan_round stamp pow10 inp r (claimed, plan) = (claimed, plan)"
      by (simp add: plan_round_def current_row_def settled_def Let_def)
    with Cons show ?case by simp
  qed simp
  then show ?thesis by (simp add: plan_position_writes_def plan_is_empty_def)
qed

definition fresh_ids :: "i64 list \<Rightarrow> position list \<Rightarrow> position list \<Rightarrow> bool" where
  "fresh_ids new_ids inserts rows \<longleftrightarrow> length new_ids = length inserts \<and> distinct new_ids \<and> Some ` set new_ids \<inter> po_id ` set rows = {}"

definition with_ids :: "i64 list \<Rightarrow> position list \<Rightarrow> position list" where
  "with_ids new_ids inserts = map (\<lambda>(p, i). p\<lparr>po_id := Some i\<rparr>) (zip inserts new_ids)"

lemma rows_after:
  assumes "distinct (map lr_round_key rounds)" and "stored_rows (si_existing inp)"
    and "plan = plan_position_writes stamp pow10 inp rounds" and "fresh_ids new_ids (sp_inserts plan) (si_existing inp)"
  shows "set (apply_plan new_ids plan (si_existing inp))
    = written (sp_updates plan) ` set (si_existing inp) \<union> set (with_ids new_ids (sp_inserts plan))"
proof -
  let ?us = "sp_updates plan"
  have old: "set (map po_id ?us) \<subseteq> set (map po_id (si_existing inp))" unfolding assms(3) by (rule updates_old)
  have some: "\<forall>p \<in> set ?us. po_id p \<noteq> None"
  proof
    fix p assume "p \<in> set ?us"
    with old have "po_id p \<in> po_id ` set (si_existing inp)" by auto
    then obtain q where "po_id p = po_id q" "q \<in> set (si_existing inp)" by blast
    with assms(2) show "po_id p \<noteq> None" by (simp add: stored_rows_def)
  qed
  have "written ?us q = q" if "q \<in> set (with_ids new_ids (sp_inserts plan))" for q
  proof -
    from that obtain i where i: "po_id q = Some i" "i \<in> set new_ids" by (auto simp: with_ids_def dest: set_zip_rightD)
    then have "po_id q \<notin> po_id ` set (si_existing inp)" using assms(4) by (auto simp: fresh_ids_def)
    then have "po_id q \<notin> set (map po_id ?us)" using old by auto
    then have "find (\<lambda>p. po_id p = po_id q) ?us = None" by (auto simp: find_None_iff image_iff)
    then show ?thesis by (simp add: written_def)
  qed
  then have "written ?us ` set (with_ids new_ids (sp_inserts plan)) = set (with_ids new_ids (sp_inserts plan))" by simp
  moreover have "apply_plan new_ids plan (si_existing inp) = map (written ?us) (si_existing inp @ with_ids new_ids (sp_inserts plan))"
    unfolding apply_plan_def with_ids_def
    by (rule apply_updates [OF updates_ids [OF assms(1,2), of stamp pow10, folded assms(3)] some])
  ultimately show ?thesis by (simp add: image_Un)
qed

lemma map_key_with_ids: "length new_ids = length inserts \<Longrightarrow> map po_round_key (with_ids new_ids inserts) = map po_round_key inserts"
  by (induction inserts new_ids rule: list_induct2') (simp_all add: with_ids_def)

lemma with_ids_same:
  assumes "distinct (map po_round_key inserts)" and "length new_ids = length inserts"
    and "p \<in> set (with_ids new_ids inserts)" and "q \<in> set (with_ids new_ids inserts)" and "po_round_key p = po_round_key q"
  shows "p = q"
proof -
  have "distinct (map po_round_key (with_ids new_ids inserts))" using assms(1,2) by (simp add: map_key_with_ids)
  with assms(3-5) show ?thesis by (auto simp: distinct_map inj_on_def)
qed

lemma with_ids_from: "q \<in> set (with_ids new_ids inserts) \<Longrightarrow> \<exists>n i. n \<in> set inserts \<and> q = n\<lparr>po_id := Some i\<rparr>"
  by (auto simp: with_ids_def dest: set_zip_leftD)

lemma with_ids_to:
  assumes "length new_ids = length inserts" and "n \<in> set inserts"
  shows "\<exists>i. n\<lparr>po_id := Some i\<rparr> \<in> set (with_ids new_ids inserts)"
proof -
  from assms(2) obtain j where "j < length inserts" "inserts ! j = n" by (auto simp: in_set_conv_nth)
  with assms(1) have "(n, new_ids ! j) \<in> set (zip inserts new_ids)" by (auto simp: set_zip)
  then show ?thesis by (force simp: with_ids_def)
qed

lemma written_update:
  assumes "distinct (map po_id us)" and "u \<in> set us" and "po_id q = po_id u"
  shows "written us q = u"
proof -
  have "\<exists>v. find (\<lambda>p. po_id p = po_id q) us = Some v" using assms(2,3) by (auto simp: find_None_iff simp flip: not_None_eq)
  then obtain v where v: "find (\<lambda>p. po_id p = po_id q) us = Some v" ..
  then have "v \<in> set us" "po_id v = po_id q" by (auto simp: find_Some_iff)
  with assms have "v = u" by (auto simp: distinct_map inj_on_def)
  with v show ?thesis by (simp add: written_def)
qed

lemma written_cases: "written us q = q \<or> (written us q \<in> set us \<and> po_id (written us q) = po_id q)"
  by (auto simp: written_def find_Some_iff split: option.split)

lemma stored_rows_key:
  "stored_rows rows \<Longrightarrow> p \<in> set rows \<Longrightarrow> q \<in> set rows \<Longrightarrow> po_round_key p = Some key \<Longrightarrow> po_round_key q = Some key \<Longrightarrow> p = q"
  unfolding stored_rows_def by (metis option.distinct(1))

lemma map_filter_inj:
  assumes "distinct (List.map_filter f xs)" and "x \<in> set xs" and "y \<in> set xs" and "f x = Some p" and "f y = Some p"
  shows "x = y"
  using assms
proof (induction xs)
  case (Cons z xs)
  have "p \<in> set (List.map_filter f xs)" if "v \<in> set xs" "f v = Some p" for v using that by (auto simp: set_map_filter_Ex)
  with Cons show ?case by (auto simp: map_filter_simps split: option.splits)
qed simp

lemma pairs_same_row:
  assumes "distinct (map lr_round_key rounds)" and "(r, Some p) \<in> set (pairs inp rounds)" and "(r1, Some p) \<in> set (pairs inp rounds)"
  shows "r = r1"
  using map_filter_inj [OF pairs_rows [OF assms(1)] assms(2,3)] by simp

definition row_now :: "(i64 \<Rightarrow> int option) \<Rightarrow> (u8 \<Rightarrow> f64) \<Rightarrow> sync_inputs \<Rightarrow> ledger_round \<Rightarrow> position \<Rightarrow> position" where
  "row_now stamp pow10 inp r p = (if row_differs p (fresh_row stamp pow10 inp r p) then fresh_row stamp pow10 inp r p else p)"

lemma written_now:
  assumes "distinct (map lr_round_key rounds)" and "stored_rows (si_existing inp)"
    and "plan = plan_position_writes stamp pow10 inp rounds"
    and "\<forall>p \<in> set (si_existing inp). writable inp p" and "(r, Some p) \<in> set (pairs inp rounds)"
  shows "written (sp_updates plan) p = row_now stamp pow10 inp r p"
proof (cases "row_differs p (fresh_row stamp pow10 inp r p)")
  case True
  have "writable inp p" using pairs_row [OF assms(5)] assms(4) by simp
  with True assms(5) have "fresh_row stamp pow10 inp r p \<in> set (sp_updates plan)" unfolding assms(3) set_updates by blast
  from written_update [OF updates_ids [OF assms(1,2), of stamp pow10, folded assms(3)] this, of p] True show ?thesis by (simp add: row_now_def)
next
  case False
  have "written (sp_updates plan) p = p"
  proof (rule ccontr)
    assume "written (sp_updates plan) p \<noteq> p"
    with written_cases [of "sp_updates plan" p] have "written (sp_updates plan) p \<in> set (sp_updates plan)" by auto
    then obtain r1 p1 where p1: "(r1, Some p1) \<in> set (pairs inp rounds)" "row_differs p1 (fresh_row stamp pow10 inp r1 p1)"
      "written (sp_updates plan) p = fresh_row stamp pow10 inp r1 p1" unfolding assms(3) set_updates by blast
    have "po_id p1 = po_id p" using arg_cong [OF p1(3), of po_id] by (simp add: written_id)
    with stored_rows_id [OF assms(2) pairs_row [OF p1(1)] pairs_row [OF assms(5)]] have "p1 = p" by simp
    with pairs_same_row [OF assms(1,5)] p1(1,2) False show False by auto
  qed
  with False show ?thesis by (simp add: row_now_def)
qed

text \<open>A row with the key of a round is the round's row.\<close>

lemma row_of_key:
  assumes "distinct (map lr_round_key rounds)" and "stored_rows (si_existing inp)"
    and "plan = plan_position_writes stamp pow10 inp rounds" and "fresh_ids new_ids (sp_inserts plan) (si_existing inp)"
    and "\<forall>p \<in> set (si_existing inp). writable inp p" and "(r, c) \<in> set (pairs inp rounds)"
    and "q \<in> set (apply_plan new_ids plan (si_existing inp))" and "po_round_key q = Some (lr_round_key r)"
  shows "case c of None \<Rightarrow> q \<in> set (with_ids new_ids (sp_inserts plan)) | Some p \<Rightarrow> q = row_now stamp pow10 inp r p"
proof -
  from assms(7) consider "q \<in> set (with_ids new_ids (sp_inserts plan))"
    | p1 where "p1 \<in> set (si_existing inp)" "q = written (sp_updates plan) p1"
    unfolding rows_after [OF assms(1-4)] by blast
  then show ?thesis
  proof cases
    case 1
    then obtain n i where "n \<in> set (sp_inserts plan)" "q = n\<lparr>po_id := Some i\<rparr>" using with_ids_from by blast
    then obtain r1 where r1: "(r1, None) \<in> set (pairs inp rounds)" "q = (new_row stamp inp r1)\<lparr>po_id := Some i\<rparr>"
      unfolding assms(3) set_inserts by blast
    with assms(8) have "lr_round_key r1 = lr_round_key r" by simp
    with pairs_key [OF assms(1) r1(1) assms(6)] have "c = None" by simp
    with 1 show ?thesis by simp
  next
    case 2
    from written_cases [of "sp_updates plan" p1] consider "q \<in> set (sp_updates plan)" | "q = p1" unfolding 2(2) by blast
    then show ?thesis
    proof cases
      case 1
      then obtain r1 p2 where p2: "(r1, Some p2) \<in> set (pairs inp rounds)" "row_differs p2 (fresh_row stamp pow10 inp r1 p2)"
        "q = fresh_row stamp pow10 inp r1 p2" unfolding assms(3) set_updates by blast
      with assms(8) have "lr_round_key r1 = lr_round_key r" by simp
      with pairs_key [OF assms(1) p2(1) assms(6)] have "r1 = r" "c = Some p2" by simp_all
      with p2 show ?thesis by (simp add: row_now_def)
    next
      case same: 2
      from pairs_own [OF assms(6)] 2(1) same assms(8) obtain p where c: "c = Some p"
        by (cases c) (auto simp: own_row_def)
      have p: "p \<in> set (si_existing inp)" using pairs_row assms(6) c by simp
      have "po_round_key p = Some (lr_round_key r)"
        using pairs_own [OF assms(6)] c 2(1) same assms(8) by (auto simp: own_row_def)
      with stored_rows_key [OF assms(2) 2(1) p] same assms(8) have "q = p" by simp
      with written_now [OF assms(1,2,3,5), of r p] assms(6) c 2(2) same show ?thesis by simp
    qed
  qed
qed

text \<open>Every round has its row after the writes, and no other row has its key.\<close>

lemma row_after:
  assumes "distinct (map lr_round_key rounds)" and "stored_rows (si_existing inp)"
    and "plan = plan_position_writes stamp pow10 inp rounds" and "fresh_ids new_ids (sp_inserts plan) (si_existing inp)"
    and "\<forall>p \<in> set (si_existing inp). writable inp p" and "keyed_derived (si_existing inp)"
    and "(r, c) \<in> set (pairs inp rounds)"
  shows "\<exists>q. by_round_key (apply_plan new_ids plan (si_existing inp)) (lr_round_key r) = Some q
    \<and> (case c of None \<Rightarrow> \<exists>i. q = (new_row stamp inp r)\<lparr>po_id := Some i\<rparr> | Some p \<Rightarrow> q = row_now stamp pow10 inp r p)"
proof (cases c)
  case None
  then have n: "new_row stamp inp r \<in> set (sp_inserts plan)" using assms(7) unfolding assms(3) set_inserts by blast
  have len: "length new_ids = length (sp_inserts plan)" using assms(4) by (simp add: fresh_ids_def)
  from with_ids_to [OF this n] obtain i where i: "(new_row stamp inp r)\<lparr>po_id := Some i\<rparr> \<in> set (with_ids new_ids (sp_inserts plan))" ..
  have "by_round_key (apply_plan new_ids plan (si_existing inp)) (lr_round_key r) = Some ((new_row stamp inp r)\<lparr>po_id := Some i\<rparr>)"
  proof (rule by_round_key_unique)
    show "(new_row stamp inp r)\<lparr>po_id := Some i\<rparr> \<in> set (apply_plan new_ids plan (si_existing inp))"
      unfolding rows_after [OF assms(1-4)] using i by simp
  next
    fix q assume q: "q \<in> set (apply_plan new_ids plan (si_existing inp))" "po_round_key q = Some (lr_round_key r)"
    from row_of_key [OF assms(1-5,7) q] None have "q \<in> set (with_ids new_ids (sp_inserts plan))" by simp
    from with_ids_same [OF write_keys(1) [OF assms(1), of stamp pow10 inp, folded assms(3)] len this i] q(2)
    show "q = (new_row stamp inp r)\<lparr>po_id := Some i\<rparr>" by simp
  qed simp
  with None show ?thesis by auto
next
  case (Some p)
  have p: "p \<in> set (si_existing inp)" using pairs_row assms(7) Some by simp
  have key: "po_round_key (row_now stamp pow10 inp r p) = Some (lr_round_key r)"
  proof (cases "row_differs p (fresh_row stamp pow10 inp r p)")
    case True
    then show ?thesis by (simp add: row_now_def)
  next
    case False
    have "po_round_key p = Some (lr_round_key r)"
    proof (cases "is_wallet_derived p")
      case True
      then show ?thesis using assms(6) p pairs_own [OF assms(7)] Some by (auto simp: keyed_derived_def own_row_def)
    next
      case owned: False
      with False have "po_round_key p = po_round_key (fresh_row stamp pow10 inp r p)" by (simp add: row_differs_def differs_owned_def)
      then show ?thesis by simp
    qed
    with False show ?thesis by (simp add: row_now_def)
  qed
  have "by_round_key (apply_plan new_ids plan (si_existing inp)) (lr_round_key r) = Some (row_now stamp pow10 inp r p)"
  proof (rule by_round_key_unique [OF _ key])
    show "row_now stamp pow10 inp r p \<in> set (apply_plan new_ids plan (si_existing inp))"
      unfolding rows_after [OF assms(1-4)] using written_now [OF assms(1,2,3,5), of r p] assms(7) Some p by force
  qed (use row_of_key [OF assms(1-5,7)] Some in simp)
  with Some show ?thesis by simp
qed

text \<open>C27: A sync is idempotent. Once every write of a plan has landed, planning again from the same rounds and
  metadata, later and whatever the trader has booked or has in flight meanwhile, plans nothing: no row is created twice,
  the basis of a row the bot bought is not inflated, no time drifts. It needs rounds as the reduction gives them,
  rows with distinct identities and keys that the ledger may write, and amounts that are numbers.\<close>

theorem resync_plans_nothing:
  assumes "distinct (map lr_round_key rounds)" and "\<forall>r \<in> set rounds. closed_is_empty r"
    and "stored_rows (si_existing inp)" and "keyed_derived (si_existing inp)" and "\<forall>p \<in> set (si_existing inp). writable inp p"
    and "plan = plan_position_writes stamp pow10 inp rounds" and "fresh_ids new_ids (sp_inserts plan) (si_existing inp)"
    and "\<forall>p \<in> set (apply_plan new_ids plan (si_existing inp)). finite_money p"
    and "si_existing inp' = apply_plan new_ids plan (si_existing inp)" and "later_inputs inp inp'"
  shows "plan_is_empty (plan_position_writes stamp pow10 inp' rounds)"
proof (rule settled_plans_nothing)
  fix r assume r: "r \<in> set rounds"
  then obtain c where c: "(r, c) \<in> set (pairs inp rounds)" using pairs_total by blast
  from row_after [OF assms(1,3,6,7,5,4) c] obtain q where q: "by_round_key (si_existing inp') (lr_round_key r) = Some q"
    "case c of None \<Rightarrow> \<exists>i. q = (new_row stamp inp r)\<lparr>po_id := Some i\<rparr> | Some p \<Rightarrow> q = row_now stamp pow10 inp r p"
    unfolding assms(9) by blast
  have money: "finite_money q" using by_round_key_Some [OF q(1)] assms(8,9) by simp
  have closed: "closed_is_empty r" using assms(2) r by simp
  have "settled stamp pow10 inp' r q"
  proof (cases c)
    case None
    with q(2) obtain i where "q = (new_row stamp inp r)\<lparr>po_id := Some i\<rparr>" by auto
    with new_row_again [OF assms(10)] money show ?thesis by (simp add: settled_def row_differs_refl)
  next
    case (Some p)
    with q(2) have q': "q = row_now stamp pow10 inp r p" by simp
    show ?thesis
    proof (cases "row_differs p (fresh_row stamp pow10 inp r p)")
      case True
      with q' have "q = fresh_row stamp pow10 inp r p" by (simp add: row_now_def)
      with fresh_again [OF closed assms(10)] money show ?thesis by (simp add: settled_def row_differs_refl)
    next
      case False
      with q' have "q = p" by (simp add: row_now_def)
      with unchanged_settled [OF closed assms(10) False] money show ?thesis by simp
    qed
  qed
  with q(1) show "\<exists>q. by_round_key (si_existing inp') (lr_round_key r) = Some q \<and> settled stamp pow10 inp' r q" by blast
qed

definition next_inputs :: sync_inputs where
  "next_inputs = sample_inputs\<lparr>si_existing := apply_plan [2] (plan_position_writes Some decimals10 sample_inputs sample_rounds)
     (si_existing sample_inputs), si_busy_mints := {''B''}, si_now := 99\<rparr>"

lemma sample_finite: "\<forall>p \<in> set (si_existing next_inputs). finite_money p"
  by (simp add: next_inputs_def sample_plan) (simp add: apply_plan_def sample_wallet new_row_def build_position_def Let_def
      finite_money_def finite_f64_def finite_opt_def unwrap_or_def)

theorem resync_plans_nothing_witness:
  "si_existing next_inputs \<noteq> si_existing sample_inputs \<and> plan_is_empty (plan_position_writes Some decimals10 next_inputs sample_rounds)"
proof -
  have "plan_is_empty (plan_position_writes Some decimals10 next_inputs sample_rounds)"
  proof (rule resync_plans_nothing [OF sample_keys sample_closed sample_stored refl])
    show "fresh_ids [2] (sp_inserts (plan_position_writes Some decimals10 sample_inputs sample_rounds)) (si_existing sample_inputs)"
      unfolding sample_plan by (simp add: fresh_ids_def sample_wallet)
    show "si_existing next_inputs = apply_plan [2] (plan_position_writes Some decimals10 sample_inputs sample_rounds) (si_existing sample_inputs)"
      by (simp add: next_inputs_def)
    then show "\<forall>p \<in> set (apply_plan [2] (plan_position_writes Some decimals10 sample_inputs sample_rounds) (si_existing sample_inputs)). finite_money p"
      using sample_finite by simp
    show "later_inputs sample_inputs next_inputs" by (simp add: next_inputs_def later_inputs_def)
  qed
  then show ?thesis by (simp add: next_inputs_def sample_plan) (simp add: apply_plan_def sample_wallet)
qed

end
