(* ===== verification/Ledger_Ownership.thy ===== *)
theory Ledger_Ownership
  imports Ledger_Writes
begin

text \<open>
  What reconciling a row the bot owns (\<^verbatim>\<open>reconcile_owned_position\<close>, \<^verbatim>\<open>adopt_external_growth\<close>) leaves alone, and
  where the basis it books comes from.
\<close>

section \<open>The fields a reconciliation may change\<close>

text \<open>\<open>q\<close> with every field the chain owns set back to what \<open>p\<close> has.\<close>

definition chain_fields_of :: "position \<Rightarrow> position \<Rightarrow> position" where
  "chain_fields_of p q = q\<lparr>po_round_key := po_round_key p, po_holding_state := po_holding_state p,
     po_remaining_token_amount := po_remaining_token_amount p, po_token_amount := po_token_amount p,
     po_total_exited_amount := po_total_exited_amount p, po_dca_count := po_dca_count p,
     po_basis_complete := po_basis_complete p, po_history_complete := po_history_complete p,
     po_total_size_sol := po_total_size_sol p, po_average_entry_price := po_average_entry_price p,
     po_exit_time := po_exit_time p, po_exit_transaction_signature := po_exit_transaction_signature p,
     po_transaction_exit_verified := po_transaction_exit_verified p, po_closed_reason := po_closed_reason p,
     po_unrealized_pnl := po_unrealized_pnl p, po_unrealized_pnl_percent := po_unrealized_pnl_percent p,
     po_exit_price := po_exit_price p, po_effective_exit_price := po_effective_exit_price p,
     po_average_exit_price := po_average_exit_price p, po_sol_received := po_sol_received p,
     po_pnl := po_pnl p, po_pnl_percent := po_pnl_percent p\<rparr>"

definition same_basis :: "position \<Rightarrow> position \<Rightarrow> bool" where
  "same_basis p q \<longleftrightarrow> po_total_size_sol q = po_total_size_sol p \<and> po_average_entry_price q = po_average_entry_price p
     \<and> po_token_amount q = po_token_amount p \<and> po_dca_count q = po_dca_count p \<and> po_basis_complete q = po_basis_complete p"

definition same_exit :: "position \<Rightarrow> position \<Rightarrow> bool" where
  "same_exit p q \<longleftrightarrow> po_exit_time q = po_exit_time p \<and> po_exit_price q = po_exit_price p \<and> po_sol_received q = po_sol_received p
     \<and> po_pnl q = po_pnl p \<and> po_closed_reason q = po_closed_reason p \<and> po_exit_transaction_signature q = po_exit_transaction_signature p"

definition grew :: "position \<Rightarrow> ledger_round \<Rightarrow> bool" where
  "grew p r \<longleftrightarrow> unwrap_or (po_remaining_token_amount p) 0 < clamp_raw (lr_balance_raw r) \<and> lr_history_complete r"

definition only_chain_fields :: "position \<Rightarrow> position \<Rightarrow> bool" where
  "only_chain_fields p q \<longleftrightarrow> chain_fields_of p q = p"

lemma only_chain_fields_updates:
  "only_chain_fields p q \<Longrightarrow> only_chain_fields p (q\<lparr>po_round_key := a0\<rparr>)"
  "only_chain_fields p q \<Longrightarrow> only_chain_fields p (q\<lparr>po_holding_state := a1\<rparr>)"
  "only_chain_fields p q \<Longrightarrow> only_chain_fields p (q\<lparr>po_remaining_token_amount := a2\<rparr>)"
  "only_chain_fields p q \<Longrightarrow> only_chain_fields p (q\<lparr>po_token_amount := a3\<rparr>)"
  "only_chain_fields p q \<Longrightarrow> only_chain_fields p (q\<lparr>po_total_exited_amount := a4\<rparr>)"
  "only_chain_fields p q \<Longrightarrow> only_chain_fields p (q\<lparr>po_dca_count := a5\<rparr>)"
  "only_chain_fields p q \<Longrightarrow> only_chain_fields p (q\<lparr>po_basis_complete := a6\<rparr>)"
  "only_chain_fields p q \<Longrightarrow> only_chain_fields p (q\<lparr>po_history_complete := a7\<rparr>)"
  "only_chain_fields p q \<Longrightarrow> only_chain_fields p (q\<lparr>po_total_size_sol := a8\<rparr>)"
  "only_chain_fields p q \<Longrightarrow> only_chain_fields p (q\<lparr>po_average_entry_price := a9\<rparr>)"
  "only_chain_fields p q \<Longrightarrow> only_chain_fields p (q\<lparr>po_exit_time := a10\<rparr>)"
  "only_chain_fields p q \<Longrightarrow> only_chain_fields p (q\<lparr>po_exit_transaction_signature := a11\<rparr>)"
  "only_chain_fields p q \<Longrightarrow> only_chain_fields p (q\<lparr>po_transaction_exit_verified := a12\<rparr>)"
  "only_chain_fields p q \<Longrightarrow> only_chain_fields p (q\<lparr>po_closed_reason := a13\<rparr>)"
  "only_chain_fields p q \<Longrightarrow> only_chain_fields p (q\<lparr>po_unrealized_pnl := a14\<rparr>)"
  "only_chain_fields p q \<Longrightarrow> only_chain_fields p (q\<lparr>po_unrealized_pnl_percent := a15\<rparr>)"
  "only_chain_fields p q \<Longrightarrow> only_chain_fields p (q\<lparr>po_exit_price := a16\<rparr>)"
  "only_chain_fields p q \<Longrightarrow> only_chain_fields p (q\<lparr>po_effective_exit_price := a17\<rparr>)"
  "only_chain_fields p q \<Longrightarrow> only_chain_fields p (q\<lparr>po_average_exit_price := a18\<rparr>)"
  "only_chain_fields p q \<Longrightarrow> only_chain_fields p (q\<lparr>po_sol_received := a19\<rparr>)"
  "only_chain_fields p q \<Longrightarrow> only_chain_fields p (q\<lparr>po_pnl := a20\<rparr>)"
  "only_chain_fields p q \<Longrightarrow> only_chain_fields p (q\<lparr>po_pnl_percent := a21\<rparr>)"
  by (simp_all add: only_chain_fields_def chain_fields_of_def)

text \<open>How a property of a position passes through the assignments of a function.\<close>

lemma position_flow:
  "K a \<Longrightarrow> (\<And>x. K x \<Longrightarrow> K (f x)) \<Longrightarrow> K (let x = a in f x)"
  "(\<And>y. y = b \<Longrightarrow> K (g y)) \<Longrightarrow> K (let y = b in g y)"
  "(c \<Longrightarrow> K u) \<Longrightarrow> (\<not> c \<Longrightarrow> K v) \<Longrightarrow> K (if c then u else v)"
  "(d = None \<Longrightarrow> K u) \<Longrightarrow> (\<And>z. d = Some z \<Longrightarrow> K (h z)) \<Longrightarrow> K (case d of None \<Rightarrow> u | Some z \<Rightarrow> h z)"
  "(\<And>x y. e = (x, y) \<Longrightarrow> K (k x y)) \<Longrightarrow> K (case e of (x, y) \<Rightarrow> k x y)"
  for K :: "position \<Rightarrow> bool" and d :: "'d option"
  by (simp_all add: Let_def split: option.split prod.split)

lemma growth_keeps: "only_chain_fields p q \<Longrightarrow> only_chain_fields p (adopt_external_growth pow10 q p r legs)"
  unfolding adopt_external_growth_def
  by (intro position_flow(1) [of "only_chain_fields p"] position_flow(2-5) [of _ "only_chain_fields p"] only_chain_fields_updates)


lemma reconcile_keeps: "only_chain_fields p (reconcile_owned_position stamp pow10 p r meta legs now)"
  unfolding reconcile_owned_position_def
  by (intro position_flow(1) [of "only_chain_fields p"] position_flow(2-5) [of _ "only_chain_fields p"] only_chain_fields_updates
      growth_keeps) (simp_all add: only_chain_fields_def chain_fields_of_def)

lemma basis_updates:
  "same_basis p q \<Longrightarrow> same_basis p (q\<lparr>po_round_key := a0\<rparr>)" "same_basis p q \<Longrightarrow> same_basis p (q\<lparr>po_holding_state := a1\<rparr>)"
  "same_basis p q \<Longrightarrow> same_basis p (q\<lparr>po_remaining_token_amount := a2\<rparr>)" "same_basis p q \<Longrightarrow> same_basis p (q\<lparr>po_total_exited_amount := a3\<rparr>)"
  "same_basis p q \<Longrightarrow> same_basis p (q\<lparr>po_exit_time := a4\<rparr>)" "same_basis p q \<Longrightarrow> same_basis p (q\<lparr>po_exit_transaction_signature := a5\<rparr>)"
  "same_basis p q \<Longrightarrow> same_basis p (q\<lparr>po_transaction_exit_verified := a6\<rparr>)" "same_basis p q \<Longrightarrow> same_basis p (q\<lparr>po_closed_reason := a7\<rparr>)"
  "same_basis p q \<Longrightarrow> same_basis p (q\<lparr>po_unrealized_pnl := a8\<rparr>)" "same_basis p q \<Longrightarrow> same_basis p (q\<lparr>po_unrealized_pnl_percent := a9\<rparr>)"
  "same_basis p q \<Longrightarrow> same_basis p (q\<lparr>po_history_complete := b0\<rparr>)" "same_basis p q \<Longrightarrow> same_basis p (q\<lparr>po_exit_price := b1\<rparr>)"
  "same_basis p q \<Longrightarrow> same_basis p (q\<lparr>po_effective_exit_price := b2\<rparr>)" "same_basis p q \<Longrightarrow> same_basis p (q\<lparr>po_average_exit_price := b3\<rparr>)"
  "same_basis p q \<Longrightarrow> same_basis p (q\<lparr>po_sol_received := b4\<rparr>)" "same_basis p q \<Longrightarrow> same_basis p (q\<lparr>po_pnl := b5\<rparr>)"
  "same_basis p q \<Longrightarrow> same_basis p (q\<lparr>po_pnl_percent := b6\<rparr>)" "same_basis p p"
  by (simp_all add: same_basis_def)

lemma reconcile_basis:
  assumes "\<not> grew p r"
  shows "same_basis p (reconcile_owned_position stamp pow10 p r meta legs now)"
  unfolding reconcile_owned_position_def
  using assms by (intro position_flow(1) [of "same_basis p"] position_flow(2-5) [of _ "same_basis p"] basis_updates)
    (simp_all add: grew_def)

lemma reconcile_exit:
  assumes "lr_is_open r \<or> po_exit_time p \<noteq> None"
  shows "same_exit p (reconcile_owned_position stamp pow10 p r meta legs now)"
proof -
  have "same_exit p (adopt_external_growth pow10 q p r legs)" if "same_exit p q" for q
    using that by (simp add: adopt_external_growth_def Let_def case_prod_beta same_exit_def)
  with assms show ?thesis by (cases "lr_is_open r") (simp_all add: reconcile_owned_position_def Let_def, simp_all add: same_exit_def)
qed

text \<open>C29: The trader owns the rows it opened. Reconciling one with the chain changes only the listed chain fields: its
  provenance, ownership, entry, targets, live prices and archival are as they were. The basis moves only when a
  complete history shows more tokens than the row claims, and the exit only when the round closed under an open row.\<close>

theorem reconciliation_respects_ownership:
  "only_chain_fields p (reconcile_owned_position stamp pow10 p r meta legs now)
    \<and> (grew p r \<or> same_basis p (reconcile_owned_position stamp pow10 p r meta legs now))
    \<and> ((\<not> lr_is_open r \<and> po_exit_time p = None) \<or> same_exit p (reconcile_owned_position stamp pow10 p r meta legs now))"
  by (cases "grew p r"; cases "lr_is_open r"; cases "po_exit_time p"; simp add: reconcile_keeps reconcile_basis reconcile_exit)

section \<open>The basis of a grown position\<close>

text \<open>The cost of a position the user added to elsewhere is the cost of the trades the bot booked plus the cost of
  the purchases in the round it did not book, whatever the row said before: recomputed, not accumulated.\<close>

theorem grown_basis_is_booked_plus_external:
  assumes "grew p r" and "lr_basis_complete r" and "legs = Some l" and "tl_entry_signatures l \<noteq> {}"
  shows "po_total_size_sol (reconcile_owned_position stamp pow10 p r meta legs now)
    = f64_add (tl_booked_invested_sol l) (external_sol (tl_entry_signatures l) (lr_events r))"
proof -
  have "po_total_size_sol (adopt_external_growth pow10 q p r legs)
      = f64_add (tl_booked_invested_sol l) (external_sol (tl_entry_signatures l) (lr_events r))" for q
    using assms(2-4) by (simp add: adopt_external_growth_def Let_def)
  with assms(1) show ?thesis
    by (simp add: reconcile_owned_position_def Let_def grew_def split: option.split)
qed

definition purchase :: "string \<Rightarrow> event_kind \<Rightarrow> ledger_event" where
  "purchase signature kind = \<lparr>le_signature = signature, le_slot = None, le_block_time = None, le_kind = kind,
     le_amount = Finite 7, le_balance_after = Finite 7, le_quote = Some \<lparr>ql_asset = Sol, ql_amount = Finite 1\<rparr>,
     le_price_sol = None, le_venue = None\<rparr>"

definition bought_round :: "u128 \<Rightarrow> ledger_event list \<Rightarrow> ledger_round" where
  "bought_round amount es = sample_round ''A'' ''s'' amount es"

lemma small_floats: "f64_of_rat 1 = Finite 1" "f64_of_rat 2 = Finite 2" "f64_of_rat 3 = Finite 3" "f64_of_rat 4 = Finite 4"
  using f64_exact [of 1] f64_exact [of 2] f64_exact [of 3] f64_exact [of 4] by simp_all

lemma bought_round_fields [simp]:
  "lr_balance_raw (bought_round n es) = n" "lr_history_complete (bought_round n es)" "lr_basis_complete (bought_round n es)"
  "lr_is_open (bought_round n es)" "lr_events (bought_round n es) = es" "lr_total_acquired_raw (bought_round n es) = n"
  "lr_decimals (bought_round n es) = 0"
  by (simp_all add: bought_round_def sample_round_def)

lemma held_fields [simp]:
  "po_remaining_token_amount (held_position i m sig n x) = Some n" "po_total_size_sol (held_position i m sig n x) = x"
  "po_entry_transaction_signature (held_position i m sig n x) = Some sig"
  by (simp_all add: held_position_def)

theorem grown_basis_is_booked_plus_external_witness:
  "po_total_size_sol (reconcile_owned_position Some decimals10 (held_position 1 ''A'' ''s'' 7 (Finite 9))
     (bought_round 14 [purchase ''s'' Entry, purchase ''x'' Add]) no_metadata
     (Some \<lparr>tl_entry_signatures = {''s''}, tl_booked_invested_sol = Finite 1\<rparr>) 0) = Finite 2"
  by (subst grown_basis_is_booked_plus_external [where l = "\<lparr>tl_entry_signatures = {''s''}, tl_booked_invested_sol = Finite 1\<rparr>"])
    (simp_all add: grew_def clamp_raw_def unwrap_or_def external_sol_def purchase_def map_filter_simps small_floats)

text \<open>Without the trader's legs (\<^verbatim>\<open>get_trader_swap_legs().await.unwrap_or_default()\<close> after a database error) the
  row's own total stands for what is booked, and that total already holds the first outside purchase when the
  second arrives: three purchases of one SOL each are booked at four.\<close>

theorem growth_without_legs_counts_twice:
  fixes es :: "ledger_event list"
  defines "es \<equiv> [purchase ''s'' Entry, purchase ''x'' Add]"
  defines "p \<equiv> reconcile_owned_position Some decimals10 (held_position 1 ''A'' ''s'' 7 (Finite 1)) (bought_round 14 es) no_metadata None 0"
  shows "po_total_size_sol p = Finite 2
    \<and> po_total_size_sol (reconcile_owned_position Some decimals10 p (bought_round 21 (es @ [purchase ''y'' Add])) no_metadata None 0) = Finite 4
    \<and> external_sol {} (es @ [purchase ''y'' Add]) = Finite 3"
proof -
  have total: "po_total_size_sol (reconcile_owned_position Some decimals10 q (bought_round n evs) no_metadata None 0)
      = f64_add (po_total_size_sol q) (external_sol (set_option (po_entry_transaction_signature q)) evs)"
    if "unwrap_or (po_remaining_token_amount q) 0 < clamp_raw n" for q n evs
    using that by (simp add: reconcile_owned_position_def Let_def adopt_external_growth_def)
  have p: "po_remaining_token_amount p = Some 14" "po_entry_transaction_signature p = Some ''s''"
    using reconcile_fields(4) [of "bought_round 14 es" Some decimals10 "held_position 1 ''A'' ''s'' 7 (Finite 1)" no_metadata None 0]
    by (simp_all add: p_def clamp_raw_def unwrap_or_def reconcile_owned_position_def Let_def adopt_external_growth_def)
  have one: "external_sol {''s''} es = Finite 1" "external_sol {''s''} (es @ [purchase ''y'' Add]) = Finite 2"
    "external_sol {} (es @ [purchase ''y'' Add]) = Finite 3"
    by (simp_all add: es_def external_sol_def purchase_def map_filter_simps small_floats)
  have "po_total_size_sol p = Finite 2"
    unfolding p_def by (subst total) (simp_all add: clamp_raw_def unwrap_or_def one small_floats)
  with p one total [of p 21] show ?thesis by (simp add: clamp_raw_def unwrap_or_def small_floats)
qed

end
