(* ===== verification/Position_Lifecycle.thy ===== *)
theory Position_Lifecycle
  imports Position_Tokens Ledger_Ownership
begin

text \<open>
  The properties of the life of a position: its tokens are conserved, its row follows memory and its index stays
  valid; and four histories in which the code does not do what it means to.
\<close>

section \<open>Tokens and rows\<close>

text \<open>C15: Under any sequence of transitions that does not verify the entry of the position anew, failed writes and repeated
  deliveries included, what the position holds and what it has sold add up, in \<^verbatim>\<open>u64\<close>, to what they were, plus what the
  additions to it bought, plus what its partial exits took beyond what was held when each was booked. So no
  exit, partial, full or written off, loses a token, and none invents one as long as a sale is of tokens that are held;
  what a larger sale takes is invented, since the subtraction saturates.\<close>

theorem tokens_are_conserved:
  assumes "distinct_ids b" and "fitting env i ts b" and "get_position_by_id i (bo_store b) = Some p"
    and "get_position_by_id i (bo_store (apply_all env ts b)) = Some q"
  shows "acquired_units q = acquired_units p + total_bought i ts + total_oversold env i ts b"
  using run_tokens [OF assms(1,2,4)] assms(3) by auto

definition sample_fills :: "(db_answers \<times> db_answers \<times> position_transition) list" where
  "sample_fills = [(all_well, all_well, PartialExitVerified 2 11 (Finite 1) (Finite 1) 5000 8 ''w'' (Finite 100)),
     (all_well, all_well, DcaVerified 2 5 (Finite 1) (Finite 1) 5000 8 ''u''),
     (no_update, all_well, ExitPermanentFailureSynthetic 2 9)]"

lemma sample_get_2: "get_position_by_id 2 (bo_store sample_bot) = Some (held_position 2 ''B'' ''t'' 9 (Finite 1))"
  by (simp add: sample_bot_def bot_of_def store_of_def get_position_by_id_def closing_position_def held_position_def)

lemma sample_ids: "distinct_ids sample_bot"
  by (simp add: distinct_ids_def sample_bot_def bot_of_def store_of_def closing_position_def held_position_def)

theorem tokens_are_conserved_witness:
  "\<exists>q. get_position_by_id 2 (bo_store (apply_all sample_env sample_fills sample_bot)) = Some q \<and> acquired_units q = 16"
proof -
  have fresh: "\<not> exit_record_exists ok 2 ''w'' (bo_store sample_bot)" for ok
    by (simp add: exit_record_exists_def has_exit_record_def sample_bot_def bot_of_def store_of_def)
  have "\<exists>q. get_position_by_id 2 (bo_store (apply_all sample_env sample_fills sample_bot)) = Some q"
    by (simp add: sample_fills_def apply_transition_def apply_step_def get_partial get_dca get_synthetic changed_def sample_get_2 fresh)
  then obtain q where q: "get_position_by_id 2 (bo_store (apply_all sample_env sample_fills sample_bot)) = Some q" ..
  have fit: "fitting sample_env 2 sample_fills sample_bot" by (simp add: sample_fills_def fits_def split: option.split)
  have "total_oversold sample_env 2 sample_fills sample_bot = 2"
    by (simp add: sample_fills_def units_oversold_def sample_get_2 fresh oversale_def held_position_def unwrap_or_def saturating_sub_def
        split: option.split)
  with tokens_are_conserved [OF sample_ids fit sample_get_2 q] q show ?thesis
    by (simp add: acquired_units_def held_position_def unwrap_or_def total_bought_def sample_fills_def units_bought_def)
qed

text \<open>C18: The database follows memory. Whenever a transition of a position reports that the database was updated, the row of
  the position is, in every column an update writes, the position in memory.\<close>

theorem updated_rows_mirror_memory:
  assumes "apply_transition env an an' t b = (Inr ef, c)" and "ef_db_updated ef" and "transition_position_id t = Some i"
  shows "\<exists>p row. get_position_by_id i (bo_store c) = Some p \<and> st_rows (bo_store c) i = Some row \<and> stored_row row p = row"
  using transition_mirrors [OF assms] by (simp add: mirrored_def)

theorem updated_rows_mirror_memory_witness:
  "\<exists>p row. get_position_by_id 1 (bo_store (snd (apply_transition sample_env all_well all_well (ExitFailedClearForRetry 1) sample_bot))) = Some p
    \<and> st_rows (bo_store (snd (apply_transition sample_env all_well all_well (ExitFailedClearForRetry 1) sample_bot))) 1 = Some row
    \<and> stored_row row p = row"
proof -
  have "fst (apply_transition sample_env all_well all_well (ExitFailedClearForRetry 1) sample_bot) = Inr (no_effects\<lparr>ef_db_updated := True\<rparr>)"
    by (simp add: apply_transition_def apply_step_def apply_exit_failed_clear_def with_refresh_def affects_wallet_balance_def
        persist_then_def update_position_def on_store_def remove_signature_from_index_def update_by_id_def update_position_state_by_id_def
        get_position_by_id_def sample_bot_def bot_of_def store_of_def closing_position_def held_position_def exit_cleared_def
        all_well_def)
  then have "apply_transition sample_env all_well all_well (ExitFailedClearForRetry 1) sample_bot
      = (Inr (no_effects\<lparr>ef_db_updated := True\<rparr>), snd (apply_transition sample_env all_well all_well (ExitFailedClearForRetry 1) sample_bot))"
    by (metis prod.collapse)
  from updated_rows_mirror_memory [OF this, of 1] show ?thesis by (simp add: transition_position_id_def)
qed

text \<open>C20: A fill whose row could not be written is booked twice. The transition fails after memory was changed, so the worker
  applies it again; the addition has no guard at all, and the guard of the partial exit is the record that is only
  written after the row. The second application books the same swap on top of the first.\<close>

theorem failed_fill_is_booked_twice:
  assumes "get_position_by_id i (bo_store b) = Some p" and "\<not> da_update an"
    and "first = (\<lambda>t. apply_step env an t b)" and "second = (\<lambda>t. get_position_by_id i (bo_store (snd (apply_step env retry t (snd (first t))))))"
  shows "fst (first (DcaVerified i units sol price fee time sig)) = Inl (TransitionFailed ''apply'' (po_mint p))
    \<and> second (DcaVerified i units sol price fee time sig) = Some (dca_of env units sol time (dca_of env units sol time p))
    \<and> (has_exit_record i sig (bo_store b)
       \<or> fst (first (PartialExitVerified i units sol price fee time sig percentage)) = Inl (TransitionFailed ''apply'' (po_mint p))
         \<and> second (PartialExitVerified i units sol price fee time sig percentage)
           = Some (after_partial env units sol price (after_partial env units sol price p)))"
proof -
  have p: "get_position_by_id i (bo_store (with_refresh t b)) = Some p" for t using assms(1) by simp
  have mint: "po_mint (dca_of env units sol time p) = po_mint p" by (simp add: dca_of_def dca_booked_def Let_def)
  have dca: "fst (first (DcaVerified i units sol price fee time sig)) = Inl (TransitionFailed ''apply'' (po_mint p))"
    "second (DcaVerified i units sol price fee time sig) = Some (dca_of env units sol time (dca_of env units sol time p))"
    using dca_fails [OF p assms(2)] assms(1) mint
    by (simp_all add: assms(3,4) apply_step_def get_dca changed_def flip: dca_of_def)
  show ?thesis
  proof (cases "has_exit_record i sig (bo_store b)")
    case False
    then have none: "\<not> has_exit_record i sig (bo_store (with_refresh t b))" for t by simp
    let ?t = "PartialExitVerified i units sol price fee time sig percentage"
    note fails = partial_fails [OF p assms(2) none, where env = env and units = units and sol = sol and price = price and
        fee = fee and time = time and percentage = percentage]
    have "st_exits (bo_store (snd (first ?t))) = st_exits (bo_store b)"
      using fails(2) by (simp add: assms(3) apply_step_def)
    then have "\<not> has_exit_record i sig (bo_store (with_refresh ?t (snd (first ?t))))"
      using False by (simp add: has_exit_record_def)
    moreover have "get_position_by_id i (bo_store (snd (first ?t))) = Some (after_partial env units sol price p)"
      using False assms(1) by (simp add: assms(3) apply_step_def get_partial exit_record_exists_def changed_def)
    ultimately have "second ?t = Some (after_partial env units sol price (after_partial env units sol price p))"
      by (simp add: assms(4)) (simp add: apply_step_def get_partial exit_record_exists_def changed_def)
    with dca fails(1) show ?thesis by (simp add: assms(3) apply_step_def)
  qed (use dca in simp)
qed

theorem failed_fill_is_booked_twice_witness:
  "get_position_by_id 2 (bo_store (snd (apply_step sample_env all_well (DcaVerified 2 5 (Finite 1) (Finite 1) 5000 8 ''u'')
       (snd (apply_step sample_env no_update (DcaVerified 2 5 (Finite 1) (Finite 1) 5000 8 ''u'') sample_bot)))))
     = Some (dca_of sample_env 5 (Finite 1) 8 (dca_of sample_env 5 (Finite 1) 8 (held_position 2 ''B'' ''t'' 9 (Finite 1))))"
proof -
  have "\<not> da_update no_update" by (simp add: no_update_def)
  from failed_fill_is_booked_twice [OF sample_get_2 this refl refl, where env = sample_env and retry = all_well]
  show ?thesis by simp
qed

section \<open>The index and the swaps in flight\<close>

text \<open>C22: The index from tokens to positions is valid at every moment: it knows every token there is a position for, and the
  position it names is one of that token. Adding, removing and every transition keep it so.\<close>

theorem mint_index_stays_valid:
  assumes "index_ok (bo_store b)"
  shows "index_ok (snd (add_position p (bo_store b))) \<and> index_ok (snd (remove_position mint (bo_store b)))
    \<and> index_ok (snd (remove_position_by_id i (bo_store b))) \<and> index_ok (bo_store (apply_all env ts b))"
proof -
  have "index_ok (snd (removed_from P (bo_store b)))" for P
    using index.remove [of b P] assms by simp
  moreover have "index_ok (snd (add_position p (bo_store b)))"
    using assms by (fastforce simp: add_position_def Let_def index_ok_def nth_append)
  moreover have "index_ok (bo_store (apply_all env ts b))" using index.sequence assms by blast
  ultimately show ?thesis by (simp add: remove_position_def remove_position_by_id_def)
qed

theorem mint_index_stays_valid_witness:
  "index_ok (bo_store (apply_all sample_env sample_fills sample_bot))"
proof -
  have "index_ok (bo_store sample_bot)"
    using rebuilt_index [where s = "store_of [] 3 {1, 2}" and ps = "[closing_position, held_position 2 ''B'' ''t'' 9 (Finite 1)]"
        and x = Map.empty and y = Map.empty]
    by (simp add: index_ok_def sample_bot_def bot_of_def store_of_def)
  from mint_index_stays_valid [OF this] show ?thesis by simp
qed

section \<open>Histories that go wrong\<close>

text \<open>The average entry price after an addition divides everything ever invested by the tokens still held, so a sale before
  it raises the average: 100 tokens at 1 SOL, 75 of them sold, 50 more at 1 SOL, and the average is 2 SOL. The stop
  loss and the other exits compare the price with it.\<close>

theorem addition_after_sale_doubles_the_average:
  fixes p :: position
  defines "p \<equiv> dca_booked (ae_pnl sample_env) 0 50 (Finite 50) 0
      (partial_booked 75 (Finite 75) (Finite 1) (held_position 1 ''A'' ''s'' 100 (Finite 100)))"
  shows "po_average_entry_price p = Finite 2 \<and> po_remaining_token_amount p = Some 75 \<and> po_total_size_sol p = Finite 150"
proof -
  have exact: "f64_of_rat 150 = Finite 150" "f64_of_rat 75 = Finite 75" "f64_of_rat 2 = Finite 2" "f64_of_rat 0 = Finite 0"
    using f64_exact [of 150] f64_exact [of 75] f64_exact [of 2] by (simp_all add: f64_of_rat_def round64_def Let_def)
  then show ?thesis
    by (simp add: p_def dca_booked_def partial_booked_def held_position_def Let_def saturating_sub_def ui_amount_def
        f64_of_u64_def sample_env_def zero_def f64_is_finite_def)
qed

text \<open>An orphaned entry is removed by its token: of a token held before, the first position in memory goes, the closed one,
  while the slot freed is that of the orphan, which stays.\<close>

theorem orphan_removal_takes_the_closed_position:
  fixes b :: bot
  defines "b \<equiv> bot_of (store_of [(held_position 1 ''A'' ''s'' 7 (Finite 2))\<lparr>po_exit_time := Some 3, po_transaction_exit_verified := True\<rparr>,
      held_position 2 ''A'' ''t'' 9 (Finite 1)] 0 {2})"
  shows "map po_id (st_positions (bo_store (snd (apply_transition sample_env all_well all_well (RemoveOrphanEntry 2) b)))) = [Some 2]
    \<and> st_slots (bo_store (snd (apply_transition sample_env all_well all_well (RemoveOrphanEntry 2) b))) = {}"
  by (simp add: b_def apply_transition_def apply_step_def with_refresh_def affects_wallet_balance_def apply_remove_orphan_def
      find_mint_by_position_id_def remove_position_def removed_from_def bot_of_def store_of_def held_position_def
      release_position_slot_def release_global_position_permit_def reset_priority_def sample_env_def call_def)

text \<open>A price is written to the first position of its token, open or not, and then the open one is stored: this transition
  never prices the open position of a token traded before.\<close>

theorem price_goes_to_the_closed_position:
  fixes b :: bot
  defines "b \<equiv> bot_of (store_of [(held_position 1 ''A'' ''s'' 7 (Finite 2))\<lparr>po_exit_time := Some 3, po_transaction_exit_verified := True\<rparr>,
      held_position 2 ''A'' ''t'' 9 (Finite 1)] 0 {2})"
  shows "map po_current_price (st_positions (bo_store (snd (apply_transition sample_env all_well all_well
      (UpdatePriceTracking ''A'' (Finite 5) None None) b)))) = [Some (Finite 5), None]"
  by (simp add: b_def apply_transition_def apply_step_def with_refresh_def affects_wallet_balance_def apply_price_tracking_def
      update_position_state_def get_position_by_mint_def is_position_open_def update_position_price_fields_def price_tracked_def
      bot_of_def store_of_def held_position_def Let_def all_well_def)

end
