(* ===== verification/Position_Flights.thy ===== *)
theory Position_Flights
  imports Position_Closes
begin

text \<open>
  The swaps in flight across a restart. A registry in memory is an association list under the signatures, its stored
  form a JSON list; \<open>stored_registry\<close> is what the two registries of \<^verbatim>\<open>positions/state_pending.rs\<close> share, and both
  interpret it.
\<close>

section \<open>A registry and what is stored of it\<close>

definition keyed_by :: "('a \<Rightarrow> string) \<Rightarrow> (string \<times> 'a) list \<Rightarrow> bool" where
  "keyed_by key m \<longleftrightarrow> distinct (map fst m) \<and> (\<forall>(k, entry) \<in> set m. k = key entry)"

definition written :: "('a \<Rightarrow> stored_json) \<Rightarrow> (string \<times> 'a) list \<Rightarrow> stored_text option" where
  "written encode m = Some (Spells (JsonList (map (encode \<circ> snd) m)))"

text \<open>The stored text is that of the registry \<open>m\<close>, whose entries all read back; nothing stored is no entry.\<close>

definition registry_stored :: "('a \<Rightarrow> string) \<Rightarrow> ('a \<Rightarrow> stored_json) \<Rightarrow> ('a \<Rightarrow> bool) \<Rightarrow> stored_text option \<Rightarrow> (string \<times> 'a) list \<Rightarrow> bool" where
  "registry_stored key encode storable saved m \<longleftrightarrow> keyed_by key m \<and> (\<forall>(k, entry) \<in> set m. storable entry)
     \<and> (saved = written encode m \<or> saved = None \<and> m = [])"

text \<open>Everything in the registry is stored; a write that failed may have left more there.\<close>

definition registry_recoverable :: "('a \<Rightarrow> string) \<Rightarrow> ('a \<Rightarrow> stored_json) \<Rightarrow> ('a \<Rightarrow> bool) \<Rightarrow> stored_text option \<Rightarrow> (string \<times> 'a) list \<Rightarrow> bool" where
  "registry_recoverable key encode storable saved m \<longleftrightarrow> keyed_by key m
     \<and> (\<exists>l. registry_stored key encode storable saved l \<and> map_of m \<subseteq>\<^sub>m map_of l)"

lemma rebuilt_alist:
  "keyed_by key (pre @ m) \<Longrightarrow> fold (\<lambda>entry. AList.update (key entry) entry) (map snd m) pre = pre @ m"
proof (induction m arbitrary: pre)
  case (Cons e m)
  obtain k entry where e: "e = (k, entry)" by (cases e)
  have new: "AList.update k entry pre = pre @ [(k, entry)]" if "k \<notin> fst ` set pre" for k pre
    using that by (induction pre) auto
  have "k = key entry" "k \<notin> fst ` set pre" using Cons.prems by (auto simp: keyed_by_def e)
  with new have "AList.update (key entry) entry pre = pre @ [e]" by (simp add: e)
  with Cons.IH [of "pre @ [e]"] Cons.prems show ?case by (simp add: e)
qed simp

lemma keyed_update: "keyed_by key m \<Longrightarrow> keyed_by key (AList.update (key entry) entry m)"
proof -
  assume m: "keyed_by key m"
  have "\<forall>(k, e) \<in> set (AList.update (key entry) entry m). k = key e"
    using m unfolding keyed_by_def by (induction m) auto
  with m show ?thesis by (simp add: keyed_by_def distinct_update)
qed

lemma keyed_delete: "keyed_by key m \<Longrightarrow> keyed_by key (AList.delete k m)"
  by (auto simp: keyed_by_def distinct_delete) (auto simp: AList.delete_eq)

lemma keyed_filter: "keyed_by key m \<Longrightarrow> keyed_by key (filter P m)"
  by (auto simp: keyed_by_def distinct_map_filter)

lemma updated_entry: "(k, e) \<in> set (AList.update key entry m) \<Longrightarrow> (k, e) \<in> set m \<or> e = entry"
  by (induction m) (auto split: if_splits)

lemma filter_below: "distinct (map fst m) \<Longrightarrow> map_of (filter P m) \<subseteq>\<^sub>m map_of m"
  by (auto simp: map_le_def distinct_map_filter dest!: map_of_SomeD)

lemma delete_below: "map_of (AList.delete k m) \<subseteq>\<^sub>m map_of m"
  by (auto simp: map_le_def delete_conv')

text \<open>What a registry relies on: an entry that can be stored reads back, under the same key.\<close>

locale stored_registry =
  fixes key :: "'a \<Rightarrow> string" and encode :: "'a \<Rightarrow> stored_json" and decode :: "stored_json \<Rightarrow> 'a option"
    and reread :: "'a \<Rightarrow> 'a" and storable :: "'a \<Rightarrow> bool"
  assumes read_written: "storable a \<Longrightarrow> decode (encode a) = Some (reread a)"
    and key_reread: "key (reread a) = key a"
begin

abbreviation stored where "stored \<equiv> registry_stored key encode storable"
abbreviation recoverable where "recoverable \<equiv> registry_recoverable key encode storable"

lemma reads_back:
  assumes "stored saved m"
  obtains entries where "list_of_payload decode saved = Some entries"
    and "fold (\<lambda>entry. AList.update (key entry) entry) entries [] = map (\<lambda>(k, entry). (k, reread entry)) m"
    and "set entries = reread ` snd ` set m"
proof -
  have rebuilt: "fold (\<lambda>entry. AList.update (key entry) entry) (map (reread \<circ> snd) m) [] = map (\<lambda>(k, entry). (k, reread entry)) m"
    using rebuilt_alist [of key "[]" "map (\<lambda>(k, entry). (k, reread entry)) m"] assms
    by (auto simp: registry_stored_def keyed_by_def key_reread comp_def split_def)
  have "those (map (decode \<circ> (encode \<circ> snd)) m) = Some (map (reread \<circ> snd) m)"
    unfolding comp_assoc [symmetric] using assms by (intro those_written) (auto simp: registry_stored_def read_written)
  then have "list_of_payload decode saved = Some (map (reread \<circ> snd) m)"
    using assms by (auto simp: registry_stored_def written_def)
  with rebuilt show ?thesis by (intro that [of "map (reread \<circ> snd) m"]) (simp_all add: image_comp)
qed

lemma stored_recoverable: "stored saved m \<Longrightarrow> recoverable saved m"
  by (auto simp: registry_recoverable_def registry_stored_def)

lemma recoverable_entries:
  assumes "recoverable saved m" and "(k, entry) \<in> set m"
  shows "storable entry"
proof -
  obtain l where l: "stored saved l" "map_of m \<subseteq>\<^sub>m map_of l" using assms(1) by (auto simp: registry_recoverable_def)
  have "map_of m k = Some entry" using assms by (auto simp: registry_recoverable_def keyed_by_def)
  with l(2) have "map_of l k = Some entry" by (auto simp: map_le_def dom_def)
  with l(1) show ?thesis by (auto simp: registry_stored_def dest: map_of_SomeD)
qed

lemma recoverable_keyed: "recoverable saved m \<Longrightarrow> keyed_by key m"
  by (simp add: registry_recoverable_def)

lemma stored_written: "keyed_by key m \<Longrightarrow> (\<And>k entry. (k, entry) \<in> set m \<Longrightarrow> storable entry) \<Longrightarrow> stored (written encode m) m"
  by (auto simp: registry_stored_def)

lemma registered:
  assumes "recoverable saved m" and "storable entry"
  shows "stored (written encode (AList.update (key entry) entry m)) (AList.update (key entry) entry m)"
proof (rule stored_written)
  show "storable e" if "(k, e) \<in> set (AList.update (key entry) entry m)" for k e
    using updated_entry [OF that] recoverable_entries [OF assms(1)] assms(2) by auto
qed (use assms in \<open>auto intro: keyed_update recoverable_keyed\<close>)

lemma shrunk:
  assumes "recoverable saved m" and "keyed_by key m'" and "map_of m' \<subseteq>\<^sub>m map_of m"
  shows "recoverable saved m'"
  using assms map_le_trans by (auto simp: registry_recoverable_def)

lemma cleared:
  assumes "recoverable saved m" and "keyed_by key m'" and "map_of m' \<subseteq>\<^sub>m map_of m"
  shows "stored (written encode m') m'"
  by (rule stored_written [OF assms(2)]) (rule recoverable_entries [OF shrunk [OF assms]])

end

section \<open>The two registries\<close>

text \<open>The float an entry carries after a restart, when its decimal is in range.\<close>

definition reread_f64 :: "(rat \<Rightarrow> f64 option) \<Rightarrow> f64 \<Rightarrow> f64" where
  "reread_f64 read_f64 x = (case x of Finite q \<Rightarrow> (case read_f64 q of Some y \<Rightarrow> y | None \<Rightarrow> x) | _ \<Rightarrow> x)"

definition f64_reads_back :: "(rat \<Rightarrow> f64 option) \<Rightarrow> f64 \<Rightarrow> bool" where
  "f64_reads_back read_f64 x \<longleftrightarrow> (case x of Finite q \<Rightarrow> read_f64 q \<noteq> None | _ \<Rightarrow> False)"

definition is_i64 :: "int \<Rightarrow> bool" where
  "is_i64 n \<longleftrightarrow> - (2 ^ 63) \<le> n \<and> n < 2 ^ 63"

definition dca_storable :: "(rat \<Rightarrow> f64 option) \<Rightarrow> pending_dca_swap \<Rightarrow> bool" where
  "dca_storable read_f64 entry \<longleftrightarrow> is_i64 (pd_position_id entry) \<and> f64_reads_back read_f64 (pd_size_sol entry)"

definition partial_storable :: "(rat \<Rightarrow> f64 option) \<Rightarrow> pending_partial_exit \<Rightarrow> bool" where
  "partial_storable read_f64 entry \<longleftrightarrow>
     is_i64 (pp_position_id entry) \<and> f64_reads_back read_f64 (pp_requested_exit_percentage entry)"

definition dca_reread :: "(rat \<Rightarrow> f64 option) \<Rightarrow> pending_dca_swap \<Rightarrow> pending_dca_swap" where
  "dca_reread read_f64 entry = entry\<lparr>pd_size_sol := reread_f64 read_f64 (pd_size_sol entry)\<rparr>"

definition partial_reread :: "(rat \<Rightarrow> f64 option) \<Rightarrow> pending_partial_exit \<Rightarrow> pending_partial_exit" where
  "partial_reread read_f64 entry =
     entry\<lparr>pp_requested_exit_percentage := reread_f64 read_f64 (pp_requested_exit_percentage entry)\<rparr>"

lemma float_written: "f64_reads_back read_f64 x \<Longrightarrow> read_float read_f64 (json_of_f64 x) = Some (reread_f64 read_f64 x)"
  by (cases x) (auto simp: f64_reads_back_def reread_f64_def)

lemma dca_read_written: "dca_storable read_f64 entry \<Longrightarrow> dca_of_json read_f64 (json_of_dca entry) = Some (dca_reread read_f64 entry)"
  by (cases entry) (simp add: dca_of_json_def json_of_dca_def dca_storable_def is_i64_def field_required_def field_or_def
      float_written dca_reread_def)

lemma partial_read_written:
  "partial_storable read_f64 entry \<Longrightarrow> partial_of_json read_f64 (json_of_partial entry) = Some (partial_reread read_f64 entry)"
  by (cases entry) (simp add: partial_of_json_def json_of_partial_def partial_storable_def is_i64_def field_required_def field_or_def
      float_written partial_reread_def)

interpretation dcas: stored_registry pd_signature json_of_dca "dca_of_json read_f64" "dca_reread read_f64" "dca_storable read_f64"
  for read_f64 by unfold_locales (simp_all add: dca_read_written dca_reread_def)

interpretation partials: stored_registry pp_signature json_of_partial "partial_of_json read_f64" "partial_reread read_f64"
    "partial_storable read_f64"
  for read_f64 by unfold_locales (simp_all add: partial_read_written partial_reread_def)

section \<open>A run of the registries\<close>

datatype flight_step =
    RegisterDca bool pending_dca_swap
  | ClearDca bool string
  | RegisterPartial bool pending_partial_exit
  | ClearPartial bool string
  | ClearPartialsFor bool string
  | MarkPartial string
  | UnmarkPartial string

fun take_flight_step :: "flight_step \<Rightarrow> position_store \<Rightarrow> position_store" where
  "take_flight_step (RegisterDca ok entry) s = snd (register_pending_dca_swap ok entry s)"
| "take_flight_step (ClearDca ok signature) s = snd (clear_pending_dca_swap ok signature s)"
| "take_flight_step (RegisterPartial ok entry) s = snd (register_pending_partial_exit ok entry s)"
| "take_flight_step (ClearPartial ok signature) s = snd (clear_pending_partial_exit ok signature s)"
| "take_flight_step (ClearPartialsFor ok mint) s = snd (clear_pending_partial_exits_for_mint ok mint s)"
| "take_flight_step (MarkPartial mint) s = mark_partial_exit_pending mint s"
| "take_flight_step (UnmarkPartial mint) s = clear_partial_exit_pending mint s"

fun step_storable :: "(rat \<Rightarrow> f64 option) \<Rightarrow> flight_step \<Rightarrow> bool" where
  "step_storable read_f64 (RegisterDca ok entry) \<longleftrightarrow> dca_storable read_f64 entry"
| "step_storable read_f64 (RegisterPartial ok entry) \<longleftrightarrow> partial_storable read_f64 entry"
| "step_storable read_f64 _ \<longleftrightarrow> True"

fun step_lands :: "flight_step \<Rightarrow> bool" where
  "step_lands (RegisterDca ok _) \<longleftrightarrow> ok"
| "step_lands (ClearDca ok _) \<longleftrightarrow> ok"
| "step_lands (RegisterPartial ok _) \<longleftrightarrow> ok"
| "step_lands (ClearPartial ok _) \<longleftrightarrow> ok"
| "step_lands (ClearPartialsFor ok _) \<longleftrightarrow> ok"
| "step_lands _ \<longleftrightarrow> True"

lemmas flight_defs = register_pending_dca_swap_def clear_pending_dca_swap_def register_pending_partial_exit_def
  clear_pending_partial_exit_def clear_pending_partial_exits_for_mint_def mark_partial_exit_pending_def
  clear_partial_exit_pending_def persist_pending_dca_swaps_def persist_pending_partial_exits_def Let_def

definition flights_in_step :: "(rat \<Rightarrow> f64 option) \<Rightarrow> position_store \<Rightarrow> bool" where
  "flights_in_step read_f64 s \<longleftrightarrow> dcas.stored read_f64 (st_saved_dcas s) (st_dcas s)
     \<and> partials.stored read_f64 (st_saved_partials s) (st_partials s)"

definition flights_recoverable :: "(rat \<Rightarrow> f64 option) \<Rightarrow> position_store \<Rightarrow> bool" where
  "flights_recoverable read_f64 s \<longleftrightarrow> dcas.recoverable read_f64 (st_saved_dcas s) (st_dcas s)
     \<and> partials.recoverable read_f64 (st_saved_partials s) (st_partials s)"

lemma keyed_distinct: "keyed_by key m \<Longrightarrow> distinct (map fst m)"
  by (simp add: keyed_by_def)

lemma nothing_for_mint: "filter (\<lambda>(_, entry). pp_mint entry = mint) m = [] \<Longrightarrow> filter (\<lambda>(_, entry). pp_mint entry \<noteq> mint) m = m"
  by (auto simp: filter_empty_conv filter_id_conv)

lemma delete_updated: "AList.delete k (AList.update k v m) = AList.delete k m"
  by (induction m) auto

lemma restored_entry:
  assumes "keyed_by key m" and "map_of m k = Some entry"
  shows "map_of (AList.update (key entry) entry (AList.delete k m)) = map_of m"
    and "keyed_by key (AList.update (key entry) entry (AList.delete k m))"
proof -
  have "k = key entry" using assms by (auto simp: keyed_by_def dest: map_of_SomeD)
  then show "map_of (AList.update (key entry) entry (AList.delete k m)) = map_of m"
    using assms(2) by (auto simp: update_conv' delete_conv')
qed (use assms(1) in \<open>intro keyed_update keyed_delete\<close>)

context stored_registry
begin

text \<open>The four ways an operation leaves a registry and its stored form.\<close>

lemma after_register:
  "recoverable saved m \<Longrightarrow> storable entry \<Longrightarrow>
     recoverable (written encode (AList.update (key entry) entry m)) (AList.update (key entry) entry m)"
  by (rule stored_recoverable) (rule registered)

lemma after_failed_register: "recoverable saved m \<Longrightarrow> recoverable saved (AList.delete k m)"
  by (rule shrunk) (auto intro: keyed_delete recoverable_keyed delete_below)

lemma after_clear: "recoverable saved m \<Longrightarrow> recoverable (written encode (AList.delete k m)) (AList.delete k m)"
  by (rule stored_recoverable) (auto intro!: cleared keyed_delete delete_below dest: recoverable_keyed)

lemma after_failed_clear:
  "recoverable saved m \<Longrightarrow> map_of m k = Some entry \<Longrightarrow>
     recoverable saved (AList.update (key entry) entry (AList.delete k m))"
  by (rule shrunk [of saved m]) (simp_all add: restored_entry recoverable_keyed)

lemma after_failed_filter: "recoverable saved m \<Longrightarrow> recoverable saved (filter P m)"
  by (rule shrunk) (auto intro!: keyed_filter filter_below keyed_distinct dest: recoverable_keyed)

lemma after_filter: "recoverable saved m \<Longrightarrow> recoverable (written encode (filter P m)) (filter P m)"
  using after_failed_filter [of saved m P]
  by (intro stored_recoverable stored_written) (auto dest: recoverable_keyed recoverable_entries)

lemma stored_after_clear: "stored saved m \<Longrightarrow> stored (written encode (AList.delete k m)) (AList.delete k m)"
  by (rule cleared [OF stored_recoverable]) (auto simp: registry_stored_def intro: keyed_delete delete_below)

lemma stored_after_filter: "stored saved m \<Longrightarrow> stored (written encode (filter P m)) (filter P m)"
  by (rule cleared [OF stored_recoverable]) (auto simp: registry_stored_def intro!: keyed_filter filter_below keyed_distinct)

end

lemma step_recoverable:
  assumes "flights_recoverable read_f64 s" and "step_storable read_f64 a"
  shows "flights_recoverable read_f64 (take_flight_step a s)"
  using assms dcas.after_register partials.after_register dcas.after_failed_register partials.after_failed_register
    dcas.after_clear partials.after_clear dcas.after_failed_clear partials.after_failed_clear
    partials.after_filter partials.after_failed_filter
  by (cases a) (auto simp: flights_recoverable_def flight_defs delete_updated written_def split: option.split)

lemma step_in_step:
  assumes "flights_in_step read_f64 s" and "step_storable read_f64 a" and "step_lands a"
  shows "flights_in_step read_f64 (take_flight_step a s)"
  using assms
    dcas.registered [OF dcas.stored_recoverable] partials.registered [OF partials.stored_recoverable]
    dcas.stored_after_clear partials.stored_after_clear partials.stored_after_filter
  by (cases a) (auto simp: flights_in_step_def flight_defs written_def nothing_for_mint split: option.split)

lemma run_recoverable:
  "flights_recoverable read_f64 s \<Longrightarrow> list_all (step_storable read_f64) steps \<Longrightarrow>
     flights_recoverable read_f64 (fold take_flight_step steps s)"
  by (induction steps arbitrary: s) (simp_all add: step_recoverable)

lemma run_in_step:
  "flights_in_step read_f64 s \<Longrightarrow> list_all (step_storable read_f64) steps \<Longrightarrow> list_all step_lands steps \<Longrightarrow>
     flights_in_step read_f64 (fold take_flight_step steps s)"
  by (induction steps arbitrary: s) (simp_all add: step_in_step)

section \<open>The restart\<close>

lemma mark_pending:
  "is_partial_exit_pending m (mark_partial_exit_pending mint s) \<longleftrightarrow> m = mint \<or> is_partial_exit_pending m s"
proof -
  have "0 < saturating_add n (1 :: u32)" for n by (auto simp: saturating_add_def word_less_nat_alt unat_word_ariths unsigned_minus_1_eq_mask mask_eq_exp_minus_1)
  then show ?thesis by (auto simp: is_partial_exit_pending_def mark_partial_exit_pending_def)
qed

lemma marked_all: "is_partial_exit_pending m (fold (\<lambda>entry. mark_partial_exit_pending (pp_mint entry)) es s)
    \<longleftrightarrow> m \<in> pp_mint ` set es \<or> is_partial_exit_pending m s"
  by (induction es arbitrary: s) (auto simp: mark_pending)

lemma fold_mark_frame:
  "st_partials (fold (\<lambda>entry. mark_partial_exit_pending (pp_mint entry)) es s) = st_partials s"
  "st_dcas (fold (\<lambda>entry. mark_partial_exit_pending (pp_mint entry)) es s) = st_dcas s"
  by (induction es arbitrary: s) (simp_all add: mark_partial_exit_pending_def)

lemma map_of_reread: "map_of (map (\<lambda>(k, entry). (k, f entry)) m) = map_option f \<circ> map_of m"
  by (induction m) auto

text \<open>Memory when the process starts: no swap in flight, and no partial exit marked.\<close>

definition forget_flights :: "position_store \<Rightarrow> position_store" where
  "forget_flights s = s\<lparr>st_dcas := [], st_partials := [], st_partial_counts := Map.empty\<rparr>"

lemma nothing_pending: "st_partial_counts s = Map.empty \<Longrightarrow> \<not> is_partial_exit_pending mint s"
  by (simp add: is_partial_exit_pending_def)

lemma dcas_read_back:
  assumes "dcas.stored read_f64 (st_saved_dcas s) l"
  obtains entries where "rehydrate_pending_dca_swaps read_f64 True s =
    (Inr entries, s\<lparr>st_dcas := map (\<lambda>(k, entry). (k, dca_reread read_f64 entry)) l\<rparr>)"
  by (rule dcas.reads_back [OF assms], rule that) (simp add: rehydrate_pending_dca_swaps_def)

lemma partials_read_back:
  assumes "partials.stored read_f64 (st_saved_partials s) l"
  obtains entries w where "rehydrate_pending_partial_exits read_f64 True s = (Inr entries, w)"
    and "st_dcas w = st_dcas s" and "st_partials w = map (\<lambda>(k, entry). (k, partial_reread read_f64 entry)) l"
    and "\<And>mint. is_partial_exit_pending mint w \<longleftrightarrow> mint \<in> pp_mint ` snd ` set (st_partials w)"
proof -
  obtain entries where e: "list_of_payload (partial_of_json read_f64) (st_saved_partials s) = Some entries"
    "fold (\<lambda>entry. AList.update (pp_signature entry) entry) entries [] = map (\<lambda>(k, entry). (k, partial_reread read_f64 entry)) l"
    "set entries = partial_reread read_f64 ` snd ` set l"
    using partials.reads_back [OF assms] by blast
  show ?thesis
    by (rule that [of entries "snd (rehydrate_pending_partial_exits read_f64 True s)"])
      (auto simp: rehydrate_pending_partial_exits_def e fold_mark_frame marked_all nothing_pending image_image split_def)
qed

text \<open>C21: Swaps in flight survive a restart. Let memory and what is stored agree, as at the first start, and let any operations
  follow on the registries, whose writes may fail; each swap registered has a finite float whose decimal \<^verbatim>\<open>serde_json\<close>
  reads, and an id that is an \<open>i64\<close>. When the stored metadata can be read at the restart, both registries decode;
  every swap in memory before is back under its signature, unchanged but for its float, which is what its decimal reads
  as; and exactly the tokens of the partial exits read back refuse another. If no write failed, the registries are
  the ones that were in memory: no swap that was cleared returns.\<close>

theorem pending_swaps_survive_restart:
  assumes "flights_in_step read_f64 s" and "list_all (step_storable read_f64) steps"
    and "u = fold take_flight_step steps s"
  shows "\<exists>additions exits v w.
      rehydrate_pending_dca_swaps read_f64 True (forget_flights u) = (Inr additions, v)
    \<and> rehydrate_pending_partial_exits read_f64 True v = (Inr exits, w)
    \<and> (\<forall>signature entry. map_of (st_dcas u) signature = Some entry \<longrightarrow>
          map_of (st_dcas w) signature = Some (dca_reread read_f64 entry))
    \<and> (\<forall>signature entry. map_of (st_partials u) signature = Some entry \<longrightarrow>
          map_of (st_partials w) signature = Some (partial_reread read_f64 entry) \<and> is_partial_exit_pending (pp_mint entry) w)
    \<and> (\<forall>mint. is_partial_exit_pending mint w \<longleftrightarrow> mint \<in> pp_mint ` snd ` set (st_partials w))
    \<and> (list_all step_lands steps \<longrightarrow> map_of (st_dcas w) = map_option (dca_reread read_f64) \<circ> map_of (st_dcas u)
        \<and> map_of (st_partials w) = map_option (partial_reread read_f64) \<circ> map_of (st_partials u))"
proof -
  have rec: "flights_recoverable read_f64 u" unfolding assms(3)
    using assms(1,2) by (intro run_recoverable) (auto simp: flights_in_step_def flights_recoverable_def
        dcas.stored_recoverable partials.stored_recoverable)
  have land: "flights_in_step read_f64 u" if "list_all step_lands steps"
    unfolding assms(3) using assms(1,2) that by (rule run_in_step)
  obtain l where l: "dcas.stored read_f64 (st_saved_dcas u) l" "map_of (st_dcas u) \<subseteq>\<^sub>m map_of l"
      "list_all step_lands steps \<Longrightarrow> l = st_dcas u"
    using rec land map_le_refl by (cases "list_all step_lands steps")
      (auto simp: flights_recoverable_def flights_in_step_def registry_recoverable_def)
  obtain k where k: "partials.stored read_f64 (st_saved_partials u) k" "map_of (st_partials u) \<subseteq>\<^sub>m map_of k"
      "list_all step_lands steps \<Longrightarrow> k = st_partials u"
    using rec land map_le_refl by (cases "list_all step_lands steps")
      (auto simp: flights_recoverable_def flights_in_step_def registry_recoverable_def)
  have l': "dcas.stored read_f64 (st_saved_dcas (forget_flights u)) l" using l(1) by (simp add: forget_flights_def)
  obtain additions where v: "rehydrate_pending_dca_swaps read_f64 True (forget_flights u) = (Inr additions,
      (forget_flights u)\<lparr>st_dcas := map (\<lambda>(k, entry). (k, dca_reread read_f64 entry)) l\<rparr>)" (is "_ = (_, ?v)")
    by (rule dcas_read_back [OF l'])
  have k': "partials.stored read_f64 (st_saved_partials ?v) k" using k(1) by (simp add: forget_flights_def)
  obtain exits w where w: "rehydrate_pending_partial_exits read_f64 True ?v = (Inr exits, w)" "st_dcas w = st_dcas ?v"
      "st_partials w = map (\<lambda>(k, entry). (k, partial_reread read_f64 entry)) k"
      "\<And>mint. is_partial_exit_pending mint w \<longleftrightarrow> mint \<in> pp_mint ` snd ` set (st_partials w)"
    by (rule partials_read_back [OF k'], rule that)
  have kept: "map_of k signature = Some entry" if "map_of (st_partials u) signature = Some entry" for signature entry
    using that k(2) by (auto simp: map_le_def dom_def)
  have kept': "map_of l signature = Some entry" if "map_of (st_dcas u) signature = Some entry" for signature entry
    using that l(2) by (auto simp: map_le_def dom_def)
  have marked: "pp_mint entry \<in> pp_mint ` snd ` set (st_partials w)" if "map_of (st_partials u) signature = Some entry" for signature entry
    using map_of_SomeD [OF kept [OF that]] by (force simp: w(3) partial_reread_def image_image)
  have regs: "map_of (st_dcas w) = map_option (dca_reread read_f64) \<circ> map_of l"
      "map_of (st_partials w) = map_option (partial_reread read_f64) \<circ> map_of k"
    by (simp_all add: w(2,3) map_of_reread)
  show ?thesis
    by (intro exI conjI, rule v, rule w(1)) (use marked in \<open>auto simp: w(4) regs kept kept' l(3) k(3)\<close>)
qed

definition empty_store :: position_store where
  "empty_store = store_of [] 2 {}"

definition sample_partial :: pending_partial_exit where
  "sample_partial = \<lparr>pp_signature = ''x'', pp_mint = ''A'', pp_position_id = 1, pp_expected_exit_amount = 3,
     pp_requested_exit_percentage = Finite 40, pp_expiry_height = None, pp_created_at = 5\<rparr>"

definition sample_dca :: pending_dca_swap where
  "sample_dca = \<lparr>pd_signature = ''u'', pd_mint = ''B'', pd_position_id = 2, pd_expiry_height = None, pd_created_at = 6,
     pd_size_sol = Finite 1\<rparr>"

definition sample_flights :: "flight_step list" where
  "sample_flights = [RegisterDca True sample_dca, MarkPartial ''A'', RegisterPartial True sample_partial,
     RegisterPartial True (sample_partial\<lparr>pp_signature := ''y'', pp_mint := ''C''\<rparr>), ClearDca False ''u'',
     RegisterDca False (sample_dca\<lparr>pd_signature := ''v''\<rparr>), ClearPartialsFor True ''C'']"

theorem pending_swaps_survive_restart_witness:
  "\<exists>additions exits v w.
      rehydrate_pending_dca_swaps (\<lambda>q. Some (Finite q)) True (forget_flights (fold take_flight_step sample_flights empty_store))
        = (Inr additions, v)
    \<and> rehydrate_pending_partial_exits (\<lambda>q. Some (Finite q)) True v = (Inr exits, w)
    \<and> map_of (st_dcas w) ''u'' = Some sample_dca \<and> map_of (st_partials w) ''x'' = Some sample_partial
    \<and> is_partial_exit_pending ''A'' w"
proof -
  let ?read = "\<lambda>q. Some (Finite q)" and ?u = "fold take_flight_step sample_flights empty_store"
  have "flights_in_step ?read empty_store"
    by (simp add: flights_in_step_def registry_stored_def keyed_by_def empty_store_def store_of_def)
  moreover have "list_all (step_storable ?read) sample_flights"
    by (simp add: sample_flights_def sample_dca_def sample_partial_def dca_storable_def partial_storable_def is_i64_def f64_reads_back_def)
  moreover have "map_of (st_dcas ?u) ''u'' = Some sample_dca" "map_of (st_partials ?u) ''x'' = Some sample_partial"
    by (simp_all add: sample_flights_def flight_defs empty_store_def store_of_def sample_dca_def sample_partial_def)
  moreover have "dca_reread ?read sample_dca = sample_dca" "partial_reread ?read sample_partial = sample_partial" "pp_mint sample_partial = ''A''"
    by (simp_all add: dca_reread_def partial_reread_def reread_f64_def sample_dca_def sample_partial_def)
  ultimately show ?thesis using pending_swaps_survive_restart [of ?read empty_store sample_flights ?u] by metis
qed

text \<open>
  A float that is not finite is written as \<open>null\<close>, which is no \<^verbatim>\<open>f64\<close>: the write succeeds, and at the restart the whole
  registry fails to decode, the other swaps in it included.
\<close>

theorem non_finite_size_loses_the_registry:
  assumes "(signature, entry) \<in> set (st_dcas s)" and "\<not> f64_is_finite (pd_size_sol entry)"
  shows "rehydrate_pending_dca_swaps read_f64 True (forget_flights (snd (persist_pending_dca_swaps True s)))
    = (Inl (RowDecode ''pending_dca_metadata''), forget_flights (snd (persist_pending_dca_swaps True s)))"
proof -
  have "json_of_f64 (pd_size_sol entry) = JsonNull" using assms(2) by (cases "pd_size_sol entry") (simp_all add: f64_is_finite_def)
  then have "dca_of_json read_f64 (json_of_dca entry) = None"
    by (auto simp: dca_of_json_def json_of_dca_def field_required_def field_or_def split: bind_splits)
  moreover have "json_of_dca entry \<in> set (map (json_of_dca \<circ> snd) (st_dcas s))" using assms(1) by force
  ultimately have "those (map (dca_of_json read_f64) (map (json_of_dca \<circ> snd) (st_dcas s))) = None" by (intro unreadable_list)
  then show ?thesis
    by (simp add: rehydrate_pending_dca_swaps_def persist_pending_dca_swaps_def forget_flights_def)
qed

end
