(* ===== verification/Spec2Isabelle.thy ===== *)
theory Spec2Isabelle
  imports Swap_Ledger Swap_Execute Raydium_Cpmm Raydium_Amm_V4 Fluxbeam Raydium_Clmm Orca_Whirlpool
    Moonit Pumpfun_Amm Pumpfun_Legacy Meteora_Damm Meteora_Dbc Meteora_Dlmm Registry Cost_Guard Circuit_Breaker Position_Lifecycle Position_Flights
begin

text \<open>
  DripLine is a Solana trading bot. This development models its direct pool-swap engine
  (\<^verbatim>\<open>src/src/chains/solana/swaps/direct/\<close>, with \<^verbatim>\<open>revenue.rs\<close> and \<^verbatim>\<open>cost_guard.rs\<close> beside it), from the
  request to the settled transaction, through every venue; the circuit breaker of its RPC layer; the ledger
  that rebuilds positions from the history of the wallet (\<^verbatim>\<open>src/src/positions/ledger/\<close>); and the life of a
  position from the swap that opens it to the one that closes it (\<^verbatim>\<open>src/src/positions/\<close>).
  Paths below are relative to \<^verbatim>\<open>direct/\<close> unless they begin with another directory of \<^verbatim>\<open>src/src/\<close>.

  \<^bold>\<open>How a swap runs.\<close> \<^verbatim>\<open>mod.rs\<close> loads the pool account, dispatches on the program that owns it (Registry), lets the
  venue decode and load the rest, quotes (fees, curve, slippage floor), builds the instruction list, then
  checks balances, simulates, tightens the compute limit, sends once and polls until a verdict; a settled
  swap is measured from the transaction the node returns. The cost guard reads the inner instructions of
  the simulation in between and may refuse it.

  \<^bold>\<open>How positions follow.\<close> A verified swap becomes a transition; applying it changes the position in memory, then
  its row in the database, then the records, slots and registries that depend on it. Beside that the
  ledger reduces the transactions of the wallet to rounds (one per token from empty to empty), reconciles
  them with what the wallet holds and plans which rows to write; rows the trader opened keep its figures.

  \<^bold>\<open>Theories, bottom up.\<close>
  Prelude: checked, saturating and wrapping integers, results (\<open>error + 'a\<close>), byte lists.
  F64: binary64 as rounded rationals. Json: the replies of a node. Stored_Json: the JSON kept in the database, as
  \<^verbatim>\<open>serde_json\<close> writes and reads it.
  Layout (\<^verbatim>\<open>venues/layout.rs\<close>), Curve_Math (\<^verbatim>\<open>venues/math.rs\<close>), Double_Step (fair moves of a
  price, shared by two curves), Token2022 (\<^verbatim>\<open>venues/token2022.rs\<close>), Venue_Common (helpers the venues repeat).
  Sdk: constructors, addresses and decoders of the Solana crates, a record of parameters; Sample_Sdk is
  the concrete one the witnesses use.
  Swap_Error (\<^verbatim>\<open>error.rs\<close>), Pool_Market (\<^verbatim>\<open>intent.rs\<close>, \<^verbatim>\<open>venue.rs\<close>), Platform_Fee (\<^verbatim>\<open>fee.rs\<close>, \<^verbatim>\<open>quote.rs\<close>,
  \<^verbatim>\<open>../revenue.rs\<close>), Swap_Plan (\<^verbatim>\<open>compute.rs\<close>, \<^verbatim>\<open>accounts.rs\<close>, \<^verbatim>\<open>plan.rs\<close>), Swap_Ledger (the abstract
  specification of a plan), Swap_Execute (\<^verbatim>\<open>execute.rs\<close>), Swap_Verify (\<^verbatim>\<open>verify.rs\<close>).
  Venues, each a decoder, a loader, a quote and an instruction: Raydium_Cpmm, Raydium_Amm_V4, Fluxbeam,
  Clmm_Ticks, Clmm_Walk, Clmm_Arrays and Clmm_Venue (\<^verbatim>\<open>venues/clmm_ticks.rs\<close>), Raydium_Clmm, Orca_Whirlpool, Moonit,
  Pump_Fees with Pumpfun_Amm and Pumpfun_Legacy, Meteora_Damm, Meteora_Dbc, Meteora_Dlmm.
  Registry: the list of venues (\<^verbatim>\<open>venues/mod.rs\<close>) and the entry points of \<^verbatim>\<open>mod.rs\<close>.
  Cost_Guard (\<^verbatim>\<open>../cost_guard.rs\<close>). Circuit_Breaker (\<^verbatim>\<open>rpc/circuit_breaker/\<close>, and what \<^verbatim>\<open>rpc/manager.rs\<close>
  records of a request).
  Ledger, \<^verbatim>\<open>positions/ledger/\<close>: Wallet_Ledger (\<^verbatim>\<open>types.rs\<close>: movements, rounds, holdings), Ledger_Reducer (\<^verbatim>\<open>reducer.rs\<close>),
  Ledger_Laws (what every step of the reducer keeps), Ledger_Keys (identities of rounds), Wallet_Reconcile (the
  reconciliation with the wallet), Ledger_Rounds (properties), Ledger_Sync (\<^verbatim>\<open>sync.rs\<close>), Ledger_Plan and Ledger_Writes (what a plan
  writes), Ledger_Ownership (who owns which field of a row). Position_Sample: a concrete position.
  Positions, \<^verbatim>\<open>positions/\<close>: Position_Types (\<^verbatim>\<open>types.rs\<close>), Position_State (\<^verbatim>\<open>state.rs\<close>, \<^verbatim>\<open>state_pending.rs\<close> and the rows of
  \<^verbatim>\<open>database/\<close>), Position_Pnl (\<^verbatim>\<open>pnl.rs\<close>, loss detection and limit), Position_Apply (\<^verbatim>\<open>transitions.rs\<close>, \<^verbatim>\<open>apply.rs\<close>),
  Position_Laws (what a transition leaves alone), Position_Slots, Position_Closes, Position_Tokens, Position_Lifecycle
  and Position_Flights (properties; the last of the swaps in flight across a restart).

  \<^bold>\<open>How code becomes definitions.\<close> A struct is a record with a prefix per type, an enum a datatype with the code's
  constructors, a function a definition with the code's name. Integers are words of their width: \<open>+\<close> wraps
  as a release build does, \<open>checked_*\<close> is an option, \<open>saturating_*\<close> caps. Every error and early return is
  an \<open>Inl\<close>. A decoded pool is the record of its trait methods, so the engine is written once over it.
  What the code reads from the chain (accounts, slots, statuses, simulations) is an input: the records
  \<open>chain_view\<close> and the observations of Swap_Execute, one per pass of the settle loop, so that every timing
  of replies is some input. Money in floating point only labels quotes; where it matters it is F64.
  Likewise what the database answers each transition is the record \<open>db_answers\<close>, a sequence of transitions
  carries one per step, and calls that leave the positions (balance refresh, blacklist, price priority) are
  a list of outward requests. A lock is held for one operation, so an operation is one step. The order
  in which a hash map is visited, \<open>powi\<close>, the range of timestamps and the float \<^verbatim>\<open>serde_json\<close> reads from a stored
  decimal are parameters. Stored metadata is the JSON value its text spells, or a text that spells none.

  \<^bold>\<open>Interfaces.\<close> The locale \<open>market_laws\<close> is what the engine relies on of a decoded pool (sides, distinct
  mints, plan fields); \<open>fee_bounded_market\<close> adds that the pool fee is below the input. Each venue's theory interprets
  one of them on its own definitions (DLMM only the first: its output-side fee can exceed the input), and
  Registry concludes the whole contract for whatever \<open>load_market\<close> returns. The locale \<open>round_law\<close> is a property of
  a round that every movement keeps, lifted to the whole reduction; it is interpreted as \<open>balance\<close> (units add
  up) and \<open>priced\<close> (profit from prices that were seen). The locale \<open>bot_relation\<close> is a relation between the bot before
  and after that every primitive of the store keeps, lifted to every transition and sequence; it is
  interpreted as \<open>slots\<close> (permits), \<open>ids\<close> (identities) and \<open>index\<close> (the index of tokens). The locale \<open>stored_registry\<close> is
  a registry whose entries read back from the JSON they are stored as; it is interpreted as \<open>dcas\<close> and \<open>partials\<close>.

  \<^bold>\<open>Groups of lemmas.\<close> Arithmetic against exact integers; decoders against encodings; per venue, what a
  quote guarantees (reserve product kept, walk of fair legs, no free round trip) and the slots of the instruction;
  a plan against the abstract ledger; verdicts of the settle loop against what was observed; refusals and
  what they claim; the registry as a finite map; the breaker under interleaved tasks; rounds against the
  movements and the wallet they come from, whatever the order; a plan against the rows it writes, and planning
  again; transitions against tokens, slots, rows and records, with every write free to fail and to be retried.

  \<^bold>\<open>Loops.\<close> Walks over ticks, bins and segments recurse over the finite lists they consume. The search of
  Pump_Fees is \<open>while_option\<close>: None is a search that never returns, and it is proved exactly when that
  happens. The settle loop recurses over its passes; enough passes give a verdict (\<open>settle_terminates\<close>).
  The reducer folds over the sorted transactions and the planner over the rounds.

  \<^bold>\<open>Not modelled.\<close> Logging, caching and metrics; \<open>simulate_plan\<close>, an operator's check; the aggregator side of
  \<^verbatim>\<open>revenue.rs\<close>; cryptography and the SDK. Outside the engine: pool discovery and price decoders, the RPC
  transport, provider selection and token buckets, aggregator routers, the trader, strategies and filters, the
  web server and the user interfaces. Of the positions: the verifier that turns a transaction into a transition,
  its queue and worker, and the operations that open and close (they await the router, the network and
  the database between their steps), price updates, events and notifications, and the schema, migrations and queries
  of the database (SQL text; the rows and records the transitions write are modelled). Of the ledger: the queries
  around the planner and its debounced scheduling.
\<close>

section \<open>A swap end to end\<close>

text \<open>
  The properties below span the components: they follow a request from the quote through the
  plan to what the wallet holds afterwards, on any market, and are evaluated on a CP-Swap pool.
\<close>

definition sol_cpmm :: cpmm_market where
  "sol_cpmm = sample_cpmm\<lparr>cm_state := (cm_state sample_cpmm)\<lparr>cp_mint_0 := wsol_mint sample_sdk\<rparr>\<rparr>"

definition buy_intent :: direct_swap_intent where
  "buy_intent = \<lparr>intent_pool = Pubkey [3], intent_owner = Pubkey [9],
     intent_input_mint = wsol_mint sample_sdk, intent_output_mint = Pubkey [2],
     intent_amount_in = 1000000, intent_slippage_bps = 100\<rparr>"

lemma sample_mints:
  "wsol_mint sample_sdk \<noteq> Pubkey [2]" "usdc_mint sample_sdk \<noteq> Pubkey [2]"
  "usdc_mint sample_sdk \<noteq> wsol_mint sample_sdk"
  by (simp_all add: wsol_mint_def usdc_mint_def sample_sdk_def SOL_MINT_def USDC_MINT_def text_key_def)

lemma buy_facts:
  "wraps_native sample_sdk buy_intent" "\<not> unwraps_native sample_sdk buy_intent"
  "for_pair sample_sdk (intent_input_mint buy_intent) (intent_output_mint buy_intent) = InputSide"
  "validate sample_sdk buy_intent = Inr ()"
  "trades (cpmm_pool_market sample_sdk sol_cpmm) (intent_input_mint buy_intent) (intent_output_mint buy_intent)"
  using sample_mints
  by (auto simp: buy_intent_def wraps_native_def unwraps_native_def is_wsol_def for_pair_def
      is_reference_mint_def validate_def MAX_SLIPPAGE_BPS_def trades_def sol_cpmm_def sample_cpmm_def)

lemma buy_fields:
  "intent_amount_in buy_intent = 1000000" "intent_input_mint buy_intent = wsol_mint sample_sdk"
  "intent_output_mint buy_intent = Pubkey [2]" "intent_slippage_bps buy_intent = 100"
  by (simp_all add: buy_intent_def)

lemma buy_pool_amount: "pool_amount sample_sdk buy_intent = 995000"
proof -
  have "platform_fee_amount 1000000 = 5000"
    by (simp add: platform_fee_amount_def PLATFORM_FEE_BPS_def BPS_DENOMINATOR_def)
  then show ?thesis by (simp only: pool_amount_def buy_facts(3) buy_fields(1) if_True) simp
qed

lemma sol_cpmm_facts:
  "cpmm_is_side_0 sol_cpmm (wsol_mint sample_sdk) = Some True"
  "cpmm_reserves sol_cpmm = (1000000000, 5000000000)"
  "cpmm_transfer_fee sol_cpmm side = cpmm_transfer_fee sample_cpmm side"
  "cpmm_input_fee_rate sol_cpmm = 2500"
  by (simp_all add: sol_cpmm_def sample_cpmm_def cpmm_is_side_0_def side_of_def cpmm_reserves_def
      cpmm_transfer_fee_def cpmm_input_fee_rate_def saturating_sub_def Let_def)

lemma buy_gross: "cpmm_gross sol_cpmm True 995000 = 4957639"
proof -
  have "fee_amount 995000 2500 1000000 = 2488"
    by (simp add: fee_amount_def ceil_div_def div_ceil_def)
  then have "cpmm_swappable sol_cpmm True 995000 = 992512"
    by (simp add: cpmm_swappable_def sol_cpmm_facts sample_cpmm_facts FEE_RATE_DENOMINATOR_def
        saturating_sub_def)
  then show ?thesis
    by (simp add: cpmm_gross_def sol_cpmm_facts constant_product_out_def saturating_sub_def Let_def)
qed

lemma buy_venue_quote:
  "\<exists>vq. cpmm_quote sol_cpmm (wsol_mint sample_sdk) 995000 = Inr vq \<and> vq_expected_out vq = 4952639"
proof -
  have "is_ok (cpmm_quote sol_cpmm (wsol_mint sample_sdk) 995000)"
    by (simp add: cpmm_quote_def sol_cpmm_facts sample_cpmm_facts Let_def)
  then obtain vq where vq: "cpmm_quote sol_cpmm (wsol_mint sample_sdk) 995000 = Inr vq"
    by (auto simp: is_ok_iff)
  then have "vq_expected_out vq = net_of_fee (cpmm_transfer_fee sample_cpmm False) 4957639"
    by (rule cpmm_quote_Inr) (simp add: sol_cpmm_facts buy_gross)
  also have "\<dots> = 4952639"
    by (simp add: cpmm_transfer_fee_def sample_cpmm_def net_of_fee_def schedule_net_of_fee_def
        schedule_fee_on_def div_ceil_def saturating_sub_def)
  finally show ?thesis using vq by blast
qed

lemma buy_quote: "is_ok (quote_with_market sample_sdk buy_intent (cpmm_pool_market sample_sdk sol_cpmm))"
proof -
  have "min_out_after_slippage 4952639 100 \<noteq> 0"
    by (simp add: word_unat_eq_iff unat_min_out_after_slippage)
  with buy_venue_quote buy_facts(4,5) show ?thesis
    by (auto simp: quote_ok_iff buy_pool_amount buy_fields)
qed

lemma buy_plan_ok:
  assumes "quote_with_market sample_sdk buy_intent (cpmm_pool_market sample_sdk sol_cpmm) = Inr q"
  shows "is_ok (build_plan sample_sdk 50000 buy_intent (cpmm_pool_market sample_sdk sol_cpmm) q)"
proof -
  have dir: "swap_direction p (wsol_mint sample_sdk) (Pubkey [2])
      \<lparr>sa_owner = ow, sa_input_mint = wsol_mint sample_sdk, sa_output_mint = Pubkey [2],
       sa_input_token_account = i, sa_output_token_account = t\<rparr> = Inr True" for p ow i t
    using sample_mints by (simp add: swap_direction_iff)
  have ix: "is_ok (cpmm_swap_instruction sample_sdk sol_cpmm
      \<lparr>sa_owner = ow, sa_input_mint = wsol_mint sample_sdk, sa_output_mint = Pubkey [2],
       sa_input_token_account = i, sa_output_token_account = t\<rparr> a b)" for ow i t a b
    by (simp add: cpmm_swap_instruction_def sol_cpmm_def sample_cpmm_def dir Let_def)
  have total: "\<exists>x. sync_native sample_sdk p a = Inr x" "\<exists>x. close_account sample_sdk p a d w l = Inr x"
    "\<exists>x. transfer_checked sample_sdk p a c d w l n k = Inr x" for p a c d w l n k
    by (simp_all add: sample_sdk_def)
  have legs: "\<exists>legs. resolve_legs sample_sdk (intent_owner buy_intent) (cpmm_pool_market sample_sdk sol_cpmm)
      (intent_input_mint buy_intent) (intent_output_mint buy_intent) = Inr legs"
    using sample_mints
    by (auto simp: resolve_legs_def buy_fields cpmm_is_side_0_def side_of_def sol_cpmm_def sample_cpmm_def)
  then obtain legs where legs: "resolve_legs sample_sdk (intent_owner buy_intent)
      (cpmm_pool_market sample_sdk sol_cpmm) (intent_input_mint buy_intent) (intent_output_mint buy_intent)
      = Inr legs" ..
  have wrap: "is_ok (wrap_input sample_sdk buy_intent legs False q)"
    using total(1) by (auto simp: wrap_input_def wrap_lamports_def is_ok_iff Let_def rbind_Inr_iff map_err_Inr_iff)
  have fee: "is_ok (fee_transfer sample_sdk (dq_fee q) src own)" for src own
    using total(3)
    by (auto simp: fee_transfer_def transfer_instruction_def is_ok_iff rbind_Inr_iff map_err_Inr_iff
        split: option.splits)
  have out: "is_ok (output_fee sample_sdk buy_intent legs False q)"
    using fee by (auto simp: output_fee_def is_ok_iff rbind_Inr_iff)
  have close: "is_ok (close_wsol sample_sdk buy_intent legs)"
    using total(2) by (auto simp: close_wsol_def is_ok_iff rbind_Inr_iff map_err_Inr_iff split: option.splits)
  show ?thesis
    using wrap fee [of "legs_input_account legs" "intent_owner buy_intent"] out close
      ix [of "intent_owner buy_intent" "legs_input_account legs" "legs_output_account legs"
        "dq_swap_amount_in q" "dq_min_out q"]
    by (auto simp: build_plan_def legs [unfolded buy_fields] Let_def is_ok_iff buy_fields)
qed

section \<open>Properties\<close>

text \<open>C1: a planned swap does what was quoted. For any request the engine quotes and any plan it
  builds from that quote, the plan's instructions are one by one the steps \<open>plan_steps\<close> lists for the request, on
  the wallet's own two accounts; and run on a wallet that holds the input, with any output at or above the
  guaranteed minimum, the steps never touch a token account the wallet does not have, never overdraw one,
  trade under the computed budget, spend exactly the requested amount and leave the wallet with the
  output less the platform fee, at least the guaranteed net minimum. A WSOL account used on the way is
  empty and closed at the end, so that SOL arrives as SOL, and the other accounts are left open. A venue that
  settles in native SOL is assumed not to trade USDC.\<close>

theorem planned_swap_is_solvent:
  assumes "quote_with_market sdk intent market = Inr q"
    and "build_plan sdk price intent market q = Inr p"
    and "pm_settles_native_sol market \<Longrightarrow>
       intent_input_mint intent \<noteq> usdc_mint sdk \<and> intent_output_mint intent \<noteq> usdc_mint sdk"
    and "unat (intent_amount_in intent) \<le>
        (if wraps_native sdk intent then led_native s else led_tokens s InputLeg)"
    and "led_unsynced s InputLeg = 0" and "led_unsynced s OutputLeg = 0"
    and "unat (dq_min_out q) \<le> delivered"
    and "steps = plan_steps sdk price (pm_compute_units market) (pm_settles_native_sol market) intent q"
  shows "\<exists>legs s'. resolve_legs sdk (intent_owner intent) market (intent_input_mint intent) (intent_output_mint intent) = Inr legs
     \<and> list_all2 (realises sdk intent market legs (dq_fee q)) (plan_instructions p) steps
     \<and> run_plan sdk (pm_settles_native_sol market) intent delivered steps s = Some s'
     \<and> holding (wraps_native sdk intent) InputLeg s' + unat (intent_amount_in intent)
         = holding (wraps_native sdk intent) InputLeg s
     \<and> holding (unwraps_native sdk intent) OutputLeg s'
         = holding (unwraps_native sdk intent) OutputLeg s + delivered
           - (if fee_leg (dq_fee q) = OutputSide then unat (fee_units (dq_fee q)) else 0)
     \<and> holding (unwraps_native sdk intent) OutputLeg s + unat (dq_min_net_out q)
         \<le> holding (unwraps_native sdk intent) OutputLeg s'
     \<and> (led_open s' InputLeg \<longleftrightarrow> \<not> wraps_native sdk intent) \<and> (led_open s' OutputLeg \<longleftrightarrow> \<not> unwraps_native sdk intent)
     \<and> (\<forall>l. \<not> led_open s' l \<longrightarrow> led_tokens s' l = 0 \<and> led_unsynced s' l = 0)
     \<and> led_limit s' = Some (compute_unit_limit (pm_compute_units market)) \<and> led_price s' = Some price"
proof -
  note facts = quote_with_market_Inr [OF assms(1)]
  obtain legs where legs: "resolve_legs sdk (intent_owner intent) market (intent_input_mint intent)
      (intent_output_mint intent) = Inr legs"
    using assms(2) by (auto simp: build_plan_def rbind_Inr_iff)
  have "intent_input_mint intent \<noteq> intent_output_mint intent" using facts(1) by (simp add: res_simps)
  then have mints: "\<not> (wraps_native sdk intent \<and> unwraps_native sdk intent)"
    by (auto simp: wraps_native_def unwraps_native_def is_wsol_def)
  have native: "pm_settles_native_sol market \<and> fee_leg (dq_fee q) = OutputSide \<longrightarrow> unwraps_native sdk intent"
    "pm_settles_native_sol market \<and> fee_leg (dq_fee q) = InputSide \<longrightarrow> wraps_native sdk intent"
    using facts(5) assms(3)
    by (auto simp: for_pair_def is_reference_mint_def unwraps_native_def wraps_native_def is_wsol_def
        split: if_splits)
  obtain s' where run: "run_plan sdk (pm_settles_native_sol market) intent delivered steps s = Some s'"
    and spent: "holding (wraps_native sdk intent) InputLeg s' + unat (intent_amount_in intent)
         = holding (wraps_native sdk intent) InputLeg s"
    and gained: "holding (unwraps_native sdk intent) OutputLeg s'
         = holding (unwraps_native sdk intent) OutputLeg s + delivered
           - (if fee_leg (dq_fee q) = OutputSide then unat (fee_units (dq_fee q)) else 0)"
    and settled: "led_open s' = (\<lambda>l. \<not> (case l of InputLeg \<Rightarrow> wraps_native sdk intent | OutputLeg \<Rightarrow> unwraps_native sdk intent))"
      "\<forall>l. \<not> led_open s' l \<longrightarrow> led_tokens s' l = 0 \<and> led_unsynced s' l = 0"
      "led_limit s' = Some (compute_unit_limit (pm_compute_units market))" "led_price s' = Some price"
    using run_plan_steps [OF quote_with_market_balanced [OF assms(1)] facts(9) mints native assms(4-7),
        of price "pm_compute_units market"] unfolding assms(8) by blast
  have "unat (dq_min_net_out q) \<le> delivered
      - (if fee_leg (dq_fee q) = OutputSide then unat (fee_units (dq_fee q)) else 0)"
    using facts(7) assms(7) by linarith
  moreover have "unat (fee_units (dq_fee q)) \<le> delivered" if "fee_leg (dq_fee q) = OutputSide"
    using facts(6) that assms(7) by (simp add: unat_platform_fee_amount)
  ultimately have "holding (unwraps_native sdk intent) OutputLeg s + unat (dq_min_net_out q)
         \<le> holding (unwraps_native sdk intent) OutputLeg s'"
    unfolding gained by (simp split: if_splits)
  moreover have "led_open s' InputLeg \<longleftrightarrow> \<not> wraps_native sdk intent" "led_open s' OutputLeg \<longleftrightarrow> \<not> unwraps_native sdk intent"
    by (simp_all add: settled(1))
  ultimately show ?thesis
    using legs build_plan_realises [OF assms(2) legs] run spent gained settled(2-4) unfolding assms(8) by blast
qed

theorem planned_swap_is_solvent_witness:
  "\<exists>q p legs s'. quote_with_market sample_sdk buy_intent (cpmm_pool_market sample_sdk sol_cpmm) = Inr q
     \<and> build_plan sample_sdk 50000 buy_intent (cpmm_pool_market sample_sdk sol_cpmm) q = Inr p
     \<and> list_all2 (realises sample_sdk buy_intent (cpmm_pool_market sample_sdk sol_cpmm) legs (dq_fee q))
         (plan_instructions p) (plan_steps sample_sdk 50000 (pm_compute_units (cpmm_pool_market sample_sdk sol_cpmm)) False buy_intent q)
     \<and> run_plan sample_sdk False buy_intent (unat (dq_min_out q))
         (plan_steps sample_sdk 50000 (pm_compute_units (cpmm_pool_market sample_sdk sol_cpmm)) False buy_intent q)
         \<lparr>led_native = 2000000, led_open = (\<lambda>_. False), led_tokens = (\<lambda>_. 0), led_unsynced = (\<lambda>_. 0),
          led_limit = None, led_price = None\<rparr> = Some s'
     \<and> unat (dq_min_net_out q) \<le> led_tokens s' OutputLeg \<and> \<not> led_open s' InputLeg \<and> led_open s' OutputLeg
     \<and> led_native s' = 1000000"
proof -
  let ?m = "cpmm_pool_market sample_sdk sol_cpmm"
  let ?s = "\<lparr>led_native = 2000000, led_open = (\<lambda>_. False), led_tokens = (\<lambda>_. 0), led_unsynced = (\<lambda>_. 0),
     led_limit = None, led_price = None\<rparr> :: ledger"
  obtain q where q: "quote_with_market sample_sdk buy_intent ?m = Inr q"
    using buy_quote by (auto simp: is_ok_iff)
  then obtain p where p: "build_plan sample_sdk 50000 buy_intent ?m q = Inr p"
    using buy_plan_ok [OF q] by (auto simp: is_ok_iff)
  from planned_swap_is_solvent [OF q p, of ?s "unat (dq_min_out q)"] q p show ?thesis
    by (auto simp: buy_facts buy_fields holding_def)
qed

theorem quote_accounting_witness:
  "\<exists>q. quote_with_market sample_sdk buy_intent (cpmm_pool_market sample_sdk sol_cpmm) = Inr q
     \<and> unat (dq_swap_amount_in q) + unat (fee_units (dq_fee q)) = 1000000
     \<and> unat (fee_units (dq_fee q)) = 5000"
proof -
  obtain q where q: "quote_with_market sample_sdk buy_intent (cpmm_pool_market sample_sdk sol_cpmm) = Inr q"
    using buy_quote by (auto simp: is_ok_iff)
  from Platform_Fee.quote_accounting [OF q] q show ?thesis by (auto simp: buy_facts(3) buy_fields(1))
qed

theorem quote_refusals_witness:
  "quote_with_market sample_sdk (buy_intent\<lparr>intent_output_mint := Pubkey [7]\<rparr>)
     (cpmm_pool_market sample_sdk sol_cpmm)
   = Inl (PairNotInPool (Pubkey [3]) (wsol_mint sample_sdk) (Pubkey [7]))"
proof -
  let ?i = "buy_intent\<lparr>intent_output_mint := Pubkey [7]\<rparr>" and ?m = "cpmm_pool_market sample_sdk sol_cpmm"
  have neq: "wsol_mint sample_sdk \<noteq> Pubkey [7]"
    by (simp add: wsol_mint_def sample_sdk_def SOL_MINT_def text_key_def)
  have valid: "validate sample_sdk ?i = Inr ()"
    using neq by (simp add: validate_def buy_intent_def MAX_SLIPPAGE_BPS_def)
  have no_pair: "\<not> trades ?m (intent_input_mint ?i) (intent_output_mint ?i)"
    using neq by (simp add: trades_def sol_cpmm_def sample_cpmm_def buy_intent_def)
  then obtain e where e: "quote_with_market sample_sdk ?i ?m = Inl e"
    using valid by (simp add: quote_with_market_def)
  from Platform_Fee.quote_refusals [OF e] e valid no_pair show ?thesis
    by (auto simp: quote_with_market_def)
      (simp_all add: cpmm_pool_market_def sol_cpmm_def sample_cpmm_def buy_intent_def Let_def)
qed

end
